(* ===== verification/Prelude.thy ===== *)
theory Prelude
  imports "HOL-Library.Word"
begin

text \<open>
  Shared vocabulary of the development: the C integer types as machine words, the byte
  order helpers of a little-endian host, reads and writes of a byte buffer (the memory
  between the data and data_end pointers of a packet), and partial maps updated in place
  (the memory behind a pointer returned by a map lookup), with the simplification facts
  the component theories share.
\<close>

unbundle bit_operations_syntax

section \<open>Machine integers\<close>

type_synonym u8 = "8 word"
type_synonym u16 = "16 word"
type_synonym u32 = "32 word"
type_synonym u64 = "64 word"
type_synonym bytes = "8 word list"

named_theorems buf_simps "reads over writes of a byte buffer"
named_theorems map_upd_simps "in-place updates of partial maps"

definition bswap16 :: "u16 \<Rightarrow> u16" where
  "bswap16 w = push_bit 8 w OR drop_bit 8 w"

definition bswap32 :: "u32 \<Rightarrow> u32" where
  "bswap32 w = push_bit 24 w OR (push_bit 8 w AND 0x00FF0000)
     OR (drop_bit 8 w AND 0x0000FF00) OR drop_bit 24 w"

lemma bswap16_bswap16 [simp]: "bswap16 (bswap16 w) = w"
  by (rule bit_word_eqI) (auto simp: bswap16_def bit_simps)

lemma bswap16_inject [simp]: "bswap16 a = bswap16 b \<longleftrightarrow> a = b"
  by (metis bswap16_bswap16)

text \<open>The value of a flag test x & f used as a condition.\<close>

definition has_flag :: "'a::len word \<Rightarrow> 'a word \<Rightarrow> bool" where
  "has_flag x f \<longleftrightarrow> x AND f \<noteq> 0"

lemma unat_less: "unat (w :: u32) < 2 ^ 32"
  by (rule order.strict_trans2 [OF unsigned_less]) simp

lemma unat_of_nat_below: "j < unat (hi :: u32) \<Longrightarrow> unat (of_nat j :: u32) = j"
  using unat_less [of hi] by (simp add: unsigned_of_nat take_bit_nat_eq_self)

text \<open>Words whose high bits are clear are small, and non-negative when read as signed.\<close>

lemma uint_less_bits:
  assumes "\<And>n. k \<le> n \<Longrightarrow> n < LENGTH('a) \<Longrightarrow> \<not> bit (w :: 'a::len word) n"
  shows "uint w < 2 ^ k"
proof -
  have "n < k" if "bit w n" for n
    using assms [of n] that bit_imp_le_length [OF that] by (meson not_le)
  then have "take_bit k w = w"
    by (intro bit_word_eqI) (auto simp: bit_take_bit_iff)
  then have "uint w = take_bit k (uint w)"
    by (metis unsigned_take_bit_eq)
  then show ?thesis
    by (metis take_bit_int_less_exp)
qed

lemma sint_eq_uint_bits:
  assumes "\<And>n. 31 \<le> n \<Longrightarrow> n < 32 \<Longrightarrow> \<not> bit (w :: u32) n"
  shows "sint w = uint w"
proof -
  have "uint w < 2 ^ 31"
    by (rule uint_less_bits) (use assms in auto)
  moreover have "- (2 ^ 31) \<le> uint w"
    by (rule order_trans [of _ 0]) simp_all
  ultimately show ?thesis
    by (simp add: sint_uint signed_take_bit_int_eq_self)
qed

lemma uint_drop_bit: "uint (drop_bit n (w :: 'a::len word)) = uint w div 2 ^ n"
proof -
  have "uint (drop_bit n w) = drop_bit n (take_bit LENGTH('a) (uint w))"
    by (rule unsigned_drop_bit_eq)
  also have "\<dots> = drop_bit n (uint w)"
    using take_bit_int_eq_self [of "uint w" "LENGTH('a)"] uint_bounded [of w] by simp
  also have "\<dots> = uint w div 2 ^ n"
    by (rule drop_bit_eq_div)
  finally show ?thesis .
qed

lemma uint_and_mask: "uint (w AND mask n) = uint (w :: 'a::len word) mod 2 ^ n"
  by (simp only: take_bit_eq_mask [symmetric] unsigned_take_bit_eq) (simp add: take_bit_eq_mod)

lemma uint_and_ffff: "uint (w AND 0xffff) = uint (w :: 'a::len word) mod 65536"
  using uint_and_mask [of w 16] by (simp add: mask_eq_exp_minus_1)

lemma mod_swap: "(a :: int) mod m = b mod m \<Longrightarrow> x = y - b + a \<Longrightarrow> x mod m = y mod m"
  by (simp add: mod_eq_dvd_iff)

text \<open>A property of bytes may be checked on all of them.\<close>

lemma u8_exhaust: "\<forall>n\<in>set [0..<256]. P (of_nat n) \<Longrightarrow> P (w :: u8)"
proof -
  assume a: "\<forall>n\<in>set [0..<256]. P (of_nat n)"
  have "unat w < 256"
    using unsigned_less [of w] by simp
  with a have "P (of_nat (unat w))"
    by (metis atLeastLessThan_iff set_upt zero_le)
  then show ?thesis by simp
qed

lemma and_exp_bit: "w AND 2 ^ n = 2 ^ n \<longleftrightarrow> bit (w :: 'a::len word) n" if "n < LENGTH('a)"
proof
  assume "w AND 2 ^ n = 2 ^ n"
  then have "bit (w AND 2 ^ n) n"
    using that by (simp add: bit_exp_iff)
  then show "bit w n"
    by (simp add: bit_and_iff)
next
  assume "bit w n"
  then show "w AND 2 ^ n = 2 ^ n"
    by (intro bit_word_eqI) (auto simp: bit_simps)
qed

lemma pair_of_fst: "fst r = a \<Longrightarrow> r = (a, snd r)"
  by (cases r) simp

lemma triple_of_fst: "fst r = a \<Longrightarrow> r = (a, fst (snd r), snd (snd r))"
  by (cases r) simp

section \<open>Byte buffers\<close>

text \<open>
  A read outside the buffer has no value in C; every read of the model is guarded by the
  bounds check of the code, and the few reads which are not guarded there are written with
  an option result. The value chosen here for a read past the end is therefore never used.
\<close>

definition rd8 :: "bytes \<Rightarrow> nat \<Rightarrow> u8" where
  "rd8 p i = (if i < length p then p ! i else 0)"

definition rd16 :: "bytes \<Rightarrow> nat \<Rightarrow> u16" where
  "rd16 p i = ucast (rd8 p i) OR push_bit 8 (ucast (rd8 p (i + 1)))"

definition rd32 :: "bytes \<Rightarrow> nat \<Rightarrow> u32" where
  "rd32 p i = ucast (rd16 p i) OR push_bit 16 (ucast (rd16 p (i + 2)))"

definition bslice :: "bytes \<Rightarrow> nat \<Rightarrow> nat \<Rightarrow> bytes" where
  "bslice p i n = map (\<lambda>k. rd8 p (i + k)) [0..<n]"

definition le16 :: "u16 \<Rightarrow> bytes" where
  "le16 w = [ucast w, ucast (drop_bit 8 w)]"

definition le32 :: "u32 \<Rightarrow> bytes" where
  "le32 w = [ucast w, ucast (drop_bit 8 w), ucast (drop_bit 16 w), ucast (drop_bit 24 w)]"

text \<open>Write a run of bytes at an offset; what would land outside the buffer is dropped.\<close>

fun wr :: "bytes \<Rightarrow> nat \<Rightarrow> bytes \<Rightarrow> bytes" where
  "wr p i [] = p"
| "wr p i (b # bs) = wr (p[i := b]) (Suc i) bs"

lemma length_wr [simp]: "length (wr p i bs) = length p"
  by (induction bs arbitrary: p i) auto

lemma length_bslice [simp]: "length (bslice p i n) = n"
  by (simp add: bslice_def)

lemma length_le16 [simp]: "length (le16 w) = 2"
  by (simp add: le16_def)

lemma length_le32 [simp]: "length (le32 w) = 4"
  by (simp add: le32_def)

lemma nth_wr:
  "j < length p \<Longrightarrow>
    wr p i bs ! j = (if i \<le> j \<and> j < i + length bs then bs ! (j - i) else p ! j)"
proof (induction bs arbitrary: p i)
  case (Cons b bs)
  have len: "j < length (p[i := b])"
    using Cons.prems by simp
  show ?case
    using Cons.prems
    by (auto simp: Cons.IH [OF len] nth_list_update nth_Cons' le_less_Suc_eq)
qed auto

declare wr.simps [simp del]

lemma rd8_wr:
  "rd8 (wr p i bs) j =
    (if i \<le> j \<and> j < i + length bs \<and> j < length p then bs ! (j - i) else rd8 p j)"
  by (auto simp: rd8_def nth_wr)

lemma rd8_wr_outside [buf_simps]:
  "j < i \<or> i + length bs \<le> j \<Longrightarrow> rd8 (wr p i bs) j = rd8 p j"
  by (auto simp: rd8_wr)

lemma rd16_wr_outside [buf_simps]:
  "j + 2 \<le> i \<or> i + length bs \<le> j \<Longrightarrow> rd16 (wr p i bs) j = rd16 p j"
  by (auto simp: rd16_def rd8_wr)

lemma rd32_wr_outside [buf_simps]:
  "j + 4 \<le> i \<or> i + length bs \<le> j \<Longrightarrow> rd32 (wr p i bs) j = rd32 p j"
  by (auto simp: rd32_def rd16_def rd8_wr)

lemma rd8_wr_here [buf_simps]:
  "i < length p \<Longrightarrow> rd8 (wr p i [b]) i = b"
  by (simp add: rd8_wr)

lemma join16: "ucast (ucast (w :: u16) :: u8) OR push_bit 8 (ucast (ucast (drop_bit 8 w) :: u8)) = w"
  by (rule bit_word_eqI) (auto simp: bit_simps)

lemma rd16_wr_here [buf_simps]:
  "i + 2 \<le> length p \<Longrightarrow> rd16 (wr p i (le16 w)) i = w"
  by (simp add: rd16_def rd8_wr le16_def join16)

lemma join32:
  "(ucast ((ucast (ucast (w :: u32) :: u8) OR push_bit 8 (ucast (ucast (drop_bit 8 w) :: u8))) :: u16)
     OR push_bit 16 (ucast ((ucast (ucast (drop_bit 16 w) :: u8)
       OR push_bit 8 (ucast (ucast (drop_bit 24 w) :: u8))) :: u16))) = w"
proof (rule bit_word_eqI)
  fix n :: nat
  assume "n < LENGTH(32)"
  then consider "n < 8" | "8 \<le> n" "n < 16" | "16 \<le> n" "n < 24" | "24 \<le> n" "n < 32"
    by fastforce
  then show "bit ((ucast ((ucast (ucast (w :: u32) :: u8)
      OR push_bit 8 (ucast (ucast (drop_bit 8 w) :: u8))) :: u16)
     OR push_bit 16 (ucast ((ucast (ucast (drop_bit 16 w) :: u8)
       OR push_bit 8 (ucast (ucast (drop_bit 24 w) :: u8))) :: u16))) :: u32) n = bit w n"
    by cases (auto simp: bit_simps)
qed

lemma rd32_wr_here [buf_simps]:
  "i + 4 \<le> length p \<Longrightarrow> rd32 (wr p i (le32 w)) i = w"
  using join32 [of w]
  by (simp add: rd32_def rd16_def rd8_wr le32_def numeral_3_eq_3 nth_Cons')

lemma bslice_wr_here [buf_simps]:
  "i + n \<le> length p \<Longrightarrow> n = length bs \<Longrightarrow> bslice (wr p i bs) i n = bs"
  by (rule nth_equalityI) (auto simp: bslice_def rd8_wr)

lemma bslice_wr_outside [buf_simps]:
  "j + n \<le> i \<or> i + length bs \<le> j \<Longrightarrow> bslice (wr p i bs) j n = bslice p j n"
  by (rule nth_equalityI) (auto simp: bslice_def rd8_wr)

lemma drop_wr [buf_simps]: "i + length bs \<le> j \<Longrightarrow> drop j (wr p i bs) = drop j p"
  by (rule nth_equalityI) (auto simp: nth_wr)

lemma take_wr [buf_simps]: "j \<le> i \<Longrightarrow> take j (wr p i bs) = take j p"
  by (rule nth_equalityI) (auto simp: nth_wr)

lemma rd8_drop: "rd8 (drop n p) i = rd8 p (n + i)"
  by (auto simp: rd8_def)

lemma rd16_drop: "rd16 (drop n p) i = rd16 p (n + i)"
  by (simp add: rd16_def rd8_drop add.assoc)

lemma rd32_drop: "rd32 (drop n p) i = rd32 p (n + i)"
  by (simp add: rd32_def rd16_drop add.assoc)

lemma bslice_drop: "bslice (drop n p) i m = bslice p (n + i) m"
  by (simp add: bslice_def rd8_drop add.assoc)

section \<open>Maps updated in place\<close>

text \<open>
  A lookup of a BPF map returns a pointer to the stored value, or NULL; the code then
  changes the value through the pointer. upd_entry is that assignment; on a missing
  key there is no value to assign.
\<close>

definition upd_entry :: "('k \<rightharpoonup> 'v) \<Rightarrow> 'k \<Rightarrow> ('v \<Rightarrow> 'v) \<Rightarrow> ('k \<rightharpoonup> 'v)" where
  "upd_entry m k f = (case m k of None \<Rightarrow> m | Some v \<Rightarrow> m(k \<mapsto> f v))"

lemma upd_entry_here [map_upd_simps]: "upd_entry m k f k = map_option f (m k)"
  by (simp add: upd_entry_def split: option.splits)

lemma upd_entry_other [map_upd_simps]: "k' \<noteq> k \<Longrightarrow> upd_entry m k f k' = m k'"
  by (simp add: upd_entry_def split: option.splits)

lemma dom_upd_entry [simp]: "dom (upd_entry m k f) = dom m"
  by (auto simp: upd_entry_def split: option.splits)

lemma upd_entry_None [simp]: "upd_entry m k f k' = None \<longleftrightarrow> m k' = None"
  by (auto simp: upd_entry_def split: option.splits)

lemma upd_entry_upd_entry [map_upd_simps]:
  "upd_entry (upd_entry m k f) k g = upd_entry m k (g \<circ> f)"
  by (auto simp: upd_entry_def split: option.splits)

end
