(* ===== verification/Consts.thy ===== *)
theory Consts
  imports Prelude
begin

text \<open>
  The constants of lib/bpf/balancer_consts.h and the introspection event numbers of
  lib/bpf/introspection.h, at the values the header gives when the build does not override
  them, and the sizes and protocol numbers of the Linux headers the data plane uses (size of
  the Ethernet, IP, ICMP, UDP and TCP headers; IP protocol numbers; ICMP types and codes).
  CH_RINGS_SIZE and STATS_MAP_SIZE have no readable definition in the header, so they are
  fields of the build configuration of theory Structs and not constants here.
\<close>

named_theorems const_defs "definitions of the C constants"

section \<open>balancer_consts.h\<close>

definition BE_ETH_P_IP :: u16 where [const_defs]: "BE_ETH_P_IP = 8"
definition BE_ETH_P_IPV6 :: u16 where [const_defs]: "BE_ETH_P_IPV6 = 56710"
definition GUEV1_IPV6MASK :: u8 where [const_defs]: "GUEV1_IPV6MASK = 0x30"
definition FURTHER_PROCESSING :: int where [const_defs]: "FURTHER_PROCESSING = - 1"
definition STABLE_RT_NO_SERVER_ID :: u32 where [const_defs]: "STABLE_RT_NO_SERVER_ID = 0"
definition PCKT_FRAGMENTED :: u16 where [const_defs]: "PCKT_FRAGMENTED = 65343"
definition RING_SIZE :: u32 where [const_defs]: "RING_SIZE = 65537"
definition MAX_VIPS :: u32 where [const_defs]: "MAX_VIPS = 512"
definition MAX_REALS :: u32 where [const_defs]: "MAX_REALS = 4096"
definition MAX_LPM_SRC :: u32 where [const_defs]: "MAX_LPM_SRC = 3000000"
definition MAX_QUIC_REALS :: u32 where [const_defs]: "MAX_QUIC_REALS = 0x00fffffe"
definition CTL_MAP_SIZE :: u32 where [const_defs]: "CTL_MAP_SIZE = 16"
definition SUBPROGRAMS_ARRAY_SIZE :: u32 where [const_defs]: "SUBPROGRAMS_ARRAY_SIZE = 1"
definition RECIRCULATION_INDEX :: u32 where [const_defs]: "RECIRCULATION_INDEX = 0"
definition QUIC_STATS_MAP_SIZE :: u32 where [const_defs]: "QUIC_STATS_MAP_SIZE = 1"
definition TPR_STATS_MAP_SIZE :: u32 where [const_defs]: "TPR_STATS_MAP_SIZE = 1"
definition STABLE_RT_STATS_MAP_SIZE :: u32 where [const_defs]: "STABLE_RT_STATS_MAP_SIZE = 1"
definition MAX_SUPPORTED_CPUS :: u32 where [const_defs]: "MAX_SUPPORTED_CPUS = 128"
definition ONE_SEC :: u64 where [const_defs]: "ONE_SEC = 1000000000"
definition LRU_UDP_TIMEOUT :: u64 where [const_defs]: "LRU_UDP_TIMEOUT = 30000000000"
definition F_IPV6 :: u8 where [const_defs]: "F_IPV6 = 1"
definition F_LOCAL_REAL :: u8 where [const_defs]: "F_LOCAL_REAL = 2"
definition F_HASH_NO_SRC_PORT :: u32 where [const_defs]: "F_HASH_NO_SRC_PORT = 1"
definition F_LRU_BYPASS :: u32 where [const_defs]: "F_LRU_BYPASS = 2"
definition F_QUIC_VIP :: u32 where [const_defs]: "F_QUIC_VIP = 4"
definition F_HASH_DPORT_ONLY :: u32 where [const_defs]: "F_HASH_DPORT_ONLY = 8"
definition F_SRC_ROUTING :: u32 where [const_defs]: "F_SRC_ROUTING = 16"
definition F_LOCAL_VIP :: u32 where [const_defs]: "F_LOCAL_VIP = 32"
definition F_GLOBAL_LRU :: u32 where [const_defs]: "F_GLOBAL_LRU = 64"
definition F_HASH_SRC_DST_PORT :: u32 where [const_defs]: "F_HASH_SRC_DST_PORT = 128"
definition F_UDP_STABLE_ROUTING_VIP :: u32 where [const_defs]: "F_UDP_STABLE_ROUTING_VIP = 256"
definition F_ICMP :: u8 where [const_defs]: "F_ICMP = 1"
definition F_SYN_SET :: u8 where [const_defs]: "F_SYN_SET = 2"
definition DEFAULT_TTL :: u8 where [const_defs]: "DEFAULT_TTL = 64"
definition QUIC_LONG_HEADER :: u8 where [const_defs]: "QUIC_LONG_HEADER = 0x80"
definition STABLE_ROUTING_HEADER :: u8 where [const_defs]: "STABLE_ROUTING_HEADER = 0x52"
definition QUIC_HANDSHAKE :: u8 where [const_defs]: "QUIC_HANDSHAKE = 0x20"
definition QUIC_PACKET_TYPE_MASK :: u8 where [const_defs]: "QUIC_PACKET_TYPE_MASK = 0x30"
definition QUIC_MIN_CONNID_LEN :: u8 where [const_defs]: "QUIC_MIN_CONNID_LEN = 8"
definition STABLE_RT_LEN :: nat where [const_defs]: "STABLE_RT_LEN = 8"
definition QUIC_CONNID_VERSION_V1 :: u8 where [const_defs]: "QUIC_CONNID_VERSION_V1 = 1"
definition QUIC_CONNID_VERSION_V2 :: u8 where [const_defs]: "QUIC_CONNID_VERSION_V2 = 2"
definition QUIC_CONNID_VERSION_V3 :: u8 where [const_defs]: "QUIC_CONNID_VERSION_V3 = 3"
definition TCP_HDR_OPT_KIND_TPR :: u8 where [const_defs]: "TCP_HDR_OPT_KIND_TPR = 0xB7"
definition TCP_HDR_OPT_LEN_TPR :: u8 where [const_defs]: "TCP_HDR_OPT_LEN_TPR = 6"
definition TCP_HDR_OPT_MAX_OPT_CHECKS :: nat where [const_defs]: "TCP_HDR_OPT_MAX_OPT_CHECKS = 15"
definition TCP_OPT_EOL :: u8 where [const_defs]: "TCP_OPT_EOL = 0"
definition TCP_OPT_NOP :: u8 where [const_defs]: "TCP_OPT_NOP = 1"
definition MAX_PCKT_SIZE :: nat where [const_defs]: "MAX_PCKT_SIZE = 1514"
definition ICMP_TOOBIG_SIZE :: nat where [const_defs]: "ICMP_TOOBIG_SIZE = 98"
definition ICMP6_TOOBIG_SIZE :: nat where [const_defs]: "ICMP6_TOOBIG_SIZE = 262"
definition ICMP6_TOOBIG_PAYLOAD_SIZE :: nat where [const_defs]: "ICMP6_TOOBIG_PAYLOAD_SIZE = ICMP6_TOOBIG_SIZE - 6"
definition ICMP_TOOBIG_PAYLOAD_SIZE :: nat where [const_defs]: "ICMP_TOOBIG_PAYLOAD_SIZE = ICMP_TOOBIG_SIZE - 6"
definition MAX_MTU_IN_PTB_TO_DROP :: u32 where [const_defs]: "MAX_MTU_IN_PTB_TO_DROP = 1280"
definition LRU_CNTRS :: u32 where [const_defs]: "LRU_CNTRS = 0"
definition LRU_MISS_CNTR :: u32 where [const_defs]: "LRU_MISS_CNTR = 1"
definition NEW_CONN_RATE_CNTR :: u32 where [const_defs]: "NEW_CONN_RATE_CNTR = 2"
definition FALLBACK_LRU_CNTR :: u32 where [const_defs]: "FALLBACK_LRU_CNTR = 3"
definition ICMP_TOOBIG_CNTRS :: u32 where [const_defs]: "ICMP_TOOBIG_CNTRS = 4"
definition LPM_SRC_CNTRS :: u32 where [const_defs]: "LPM_SRC_CNTRS = 5"
definition REMOTE_ENCAP_CNTRS :: u32 where [const_defs]: "REMOTE_ENCAP_CNTRS = 6"
definition GLOBAL_LRU_CNTR :: u32 where [const_defs]: "GLOBAL_LRU_CNTR = 8"
definition CH_DROP_STATS :: u32 where [const_defs]: "CH_DROP_STATS = 9"
definition DECAP_CNTR :: u32 where [const_defs]: "DECAP_CNTR = 10"
definition QUIC_ICMP_STATS :: u32 where [const_defs]: "QUIC_ICMP_STATS = 11"
definition ICMP_PTB_V6_STATS :: u32 where [const_defs]: "ICMP_PTB_V6_STATS = 12"
definition ICMP_PTB_V4_STATS :: u32 where [const_defs]: "ICMP_PTB_V4_STATS = 13"
definition MAX_CONN_RATE :: u64 where [const_defs]: "MAX_CONN_RATE = 125000"
definition IPIP_V4_PREFIX :: u32 where [const_defs]: "IPIP_V4_PREFIX = 4268"
definition IPIP_V6_PREFIX1 :: u32 where [const_defs]: "IPIP_V6_PREFIX1 = 1"
definition IPIP_V6_PREFIX2 :: u32 where [const_defs]: "IPIP_V6_PREFIX2 = 0"
definition IPIP_V6_PREFIX3 :: u32 where [const_defs]: "IPIP_V6_PREFIX3 = 0"
definition DEFAULT_TOS :: u8 where [const_defs]: "DEFAULT_TOS = 0"
definition GUE_DPORT :: u16 where [const_defs]: "GUE_DPORT = 6080"
definition INIT_JHASH_SEED_V6 :: u32 where [const_defs]: "INIT_JHASH_SEED_V6 = MAX_VIPS"
definition V4_SRC_INDEX :: u32 where [const_defs]: "V4_SRC_INDEX = 0"
definition V6_SRC_INDEX :: u32 where [const_defs]: "V6_SRC_INDEX = 1"
definition DST_MATCH_IN_LRU :: int where [const_defs]: "DST_MATCH_IN_LRU = 0"
definition DST_MISMATCH_IN_LRU :: int where [const_defs]: "DST_MISMATCH_IN_LRU = 1"
definition DST_NOT_FOUND_IN_LRU :: int where [const_defs]: "DST_NOT_FOUND_IN_LRU = 2"

section \<open>introspection.h\<close>

definition MAX_EVENT_SIZE :: int where [const_defs]: "MAX_EVENT_SIZE = 128"
definition TCP_NONSYN_LRUMISS :: u32 where [const_defs]: "TCP_NONSYN_LRUMISS = 0"
definition PACKET_TOOBIG :: u32 where [const_defs]: "PACKET_TOOBIG = 1"
definition QUIC_PACKET_DROP_NO_REAL :: u32 where [const_defs]: "QUIC_PACKET_DROP_NO_REAL = 2"

section \<open>Linux headers\<close>

definition XDP_ABORTED :: int where [const_defs]: "XDP_ABORTED = 0"
definition XDP_DROP :: int where [const_defs]: "XDP_DROP = 1"
definition XDP_PASS :: int where [const_defs]: "XDP_PASS = 2"
definition XDP_TX :: int where [const_defs]: "XDP_TX = 3"
definition ETH_HLEN :: nat where [const_defs]: "ETH_HLEN = 14"
definition IP_HLEN :: nat where [const_defs]: "IP_HLEN = 20"
definition IP6_HLEN :: nat where [const_defs]: "IP6_HLEN = 40"
definition ICMP_HLEN :: nat where [const_defs]: "ICMP_HLEN = 8"
definition ICMP6_HLEN :: nat where [const_defs]: "ICMP6_HLEN = 8"
definition UDP_HLEN :: nat where [const_defs]: "UDP_HLEN = 8"
definition TCP_HLEN :: nat where [const_defs]: "TCP_HLEN = 20"
definition IPPROTO_ICMP :: u8 where [const_defs]: "IPPROTO_ICMP = 1"
definition IPPROTO_IPIP :: u8 where [const_defs]: "IPPROTO_IPIP = 4"
definition IPPROTO_TCP :: u8 where [const_defs]: "IPPROTO_TCP = 6"
definition IPPROTO_UDP :: u8 where [const_defs]: "IPPROTO_UDP = 17"
definition IPPROTO_IPV6 :: u8 where [const_defs]: "IPPROTO_IPV6 = 41"
definition IPPROTO_FRAGMENT :: u8 where [const_defs]: "IPPROTO_FRAGMENT = 44"
definition IPPROTO_ICMPV6 :: u8 where [const_defs]: "IPPROTO_ICMPV6 = 58"
definition ICMP_ECHOREPLY :: u8 where [const_defs]: "ICMP_ECHOREPLY = 0"
definition ICMP_DEST_UNREACH :: u8 where [const_defs]: "ICMP_DEST_UNREACH = 3"
definition ICMP_ECHO :: u8 where [const_defs]: "ICMP_ECHO = 8"
definition ICMP_HOST_UNREACH :: u8 where [const_defs]: "ICMP_HOST_UNREACH = 1"
definition ICMP_PORT_UNREACH :: u8 where [const_defs]: "ICMP_PORT_UNREACH = 3"
definition ICMP_FRAG_NEEDED :: u8 where [const_defs]: "ICMP_FRAG_NEEDED = 4"
definition ICMPV6_DEST_UNREACH :: u8 where [const_defs]: "ICMPV6_DEST_UNREACH = 1"
definition ICMPV6_PKT_TOOBIG :: u8 where [const_defs]: "ICMPV6_PKT_TOOBIG = 2"
definition ICMPV6_ECHO_REQUEST :: u8 where [const_defs]: "ICMPV6_ECHO_REQUEST = 128"
definition ICMPV6_ECHO_REPLY :: u8 where [const_defs]: "ICMPV6_ECHO_REPLY = 129"
definition ICMPV6_ADDR_UNREACH :: u8 where [const_defs]: "ICMPV6_ADDR_UNREACH = 3"
definition ICMPV6_PORT_UNREACH :: u8 where [const_defs]: "ICMPV6_PORT_UNREACH = 4"

end
