(* ===== verification/Structs.thy ===== *)
theory Structs
  imports Consts
begin

text \<open>
  The data of the XDP balancer: lib/bpf/balancer_structs.h as records, the BPF maps of
  lib/bpf/balancer_maps.h, control_data_maps.h and flow_debug_maps.h as one state record,
  the build options as a record of booleans and the kernel helpers as a record of
  functions. A union of one address word with four (src with srcv6, dst with dstv6, vip with
  vipv6) is one address of four words whose first word is the IPv4 member.
\<close>

section \<open>balancer_structs.h\<close>

datatype addr = Addr (w0: u32) (w1: u32) (w2: u32) (w3: u32)

definition zero_addr :: addr where
  "zero_addr = Addr 0 0 0 0"

definition set_w0 :: "u32 \<Rightarrow> addr \<Rightarrow> addr" where
  "set_w0 a x = Addr a (w1 x) (w2 x) (w3 x)"

lemma set_w0_sel [simp]:
  "w0 (set_w0 a x) = a" "w1 (set_w0 a x) = w1 x" "w2 (set_w0 a x) = w2 x" "w3 (set_w0 a x) = w3 x"
  by (simp_all add: set_w0_def)

lemma set_w0_Addr [simp]: "set_w0 a (Addr b c d e) = Addr a c d e"
  by (simp add: set_w0_def)

record flow_key =
  src :: addr
  dst :: addr
  port0 :: u16
  port1 :: u16
  proto :: u8

definition flow_ports :: "flow_key \<Rightarrow> u32" where
  "flow_ports f = ucast (port0 f) OR push_bit 16 (ucast (port1 f))"

record packet_description =
  flow :: flow_key
  real_index :: u32
  pflags :: u8
  tos :: u8

definition zero_flow :: flow_key where
  "zero_flow = \<lparr>src = zero_addr, dst = zero_addr, port0 = 0, port1 = 0, proto = 0\<rparr>"

definition zero_pckt :: packet_description where
  "zero_pckt = \<lparr>flow = zero_flow, real_index = 0, pflags = 0, tos = 0\<rparr>"

record ctl_value =
  ctl_bits :: u64

definition ctl_mac :: "ctl_value \<Rightarrow> bytes" where
  "ctl_mac c = map (\<lambda>i. ucast (drop_bit (8 * i) (ctl_bits c))) [0..<6]"

definition ctl_ifindex :: "ctl_value \<Rightarrow> u32" where
  "ctl_ifindex c = ucast (ctl_bits c)"

record vip_definition =
  vip_addr :: addr
  vip_port :: u16
  vip_proto :: u8

record vip_meta =
  vip_flags :: u32
  vip_num :: u32

record real_pos_lru =
  pos :: u32
  atime :: u64

record real_definition =
  real_dst :: addr
  real_flags :: u8

record lb_stats =
  v1 :: u64
  v2 :: u64

record event_metadata =
  ev_event :: u32
  ev_pkt_size :: u32
  ev_data_len :: u32

record flow_debug_info =
  l4_hop :: addr
  this_hop :: addr

record lb_quic_packets_stats =
  q_ch_routed :: u64
  q_cid_initial :: u64
  q_cid_invalid_server_id :: u64
  q_cid_invalid_server_id_sample :: u64
  q_cid_routed :: u64
  q_cid_unknown_real_dropped :: u64
  q_cid_v0 :: u64
  q_cid_v1 :: u64
  q_cid_v2 :: u64
  q_cid_v3 :: u64
  q_dst_match_in_lru :: u64
  q_dst_mismatch_in_lru :: u64
  q_dst_not_found_in_lru :: u64

record lb_tpr_packets_stats =
  t_ch_routed :: u64
  t_dst_mismatch_in_lru :: u64
  t_sid_routed :: u64
  t_tcp_syn :: u64

record lb_stable_rt_packets_stats =
  s_ch_routed :: u64
  s_cid_routed :: u64
  s_cid_invalid_server_id :: u64
  s_cid_unknown_real_dropped :: u64
  s_invalid_packet_type :: u64

section \<open>Addresses in a packet\<close>

definition rd_addr6 :: "bytes \<Rightarrow> nat \<Rightarrow> addr" where
  "rd_addr6 p i = Addr (rd32 p i) (rd32 p (i + 4)) (rd32 p (i + 8)) (rd32 p (i + 12))"

definition addr_bytes :: "addr \<Rightarrow> bytes" where
  "addr_bytes a = le32 (w0 a) @ le32 (w1 a) @ le32 (w2 a) @ le32 (w3 a)"

lemma length_addr_bytes [simp]: "length (addr_bytes a) = 16"
  by (simp add: addr_bytes_def)

lemma wr_append: "wr p i (xs @ ys) = wr (wr p i xs) (i + length xs) ys"
  by (induction xs arbitrary: p i) (simp_all add: wr.simps)

lemma rd_addr6_wr_outside [buf_simps]:
  "j + 16 \<le> i \<or> i + length bs \<le> j \<Longrightarrow> rd_addr6 (wr p i bs) j = rd_addr6 p j"
  by (auto simp: rd_addr6_def buf_simps)

lemma rd32_wr_at: "i = j \<Longrightarrow> i + 4 \<le> length p \<Longrightarrow> rd32 (wr p i (le32 w)) j = w"
  by (simp add: buf_simps)

lemma rd_addr6_wr_here [buf_simps]:
  "i + 16 \<le> length p \<Longrightarrow> rd_addr6 (wr p i (addr_bytes a)) i = a"
  by (cases a) (simp add: rd_addr6_def addr_bytes_def wr_append rd32_wr_at rd32_wr_outside)

lemma addr_bytes_rd_addr6 [buf_simps]:
  "i + 16 \<le> length p \<Longrightarrow> rd_addr6 (wr p i (addr_bytes (rd_addr6 q j))) i = rd_addr6 q j"
  by (rule rd_addr6_wr_here)

section \<open>Build options\<close>

text \<open>
  One field per preprocessor option the data plane tests, and the two macros which the
  header leaves without a readable value.
\<close>

record config =
  LPM_SRC_LOOKUP :: bool
  INLINE_DECAP_GENERIC :: bool
  INLINE_DECAP_IPIP :: bool
  INLINE_DECAP_GUE :: bool
  GLOBAL_LRU_LOOKUP :: bool
  UDP_STABLE_ROUTING :: bool
  TCP_SERVER_ID_ROUTING :: bool
  LOCAL_DELIVERY_OPTIMIZATION :: bool
  GUE_ENCAP :: bool
  ICMP_TOOBIG_GENERATION :: bool
  VSOSHLB_INTROSPECTION :: bool
  DECAP_STRICT_DESTINATION :: bool
  VSOSHLB_TEST_MODE :: bool
  CH_RINGS_SIZE :: u32
  STATS_MAP_SIZE :: u32

section \<open>State of the data plane\<close>

type_synonym lru = "flow_key \<rightharpoonup> real_pos_lru"

text \<open>
  xdata is the packet between the data and data_end pointers of xdp_md; the other
  fields are the maps, per-CPU maps seen from the CPU which runs the program. A map of
  type BPF_MAP_TYPE_ARRAY is defined exactly on the indices below its max_entries
  (theory BpfMaps). events is what bpf_perf_event_output has sent.
\<close>

record bst =
  xdata :: bytes
  vip_map :: "vip_definition \<rightharpoonup> vip_meta"
  fallback_cache :: lru
  lru_mapping :: "u32 \<rightharpoonup> lru"
  ch_rings :: "u32 \<rightharpoonup> u32"
  reals :: "u32 \<rightharpoonup> real_definition"
  reals_stats :: "u32 \<rightharpoonup> lb_stats"
  lru_miss_stats :: "u32 \<rightharpoonup> u32"
  vip_miss_stats :: "u32 \<rightharpoonup> vip_definition"
  stats :: "u32 \<rightharpoonup> lb_stats"
  quic_stats_map :: "u32 \<rightharpoonup> lb_quic_packets_stats"
  stable_rt_stats :: "u32 \<rightharpoonup> lb_stable_rt_packets_stats"
  decap_vip_stats :: "u32 \<rightharpoonup> lb_stats"
  server_id_map :: "u32 \<rightharpoonup> u32"
  lpm_src_v4 :: "u32 \<times> u32 \<rightharpoonup> u32"
  lpm_src_v6 :: "u32 \<times> addr \<rightharpoonup> u32"
  global_lru_maps :: "u32 \<rightharpoonup> (flow_key \<rightharpoonup> u32)"
  fallback_glru :: "flow_key \<rightharpoonup> u32"
  tpr_stats_map :: "u32 \<rightharpoonup> lb_tpr_packets_stats"
  server_id_stats :: "u32 \<rightharpoonup> lb_stats"
  ctl_array :: "u32 \<rightharpoonup> ctl_value"
  decap_dst :: "addr \<rightharpoonup> u32"
  subprograms :: "u32 \<rightharpoonup> u32"
  pckt_srcs :: "u32 \<rightharpoonup> real_definition"
  flow_debug_maps :: "u32 \<rightharpoonup> (flow_key \<rightharpoonup> flow_debug_info)"
  events :: "(event_metadata \<times> u64) list"

section \<open>Kernel helpers\<close>

text \<open>
  The kernel functions the programs call are not part of the repository; they are fields of
  a record which the definitions take as an argument. adjust_head and
  adjust_tail give the packet after a successful call and None for a call which
  returned an error; lru_update is bpf_map_update_elem on an LRU hash map, which
  may evict other entries; csum_diff is bpf_csum_diff of one 32-bit word with a
  seed.
\<close>

record kernel =
  adjust_head :: "int \<Rightarrow> bytes \<Rightarrow> bytes option"
  adjust_tail :: "int \<Rightarrow> bytes \<Rightarrow> bytes option"
  ktime :: u64
  cpu :: u32
  lru_update :: "lru \<Rightarrow> flow_key \<Rightarrow> real_pos_lru \<Rightarrow> lru"
  dbg_update :: "(flow_key \<rightharpoonup> flow_debug_info) \<Rightarrow> flow_key \<Rightarrow> flow_debug_info
     \<Rightarrow> (flow_key \<rightharpoonup> flow_debug_info)"
  csum_diff :: "u32 \<Rightarrow> u32 \<Rightarrow> int"

text \<open>The documented effect of the two resizing helpers, used as a hypothesis.\<close>

definition head_law :: "kernel \<Rightarrow> bool" where
  "head_law k \<longleftrightarrow> (\<forall>d p q. adjust_head k d p = Some q \<longrightarrow>
     (0 \<le> d \<longrightarrow> nat d \<le> length p \<and> q = drop (nat d) p) \<and>
     (d < 0 \<longrightarrow> length q = nat (- d) + length p \<and> drop (nat (- d)) q = p))"

definition tail_law :: "kernel \<Rightarrow> bool" where
  "tail_law k \<longleftrightarrow> (\<forall>d p q. adjust_tail k d p = Some q \<longrightarrow>
     d < 0 \<longrightarrow> nat (- d) < length p \<and> q = take (length p - nat (- d)) p)"

text \<open>An LRU hash map holds the entry just written; other entries are kept or evicted.\<close>

definition lru_law :: "kernel \<Rightarrow> bool" where
  "lru_law k \<longleftrightarrow> (\<forall>m f e. lru_update k m f e f = Some e \<and>
     (\<forall>g. g \<noteq> f \<longrightarrow> lru_update k m f e g = None \<or> lru_update k m f e g = m g))"

section \<open>Control flow of a program\<close>

text \<open>
  A program returns an XDP verdict, or leaves through a successful tail call; Fault
  stands for a read outside the packet. A stage of a program stops with such an outcome or
  goes on with a value.
\<close>

datatype outcome = Verdict int | Jump u32 | Fault

datatype 'a step = Stop outcome | Go 'a

section \<open>A concrete kernel and build\<close>

text \<open>
  Instances of the parameters, on which the properties with hypotheses about the kernel are
  evaluated: helpers that always succeed when the packet is long enough, an LRU map which
  evicts nothing, and the default build.
\<close>

definition ref_kernel :: kernel where
  "ref_kernel = \<lparr>
     adjust_head = (\<lambda>d p. if 0 \<le> d then (if nat d \<le> length p then Some (drop (nat d) p) else None)
                          else Some (replicate (nat (- d)) 0 @ p)),
     adjust_tail = (\<lambda>d p. if 0 \<le> d then Some (p @ replicate (nat d) 0)
                          else if nat (- d) < length p then Some (take (length p - nat (- d)) p)
                          else None),
     ktime = 60000000000, cpu = 0,
     lru_update = (\<lambda>m f e. m(f \<mapsto> e)), dbg_update = (\<lambda>m f e. m(f \<mapsto> e)),
     csum_diff = (\<lambda>a s. uint (a + s))\<rparr>"

lemma head_law_ref: "head_law ref_kernel"
  by (auto simp: head_law_def ref_kernel_def)

lemma tail_law_ref: "tail_law ref_kernel"
  by (auto simp: tail_law_def ref_kernel_def)

lemma lru_law_ref: "lru_law ref_kernel"
  by (auto simp: lru_law_def ref_kernel_def)

definition ref_config :: config where
  "ref_config = \<lparr>LPM_SRC_LOOKUP = False, INLINE_DECAP_GENERIC = False, INLINE_DECAP_IPIP = False,
     INLINE_DECAP_GUE = False, GLOBAL_LRU_LOOKUP = False, UDP_STABLE_ROUTING = False,
     TCP_SERVER_ID_ROUTING = False, LOCAL_DELIVERY_OPTIMIZATION = False, GUE_ENCAP = False,
     ICMP_TOOBIG_GENERATION = True, VSOSHLB_INTROSPECTION = False, DECAP_STRICT_DESTINATION = False,
     VSOSHLB_TEST_MODE = False, CH_RINGS_SIZE = 33554944, STATS_MAP_SIZE = 1024\<rparr>"

end
