(* ===== verification/Jhash.thy ===== *)
theory Jhash
  imports Structs
begin

text \<open>
  The flow hash: lib/linux_includes/jhash.h, and get_packet_hash of lib/bpf/balancer.bpf.c.
  The key is the byte string the pointer points to; k += 12 is drop. The loop of
  jhash mixes a, b and c but has no line which adds bytes of the key before mixing, so only
  the bytes after the last full block of twelve reach the hash.
\<close>

definition rol32 :: "u32 \<Rightarrow> u32 \<Rightarrow> u32" where
  "rol32 word shift = push_bit (unat shift) word OR drop_bit (unat ((- shift) AND 31)) word"

definition jhash_mix :: "u32 \<times> u32 \<times> u32 \<Rightarrow> u32 \<times> u32 \<times> u32" where
  "jhash_mix = (\<lambda>(a, b, c).
     let a = a - c; a = a XOR rol32 c 4;  c = c + b;
         b = b - a; b = b XOR rol32 a 6;  a = a + c;
         c = c - b; c = c XOR rol32 b 8;  b = b + a;
         a = a - c; a = a XOR rol32 c 16; c = c + b;
         b = b - a; b = b XOR rol32 a 19; a = a + c;
         c = c - b; c = c XOR rol32 b 4;  b = b + a
     in (a, b, c))"

definition jhash_final :: "u32 \<times> u32 \<times> u32 \<Rightarrow> u32 \<times> u32 \<times> u32" where
  "jhash_final = (\<lambda>(a, b, c).
     let c = c XOR b; c = c - rol32 b 14;
         a = a XOR c; a = a - rol32 c 11;
         b = b XOR a; b = b - rol32 a 25;
         c = c XOR b; c = c - rol32 b 16;
         a = a XOR c; a = a - rol32 c 4;
         b = b XOR a; b = b - rol32 a 14;
         c = c XOR b; c = c - rol32 b 24
     in (a, b, c))"

definition JHASH_INITVAL :: u32 where
  "JHASH_INITVAL = 0xdeadbeef"

text \<open>The while loop: the mixed state, the remaining length and the advanced pointer.\<close>

function jhash_loop ::
  "u32 \<times> u32 \<times> u32 \<Rightarrow> u32 \<Rightarrow> bytes \<Rightarrow> (u32 \<times> u32 \<times> u32) \<times> u32 \<times> bytes" where
  "jhash_loop abc len k =
     (if len > 12 then jhash_loop (jhash_mix abc) (len - 12) (drop 12 k) else (abc, len, k))"
  by auto

termination
  by (relation "measure (\<lambda>(abc, len, k). unat len)") (auto simp: word_less_nat_alt unat_sub_if')

declare jhash_loop.simps [simp del]

text \<open>
  The switch falls through from the case of the length down to case 1, so byte i of the
  tail is added exactly when the length exceeds i. Length 0 matches no case and the final
  mix is left out.
\<close>

definition tail_byte :: "u32 \<Rightarrow> bytes \<Rightarrow> nat \<Rightarrow> nat \<Rightarrow> u32" where
  "tail_byte len k i s = (if i < unat len then push_bit s (ucast (rd8 k i)) else 0)"

definition jhash_tail :: "u32 \<times> u32 \<times> u32 \<Rightarrow> u32 \<Rightarrow> bytes \<Rightarrow> u32" where
  "jhash_tail = (\<lambda>(a, b, c) len k.
     if len = 0 then c
     else
       let c = c + tail_byte len k 11 24 + tail_byte len k 10 16
                 + tail_byte len k 9 8 + tail_byte len k 8 0;
           b = b + tail_byte len k 7 24 + tail_byte len k 6 16
                 + tail_byte len k 5 8 + tail_byte len k 4 0;
           a = a + tail_byte len k 3 24 + tail_byte len k 2 16
                 + tail_byte len k 1 8 + tail_byte len k 0 0
       in snd (snd (jhash_final (a, b, c))))"

definition jhash :: "bytes \<Rightarrow> u32 \<Rightarrow> u32 \<Rightarrow> u32" where
  "jhash key len initval =
     (let i = JHASH_INITVAL + len + initval;
          (abc, len', k) = jhash_loop (i, i, i) len key
      in jhash_tail abc len' k)"

definition jhash_nwords :: "u32 \<Rightarrow> u32 \<Rightarrow> u32 \<Rightarrow> u32 \<Rightarrow> u32" where
  "jhash_nwords a b c initval = snd (snd (jhash_final (a + initval, b + initval, c + initval)))"

definition jhash_2words :: "u32 \<Rightarrow> u32 \<Rightarrow> u32 \<Rightarrow> u32" where
  "jhash_2words a b initval = jhash_nwords a b 0 (initval + JHASH_INITVAL + push_bit 2 2)"

definition jhash_1word :: "u32 \<Rightarrow> u32 \<Rightarrow> u32" where
  "jhash_1word a initval = jhash_nwords a 0 0 (initval + JHASH_INITVAL + push_bit 2 1)"

text \<open>
  get_packet_hash of balancer.bpf.c. INIT_JHASH_SEED is CH_RINGS_SIZE, a build parameter.
\<close>

definition get_packet_hash :: "config \<Rightarrow> packet_description \<Rightarrow> bool \<Rightarrow> u32" where
  "get_packet_hash cfg pckt hash_16bytes =
     (if hash_16bytes
      then jhash_2words (jhash (addr_bytes (src (flow pckt))) 16 INIT_JHASH_SEED_V6)
             (flow_ports (flow pckt)) (CH_RINGS_SIZE cfg)
      else jhash_2words (w0 (src (flow pckt))) (flow_ports (flow pckt)) (CH_RINGS_SIZE cfg))"

section \<open>Rotation\<close>

lemma neg_and_31_all: "\<forall>n\<in>set [1..<32]. unat ((- of_nat n) AND (31 :: u32)) = 32 - n"
  by code_simp

lemma neg_and_31: "0 < unat s \<Longrightarrow> unat s < 32 \<Longrightarrow> unat ((- s) AND (31 :: u32)) = 32 - unat s"
  using bspec [OF neg_and_31_all, of "unat s"] by simp

lemma bit_rol32:
  "0 < unat s \<Longrightarrow> unat s < 32 \<Longrightarrow> n < 32 \<Longrightarrow>
    bit (rol32 w s) n = bit w (if unat s \<le> n then n - unat s else n + 32 - unat s)"
  using neg_and_31 [of s]
  by (auto simp: rol32_def bit_simps add.commute)
     (use bit_imp_le_length [of w] in \<open>fastforce dest: bit_imp_le_length\<close>)+

lemma rol32_rotl: "0 < unat s \<Longrightarrow> unat s < 32 \<Longrightarrow> rol32 w s = word_rotl (unat s) w"
proof (rule bit_word_eqI)
  fix n :: nat
  assume s: "0 < unat s" "unat s < 32" and n: "n < LENGTH(32)"
  have "(n + (32 - unat s)) mod 32 = (if unat s \<le> n then n - unat s else n + 32 - unat s)"
  proof (cases "unat s \<le> n")
    case True
    then have "n + (32 - unat s) = 32 + (n - unat s)" "n - unat s < 32"
      using s n by auto
    then have "(n + (32 - unat s)) mod 32 = n - unat s"
      by (metis mod_add_self1 mod_less)
    then show ?thesis using True by simp
  next
    case False
    then show ?thesis using s n by simp
  qed
  then show "bit (rol32 w s) n = bit (word_rotl (unat s) w) n"
    using s n by (simp add: bit_rol32 bit_word_rotl_iff)
qed

section \<open>The part of the key the hash sees\<close>

definition tail_off :: "u32 \<Rightarrow> nat" where
  "tail_off len = 12 * ((unat len - 1) div 12)"

lemma tail_off_step: "len > 12 \<Longrightarrow> tail_off len = 12 + tail_off (len - 12)"
proof -
  assume "len > 12"
  then have "unat len > 12" "unat (len - 12) = unat len - 12"
    by (auto simp: word_less_nat_alt unat_sub_if')
  moreover obtain m where "unat len = m + 13"
    using le_Suc_ex [of 13 "unat len"] calculation(1) by (auto simp: add.commute)
  ultimately have "unat len = m + 13" "unat (len - 12) = m + 1"
    by simp_all
  moreover have "(12 + m) div 12 = 1 + m div 12"
    by simp
  ultimately show ?thesis
    by (simp add: tail_off_def del: div_add_self1)
qed

lemma jhash_loop_key:
  "jhash_loop abc len k = (abc', len', k') \<Longrightarrow> k' = drop (tail_off len) k \<and> len' \<le> 12"
proof (induction abc len k rule: jhash_loop.induct)
  case (1 abc len k)
  show ?case
  proof (cases "len > 12")
    case True
    then show ?thesis
      using 1 by (subst (asm) jhash_loop.simps) (simp add: tail_off_step add.commute)
  next
    case False
    then have "unat len \<le> 12"
      by (simp add: word_less_nat_alt)
    then have "tail_off len = 0"
      by (auto simp: tail_off_def)
    then show ?thesis
      using 1(2) False by (subst (asm) jhash_loop.simps) auto
  qed
qed

lemma jhash_loop_key_irrelevant:
  "fst (jhash_loop abc len k) = fst (jhash_loop abc len k') \<and>
   fst (snd (jhash_loop abc len k)) = fst (snd (jhash_loop abc len k'))"
proof (induction abc len k arbitrary: k' rule: jhash_loop.induct)
  case (1 abc len k)
  show ?case
  proof (cases "len > 12")
    case True
    then show ?thesis
      using "1.IH" [OF True, of "drop 12 k'"]
      by (simp add: jhash_loop.simps [of abc len k] jhash_loop.simps [of abc len k'])
  next
    case False
    then show ?thesis
      by (simp add: jhash_loop.simps [of abc len k] jhash_loop.simps [of abc len k'])
  qed
qed

lemma jhash_same_tail:
  assumes "drop (tail_off len) k = drop (tail_off len) k'"
  shows "jhash k len iv = jhash k' len iv"
proof -
  let ?i = "JHASH_INITVAL + len + iv"
  obtain abc l d where r: "jhash_loop (?i, ?i, ?i) len k = (abc, l, d)"
    by (metis prod_cases3)
  obtain abc' l' d' where r': "jhash_loop (?i, ?i, ?i) len k' = (abc', l', d')"
    by (metis prod_cases3)
  have "abc = abc'" "l = l'"
    using jhash_loop_key_irrelevant [of "(?i, ?i, ?i)" len k k'] r r' by auto
  moreover have "d = d'"
    using jhash_loop_key [OF r] jhash_loop_key [OF r'] assms by simp
  ultimately show ?thesis
    by (simp add: jhash_def Let_def r r')
qed

lemma tail_off_16: "tail_off 16 = 12"
  by (simp add: tail_off_def)

text \<open>
  The hash which picks the real server of an IPv6 flow depends on the last word of the
  source address and on the ports only: jhash mixes twelve bytes at a time without reading
  them.
\<close>

theorem get_packet_hash_v6_last_word:
  assumes "w3 (src (flow p)) = w3 (src (flow q))"
    and "port0 (flow p) = port0 (flow q)" and "port1 (flow p) = port1 (flow q)"
  shows "get_packet_hash cfg p True = get_packet_hash cfg q True"
proof -
  have "drop (tail_off 16) (addr_bytes (src (flow p))) = drop (tail_off 16) (addr_bytes (src (flow q)))"
    using assms(1) by (simp add: tail_off_16 addr_bytes_def le32_def)
  then have "jhash (addr_bytes (src (flow p))) 16 iv = jhash (addr_bytes (src (flow q))) 16 iv" for iv
    by (rule jhash_same_tail)
  then show ?thesis
    using assms by (simp add: get_packet_hash_def flow_ports_def)
qed

theorem get_packet_hash_v6_last_word_witness:
  "get_packet_hash ref_config (zero_pckt\<lparr>flow := zero_flow\<lparr>src := Addr 1 2 3 4\<rparr>\<rparr>) True
   = get_packet_hash ref_config (zero_pckt\<lparr>flow := zero_flow\<lparr>src := Addr 9 8 7 4\<rparr>\<rparr>) True"
  by (rule get_packet_hash_v6_last_word) (simp_all add: zero_pckt_def zero_flow_def)

end
