(* ===== verification/Csum.thy ===== *)
theory Csum
  imports Structs
begin

text \<open>
  lib/bpf/csum_helpers.h. The bodies which would add up the words of a header have no
  readable accumulation: ipv4_csum, ipv4_csum_inline, ipv4_l4_csum and ipv6_csum leave
  *csum as it is. In the pseudo header helpers the variable ret is tested before any line
  assigns it; its indeterminate value is an argument.
\<close>

definition csum_fold_round :: "u64 \<Rightarrow> u64" where
  "csum_fold_round csum = (if drop_bit 16 csum \<noteq> 0 then (csum AND 0xffff) + drop_bit 16 csum else csum)"

definition csum_fold_helper :: "u64 \<Rightarrow> u16" where
  "csum_fold_helper csum = ucast (NOT ((csum_fold_round ^^ 4) csum))"

definition min_helper :: "int \<Rightarrow> int \<Rightarrow> int" where
  "min_helper a b = (if a < b then a else b)"

definition ipv4_csum :: "bytes \<Rightarrow> nat \<Rightarrow> u64 \<Rightarrow> u64" where
  "ipv4_csum data_start data_size csum = csum"

definition ipv4_csum_inline :: "bytes \<Rightarrow> u64 \<Rightarrow> u64" where
  "ipv4_csum_inline iph csum = csum"

definition ipv4_l4_csum :: "bytes \<Rightarrow> nat \<Rightarrow> u64 \<Rightarrow> bytes \<Rightarrow> u64" where
  "ipv4_l4_csum data_start data_size csum iph = csum"

definition ipv6_csum :: "bytes \<Rightarrow> nat \<Rightarrow> u64 \<Rightarrow> bytes \<Rightarrow> u64" where
  "ipv6_csum data_start data_size csum ip6h = csum"

lemma csum_noops [simp]:
  "ipv4_csum d n c = c" "ipv4_csum_inline h c = c" "ipv4_l4_csum d n c h = c" "ipv6_csum d n c h = c"
  by (simp_all add: ipv4_csum_def ipv4_csum_inline_def ipv4_l4_csum_def ipv6_csum_def)

section \<open>Pseudo headers and the GUE checksum\<close>

definition add_pseudo_ipv6_header :: "int \<Rightarrow> int" where
  "add_pseudo_ipv6_header ret =
     (if ret < 0 then ret else if ret < 0 then ret else if ret < 0 then ret
      else if ret < 0 then ret else 0)"

definition rem_pseudo_ipv6_header :: "int \<Rightarrow> int" where
  "rem_pseudo_ipv6_header ret =
     (if ret < 0 then ret else if ret < 0 then ret else if ret < 0 then ret
      else if ret < 0 then ret else 0)"

definition add_pseudo_ipv4_header :: "int \<Rightarrow> int" where
  "add_pseudo_ipv4_header ret =
     (if ret < 0 then ret else if ret < 0 then ret else if ret < 0 then ret
      else if ret < 0 then ret else 0)"

definition rem_pseudo_ipv4_header :: "int \<Rightarrow> int" where
  "rem_pseudo_ipv4_header ret =
     (if ret < 0 then ret else if ret < 0 then ret else if ret < 0 then ret
      else if ret < 0 then ret else 0)"

text \<open>
  The three variants of gue_csum: rem_ret and add_ret are the indeterminate
  values of ret in the helper that removes the inner and in the one that adds the outer pseudo
  header. *csum_in_hdr is read, never written.
\<close>

definition gue_csum_v6 :: "kernel \<Rightarrow> int \<Rightarrow> int \<Rightarrow> u64 \<Rightarrow> bool" where
  "gue_csum_v6 k rem_ret add_ret csum_in_hdr =
     (let seed = ucast (NOT csum_in_hdr) AND 0xffff; orig_csum = ucast csum_in_hdr;
          ret = csum_diff k orig_csum seed
      in if ret < 0 then False
         else if rem_pseudo_ipv6_header rem_ret < 0 then False
         else if ret < 0 then False
         else if ret < 0 then False
         else if add_pseudo_ipv6_header add_ret < 0 then False
         else True)"

definition gue_csum_v4 :: "kernel \<Rightarrow> int \<Rightarrow> int \<Rightarrow> u64 \<Rightarrow> bool" where
  "gue_csum_v4 k rem_ret add_ret csum_in_hdr =
     (let seed = ucast (NOT csum_in_hdr) AND 0xffff; orig_csum = ucast csum_in_hdr;
          ret = csum_diff k orig_csum seed
      in if ret < 0 then False
         else if rem_pseudo_ipv4_header rem_ret < 0 then False
         else if ret < 0 then False
         else if ret < 0 then False
         else if add_pseudo_ipv4_header add_ret < 0 then False
         else True)"

definition gue_csum_v4_in_v6 :: "kernel \<Rightarrow> int \<Rightarrow> int \<Rightarrow> u64 \<Rightarrow> bool" where
  "gue_csum_v4_in_v6 k rem_ret add_ret csum_in_hdr =
     (let seed = ucast (NOT csum_in_hdr) AND 0xffff; orig_csum = ucast csum_in_hdr;
          ret = csum_diff k orig_csum seed
      in if ret < 0 then False
         else if rem_pseudo_ipv4_header rem_ret < 0 then False
         else if ret < 0 then False
         else if ret < 0 then False
         else if add_pseudo_ipv6_header add_ret < 0 then False
         else True)"

section \<open>Folding a checksum\<close>

definition ifold :: "int \<Rightarrow> int" where
  "ifold c = c mod 65536 + c div 65536"

lemma ifold_mod: "ifold c mod 65535 = c mod 65535"
proof -
  have "c = ifold c + c div 65536 * 65535"
    unfolding ifold_def using div_mult_mod_eq [of c 65536] by linarith
  then show ?thesis
    by (metis mod_mult_self1)
qed

lemma ifold_small: "0 \<le> c \<Longrightarrow> c < 65536 \<Longrightarrow> ifold c = c"
  by (simp add: ifold_def)

lemma ifold_nonneg: "0 \<le> c \<Longrightarrow> 0 \<le> ifold c"
  by (simp add: ifold_def pos_imp_zdiv_nonneg_iff)

lemma ifold_bound:
  assumes "0 \<le> c" "c \<le> 65536 * n + 65534" "0 \<le> n"
  shows "ifold c \<le> n + 65534"
proof (cases "c div 65536 \<le> n - 1")
  case True
  then show ?thesis
    unfolding ifold_def using pos_mod_bound [of 65536 c] by linarith
next
  case False
  then have "n \<le> c div 65536" by linarith
  moreover have "c = c div 65536 * 65536 + c mod 65536" by simp
  ultimately have "c div 65536 = n" "c mod 65536 \<le> 65534"
    using assms pos_mod_bound [of 65536 c] pos_mod_sign [of 65536 c] by linarith+
  then show ?thesis
    by (simp add: ifold_def)
qed

lemma uint_csum_fold_round:
  "uint (csum_fold_round c) = ifold (uint c)"
proof -
  have u: "uint (c AND 0xffff) = uint c mod 65536"
    by (rule uint_and_ffff)
  have d: "uint (drop_bit 16 c) = uint c div 65536"
    by (simp add: uint_drop_bit)
  have lt: "uint c < 2 ^ 64"
    using uint_bounded [of c] by simp
  show ?thesis
  proof (cases "drop_bit 16 c = 0")
    case True
    then have "uint c div 65536 = 0" using d by simp
    then show ?thesis
      using True by (simp add: csum_fold_round_def ifold_def mod_eq_self_iff_div_eq_0)
  next
    case False
    have "uint c mod 65536 + uint c div 65536 < 2 ^ 64"
      using lt pos_mod_bound [of 65536 "uint c"] by (simp add: div_less_iff_less_mult)
    moreover have "0 \<le> uint c mod 65536 + uint c div 65536"
      by (simp add: pos_imp_zdiv_nonneg_iff)
    ultimately have "(uint c mod 65536 + uint c div 65536) mod 2 ^ 64
        = uint c mod 65536 + uint c div 65536"
      by (rule mod_pos_pos_trivial [rotated])
    then show ?thesis
      using False by (simp add: csum_fold_round_def uint_word_ariths(1) u d ifold_def)
  qed
qed

lemma ifold_eq_0: "0 \<le> c \<Longrightarrow> ifold c = 0 \<longleftrightarrow> c = 0"
proof
  assume "0 \<le> c" "ifold c = 0"
  then have "c div 65536 = 0" "c mod 65536 = 0"
    unfolding ifold_def
    using pos_mod_sign [of 65536 c] pos_imp_zdiv_nonneg_iff [of 65536 c] by linarith+
  then show "c = 0"
    by (metis div_mult_mod_eq add_0 mult_zero_left)
qed (simp add: ifold_def)

lemma uint_folded:
  fixes c :: u64
  defines "r \<equiv> uint ((csum_fold_round ^^ 4) c)"
  shows "r mod 65535 = uint c mod 65535" and "r = 0 \<longleftrightarrow> c = 0" and "0 \<le> r" and "r \<le> 65535"
proof -
  have r: "r = ifold (ifold (ifold (ifold (uint c))))"
    by (simp add: r_def numeral_eq_Suc uint_csum_fold_round)
  show "r mod 65535 = uint c mod 65535"
    by (simp add: r ifold_mod)
  have n: "0 \<le> uint c" "0 \<le> ifold (uint c)" "0 \<le> ifold (ifold (uint c))"
    "0 \<le> ifold (ifold (ifold (uint c)))"
    by (simp_all add: ifold_nonneg)
  then show "r = 0 \<longleftrightarrow> c = 0"
    by (simp add: r ifold_eq_0 uint_0_iff)
  show "0 \<le> r"
    by (simp add: r_def)
  have "uint c \<le> 65536 * 2 ^ 48 + 65534"
    using uint_bounded [of c] by simp
  from ifold_bound [OF n(1) this] have "ifold (uint c) \<le> 65536 * 2 ^ 32 + 65534" by simp
  from ifold_bound [OF n(2) this] have "ifold (ifold (uint c)) \<le> 65536 * 65536 + 65534" by simp
  from ifold_bound [OF n(3) this] have "ifold (ifold (ifold (uint c))) \<le> 65536 * 1 + 65534" by simp
  from ifold_bound [OF n(4) this] show "r \<le> 65535" by (simp add: r)
qed

text \<open>
  Four rounds are enough for csum_fold_helper: the complement of its result is the
  16-bit one's complement sum of the input, for every 64-bit accumulator: it is congruent to
  the accumulator modulo 65535, and zero only for a zero accumulator.
\<close>

theorem csum_fold_helper_correct:
  "uint (NOT (csum_fold_helper csum)) mod 65535 = uint csum mod 65535 \<and>
   (NOT (csum_fold_helper csum) = 0 \<longleftrightarrow> csum = 0)"
proof -
  let ?r = "(csum_fold_round ^^ 4) csum"
  have "NOT (csum_fold_helper csum) = ucast ?r"
    by (rule bit_word_eqI) (simp add: csum_fold_helper_def bit_simps)
  moreover have "uint (ucast ?r :: u16) = uint ?r"
    using uint_folded(3,4) [of csum]
    by (simp add: unsigned_ucast_eq take_bit_int_eq_self_iff)
  ultimately show ?thesis
    using uint_folded(1,2) [of csum] by (metis uint_0_iff)
qed

end
