(* ===== verification/BpfMaps.thy ===== *)
theory BpfMaps
  imports Structs
begin

text \<open>
  The counter maps of the balancer. A per-CPU array of lb_stats is read by a lookup
  and its two counters are then incremented through the returned pointer. The locale
  counter_map is this interface over an arbitrary state: what increments do to the
  entry, to the other entries and to the set of present keys is proved once there and
  interpreted for each of the four counter maps of the state.
\<close>

definition add_v1 :: "u64 \<Rightarrow> lb_stats \<Rightarrow> lb_stats" where
  "add_v1 n s = s\<lparr>v1 := v1 s + n\<rparr>"

definition add_v2 :: "u64 \<Rightarrow> lb_stats \<Rightarrow> lb_stats" where
  "add_v2 n s = s\<lparr>v2 := v2 s + n\<rparr>"

definition stats_put :: "u32 \<Rightarrow> (lb_stats \<Rightarrow> lb_stats) \<Rightarrow> bst \<Rightarrow> bst" where
  "stats_put k f st = st\<lparr>stats := upd_entry (stats st) k f\<rparr>"

definition reals_stats_put :: "u32 \<Rightarrow> (lb_stats \<Rightarrow> lb_stats) \<Rightarrow> bst \<Rightarrow> bst" where
  "reals_stats_put k f st = st\<lparr>reals_stats := upd_entry (reals_stats st) k f\<rparr>"

definition decap_vip_stats_put :: "u32 \<Rightarrow> (lb_stats \<Rightarrow> lb_stats) \<Rightarrow> bst \<Rightarrow> bst" where
  "decap_vip_stats_put k f st = st\<lparr>decap_vip_stats := upd_entry (decap_vip_stats st) k f\<rparr>"

definition server_id_stats_put :: "u32 \<Rightarrow> (lb_stats \<Rightarrow> lb_stats) \<Rightarrow> bst \<Rightarrow> bst" where
  "server_id_stats_put k f st = st\<lparr>server_id_stats := upd_entry (server_id_stats st) k f\<rparr>"

definition quic_put :: "(lb_quic_packets_stats \<Rightarrow> lb_quic_packets_stats) \<Rightarrow> bst \<Rightarrow> bst" where
  "quic_put f st = st\<lparr>quic_stats_map := upd_entry (quic_stats_map st) 0 f\<rparr>"

definition tpr_put :: "(lb_tpr_packets_stats \<Rightarrow> lb_tpr_packets_stats) \<Rightarrow> bst \<Rightarrow> bst" where
  "tpr_put f st = st\<lparr>tpr_stats_map := upd_entry (tpr_stats_map st) 0 f\<rparr>"

definition stable_put ::
  "(lb_stable_rt_packets_stats \<Rightarrow> lb_stable_rt_packets_stats) \<Rightarrow> bst \<Rightarrow> bst" where
  "stable_put f st = st\<lparr>stable_rt_stats := upd_entry (stable_rt_stats st) 0 f\<rparr>"

lemmas put_defs = stats_put_def reals_stats_put_def decap_vip_stats_put_def
  server_id_stats_put_def quic_put_def tpr_put_def stable_put_def

section \<open>The interface of a counter map\<close>

locale counter_map =
  fixes get :: "'s \<Rightarrow> u32 \<Rightarrow> lb_stats option"
    and put :: "u32 \<Rightarrow> (lb_stats \<Rightarrow> lb_stats) \<Rightarrow> 's \<Rightarrow> 's"
  assumes get_put: "get (put k f s) = upd_entry (get s) k f"
begin

lemma get_put_here: "get (put k f s) k = map_option f (get s k)"
  by (simp add: get_put upd_entry_here)

lemma get_put_other: "k' \<noteq> k \<Longrightarrow> get (put k f s) k' = get s k'"
  by (simp add: get_put upd_entry_other)

lemma dom_put: "dom (get (put k f s)) = dom (get s)"
  by (simp add: get_put)

lemma bump_v1:
  "get s k = Some c \<Longrightarrow> get (put k (add_v1 n) s) k = Some \<lparr>v1 = v1 c + n, v2 = v2 c\<rparr>"
  by (cases c) (simp add: get_put_here add_v1_def)

lemma bump_v2:
  "get s k = Some c \<Longrightarrow> get (put k (add_v2 n) s) k = Some \<lparr>v1 = v1 c, v2 = v2 c + n\<rparr>"
  by (cases c) (simp add: get_put_here add_v2_def)

lemma bump_both:
  "get s k = Some c \<Longrightarrow>
    get (put k (add_v2 m) (put k (add_v1 n) s)) k = Some \<lparr>v1 = v1 c + n, v2 = v2 c + m\<rparr>"
  by (cases c) (simp add: get_put_here add_v1_def add_v2_def)

end

interpretation stc: counter_map stats stats_put
  by unfold_locales (simp add: stats_put_def)

interpretation rstc: counter_map reals_stats reals_stats_put
  by unfold_locales (simp add: reals_stats_put_def)

interpretation dstc: counter_map decap_vip_stats decap_vip_stats_put
  by unfold_locales (simp add: decap_vip_stats_put_def)

interpretation sstc: counter_map server_id_stats server_id_stats_put
  by unfold_locales (simp add: server_id_stats_put_def)

section \<open>Array maps\<close>

text \<open>
  The entries of an array map exist from its creation on: a lookup fails exactly for an index
  outside the array. maps_ok states this of the array maps of the data plane.
\<close>

definition array_of :: "u32 \<Rightarrow> (u32 \<rightharpoonup> 'v) \<Rightarrow> bool" where
  "array_of n m \<longleftrightarrow> dom m = {k. k < n}"

lemma array_ofD: "array_of n m \<Longrightarrow> k < n \<Longrightarrow> \<exists>v. m k = Some v"
  by (auto simp: array_of_def dom_def)

lemma array_of_None: "array_of n m \<Longrightarrow> m k = None \<longleftrightarrow> n \<le> k"
  by (metis array_of_def domIff mem_Collect_eq not_less)

lemma array_of_upd_entry [simp]: "array_of n (upd_entry m k f) \<longleftrightarrow> array_of n m"
  by (simp add: array_of_def)

definition maps_ok :: "config \<Rightarrow> bst \<Rightarrow> bool" where
  "maps_ok cfg st \<longleftrightarrow>
     array_of (CH_RINGS_SIZE cfg) (ch_rings st) \<and> array_of MAX_REALS (reals st) \<and>
     array_of MAX_REALS (reals_stats st) \<and> array_of MAX_REALS (lru_miss_stats st) \<and>
     array_of 1 (vip_miss_stats st) \<and> array_of (STATS_MAP_SIZE cfg) (stats st) \<and>
     array_of QUIC_STATS_MAP_SIZE (quic_stats_map st) \<and>
     array_of STABLE_RT_STATS_MAP_SIZE (stable_rt_stats st) \<and>
     array_of MAX_VIPS (decap_vip_stats st) \<and> array_of MAX_QUIC_REALS (server_id_map st) \<and>
     array_of TPR_STATS_MAP_SIZE (tpr_stats_map st) \<and> array_of MAX_VIPS (server_id_stats st) \<and>
     array_of CTL_MAP_SIZE (ctl_array st) \<and> array_of 2 (pckt_srcs st)"

section \<open>Longest prefix match maps\<close>

text \<open>
  A BPF_MAP_TYPE_LPM_TRIE compares the first bits of the address in network order: two keys are
  equal when their lengths are and the masked addresses are, and a lookup finds the entry with the
  longest prefix of the address, up to the length of the key. The map of the state has the masked
  addresses in its keys.
\<close>

definition lpm_mask4 :: "nat \<Rightarrow> u32 \<Rightarrow> u32" where
  "lpm_mask4 n a = bswap32 (push_bit (32 - n) (drop_bit (32 - n) (bswap32 a)))"

definition lpm_mask6 :: "nat \<Rightarrow> addr \<Rightarrow> addr" where
  "lpm_mask6 n a = Addr (lpm_mask4 n (w0 a)) (lpm_mask4 (n - 32) (w1 a)) (lpm_mask4 (n - 64) (w2 a))
     (lpm_mask4 (n - 96) (w3 a))"

fun lpm_find :: "(nat \<Rightarrow> 'a \<Rightarrow> 'a) \<Rightarrow> (u32 \<times> 'a \<rightharpoonup> 'v) \<Rightarrow> 'a \<Rightarrow> nat \<Rightarrow> 'v option" where
  "lpm_find pfx m a 0 = m (0, pfx 0 a)"
| "lpm_find pfx m a (Suc n) =
     (case m (of_nat (Suc n), pfx (Suc n) a) of Some v \<Rightarrow> Some v | None \<Rightarrow> lpm_find pfx m a n)"

lemma lpm_find_Some:
  "lpm_find pfx m a n = Some v \<longleftrightarrow>
     (\<exists>l \<le> n. m (of_nat l, pfx l a) = Some v \<and> (\<forall>j. l < j \<and> j \<le> n \<longrightarrow> m (of_nat j, pfx j a) = None))"
proof (induction n)
  case (Suc n)
  show ?case
  proof (cases "m (of_nat (Suc n), pfx (Suc n) a)")
    case None
    then have "lpm_find pfx m a (Suc n) = lpm_find pfx m a n" by simp
    then show ?thesis using Suc None by (simp only:) (metis le_Suc_eq option.discI)
  next
    case (Some w)
    then have "lpm_find pfx m a (Suc n) = Some w" by simp
    then show ?thesis using Some
      by (metis le_SucE le_imp_less_Suc less_le_not_le option.discI option.inject order_refl)
  qed
qed simp

lemma lpm_find_None: "lpm_find pfx m a n = None \<longleftrightarrow> (\<forall>l \<le> n. m (of_nat l, pfx l a) = None)"
  by (induction n) (auto simp: le_Suc_eq split: option.split)

text \<open>Freshly created maps: arrays of zeroed entries, empty hash maps.\<close>

definition zero_array :: "u32 \<Rightarrow> 'v \<Rightarrow> (u32 \<rightharpoonup> 'v)" where
  "zero_array n z = (\<lambda>k. if k < n then Some z else None)"

lemma array_of_zero_array [simp]: "array_of n (zero_array n z)"
  by (auto simp: array_of_def zero_array_def split: if_splits)

definition zero_stats :: lb_stats where
  "zero_stats = \<lparr>v1 = 0, v2 = 0\<rparr>"

definition init_bst :: "config \<Rightarrow> bytes \<Rightarrow> bst" where
  "init_bst cfg p = \<lparr>xdata = p, vip_map = Map.empty, fallback_cache = Map.empty,
     lru_mapping = Map.empty, ch_rings = zero_array (CH_RINGS_SIZE cfg) 0,
     reals = zero_array MAX_REALS \<lparr>real_dst = zero_addr, real_flags = 0\<rparr>,
     reals_stats = zero_array MAX_REALS zero_stats, lru_miss_stats = zero_array MAX_REALS 0,
     vip_miss_stats = zero_array 1 \<lparr>vip_addr = zero_addr, vip_port = 0, vip_proto = 0\<rparr>,
     stats = zero_array (STATS_MAP_SIZE cfg) zero_stats,
     quic_stats_map = zero_array QUIC_STATS_MAP_SIZE
       \<lparr>q_ch_routed = 0, q_cid_initial = 0, q_cid_invalid_server_id = 0,
        q_cid_invalid_server_id_sample = 0, q_cid_routed = 0, q_cid_unknown_real_dropped = 0,
        q_cid_v0 = 0, q_cid_v1 = 0, q_cid_v2 = 0, q_cid_v3 = 0, q_dst_match_in_lru = 0,
        q_dst_mismatch_in_lru = 0, q_dst_not_found_in_lru = 0\<rparr>,
     stable_rt_stats = zero_array STABLE_RT_STATS_MAP_SIZE
       \<lparr>s_ch_routed = 0, s_cid_routed = 0, s_cid_invalid_server_id = 0,
        s_cid_unknown_real_dropped = 0, s_invalid_packet_type = 0\<rparr>,
     decap_vip_stats = zero_array MAX_VIPS zero_stats,
     server_id_map = zero_array MAX_QUIC_REALS 0,
     lpm_src_v4 = Map.empty, lpm_src_v6 = Map.empty,
     global_lru_maps = Map.empty, fallback_glru = Map.empty,
     tpr_stats_map = zero_array TPR_STATS_MAP_SIZE
       \<lparr>t_ch_routed = 0, t_dst_mismatch_in_lru = 0, t_sid_routed = 0, t_tcp_syn = 0\<rparr>,
     server_id_stats = zero_array MAX_VIPS zero_stats,
     ctl_array = zero_array CTL_MAP_SIZE \<lparr>ctl_bits = 0\<rparr>,
     decap_dst = Map.empty, subprograms = Map.empty,
     pckt_srcs = zero_array 2 \<lparr>real_dst = zero_addr, real_flags = 0\<rparr>,
     flow_debug_maps = Map.empty, events = []\<rparr>"

lemma maps_ok_init: "maps_ok cfg (init_bst cfg p)"
  by (simp add: maps_ok_def init_bst_def)

end
