(* ===== verification/Helpers.thy ===== *)
theory Helpers
  imports Csum BpfMaps
begin

text \<open>
  lib/bpf/balancer_helpers.h with the reporting macros of lib/bpf/introspection.h: sending an
  introspection event, recirculation through a tail call, the TTL decrement before
  forwarding, and the wrapper around bpf_xdp_adjust_head.
\<close>

definition BPF_F_CURRENT_CPU :: u64 where
  "BPF_F_CURRENT_CPU = 0xffffffff"

definition submit_event :: "u32 \<Rightarrow> u32 \<Rightarrow> bool \<Rightarrow> bst \<Rightarrow> bst" where
  "submit_event event_id sz metadata_only st =
     (case ctl_array st 5 of
        None \<Rightarrow> st
      | Some gk \<Rightarrow>
          if ctl_bits gk = 0 then st
          else
            let data_len = (if metadata_only then 0
                            else word_of_int (min_helper (sint sz) MAX_EVENT_SIZE));
                md = \<lparr>ev_event = event_id, ev_pkt_size = sz, ev_data_len = data_len\<rparr>;
                flags = (if metadata_only then BPF_F_CURRENT_CPU
                         else BPF_F_CURRENT_CPU OR push_bit 32 (ucast data_len))
            in st\<lparr>events := events st @ [(md, flags)]\<rparr>)"

text \<open>The REPORT macros are empty unless the build enables introspection.\<close>

definition report_event :: "config \<Rightarrow> u32 \<Rightarrow> nat \<Rightarrow> bst \<Rightarrow> bst" where
  "report_event cfg event_id sz st =
     (if VSOSHLB_INTROSPECTION cfg then submit_event event_id (of_nat sz) False st else st)"

text \<open>A tail call into an occupied slot of the program array does not come back.\<close>

definition recirculate :: "bst \<Rightarrow> outcome" where
  "recirculate st =
     (if subprograms st RECIRCULATION_INDEX \<noteq> None then Jump RECIRCULATION_INDEX
      else Verdict XDP_PASS)"

definition decrement_ttl :: "bytes \<Rightarrow> nat \<Rightarrow> bool \<Rightarrow> int \<times> bytes" where
  "decrement_ttl p offset is_ipv6 =
     (if is_ipv6 then
        if offset + IP6_HLEN > length p then (XDP_DROP, p)
        else
          let hop_limit = rd8 p (offset + 7) - 1;
              p = wr p (offset + 7) [hop_limit]
          in if hop_limit = 0 then (XDP_DROP, p) else (FURTHER_PROCESSING, p)
      else
        if offset + IP_HLEN > length p then (XDP_DROP, p)
        else
          let ttl = rd8 p (offset + 8) - 1;
              p = wr p (offset + 8) [ttl]
          in if ttl = 0 then (XDP_DROP, p)
             else
               let csum = ucast (rd16 p (offset + 10)) + 1 :: u32;
                   check = ucast ((csum AND 0xffff) + drop_bit 16 csum) :: u16
               in (FURTHER_PROCESSING, wr p (offset + 10) (le16 check)))"

text \<open>
  The head adjusting call of the XDP programs: the first component tells whether it returned
  an error. The wrapper of the test build fills what a negative delta prepends with ones.
\<close>

definition test_bpf_xdp_adjust_head :: "kernel \<Rightarrow> int \<Rightarrow> bytes \<Rightarrow> bool \<times> bytes" where
  "test_bpf_xdp_adjust_head k delta p =
     (case adjust_head k delta p of
        None \<Rightarrow> (True, p)
      | Some p \<Rightarrow>
          if delta \<ge> 0 then (False, p)
          else
            let offset = nat (0 - delta)
            in if offset > length p then (True, p)
               else (False, wr p 0 (replicate offset 0xFF)))"

definition XDP_ADJUST_HEAD_FUNC :: "config \<Rightarrow> kernel \<Rightarrow> int \<Rightarrow> bytes \<Rightarrow> bool \<times> bytes" where
  "XDP_ADJUST_HEAD_FUNC cfg k delta p =
     (if VSOSHLB_TEST_MODE cfg then test_bpf_xdp_adjust_head k delta p
      else case adjust_head k delta p of None \<Rightarrow> (True, p) | Some q \<Rightarrow> (False, q))"

lemma head_law_grow:
  "head_law k \<Longrightarrow> adjust_head k d p = Some q \<Longrightarrow> d < 0 \<Longrightarrow>
    length q = nat (- d) + length p \<and> drop (nat (- d)) q = p"
  unfolding head_law_def by blast

lemma head_law_shrink:
  "head_law k \<Longrightarrow> adjust_head k d p = Some q \<Longrightarrow> 0 \<le> d \<Longrightarrow>
    nat d \<le> length p \<and> q = drop (nat d) p"
  unfolding head_law_def by blast

lemma tail_law_shrink:
  "tail_law k \<Longrightarrow> adjust_tail k d p = Some q \<Longrightarrow> d < 0 \<Longrightarrow>
    q = take (length p - nat (- d)) p"
  unfolding tail_law_def by blast

lemma adjust_head_cases:
  assumes "XDP_ADJUST_HEAD_FUNC cfg k d p = (False, q)"
  obtains q' where "adjust_head k d p = Some q'"
    and "q = (if VSOSHLB_TEST_MODE cfg \<and> d < 0 then wr q' 0 (replicate (nat (- d)) 0xFF) else q')"
  using assms
  by (auto simp: XDP_ADJUST_HEAD_FUNC_def test_bpf_xdp_adjust_head_def Let_def not_le
      split: if_splits option.splits)

lemma adjust_head_grow:
  assumes "head_law k" "XDP_ADJUST_HEAD_FUNC cfg k (- int n) p = (False, q)" "0 < n"
  shows "length q = n + length p \<and> drop n q = p"
proof -
  obtain q' where a: "adjust_head k (- int n) p = Some q'"
    and q: "q = (if VSOSHLB_TEST_MODE cfg \<and> - int n < 0
      then wr q' 0 (replicate (nat (- (- int n))) 0xFF) else q')"
    using adjust_head_cases [OF assms(2)] by blast
  have "length q' = n + length p \<and> drop n q' = p"
    using head_law_grow [OF assms(1) a] assms(3) by simp
  then show ?thesis
    using q by (simp add: drop_wr)
qed

lemma adjust_head_shrink:
  assumes "head_law k" "XDP_ADJUST_HEAD_FUNC cfg k (int n) p = (False, q)"
  shows "n \<le> length p \<and> q = drop n p"
proof -
  obtain q' where a: "adjust_head k (int n) p = Some q'" and q: "q = q'"
    using adjust_head_cases [OF assms(2)] by auto
  then show ?thesis
    using head_law_shrink [OF assms(1) a] by simp
qed

section \<open>The IPv4 header checksum across the TTL decrement\<close>

text \<open>
  The sum of the ten 16-bit words of an IPv4 header, as the host reads them; the header is
  valid when it is a multiple of 65535 (and not zero).
\<close>

definition hdr_sum :: "bytes \<Rightarrow> nat \<Rightarrow> int" where
  "hdr_sum p off = (\<Sum>i\<leftarrow>[0..<10]. uint (rd16 p (off + 2 * i)))"

lemma hdr_sum_expand:
  "hdr_sum p off = uint (rd16 p off) + uint (rd16 p (off + 2)) + uint (rd16 p (off + 4))
     + uint (rd16 p (off + 6)) + uint (rd16 p (off + 8)) + uint (rd16 p (off + 10))
     + uint (rd16 p (off + 12)) + uint (rd16 p (off + 14)) + uint (rd16 p (off + 16))
     + uint (rd16 p (off + 18))"
  by (simp add: hdr_sum_def upt_conv_Cons)

lemma uint_rd16: "uint (rd16 p i) = uint (rd8 p i) + 256 * uint (rd8 p (i + 1))"
proof -
  let ?a = "ucast (rd8 p i) :: u16" and ?b = "push_bit 8 (ucast (rd8 p (i + 1))) :: u16"
  have "?a AND ?b = 0"
    by (rule bit_word_eqI) (auto simp: bit_simps dest: bit_imp_le_length)
  then have eq: "rd16 p i = ?a + ?b"
    by (simp add: rd16_def disjunctive_add_eq_or)
  have lt: "uint (rd8 p j) < 256" for j
    using uint_bounded [of "rd8 p j"] by simp
  have a: "uint ?a = uint (rd8 p i)"
    using lt [of i] by (simp add: unsigned_ucast_eq take_bit_int_eq_self)
  have b: "uint ?b = 256 * uint (rd8 p (i + 1))"
    using lt [of "i + 1"]
    by (simp only: unsigned_push_bit_eq unsigned_ucast_eq)
       (simp add: take_bit_int_eq_self push_bit_eq_mult)
  have "uint (?a + ?b) = (uint ?a + uint ?b) mod 2 ^ 16"
    by (simp add: uint_word_ariths(1))
  also have "\<dots> = uint ?a + uint ?b"
    using lt [of i] lt [of "i + 1"] unfolding a b by (intro mod_pos_pos_trivial) auto
  finally have "uint (rd16 p i) = uint ?a + uint ?b"
    unfolding eq .
  then show ?thesis
    unfolding a b .
qed

lemma uint_ttl_check:
  fixes c :: u16
  defines "x \<equiv> ucast c + 1 :: u32"
  shows "uint (ucast ((x AND 0xffff) + drop_bit 16 x) :: u16) mod 65535 = (uint c + 1) mod 65535"
proof -
  have c: "0 \<le> uint c" "uint c < 65536"
    using uint_bounded [of c] by simp_all
  have x: "uint x = uint c + 1"
    using c by (simp add: x_def uint_word_ariths(1) unsigned_ucast_eq take_bit_int_eq_self)
  have m: "uint (x AND 0xffff) = uint x mod 65536"
    by (rule uint_and_ffff)
  have d: "uint (drop_bit 16 x) = uint x div 65536"
    by (simp add: uint_drop_bit)
  have f: "ifold (uint c + 1) \<le> 1 + 65534"
    by (rule ifold_bound) (use c in simp_all)
  have nn: "0 \<le> ifold (uint c + 1)"
    by (rule ifold_nonneg) (use c in simp)
  have "uint ((x AND 0xffff) + drop_bit 16 x) = ifold (uint c + 1)"
    using f nn unfolding uint_word_ariths(1) m d x
    by (simp add: ifold_def [symmetric] mod_pos_pos_trivial)
  then have "uint (ucast ((x AND 0xffff) + drop_bit 16 x) :: u16) = ifold (uint c + 1)"
    using f nn by (simp add: unsigned_ucast_eq take_bit_int_eq_self)
  then show ?thesis
    by (simp add: ifold_mod)
qed

text \<open>
  Forwarding an IPv4 packet whose TTL exceeds one decrements the TTL and keeps the header
  checksum valid: the one's complement sum of the header is unchanged modulo 65535, and no
  byte but the TTL and the checksum changes.
\<close>

theorem decrement_ttl_v4_checksum:
  assumes "off + 20 \<le> length p" and "1 < rd8 p (off + 8)"
  shows "\<exists>q. decrement_ttl p off False = (FURTHER_PROCESSING, q) \<and> length q = length p \<and>
    rd8 q (off + 8) = rd8 p (off + 8) - 1 \<and> hdr_sum q off mod 65535 = hdr_sum p off mod 65535 \<and>
    (\<forall>i. i \<notin> {off + 8, off + 10, off + 11} \<longrightarrow> rd8 q i = rd8 p i)"
proof -
  let ?t = "rd8 p (off + 8) - 1" and ?c = "rd16 p (off + 10)"
  let ?x = "ucast ?c + 1 :: u32"
  let ?check = "ucast ((?x AND 0xffff) + drop_bit 16 ?x) :: u16"
  let ?q = "wr (wr p (off + 8) [?t]) (off + 10) (le16 ?check)"
  have t0: "?t \<noteq> 0"
    using assms(2) by auto
  have ut: "uint ?t = uint (rd8 p (off + 8)) - 1"
    using assms(2) uint_sub_lem [of 1 "rd8 p (off + 8)"] by (simp add: word_less_def)
  have eq: "decrement_ttl p off False = (FURTHER_PROCESSING, ?q)"
    using assms(1) t0 by (simp add: decrement_ttl_def IP_HLEN_def Let_def buf_simps)
  have rd: "rd8 ?q i = (if i = off + 8 then ?t else rd8 p i)" if "i \<notin> {off + 10, off + 11}" for i
    using that assms(1) by (auto simp: rd8_wr)
  have w8: "uint (rd16 ?q (off + 8)) = uint (rd16 p (off + 8)) - 1"
    by (simp add: uint_rd16 rd ut)
  have w10: "rd16 ?q (off + 10) = ?check"
    using assms(1) by (simp add: buf_simps)
  have oth: "rd16 ?q (off + i) = rd16 p (off + i)" if "i \<in> {0, 2, 4, 6, 12, 14, 16, 18}" for i
    using that by (elim insertE) (simp_all add: buf_simps)
  have "hdr_sum ?q off = hdr_sum p off - 1 - uint ?c + uint ?check"
    using oth [of 0] oth [of 2] oth [of 4] oth [of 6] oth [of 12] oth [of 14] oth [of 16] oth [of 18]
    by (simp add: hdr_sum_expand w8 w10)
  then have "hdr_sum ?q off mod 65535 = hdr_sum p off mod 65535"
    by (intro mod_swap [OF uint_ttl_check [of ?c]]) simp
  then show ?thesis
    using eq rd by (intro exI [of _ ?q]) auto
qed

theorem decrement_ttl_v4_checksum_witness:
  "\<exists>q. decrement_ttl (replicate 8 0 @ [64, 6, 0, 0, 1, 2, 3, 4, 5, 6, 7, 8]) 0 False = (FURTHER_PROCESSING, q) \<and>
     rd8 q 8 = 63"
proof -
  let ?p = "replicate 8 0 @ [64, 6, 0, 0, 1, 2, 3, 4, 5, 6, 7, 8] :: bytes"
  have "0 + 20 \<le> length ?p" "1 < rd8 ?p (0 + 8)" "rd8 ?p 8 = 64"
    by code_simp+
  from decrement_ttl_v4_checksum [OF this(1,2)] this(3) show ?thesis
    by auto
qed

end
