(* ===== verification/Parsing.thy ===== *)
theory Parsing
  imports Structs
begin

text \<open>
  Packet parsing: lib/bpf/pckt_parsing.h. A pointer into the packet is its offset from data,
  data_end is the length of the packet, and a test ptr + n > data_end is a
  comparison of offsets.
\<close>

section \<open>Headers\<close>

definition calc_offset :: "bool \<Rightarrow> bool \<Rightarrow> nat" where
  "calc_offset is_ipv6 is_icmp =
     (if is_ipv6 then ETH_HLEN + IP6_HLEN + (if is_icmp then ICMP6_HLEN + IP6_HLEN else 0)
      else ETH_HLEN + IP_HLEN + (if is_icmp then ICMP_HLEN + IP_HLEN else 0))"

definition set_ports :: "u16 \<Rightarrow> u16 \<Rightarrow> packet_description \<Rightarrow> packet_description" where
  "set_ports a b pckt = pckt\<lparr>flow := (flow pckt)\<lparr>port0 := a, port1 := b\<rparr>\<rparr>"

definition parse_udp ::
  "bytes \<Rightarrow> bool \<Rightarrow> packet_description \<Rightarrow> bool \<times> packet_description" where
  "parse_udp p is_ipv6 pckt =
     (let is_icmp = has_flag (pflags pckt) F_ICMP;
          off = calc_offset is_ipv6 is_icmp
      in if off + UDP_HLEN > length p then (False, pckt)
         else
           let source = rd16 p off; dest = rd16 p (off + 2)
           in if \<not> is_icmp then (True, set_ports source dest pckt)
              else (True, set_ports dest source pckt))"

text \<open>The syn bit of tcphdr is bit 1 of its byte 13.\<close>

definition parse_tcp ::
  "bytes \<Rightarrow> bool \<Rightarrow> packet_description \<Rightarrow> bool \<times> packet_description" where
  "parse_tcp p is_ipv6 pckt =
     (let is_icmp = has_flag (pflags pckt) F_ICMP;
          off = calc_offset is_ipv6 is_icmp
      in if off + TCP_HLEN > length p then (False, pckt)
         else
           let pckt = (if bit (rd8 p (off + 13)) 1
                       then pckt\<lparr>pflags := pflags pckt OR F_SYN_SET\<rparr> else pckt);
               source = rd16 p off; dest = rd16 p (off + 2)
           in if \<not> is_icmp then (True, set_ports source dest pckt)
              else (True, set_ports dest source pckt))"

section \<open>TCP header options\<close>

record hdr_opt_state =
  server_id :: u32
  byte_offset :: u8
  hdr_bytes_remaining :: u8

text \<open>
  kind and hdr_len are the option's two bytes. The line which would store the server id when
  the option is found is not in the source.
\<close>

definition parse_hdr_opt_raw :: "bytes \<Rightarrow> hdr_opt_state \<Rightarrow> int \<times> hdr_opt_state" where
  "parse_hdr_opt_raw p state =
     (let tcp_opt = unat (byte_offset state)
      in if tcp_opt + 1 > length p then (- 1, state)
         else
           let kind = rd8 p tcp_opt
           in if kind = TCP_OPT_EOL then (- 1, state)
              else if kind = TCP_OPT_NOP then
                (0, state\<lparr>hdr_bytes_remaining := hdr_bytes_remaining state - 1,
                          byte_offset := byte_offset state + 1\<rparr>)
              else if hdr_bytes_remaining state < 2 \<or> tcp_opt + 2 > length p then (- 1, state)
              else
                let hdr_len = rd8 p (tcp_opt + 1)
                in if hdr_len > hdr_bytes_remaining state then (- 1, state)
                   else if kind = TCP_HDR_OPT_KIND_TPR then
                     if hdr_len \<noteq> TCP_HDR_OPT_LEN_TPR then (- 1, state)
                     else if tcp_opt + unat TCP_HDR_OPT_LEN_TPR > length p then (- 1, state)
                     else (1, state)
                   else
                     (0, state\<lparr>hdr_bytes_remaining := hdr_bytes_remaining state - hdr_len,
                               byte_offset := byte_offset state + hdr_len\<rparr>))"

text \<open>The loop over the options, at most TCP_HDR_OPT_MAX_OPT_CHECKS rounds.\<close>

fun opt_loop :: "nat \<Rightarrow> bytes \<Rightarrow> hdr_opt_state \<Rightarrow> hdr_opt_state" where
  "opt_loop 0 p state = state"
| "opt_loop (Suc n) p state =
     (let (err, state') = parse_hdr_opt_raw p state
      in if err \<noteq> 0 \<or> hdr_bytes_remaining state' = 0 then state' else opt_loop n p state')"

text \<open>
  tcp_hdr_opt_len and tcp_offset keep their initial value 0: no line of the source assigns
  them. The function returns its error code; *server_id is never assigned either. The same
  body serves the XDP and the skb variant, which differ in where data comes from only.
\<close>

definition tcp_hdr_opt_lookup_server_id :: "bytes \<Rightarrow> int" where
  "tcp_hdr_opt_lookup_server_id p =
     (let tcp_hdr_opt_len = 0 :: u8; tcp_offset = 0 :: nat
      in if tcp_offset + TCP_HLEN > length p then FURTHER_PROCESSING
         else if tcp_hdr_opt_len < TCP_HDR_OPT_LEN_TPR then FURTHER_PROCESSING
         else
           let state = opt_loop TCP_HDR_OPT_MAX_OPT_CHECKS p
                 \<lparr>server_id = 0, byte_offset = of_nat (TCP_HLEN + tcp_offset),
                  hdr_bytes_remaining = tcp_hdr_opt_len\<rparr>
           in if server_id state = 0 then FURTHER_PROCESSING else 0)"

definition tcp_hdr_opt_lookup_server_id_skb :: "bytes \<Rightarrow> int" where
  "tcp_hdr_opt_lookup_server_id_skb p =
     (let tcp_hdr_opt_len = 0 :: u8; tcp_offset = 0 :: nat
      in if tcp_offset + TCP_HLEN > length p then FURTHER_PROCESSING
         else if tcp_hdr_opt_len < TCP_HDR_OPT_LEN_TPR then FURTHER_PROCESSING
         else
           let state = opt_loop TCP_HDR_OPT_MAX_OPT_CHECKS p
                 \<lparr>server_id = 0, byte_offset = of_nat (TCP_HLEN + tcp_offset),
                  hdr_bytes_remaining = tcp_hdr_opt_len\<rparr>
           in if server_id state = 0 then FURTHER_PROCESSING else 0)"

text \<open>
  tcp_hdr_opt_lookup: the caller's dst is the argument real; the local server_id stays
  0, so the key looked up is 0. The result is the code, the packet description and dst.
\<close>

definition tcp_hdr_opt_lookup ::
  "bst \<Rightarrow> real_definition option \<Rightarrow> packet_description \<Rightarrow> int \<times> packet_description" where
  "tcp_hdr_opt_lookup st real pckt =
     (let srv = 0 :: u32
      in if tcp_hdr_opt_lookup_server_id (xdata st) = FURTHER_PROCESSING
         then (FURTHER_PROCESSING, pckt)
         else
           let key = srv
           in case server_id_map st key of
                None \<Rightarrow> (FURTHER_PROCESSING, pckt)
              | Some real_pos \<Rightarrow>
                  if key = 0 then (FURTHER_PROCESSING, pckt)
                  else
                    let pckt = pckt\<lparr>real_index := key\<rparr>
                    in if real = None then (FURTHER_PROCESSING, pckt) else (0, pckt))"

section \<open>QUIC and stable routing connection ids\<close>

record quic_parse_result =
  qpr_server_id :: int
  qpr_cid_version :: u8
  qpr_is_initial :: bool

definition QUIC_LONG_HDR_SIZE :: nat where
  "QUIC_LONG_HDR_SIZE = 1 + 4 + 1 + unat QUIC_MIN_CONNID_LEN"

definition QUIC_SHORT_HDR_SIZE :: nat where
  "QUIC_SHORT_HDR_SIZE = 1 + unat QUIC_MIN_CONNID_LEN"

lemma quic_hdr_sizes: "QUIC_LONG_HDR_SIZE = 14" "QUIC_SHORT_HDR_SIZE = 9"
  by (simp_all add: QUIC_LONG_HDR_SIZE_def QUIC_SHORT_HDR_SIZE_def QUIC_MIN_CONNID_LEN_def)

text \<open>
  The server id of a connection id whose bytes start at offset c. Integer promotion makes
  the shifts signed 32-bit: a version 3 id with its top bit set is a negative int.
\<close>

definition quic_cid_result :: "bytes \<Rightarrow> nat \<Rightarrow> quic_parse_result" where
  "quic_cid_result p c =
     (let b = (\<lambda>i. ucast (rd8 p (c + i)) :: u32);
          version = drop_bit 6 (rd8 p c);
          sid = (if version = QUIC_CONNID_VERSION_V1 then
                   sint (push_bit 10 (b 0 AND 0x3F) OR push_bit 2 (b 1) OR drop_bit 6 (b 2))
                 else if version = QUIC_CONNID_VERSION_V2 then
                   sint (push_bit 16 (b 1) OR push_bit 8 (b 2) OR b 3)
                 else if version = QUIC_CONNID_VERSION_V3 then
                   sint (push_bit 24 (b 1) OR push_bit 16 (b 2) OR push_bit 8 (b 3) OR b 4)
                 else FURTHER_PROCESSING)
      in \<lparr>qpr_server_id = sid, qpr_cid_version = version, qpr_is_initial = False\<rparr>)"

definition parse_quic :: "bytes \<Rightarrow> bool \<Rightarrow> packet_description \<Rightarrow> quic_parse_result" where
  "parse_quic p is_ipv6 pckt =
     (let result = \<lparr>qpr_server_id = FURTHER_PROCESSING, qpr_cid_version = 0xFF,
                    qpr_is_initial = False\<rparr>;
          is_icmp = has_flag (pflags pckt) F_ICMP;
          off = calc_offset is_ipv6 is_icmp
      in if off + UDP_HLEN + 1 > length p then result
         else
           let quic_data = off + UDP_HLEN;
               pkt_type = rd8 p quic_data
           in if pkt_type AND QUIC_LONG_HEADER = QUIC_LONG_HEADER then
                if quic_data + QUIC_LONG_HDR_SIZE > length p then result
                else if pkt_type AND QUIC_PACKET_TYPE_MASK < QUIC_HANDSHAKE
                then result\<lparr>qpr_is_initial := True\<rparr>
                else if rd8 p (quic_data + 5) < QUIC_MIN_CONNID_LEN then result
                else quic_cid_result p (quic_data + 6)
              else
                if quic_data + QUIC_SHORT_HDR_SIZE > length p then result
                else quic_cid_result p (quic_data + 1))"

record udp_stable_rt_result =
  usr_server_id :: u32
  usr_is_stable_rt_pkt :: bool

definition parse_udp_stable_rt_hdr ::
  "bytes \<Rightarrow> bool \<Rightarrow> packet_description \<Rightarrow> udp_stable_rt_result" where
  "parse_udp_stable_rt_hdr p is_ipv6 pckt =
     (let result = \<lparr>usr_server_id = STABLE_RT_NO_SERVER_ID, usr_is_stable_rt_pkt = False\<rparr>;
          is_icmp = has_flag (pflags pckt) F_ICMP;
          off = calc_offset is_ipv6 is_icmp
      in if off + UDP_HLEN + 1 > length p then result
         else
           let udp_data = off + UDP_HLEN;
               b = (\<lambda>i. ucast (rd8 p (udp_data + i)) :: u32)
           in if rd8 p udp_data = STABLE_ROUTING_HEADER then
                if udp_data + STABLE_RT_LEN > length p then result
                else \<lparr>usr_server_id = push_bit 16 (b 1) OR push_bit 8 (b 2) OR b 3,
                      usr_is_stable_rt_pkt = True\<rparr>
              else result)"

section \<open>The network header\<close>

text \<open>
  The transport protocol is read through the pointer argument protocol, which no line of the
  function assigns: the value the caller's variable happens to hold is the argument
  protocol. *th_off and *pkt_bytes are not assigned either. The bit-fields of ipv6hdr
  and iphdr are those of a little-endian host: priority and ihl are the low nibble of the
  first byte.
\<close>

definition parse_l3_headers ::
  "bytes \<Rightarrow> u8 \<Rightarrow> nat \<Rightarrow> bool \<Rightarrow> packet_description \<Rightarrow> int \<times> packet_description" where
  "parse_l3_headers p protocol nh_off is_ipv6 pckt =
     (if is_ipv6 then
        if nh_off + IP6_HLEN > length p then (XDP_DROP, pckt)
        else
          let priority = rd8 p nh_off AND 0x0F;
              flow_lbl0 = rd8 p (nh_off + 1);
              pckt = pckt\<lparr>tos := push_bit 4 priority AND 0xF0\<rparr>;
              pckt = pckt\<lparr>tos := tos pckt OR (drop_bit 4 flow_lbl0 AND 0x0F)\<rparr>
          in if protocol = IPPROTO_FRAGMENT then (XDP_DROP, pckt)
             else if protocol = IPPROTO_ICMPV6 then (FURTHER_PROCESSING, pckt)
             else (FURTHER_PROCESSING,
                   pckt\<lparr>flow := (flow pckt)\<lparr>src := rd_addr6 p (nh_off + 8),
                                             dst := rd_addr6 p (nh_off + 24)\<rparr>\<rparr>)
      else
        if nh_off + IP_HLEN > length p then (XDP_DROP, pckt)
        else if rd8 p nh_off AND 0x0F \<noteq> 5 then (XDP_DROP, pckt)
        else
          let pckt = pckt\<lparr>tos := rd8 p (nh_off + 1)\<rparr>
          in if has_flag (rd16 p (nh_off + 6)) PCKT_FRAGMENTED then (XDP_DROP, pckt)
             else if protocol = IPPROTO_ICMP then (FURTHER_PROCESSING, pckt)
             else (FURTHER_PROCESSING,
                   pckt\<lparr>flow := (flow pckt)\<lparr>
                     src := set_w0 (rd32 p (nh_off + 12)) (src (flow pckt)),
                     dst := set_w0 (rd32 p (nh_off + 16)) (dst (flow pckt))\<rparr>\<rparr>))"

section \<open>Properties of the header parsers\<close>

lemma set_ports_sel [simp]:
  "port0 (flow (set_ports a b pk)) = a" "port1 (flow (set_ports a b pk)) = b"
  "src (flow (set_ports a b pk)) = src (flow pk)" "dst (flow (set_ports a b pk)) = dst (flow pk)"
  "proto (flow (set_ports a b pk)) = proto (flow pk)" "pflags (set_ports a b pk) = pflags pk"
  "real_index (set_ports a b pk) = real_index pk" "tos (set_ports a b pk) = tos pk"
  by (simp_all add: set_ports_def)

lemma has_syn_after [simp]: "has_flag (f OR F_SYN_SET) F_SYN_SET"
proof -
  have "bit ((f OR F_SYN_SET) AND F_SYN_SET) 1"
    by (simp add: F_SYN_SET_def bit_simps)
  then show ?thesis
    by (auto simp: has_flag_def)
qed

lemma icmp_flag_syn [simp]: "has_flag (f OR F_SYN_SET) F_ICMP = has_flag f F_ICMP"
proof -
  have "(f OR F_SYN_SET) AND F_ICMP = f AND F_ICMP"
    by (rule bit_word_eqI) (auto simp: F_SYN_SET_def F_ICMP_def bit_simps bit_1_iff numeral_2_eq_2 [symmetric]
        simp flip: push_bit_eq_mult)
  then show ?thesis
    by (simp add: has_flag_def)
qed

definition transport_ports :: "bytes \<Rightarrow> bool \<Rightarrow> packet_description \<Rightarrow> u16 \<times> u16" where
  "transport_ports p v6 pk =
     (let is_icmp = has_flag (pflags pk) F_ICMP; off = calc_offset v6 is_icmp
      in if is_icmp then (rd16 p (off + 2), rd16 p off) else (rd16 p off, rd16 p (off + 2)))"

section \<open>QUIC connection ids\<close>

lemma quic_long_bit: "w AND QUIC_LONG_HEADER = QUIC_LONG_HEADER \<longleftrightarrow> bit (w :: u8) 7"
  using and_exp_bit [of 7 w] by (simp add: QUIC_LONG_HEADER_def)

lemma quic_type_all:
  "\<forall>n\<in>set [0..<256]. (of_nat n AND 0x30 < (0x20 :: u8)) = (\<not> bit (of_nat n :: u8) 5)"
  by code_simp

lemma quic_type_bit: "w AND QUIC_PACKET_TYPE_MASK < QUIC_HANDSHAKE \<longleftrightarrow> \<not> bit (w :: u8) 5"
  using u8_exhaust [OF quic_type_all, of w]
  by (simp add: QUIC_PACKET_TYPE_MASK_def QUIC_HANDSHAKE_def)

text \<open>
  The connection ids a server hands out, by version: the two top bits carry the version, and
  the server id follows in 16 bits after them (version 1) or in the next 24 or 32 bits.
\<close>

definition quic_cid_encode :: "u8 \<Rightarrow> u32 \<Rightarrow> bytes" where
  "quic_cid_encode v sid =
     (if v = 1 then [push_bit 6 1 OR ucast (drop_bit 10 sid), ucast (drop_bit 2 sid),
                     push_bit 6 (ucast sid), 0, 0, 0, 0, 0]
      else if v = 2 then [push_bit 6 2, ucast (drop_bit 16 sid), ucast (drop_bit 8 sid),
                          ucast sid, 0, 0, 0, 0]
      else [push_bit 6 3, ucast (drop_bit 24 sid), ucast (drop_bit 16 sid),
            ucast (drop_bit 8 sid), ucast sid, 0, 0, 0])"

definition quic_cid_bits :: "u8 \<Rightarrow> nat" where
  "quic_cid_bits v = (if v = 1 then 16 else if v = 2 then 24 else 31)"

lemma mask6: "(0x3F :: u32) = mask 6"
  by (simp add: mask_eq_exp_minus_1)

lemma bit_64: "bit (64 :: 'a::len word) n \<longleftrightarrow> n = 6 \<and> 6 < LENGTH('a)"
  using bit_exp_iff [of 6 n, where 'a = "'a word"] by auto

lemma bit_64_int: "bit (64 :: int) n \<longleftrightarrow> n = 6"
  using bit_exp_iff [of 6 n, where 'a = int] by auto

lemma Suc_Suc_minus: "2 \<le> n \<Longrightarrow> Suc (Suc (n - 2)) = n"
  by simp

lemma cid_v1_join:
  assumes "\<And>n. 16 \<le> n \<Longrightarrow> \<not> bit (s :: u32) n"
  shows "push_bit 10 (ucast (push_bit 6 1 OR ucast (drop_bit 10 s) :: u8) AND 0x3F)
      OR push_bit 2 (ucast (ucast (drop_bit 2 s) :: u8))
      OR drop_bit 6 (ucast (push_bit 6 (ucast s) :: u8)) = s" (is "?l = ?r")
proof (rule bit_word_eqI)
  fix n :: nat
  assume "n < LENGTH(32)"
  then consider "n < 2" | "2 \<le> n" "n < 10" | "10 \<le> n" "n < 16" | "16 \<le> n" "n < 32"
    by fastforce
  then show "bit ?l n = bit ?r n"
    using assms by cases (auto simp: mask6 bit_simps bit_64 bit_64_int Suc_Suc_minus)
qed

lemma cid_v2_join:
  assumes "\<And>n. 24 \<le> n \<Longrightarrow> \<not> bit (s :: u32) n"
  shows "push_bit 16 (ucast (ucast (drop_bit 16 s) :: u8))
      OR push_bit 8 (ucast (ucast (drop_bit 8 s) :: u8)) OR ucast (ucast s :: u8) = s" (is "?l = ?r")
proof (rule bit_word_eqI)
  fix n :: nat
  assume "n < LENGTH(32)"
  then consider "n < 8" | "8 \<le> n" "n < 16" | "16 \<le> n" "n < 24" | "24 \<le> n" "n < 32"
    by fastforce
  then show "bit ?l n = bit ?r n"
    using assms by cases (auto simp: bit_simps)
qed

lemma cid_v3_join:
  "push_bit 24 (ucast (ucast (drop_bit 24 (s :: u32)) :: u8))
      OR push_bit 16 (ucast (ucast (drop_bit 16 s) :: u8))
      OR push_bit 8 (ucast (ucast (drop_bit 8 s) :: u8)) OR ucast (ucast s :: u8) = s" (is "?l = ?r")
proof (rule bit_word_eqI)
  fix n :: nat
  assume "n < LENGTH(32)"
  then consider "n < 8" | "8 \<le> n" "n < 16" | "16 \<le> n" "n < 24" | "24 \<le> n" "n < 32"
    by fastforce
  then show "bit ?l n = bit ?r n"
    by cases (auto simp: bit_simps)
qed

lemma cid_versions:
  assumes "\<And>n. 16 \<le> n \<Longrightarrow> \<not> bit (s :: u32) n"
  shows "drop_bit 6 (push_bit 6 1 OR ucast (drop_bit 10 s) :: u8) = 1" (is "?l = ?r")
proof (rule bit_word_eqI)
  fix n :: nat
  assume "n < LENGTH(8)"
  then consider "n = 0" | "n = 1" | "2 \<le> n" "n < 8"
    by fastforce
  then show "bit ?l n = bit ?r n"
    using assms by cases (auto simp: bit_simps)
qed

lemma bit_high_of_uint: "uint (s :: u32) < 2 ^ k \<Longrightarrow> k \<le> n \<Longrightarrow> \<not> bit s n"
proof -
  assume a: "uint s < 2 ^ k" "k \<le> n"
  then have "take_bit k (uint s) = uint s"
    by (simp add: take_bit_int_eq_self_iff)
  then have "\<not> bit (uint s) n"
    using a by (metis bit_take_bit_iff not_less)
  then show ?thesis
    using bit_imp_le_length [of s n] by (auto simp: bit_uint_iff)
qed

lemma bslice_nth: "bslice p c n = bs \<Longrightarrow> i < n \<Longrightarrow> rd8 p (c + i) = bs ! i"
  by (auto simp: bslice_def)

lemma quic_cid_result_encode:
  assumes "bslice p c 8 = quic_cid_encode v sid" "v \<in> {1, 2, 3}" "uint sid < 2 ^ quic_cid_bits v"
  shows "quic_cid_result p c =
    \<lparr>qpr_server_id = uint sid, qpr_cid_version = v, qpr_is_initial = False\<rparr>"
proof -
  have b: "rd8 p (c + i) = quic_cid_encode v sid ! i" if "i < 8" for i
    using bslice_nth [OF assms(1) that] .
  have b0: "rd8 p c = quic_cid_encode v sid ! 0"
    using b [of 0] by simp
  have hi: "\<not> bit sid n" if "quic_cid_bits v \<le> n" for n
    using bit_high_of_uint [OF assms(3) that] .
  have si: "sint sid = uint sid"
    by (rule sint_eq_uint_bits) (use hi in \<open>auto simp: quic_cid_bits_def split: if_splits\<close>)
  from assms(2) consider "v = 1" | "v = 2" | "v = 3" by auto
  then show ?thesis
  proof cases
    case 1
    then have "\<And>n. 16 \<le> n \<Longrightarrow> \<not> bit sid n"
      using hi by (simp add: quic_cid_bits_def)
    from cid_v1_join [OF this] cid_versions [OF this] show ?thesis
      using 1 b [of 1] b [of 2] si
      by (simp add: quic_cid_result_def b0 quic_cid_encode_def const_defs)
  next
    case 2
    then have "\<And>n. 24 \<le> n \<Longrightarrow> \<not> bit sid n"
      using hi by (simp add: quic_cid_bits_def)
    from cid_v2_join [OF this] show ?thesis
      using 2 b [of 1] b [of 2] b [of 3] si
      by (simp add: quic_cid_result_def b0 quic_cid_encode_def const_defs)
  next
    case 3
    from cid_v3_join [of sid] show ?thesis
      using 3 b [of 1] b [of 2] b [of 3] b [of 4] si
      by (simp add: quic_cid_result_def b0 quic_cid_encode_def const_defs)
  qed
qed

text \<open>
  C15: a server id put into a QUIC connection id (version 1, 2 or 3, in the range of the
  version) is read back by parse_quic, with its version, from a packet with a short header and
  from a handshake packet with a long header.
\<close>

theorem parse_quic_roundtrip:
  assumes "q = calc_offset v6 (has_flag (pflags pk) F_ICMP) + 8"
    and "(\<not> bit (rd8 p q) 7 \<and> c = q + 1) \<or>
         (bit (rd8 p q) 7 \<and> bit (rd8 p q) 5 \<and> 8 \<le> rd8 p (q + 5) \<and> c = q + 6)"
    and "c + 8 \<le> length p" and "bslice p c 8 = quic_cid_encode v sid"
    and "v \<in> {1, 2, 3}" and "uint sid < 2 ^ quic_cid_bits v"
  shows "parse_quic p v6 pk =
    \<lparr>qpr_server_id = uint sid, qpr_cid_version = v, qpr_is_initial = False\<rparr>"
proof -
  note r = quic_cid_result_encode [OF assms(4,5,6)]
  from assms(2) show ?thesis
  proof
    assume "\<not> bit (rd8 p q) 7 \<and> c = q + 1"
    then show ?thesis
      using assms(1,3) r
      by (simp add: parse_quic_def Let_def quic_long_bit quic_hdr_sizes UDP_HLEN_def)
  next
    assume "bit (rd8 p q) 7 \<and> bit (rd8 p q) 5 \<and> 8 \<le> rd8 p (q + 5) \<and> c = q + 6"
    then show ?thesis
      using assms(1,3) r
      by (simp add: parse_quic_def Let_def quic_long_bit quic_type_bit quic_hdr_sizes
          UDP_HLEN_def QUIC_MIN_CONNID_LEN_def leD add.commute)
  qed
qed

theorem parse_quic_roundtrip_witness:
  "parse_quic (replicate 43 0 @ quic_cid_encode 2 0x123456) False zero_pckt =
    \<lparr>qpr_server_id = 0x123456, qpr_cid_version = 2, qpr_is_initial = False\<rparr>"
proof -
  let ?p = "replicate 43 0 @ quic_cid_encode 2 0x123456"
  have "42 = calc_offset False (has_flag (pflags zero_pckt) F_ICMP) + 8"
    "\<not> bit (rd8 ?p 42) 7 \<and> (43 :: nat) = 42 + 1" "43 + 8 \<le> length ?p"
    "bslice ?p 43 8 = quic_cid_encode 2 0x123456" "uint (0x123456 :: u32) < 2 ^ quic_cid_bits 2"
    by code_simp+
  then show ?thesis
    using parse_quic_roundtrip [of 42 False zero_pckt ?p 43 2 "0x123456"] by simp
qed

lemma quic_cid_result_range:
  assumes "qpr_server_id (quic_cid_result p c) > 0"
  shows "qpr_cid_version (quic_cid_result p c) \<in> {1, 2, 3} \<and>
    qpr_server_id (quic_cid_result p c) < 2 ^ quic_cid_bits (qpr_cid_version (quic_cid_result p c))"
proof -
  let ?b = "\<lambda>i. ucast (rd8 p (c + i)) :: u32"
  let ?w1 = "push_bit 10 (?b 0 AND 0x3F) OR push_bit 2 (?b 1) OR drop_bit 6 (?b 2)"
  let ?w2 = "push_bit 16 (?b 1) OR push_bit 8 (?b 2) OR ?b 3"
  have h1: "\<not> bit ?w1 n" if "16 \<le> n" for n
    using that by (auto simp: mask6 bit_simps dest!: bit_imp_le_length)
  have h2: "\<not> bit ?w2 n" if "24 \<le> n" for n
    using that by (auto simp: bit_simps dest!: bit_imp_le_length)
  have "sint ?w1 < 2 ^ 16" "sint ?w2 < 2 ^ 24"
    using uint_less_bits [of 16 ?w1] uint_less_bits [of 24 ?w2] h1 h2
      sint_eq_uint_bits [of ?w1] sint_eq_uint_bits [of ?w2] by simp_all
  moreover have "sint (w :: u32) < 2 ^ 31" for w
    using sint_less [of w] by simp
  ultimately show ?thesis
    using assms
    by (auto simp: quic_cid_result_def quic_cid_bits_def const_defs Let_def split: if_splits)
qed

text \<open>
  Whenever parse_quic reports a positive server id, the connection id was of version 1, 2
  or 3, the id lies in the range of that version (so it never exceeds a 31-bit value), the
  packet is not an initial one and the UDP header with a short header and a full connection
  id lie inside the packet.
\<close>

theorem parse_quic_server_id_range:
  assumes "r = parse_quic p v6 pk" and "qpr_server_id r > 0"
  shows "qpr_cid_version r \<in> {1, 2, 3} \<and> qpr_server_id r < 2 ^ quic_cid_bits (qpr_cid_version r) \<and>
    \<not> qpr_is_initial r \<and> calc_offset v6 (has_flag (pflags pk) F_ICMP) + 17 \<le> length p"
proof -
  define q where "q = calc_offset v6 (has_flag (pflags pk) F_ICMP) + UDP_HLEN"
  obtain c where "r = quic_cid_result p c" "q + 9 \<le> length p"
    using assms
    by (auto simp: parse_quic_def Let_def q_def quic_hdr_sizes FURTHER_PROCESSING_def split: if_splits)
  then show ?thesis
    using assms(2) quic_cid_result_range [of p c]
    by (simp add: q_def UDP_HLEN_def) (simp add: quic_cid_result_def Let_def)
qed

theorem parse_quic_server_id_range_witness:
  "qpr_server_id (parse_quic (replicate 43 0 @ quic_cid_encode 1 0xABCD) False zero_pckt) < 2 ^ 16"
proof -
  let ?r = "parse_quic (replicate 43 0 @ quic_cid_encode 1 0xABCD) False zero_pckt"
  have "qpr_server_id ?r > 0" "qpr_cid_version ?r = 1" "quic_cid_bits 1 = 16"
    by code_simp+
  then show ?thesis
    using parse_quic_server_id_range [OF refl, of "replicate 43 0 @ quic_cid_encode 1 0xABCD" False zero_pckt]
    by simp
qed

section \<open>Properties of the option parser\<close>

lemma parse_hdr_opt_raw_server_id [simp]:
  "server_id (snd (parse_hdr_opt_raw p s)) = server_id s"
  by (simp add: parse_hdr_opt_raw_def Let_def)

lemma parse_hdr_opt_raw_keeps_server_id:
  "parse_hdr_opt_raw p s = (e, s') \<Longrightarrow> server_id s' = server_id s"
  by (metis parse_hdr_opt_raw_server_id snd_conv)

lemma opt_loop_server_id: "server_id (opt_loop n p s) = server_id s"
  by (induction n arbitrary: s)
     (auto simp: Let_def split: prod.splits dest: parse_hdr_opt_raw_keeps_server_id)

text \<open>
  One step of the option parser never moves past the options. The sum of the offset and of
  the remaining bytes never changes, an error or the find of the option leaves the parser
  where it was, a found option has its six bytes inside the packet and inside the remaining
  bytes, and going on without progress happens exactly at a length byte of 0.
\<close>

theorem parse_hdr_opt_raw_step:
  assumes "parse_hdr_opt_raw p s = (err, s')"
  shows "byte_offset s' + hdr_bytes_remaining s' = byte_offset s + hdr_bytes_remaining s \<and>
    err \<in> {- 1, 0, 1} \<and> (err \<noteq> 0 \<longrightarrow> s' = s) \<and>
    (err = 1 \<longrightarrow> rd8 p (unat (byte_offset s)) = 0xB7 \<and>
       unat (byte_offset s) + 6 \<le> length p \<and> 6 \<le> hdr_bytes_remaining s) \<and>
    (err = 0 \<longrightarrow> (byte_offset s' = byte_offset s) =
       (rd8 p (unat (byte_offset s)) \<noteq> 1 \<and> rd8 p (unat (byte_offset s) + 1) = 0))"
  using assms
  by (auto simp: parse_hdr_opt_raw_def Let_def const_defs not_less split: if_splits)

theorem parse_hdr_opt_raw_step_witness:
  "fst (parse_hdr_opt_raw [0xB7, 6, 1, 2, 3, 4] \<lparr>server_id = 0, byte_offset = 0, hdr_bytes_remaining = 6\<rparr>) = 1 \<and>
   rd8 [0xB7, 6, 1, 2, 3, 4] 0 = 0xB7"
proof -
  let ?s = "\<lparr>server_id = 0, byte_offset = 0, hdr_bytes_remaining = 6\<rparr>"
  have "parse_hdr_opt_raw [0xB7, 6, 1, 2, 3, 4] ?s = (1, ?s)"
    by code_simp
  then show ?thesis
    using parse_hdr_opt_raw_step [of "[0xB7, 6, 1, 2, 3, 4]" ?s 1 ?s] by simp
qed

end
