(* ===== verification/Lookup.thy ===== *)
theory Lookup
  imports Jhash Helpers Parsing
begin

text \<open>
  How the balancer finds the real server of a flow: the helper functions of
  lib/bpf/balancer.bpf.c before process_packet. A pointer to an LRU map is one of the two
  fallback maps or the map of a CPU (lru_ref). Values the source leaves open are
  arguments: key in get_packet_dst and cur_time in
  check_and_update_real_index_in_lru are read before any line assigns them, and no line
  assigns *real.
\<close>

section \<open>LRU maps behind a pointer\<close>

datatype lru_ref = LruCpu u32 | LruFallback | GLruCpu u32 | GLruFallback

definition lru_lookup :: "lru_ref \<Rightarrow> flow_key \<Rightarrow> bst \<Rightarrow> real_pos_lru option" where
  "lru_lookup r f st =
     (case r of
        LruCpu c \<Rightarrow> Option.bind (lru_mapping st c) (\<lambda>m. m f)
      | LruFallback \<Rightarrow> fallback_cache st f
      | GLruCpu c \<Rightarrow> Option.bind (global_lru_maps st c)
          (\<lambda>m. map_option (\<lambda>v. \<lparr>pos = v, atime = 0\<rparr>) (m f))
      | GLruFallback \<Rightarrow> map_option (\<lambda>v. \<lparr>pos = v, atime = 0\<rparr>) (fallback_glru st f))"

text \<open>Only the maps of connections are written by the program, never the global ones.\<close>

definition lru_modify :: "lru_ref \<Rightarrow> (lru \<Rightarrow> lru) \<Rightarrow> bst \<Rightarrow> bst" where
  "lru_modify r h st =
     (case r of
        LruCpu c \<Rightarrow> st\<lparr>lru_mapping := upd_entry (lru_mapping st) c h\<rparr>
      | LruFallback \<Rightarrow> st\<lparr>fallback_cache := h (fallback_cache st)\<rparr>
      | _ \<Rightarrow> st)"

definition is_local_lru :: "lru_ref \<Rightarrow> bst \<Rightarrow> bool" where
  "is_local_lru r st \<longleftrightarrow>
     (case r of LruCpu c \<Rightarrow> lru_mapping st c \<noteq> None | LruFallback \<Rightarrow> True | _ \<Rightarrow> False)"

section \<open>Flood detection and drop counters\<close>

definition is_under_flood :: "u64 \<Rightarrow> bst \<Rightarrow> bool \<times> bst" where
  "is_under_flood cur_time st =
     (let conn_rate_key = MAX_VIPS + NEW_CONN_RATE_CNTR
      in case stats st conn_rate_key of
           None \<Rightarrow> (True, st)
         | Some conn_rate_stats \<Rightarrow>
             if cur_time - v2 conn_rate_stats > ONE_SEC
             then (False, stats_put conn_rate_key (\<lambda>s. s\<lparr>v1 := 1\<rparr>) st)
             else (v1 conn_rate_stats + 1 > MAX_CONN_RATE, stats_put conn_rate_key (add_v1 1) st))"

definition increment_ch_drop_no_real :: "bst \<Rightarrow> bst" where
  "increment_ch_drop_no_real st = stats_put (MAX_VIPS + CH_DROP_STATS) (add_v1 1) st"

definition increment_ch_drop_real_0 :: "bst \<Rightarrow> bst" where
  "increment_ch_drop_real_0 st = stats_put (MAX_VIPS + CH_DROP_STATS) (add_v2 1) st"

section \<open>Consistent hashing\<close>

text \<open>The source route of a client, and its counter.\<close>

definition src_route_lookup ::
  "config \<Rightarrow> packet_description \<Rightarrow> vip_meta \<Rightarrow> bool \<Rightarrow> bool \<Rightarrow> bst \<Rightarrow> bool \<times> bst" where
  "src_route_lookup cfg pckt vip_info is_ipv6 under_flood st =
     (if LPM_SRC_LOOKUP cfg \<and> has_flag (vip_flags vip_info) F_SRC_ROUTING \<and> \<not> under_flood then
        let lpm_val = (if is_ipv6 then lpm_find lpm_mask6 (lpm_src_v6 st) (src (flow pckt)) 128
                       else lpm_find lpm_mask4 (lpm_src_v4 st) (w0 (src (flow pckt))) 32);
            src_found = (lpm_val \<noteq> None);
            stats_key = MAX_VIPS + LPM_SRC_CNTRS
        in (src_found, stats_put stats_key (if src_found then add_v2 1 else add_v1 1) st)
      else (False, st))"

definition get_packet_dst :: "config \<Rightarrow> kernel \<Rightarrow> u32 \<Rightarrow> real_definition option \<Rightarrow> packet_description
    \<Rightarrow> vip_meta \<Rightarrow> bool \<Rightarrow> lru_ref \<Rightarrow> bst \<Rightarrow> bool \<times> packet_description \<times> bst" where
  "get_packet_dst cfg k key real pckt vip_info is_ipv6 lru_map st =
     (let cur_time = 0;
          (under_flood, st) = is_under_flood cur_time st;
          (src_found, st) = src_route_lookup cfg pckt vip_info is_ipv6 under_flood st;
          pckt = (if \<not> src_found \<and> has_flag (vip_flags vip_info) F_HASH_DPORT_ONLY
                  then pckt\<lparr>flow := (flow pckt)\<lparr>port0 := port1 (flow pckt), src := zero_addr\<rparr>\<rparr>
                  else pckt);
          hash = get_packet_hash cfg pckt is_ipv6 mod RING_SIZE
      in if \<not> src_found \<and> ch_rings st key = None then (False, pckt, st)
         else if \<not> src_found \<and> key = 0 then (False, pckt, increment_ch_drop_real_0 st)
         else
           let pckt = pckt\<lparr>real_index := key\<rparr>
           in if real = None then (False, pckt, increment_ch_drop_no_real st)
              else
                let st = (if \<not> has_flag (vip_flags vip_info) F_LRU_BYPASS \<and> \<not> under_flood then
                            let new_dst_lru = \<lparr>pos = key,
                                  atime = (if proto (flow pckt) = IPPROTO_UDP then cur_time else 0)\<rparr>
                            in lru_modify lru_map (\<lambda>m. lru_update k m (flow pckt) new_dst_lru) st
                          else st)
                in (True, pckt, st))"

section \<open>The connection tables\<close>

definition connection_table_lookup ::
  "kernel \<Rightarrow> packet_description \<Rightarrow> lru_ref \<Rightarrow> bool \<Rightarrow> bst \<Rightarrow> packet_description \<times> bst" where
  "connection_table_lookup k pckt lru_map isGlobalLru st =
     (case lru_lookup lru_map (flow pckt) st of
        None \<Rightarrow> (pckt, st)
      | Some dst_lru \<Rightarrow>
          if \<not> isGlobalLru \<and> proto (flow pckt) = IPPROTO_UDP then
            if ktime k - atime dst_lru > LRU_UDP_TIMEOUT then (pckt, st)
            else (pckt\<lparr>real_index := pos dst_lru\<rparr>,
                  lru_modify lru_map (\<lambda>m. upd_entry m (flow pckt) (\<lambda>e. e\<lparr>atime := ktime k\<rparr>)) st)
          else (pckt\<lparr>real_index := pos dst_lru\<rparr>, st))"

definition perform_global_lru_lookup :: "kernel \<Rightarrow> real_definition option \<Rightarrow> packet_description
    \<Rightarrow> u32 \<Rightarrow> bst \<Rightarrow> int \<times> packet_description \<times> bst" where
  "perform_global_lru_lookup k real pckt cpu_num st =
     (let g_lru_map = global_lru_maps st cpu_num;
          global_lru_stats_key = MAX_VIPS + GLOBAL_LRU_CNTR
      in if stats st global_lru_stats_key = None then (XDP_DROP, pckt, st)
         else
           let (lru_map, st) =
                 (if g_lru_map = None
                  then (GLruFallback, stats_put global_lru_stats_key (add_v1 1) st)
                  else (GLruCpu cpu_num, st));
               (pckt, st) = connection_table_lookup k pckt lru_map True st;
               st = (if real \<noteq> None then stats_put global_lru_stats_key (add_v2 1) st else st)
           in (FURTHER_PROCESSING, pckt, st))"

text \<open>
  The comparison of the real index of a server id with the one in the LRU map; the result is
  one of the three DST codes.
\<close>

definition check_and_update_real_index_in_lru ::
  "kernel \<Rightarrow> u64 \<Rightarrow> packet_description \<Rightarrow> lru_ref \<Rightarrow> bst \<Rightarrow> int \<times> bst" where
  "check_and_update_real_index_in_lru k cur_time pckt lru_map st =
     (case lru_lookup lru_map (flow pckt) st of
        Some dst_lru \<Rightarrow>
          if pos dst_lru = real_index pckt then (DST_MATCH_IN_LRU, st)
          else (DST_MISMATCH_IN_LRU,
                lru_modify lru_map
                  (\<lambda>m. upd_entry m (flow pckt) (\<lambda>e. e\<lparr>pos := real_index pckt\<rparr>)) st)
      | None \<Rightarrow>
          let (flood, st) = is_under_flood cur_time st
          in if flood then (DST_NOT_FOUND_IN_LRU, st)
             else
               let new_dst_lru = \<lparr>pos = real_index pckt, atime = 0\<rparr>
               in (DST_NOT_FOUND_IN_LRU,
                   lru_modify lru_map (\<lambda>m. lru_update k m (flow pckt) new_dst_lru) st))"

section \<open>Per VIP statistics\<close>

definition increment_quic_cid_version_stats :: "u8 \<Rightarrow> bst \<Rightarrow> bst" where
  "increment_quic_cid_version_stats cid_version st =
     (if cid_version = QUIC_CONNID_VERSION_V1 then quic_put (\<lambda>s. s\<lparr>q_cid_v1 := q_cid_v1 s + 1\<rparr>) st
      else if cid_version = QUIC_CONNID_VERSION_V2 then quic_put (\<lambda>s. s\<lparr>q_cid_v2 := q_cid_v2 s + 1\<rparr>) st
      else if cid_version = QUIC_CONNID_VERSION_V3 then quic_put (\<lambda>s. s\<lparr>q_cid_v3 := q_cid_v3 s + 1\<rparr>) st
      else quic_put (\<lambda>s. s\<lparr>q_cid_v0 := q_cid_v0 s + 1\<rparr>) st)"

text \<open>
  proto_match is an assignment in the source: it overwrites the protocol of the entry, and its
  value is whether the protocol of the VIP is not zero.
\<close>

definition update_vip_lru_miss_stats ::
  "vip_definition \<Rightarrow> packet_description \<Rightarrow> bool \<Rightarrow> bst \<Rightarrow> int \<times> bst" where
  "update_vip_lru_miss_stats vip pckt is_ipv6 st =
     (case vip_miss_stats st 0 of
        None \<Rightarrow> (XDP_DROP, st)
      | Some lru_miss_stat_vip \<Rightarrow>
          let address_match =
                (is_ipv6 \<and> vip_addr lru_miss_stat_vip = vip_addr vip) \<or>
                (\<not> is_ipv6 \<and> w0 (vip_addr lru_miss_stat_vip) = w0 (vip_addr vip));
              port_match = (vip_port lru_miss_stat_vip = vip_port vip);
              st = st\<lparr>vip_miss_stats :=
                     upd_entry (vip_miss_stats st) 0 (\<lambda>e. e\<lparr>vip_proto := vip_proto vip\<rparr>)\<rparr>;
              proto_match = (vip_proto vip \<noteq> 0)
          in if address_match \<and> port_match \<and> proto_match then
               if lru_miss_stats st (real_index pckt) = None then (XDP_DROP, st)
               else (FURTHER_PROCESSING, st)
             else (FURTHER_PROCESSING, st))"

definition incr_server_id_routing_stats :: "u32 \<Rightarrow> bool \<Rightarrow> bool \<Rightarrow> bst \<Rightarrow> bst" where
  "incr_server_id_routing_stats vip newConn misMatchInLRU st =
     (let st = (if newConn then server_id_stats_put vip (add_v1 1) st else st)
      in if misMatchInLRU then server_id_stats_put vip (add_v2 1) st else st)"

section \<open>Decapsulation targets\<close>

definition check_decap_dst :: "config \<Rightarrow> packet_description \<Rightarrow> bool \<Rightarrow> bst \<Rightarrow> int \<times> bst" where
  "check_decap_dst cfg pckt is_ipv6 st =
     (let dst_addr = (if is_ipv6 then dst (flow pckt) else set_w0 (w0 (dst (flow pckt))) zero_addr)
      in if decap_dst st dst_addr \<noteq> None then
           let stats_key = MAX_VIPS + REMOTE_ENCAP_CNTRS
           in if stats st stats_key = None then (XDP_DROP, st)
              else (FURTHER_PROCESSING, stats_put stats_key (add_v1 1) st)
         else if DECAP_STRICT_DESTINATION cfg then
           if is_ipv6 then
             case pckt_srcs st V6_SRC_INDEX of
               Some a \<Rightarrow> if real_dst a \<noteq> dst (flow pckt) then (XDP_PASS, st) else (FURTHER_PROCESSING, st)
             | None \<Rightarrow> (FURTHER_PROCESSING, st)
           else
             case pckt_srcs st V4_SRC_INDEX of
               Some a \<Rightarrow> if w0 (real_dst a) \<noteq> w0 (dst (flow pckt)) then (XDP_PASS, st)
                         else (FURTHER_PROCESSING, st)
             | None \<Rightarrow> (FURTHER_PROCESSING, st)
         else (FURTHER_PROCESSING, st))"

section \<open>UDP stable routing\<close>

text \<open>
  The function is declared bool and returns XDP_DROP on two paths and nothing on the others;
  its caller ignores the value, so the model gives the packet description and the state.
\<close>

definition process_udp_stable_routing :: "real_definition option \<Rightarrow> packet_description \<Rightarrow> bool
    \<Rightarrow> bst \<Rightarrow> packet_description \<times> bst" where
  "process_udp_stable_routing real pckt is_ipv6 st =
     (if stable_rt_stats st 0 = None then (pckt, st)
      else
        let usr = parse_udp_stable_rt_hdr (xdata st) is_ipv6 pckt
        in if usr_server_id usr > 0 then
             let key = usr_server_id usr
             in if server_id_map st key \<noteq> None then
                  if key \<noteq> 0 then
                    let pckt = pckt\<lparr>real_index := key\<rparr>
                    in if real = None
                       then (pckt, stable_put
                               (\<lambda>s. s\<lparr>s_cid_unknown_real_dropped := s_cid_unknown_real_dropped s + 1\<rparr>) st)
                       else (pckt, stable_put (\<lambda>s. s\<lparr>s_cid_routed := s_cid_routed s + 1\<rparr>) st)
                  else (pckt, st)
                else (pckt, stable_put (\<lambda>s. s\<lparr>s_cid_invalid_server_id := s_cid_invalid_server_id s + 1,
                                             s_ch_routed := s_ch_routed s + 1\<rparr>) st)
           else
             let st = (if \<not> usr_is_stable_rt_pkt usr
                       then stable_put (\<lambda>s. s\<lparr>s_invalid_packet_type := s_invalid_packet_type s + 1\<rparr>) st
                       else st)
             in (pckt, stable_put (\<lambda>s. s\<lparr>s_ch_routed := s_ch_routed s + 1\<rparr>) st))"

section \<open>Facts about the connection tables\<close>

lemma lru_lookup_modify:
  "is_local_lru r st \<Longrightarrow>
    lru_lookup r f (lru_modify r h st) = h (\<lambda>f. lru_lookup r f st) f"
  by (cases r) (auto simp: is_local_lru_def lru_lookup_def lru_modify_def upd_entry_def)

lemma lru_lookup_stats_put [simp]: "lru_lookup r f (stats_put key g st) = lru_lookup r f st"
  by (simp add: lru_lookup_def stats_put_def split: lru_ref.splits)

lemma is_local_lru_stats_put [simp]: "is_local_lru r (stats_put key g st) = is_local_lru r st"
  by (simp add: is_local_lru_def stats_put_def split: lru_ref.splits)

lemma is_under_flood_cases:
  "is_under_flood t st = (fl, st') \<Longrightarrow>
    (\<exists>g. st' = stats_put (MAX_VIPS + NEW_CONN_RATE_CNTR) g st) \<or> st' = st"
  by (auto simp: is_under_flood_def Let_def split: option.splits if_splits)

lemma init_flood_counter:
  "stats (init_bst ref_config p) (MAX_VIPS + NEW_CONN_RATE_CNTR) = Some \<lparr>v1 = 0, v2 = 0\<rparr>"
  by (simp add: init_bst_def zero_array_def zero_stats_def ref_config_def const_defs)

text \<open>
  C5: after a packet has been routed by a server id, the connection table agrees with that
  decision: unless the program is under flood with no entry present, a later packet of the
  flow which is not UDP finds the same real server in the table. A new UDP entry, however, is
  stored with access time 0, so a later lookup more than the UDP timeout after boot takes it
  for expired and leaves the packet without a real server.
\<close>

theorem server_id_decision_in_lru:
  assumes "lru_law k" and "is_local_lru r st"
    and "check_and_update_real_index_in_lru k t pckt r st = (res, st')"
    and "res = DST_NOT_FOUND_IN_LRU \<longrightarrow> \<not> fst (is_under_flood t st)"
    and "flow later = flow pckt"
  shows "(proto (flow pckt) \<noteq> IPPROTO_UDP \<longrightarrow>
           real_index (fst (connection_table_lookup k later r False st')) = real_index pckt) \<and>
         (proto (flow pckt) = IPPROTO_UDP \<and> res = DST_NOT_FOUND_IN_LRU \<and> ktime k > LRU_UDP_TIMEOUT \<longrightarrow>
           fst (connection_table_lookup k later r False st') = later)"
proof (cases "lru_lookup r (flow pckt) st")
  case None
  obtain fl st1 where f: "is_under_flood t st = (fl, st1)"
    by (metis prod.exhaust)
  have n: "res = DST_NOT_FOUND_IN_LRU" and nf: "\<not> fl"
    using assms(3,4) None f
    by (auto simp: check_and_update_real_index_in_lru_def Let_def split: if_splits)
  let ?e = "\<lparr>pos = real_index pckt, atime = 0\<rparr>"
  have st': "st' = lru_modify r (\<lambda>m. lru_update k m (flow pckt) ?e) st1"
    using assms(3) None f nf by (simp add: check_and_update_real_index_in_lru_def Let_def)
  have "is_local_lru r st1"
    using is_under_flood_cases [OF f] assms(2) by auto
  then have "lru_lookup r (flow pckt) st' = Some ?e"
    using assms(1) unfolding st' lru_law_def by (simp add: lru_lookup_modify)
  then show ?thesis
    using assms(5) by (simp add: connection_table_lookup_def)
next
  case (Some e)
  have "res \<noteq> DST_NOT_FOUND_IN_LRU"
    using assms(3) Some
    by (auto simp: check_and_update_real_index_in_lru_def const_defs split: if_splits)
  moreover have "\<exists>e'. lru_lookup r (flow pckt) st' = Some e' \<and> pos e' = real_index pckt"
    using assms(2,3) Some
    by (auto simp: check_and_update_real_index_in_lru_def lru_lookup_modify upd_entry_here
        split: if_splits)
  ultimately show ?thesis
    using assms(5) by (auto simp: connection_table_lookup_def)
qed

theorem server_id_decision_in_lru_witness:
  "let pk = zero_pckt\<lparr>real_index := 5\<rparr>; st = init_bst ref_config [];
       st' = snd (check_and_update_real_index_in_lru ref_kernel 0 pk LruFallback st)
   in real_index (fst (connection_table_lookup ref_kernel zero_pckt LruFallback False st')) = 5"
proof -
  let ?pk = "zero_pckt\<lparr>real_index := 5\<rparr>" and ?st = "init_bst ref_config []"
  let ?r = "check_and_update_real_index_in_lru ref_kernel 0 ?pk LruFallback ?st"
  have loc: "is_local_lru LruFallback ?st"
    by code_simp
  have fl: "fst ?r = DST_NOT_FOUND_IN_LRU \<longrightarrow> \<not> fst (is_under_flood 0 ?st)"
    by (simp add: is_under_flood_def init_flood_counter Let_def ONE_SEC_def MAX_CONN_RATE_def)
  have eq: "flow zero_pckt = flow ?pk" and udp: "proto (flow ?pk) \<noteq> IPPROTO_UDP"
    by (simp_all add: zero_pckt_def zero_flow_def IPPROTO_UDP_def)
  have "real_index (fst (connection_table_lookup ref_kernel zero_pckt LruFallback False (snd ?r)))
      = real_index ?pk"
    using server_id_decision_in_lru [OF lru_law_ref loc surjective_pairing fl eq] udp by blast
  then show ?thesis
    by (simp add: Let_def)
qed

text \<open>
  Get_packet_dst cannot route a packet: called as process_packet calls it, with *real
  NULL, it returns false whatever the key, the maps and the packet are, and at most one of its
  two drop counters is incremented.
\<close>

theorem get_packet_dst_never_routes:
  "\<exists>pckt' st'. get_packet_dst cfg k key None pckt vip_info is_ipv6 r st = (False, pckt', st') \<and>
     lru_mapping st' = lru_mapping st \<and> fallback_cache st' = fallback_cache st"
proof -
  obtain fl st1 where f: "is_under_flood 0 st = (fl, st1)"
    by (metis prod.exhaust)
  obtain sf st2 where s: "src_route_lookup cfg pckt vip_info is_ipv6 fl st1 = (sf, st2)"
    by (metis prod.exhaust)
  have 1: "lru_mapping st1 = lru_mapping st \<and> fallback_cache st1 = fallback_cache st"
    using is_under_flood_cases [OF f] by (auto simp: stats_put_def)
  have 2: "lru_mapping st2 = lru_mapping st1 \<and> fallback_cache st2 = fallback_cache st1"
    using s by (auto simp: src_route_lookup_def Let_def stats_put_def split: if_splits)
  show ?thesis
    using f s 1 2
    by (simp add: get_packet_dst_def Let_def increment_ch_drop_real_0_def
        increment_ch_drop_no_real_def stats_put_def)
qed

fun flood_calls :: "nat \<Rightarrow> bst \<Rightarrow> bool \<times> bst" where
  "flood_calls 0 st = (False, st)"
| "flood_calls (Suc n) st = is_under_flood 0 (snd (flood_calls n st))"

lemma flood_calls_stats:
  assumes "stats st (MAX_VIPS + NEW_CONN_RATE_CNTR) = Some \<lparr>v1 = 0, v2 = 0\<rparr>"
  shows "stats (snd (flood_calls n st)) (MAX_VIPS + NEW_CONN_RATE_CNTR) = Some \<lparr>v1 = of_nat n, v2 = 0\<rparr>"
proof (induction n)
  case 0
  then show ?case using assms by simp
next
  case (Suc n)
  then show ?case
    by (simp add: is_under_flood_def Let_def ONE_SEC_def stc.get_put_here add_v1_def)
qed

text \<open>
  With the clock value get_packet_dst passes (0) the rate window never restarts: of a
  sequence of n new connections after the counters were zero, the last one is found to be under
  flood exactly when n exceeds MAX_CONN_RATE, however much time has passed.
\<close>

theorem flood_is_permanent:
  assumes "stats st (MAX_VIPS + NEW_CONN_RATE_CNTR) = Some \<lparr>v1 = 0, v2 = 0\<rparr>"
    and "n < 2 ^ 64"
  shows "fst (flood_calls n st) \<longleftrightarrow> n > 125000"
proof (cases n)
  case (Suc m)
  have "(of_nat m :: u64) + 1 > 125000 \<longleftrightarrow> n > 125000"
  proof -
    have "(of_nat m :: u64) + 1 = of_nat n"
      using Suc by simp
    moreover have "unat (of_nat n :: u64) = n"
      using assms(2) by (simp add: unsigned_of_nat take_bit_nat_eq_self)
    ultimately show ?thesis
      by (simp add: word_less_nat_alt)
  qed
  then show ?thesis
    using flood_calls_stats [OF assms(1), of m] Suc
    by (simp add: is_under_flood_def Let_def ONE_SEC_def MAX_CONN_RATE_def)
qed simp

theorem flood_is_permanent_witness:
  "fst (flood_calls 125001 (init_bst ref_config [])) \<and> \<not> fst (flood_calls 125000 (init_bst ref_config []))"
proof -
  note s = init_flood_counter [of "[]"]
  show ?thesis
    using flood_is_permanent [OF s, of 125001] flood_is_permanent [OF s, of 125000] by simp
qed

text \<open>
  Update_vip_lru_miss_stats does not compare protocols: it overwrites the protocol of the
  VIP being tracked with the protocol of the packet's VIP, even when that is another VIP, and
  changes nothing else.
\<close>

theorem update_vip_lru_miss_stats_overwrites:
  assumes "vip_miss_stats st 0 = Some tracked"
    and "update_vip_lru_miss_stats vip pckt is_ipv6 st = (res, st')"
  shows "vip_miss_stats st' 0 = Some (tracked\<lparr>vip_proto := vip_proto vip\<rparr>) \<and>
    lru_miss_stats st' = lru_miss_stats st \<and> stats st' = stats st \<and>
    (res = XDP_DROP \<longleftrightarrow> vip_proto vip \<noteq> 0 \<and> lru_miss_stats st (real_index pckt) = None \<and>
       vip_port tracked = vip_port vip \<and>
       (if is_ipv6 then vip_addr tracked = vip_addr vip else w0 (vip_addr tracked) = w0 (vip_addr vip)))"
  using assms
  by (auto simp: update_vip_lru_miss_stats_def Let_def upd_entry_here const_defs split: if_splits)

theorem update_vip_lru_miss_stats_overwrites_witness:
  "let vip = \<lparr>vip_addr = Addr 1 0 0 0, vip_port = 80, vip_proto = 6\<rparr>; st = init_bst ref_config [];
       st' = snd (update_vip_lru_miss_stats vip zero_pckt False st)
   in vip_miss_stats st 0 = Some \<lparr>vip_addr = zero_addr, vip_port = 0, vip_proto = 0\<rparr> \<and>
      vip_miss_stats st' 0 = Some \<lparr>vip_addr = zero_addr, vip_port = 0, vip_proto = 6\<rparr>"
proof -
  have s: "vip_miss_stats (init_bst ref_config []) 0 = Some \<lparr>vip_addr = zero_addr, vip_port = 0, vip_proto = 0\<rparr>"
    by code_simp
  show ?thesis
    using s update_vip_lru_miss_stats_overwrites [OF s surjective_pairing,
        of "\<lparr>vip_addr = Addr 1 0 0 0, vip_port = 80, vip_proto = 6\<rparr>" zero_pckt False]
    by (simp add: Let_def)
qed

end
