(* ===== verification/Encap.thy ===== *)
theory Encap
  imports Helpers Parsing
begin

text \<open>
  lib/bpf/encap_helpers.h and lib/bpf/pckt_encap.h: the outer headers the balancer prepends to
  a packet it forwards, and their removal. The Ethernet header is 14 bytes (destination,
  source, protocol); the bit-fields of iphdr and ipv6hdr fill their first byte. The header
  file defines COPY_INNER_PACKET_TOS when the build does not, so its branch is the one
  compiled.
\<close>

section \<open>encap_helpers.h\<close>

definition create_encap_ipv6_src :: "u16 \<Rightarrow> u32 \<Rightarrow> addr" where
  "create_encap_ipv6_src port srca =
     Addr IPIP_V6_PREFIX1 IPIP_V6_PREFIX2 IPIP_V6_PREFIX3 (srca XOR ucast port)"

definition create_encap_ipv4_src :: "u16 \<Rightarrow> u32 \<Rightarrow> u32" where
  "create_encap_ipv4_src port srca =
     (let ip_suffix = ucast (bswap16 port) :: u32;
          ip_suffix = push_bit 16 ip_suffix;
          ip_suffix = ip_suffix XOR srca
      in (0xFFFF0000 AND ip_suffix) OR IPIP_V4_PREFIX)"

text \<open>
  The twenty bytes of the IPv4 header written at offset i, field by field in the order of
  the code; csum stays 0 because ipv4_csum_inline adds nothing.
\<close>

definition create_v4_hdr ::
  "bytes \<Rightarrow> nat \<Rightarrow> u8 \<Rightarrow> u32 \<Rightarrow> u32 \<Rightarrow> u16 \<Rightarrow> u8 \<Rightarrow> bytes" where
  "create_v4_hdr p i tosv saddr daddr pkt_bytes prot =
     (let csum = 0 :: u64;
          p = wr p i [0x45];
          p = wr p (i + 6) (le16 0);
          p = wr p (i + 9) [prot];
          p = wr p (i + 10) (le16 0);
          p = wr p (i + 1) [tosv];
          p = wr p (i + 2) (le16 (bswap16 (pkt_bytes + of_nat IP_HLEN)));
          p = wr p (i + 4) (le16 0);
          p = wr p (i + 16) (le32 daddr);
          p = wr p (i + 12) (le32 saddr);
          p = wr p (i + 8) [DEFAULT_TTL];
          csum = ipv4_csum_inline (bslice p i IP_HLEN) csum
      in wr p (i + 10) (le16 (ucast csum)))"

definition create_v6_hdr ::
  "bytes \<Rightarrow> nat \<Rightarrow> u8 \<Rightarrow> addr \<Rightarrow> addr \<Rightarrow> u16 \<Rightarrow> u8 \<Rightarrow> bytes" where
  "create_v6_hdr p i tc saddr daddr payload_len prot =
     (let p = wr p i [0x60 OR (rd8 p i AND 0x0F)];
          p = wr p (i + 1) [0, 0, 0];
          p = wr p i [(rd8 p i AND 0xF0) OR drop_bit 4 (tc AND 0xF0)];
          p = wr p (i + 1) [push_bit 4 (tc AND 0x0F)];
          p = wr p (i + 6) [prot];
          p = wr p (i + 4) (le16 (bswap16 payload_len));
          p = wr p (i + 7) [DEFAULT_TTL];
          p = wr p (i + 8) (addr_bytes saddr)
      in wr p (i + 24) (addr_bytes daddr))"

definition create_udp_hdr :: "bytes \<Rightarrow> nat \<Rightarrow> u16 \<Rightarrow> u16 \<Rightarrow> u16 \<Rightarrow> u16 \<Rightarrow> bytes" where
  "create_udp_hdr p i sport dport len csum =
     (let p = wr p i (le16 sport);
          p = wr p (i + 2) (le16 (bswap16 dport));
          p = wr p (i + 4) (le16 (bswap16 len))
      in wr p (i + 6) (le16 csum))"

section \<open>IP in IP encapsulation\<close>

text \<open>
  The three assignments to the new Ethernet header at the front of the packet; the old one
  starts at old.
\<close>

definition new_eth_hdr :: "bytes \<Rightarrow> ctl_value \<Rightarrow> nat \<Rightarrow> u16 \<Rightarrow> bytes" where
  "new_eth_hdr p cval old proto16 =
     (let p = wr p 0 (ctl_mac cval);
          p = wr p 6 (bslice p old 6)
      in wr p 12 (le16 proto16))"

definition encap_v6 :: "config \<Rightarrow> kernel \<Rightarrow> ctl_value \<Rightarrow> bool \<Rightarrow> packet_description
    \<Rightarrow> real_definition \<Rightarrow> u32 \<Rightarrow> bytes \<Rightarrow> bool \<times> bytes" where
  "encap_v6 cfg k cval is_ipv6 pckt real pkt_bytes p =
     (let (err, p) = XDP_ADJUST_HEAD_FUNC cfg k (0 - int IP6_HLEN) p
      in if err then (False, p)
         else
           let new_eth = 0; ip6h = ETH_HLEN; old_eth = IP6_HLEN
           in if new_eth + ETH_HLEN > length p \<or> old_eth + ETH_HLEN > length p \<or>
                 ip6h + IP6_HLEN > length p
              then (False, p)
              else
                let p = new_eth_hdr p cval old_eth BE_ETH_P_IPV6;
                    port = port0 (flow pckt);
                    (prot, saddr, payload_len) =
                      (if is_ipv6
                       then (IPPROTO_IPV6, create_encap_ipv6_src port (w3 (src (flow pckt))),
                             ucast (pkt_bytes + of_nat IP6_HLEN))
                       else (IPPROTO_IPIP, create_encap_ipv6_src port (w0 (src (flow pckt))),
                             ucast pkt_bytes))
                in (True, create_v6_hdr p ip6h (tos pckt) saddr (real_dst real) payload_len prot))"

definition encap_v4 :: "config \<Rightarrow> kernel \<Rightarrow> ctl_value \<Rightarrow> packet_description
    \<Rightarrow> real_definition \<Rightarrow> u32 \<Rightarrow> bytes \<Rightarrow> bool \<times> bytes" where
  "encap_v4 cfg k cval pckt real pkt_bytes p =
     (let ip_src = create_encap_ipv4_src (port0 (flow pckt)) (w0 (src (flow pckt)));
          (err, p) = XDP_ADJUST_HEAD_FUNC cfg k (0 - int IP_HLEN) p
      in if err then (False, p)
         else
           let new_eth = 0; iph = ETH_HLEN; old_eth = IP_HLEN
           in if new_eth + ETH_HLEN > length p \<or> old_eth + ETH_HLEN > length p \<or>
                 iph + IP_HLEN > length p
              then (False, p)
              else
                let p = new_eth_hdr p cval old_eth BE_ETH_P_IP
                in (True, create_v4_hdr p iph (tos pckt) ip_src (w0 (real_dst real))
                            (ucast pkt_bytes) IPPROTO_IPIP))"

text \<open>
  The decapsulation functions use the pointers new_eth and old_eth without assigning them.
  Their indeterminate values are arguments (offsets in the packet); a copy outside the packet
  is a fault, the value None.
\<close>

definition move_eth :: "bytes \<Rightarrow> nat \<Rightarrow> nat \<Rightarrow> u16 \<Rightarrow> bytes option" where
  "move_eth p new_eth old_eth proto16 =
     (if new_eth + ETH_HLEN > length p \<or> old_eth + ETH_HLEN > length p then None
      else
        let p = wr p (new_eth + 6) (bslice p (old_eth + 6) 6);
            p = wr p new_eth (bslice p old_eth 6)
        in Some (wr p (new_eth + 12) (le16 proto16)))"

definition shrink_head :: "config \<Rightarrow> kernel \<Rightarrow> nat \<Rightarrow> bytes \<Rightarrow> bool \<times> bytes" where
  "shrink_head cfg k n p =
     (let (err, q) = XDP_ADJUST_HEAD_FUNC cfg k (int n) p in (\<not> err, q))"

definition decap_v6 ::
  "config \<Rightarrow> kernel \<Rightarrow> nat \<Rightarrow> nat \<Rightarrow> bool \<Rightarrow> bytes \<Rightarrow> (bool \<times> bytes) option" where
  "decap_v6 cfg k new_eth old_eth inner_v4 p =
     map_option (shrink_head cfg k IP6_HLEN)
       (move_eth p new_eth old_eth (if inner_v4 then BE_ETH_P_IP else BE_ETH_P_IPV6))"

definition decap_v4 ::
  "config \<Rightarrow> kernel \<Rightarrow> nat \<Rightarrow> nat \<Rightarrow> bytes \<Rightarrow> (bool \<times> bytes) option" where
  "decap_v4 cfg k new_eth old_eth p =
     map_option (shrink_head cfg k IP_HLEN) (move_eth p new_eth old_eth BE_ETH_P_IP)"

definition gue_decap_v4 ::
  "config \<Rightarrow> kernel \<Rightarrow> nat \<Rightarrow> nat \<Rightarrow> bytes \<Rightarrow> (bool \<times> bytes) option" where
  "gue_decap_v4 cfg k new_eth old_eth p =
     map_option (shrink_head cfg k (IP_HLEN + UDP_HLEN)) (move_eth p new_eth old_eth BE_ETH_P_IP)"

definition gue_decap_v6 ::
  "config \<Rightarrow> kernel \<Rightarrow> nat \<Rightarrow> nat \<Rightarrow> bool \<Rightarrow> bytes \<Rightarrow> (bool \<times> bytes) option" where
  "gue_decap_v6 cfg k new_eth old_eth inner_v4 p =
     map_option (shrink_head cfg k (IP6_HLEN + UDP_HLEN))
       (move_eth p new_eth old_eth (if inner_v4 then BE_ETH_P_IP else BE_ETH_P_IPV6))"

section \<open>GUE encapsulation\<close>

definition gue_csum :: "kernel \<Rightarrow> int \<Rightarrow> int \<Rightarrow> bytes \<Rightarrow> bool \<Rightarrow> bool
    \<Rightarrow> packet_description \<Rightarrow> u64 \<Rightarrow> bool" where
  "gue_csum k rem_ret add_ret p outer_v6 inner_v6 pckt csum =
     (let outer_ip_off = ETH_HLEN;
          udp_hdr_off = outer_ip_off + (if outer_v6 then IP6_HLEN else IP_HLEN);
          inner_ip_off = udp_hdr_off + UDP_HLEN;
          inner_transport_off = inner_ip_off + (if inner_v6 then IP6_HLEN else IP_HLEN);
          pr = proto (flow pckt)
      in if inner_transport_off > length p then False
         else if pr = IPPROTO_UDP \<and> inner_transport_off + UDP_HLEN > length p then False
         else if pr = IPPROTO_TCP \<and> inner_transport_off + TCP_HLEN > length p then False
         else if pr \<noteq> IPPROTO_UDP \<and> pr \<noteq> IPPROTO_TCP then False
         else if inner_v6 then
           if outer_ip_off + IP6_HLEN > length p \<or> udp_hdr_off + UDP_HLEN > length p \<or>
              inner_ip_off + IP6_HLEN > length p then False
           else gue_csum_v6 k rem_ret add_ret csum
         else if outer_v6 then
           if outer_ip_off + IP6_HLEN > length p \<or> udp_hdr_off + UDP_HLEN > length p \<or>
              inner_ip_off + IP_HLEN > length p then False
           else gue_csum_v4_in_v6 k rem_ret add_ret csum
         else
           if outer_ip_off + IP_HLEN > length p \<or> udp_hdr_off + UDP_HLEN > length p \<or>
              inner_ip_off + IP_HLEN > length p then False
           else gue_csum_v4 k rem_ret add_ret csum)"

definition gue_encap_v4 :: "config \<Rightarrow> kernel \<Rightarrow> int \<Rightarrow> int \<Rightarrow> ctl_value \<Rightarrow> packet_description
    \<Rightarrow> real_definition \<Rightarrow> u32 \<Rightarrow> bst \<Rightarrow> bool \<times> bytes" where
  "gue_encap_v4 cfg k rem_ret add_ret cval pckt real pkt_bytes st =
     (let p = xdata st; sport = bswap16 (port0 (flow pckt))
      in case pckt_srcs st V4_SRC_INDEX of
           None \<Rightarrow> (False, p)
         | Some srcr \<Rightarrow>
             let ipv4_src = w0 (real_dst srcr);
                 sport = sport XOR ucast (drop_bit 16 (w0 (src (flow pckt))) AND 0xFFFF);
                 (err, p) = XDP_ADJUST_HEAD_FUNC cfg k (0 - (int IP_HLEN + int UDP_HLEN)) p
             in if err then (False, p)
                else
                  let new_eth = 0; iph = ETH_HLEN; udph = iph + IP_HLEN;
                      old_eth = IP_HLEN + UDP_HLEN
                  in if new_eth + ETH_HLEN > length p \<or> old_eth + ETH_HLEN > length p \<or>
                        iph + IP_HLEN > length p \<or> udph + UDP_HLEN > length p
                     then (False, p)
                     else
                       let p = new_eth_hdr p cval old_eth BE_ETH_P_IP;
                           p = create_udp_hdr p udph sport GUE_DPORT
                                 (ucast (pkt_bytes + of_nat UDP_HLEN)) 0;
                           p = create_v4_hdr p iph (tos pckt) ipv4_src (w0 (real_dst real))
                                 (ucast (pkt_bytes + of_nat UDP_HLEN)) IPPROTO_UDP;
                           csum = 0 :: u64
                       in if gue_csum k rem_ret add_ret p False False pckt csum
                          then (True, wr p (udph + 6) (le16 (ucast (csum AND 0xFFFF))))
                          else (True, p))"

definition gue_encap_v6 :: "config \<Rightarrow> kernel \<Rightarrow> int \<Rightarrow> int \<Rightarrow> ctl_value \<Rightarrow> bool \<Rightarrow> packet_description
    \<Rightarrow> real_definition \<Rightarrow> u32 \<Rightarrow> bst \<Rightarrow> bool \<times> bytes" where
  "gue_encap_v6 cfg k rem_ret add_ret cval is_ipv6 pckt real pkt_bytes st =
     (let p = xdata st
      in case pckt_srcs st V6_SRC_INDEX of
           None \<Rightarrow> (False, p)
         | Some srcr \<Rightarrow>
             let (err, p) = XDP_ADJUST_HEAD_FUNC cfg k (0 - (int IP6_HLEN + int UDP_HLEN)) p
             in if err then (False, p)
                else
                  let new_eth = 0; ip6h = ETH_HLEN; udph = ip6h + IP6_HLEN;
                      old_eth = IP6_HLEN + UDP_HLEN
                  in if new_eth + ETH_HLEN > length p \<or> old_eth + ETH_HLEN > length p \<or>
                        ip6h + IP6_HLEN > length p \<or> udph + UDP_HLEN > length p
                     then (False, p)
                     else
                       let p = new_eth_hdr p cval old_eth BE_ETH_P_IPV6;
                           (sport, pkt_bytes) =
                             (if is_ipv6
                              then (ucast (w3 (src (flow pckt)) AND 0xFFFF) XOR port0 (flow pckt),
                                    pkt_bytes + of_nat (IP6_HLEN + UDP_HLEN))
                              else (ucast (drop_bit 16 (w0 (src (flow pckt))) AND 0xFFFF)
                                      XOR port0 (flow pckt),
                                    pkt_bytes + of_nat UDP_HLEN));
                           p = create_udp_hdr p udph sport GUE_DPORT (ucast pkt_bytes) 0;
                           p = create_v6_hdr p ip6h (tos pckt) (real_dst srcr) (real_dst real)
                                 (ucast pkt_bytes) IPPROTO_UDP;
                           csum = 0 :: u64
                       in if gue_csum k rem_ret add_ret p True is_ipv6 pckt csum
                          then (True, wr p (udph + 6) (le16 (ucast (csum AND 0xFFFF))))
                          else (True, p))"

text \<open>PCKT_ENCAP_V4, PCKT_ENCAP_V6: the build chooses GUE or IP in IP.\<close>

definition PCKT_ENCAP_V4 :: "config \<Rightarrow> kernel \<Rightarrow> int \<Rightarrow> int \<Rightarrow> ctl_value \<Rightarrow> packet_description
    \<Rightarrow> real_definition \<Rightarrow> u32 \<Rightarrow> bst \<Rightarrow> bool \<times> bytes" where
  "PCKT_ENCAP_V4 cfg k rem_ret add_ret cval pckt real pkt_bytes st =
     (if GUE_ENCAP cfg then gue_encap_v4 cfg k rem_ret add_ret cval pckt real pkt_bytes st
      else encap_v4 cfg k cval pckt real pkt_bytes (xdata st))"

definition PCKT_ENCAP_V6 :: "config \<Rightarrow> kernel \<Rightarrow> int \<Rightarrow> int \<Rightarrow> ctl_value \<Rightarrow> bool \<Rightarrow> packet_description
    \<Rightarrow> real_definition \<Rightarrow> u32 \<Rightarrow> bst \<Rightarrow> bool \<times> bytes" where
  "PCKT_ENCAP_V6 cfg k rem_ret add_ret cval is_ipv6 pckt real pkt_bytes st =
     (if GUE_ENCAP cfg then gue_encap_v6 cfg k rem_ret add_ret cval is_ipv6 pckt real pkt_bytes st
      else encap_v6 cfg k cval is_ipv6 pckt real pkt_bytes (xdata st))"

section \<open>The headers written\<close>

lemma length_create_hdrs [simp]:
  "length (create_v4_hdr p i t s d n pr) = length p"
  "length (create_v6_hdr p i t sa da n pr) = length p"
  "length (create_udp_hdr p i sp dp n c) = length p"
  "length (new_eth_hdr p cv old e) = length p"
  by (simp_all add: create_v4_hdr_def create_v6_hdr_def create_udp_hdr_def new_eth_hdr_def Let_def)

lemma create_v4_hdr_fields:
  assumes "i + 20 \<le> length p" and "q = create_v4_hdr p i t s d n pr"
  shows "rd8 q i = 0x45" "rd8 q (i + 1) = t" "rd16 q (i + 2) = bswap16 (n + 20)"
    "rd16 q (i + 4) = 0" "rd16 q (i + 6) = 0" "rd8 q (i + 8) = DEFAULT_TTL" "rd8 q (i + 9) = pr"
    "rd16 q (i + 10) = 0" "rd32 q (i + 12) = s" "rd32 q (i + 16) = d"
  using assms(1) unfolding assms(2) create_v4_hdr_def Let_def
  by (simp_all add: buf_simps IP_HLEN_def)

lemma create_v4_hdr_frame [buf_simps]:
  "drop (i + 20) (create_v4_hdr p i t s d n pr) = drop (i + 20) p"
  "take i (create_v4_hdr p i t s d n pr) = take i p"
  "j + m \<le> i \<Longrightarrow> bslice (create_v4_hdr p i t s d n pr) j m = bslice p j m"
  "j + 2 \<le> i \<Longrightarrow> rd16 (create_v4_hdr p i t s d n pr) j = rd16 p j"
  unfolding create_v4_hdr_def Let_def by (simp_all add: buf_simps)

lemma ctl_mac_length [simp]: "length (ctl_mac c) = 6"
  by (simp add: ctl_mac_def)

lemma new_eth_hdr_fields:
  assumes "14 \<le> length p" "12 \<le> old"
  shows "bslice (new_eth_hdr p cv old e) 0 6 = ctl_mac cv"
    "bslice (new_eth_hdr p cv old e) 6 6 = bslice p old 6"
    "rd16 (new_eth_hdr p cv old e) 12 = e"
    "drop 14 (new_eth_hdr p cv old e) = drop 14 p"
  using assms unfolding new_eth_hdr_def Let_def
  by (simp_all add: buf_simps)

lemma v6_first_byte_all:
  "\<forall>n\<in>set [0..<256]. ((0x60 OR (of_nat n AND 0x0F)) AND 0xF0 :: u8) = 0x60"
  "\<forall>n\<in>set [0..<256]. drop_bit 4 (of_nat n) AND 15 = drop_bit 4 (of_nat n :: u8)"
  by code_simp+

lemma v6_first_byte:
  "((0x60 OR (x AND 0x0F)) AND 0xF0 :: u8) = 0x60"
  "drop_bit 4 x AND 15 = drop_bit 4 (x :: u8)"
  using u8_exhaust [OF v6_first_byte_all(1), of x] u8_exhaust [OF v6_first_byte_all(2), of x] by simp_all

lemma wr3: "wr p i [a, b, c] = wr (wr (wr p i [a]) (i + 1) [b]) (i + 2) [c]"
  by (simp add: wr.simps)

lemma create_v6_hdr_fields:
  assumes "i + 40 \<le> length p" and "q = create_v6_hdr p i t sa da n pr"
  shows "rd8 q i = 0x60 OR drop_bit 4 t" "rd8 q (i + 1) = push_bit 4 (t AND 0x0F)"
    "rd16 q (i + 4) = bswap16 n" "rd8 q (i + 6) = pr" "rd8 q (i + 7) = DEFAULT_TTL"
    "rd_addr6 q (i + 8) = sa" "rd_addr6 q (i + 24) = da"
  using assms(1) unfolding assms(2) create_v6_hdr_def Let_def
  by (simp_all add: buf_simps v6_first_byte)

lemma create_v6_hdr_frame [buf_simps]:
  "drop (i + 40) (create_v6_hdr p i t sa da n pr) = drop (i + 40) p"
  "take i (create_v6_hdr p i t sa da n pr) = take i p"
  "j + m \<le> i \<Longrightarrow> bslice (create_v6_hdr p i t sa da n pr) j m = bslice p j m"
  "j + 2 \<le> i \<Longrightarrow> rd16 (create_v6_hdr p i t sa da n pr) j = rd16 p j"
  unfolding create_v6_hdr_def Let_def by (simp_all add: buf_simps)

lemma create_udp_hdr_fields:
  assumes "i + 8 \<le> length p" and "q = create_udp_hdr p i sp dp n c"
  shows "rd16 q i = sp" "rd16 q (i + 2) = bswap16 dp" "rd16 q (i + 4) = bswap16 n" "rd16 q (i + 6) = c"
  using assms(1) unfolding assms(2) create_udp_hdr_def Let_def
  by (simp_all add: buf_simps)

section \<open>Encapsulation\<close>

text \<open>An IPv4 packet in front of offset i: source, destination, protocol, length and checksum.\<close>

definition is_v4_hdr :: "bytes \<Rightarrow> nat \<Rightarrow> u8 \<Rightarrow> u32 \<Rightarrow> u32 \<Rightarrow> u16 \<Rightarrow> u8 \<Rightarrow> bool" where
  "is_v4_hdr q i t s d n pr \<longleftrightarrow>
     rd8 q i = 0x45 \<and> rd8 q (i + 1) = t \<and> bswap16 (rd16 q (i + 2)) = n \<and> rd16 q (i + 6) = 0 \<and>
     rd8 q (i + 8) = 64 \<and> rd8 q (i + 9) = pr \<and> rd16 q (i + 10) = 0 \<and>
     rd32 q (i + 12) = s \<and> rd32 q (i + 16) = d"

definition is_v6_hdr :: "bytes \<Rightarrow> nat \<Rightarrow> u8 \<Rightarrow> addr \<Rightarrow> addr \<Rightarrow> u16 \<Rightarrow> u8 \<Rightarrow> bool" where
  "is_v6_hdr q i t s d n pr \<longleftrightarrow>
     rd8 q i = 0x60 OR drop_bit 4 t \<and> rd8 q (i + 1) = push_bit 4 (t AND 0x0F) \<and>
     bswap16 (rd16 q (i + 4)) = n \<and> rd8 q (i + 6) = pr \<and> rd8 q (i + 7) = 64 \<and>
     rd_addr6 q (i + 8) = s \<and> rd_addr6 q (i + 24) = d"

lemma is_v4_hdr_create:
  "i + 20 \<le> length p \<Longrightarrow> is_v4_hdr (create_v4_hdr p i t s d n pr) i t s d (n + 20) pr"
  using create_v4_hdr_fields [OF _ refl, of i p t s d n pr]
  by (simp add: is_v4_hdr_def DEFAULT_TTL_def)

lemma is_v6_hdr_create:
  "i + 40 \<le> length p \<Longrightarrow> is_v6_hdr (create_v6_hdr p i t s d n pr) i t s d n pr"
  using create_v6_hdr_fields [OF _ refl, of i p t s d n pr]
  by (simp add: is_v6_hdr_def DEFAULT_TTL_def)

text \<open>
  The Ethernet header of a forwarded packet: from the address the client's packet was sent to,
  to the default router; behind it n bytes of headers, then the client's packet.
\<close>

definition encapsulates :: "nat \<Rightarrow> u16 \<Rightarrow> ctl_value \<Rightarrow> bytes \<Rightarrow> bytes \<Rightarrow> bool" where
  "encapsulates n e cval p q \<longleftrightarrow>
     length q = n + length p \<and> drop (14 + n) q = drop 14 p \<and>
     bslice q 0 6 = ctl_mac cval \<and> bslice q 6 6 = bslice p 0 6 \<and> rd16 q 12 = e"

lemma encapsulates_new_eth:
  assumes "head_law k" and "XDP_ADJUST_HEAD_FUNC cfg k (- int n) p = (False, r)"
    and "12 \<le> n" "14 \<le> length r"
  shows "encapsulates n e cval p (new_eth_hdr r cval n e)"
proof -
  have g: "length r = n + length p" "drop n r = p"
    using adjust_head_grow [OF assms(1,2)] assms(3) by simp_all
  have "drop (14 + n) r = drop 14 p"
    using g(2) by (metis drop_drop)
  moreover have "drop (14 + n) (new_eth_hdr r cval n e) = drop (14 + n) r"
    using new_eth_hdr_fields(4) [OF assms(4,3)] by (metis add.commute drop_drop)
  moreover have "bslice r n 6 = bslice p 0 6"
    using bslice_drop [of n r 0 6] g(2) by simp
  ultimately show ?thesis
    using new_eth_hdr_fields [OF assms(4,3)] g(1) by (simp add: encapsulates_def)
qed

lemma encapsulates_v4_hdr:
  "encapsulates 20 e cv p q \<Longrightarrow> encapsulates 20 e cv p (create_v4_hdr q 14 t s d n pr)"
  unfolding encapsulates_def using create_v4_hdr_frame(1) [of 14 q] by (simp add: buf_simps)

lemma encapsulates_v6_hdr:
  "encapsulates 40 e cv p q \<Longrightarrow> encapsulates 40 e cv p (create_v6_hdr q 14 t s d n pr)"
  unfolding encapsulates_def using create_v6_hdr_frame(1) [of 14 q] by (simp add: buf_simps)

text \<open>
  C35: IP in IP encapsulation towards an IPv4 real. The packet grows by twenty bytes, the
  packet of the client follows the new header untouched, the Ethernet header goes from the
  address the packet was sent to, to the default router, and the IPv4 header carries the
  type of service, the pseudo source, the real server and the total length. The header
  checksum is left at 0.
\<close>

theorem encap_v4_correct:
  assumes "head_law k" and "encap_v4 cfg k cval pckt real pkt_bytes p = (True, q)"
  shows "encapsulates 20 BE_ETH_P_IP cval p q \<and>
    is_v4_hdr q 14 (tos pckt) (create_encap_ipv4_src (port0 (flow pckt)) (w0 (src (flow pckt))))
      (w0 (real_dst real)) (ucast pkt_bytes + 20) 4"
proof -
  obtain r where r: "XDP_ADJUST_HEAD_FUNC cfg k (- int 20) p = (False, r)" and len: "34 \<le> length r"
    and q: "q = create_v4_hdr (new_eth_hdr r cval 20 BE_ETH_P_IP) 14 (tos pckt)
      (create_encap_ipv4_src (port0 (flow pckt)) (w0 (src (flow pckt)))) (w0 (real_dst real))
      (ucast pkt_bytes) 4"
    using assms(2)
    by (auto simp: encap_v4_def Let_def IP_HLEN_def ETH_HLEN_def IPPROTO_IPIP_def not_less not_le
        split: prod.splits if_splits)
  show ?thesis
    unfolding q
    using encapsulates_v4_hdr [OF encapsulates_new_eth [OF assms(1) r]] len
    by (simp add: is_v4_hdr_create)
qed

theorem encap_v4_correct_witness:
  "encapsulates 20 BE_ETH_P_IP \<lparr>ctl_bits = 7\<rparr> (replicate 60 1)
     (snd (encap_v4 ref_config ref_kernel \<lparr>ctl_bits = 7\<rparr> zero_pckt
        \<lparr>real_dst = Addr 10 0 0 0, real_flags = 0\<rparr> 46 (replicate 60 1)))"
proof -
  have "fst (encap_v4 ref_config ref_kernel \<lparr>ctl_bits = 7\<rparr> zero_pckt
        \<lparr>real_dst = Addr 10 0 0 0, real_flags = 0\<rparr> 46 (replicate 60 1)) = True"
    by code_simp
  from encap_v4_correct [OF head_law_ref pair_of_fst [OF this]] show ?thesis by blast
qed

text \<open>
  IP in IPv6 encapsulation towards an IPv6 real, for clients of both families: forty bytes
  are prepended, the client's packet follows untouched, and the IPv6 header carries the
  traffic class, the discard prefix with the client's address xor its port as source, the real
  as destination and, as payload length, the length of the inner packet.
\<close>

theorem encap_v6_correct:
  assumes "head_law k" and "encap_v6 cfg k cval v6 pckt real pkt_bytes p = (True, q)"
  shows "encapsulates 40 BE_ETH_P_IPV6 cval p q \<and>
    is_v6_hdr q 14 (tos pckt)
      (Addr 1 0 0 ((if v6 then w3 (src (flow pckt)) else w0 (src (flow pckt)))
         XOR ucast (port0 (flow pckt))))
      (real_dst real) (ucast (if v6 then pkt_bytes + 40 else pkt_bytes)) (if v6 then 41 else 4)"
proof -
  obtain r where r: "XDP_ADJUST_HEAD_FUNC cfg k (- int 40) p = (False, r)" and len: "54 \<le> length r"
    and q: "q = create_v6_hdr (new_eth_hdr r cval 40 BE_ETH_P_IPV6) 14 (tos pckt)
      (Addr 1 0 0 ((if v6 then w3 (src (flow pckt)) else w0 (src (flow pckt)))
         XOR ucast (port0 (flow pckt))))
      (real_dst real) (ucast (if v6 then pkt_bytes + 40 else pkt_bytes)) (if v6 then 41 else 4)"
    using assms(2)
    by (auto simp: encap_v6_def Let_def const_defs create_encap_ipv6_src_def not_less not_le
        split: prod.splits if_splits)
  show ?thesis
    unfolding q
    using encapsulates_v6_hdr [OF encapsulates_new_eth [OF assms(1) r]] len
    by (simp add: is_v6_hdr_create)
qed

theorem encap_v6_correct_witness:
  "encapsulates 40 BE_ETH_P_IPV6 \<lparr>ctl_bits = 7\<rparr> (replicate 60 1)
     (snd (encap_v6 ref_config ref_kernel \<lparr>ctl_bits = 7\<rparr> True zero_pckt
        \<lparr>real_dst = Addr 1 2 3 4, real_flags = 1\<rparr> 46 (replicate 60 1)))"
proof -
  have "fst (encap_v6 ref_config ref_kernel \<lparr>ctl_bits = 7\<rparr> True zero_pckt
        \<lparr>real_dst = Addr 1 2 3 4, real_flags = 1\<rparr> 46 (replicate 60 1)) = True"
    by code_simp
  from encap_v6_correct [OF head_law_ref pair_of_fst [OF this]] show ?thesis by blast
qed

text \<open>
  Removing the header of an encapsulated packet gives the client's packet back. The
  decapsulation moves the Ethernet header from the front (old_eth) over the end of the outer
  header (new_eth) and drops the twenty bytes in front.
\<close>

theorem decap_v4_encap_v4:
  assumes "head_law k" and "encap_v4 cfg k cval pckt real pkt_bytes p = (True, q)"
    and "decap_v4 cfg k 20 0 q = Some (True, s)"
  shows "length s = length p \<and> drop 14 s = drop 14 p \<and>
    bslice s 0 6 = ctl_mac cval \<and> bslice s 6 6 = bslice p 0 6 \<and> rd16 s 12 = BE_ETH_P_IP"
proof -
  obtain r where r: "XDP_ADJUST_HEAD_FUNC cfg k (- int 20) p = (False, r)" and len: "34 \<le> length r"
    and q: "q = create_v4_hdr (new_eth_hdr r cval 20 BE_ETH_P_IP) 14 (tos pckt)
      (create_encap_ipv4_src (port0 (flow pckt)) (w0 (src (flow pckt)))) (w0 (real_dst real))
      (ucast pkt_bytes) 4"
    using assms(2)
    by (auto simp: encap_v4_def Let_def IP_HLEN_def ETH_HLEN_def IPPROTO_IPIP_def not_less not_le
        split: prod.splits if_splits)
  have e: "encapsulates 20 BE_ETH_P_IP cval p q"
    unfolding q using encapsulates_v4_hdr [OF encapsulates_new_eth [OF assms(1) r]] len by simp
  let ?m = "wr (wr (wr q 26 (bslice q 6 6)) 20 (bslice q 0 6)) 32 (le16 BE_ETH_P_IP)"
  have lq: "34 \<le> length q"
    using q len by simp
  have m: "move_eth q 20 0 BE_ETH_P_IP = Some ?m"
    using lq by (simp add: move_eth_def Let_def ETH_HLEN_def buf_simps)
  have "XDP_ADJUST_HEAD_FUNC cfg k (int 20) ?m = (False, s)"
    using assms(3) m by (auto simp: decap_v4_def shrink_head_def IP_HLEN_def split: prod.splits)
  from adjust_head_shrink [OF assms(1) this] have s: "s = drop 20 ?m" by simp
  have "drop 14 s = drop 34 q"
    by (simp add: s buf_simps)
  then show ?thesis
    using e lq
    by (simp add: s encapsulates_def bslice_drop rd16_drop buf_simps)
qed

theorem decap_v4_encap_v4_witness:
  "\<exists>s. decap_v4 ref_config ref_kernel 20 0
      (snd (encap_v4 ref_config ref_kernel \<lparr>ctl_bits = 7\<rparr> zero_pckt
        \<lparr>real_dst = Addr 10 0 0 0, real_flags = 0\<rparr> 46 (replicate 60 1))) = Some (True, s) \<and>
     drop 14 s = replicate 46 1"
proof -
  let ?e = "encap_v4 ref_config ref_kernel \<lparr>ctl_bits = 7\<rparr> zero_pckt
        \<lparr>real_dst = Addr 10 0 0 0, real_flags = 0\<rparr> 46 (replicate 60 1)"
  have e: "fst ?e = True"
    by code_simp
  have "map_option fst (decap_v4 ref_config ref_kernel 20 0 (snd ?e)) = Some True"
    by code_simp
  then obtain s where s: "decap_v4 ref_config ref_kernel 20 0 (snd ?e) = Some (True, s)"
    by auto
  from decap_v4_encap_v4 [OF head_law_ref pair_of_fst [OF e] s] show ?thesis
    using s by (simp add: drop_replicate)
qed

end
