(* ===== verification/Icmp.thy ===== *)
theory Icmp
  imports Helpers Parsing
begin

text \<open>
  lib/bpf/handle_icmp.h: echo replies, the "too big" errors sent back to clients, and the
  classification of received ICMP errors, which are forwarded to the real server of the flow
  they quote. iph, ip6h, orig_iph and orig_ip6h in the two functions that send errors have no
  readable declaration; their use fixes the header they point to.
\<close>

definition swap_mac_and_send :: "bytes \<Rightarrow> int \<times> bytes" where
  "swap_mac_and_send p =
     (let tmp_mac = bslice p 6 6;
          p = wr p 6 (bslice p 0 6);
          p = wr p 0 tmp_mac
      in (XDP_TX, p))"

definition swap_mac :: "bytes \<Rightarrow> nat \<Rightarrow> bytes" where
  "swap_mac p orig_eth =
     (let p = wr p 6 (bslice p orig_eth 6);
          p = wr p 0 (bslice p (orig_eth + 6) 6)
      in wr p 12 (le16 (rd16 p (orig_eth + 12))))"

definition send_icmp_reply :: "bytes \<Rightarrow> int \<times> bytes" where
  "send_icmp_reply p =
     (if ETH_HLEN + IP_HLEN + ICMP_HLEN > length p then (XDP_DROP, p)
      else
        let csum = 0 :: u64; iph = ETH_HLEN; icmp_hdr = iph + IP_HLEN;
            p = wr p icmp_hdr [ICMP_ECHOREPLY];
            p = wr p (icmp_hdr + 2) (le16 (rd16 p (icmp_hdr + 2) + 8));
            p = wr p (iph + 8) [DEFAULT_TTL];
            tmp_addr = rd32 p (iph + 16);
            p = wr p (iph + 16) (le32 (rd32 p (iph + 12)));
            p = wr p (iph + 12) (le32 tmp_addr);
            p = wr p (iph + 10) (le16 0);
            csum = ipv4_csum_inline (bslice p iph IP_HLEN) csum;
            p = wr p (iph + 10) (le16 (ucast csum))
        in swap_mac_and_send p)"

definition send_icmp6_reply :: "bytes \<Rightarrow> int \<times> bytes" where
  "send_icmp6_reply p =
     (if ETH_HLEN + IP6_HLEN + ICMP6_HLEN > length p then (XDP_DROP, p)
      else
        let ip6h = ETH_HLEN; icmp_hdr = ip6h + IP6_HLEN;
            p = wr p icmp_hdr [ICMPV6_ECHO_REPLY];
            p = wr p (icmp_hdr + 2) (le16 (rd16 p (icmp_hdr + 2) - 1));
            p = wr p (ip6h + 7) [DEFAULT_TTL];
            tmp_addr = rd_addr6 p (ip6h + 8);
            p = wr p (ip6h + 8) (addr_bytes (rd_addr6 p (ip6h + 24)));
            p = wr p (ip6h + 24) (addr_bytes tmp_addr)
        in swap_mac_and_send p)"

definition send_icmp4_too_big :: "config \<Rightarrow> kernel \<Rightarrow> bytes \<Rightarrow> int \<times> bytes" where
  "send_icmp4_too_big cfg k p =
     (let headroom = IP_HLEN + ICMP_HLEN;
          (err, p) = XDP_ADJUST_HEAD_FUNC cfg k (0 - int headroom) p
      in if err then (XDP_DROP, p)
         else if ICMP_TOOBIG_SIZE + headroom > length p then (XDP_DROP, p)
         else
           let csum = 0 :: u64;
               p = swap_mac p headroom;
               iph = ETH_HLEN; icmp_hdr = iph + IP_HLEN; orig_iph = icmp_hdr + ICMP_HLEN;
               p = wr p icmp_hdr [ICMP_DEST_UNREACH];
               p = wr p (icmp_hdr + 1) [ICMP_FRAG_NEEDED];
               p = wr p (icmp_hdr + 6) (le16 (bswap16 (of_nat (MAX_PCKT_SIZE - ETH_HLEN))));
               p = wr p (icmp_hdr + 4) (le16 0);
               p = wr p (icmp_hdr + 2) (le16 0);
               csum = ipv4_csum (drop icmp_hdr p) ICMP_TOOBIG_PAYLOAD_SIZE csum;
               p = wr p (icmp_hdr + 2) (le16 (ucast csum));
               p = wr p (iph + 8) [DEFAULT_TTL];
               p = wr p (iph + 16) (le32 (rd32 p (orig_iph + 12)));
               p = wr p (iph + 12) (le32 (rd32 p (orig_iph + 16)));
               p = wr p (iph + 6) (le16 0);
               p = wr p iph [0x45];
               p = wr p (iph + 9) [IPPROTO_ICMP];
               p = wr p (iph + 1) [0];
               p = wr p (iph + 2) (le16 (bswap16 (of_nat (ICMP_TOOBIG_SIZE + headroom - ETH_HLEN))));
               p = wr p (iph + 4) (le16 0);
               p = wr p (iph + 10) (le16 0);
               csum = ipv4_csum (drop iph p) IP_HLEN 0;
               p = wr p (iph + 10) (le16 (ucast csum))
           in (XDP_TX, p))"

definition send_icmp6_too_big :: "config \<Rightarrow> kernel \<Rightarrow> bytes \<Rightarrow> int \<times> bytes" where
  "send_icmp6_too_big cfg k p =
     (let headroom = IP6_HLEN + ICMP6_HLEN;
          (err, p) = XDP_ADJUST_HEAD_FUNC cfg k (0 - int headroom) p
      in if err then (XDP_DROP, p)
         else if ICMP6_TOOBIG_SIZE + headroom > length p then (XDP_DROP, p)
         else
           let csum = 0 :: u64;
               p = swap_mac p headroom;
               ip6h = ETH_HLEN; icmp6_hdr = ip6h + IP6_HLEN; orig_ip6h = icmp6_hdr + ICMP6_HLEN;
               p = wr p ip6h [0x60];
               p = wr p (ip6h + 6) [IPPROTO_ICMPV6];
               p = wr p (ip6h + 7) [DEFAULT_TTL];
               p = wr p (ip6h + 4) (le16 (bswap16 (of_nat ICMP6_TOOBIG_PAYLOAD_SIZE)));
               p = wr p (ip6h + 1) [0, 0, 0];
               p = wr p (ip6h + 24) (addr_bytes (rd_addr6 p (orig_ip6h + 8)));
               p = wr p (ip6h + 8) (addr_bytes (rd_addr6 p (orig_ip6h + 24)));
               p = wr p icmp6_hdr [ICMPV6_PKT_TOOBIG];
               p = wr p (icmp6_hdr + 1) [0];
               p = wr p (icmp6_hdr + 4) (le32 (bswap32 (of_nat (MAX_PCKT_SIZE - ETH_HLEN))));
               p = wr p (icmp6_hdr + 2) (le16 0);
               csum = ipv6_csum (drop icmp6_hdr p) ICMP6_TOOBIG_PAYLOAD_SIZE csum (drop ip6h p);
               p = wr p (icmp6_hdr + 2) (le16 (ucast csum))
           in (XDP_TX, p))"

definition send_icmp_too_big :: "config \<Rightarrow> kernel \<Rightarrow> bool \<Rightarrow> nat \<Rightarrow> bytes \<Rightarrow> int \<times> bytes" where
  "send_icmp_too_big cfg k is_ipv6 pckt_size p =
     (let offset = int pckt_size - int (if is_ipv6 then ICMP6_TOOBIG_SIZE else ICMP_TOOBIG_SIZE)
      in case adjust_tail k (0 - offset) p of
           None \<Rightarrow> (XDP_DROP, p)
         | Some p \<Rightarrow> if is_ipv6 then send_icmp6_too_big cfg k p else send_icmp4_too_big cfg k p)"

text \<open>
  Classification of a received message. The counters of "too big" messages and of those that
  ask for a small MTU are in the entry of the stats map.
\<close>

definition parse_icmpv6 ::
  "nat \<Rightarrow> packet_description \<Rightarrow> bst \<Rightarrow> int \<times> packet_description \<times> bst" where
  "parse_icmpv6 off pckt st =
     (let p = xdata st
      in if off + ICMP6_HLEN > length p then (XDP_DROP, pckt, st)
         else
           let icmp6_type = rd8 p off
           in if icmp6_type = ICMPV6_ECHO_REQUEST then
                let (v, q) = send_icmp6_reply p in (v, pckt, st\<lparr>xdata := q\<rparr>)
              else if icmp6_type \<noteq> ICMPV6_PKT_TOOBIG \<and> icmp6_type \<noteq> ICMPV6_DEST_UNREACH
              then (XDP_PASS, pckt, st)
              else if icmp6_type = ICMPV6_PKT_TOOBIG \<and> stats st (MAX_VIPS + ICMP_PTB_V6_STATS) = None
              then (XDP_DROP, pckt, st)
              else
                let key = MAX_VIPS + ICMP_PTB_V6_STATS;
                    mtu = bswap32 (rd32 p (off + 4));
                    st = (if icmp6_type = ICMPV6_PKT_TOOBIG then
                            let st = stats_put key (add_v1 1) st
                            in if mtu < MAX_MTU_IN_PTB_TO_DROP
                               then stats_put key (add_v2 1) st else st
                          else st);
                    ip6h = off + ICMP6_HLEN
                in if ip6h + IP6_HLEN > length p then (XDP_DROP, pckt, st)
                   else (FURTHER_PROCESSING,
                         pckt\<lparr>flow := (flow pckt)\<lparr>proto := rd8 p (ip6h + 6),
                                                   src := rd_addr6 p (ip6h + 24),
                                                   dst := rd_addr6 p (ip6h + 8)\<rparr>,
                              pflags := pflags pckt OR F_ICMP\<rparr>,
                         st))"

definition parse_icmp ::
  "nat \<Rightarrow> packet_description \<Rightarrow> bst \<Rightarrow> int \<times> packet_description \<times> bst" where
  "parse_icmp off pckt st =
     (let p = xdata st
      in if off + ICMP_HLEN > length p then (XDP_DROP, pckt, st)
         else
           let icmp_type = rd8 p off; code = rd8 p (off + 1)
           in if icmp_type = ICMP_ECHO then
                let (v, q) = send_icmp_reply p in (v, pckt, st\<lparr>xdata := q\<rparr>)
              else if icmp_type \<noteq> ICMP_DEST_UNREACH then (XDP_PASS, pckt, st)
              else if code = ICMP_FRAG_NEEDED \<and> stats st (MAX_VIPS + ICMP_PTB_V4_STATS) = None
              then (XDP_DROP, pckt, st)
              else
                let key = MAX_VIPS + ICMP_PTB_V4_STATS;
                    mtu = bswap16 (rd16 p (off + 6));
                    st = (if code = ICMP_FRAG_NEEDED then
                            let st = stats_put key (add_v1 1) st
                            in if ucast mtu < MAX_MTU_IN_PTB_TO_DROP
                               then stats_put key (add_v2 1) st else st
                          else st);
                    iph = off + ICMP_HLEN
                in if iph + IP_HLEN > length p then (XDP_DROP, pckt, st)
                   else if rd8 p iph AND 0x0F \<noteq> 5 then (XDP_DROP, pckt, st)
                   else (FURTHER_PROCESSING,
                         pckt\<lparr>flow := (flow pckt)\<lparr>proto := rd8 p (iph + 9),
                                src := set_w0 (rd32 p (iph + 16)) (src (flow pckt)),
                                dst := set_w0 (rd32 p (iph + 12)) (dst (flow pckt))\<rparr>,
                              pflags := pflags pckt OR F_ICMP\<rparr>,
                         st))"

text \<open>This test reads the code byte without a bounds check; None is a read past the end.\<close>

definition ignorable_quic_icmp_code :: "bytes \<Rightarrow> bool \<Rightarrow> bool option" where
  "ignorable_quic_icmp_code p is_ipv6 =
     (let off = ETH_HLEN
      in if is_ipv6 then
           if off + IP6_HLEN + 1 < length p then
             let icmp6_code = rd8 p (off + IP6_HLEN + 1)
             in Some (icmp6_code = ICMPV6_ADDR_UNREACH \<or> icmp6_code = ICMPV6_PORT_UNREACH)
           else None
         else
           if off + IP_HLEN + 1 < length p then
             let code = rd8 p (off + IP_HLEN + 1)
             in Some (code = ICMP_PORT_UNREACH \<or> code = ICMP_HOST_UNREACH)
           else None)"

definition handle_if_icmp ::
  "nat \<Rightarrow> packet_description \<Rightarrow> u8 \<Rightarrow> bst \<Rightarrow> int \<times> packet_description \<times> bst" where
  "handle_if_icmp off pckt protocol st =
     (if protocol = IPPROTO_ICMPV6 then parse_icmpv6 off pckt st
      else if protocol = IPPROTO_ICMP then parse_icmp off pckt st
      else (FURTHER_PROCESSING, pckt, st))"

section \<open>Echo replies\<close>

lemma send_icmp_reply_form:
  "42 \<le> length p \<Longrightarrow> send_icmp_reply p = (XDP_TX,
     wr (wr (wr (wr (wr (wr (wr (wr (wr p 34 [0]) 36 (le16 (rd16 p 36 + 8))) 22 [64])
       30 (le32 (rd32 p 26))) 26 (le32 (rd32 p 30))) 24 (le16 0)) 24 (le16 0))
       6 (bslice p 0 6)) 0 (bslice p 6 6))"
  by (simp add: send_icmp_reply_def swap_mac_and_send_def Let_def const_defs buf_simps)

lemma send_icmp6_reply_form:
  "62 \<le> length p \<Longrightarrow> send_icmp6_reply p = (XDP_TX,
     wr (wr (wr (wr (wr (wr (wr p 54 [129]) 56 (le16 (rd16 p 56 - 1))) 21 [64])
       22 (addr_bytes (rd_addr6 p 38))) 38 (addr_bytes (rd_addr6 p 22)))
       6 (bslice p 0 6)) 0 (bslice p 6 6))"
  by (simp add: send_icmp6_reply_def swap_mac_and_send_def Let_def const_defs buf_simps)

lemma add8_wrap:
  fixes t c :: int
  assumes "0 \<le> c" "c < 65536"
  shows "((t - 8) + (c + 8) mod 65536) mod 65535 = (t + c) mod 65535 \<longleftrightarrow> c < 0xfff8"
proof (cases "c < 0xfff8")
  case True
  then show ?thesis using assms by simp
next
  case False
  then have "(c + 8 - 65536) mod 65536 = c + 8 - 65536"
    using assms by (intro mod_pos_pos_trivial) auto
  then have "(c + 8) mod 65536 = c + 8 - 65536"
    by (simp only: minus_mod_self2)
  then have "((t - 8) + (c + 8) mod 65536) - (t + c) = - 65536" by simp
  moreover have "\<not> (65535 :: int) dvd - 65536" by simp
  ultimately show ?thesis
    using False by (simp only: mod_eq_dvd_iff)
qed

lemma sub1_wrap:
  fixes t c :: int
  assumes "0 \<le> c" "c < 65536"
  shows "((t + 1) + (c - 1) mod 65536) mod 65535 = (t + c) mod 65535 \<longleftrightarrow> c \<noteq> 0"
proof (cases "c = 0")
  case True
  then show ?thesis by (simp add: mod_eq_dvd_iff)
next
  case False
  then show ?thesis using assms by simp
qed

text \<open>
  The reply to an IPv4 echo request goes back to where the request came from: Ethernet
  and IP addresses are exchanged, the type becomes echo reply, the TTL is reset and everything
  from the identifier of the echo on is unchanged. The ICMP checksum, adjusted by 8 in sixteen
  bits, stays valid exactly when that addition does not wrap around: for a checksum of 0xfff8
  or more the carry is lost.
\<close>

theorem send_icmp_reply_correct:
  assumes "42 \<le> length p" and "rd8 p 34 = ICMP_ECHO" and "send_icmp_reply p = (v, q)"
  shows "v = XDP_TX \<and> length q = length p \<and>
    bslice q 0 6 = bslice p 6 6 \<and> bslice q 6 6 = bslice p 0 6 \<and>
    rd32 q 26 = rd32 p 30 \<and> rd32 q 30 = rd32 p 26 \<and> rd8 q 22 = 64 \<and> rd8 q 34 = 0 \<and>
    drop 38 q = drop 38 p \<and>
    ((uint (rd16 q 34) + uint (rd16 q 36)) mod 65535 = (uint (rd16 p 34) + uint (rd16 p 36)) mod 65535
      \<longleftrightarrow> uint (rd16 p 36) < 0xfff8)"
proof -
  note form = send_icmp_reply_form [OF assms(1)]
  have q: "q = snd (send_icmp_reply p)" and v: "v = XDP_TX"
    using assms(3) form by simp_all
  have w36: "rd16 q 36 = rd16 p 36 + 8" and b34: "rd8 q 34 = 0" and b35: "rd8 q 35 = rd8 p 35"
    using assms(1) unfolding q form by (simp_all add: buf_simps)
  have "uint (rd16 q 36) = (uint (rd16 p 36) + 8) mod 65536"
    by (simp add: w36 uint_word_ariths(1))
  moreover have "uint (rd16 q 34) = uint (rd16 p 34) - 8"
    using assms(2) by (simp add: uint_rd16 b34 b35 ICMP_ECHO_def)
  ultimately have "(uint (rd16 q 34) + uint (rd16 q 36)) mod 65535
      = (uint (rd16 p 34) + uint (rd16 p 36)) mod 65535 \<longleftrightarrow> uint (rd16 p 36) < 0xfff8"
    using add8_wrap [of "uint (rd16 p 36)" "uint (rd16 p 34)"] uint_bounded [of "rd16 p 36"]
    by simp
  moreover have "rd32 q 26 = rd32 p 30" "rd32 q 30 = rd32 p 26" "rd8 q 22 = 64" "drop 38 q = drop 38 p"
    "bslice q 0 6 = bslice p 6 6" "bslice q 6 6 = bslice p 0 6" "length q = length p"
    using assms(1) unfolding q form by (simp_all add: buf_simps)
  ultimately show ?thesis
    using v b34 by blast
qed

theorem send_icmp_reply_correct_witness:
  "fst (send_icmp_reply (replicate 34 1 @ [8, 0, 0xff, 0xff, 0, 1, 0, 2])) = XDP_TX \<and>
   rd8 (snd (send_icmp_reply (replicate 34 1 @ [8, 0, 0xff, 0xff, 0, 1, 0, 2]))) 22 = 64"
proof -
  let ?p = "replicate 34 1 @ [8, 0, 0xff, 0xff, 0, 1, 0, 2] :: bytes"
  have "42 \<le> length ?p" "rd8 ?p 34 = ICMP_ECHO"
    by code_simp+
  from send_icmp_reply_correct [OF this surjective_pairing] show ?thesis by blast
qed

text \<open>
  The same for IPv6: addresses exchanged, type echo reply, hop limit reset, everything from
  the identifier on unchanged; the checksum, lowered by one, stays valid exactly when it was
  not 0.
\<close>

theorem send_icmp6_reply_correct:
  assumes "62 \<le> length p" and "rd8 p 54 = ICMPV6_ECHO_REQUEST" and "send_icmp6_reply p = (v, q)"
  shows "v = XDP_TX \<and> length q = length p \<and>
    bslice q 0 6 = bslice p 6 6 \<and> bslice q 6 6 = bslice p 0 6 \<and>
    rd_addr6 q 22 = rd_addr6 p 38 \<and> rd_addr6 q 38 = rd_addr6 p 22 \<and>
    rd8 q 21 = 64 \<and> rd8 q 54 = 129 \<and> drop 58 q = drop 58 p \<and>
    ((uint (rd16 q 54) + uint (rd16 q 56)) mod 65535 = (uint (rd16 p 54) + uint (rd16 p 56)) mod 65535
      \<longleftrightarrow> uint (rd16 p 56) \<noteq> 0)"
proof -
  note form = send_icmp6_reply_form [OF assms(1)]
  have q: "q = snd (send_icmp6_reply p)" and v: "v = XDP_TX"
    using assms(3) form by simp_all
  have w56: "rd16 q 56 = rd16 p 56 - 1" and b54: "rd8 q 54 = 129" and b55: "rd8 q 55 = rd8 p 55"
    using assms(1) unfolding q form by (simp_all add: buf_simps)
  have "uint (rd16 q 56) = (uint (rd16 p 56) - 1) mod 65536"
    by (simp add: w56 uint_word_ariths(2))
  moreover have "uint (rd16 q 54) = uint (rd16 p 54) + 1"
    using assms(2) by (simp add: uint_rd16 b54 b55 ICMPV6_ECHO_REQUEST_def)
  ultimately have "(uint (rd16 q 54) + uint (rd16 q 56)) mod 65535
      = (uint (rd16 p 54) + uint (rd16 p 56)) mod 65535 \<longleftrightarrow> uint (rd16 p 56) \<noteq> 0"
    using sub1_wrap [of "uint (rd16 p 56)" "uint (rd16 p 54)"] uint_bounded [of "rd16 p 56"]
    by simp
  moreover have "rd_addr6 q 22 = rd_addr6 p 38" "rd_addr6 q 38 = rd_addr6 p 22" "rd8 q 21 = 64"
    "drop 58 q = drop 58 p" "bslice q 0 6 = bslice p 6 6" "bslice q 6 6 = bslice p 0 6"
    "length q = length p"
    using assms(1) unfolding q form by (simp_all add: buf_simps)
  ultimately show ?thesis
    using v b54 by blast
qed

theorem send_icmp6_reply_correct_witness:
  "fst (send_icmp6_reply (replicate 54 1 @ [128, 0, 0, 0, 0, 1, 0, 2])) = XDP_TX \<and>
   rd8 (snd (send_icmp6_reply (replicate 54 1 @ [128, 0, 0, 0, 0, 1, 0, 2]))) 54 = 129"
proof -
  let ?p = "replicate 54 1 @ [128, 0, 0, 0, 0, 1, 0, 2] :: bytes"
  have "62 \<le> length ?p" "rd8 ?p 54 = ICMPV6_ECHO_REQUEST"
    by code_simp+
  from send_icmp6_reply_correct [OF this surjective_pairing] show ?thesis by blast
qed

section \<open>Errors sent to clients\<close>

lemma swap_mac_fields:
  assumes "i + 14 \<le> length p" "14 \<le> i"
  shows "bslice (swap_mac p i) 0 6 = bslice p (i + 6) 6" "bslice (swap_mac p i) 6 6 = bslice p i 6"
    "rd16 (swap_mac p i) 12 = rd16 p (i + 12)"
    "14 \<le> j \<Longrightarrow> drop j (swap_mac p i) = drop j p"
    "14 \<le> j \<Longrightarrow> rd32 (swap_mac p i) j = rd32 p j"
    "14 \<le> j \<Longrightarrow> rd_addr6 (swap_mac p i) j = rd_addr6 p j"
    "length (swap_mac p i) = length p"
  using assms by (simp_all add: swap_mac_def Let_def buf_simps)

text \<open>The writes behind the Ethernet header, in one term.\<close>

definition icmp4_too_big_hdrs :: "bytes \<Rightarrow> bytes" where
  "icmp4_too_big_hdrs p =
     (let p = wr (wr p 34 [3]) 35 [4];
          p = wr (wr (wr (wr p 40 (le16 (bswap16 1500))) 38 (le16 0)) 36 (le16 0)) 36 (le16 0);
          p = wr p 22 [64];
          p = wr p 30 (le32 (rd32 p 54));
          p = wr p 26 (le32 (rd32 p 58));
          p = wr (wr (wr (wr p 20 (le16 0)) 14 [0x45]) 23 [1]) 15 [0];
          p = wr (wr p 16 (le16 (bswap16 112))) 18 (le16 0)
      in wr (wr p 24 (le16 0)) 24 (le16 0))"

lemma length_icmp4_too_big_hdrs [simp]: "length (icmp4_too_big_hdrs p) = length p"
  by (simp add: icmp4_too_big_hdrs_def Let_def)

lemma icmp4_too_big_hdrs_fields:
  assumes "126 \<le> length p"
  shows "rd8 (icmp4_too_big_hdrs p) 34 = 3" "rd8 (icmp4_too_big_hdrs p) 35 = 4"
    "rd16 (icmp4_too_big_hdrs p) 40 = bswap16 1500" "rd16 (icmp4_too_big_hdrs p) 16 = bswap16 112"
    "rd32 (icmp4_too_big_hdrs p) 26 = rd32 p 58" "rd32 (icmp4_too_big_hdrs p) 30 = rd32 p 54"
    "rd8 (icmp4_too_big_hdrs p) 23 = 1" "rd8 (icmp4_too_big_hdrs p) 14 = 0x45"
    "drop 42 (icmp4_too_big_hdrs p) = drop 42 p"
    "bslice (icmp4_too_big_hdrs p) 0 6 = bslice p 0 6" "bslice (icmp4_too_big_hdrs p) 6 6 = bslice p 6 6"
  using assms by (simp_all add: icmp4_too_big_hdrs_def Let_def buf_simps)

lemma send_icmp4_too_big_TX:
  assumes "send_icmp4_too_big cfg k p = (XDP_TX, q)"
  obtains r where "XDP_ADJUST_HEAD_FUNC cfg k (- int 28) p = (False, r)" "126 \<le> length r"
    "q = icmp4_too_big_hdrs (swap_mac r 28)"
  using assms
  by (auto simp: send_icmp4_too_big_def icmp4_too_big_hdrs_def Let_def const_defs not_less
      split: prod.splits if_splits)

lemma rd32_take: "i + 4 \<le> n \<Longrightarrow> rd32 (take n p) i = rd32 p i"
  by (simp add: rd32_def rd16_def rd8_def)

lemma bslice_take: "i + m \<le> n \<Longrightarrow> bslice (take n p) i m = bslice p i m"
  by (auto simp: bslice_def rd8_def)

text \<open>
  The "fragmentation needed" error sent for an IPv4 packet over the maximum size has 126
  bytes: 28 bytes of new headers and the first 84 bytes of the packet's IP datagram, unchanged.
  It goes back to the sender (Ethernet and IP addresses exchanged), its IP length matches the
  packet, and it announces an MTU of 1500.
\<close>

theorem send_icmp_too_big_v4_correct:
  assumes "head_law k" and "tail_law k" and "98 < length p"
    and "send_icmp_too_big cfg k False (length p) p = (XDP_TX, q)"
  shows "length q = 126 \<and> drop 42 q = take 84 (drop 14 p) \<and>
    rd32 q 30 = rd32 p 26 \<and> rd32 q 26 = rd32 p 30 \<and>
    bslice q 0 6 = bslice p 6 6 \<and> bslice q 6 6 = bslice p 0 6 \<and>
    rd8 q 23 = 1 \<and> rd8 q 34 = 3 \<and> rd8 q 35 = 4 \<and>
    bswap16 (rd16 q 40) = 1500 \<and> int (length q) - 14 = uint (bswap16 (rd16 q 16))"
proof -
  let ?d = "0 - (int (length p) - int 98)"
  obtain t where t: "adjust_tail k ?d p = Some t" and s: "send_icmp4_too_big cfg k t = (XDP_TX, q)"
    using assms(4)
    by (auto simp: send_icmp_too_big_def Let_def ICMP_TOOBIG_SIZE_def XDP_DROP_def XDP_TX_def
        split: option.splits)
  have tt: "t = take 98 p"
    using tail_law_shrink [OF assms(2) t] assms(3) by (simp add: nat_diff_distrib)
  obtain r where r: "XDP_ADJUST_HEAD_FUNC cfg k (- int 28) t = (False, r)" "126 \<le> length r"
    and q: "q = icmp4_too_big_hdrs (swap_mac r 28)"
    using send_icmp4_too_big_TX [OF s] by blast
  have g: "length r = 28 + length t" "drop 28 r = t"
    using adjust_head_grow [OF assms(1) r(1)] by simp_all
  then have lr: "length r = 126"
    using tt assms(3) by simp
  have "rd32 r (28 + i) = rd32 t i" "bslice r (28 + i) m = bslice t i m" "drop (28 + i) r = drop i t"
    for i m
    using g(2) rd32_drop [of 28 r i] bslice_drop [of 28 r i m] drop_drop [of i 28 r]
    by (simp_all add: add.commute)
  from this(1) [of 26] this(1) [of 30] this(2) [of 0 6] this(2) [of 6 6] this(3) [of 14]
  have "rd32 r 54 = rd32 p 26" "rd32 r 58 = rd32 p 30" "bslice r 28 6 = bslice p 0 6"
    "bslice r 34 6 = bslice p 6 6" "drop 42 r = take 84 (drop 14 p)"
    by (simp_all add: tt rd32_take bslice_take drop_take)
  then show ?thesis
    unfolding q using lr
    by (simp add: icmp4_too_big_hdrs_fields swap_mac_fields)
qed

theorem send_icmp_too_big_v4_correct_witness:
  "length (snd (send_icmp_too_big ref_config ref_kernel False 120 (replicate 120 1))) = 126"
proof -
  have "fst (send_icmp_too_big ref_config ref_kernel False (length (replicate 120 1)) (replicate 120 1)) = XDP_TX"
    by code_simp
  from send_icmp_too_big_v4_correct [OF head_law_ref tail_law_ref _ pair_of_fst [OF this]] show ?thesis
    by simp
qed

end
