(* ===== verification/FlowDebug.thy ===== *)
theory FlowDebug
  imports Structs
begin

text \<open>
  lib/bpf/flow_debug_helpers.h: the route of a GUE packet (its two outer addresses) recorded
  under the flow of the inner packet. The two Ethernet header pointers are offsets in the
  packet.
\<close>

definition get_next_ports :: "bytes \<Rightarrow> nat \<Rightarrow> u8 \<Rightarrow> u32" where
  "get_next_ports p transport_hdr prot =
     (let hdr_ports = push_bit 16 (ucast (bswap16 (rd16 p (transport_hdr + 2))))
                        OR ucast (bswap16 (rd16 p transport_hdr)) :: u32
      in if prot = IPPROTO_UDP then
           if transport_hdr + UDP_HLEN \<le> length p then hdr_ports else 0
         else if prot = IPPROTO_TCP then
           if transport_hdr + TCP_HLEN \<le> length p then hdr_ports else 0
         else 0)"

text \<open>flow.ports is the 32-bit view of the two ports.\<close>

definition set_flow_ports :: "u32 \<Rightarrow> flow_key \<Rightarrow> flow_key" where
  "set_flow_ports w f = f\<lparr>port0 := ucast w, port1 := ucast (drop_bit 16 w)\<rparr>"

definition gue_record_route :: "kernel \<Rightarrow> nat \<Rightarrow> nat \<Rightarrow> bool \<Rightarrow> bool \<Rightarrow> bst \<Rightarrow> bst" where
  "gue_record_route k outer_eth inner_eth outer_v4 inner_v4 st =
     (let p = xdata st
      in case flow_debug_maps st (cpu k) of
           None \<Rightarrow> st
         | Some flow_debug_map \<Rightarrow>
             let outer = outer_eth + ETH_HLEN; inner = inner_eth + ETH_HLEN
             in if outer + (if outer_v4 then IP_HLEN else IP6_HLEN) > length p then st
                else
                  let debug_info =
                        (if outer_v4
                         then \<lparr>l4_hop = set_w0 (rd32 p (outer + 12)) zero_addr,
                               this_hop = set_w0 (rd32 p (outer + 16)) zero_addr\<rparr>
                         else \<lparr>l4_hop = rd_addr6 p (outer + 8), this_hop = rd_addr6 p (outer + 24)\<rparr>)
                  in if inner + (if inner_v4 then IP_HLEN else IP6_HLEN) > length p then st
                     else
                       let fl =
                             (if inner_v4
                              then set_flow_ports (get_next_ports p (inner + IP_HLEN) (rd8 p (inner + 9)))
                                     \<lparr>src = set_w0 (rd32 p (inner + 12)) zero_addr,
                                      dst = set_w0 (rd32 p (inner + 16)) zero_addr,
                                      port0 = 0, port1 = 0, proto = rd8 p (inner + 9)\<rparr>
                              else set_flow_ports (get_next_ports p (inner + IP6_HLEN) (rd8 p (inner + 6)))
                                     \<lparr>src = rd_addr6 p (inner + 8), dst = rd_addr6 p (inner + 24),
                                      port0 = 0, port1 = 0, proto = rd8 p (inner + 6)\<rparr>)
                       in st\<lparr>flow_debug_maps := (flow_debug_maps st)
                              (cpu k \<mapsto> dbg_update k flow_debug_map fl debug_info)\<rparr>)"

text \<open>
  The flow recorded for a GUE packet with an inner TCP or UDP header inside the packet has
  the ports of that header in host byte order, source port in the first place.
\<close>

theorem get_next_ports_order:
  assumes "prot = IPPROTO_TCP \<and> off + 20 \<le> length p \<or> prot = IPPROTO_UDP \<and> off + 8 \<le> length p"
  shows "port0 (set_flow_ports (get_next_ports p off prot) f) = bswap16 (rd16 p off) \<and>
    port1 (set_flow_ports (get_next_ports p off prot) f) = bswap16 (rd16 p (off + 2))"
proof -
  have lo: "ucast (push_bit 16 (ucast a) OR ucast b :: u32) = b" for a b :: u16
    by (rule bit_word_eqI) (auto simp: bit_simps)
  have hi: "ucast (drop_bit 16 (push_bit 16 (ucast a) OR ucast b :: u32)) = a" for a b :: u16
    by (rule bit_word_eqI) (auto simp: bit_simps dest: bit_imp_le_length)
  show ?thesis
    using assms
    by (auto simp: get_next_ports_def set_flow_ports_def Let_def const_defs lo [simplified] hi [simplified]
        split: if_splits)
qed

theorem get_next_ports_order_witness:
  "port0 (set_flow_ports (get_next_ports [0, 80, 1, 187, 0, 0, 0, 0] 0 IPPROTO_UDP) zero_flow) = 80"
proof -
  have a: "IPPROTO_UDP = IPPROTO_TCP \<and> 0 + 20 \<le> length [0, 80, 1, 187, 0, 0, 0, 0 :: u8] \<or>
    IPPROTO_UDP = IPPROTO_UDP \<and> 0 + 8 \<le> length [0, 80, 1, 187, 0, 0, 0, 0 :: u8]"
    by simp
  have "bswap16 (rd16 [0, 80, 1, 187, 0, 0, 0, 0] 0) = 80"
    by code_simp
  then show ?thesis
    using get_next_ports_order [OF a] by simp
qed

end
