(* ===== verification/Balancer.thy ===== *)
theory Balancer
  imports Lookup Encap Icmp FlowDebug
begin

text \<open>
  process_packet and balancer_ingress of lib/bpf/balancer.bpf.c. The function is split at its
  comments into stages, each with the early returns of its lines; bind_step runs the
  next stage unless a stage has stopped.

  What the source leaves open is the record unread: the values of the local variables
  which are read before they are assigned (protocol, pkt_bytes, key, cur_time, action, ret, the
  header pointers of the decapsulation functions), the conditions of the cut if lines of
  process_encaped_ipip_pckt and process_encaped_gue_pckt, and the arguments of the four cut
  calls of incr_server_id_routing_stats.
\<close>

record unread =
  u_protocol :: u8
  u_pkt_bytes :: u16
  u_key :: u32
  u_cur_time :: u64
  u_action :: int
  u_rem_ret :: int
  u_add_ret :: int
  u_new_eth :: nat
  u_old_eth :: nat
  u_short_v6 :: bool
  u_short_v4 :: bool
  u_inner_protocol :: u8
  u_call_quic_mismatch :: "u32 \<times> bool \<times> bool"
  u_call_quic_initial :: "u32 \<times> bool \<times> bool"
  u_call_tcp_syn :: "u32 \<times> bool \<times> bool"
  u_call_tcp_mismatch :: "u32 \<times> bool \<times> bool"

text \<open>One assignment of the open values, for evaluation.\<close>

definition ref_unread :: unread where
  "ref_unread = \<lparr>u_protocol = IPPROTO_UDP, u_pkt_bytes = 46, u_key = 0, u_cur_time = 0, u_action = - 1,
     u_rem_ret = 0, u_add_ret = 0, u_new_eth = 20, u_old_eth = 0, u_short_v6 = False, u_short_v4 = False,
     u_inner_protocol = IPPROTO_UDP, u_call_quic_mismatch = (0, False, True),
     u_call_quic_initial = (0, True, False), u_call_tcp_syn = (0, True, False),
     u_call_tcp_mismatch = (0, False, True)\<rparr>"

definition cut_call :: "u32 \<times> bool \<times> bool \<Rightarrow> bst \<Rightarrow> bst" where
  "cut_call = (\<lambda>(vip, newConn, misMatch). incr_server_id_routing_stats vip newConn misMatch)"

definition bind_step :: "'a step \<times> bst \<Rightarrow> ('a \<Rightarrow> bst \<Rightarrow> 'b step \<times> bst) \<Rightarrow> 'b step \<times> bst" where
  "bind_step r h = (case r of (Go v, st) \<Rightarrow> h v st | (Stop out, st) \<Rightarrow> (Stop out, st))"

lemma bind_step_simps [simp]:
  "bind_step (Go v, st) h = h v st" "bind_step (Stop out, st) h = (Stop out, st)"
  by (simp_all add: bind_step_def)

text \<open>A function code: FURTHER_PROCESSING (negative) goes on, a verdict stops.\<close>

definition on_code :: "int \<Rightarrow> 'a \<Rightarrow> bst \<Rightarrow> 'a step \<times> bst" where
  "on_code action v st = (if action \<ge> 0 then (Stop (Verdict action), st) else (Go v, st))"

section \<open>Inline decapsulation\<close>

text \<open>
  The tail shared by the two functions: the decap counter, the indeterminate action, pass. The
  IP in IP variant tests the pointer is_ipv6, not what it points to, so its counter is v2.
\<close>

definition decap_tail :: "bool \<Rightarrow> int \<Rightarrow> bool \<Rightarrow> bst \<Rightarrow> outcome \<times> bst" where
  "decap_tail count_v6 action pass st =
     (let stats_key = MAX_VIPS + DECAP_CNTR
      in if stats st stats_key = None then (Verdict XDP_DROP, st)
         else
           let st = stats_put stats_key (if count_v6 then add_v2 1 else add_v1 1) st
           in if action \<ge> 0 then (Verdict action, st)
              else if pass then (Verdict XDP_PASS, st)
              else (recirculate st, st))"

definition after_decap ::
  "(bool \<times> bytes) option \<Rightarrow> bst \<Rightarrow> (bst \<Rightarrow> outcome \<times> bst) \<Rightarrow> outcome \<times> bst" where
  "after_decap r st h =
     (case r of
        None \<Rightarrow> (Fault, st)
      | Some (ok, p) \<Rightarrow> if \<not> ok then (Verdict XDP_DROP, st\<lparr>xdata := p\<rparr>) else h (st\<lparr>xdata := p\<rparr>))"

definition process_encaped_ipip_pckt :: "config \<Rightarrow> kernel \<Rightarrow> unread \<Rightarrow> bool \<Rightarrow> u8 \<Rightarrow> bool
    \<Rightarrow> bst \<Rightarrow> outcome \<times> bst" where
  "process_encaped_ipip_pckt cfg k u is_ipv6 protocol pass st =
     (let tail = decap_tail True (u_action u) pass;
          p = xdata st
      in if protocol = IPPROTO_IPIP then
           if is_ipv6 then
             if u_short_v6 u then (Verdict XDP_DROP, st)
             else after_decap (decap_v6 cfg k (u_new_eth u) (u_old_eth u) True p) st tail
           else
             if u_short_v4 u then (Verdict XDP_DROP, st)
             else after_decap (decap_v4 cfg k (u_new_eth u) (u_old_eth u) p) st tail
         else if protocol = IPPROTO_IPV6 then
           if u_short_v6 u then (Verdict XDP_DROP, st)
           else after_decap (decap_v6 cfg k (u_new_eth u) (u_old_eth u) False p) st tail
         else tail st)"

definition process_encaped_gue_pckt :: "config \<Rightarrow> kernel \<Rightarrow> unread \<Rightarrow> bool \<Rightarrow> bool
    \<Rightarrow> bst \<Rightarrow> outcome \<times> bst" where
  "process_encaped_gue_pckt cfg k u is_ipv6 pass st =
     (let tail = decap_tail is_ipv6 (u_action u) pass;
          p = xdata st
      in if is_ipv6 then
           let offset = IP6_HLEN + ETH_HLEN + UDP_HLEN
           in if u_short_v6 u then (Verdict XDP_DROP, st)
              else if offset \<ge> length p then (Fault, st)
              else
                let v6 = rd8 p offset AND GUEV1_IPV6MASK
                in after_decap (gue_decap_v6 cfg k (u_new_eth u) (u_old_eth u) (v6 = 0) p) st tail
         else
           if u_short_v4 u then (Verdict XDP_DROP, st)
           else after_decap (gue_decap_v4 cfg k (u_new_eth u) (u_old_eth u) p) st tail)"

definition incr_decap_vip_stats :: "unread \<Rightarrow> nat \<Rightarrow> bool \<Rightarrow> bst \<Rightarrow> bst" where
  "incr_decap_vip_stats u nh_off is_ipv6 st =
     (let prot = u_inner_protocol u;
          (c, inner_pckt) = parse_l3_headers (xdata st) prot nh_off is_ipv6 zero_pckt
      in if c \<ge> 0 then st
         else
           let (c, inner_pckt, st) = handle_if_icmp 0 inner_pckt prot st
           in if c \<ge> 0 then st
              else
                let vaddr = (if is_ipv6 then dst (flow inner_pckt)
                             else set_w0 (w0 (dst (flow inner_pckt))) zero_addr);
                    vproto = proto (flow inner_pckt);
                    (ok, inner_pckt) =
                      (if prot = IPPROTO_TCP then parse_tcp (xdata st) is_ipv6 inner_pckt
                       else (True, inner_pckt));
                    (ok, inner_pckt) =
                      (if ok \<and> prot = IPPROTO_UDP then parse_udp (xdata st) is_ipv6 inner_pckt
                       else (ok, inner_pckt))
                in if \<not> ok then st
                   else
                     case vip_map st \<lparr>vip_addr = vaddr, vip_port = port1 (flow inner_pckt),
                                      vip_proto = vproto\<rparr> of
                       None \<Rightarrow> st
                     | Some vip_info \<Rightarrow> decap_vip_stats_put (vip_num vip_info) (add_v1 1) st)"

section \<open>The stages of process\_packet\<close>

text \<open>Lines 619 to 673: headers, ICMP, encapsulated packets, ports.\<close>

definition pp_parse :: "config \<Rightarrow> kernel \<Rightarrow> unread \<Rightarrow> nat \<Rightarrow> bool \<Rightarrow> bst
    \<Rightarrow> packet_description step \<times> bst" where
  "pp_parse cfg k u nh_off is_ipv6 st =
     (let th_off = 0;
          (action, pckt) = parse_l3_headers (xdata st) (u_protocol u) nh_off is_ipv6 zero_pckt
      in if action \<ge> 0 then (Stop (Verdict action), st)
         else
           let (action, pckt, st) = handle_if_icmp th_off pckt (u_protocol u) st
           in if action \<ge> 0 then (Stop (Verdict action), st)
              else
                let protocol = proto (flow pckt)
                in if INLINE_DECAP_IPIP cfg \<and> (protocol = IPPROTO_IPIP \<or> protocol = IPPROTO_IPV6) then
                     let (action, st) = check_decap_dst cfg pckt is_ipv6 st
                     in if action \<ge> 0 then (Stop (Verdict action), st)
                        else
                          let (out, st) = process_encaped_ipip_pckt cfg k u is_ipv6 protocol True st
                          in (Stop out, st)
                   else if protocol = IPPROTO_TCP then
                     let (ok, pckt) = parse_tcp (xdata st) is_ipv6 pckt
                     in if \<not> ok then (Stop (Verdict XDP_DROP), st) else (Go pckt, st)
                   else if protocol = IPPROTO_UDP then
                     let (ok, pckt) = parse_udp (xdata st) is_ipv6 pckt
                     in if \<not> ok then (Stop (Verdict XDP_DROP), st)
                        else if INLINE_DECAP_GUE cfg \<and> port1 (flow pckt) = bswap16 GUE_DPORT then
                          let (action, st) = check_decap_dst cfg pckt is_ipv6 st
                          in if action \<ge> 0 then (Stop (Verdict action), st)
                             else
                               let (out, st) = process_encaped_gue_pckt cfg k u is_ipv6 True st
                               in (Stop out, st)
                        else (Go pckt, st)
                   else (Stop (Verdict XDP_PASS), st))"

text \<open>Lines 675 to 697: the VIP, by port or for all ports.\<close>

definition pp_vip :: "bool \<Rightarrow> packet_description \<Rightarrow> bst
    \<Rightarrow> (vip_definition \<times> vip_meta \<times> packet_description) step \<times> bst" where
  "pp_vip is_ipv6 pckt st =
     (let a = (if is_ipv6 then dst (flow pckt) else set_w0 (w0 (dst (flow pckt))) zero_addr);
          vip = \<lparr>vip_addr = a, vip_port = port1 (flow pckt), vip_proto = proto (flow pckt)\<rparr>
      in case vip_map st vip of
           Some vip_info \<Rightarrow> (Go (vip, vip_info, pckt), st)
         | None \<Rightarrow>
             let vip = vip\<lparr>vip_port := 0\<rparr>
             in case vip_map st vip of
                  None \<Rightarrow> (Stop (Verdict XDP_PASS), st)
                | Some vip_info \<Rightarrow>
                    let pckt = (if \<not> has_flag (vip_flags vip_info) F_HASH_DPORT_ONLY \<and>
                                   \<not> has_flag (vip_flags vip_info) F_HASH_SRC_DST_PORT
                                then pckt\<lparr>flow := (flow pckt)\<lparr>port1 := 0\<rparr>\<rparr> else pckt)
                    in (Go (vip, vip_info, pckt), st))"

text \<open>Lines 699 to 716: packets over the maximum size.\<close>

definition pp_size :: "config \<Rightarrow> kernel \<Rightarrow> bool \<Rightarrow> bst \<Rightarrow> unit step \<times> bst" where
  "pp_size cfg k is_ipv6 st =
     (let n = length (xdata st)
      in if n > MAX_PCKT_SIZE then
           let st = report_event cfg PACKET_TOOBIG n st
           in if ICMP_TOOBIG_GENERATION cfg then
                let stats_key = MAX_VIPS + ICMP_TOOBIG_CNTRS
                in if stats st stats_key = None then (Stop (Verdict XDP_DROP), st)
                   else
                     let st = stats_put stats_key (if is_ipv6 then add_v2 1 else add_v1 1) st;
                         (v, p) = send_icmp_too_big cfg k is_ipv6 n (xdata st)
                     in (Stop (Verdict v), st\<lparr>xdata := p\<rparr>)
              else (Stop (Verdict XDP_DROP), st)
         else (Go (), st))"

text \<open>Lines 718 to 747: the packet counter, the source port, the LRU map of this CPU.\<close>

definition pp_lru_map :: "kernel \<Rightarrow> vip_meta \<Rightarrow> packet_description \<Rightarrow> bst
    \<Rightarrow> (packet_description \<times> lru_ref) step \<times> bst" where
  "pp_lru_map k vip_info pckt st =
     (let stats_key = MAX_VIPS + LRU_CNTRS
      in if stats st stats_key = None then (Stop (Verdict XDP_DROP), st)
         else
           let st = stats_put stats_key (add_v1 1) st;
               pckt = (if has_flag (vip_flags vip_info) F_HASH_NO_SRC_PORT
                       then pckt\<lparr>flow := (flow pckt)\<lparr>port0 := 0\<rparr>\<rparr> else pckt);
               lru_stats_key = MAX_VIPS + FALLBACK_LRU_CNTR
           in if lru_mapping st (cpu k) \<noteq> None then (Go (pckt, LruCpu (cpu k)), st)
              else if stats st lru_stats_key = None then (Stop (Verdict XDP_DROP), st)
              else (Go (pckt, LruFallback), stats_put lru_stats_key (add_v1 1) st))"

text \<open>Lines 749 to 826: the real server named by the connection id of a QUIC packet.\<close>

definition quic_fallback :: "int \<Rightarrow> bst \<Rightarrow> bst" where
  "quic_fallback sid st =
     quic_put (\<lambda>s. s\<lparr>q_cid_invalid_server_id := q_cid_invalid_server_id s + 1,
                    q_cid_invalid_server_id_sample := word_of_int sid,
                    q_ch_routed := q_ch_routed s + 1\<rparr>) st"

definition pp_quic :: "config \<Rightarrow> kernel \<Rightarrow> unread \<Rightarrow> bool \<Rightarrow> vip_meta \<Rightarrow> packet_description
    \<Rightarrow> lru_ref \<Rightarrow> bst \<Rightarrow> (packet_description \<times> real_definition option) step \<times> bst" where
  "pp_quic cfg k u is_ipv6 vip_info pckt lru_map st =
     (if \<not> has_flag (vip_flags vip_info) F_QUIC_VIP then (Go (pckt, None), st)
      else if has_flag (pflags pckt) F_ICMP then
        let stats_key = MAX_VIPS + QUIC_ICMP_STATS
        in if stats st stats_key = None then (Stop (Verdict XDP_DROP), st)
           else
             let st = stats_put stats_key (add_v1 1) st
             in case ignorable_quic_icmp_code (xdata st) is_ipv6 of
                  None \<Rightarrow> (Stop Fault, st)
                | Some ignorable \<Rightarrow>
                    (Go (pckt, None), if ignorable then stats_put stats_key (add_v2 1) st else st)
      else if quic_stats_map st 0 = None then (Stop (Verdict XDP_DROP), st)
      else
        let qpr = parse_quic (xdata st) is_ipv6 pckt
        in if qpr_server_id qpr > 0 then
             let st = increment_quic_cid_version_stats (qpr_cid_version qpr) st;
                 key = word_of_int (qpr_server_id qpr) :: u32
             in case server_id_map st key of
                  Some real_pos \<Rightarrow>
                    if key = 0 then (Go (pckt, None), quic_fallback (qpr_server_id qpr) st)
                    else
                      let pckt = pckt\<lparr>real_index := key\<rparr>
                      in (case reals st key of
                            None \<Rightarrow>
                              (Stop (Verdict XDP_DROP),
                               report_event cfg QUIC_PACKET_DROP_NO_REAL (length (xdata st))
                                 (quic_put (\<lambda>s. s\<lparr>q_cid_unknown_real_dropped :=
                                    q_cid_unknown_real_dropped s + 1\<rparr>) st))
                          | Some real \<Rightarrow>
                              let (res, st) =
                                    check_and_update_real_index_in_lru k (u_cur_time u) pckt lru_map st;
                                  st = (if res = DST_MATCH_IN_LRU then
                                          quic_put (\<lambda>s. s\<lparr>q_dst_match_in_lru := q_dst_match_in_lru s + 1\<rparr>) st
                                        else if res = DST_MISMATCH_IN_LRU then
                                          cut_call (u_call_quic_mismatch u)
                                            (quic_put (\<lambda>s. s\<lparr>q_dst_mismatch_in_lru :=
                                               q_dst_mismatch_in_lru s + 1\<rparr>) st)
                                        else
                                          quic_put (\<lambda>s. s\<lparr>q_dst_not_found_in_lru :=
                                            q_dst_not_found_in_lru s + 1\<rparr>) st)
                              in (Go (pckt, Some real),
                                  quic_put (\<lambda>s. s\<lparr>q_cid_routed := q_cid_routed s + 1\<rparr>) st))
                | None \<Rightarrow> (Go (pckt, None), quic_fallback (qpr_server_id qpr) st)
           else if \<not> qpr_is_initial qpr then
             (Go (pckt, None), quic_put (\<lambda>s. s\<lparr>q_ch_routed := q_ch_routed s + 1\<rparr>) st)
           else
             (Go (pckt, None),
              cut_call (u_call_quic_initial u)
                (quic_put (\<lambda>s. s\<lparr>q_cid_initial := q_cid_initial s + 1\<rparr>) st)))"

text \<open>Lines 827 to 832.\<close>

definition pp_stable :: "config \<Rightarrow> bool \<Rightarrow> vip_meta \<Rightarrow> packet_description \<Rightarrow> real_definition option
    \<Rightarrow> bst \<Rightarrow> packet_description \<times> bst" where
  "pp_stable cfg is_ipv6 vip_info pckt real st =
     (if UDP_STABLE_ROUTING cfg \<and> proto (flow pckt) = IPPROTO_UDP \<and>
         has_flag (vip_flags vip_info) F_UDP_STABLE_ROUTING_VIP
      then process_udp_stable_routing real pckt is_ipv6 st
      else (pckt, st))"

text \<open>Lines 839 to 869: the server id of a TCP packet.\<close>

definition pp_tcp_server_id :: "config \<Rightarrow> kernel \<Rightarrow> unread \<Rightarrow> vip_meta \<Rightarrow> packet_description
    \<Rightarrow> lru_ref \<Rightarrow> bst \<Rightarrow> packet_description step \<times> bst" where
  "pp_tcp_server_id cfg k u vip_info pckt lru_map st =
     (if TCP_SERVER_ID_ROUTING cfg \<and> proto (flow pckt) = IPPROTO_TCP then
        if tpr_stats_map st 0 = None then (Stop (Verdict XDP_DROP), st)
        else if has_flag (pflags pckt) F_SYN_SET then
          (Go pckt, cut_call (u_call_tcp_syn u) (tpr_put (\<lambda>s. s\<lparr>t_tcp_syn := t_tcp_syn s + 1\<rparr>) st))
        else
          let (c, pckt) = tcp_hdr_opt_lookup st None pckt
          in if c = FURTHER_PROCESSING then
               (Go pckt, tpr_put (\<lambda>s. s\<lparr>t_ch_routed := t_ch_routed s + 1\<rparr>) st)
             else
               let st =
                     (if \<not> has_flag (vip_flags vip_info) F_LRU_BYPASS then
                        let (res, st) = check_and_update_real_index_in_lru k (u_cur_time u) pckt lru_map st
                        in if res = DST_MISMATCH_IN_LRU then
                             cut_call (u_call_tcp_mismatch u)
                               (tpr_put (\<lambda>s. s\<lparr>t_dst_mismatch_in_lru := t_dst_mismatch_in_lru s + 1\<rparr>) st)
                           else st
                      else st)
               in (Go pckt, tpr_put (\<lambda>s. s\<lparr>t_sid_routed := t_sid_routed s + 1\<rparr>) st)
      else (Go pckt, st))"

text \<open>Lines 887 to 918: consistent hashing. dst is NULL here.\<close>

definition pp_consistent_hash :: "config \<Rightarrow> kernel \<Rightarrow> unread \<Rightarrow> bool \<Rightarrow> vip_definition \<Rightarrow> vip_meta
    \<Rightarrow> packet_description \<Rightarrow> lru_ref \<Rightarrow> bst \<Rightarrow> packet_description step \<times> bst" where
  "pp_consistent_hash cfg k u is_ipv6 vip vip_info pckt lru_map st =
     (if proto (flow pckt) = IPPROTO_TCP \<and> stats st (MAX_VIPS + LRU_MISS_CNTR) = None
      then (Stop (Verdict XDP_DROP), st)
      else
        let st = (if proto (flow pckt) = IPPROTO_TCP then
                    let key = MAX_VIPS + LRU_MISS_CNTR
                    in if has_flag (pflags pckt) F_SYN_SET then stats_put key (add_v1 1) st
                       else stats_put key (add_v2 1)
                              (report_event cfg TCP_NONSYN_LRUMISS (length (xdata st)) st)
                  else st);
            (routed, pckt, st) = get_packet_dst cfg k (u_key u) None pckt vip_info is_ipv6 lru_map st
        in if \<not> routed then (Stop (Verdict XDP_DROP), st)
           else
             let (c, st) = update_vip_lru_miss_stats vip pckt is_ipv6 st
             in if c \<ge> 0 then (Stop (Verdict XDP_DROP), st)
                else (Go pckt, stats_put (MAX_VIPS + LRU_CNTRS) (add_v2 1) st))"

text \<open>Lines 838 to 919: all the lookups made when no server id named a real server.\<close>

definition pp_lookup :: "config \<Rightarrow> kernel \<Rightarrow> unread \<Rightarrow> bool \<Rightarrow> vip_definition \<Rightarrow> vip_meta
    \<Rightarrow> packet_description \<Rightarrow> lru_ref \<Rightarrow> real_definition option \<Rightarrow> bst
    \<Rightarrow> packet_description step \<times> bst" where
  "pp_lookup cfg k u is_ipv6 vip vip_info pckt lru_map real st =
     (if real \<noteq> None then (Go pckt, st)
      else
        bind_step (pp_tcp_server_id cfg k u vip_info pckt lru_map st) (\<lambda>pckt st.
          let (pckt, st) =
                (if \<not> has_flag (pflags pckt) F_SYN_SET \<and> \<not> has_flag (vip_flags vip_info) F_LRU_BYPASS
                 then connection_table_lookup k pckt lru_map False st else (pckt, st));
              (c, pckt, st) =
                (if GLOBAL_LRU_LOOKUP cfg \<and> \<not> has_flag (pflags pckt) F_SYN_SET \<and>
                    has_flag (vip_flags vip_info) F_GLOBAL_LRU
                 then perform_global_lru_lookup k None pckt (cpu k) st
                 else (FURTHER_PROCESSING, pckt, st))
          in if c \<ge> 0 then (Stop (Verdict c), st)
             else pp_consistent_hash cfg k u is_ipv6 vip vip_info pckt lru_map st))"

text \<open>Lines 921 to 958: statistics of the VIP and of the real server, encapsulation.\<close>

definition pp_forward :: "config \<Rightarrow> kernel \<Rightarrow> unread \<Rightarrow> bool \<Rightarrow> vip_meta \<Rightarrow> u16 \<Rightarrow> packet_description
    \<Rightarrow> real_definition option \<Rightarrow> bst \<Rightarrow> outcome \<times> bst" where
  "pp_forward cfg k u is_ipv6 vip_info original_sport pckt real st =
     (case ctl_array st 0 of
        None \<Rightarrow> (Verdict XDP_DROP, st)
      | Some cval \<Rightarrow>
          let vnum = vip_num vip_info; bytes_in = ucast (u_pkt_bytes u)
          in if stats st vnum = None then (Verdict XDP_DROP, st)
             else
               let st = stats_put vnum (add_v2 bytes_in) (stats_put vnum (add_v1 1) st)
               in if reals_stats st (real_index pckt) = None then (Verdict XDP_DROP, st)
                  else
                    let st = reals_stats_put (real_index pckt) (add_v2 bytes_in)
                               (reals_stats_put (real_index pckt) (add_v1 1) st)
                    in case real of
                         None \<Rightarrow> (Fault, st)
                       | Some r \<Rightarrow>
                           if LOCAL_DELIVERY_OPTIMIZATION cfg \<and>
                              has_flag (vip_flags vip_info) F_LOCAL_VIP \<and>
                              has_flag (real_flags r) F_LOCAL_REAL
                           then (Verdict XDP_PASS, st)
                           else
                             let pckt = pckt\<lparr>flow := (flow pckt)\<lparr>port0 := original_sport\<rparr>\<rparr>;
                                 (ok, p) =
                                   (if has_flag (real_flags r) F_IPV6
                                    then PCKT_ENCAP_V6 cfg k (u_rem_ret u) (u_add_ret u) cval is_ipv6 pckt r
                                           (ucast (u_pkt_bytes u)) st
                                    else PCKT_ENCAP_V4 cfg k (u_rem_ret u) (u_add_ret u) cval pckt r
                                           (ucast (u_pkt_bytes u)) st)
                             in (Verdict (if ok then XDP_TX else XDP_DROP), st\<lparr>xdata := p\<rparr>))"

definition finish :: "outcome step \<times> bst \<Rightarrow> outcome \<times> bst" where
  "finish r = (case r of (Stop out, st) \<Rightarrow> (out, st) | (Go out, st) \<Rightarrow> (out, st))"

text \<open>Lines 827 to 958: from the real server the packet names, if any, to its verdict.\<close>

definition pp_route :: "config \<Rightarrow> kernel \<Rightarrow> unread \<Rightarrow> bool \<Rightarrow> vip_definition \<Rightarrow> vip_meta \<Rightarrow> lru_ref
    \<Rightarrow> packet_description \<Rightarrow> real_definition option \<Rightarrow> bst \<Rightarrow> outcome step \<times> bst" where
  "pp_route cfg k u is_ipv6 vip vip_info lru_map pckt real st =
     (let (pckt, st) = pp_stable cfg is_ipv6 vip_info pckt real st;
          original_sport = port0 (flow pckt)
      in bind_step (pp_lookup cfg k u is_ipv6 vip vip_info pckt lru_map real st) (\<lambda>pckt st.
           let (out, st) = pp_forward cfg k u is_ipv6 vip_info original_sport pckt real st
           in (Go out, st)))"

definition process_packet :: "config \<Rightarrow> kernel \<Rightarrow> unread \<Rightarrow> nat \<Rightarrow> bool \<Rightarrow> bst \<Rightarrow> outcome \<times> bst" where
  "process_packet cfg k u nh_off is_ipv6 st = finish (
     bind_step (pp_parse cfg k u nh_off is_ipv6 st) (\<lambda>pckt st.
     bind_step (pp_vip is_ipv6 pckt st) (\<lambda>(vip, vip_info, pckt) st.
     bind_step (pp_size cfg k is_ipv6 st) (\<lambda>_ st.
     bind_step (pp_lru_map k vip_info pckt st) (\<lambda>(pckt, lru_map) st.
     bind_step (pp_quic cfg k u is_ipv6 vip_info pckt lru_map st) (\<lambda>(pckt, real) st.
       pp_route cfg k u is_ipv6 vip vip_info lru_map pckt real st))))))"

definition balancer_ingress :: "config \<Rightarrow> kernel \<Rightarrow> unread \<Rightarrow> bst \<Rightarrow> outcome \<times> bst" where
  "balancer_ingress cfg k u st =
     (let p = xdata st; nh_off = ETH_HLEN
      in if nh_off > length p then (Verdict XDP_DROP, st)
         else
           let eth_proto = rd16 p 12
           in if eth_proto = BE_ETH_P_IP then process_packet cfg k u nh_off False st
              else if eth_proto = BE_ETH_P_IPV6 then process_packet cfg k u nh_off True st
              else (Verdict XDP_PASS, st))"

end
