(* ===== verification/BalancerProps.thy ===== *)
theory BalancerProps
  imports Balancer
begin

text \<open>
  What holds of the XDP balancer as a whole: the tables the control plane owns are never
  written, array maps stay arrays, no read leaves the packet, and which packets can be
  forwarded at all. Each operation has one frame lemma; the stages and process_packet
  compose them.
\<close>

section \<open>The frame of an operation\<close>

text \<open>The tables written by the control plane and read by the data plane.\<close>

definition ctl_tables where
  "ctl_tables st = (vip_map st, ch_rings st, reals st, server_id_map st, lpm_src_v4 st, lpm_src_v6 st,
     ctl_array st, decap_dst st, subprograms st, pckt_srcs st)"

definition keeps :: "config \<Rightarrow> bst \<Rightarrow> bst \<Rightarrow> bool" where
  "keeps cfg st st' \<longleftrightarrow> ctl_tables st' = ctl_tables st \<and> (maps_ok cfg st \<longrightarrow> maps_ok cfg st')"

lemma keeps_refl [simp, intro]: "keeps cfg st st"
  by (simp add: keeps_def)

lemma keeps_trans: "keeps cfg a b \<Longrightarrow> keeps cfg b c \<Longrightarrow> keeps cfg a c"
  by (simp add: keeps_def)

named_theorems keeps_intros "frame lemmas of the operations"

lemma keeps_puts [keeps_intros]:
  "keeps cfg a st \<Longrightarrow> keeps cfg a (stats_put key g st)"
  "keeps cfg a st \<Longrightarrow> keeps cfg a (reals_stats_put key g st)"
  "keeps cfg a st \<Longrightarrow> keeps cfg a (decap_vip_stats_put key g st)"
  "keeps cfg a st \<Longrightarrow> keeps cfg a (server_id_stats_put key g st)"
  "keeps cfg a st \<Longrightarrow> keeps cfg a (quic_put gq st)"
  "keeps cfg a st \<Longrightarrow> keeps cfg a (tpr_put gt st)"
  "keeps cfg a st \<Longrightarrow> keeps cfg a (stable_put gs st)"
  "keeps cfg a st \<Longrightarrow> keeps cfg a (st\<lparr>xdata := p\<rparr>)"
  "keeps cfg a st \<Longrightarrow> keeps cfg a (st\<lparr>events := ev\<rparr>)"
  "keeps cfg a st \<Longrightarrow> keeps cfg a (lru_modify r h st)"
  "keeps cfg a st \<Longrightarrow> keeps cfg a (st\<lparr>vip_miss_stats := upd_entry (vip_miss_stats st) i gv\<rparr>)"
  by (auto simp: keeps_def ctl_tables_def maps_ok_def put_defs lru_modify_def split: lru_ref.splits)

lemma keeps_report [keeps_intros]:
  "keeps cfg a st \<Longrightarrow> keeps cfg a (report_event c e n st)"
  unfolding report_event_def submit_event_def Let_def
  by (auto intro: keeps_intros split: option.splits)

lemma keeps_quic_ver [keeps_intros]:
  "keeps cfg a st \<Longrightarrow> keeps cfg a (increment_quic_cid_version_stats v st)"
  unfolding increment_quic_cid_version_stats_def by (auto intro: keeps_intros)

lemma keeps_cut_call [keeps_intros]:
  "keeps cfg a st \<Longrightarrow> keeps cfg a (cut_call c st)"
  unfolding cut_call_def incr_server_id_routing_stats_def Let_def
  by (auto intro: keeps_intros split: prod.splits)

lemma keeps_fallback [keeps_intros]:
  "keeps cfg a st \<Longrightarrow> keeps cfg a (quic_fallback sid st)"
  unfolding quic_fallback_def by (rule keeps_intros)

lemma keeps_ch_drop [keeps_intros]:
  "keeps cfg a st \<Longrightarrow> keeps cfg a (increment_ch_drop_real_0 st)"
  "keeps cfg a st \<Longrightarrow> keeps cfg a (increment_ch_drop_no_real st)"
  unfolding increment_ch_drop_real_0_def increment_ch_drop_no_real_def by (auto intro: keeps_intros)

lemma keeps_flood: "is_under_flood t st = (b, st') \<Longrightarrow> keeps cfg a st \<Longrightarrow> keeps cfg a st'"
  by (auto simp: is_under_flood_def Let_def intro: keeps_intros split: option.splits if_splits)

lemma keeps_check_lru:
  "check_and_update_real_index_in_lru k t pk r st = (c, st') \<Longrightarrow> keeps cfg a st \<Longrightarrow> keeps cfg a st'"
  by (auto simp: check_and_update_real_index_in_lru_def Let_def
      intro: keeps_intros keeps_flood split: option.splits if_splits prod.splits)

lemma keeps_table_lookup:
  "connection_table_lookup k pk r g st = (pk', st') \<Longrightarrow> keeps cfg a st \<Longrightarrow> keeps cfg a st'"
  by (auto simp: connection_table_lookup_def intro: keeps_intros split: option.splits if_splits)

lemma keeps_global_lookup:
  "perform_global_lru_lookup k re pk c st = (code, pk', st') \<Longrightarrow> keeps cfg a st \<Longrightarrow> keeps cfg a st'"
  by (auto simp: perform_global_lru_lookup_def Let_def
      intro!: keeps_intros intro: keeps_table_lookup split: if_splits prod.splits)

lemma keeps_src_route:
  "src_route_lookup c pk vi v6 fl st = (b, st') \<Longrightarrow> keeps cfg a st \<Longrightarrow> keeps cfg a st'"
  by (auto simp: src_route_lookup_def Let_def intro: keeps_intros split: if_splits)

lemma keeps_get_packet_dst:
  assumes "get_packet_dst c k key re pk vi v6 r st = (b, pk', st')" and "keeps cfg a st"
  shows "keeps cfg a st'"
proof -
  obtain fl st1 where f: "is_under_flood 0 st = (fl, st1)"
    by (metis prod.exhaust)
  obtain sf st2 where s: "src_route_lookup c pk vi v6 fl st1 = (sf, st2)"
    by (metis prod.exhaust)
  have "keeps cfg a st2"
    by (rule keeps_src_route [OF s keeps_flood [OF f assms(2)]])
  then have "keeps cfg a (increment_ch_drop_real_0 st2)" "keeps cfg a (increment_ch_drop_no_real st2)"
    "keeps cfg a (lru_modify r h st2)" "keeps cfg a st2" for h
    by (auto intro: keeps_intros)
  then show ?thesis
    using assms(1) f s by (auto simp: get_packet_dst_def Let_def split: if_splits)
qed

lemma keeps_miss_stats:
  "update_vip_lru_miss_stats vip pk v6 st = (c, st') \<Longrightarrow> keeps cfg a st \<Longrightarrow> keeps cfg a st'"
  unfolding update_vip_lru_miss_stats_def Let_def
  by (auto intro: keeps_intros split: option.splits if_splits)

lemma keeps_decap_dst:
  "check_decap_dst c pk v6 st = (code, st') \<Longrightarrow> keeps cfg a st \<Longrightarrow> keeps cfg a st'"
  by (auto simp: check_decap_dst_def Let_def intro: keeps_intros split: option.splits if_splits)

lemma keeps_stable:
  "process_udp_stable_routing re pk v6 st = (pk', st') \<Longrightarrow> keeps cfg a st \<Longrightarrow> keeps cfg a st'"
  by (auto simp: process_udp_stable_routing_def Let_def intro!: keeps_intros split: if_splits)

lemma keeps_icmp:
  "handle_if_icmp off pk pr st = (c, pk', st') \<Longrightarrow> keeps cfg a st \<Longrightarrow> keeps cfg a st'"
  by (auto simp: handle_if_icmp_def parse_icmp_def parse_icmpv6_def Let_def
      intro!: keeps_intros split: if_splits prod.splits)

lemma keeps_finish_tail:
  "decap_tail b act pass st = (out, st') \<Longrightarrow> keeps cfg a st \<Longrightarrow> keeps cfg a st'"
  by (auto simp: decap_tail_def Let_def intro: keeps_intros split: if_splits)

lemma keeps_after_decap:
  assumes "after_decap r st (decap_tail b act pass) = (out, st')" and "keeps cfg a st"
  shows "keeps cfg a st'"
proof (cases r)
  case None
  then show ?thesis using assms by (simp add: after_decap_def)
next
  case (Some x)
  then show ?thesis
    using assms keeps_puts(8) [OF assms(2)]
    by (auto simp: after_decap_def split: if_splits prod.splits intro: keeps_finish_tail)
qed

lemma keeps_ipip:
  "process_encaped_ipip_pckt c k u v6 pr pass st = (out, st') \<Longrightarrow> keeps cfg a st \<Longrightarrow> keeps cfg a st'"
  unfolding process_encaped_ipip_pckt_def Let_def
  by (auto split: if_splits intro: keeps_after_decap keeps_finish_tail)

lemma keeps_gue:
  "process_encaped_gue_pckt c k u v6 pass st = (out, st') \<Longrightarrow> keeps cfg a st \<Longrightarrow> keeps cfg a st'"
  unfolding process_encaped_gue_pckt_def Let_def
  by (auto split: if_splits intro: keeps_after_decap)

section \<open>The frame of the stages\<close>

lemma keeps_pp_parse:
  assumes "pp_parse c k u nh v6 st = (r, st')"
  shows "keeps cfg st st'"
proof -
  obtain a0 pk where l3: "parse_l3_headers (xdata st) (u_protocol u) nh v6 zero_pckt = (a0, pk)"
    by (metis prod.exhaust)
  obtain a1 pk1 st1 where ic: "handle_if_icmp 0 pk (u_protocol u) st = (a1, pk1, st1)"
    by (metis prod_cases3)
  obtain a2 st2 where cd: "check_decap_dst c pk1 v6 st1 = (a2, st2)"
    by (metis prod.exhaust)
  obtain ok pk2 where ud: "parse_udp (xdata st1) v6 pk1 = (ok, pk2)"
    by (metis prod.exhaust)
  obtain a3 st3 where cd3: "check_decap_dst c pk2 v6 st1 = (a3, st3)"
    by (metis prod.exhaust)
  have k1: "keeps cfg st st1"
    by (rule keeps_icmp [OF ic]) simp
  have "keeps cfg st st2" "keeps cfg st st3"
    using keeps_decap_dst [OF cd k1] keeps_decap_dst [OF cd3 k1] by simp_all
  then show ?thesis
    using assms l3 ic cd ud cd3 k1
    by (auto simp: pp_parse_def Let_def split: if_splits prod.splits
        intro: keeps_ipip keeps_gue)
qed

lemma pp_vip_state: "snd (pp_vip v6 pk st) = st"
  by (simp add: pp_vip_def Let_def split: option.splits)

lemma keeps_pp_size: "pp_size c k v6 st = (r, st') \<Longrightarrow> keeps cfg st st'"
  by (auto simp: pp_size_def Let_def intro!: keeps_intros split: if_splits prod.splits)

lemma keeps_pp_lru_map: "pp_lru_map k vi pk st = (r, st') \<Longrightarrow> keeps cfg st st'"
  by (auto simp: pp_lru_map_def Let_def intro!: keeps_intros split: if_splits)

lemma keeps_pp_tcp: "pp_tcp_server_id c k u vi pk r st = (res, st') \<Longrightarrow> keeps cfg a st \<Longrightarrow> keeps cfg a st'"
  by (auto simp: pp_tcp_server_id_def Let_def intro!: keeps_intros
      intro: keeps_check_lru split: if_splits prod.splits)

lemma keeps_pp_quic:
  assumes "pp_quic c k u v6 vi pk r st = (res, st')"
  shows "keeps cfg st st'"
proof -
  let ?st1 = "increment_quic_cid_version_stats (qpr_cid_version (parse_quic (xdata st) v6 pk)) st"
  let ?key = "word_of_int (qpr_server_id (parse_quic (xdata st) v6 pk)) :: u32"
  obtain code st2 where ck:
    "check_and_update_real_index_in_lru k (u_cur_time u) (pk\<lparr>real_index := ?key\<rparr>) r ?st1 = (code, st2)"
    by (metis prod.exhaust)
  have "keeps cfg st ?st1"
    by (auto intro: keeps_intros)
  then have "keeps cfg st st2"
    by (rule keeps_check_lru [OF ck])
  then show ?thesis
    using assms ck
    by (auto simp: pp_quic_def Let_def intro!: keeps_intros split: if_splits option.splits)
qed

lemma keeps_pp_stable:
  "pp_stable c v6 vi pk re st = (pk', st') \<Longrightarrow> keeps cfg a st \<Longrightarrow> keeps cfg a st'"
  by (auto simp: pp_stable_def split: if_splits intro: keeps_stable)

lemma keeps_pp_hash:
  assumes "pp_consistent_hash c k u v6 vip vi pk r st = (res, st')" and "keeps cfg a st"
  shows "keeps cfg a st'"
proof -
  let ?st1 = "if proto (flow pk) = IPPROTO_TCP then
                if has_flag (pflags pk) F_SYN_SET then stats_put (MAX_VIPS + LRU_MISS_CNTR) (add_v1 1) st
                else stats_put (MAX_VIPS + LRU_MISS_CNTR) (add_v2 1)
                       (report_event c TCP_NONSYN_LRUMISS (length (xdata st)) st)
              else st"
  obtain b pk' st2 where g: "get_packet_dst c k (u_key u) None pk vi v6 r ?st1 = (b, pk', st2)"
    by (metis prod_cases3)
  obtain code st3 where m: "update_vip_lru_miss_stats vip pk' v6 st2 = (code, st3)"
    by (metis prod.exhaust)
  have "keeps cfg a ?st1"
    using assms(2) by (auto intro: keeps_intros)
  from keeps_get_packet_dst [OF g this] have k2: "keeps cfg a st2" .
  from keeps_miss_stats [OF m this] have k3: "keeps cfg a st3" .
  have "st' \<in> {st, st2, st3, stats_put (MAX_VIPS + LRU_CNTRS) (add_v2 1) st3}"
    using assms(1) g m by (simp add: pp_consistent_hash_def Let_def split: if_splits)
  then show ?thesis
    using assms(2) k2 k3 keeps_intros(1) [OF k3] by auto
qed

lemma keeps_pp_lookup:
  assumes "pp_lookup c k u v6 vip vi pk r re st = (res, st')" and "keeps cfg a st"
  shows "keeps cfg a st'"
proof -
  obtain x st1 where t: "pp_tcp_server_id c k u vi pk r st = (x, st1)"
    by (metis prod.exhaust)
  have k1: "keeps cfg a st1"
    by (rule keeps_pp_tcp [OF t assms(2)])
  show ?thesis
  proof (cases x)
    case (Stop out)
    then show ?thesis
      using assms t k1 by (auto simp: pp_lookup_def split: if_splits)
  next
    case (Go pk1)
    obtain pk2 st2 where c2: "connection_table_lookup k pk1 r False st1 = (pk2, st2)"
      by (metis prod.exhaust)
    have k2: "keeps cfg a st2"
      by (rule keeps_table_lookup [OF c2 k1])
    note g1 = keeps_global_lookup [OF _ k1] and g2 = keeps_global_lookup [OF _ k2]
    show ?thesis
      using assms t Go c2 k1 k2
      by (auto simp: pp_lookup_def Let_def split: if_splits prod.splits
          intro: keeps_pp_hash [OF _ g1] keeps_pp_hash [OF _ g2] keeps_pp_hash g1 g2)
  qed
qed

lemma keeps_pp_forward:
  assumes "pp_forward c k u v6 vi sp pk re st = (out, st')"
  shows "keeps cfg st st'"
  using assms unfolding pp_forward_def Let_def
  by (auto intro!: keeps_intros split: option.splits if_splits prod.splits)

section \<open>The frame of the program\<close>

lemma keeps_bind:
  assumes "keeps cfg a (snd r)"
    and "\<And>v st. r = (Go v, st) \<Longrightarrow> keeps cfg st (snd (h v st))"
  shows "keeps cfg a (snd (bind_step r h))"
  using assms keeps_trans [OF assms(1)] by (cases r) (auto simp: bind_step_def split: step.splits)

lemmas keeps_stages =
  keeps_pp_parse [OF surjective_pairing] keeps_pp_size [OF surjective_pairing]
  keeps_pp_lru_map [OF surjective_pairing] keeps_pp_quic [OF surjective_pairing]
  keeps_pp_lookup [OF surjective_pairing keeps_refl] keeps_pp_forward [OF surjective_pairing]
  keeps_pp_stable [OF surjective_pairing keeps_refl]

lemma keeps_finish: "keeps cfg a (snd r) \<Longrightarrow> keeps cfg a (snd (finish r))"
  by (auto simp: finish_def split: prod.splits step.splits)

lemma keeps_vip: "keeps cfg st (snd (pp_vip v6 pk st))"
  by (simp add: pp_vip_state)

text \<open>The last two stages of process_packet, after the QUIC lookup.\<close>

lemma keeps_route: "keeps cfg st (snd (pp_route c k u v6 vip vi r pk re st))"
proof -
  obtain pk1 st1 where s: "pp_stable c v6 vi pk re st = (pk1, st1)"
    by (metis prod.exhaust)
  have "keeps cfg st1 (snd (bind_step (pp_lookup c k u v6 vip vi pk1 r re st1) (\<lambda>pckt st.
          let (out, st) = pp_forward c k u v6 vi sport pckt re st in (Go out, st))))" for sport
    by (rule keeps_bind) (auto simp: split_def Let_def intro: keeps_stages)
  then have "keeps cfg st (snd (bind_step (pp_lookup c k u v6 vip vi pk1 r re st1) (\<lambda>pckt st.
          let (out, st) = pp_forward c k u v6 vi sport pckt re st in (Go out, st))))" for sport
    using keeps_trans [OF keeps_pp_stable [OF s keeps_refl]] by blast
  then show ?thesis
    by (simp add: pp_route_def s Let_def)
qed

lemma keeps_process_packet:
  "keeps cfg st (snd (process_packet c k u nh v6 st))"
  unfolding process_packet_def
  by (intro keeps_finish keeps_bind keeps_stages keeps_vip)
     (auto split: prod.splits intro!: keeps_bind keeps_stages keeps_vip keeps_route)

text \<open>
  C8: no packet makes the balancer write a table of the control plane: the VIPs, the hash
  rings, the reals, the server ids, the source routes, the control array, the decapsulation
  addresses, the program array and the packet sources are the same after every run; and the
  array maps stay total (the null checks of the code on them can only fail for an index
  outside the array).
\<close>

theorem balancer_keeps_control_tables:
  "ctl_tables (snd (balancer_ingress c k u st)) = ctl_tables st \<and>
   (maps_ok c st \<longrightarrow> maps_ok c (snd (balancer_ingress c k u st)))"
  using keeps_process_packet [of c st c k u ETH_HLEN]
  by (auto simp: balancer_ingress_def Let_def keeps_def)


theorem balancer_keeps_control_tables_witness:
  "maps_ok ref_config
     (snd (balancer_ingress ref_config ref_kernel ref_unread (init_bst ref_config (replicate 60 0))))"
  using balancer_keeps_control_tables maps_ok_init by blast

section \<open>Memory safety and forwarding\<close>

lemma finish_simps [simp]: "finish (Stop out, st) = (out, st)" "finish (Go out, st) = (out, st)"
  by (simp_all add: finish_def)

lemma finish_bind:
  "finish (bind_step r h) = (case r of (Stop out, st) \<Rightarrow> (out, st) | (Go v, st) \<Rightarrow> finish (h v st))"
  by (simp add: bind_step_def finish_def split: prod.splits step.splits)

text \<open>An early return of the stage is a verdict satisfying Q.\<close>

definition stops :: "(int \<Rightarrow> bool) \<Rightarrow> 'a step \<times> bst \<Rightarrow> bool" where
  "stops Q r \<longleftrightarrow> (\<forall>out. fst r = Stop out \<longrightarrow> (\<exists>v. out = Verdict v \<and> Q v))"

lemma stops_Stop [simp]: "stops Q (Stop (Verdict v), st) = Q v" "\<not> stops Q (Stop Fault, st)"
  "\<not> stops Q (Stop (Jump i), st)" "stops Q (Go x, st)"
  by (auto simp: stops_def)

lemma handle_if_icmp_Go:
  "handle_if_icmp o1 pk0 pr st0 = (a, pk1, st1) \<Longrightarrow> \<not> 0 \<le> a \<Longrightarrow> xdata st1 = xdata st0"
  by (auto simp: handle_if_icmp_def parse_icmp_def parse_icmpv6_def Let_def const_defs stats_put_def
      send_icmp_reply_def send_icmp6_reply_def swap_mac_and_send_def split: if_splits prod.splits)

lemma parse_transport_bounds:
  "parse_tcp p v6 pk0 = (True, pk1) \<Longrightarrow> has_flag (pflags pk1) F_ICMP \<Longrightarrow> calc_offset v6 True + 8 \<le> length p"
  "parse_udp p v6 pk0 = (True, pk1) \<Longrightarrow> has_flag (pflags pk1) F_ICMP \<Longrightarrow> calc_offset v6 True + 8 \<le> length p"
  by (auto simp: parse_tcp_def parse_udp_def Let_def TCP_HLEN_def UDP_HLEN_def split: if_splits)

lemma pp_parse_Go:
  assumes "pp_parse c k u nh v6 st = (Go pk, st')"
  shows "xdata st' = xdata st \<and> (has_flag (pflags pk) F_ICMP \<longrightarrow> calc_offset v6 True + 8 \<le> length (xdata st))"
proof -
  obtain a0 pk0 where l3: "parse_l3_headers (xdata st) (u_protocol u) nh v6 zero_pckt = (a0, pk0)"
    by (metis prod.exhaust)
  obtain a1 pk1 st1 where ic: "handle_if_icmp 0 pk0 (u_protocol u) st = (a1, pk1, st1)"
    by (metis prod_cases3)
  obtain okt pkt where pt: "parse_tcp (xdata st1) v6 pk1 = (okt, pkt)"
    by (metis prod.exhaust)
  obtain oku pku where pu: "parse_udp (xdata st1) v6 pk1 = (oku, pku)"
    by (metis prod.exhaust)
  note eq = assms [unfolded pp_parse_def Let_def l3 ic pt pu prod.case]
  have "\<not> 0 \<le> a0" "\<not> 0 \<le> a1"
    using eq by (simp_all split: if_splits)
  moreover from this have "st' = st1 \<and> (okt \<and> pk = pkt \<or> oku \<and> pk = pku)"
    using eq by (simp split: if_splits prod.splits)
  ultimately have a1: "\<not> 0 \<le> a1" and st': "st' = st1"
    and p: "parse_tcp (xdata st1) v6 pk1 = (True, pk) \<or> parse_udp (xdata st1) v6 pk1 = (True, pk)"
    using pt pu by auto
  show ?thesis
    using parse_transport_bounds handle_if_icmp_Go [OF ic a1] st' p by auto
qed

text \<open>Which verdicts a stage may return early.\<close>

lemma parse_l3_headers_codes:
  "fst (parse_l3_headers p pr nh v6 pk) \<in> {XDP_DROP, FURTHER_PROCESSING}"
  by (simp add: parse_l3_headers_def Let_def)

lemma stops_parse:
  assumes "\<not> INLINE_DECAP_IPIP c" "\<not> INLINE_DECAP_GUE c"
  shows "stops (\<lambda>v. v \<noteq> XDP_TX \<or> u_protocol u = IPPROTO_ICMP \<or> u_protocol u = IPPROTO_ICMPV6)
    (pp_parse c k u nh v6 st)"
proof -
  obtain a0 pk0 where l3: "parse_l3_headers (xdata st) (u_protocol u) nh v6 zero_pckt = (a0, pk0)"
    by (metis prod.exhaust)
  obtain a1 pk1 st1 where ic: "handle_if_icmp 0 pk0 (u_protocol u) st = (a1, pk1, st1)"
    by (metis prod_cases3)
  have "a0 \<noteq> XDP_TX"
    using parse_l3_headers_codes [of "xdata st" "u_protocol u" nh v6 zero_pckt] l3
    by (auto simp: const_defs)
  moreover have "a1 \<noteq> XDP_TX \<or> u_protocol u = IPPROTO_ICMP \<or> u_protocol u = IPPROTO_ICMPV6"
    using ic by (auto simp: handle_if_icmp_def const_defs split: if_splits)
  moreover have "XDP_DROP \<noteq> XDP_TX" "XDP_PASS \<noteq> XDP_TX"
    by (simp_all add: const_defs)
  ultimately show ?thesis
    unfolding pp_parse_def Let_def l3 ic prod.case
    using assms by (simp split: prod.splits)
qed

lemma stops_vip: "stops (\<lambda>v. v = XDP_PASS) (pp_vip v6 pk st)"
  by (simp add: pp_vip_def Let_def split: option.splits)

lemma stops_size: "stops (\<lambda>v. length (xdata st) > MAX_PCKT_SIZE) (pp_size c k v6 st)"
  by (simp add: pp_size_def Let_def split: prod.splits)

lemma stops_lru_map: "stops (\<lambda>v. v = XDP_DROP) (pp_lru_map k vi pk st)"
  by (simp add: pp_lru_map_def Let_def)

lemma pp_size_Go: "pp_size c k v6 st = (Go x, st') \<Longrightarrow> st' = st"
  by (auto simp: pp_size_def Let_def split: if_splits prod.splits)

lemma pp_lru_map_Go:
  "pp_lru_map k vi pk st = (Go (pk', r), st') \<Longrightarrow>
    xdata st' = xdata st \<and> pflags pk' = pflags pk \<and> proto (flow pk') = proto (flow pk)"
  by (auto simp: pp_lru_map_def Let_def stats_put_def split: if_splits)

lemma pp_vip_Go:
  "pp_vip v6 pk st = (Go (vip, vi, pk'), st') \<Longrightarrow>
    st' = st \<and> pflags pk' = pflags pk \<and> vip_map st vip = Some vi"
  by (auto simp: pp_vip_def Let_def split: option.splits if_splits)

lemma stops_quic:
  assumes "has_flag (pflags pk) F_ICMP \<longrightarrow> calc_offset v6 True + 8 \<le> length (xdata st)"
  shows "stops (\<lambda>v. v = XDP_DROP) (pp_quic c k u v6 vi pk r st)"
  using assms
  by (auto simp: pp_quic_def Let_def ignorable_quic_icmp_code_def calc_offset_def ETH_HLEN_def
      IP_HLEN_def IP6_HLEN_def ICMP_HLEN_def ICMP6_HLEN_def stats_put_def split: option.splits prod.splits)

lemma pp_quic_Some:
  assumes "pp_quic c k u v6 vi pk r st = (Go (pk', Some re), st')"
  shows "has_flag (vip_flags vi) F_QUIC_VIP \<and> \<not> has_flag (pflags pk) F_ICMP \<and>
    qpr_server_id (parse_quic (xdata st) v6 pk) > 0 \<and>
    real_index pk' = word_of_int (qpr_server_id (parse_quic (xdata st) v6 pk)) \<and>
    real_index pk' \<noteq> 0 \<and> server_id_map st (real_index pk') \<noteq> None \<and>
    reals st (real_index pk') = Some re"
  using assms keeps_intros
  by (auto simp: pp_quic_def Let_def increment_quic_cid_version_stats_def put_defs
      split: if_splits option.splits prod.splits)

lemma pp_tcp_dst: "stops (\<lambda>v. v = XDP_DROP) (pp_tcp_server_id c k u vi pk r st)"
  by (simp add: pp_tcp_server_id_def Let_def split: prod.splits)

text \<open>
  Without a real server named by a server id the lookup stage, with the TCP option, both
  connection tables and the hash ring behind it, drops the packet.
\<close>

lemma pp_lookup_None:
  "\<exists>st'. pp_lookup c k u v6 vip vi pk r None st = (Stop (Verdict XDP_DROP), st')"
proof -
  obtain x st1 where t: "pp_tcp_server_id c k u vi pk r st = (x, st1)"
    by (metis prod.exhaust)
  have hash: "\<exists>st'. pp_consistent_hash c k u v6 vip vi p r s = (Stop (Verdict XDP_DROP), st')" for p s
  proof -
    have "\<not> fst (get_packet_dst c k (u_key u) None p vi v6 r s')" for s'
      by (auto simp: get_packet_dst_def Let_def split: prod.splits)
    then show ?thesis
      by (auto simp: pp_consistent_hash_def Let_def split: prod.splits) (metis fst_conv)+
  qed
  have glob: "code \<ge> 0 \<Longrightarrow> code = XDP_DROP"
    if "perform_global_lru_lookup k None p (cpu k) s = (code, p', s')" for p s code p' s'
    using that by (auto simp: perform_global_lru_lookup_def Let_def const_defs split: if_splits prod.splits)
  show ?thesis
  proof (cases x)
    case (Stop out)
    then show ?thesis
      using t pp_tcp_dst [of c k u vi pk r st] by (auto simp: pp_lookup_def stops_def)
  next
    case (Go p)
    then show ?thesis
      using t hash by (auto simp: pp_lookup_def Let_def FURTHER_PROCESSING_def split: prod.splits dest: glob)
  qed
qed

lemma pp_route_None: "\<exists>st'. pp_route c k u v6 vip vi r pk None st = (Stop (Verdict XDP_DROP), st')"
proof -
  obtain pk1 st1 where s: "pp_stable c v6 vi pk None st = (pk1, st1)"
    by (metis prod.exhaust)
  obtain st2 where "pp_lookup c k u v6 vip vi pk1 r None st1 = (Stop (Verdict XDP_DROP), st2)"
    using pp_lookup_None by blast
  then show ?thesis
    by (simp add: pp_route_def s Let_def)
qed

lemma pp_route_Some: "\<exists>v st'. pp_route c k u v6 vip vi r pk (Some re) st = (Go (Verdict v), st')"
proof -
  obtain pk1 st1 where s: "pp_stable c v6 vi pk (Some re) st = (pk1, st1)"
    by (metis prod.exhaust)
  have "\<exists>v st'. pp_forward c k u v6 vi sport pk1 (Some re) st1 = (Verdict v, st')" for sport
    by (auto simp: pp_forward_def Let_def split: option.splits prod.splits)
  then show ?thesis
    by (simp add: pp_route_def s Let_def pp_lookup_def split_def) (metis fst_conv)
qed

text \<open>A QUIC VIP and a server id for which the tables hold a real server.\<close>

definition quic_routable :: "bst \<Rightarrow> bool" where
  "quic_routable st \<longleftrightarrow> (\<exists>vip vi key. vip_map st vip = Some vi \<and> has_flag (vip_flags vi) F_QUIC_VIP \<and>
     key \<noteq> 0 \<and> server_id_map st key \<noteq> None \<and> reals st key \<noteq> None)"

lemma keeps_tables:
  "keeps c st st' \<Longrightarrow> vip_map st' = vip_map st \<and> reals st' = reals st \<and> server_id_map st' = server_id_map st"
  by (simp add: keeps_def ctl_tables_def)

text \<open>The last stages, for a packet whose VIP is known.\<close>

lemma quic_stage_outcome:
  assumes "vip_map st vip = Some vi"
    and "has_flag (pflags pk) F_ICMP \<longrightarrow> calc_offset v6 True + 8 \<le> length (xdata st)"
    and "finish (bind_step (pp_quic c k u v6 vi pk r st)
           (\<lambda>(pk, re) st. pp_route c k u v6 vip vi r pk re st)) = (out, st')"
  shows "\<exists>v. out = Verdict v \<and> (v = XDP_TX \<longrightarrow> quic_routable st)"
proof (cases "pp_quic c k u v6 vi pk r st")
  case (Pair x st1)
  show ?thesis
  proof (cases x)
    case (Stop out1)
    then show ?thesis
      using assms(3) Pair stops_quic [OF assms(2), of c k u vi r]
      by (auto simp: finish_bind stops_def const_defs)
  next
    case (Go y)
    obtain pk' re where y: "y = (pk', re)" by (metis prod.exhaust)
    show ?thesis
    proof (cases re)
      case None
      then show ?thesis
        using assms(3) Pair Go y pp_route_None [of c k u v6 vip vi r pk' st1]
        by (auto simp: finish_bind finish_def const_defs)
    next
      case (Some re1)
      then have "quic_routable st"
        using pp_quic_Some [of c k u v6 vi pk r st pk' re1 st1] Pair Go y assms(1)
        unfolding quic_routable_def by blast
      then show ?thesis
        using assms(3) Pair Go y Some pp_route_Some [of c k u v6 vip vi r pk' re1 st1]
        by (auto simp: finish_bind finish_def)
    qed
  qed
qed

lemma process_packet_outcome:
  assumes "\<not> INLINE_DECAP_IPIP c" "\<not> INLINE_DECAP_GUE c"
    and "process_packet c k u nh v6 st = (out, st')"
  shows "\<exists>v. out = Verdict v \<and> (v = XDP_TX \<longrightarrow>
    u_protocol u = IPPROTO_ICMP \<or> u_protocol u = IPPROTO_ICMPV6 \<or>
    length (xdata st) > MAX_PCKT_SIZE \<or> quic_routable st)"
proof -
  obtain x1 st1 where 1: "pp_parse c k u nh v6 st = (x1, st1)" by (metis prod.exhaust)
  note p = assms(3) [unfolded process_packet_def finish_bind 1]
  have tabs: "keeps c st st1"
    by (rule keeps_pp_parse [OF 1])
  show ?thesis
  proof (cases x1)
    case (Stop o1)
    then show ?thesis
      using p stops_parse [OF assms(1,2), of u k nh v6 st] 1 by (auto simp: stops_def)
  next
    case (Go pk)
    have g1: "xdata st1 = xdata st"
      "has_flag (pflags pk) F_ICMP \<longrightarrow> calc_offset v6 True + 8 \<le> length (xdata st)"
      using pp_parse_Go [of c k u nh v6 st pk st1] 1 Go by auto
    obtain x2 st2 where 2: "pp_vip v6 pk st1 = (x2, st2)" by (metis prod.exhaust)
    note p2 = p [unfolded Go prod.case step.case finish_bind 2]
    show ?thesis
    proof (cases x2)
      case (Stop o2)
      then show ?thesis
        using p2 stops_vip [of v6 pk st1] 2 by (auto simp: stops_def const_defs)
    next
      case (Go y)
      obtain vip vi pk2 where y: "y = (vip, vi, pk2)" by (metis prod_cases3)
      have g2: "st2 = st1" "pflags pk2 = pflags pk" "vip_map st1 vip = Some vi"
        using pp_vip_Go [of v6 pk st1 vip vi pk2 st2] 2 Go y by auto
      obtain x3 st3 where 3: "pp_size c k v6 st1 = (x3, st3)" by (metis prod.exhaust)
      note p3 = p2 [unfolded Go y prod.case step.case g2 finish_bind 3]
      show ?thesis
      proof (cases x3)
        case (Stop o3)
        then show ?thesis
          using p3 stops_size [of st1 c k v6] 3 g1 by (auto simp: stops_def)
      next
        case (Go z)
        have g3: "st3 = st1"
          using pp_size_Go [of c k v6 st1 z st3] 3 Go by auto
        obtain x4 st4 where 4: "pp_lru_map k vi pk2 st1 = (x4, st4)" by (metis prod.exhaust)
        note p4 = p3 [unfolded Go g3 prod.case step.case finish_bind 4]
        show ?thesis
        proof (cases x4)
          case (Stop o4)
          then show ?thesis
            using p4 stops_lru_map [of k vi pk2 st1] 4 by (auto simp: stops_def const_defs)
        next
          case (Go w)
          obtain pk3 r where w: "w = (pk3, r)" by (metis prod.exhaust)
          have g4: "xdata st4 = xdata st1" "pflags pk3 = pflags pk2"
            using pp_lru_map_Go [of k vi pk2 st1 pk3 r st4] 4 Go w by auto
          have t: "vip_map st4 = vip_map st1" "quic_routable st4 \<longrightarrow> quic_routable st"
            using keeps_tables [OF keeps_pp_lru_map [OF 4]] keeps_tables [OF tabs]
            by (auto simp: quic_routable_def)
          show ?thesis
            using quic_stage_outcome [of st4 vip vi pk3 v6 c k u r out st'] p4 g1 g2 g4 t Go w
            by (auto simp: const_defs)
        qed
      qed
    qed
  qed
qed

text \<open>
  In a build without inline decapsulation, whatever the packet, the maps, the kernel and
  the indeterminate values are, the program ends with a verdict: no read leaves the packet and
  no null pointer is followed; and a packet leaves through the interface it came from only as an
  ICMP reply, as a "too big" error, or when a QUIC server id names a real server. Every other
  packet for a VIP, in particular all TCP traffic, is dropped or passed.
\<close>

theorem balancer_forwards_quic_only:
  assumes "\<not> INLINE_DECAP_IPIP c" "\<not> INLINE_DECAP_GUE c"
  shows "\<exists>v. fst (balancer_ingress c k u st) = Verdict v \<and> (v = XDP_TX \<longrightarrow>
    u_protocol u = IPPROTO_ICMP \<or> u_protocol u = IPPROTO_ICMPV6 \<or>
    length (xdata st) > MAX_PCKT_SIZE \<or> quic_routable st)"
proof -
  have "\<exists>v. fst (process_packet c k u nh v6 st) = Verdict v \<and> (v = XDP_TX \<longrightarrow>
    u_protocol u = IPPROTO_ICMP \<or> u_protocol u = IPPROTO_ICMPV6 \<or>
    length (xdata st) > MAX_PCKT_SIZE \<or> quic_routable st)" for nh v6
    using process_packet_outcome [OF assms surjective_pairing [of "process_packet c k u nh v6 st"]] .
  then show ?thesis
    by (auto simp: balancer_ingress_def Let_def const_defs)
qed

theorem balancer_forwards_quic_only_witness:
  "fst (balancer_ingress ref_config ref_kernel ref_unread (init_bst ref_config (replicate 60 0)))
     \<noteq> Verdict XDP_TX"
proof -
  have "\<not> INLINE_DECAP_IPIP ref_config" "\<not> INLINE_DECAP_GUE ref_config"
    "length (xdata (init_bst ref_config (replicate 60 0))) \<le> MAX_PCKT_SIZE"
    "u_protocol ref_unread = IPPROTO_UDP" "IPPROTO_UDP \<noteq> IPPROTO_ICMP" "IPPROTO_UDP \<noteq> IPPROTO_ICMPV6"
    by code_simp+
  moreover have "\<not> quic_routable (init_bst ref_config (replicate 60 0))"
    by (simp add: quic_routable_def init_bst_def)
  ultimately show ?thesis
    using balancer_forwards_quic_only [of ref_config ref_kernel ref_unread
        "init_bst ref_config (replicate 60 0)"] by auto
qed

end
