(* ===== verification/Tpr.thy ===== *)
theory Tpr
  imports Prelude
begin

text \<open>
  The TCP packet router, tpr/bpf: a sock_ops program which lets a server put its server id
  into the TCP options of its SYN-ACK and a client echo it. The state is the statistics entry,
  the server info entry, and what the program changes of one connection: its callback flags,
  the id in its socket storage, and (as a log) the options written. The kernel helpers of one
  invocation are a record of functions. TPR_PRINT is empty without TPR_DEBUG.

  Two lines of tcp_pkt_router_active_hdlr.h are cut: the condition of the if in
  handle_active_estab is an argument, and the else branch of handle_active_write_hdr_opt, whose
  line is gone, is empty.
\<close>

section \<open>tcp\_pkt\_router\_consts.h and tcp\_pkt\_router\_structs.h\<close>

definition TCP_SRV_HDR_OPT_KIND :: u8 where "TCP_SRV_HDR_OPT_KIND = 0xB6"
definition TCP_HDR_OPT_KIND :: u8 where "TCP_HDR_OPT_KIND = 0xB7"
definition KDE_CLT_TCP_HDR_OPT_KIND :: u8 where "KDE_CLT_TCP_HDR_OPT_KIND = 0xB8"
definition TCP_HDR_OPT_LEN :: u8 where "TCP_HDR_OPT_LEN = 6"
definition CG_OK :: int where "CG_OK = 1"
definition CG_ERR :: int where "CG_ERR = 0"
definition SERVER_MODE :: u8 where "SERVER_MODE = 1"
definition CLIENT_MODE :: u8 where "CLIENT_MODE = 2"
definition TCPHDR_SYN :: u32 where "TCPHDR_SYN = 0x02"
definition TCPHDR_ACK :: u32 where "TCPHDR_ACK = 0x10"
definition TCPHDR_SYNACK :: u32 where "TCPHDR_SYNACK = TCPHDR_SYN OR TCPHDR_ACK"
definition SUCCESS :: int where "SUCCESS = 0"
definition PASS :: int where "PASS = - 1"
definition KDE_CLT_TCP_HDR_OPT_LEN :: int where "KDE_CLT_TCP_HDR_OPT_LEN = 2"
definition KDE_CLT_TCP_HDR_OPT_V2_LEN :: int where "KDE_CLT_TCP_HDR_OPT_V2_LEN = 3"
definition PARSE_HDR_FLAG :: u32 where "PARSE_HDR_FLAG = 32"
definition WRITE_HDR_FLAG :: u32 where "WRITE_HDR_FLAG = 64"

lemmas tpr_consts = TCP_SRV_HDR_OPT_KIND_def TCP_HDR_OPT_KIND_def KDE_CLT_TCP_HDR_OPT_KIND_def
  TCP_HDR_OPT_LEN_def CG_OK_def CG_ERR_def SERVER_MODE_def CLIENT_MODE_def TCPHDR_SYN_def
  TCPHDR_ACK_def TCPHDR_SYNACK_def SUCCESS_def PASS_def KDE_CLT_TCP_HDR_OPT_LEN_def
  KDE_CLT_TCP_HDR_OPT_V2_LEN_def PARSE_HDR_FLAG_def WRITE_HDR_FLAG_def

datatype sock_op =
  BPF_SOCK_OPS_TCP_CONNECT_CB | BPF_SOCK_OPS_ACTIVE_ESTABLISHED_CB
| BPF_SOCK_OPS_PASSIVE_ESTABLISHED_CB | BPF_SOCK_OPS_TCP_LISTEN_CB
| BPF_SOCK_OPS_PARSE_HDR_OPT_CB | BPF_SOCK_OPS_HDR_OPT_LEN_CB | BPF_SOCK_OPS_WRITE_HDR_OPT_CB
| BPF_SOCK_OPS_OTHER u32

record server_info =
  running_mode :: u8
  kde_enabled_field :: u8
  si_server_id :: u32

record tcp_opt =
  opt_kind :: u8
  opt_len :: u8
  opt_server_id :: u32

record tpr_stats =
  server_id_read :: u64
  server_id_set :: u64
  conns_skipped :: u64
  no_tcp_opt_hdr :: u64
  error_bad_id :: u64
  error_write_opt :: u64
  error_sys_calls :: u64
  ignoring_due_to_kde :: u64
  legacy_server_opt :: u64
  new_server_opt :: u64

section \<open>State and helpers\<close>

text \<open>
  One invocation: the operation, the TCP flags of the packet, the local port, whether skops->sk
  is set, and the helpers. hload kind is bpf_load_hdr_opt for an option of that kind: the
  return value and, for a value that is not negative, the server id it put into the option;
  hload_syn is the same on the saved SYN; hflags current new is bpf_sock_ops_cb_flags_set:
  the return value and the flags afterwards; hcreate tells whether socket storage could be
  allocated; hcond is the cut condition of handle_active_estab.
\<close>

record skops =
  op :: sock_op
  skb_tcp_flags :: u32
  local_port :: u32
  has_sk :: bool
  hload :: "u8 \<Rightarrow> int \<times> u32"
  hload_syn :: "u8 \<Rightarrow> int"
  hstore :: "tcp_opt \<Rightarrow> int"
  hreserve :: int
  hflags :: "u32 \<Rightarrow> u32 \<Rightarrow> int \<times> u32"
  hcreate :: bool
  hcond :: bool

record tpr_state =
  pstats :: "tpr_stats option"
  sinfo :: "server_info option"
  cb_flags :: u32
  sk_sid_store :: "u32 option"
  written :: "tcp_opt list"

definition bump :: "(tpr_stats \<Rightarrow> tpr_stats) \<Rightarrow> tpr_state \<Rightarrow> tpr_state" where
  "bump f st = st\<lparr>pstats := map_option f (pstats st)\<rparr>"

section \<open>tcp\_pkt\_router\_common.h\<close>

definition flags_set :: "skops \<Rightarrow> u32 \<Rightarrow> tpr_state \<Rightarrow> int \<times> tpr_state" where
  "flags_set k new st =
     (let (err, fl) = hflags k (cb_flags st) new;
          st = st\<lparr>cb_flags := fl\<rparr>
      in if err \<noteq> 0 then (err, bump (\<lambda>s. s\<lparr>error_sys_calls := error_sys_calls s + 1\<rparr>) st)
         else (err, st))"

definition set_write_hdr_cb_flags :: "skops \<Rightarrow> tpr_state \<Rightarrow> int \<times> tpr_state" where
  "set_write_hdr_cb_flags k st = flags_set k (cb_flags st OR WRITE_HDR_FLAG) st"

definition unset_write_hdr_cb_flags :: "skops \<Rightarrow> tpr_state \<Rightarrow> int \<times> tpr_state" where
  "unset_write_hdr_cb_flags k st = flags_set k (cb_flags st AND NOT WRITE_HDR_FLAG) st"

definition set_parse_hdr_cb_flags :: "skops \<Rightarrow> tpr_state \<Rightarrow> int \<times> tpr_state" where
  "set_parse_hdr_cb_flags k st = flags_set k (cb_flags st OR PARSE_HDR_FLAG) st"

definition unset_parse_hdr_cb_flags :: "skops \<Rightarrow> tpr_state \<Rightarrow> int \<times> tpr_state" where
  "unset_parse_hdr_cb_flags k st = flags_set k (cb_flags st AND NOT PARSE_HDR_FLAG) st"

definition handle_hdr_opt_len :: "skops \<Rightarrow> tpr_state \<Rightarrow> int \<times> tpr_state" where
  "handle_hdr_opt_len k st =
     (let err = hreserve k
      in if err \<noteq> 0 then (err, bump (\<lambda>s. s\<lparr>error_sys_calls := error_sys_calls s + 1\<rparr>) st)
         else (err, st))"

text \<open>bpf_store_hdr_opt; a successful call puts the option into the packet.\<close>

definition store_hdr_opt :: "skops \<Rightarrow> tcp_opt \<Rightarrow> tpr_state \<Rightarrow> int \<times> tpr_state" where
  "store_hdr_opt k opt st =
     (let err = hstore k opt in (err, if err = 0 then st\<lparr>written := written st @ [opt]\<rparr> else st))"

section \<open>tcp\_pkt\_router\_passive\_hdlr.h\<close>

definition kde_enabled :: "tpr_state \<Rightarrow> bool" where
  "kde_enabled st = (case sinfo st of None \<Rightarrow> False | Some s \<Rightarrow> kde_enabled_field s \<noteq> 0)"

definition has_syn_with_kde_opt :: "skops \<Rightarrow> bool" where
  "has_syn_with_kde_opt k =
     (let ret = hload_syn k KDE_CLT_TCP_HDR_OPT_KIND
      in ret = KDE_CLT_TCP_HDR_OPT_LEN \<or> ret = KDE_CLT_TCP_HDR_OPT_V2_LEN)"

definition should_ignore_due_to_kde :: "skops \<Rightarrow> tpr_state \<Rightarrow> bool" where
  "should_ignore_due_to_kde k st = (kde_enabled st \<and> has_syn_with_kde_opt k)"

definition handle_passive_parse_hdr :: "skops \<Rightarrow> server_info \<Rightarrow> tpr_state \<Rightarrow> int \<times> tpr_state" where
  "handle_passive_parse_hdr k si st =
     (let (err, sid) = hload k TCP_HDR_OPT_KIND
      in if err < 0 then (err, bump (\<lambda>s. s\<lparr>no_tcp_opt_hdr := no_tcp_opt_hdr s + 1\<rparr>) st)
         else if sid = 0 then (PASS, bump (\<lambda>s. s\<lparr>error_bad_id := error_bad_id s + 1\<rparr>) st)
         else if si_server_id si \<noteq> sid then (PASS, bump (\<lambda>s. s\<lparr>error_bad_id := error_bad_id s + 1\<rparr>) st)
         else
           let st = bump (\<lambda>s. s\<lparr>server_id_read := server_id_read s + 1\<rparr>) st;
               (err, st) = unset_parse_hdr_cb_flags k st;
               (err2, st) = unset_write_hdr_cb_flags k st
           in (err OR err2, st))"

definition handle_passive_write_hdr_opt :: "skops \<Rightarrow> server_info \<Rightarrow> tpr_state \<Rightarrow> int \<times> tpr_state" where
  "handle_passive_write_hdr_opt k si st =
     (if should_ignore_due_to_kde k st
      then (SUCCESS, bump (\<lambda>s. s\<lparr>ignoring_due_to_kde := ignoring_due_to_kde s + 1\<rparr>) st)
      else
        let opt = \<lparr>opt_kind = TCP_SRV_HDR_OPT_KIND, opt_len = TCP_HDR_OPT_LEN,
                   opt_server_id = si_server_id si\<rparr>;
            (err, st) = store_hdr_opt k opt st
        in if err \<noteq> 0 then (err, bump (\<lambda>s. s\<lparr>error_write_opt := error_write_opt s + 1\<rparr>) st)
           else (SUCCESS, bump (\<lambda>s. s\<lparr>server_id_set := server_id_set s + 1\<rparr>) st))"

definition handle_passive_estab :: "skops \<Rightarrow> server_info \<Rightarrow> tpr_state \<Rightarrow> int \<times> tpr_state" where
  "handle_passive_estab k si st =
     (let (err, sid) = hload k TCP_HDR_OPT_KIND
      in if err < 0 then
           let st = bump (\<lambda>s. s\<lparr>no_tcp_opt_hdr := no_tcp_opt_hdr s + 1\<rparr>) st;
               (_, st) = unset_write_hdr_cb_flags k st;
               (_, st) = unset_parse_hdr_cb_flags k st
           in (err, st)
         else if si_server_id si \<noteq> sid then
           set_parse_hdr_cb_flags k (bump (\<lambda>s. s\<lparr>error_bad_id := error_bad_id s + 1\<rparr>) st)
         else
           let st = bump (\<lambda>s. s\<lparr>server_id_read := server_id_read s + 1\<rparr>) st;
               (err, st) = unset_parse_hdr_cb_flags k st;
               (err2, st) = unset_write_hdr_cb_flags k st
           in (err OR err2, st))"

section \<open>tcp\_pkt\_router\_active\_hdlr.h\<close>

definition load_tpr_opt :: "skops \<Rightarrow> tpr_state \<Rightarrow> (int \<times> u32) \<times> tpr_state" where
  "load_tpr_opt k st =
     (let (err, sid) = hload k TCP_SRV_HDR_OPT_KIND
      in if err \<ge> 0 then ((err, sid), bump (\<lambda>s. s\<lparr>new_server_opt := new_server_opt s + 1\<rparr>) st)
         else ((err, sid), st))"

text \<open>
  bpf_sk_storage_get with the create flag: the stored id, or the given one if there was none
  and the storage could be allocated.
\<close>

definition storage_create :: "skops \<Rightarrow> u32 \<Rightarrow> tpr_state \<Rightarrow> u32 option \<times> tpr_state" where
  "storage_create k sid st =
     (case sk_sid_store st of
        Some i \<Rightarrow> (Some i, st)
      | None \<Rightarrow> if hcreate k then (Some sid, st\<lparr>sk_sid_store := Some sid\<rparr>) else (None, st))"

definition handle_active_parse_hdr :: "skops \<Rightarrow> tpr_state \<Rightarrow> int \<times> tpr_state" where
  "handle_active_parse_hdr k st =
     (let ((err, sid), st) = load_tpr_opt k st
      in if err < 0 then
           let st = bump (\<lambda>s. s\<lparr>no_tcp_opt_hdr := no_tcp_opt_hdr s + 1\<rparr>) st;
               (_, st) = unset_parse_hdr_cb_flags k st;
               (_, st) = unset_write_hdr_cb_flags k st
           in (err, st)
         else if sid = 0 then (PASS, bump (\<lambda>s. s\<lparr>error_bad_id := error_bad_id s + 1\<rparr>) st)
         else if \<not> has_sk k then (PASS, st)
         else
           let (idp, st) = storage_create k sid st
           in case idp of
                None \<Rightarrow> (PASS, bump (\<lambda>s. s\<lparr>error_sys_calls := error_sys_calls s + 1\<rparr>) st)
              | Some i \<Rightarrow>
                  if i = sid then
                    let st = bump (\<lambda>s. s\<lparr>server_id_read := server_id_read s + 1\<rparr>) st;
                        (_, st) = unset_parse_hdr_cb_flags k st
                    in (SUCCESS, st)
                  else if i \<noteq> 0 then (SUCCESS, bump (\<lambda>s. s\<lparr>error_bad_id := error_bad_id s + 1\<rparr>) st)
                  else (SUCCESS, st))"

definition handle_active_write_hdr_opt :: "skops \<Rightarrow> tpr_state \<Rightarrow> int \<times> tpr_state" where
  "handle_active_write_hdr_opt k st =
     (if \<not> has_sk k then (PASS, st)
      else
        let opt = \<lparr>opt_kind = TCP_HDR_OPT_KIND, opt_len = TCP_HDR_OPT_LEN, opt_server_id = 0\<rparr>;
            st = (if sk_sid_store st = None
                  then bump (\<lambda>s. s\<lparr>error_bad_id := error_bad_id s + 1\<rparr>) st else st);
            (err, st) = store_hdr_opt k opt st
        in if err \<noteq> 0 then (PASS, bump (\<lambda>s. s\<lparr>error_write_opt := error_write_opt s + 1\<rparr>) st)
           else (SUCCESS, bump (\<lambda>s. s\<lparr>server_id_set := server_id_set s + 1\<rparr>) st))"

definition handle_active_estab :: "skops \<Rightarrow> tpr_state \<Rightarrow> int \<times> tpr_state" where
  "handle_active_estab k st =
     (let ((err, sid), st) = load_tpr_opt k st
      in if err < 0 then
           let st = bump (\<lambda>s. s\<lparr>no_tcp_opt_hdr := no_tcp_opt_hdr s + 1\<rparr>) st;
               (err, st) = unset_parse_hdr_cb_flags k st;
               (err2, st) = unset_write_hdr_cb_flags k st
           in (err OR err2, st)
         else if sid = 0 then
           let st = bump (\<lambda>s. s\<lparr>error_bad_id := error_bad_id s + 1\<rparr>) st;
               (_, st) = set_write_hdr_cb_flags k st;
               (_, st) = set_parse_hdr_cb_flags k st
           in (PASS, st)
         else if \<not> has_sk k then (PASS, st)
         else
           let (idp, st) = storage_create k sid st
           in if hcond k then
                let st = (if idp \<noteq> None then bump (\<lambda>s. s\<lparr>error_bad_id := error_bad_id s + 1\<rparr>) st
                          else bump (\<lambda>s. s\<lparr>error_sys_calls := error_sys_calls s + 1\<rparr>) st);
                    (_, st) = set_write_hdr_cb_flags k st;
                    (_, st) = set_parse_hdr_cb_flags k st
                in (PASS, st)
              else
                let (err, st) = set_write_hdr_cb_flags k st
                in if err \<noteq> 0 then
                     let (err2, st) = set_parse_hdr_cb_flags k st in (err OR err2, st)
                   else (SUCCESS, bump (\<lambda>s. s\<lparr>server_id_read := server_id_read s + 1\<rparr>) st))"

section \<open>tcp\_pkt\_router.bpf.c\<close>

definition handle_passive_cb :: "skops \<Rightarrow> server_info \<Rightarrow> tpr_state \<Rightarrow> int \<times> tpr_state" where
  "handle_passive_cb k si st =
     (case op k of
        BPF_SOCK_OPS_TCP_LISTEN_CB \<Rightarrow> set_write_hdr_cb_flags k st
      | BPF_SOCK_OPS_PARSE_HDR_OPT_CB \<Rightarrow> handle_passive_parse_hdr k si st
      | BPF_SOCK_OPS_HDR_OPT_LEN_CB \<Rightarrow>
          if skb_tcp_flags k AND TCPHDR_SYNACK = TCPHDR_SYNACK \<and> \<not> should_ignore_due_to_kde k st
          then handle_hdr_opt_len k st else (SUCCESS, st)
      | BPF_SOCK_OPS_WRITE_HDR_OPT_CB \<Rightarrow>
          if skb_tcp_flags k AND TCPHDR_SYNACK = TCPHDR_SYNACK
          then handle_passive_write_hdr_opt k si st else (SUCCESS, st)
      | BPF_SOCK_OPS_PASSIVE_ESTABLISHED_CB \<Rightarrow> handle_passive_estab k si st
      | _ \<Rightarrow> (SUCCESS, st))"

definition handle_active_cb :: "skops \<Rightarrow> tpr_state \<Rightarrow> int \<times> tpr_state" where
  "handle_active_cb k st =
     (case op k of
        BPF_SOCK_OPS_PARSE_HDR_OPT_CB \<Rightarrow>
          if skb_tcp_flags k AND TCPHDR_SYNACK = TCPHDR_SYNACK
          then handle_active_parse_hdr k st else (SUCCESS, st)
      | BPF_SOCK_OPS_HDR_OPT_LEN_CB \<Rightarrow>
          if skb_tcp_flags k AND TCPHDR_SYN \<noteq> TCPHDR_SYN
          then handle_hdr_opt_len k st else (SUCCESS, st)
      | BPF_SOCK_OPS_WRITE_HDR_OPT_CB \<Rightarrow>
          if skb_tcp_flags k AND TCPHDR_SYN \<noteq> TCPHDR_SYN
          then handle_active_write_hdr_opt k st else (SUCCESS, st)
      | BPF_SOCK_OPS_ACTIVE_ESTABLISHED_CB \<Rightarrow> handle_active_estab k st
      | _ \<Rightarrow> (SUCCESS, st))"

definition skip_conn :: "tpr_state \<Rightarrow> tpr_state" where
  "skip_conn = bump (\<lambda>s. s\<lparr>conns_skipped := conns_skipped s + 1\<rparr>)"

text \<open>g_server_exclusive_port is the constant the loader sets.\<close>

definition tcp_pkt_router :: "u32 \<Rightarrow> skops \<Rightarrow> tpr_state \<Rightarrow> int \<times> tpr_state" where
  "tcp_pkt_router g_server_exclusive_port k st =
     (if pstats st = None then (CG_ERR, st)
      else
        case sinfo st of
          None \<Rightarrow> (CG_OK, skip_conn st)
        | Some s_info \<Rightarrow>
            if running_mode s_info = SERVER_MODE \<and> g_server_exclusive_port \<noteq> 0 \<and>
               local_port k \<noteq> g_server_exclusive_port
            then (CG_OK, skip_conn st)
            else if running_mode s_info = SERVER_MODE then
              let (r, st) = handle_passive_cb k s_info st
              in (CG_OK, if r \<noteq> 0 then skip_conn st else st)
            else if running_mode s_info = CLIENT_MODE then
              let (r, st) = handle_active_cb k st
              in (CG_OK, if r \<noteq> 0 then skip_conn st else st)
            else (CG_OK, skip_conn st))"

end
