(* ===== verification/TprCtl.thy ===== *)
theory TprCtl
  imports Tpr
begin

text \<open>
  The user space side of the TCP packet router: TcpPktRouter.cpp (loading, attaching, the server
  info entry) and TPRStatsPoller.cpp (the per CPU statistics). The libbpf and system calls of
  one operation are a record of their results; the constructor leaves v6Id without a value, so
  its first value is an argument. An abort by CHECK is the value None.
\<close>

section \<open>TcpPktRouter.cpp\<close>

datatype running_mode_t = DEFAULT_RESERVED | SERVER | CLIENT

definition running_mode_code :: "running_mode_t \<Rightarrow> u8" where
  "running_mode_code m = (case m of DEFAULT_RESERVED \<Rightarrow> 0 | SERVER \<Rightarrow> 1 | CLIENT \<Rightarrow> 2)"

definition kMaxServerId :: u32 where "kMaxServerId = push_bit 24 1 - 1"

record tpr_router =
  mode :: running_mode_t
  kdeEnabled :: bool
  serverPort :: "u32 option"
  v6Id :: u32
  isInitialized :: bool
  statsPoller :: bool
  skel_open :: bool
  attached :: nat
  exclusive_port :: u32
  server_infos :: "server_info option"

text \<open>
  The kernel side of the router is in the same record: whether the skeleton is open, how many
  times its program is attached to the cgroup, the constant g_server_exclusive_port of the
  loaded program and the entry of the server info map.
\<close>

definition new_router ::
  "u32 \<Rightarrow> running_mode_t \<Rightarrow> bool \<Rightarrow> u32 option \<Rightarrow> tpr_router" where
  "new_router unset_id m kde port =
     \<lparr>mode = m, kdeEnabled = kde, serverPort = port, v6Id = unset_id,
      isInitialized = False, statsPoller = False, skel_open = False, attached = 0,
      exclusive_port = 0,
      server_infos = Some \<lparr>running_mode = 0, kde_enabled_field = 0, si_server_id = 0\<rparr>\<rparr>"

record tpr_sys =
  sys_init :: bool
  sys_open :: bool
  sys_load :: bool
  sys_prog_fd :: int
  sys_attach :: bool
  sys_update :: bool
  sys_stats_fd :: int
  sys_detach :: bool

definition server_info_of :: "tpr_router \<Rightarrow> server_info" where
  "server_info_of r =
     (if mode r = SERVER
      then \<lparr>running_mode = running_mode_code SERVER,
            kde_enabled_field = (if kdeEnabled r then 1 else 0), si_server_id = v6Id r\<rparr>
      else \<lparr>running_mode = running_mode_code CLIENT, kde_enabled_field = 0, si_server_id = 0\<rparr>)"

definition updateServerInfo :: "tpr_sys \<Rightarrow> tpr_router \<Rightarrow> bool \<times> tpr_router" where
  "updateServerInfo s r =
     (if sys_update s then (True, r\<lparr>server_infos := Some (server_info_of r)\<rparr>) else (False, r))"

definition setServerIdV6 :: "tpr_sys \<Rightarrow> u32 \<Rightarrow> tpr_router \<Rightarrow> (bool \<times> tpr_router) option" where
  "setServerIdV6 s i r =
     (if mode r \<noteq> SERVER then None
      else if i > kMaxServerId then Some (False, r)
      else if v6Id r = i then Some (True, r)
      else
        let r = r\<lparr>v6Id := i\<rparr>
        in if isInitialized r then
             let (ok, r) = updateServerInfo s r
             in if \<not> ok then Some (False, r) else Some (True, r)
           else Some (True, r))"

definition router_shutdown :: "tpr_sys \<Rightarrow> tpr_router \<Rightarrow> bool \<times> tpr_router" where
  "router_shutdown s r =
     (if \<not> isInitialized r then (True, r)
      else if \<not> sys_detach s then (False, r)
      else (True, r\<lparr>attached := attached r - 1, isInitialized := False\<rparr>))"

definition router_init :: "tpr_sys \<Rightarrow> bool \<Rightarrow> tpr_router \<Rightarrow> (bool \<times> tpr_router) option" where
  "router_init s pollStats r =
     (if isInitialized r then None
      else if \<not> sys_init s then Some (False, r)
      else if skel_open r \<or> \<not> sys_open s then Some (False, r)
      else
        let r = r\<lparr>skel_open := True\<rparr>;
            r = (case serverPort r of Some port \<Rightarrow> r\<lparr>exclusive_port := port\<rparr> | None \<Rightarrow> r)
        in if \<not> sys_load s then Some (False, r)
           else if sys_prog_fd s < 0 then Some (False, r)
           else if \<not> sys_attach s then Some (False, r)
           else
             let r = r\<lparr>attached := attached r + 1\<rparr>;
                 (ok, r) = updateServerInfo s r
             in if \<not> ok then Some (False, r)
                else
                  let r = r\<lparr>isInitialized := True\<rparr>
                  in if pollStats then
                       if sys_stats_fd s < 0 then Some (router_shutdown s r)
                       else Some (True, r\<lparr>statsPoller := True\<rparr>)
                     else Some (True, r))"

section \<open>TPRStatsPoller.cpp\<close>

datatype poll_error = EINVAL | EBADF | ENOENT | LOOKUP_FAILED

definition zero_tpr_stats :: tpr_stats where
  "zero_tpr_stats =
     \<lparr>server_id_read = 0, server_id_set = 0, conns_skipped = 0, no_tcp_opt_hdr = 0,
      error_bad_id = 0, error_write_opt = 0, error_sys_calls = 0, ignoring_due_to_kde = 0,
      legacy_server_opt = 0, new_server_opt = 0\<rparr>"

definition add_tpr_stats :: "tpr_stats \<Rightarrow> tpr_stats \<Rightarrow> tpr_stats" where
  "add_tpr_stats a s =
     \<lparr>server_id_read = server_id_read a + server_id_read s,
      server_id_set = server_id_set a + server_id_set s,
      conns_skipped = conns_skipped a + conns_skipped s,
      no_tcp_opt_hdr = no_tcp_opt_hdr a + no_tcp_opt_hdr s,
      error_bad_id = error_bad_id a + error_bad_id s,
      error_write_opt = error_write_opt a + error_write_opt s,
      error_sys_calls = error_sys_calls a + error_sys_calls s,
      ignoring_due_to_kde = ignoring_due_to_kde a + ignoring_due_to_kde s,
      legacy_server_opt = legacy_server_opt a + legacy_server_opt s,
      new_server_opt = new_server_opt a + new_server_opt s\<rparr>"

text \<open>
  The array percpu_stats has numCpus elements; the kernel fills one per possible CPU. percpu is
  the lookup of the per CPU entry, one element per possible CPU; reading with a smaller array
  would overflow it, which is the value None.
\<close>

definition collectTPRStats ::
  "(nat \<Rightarrow> tpr_stats) \<Rightarrow> int \<Rightarrow> tpr_stats list option \<Rightarrow> int \<Rightarrow> (poll_error + tpr_stats) option" where
  "collectTPRStats unset statsMapFd percpu numCpus =
     (if statsMapFd < 0 then Some (Inl EINVAL)
      else if numCpus < 0 then Some (Inl EINVAL)
      else
        case percpu of
          None \<Rightarrow> Some (Inl LOOKUP_FAILED)
        | Some cpus \<Rightarrow>
            let percpu_stats = cpus @ map unset [length cpus..<nat numCpus]
            in if nat numCpus < length cpus then None
            else Some (Inr (fold (\<lambda>s a. add_tpr_stats a s) percpu_stats zero_tpr_stats)))"

text \<open>
  getCpuCount: rng is the content of the file, split at the dash and parsed, None if the file
  cannot be read.
\<close>

definition getCpuCount :: "u32 list option \<Rightarrow> poll_error + int" where
  "getCpuCount file =
     (case file of
        None \<Rightarrow> Inl EINVAL
      | Some rng \<Rightarrow>
          if length rng = 2 then
            Inr (if rng ! 0 = 0 then sint (rng ! 1 + 1) else - 1)
          else if length rng = 1 then Inr 1
          else Inl EBADF)"

end
