(* ===== verification/TprProps.thy ===== *)
theory TprProps
  imports TprCtl
begin

text \<open>
  Properties of the TCP packet router: what one invocation does to the state, and the invariants
  of a connection over any sequence of invocations. obs is the part of the state the protocol
  is about; most steps of the handlers leave it alone, which the simp rules below say.
\<close>

section \<open>Frame rules\<close>

definition set_count :: "tpr_state \<Rightarrow> u64 option" where
  "set_count st = map_option server_id_set (pstats st)"

definition obs :: "tpr_state \<Rightarrow> u64 option \<times> server_info option \<times> u32 option \<times> tcp_opt list" where
  "obs st = (set_count st, sinfo st, sk_sid_store st, written st)"

lemma obs_bump [simp]:
  "(\<And>s. server_id_set (f s) = server_id_set s) \<Longrightarrow> obs (bump f st) = obs st"
  by (simp add: obs_def set_count_def bump_def option.map_comp comp_def)

lemma obs_flags [simp]: "obs (snd (flags_set k new st)) = obs st"
  by (simp add: flags_set_def Let_def obs_def set_count_def bump_def option.map_comp comp_def
      split: prod.splits)

lemmas set_flags_defs = set_write_hdr_cb_flags_def unset_write_hdr_cb_flags_def
  set_parse_hdr_cb_flags_def unset_parse_hdr_cb_flags_def

lemma obs_set_flags [simp]:
  "obs (snd (set_write_hdr_cb_flags k st)) = obs st"
  "obs (snd (unset_write_hdr_cb_flags k st)) = obs st"
  "obs (snd (set_parse_hdr_cb_flags k st)) = obs st"
  "obs (snd (unset_parse_hdr_cb_flags k st)) = obs st"
  by (simp_all add: set_flags_defs)

lemma obs_hdr_opt_len [simp]: "obs (snd (handle_hdr_opt_len k st)) = obs st"
  by (simp add: handle_hdr_opt_len_def Let_def)

lemma obs_passive_parse [simp]: "obs (snd (handle_passive_parse_hdr k si st)) = obs st"
  by (simp add: handle_passive_parse_hdr_def Let_def split_beta)

lemma obs_passive_estab [simp]: "obs (snd (handle_passive_estab k si st)) = obs st"
  by (simp add: handle_passive_estab_def Let_def split_beta)

lemma obs_skip [simp]: "obs (skip_conn st) = obs st"
  by (simp add: skip_conn_def)

text \<open>wrote opt st st': nothing happened to the observed state, or one option was written.\<close>

definition wrote :: "tcp_opt \<Rightarrow> tpr_state \<Rightarrow> tpr_state \<Rightarrow> bool" where
  "wrote opt st st' \<longleftrightarrow> obs st' = obs st \<or>
     obs st' = (map_option (\<lambda>n. n + 1) (set_count st), sinfo st, sk_sid_store st, written st @ [opt])"

lemma wrote_obs [intro]: "obs st' = obs st \<Longrightarrow> wrote opt st st'"
  by (simp add: wrote_def)

lemma wrote_after:
  assumes "wrote opt st st'"
  shows "obs st'' = obs st' \<Longrightarrow> wrote opt st st''"
    and "obs st0 = obs st \<Longrightarrow> wrote opt st0 st'"
  using assms by (auto simp: wrote_def obs_def)

lemma wrote_skip [simp]: "wrote opt st (skip_conn st') = wrote opt st st'"
  by (simp add: wrote_def)

lemma wrote_store:
  assumes "store_hdr_opt k opt st = (err, st')"
  shows "err \<noteq> 0 \<Longrightarrow> obs st' = obs st"
    and "err = 0 \<Longrightarrow> wrote opt st (bump (\<lambda>s. s\<lparr>server_id_set := server_id_set s + 1\<rparr>) st')"
  using assms
  by (auto simp: store_hdr_opt_def Let_def wrote_def obs_def set_count_def bump_def
      option.map_comp comp_def)

section \<open>The handlers\<close>

definition srv_opt :: "server_info \<Rightarrow> tcp_opt" where
  "srv_opt si = \<lparr>opt_kind = 0xB6, opt_len = 6, opt_server_id = si_server_id si\<rparr>"

definition clt_opt :: tcp_opt where
  "clt_opt = \<lparr>opt_kind = 0xB7, opt_len = 6, opt_server_id = 0\<rparr>"

lemma passive_write: "wrote (srv_opt si) st (snd (handle_passive_write_hdr_opt k si st))"
proof (cases "should_ignore_due_to_kde k st")
  case True
  then show ?thesis by (auto simp: handle_passive_write_hdr_opt_def)
next
  case False
  obtain err st' where s: "store_hdr_opt k (srv_opt si) st = (err, st')" by fastforce
  then show ?thesis
    using False wrote_store [OF s]
    by (auto simp: handle_passive_write_hdr_opt_def srv_opt_def tpr_consts Let_def)
qed

lemma passive_cb: "wrote (srv_opt si) st (snd (handle_passive_cb k si st))"
  by (auto simp: handle_passive_cb_def passive_write split: sock_op.splits)

lemma active_write: "wrote clt_opt st (snd (handle_active_write_hdr_opt k st))"
proof (cases "has_sk k")
  case False
  then show ?thesis by (auto simp: handle_active_write_hdr_opt_def)
next
  case True
  define st1 where "st1 = (if sk_sid_store st = None
    then bump (\<lambda>s. s\<lparr>error_bad_id := error_bad_id s + 1\<rparr>) st else st)"
  then have o: "obs st1 = obs st" by simp
  obtain err st' where s: "store_hdr_opt k clt_opt st1 = (err, st')" by fastforce
  then have r: "snd (handle_active_write_hdr_opt k st) =
      (if err \<noteq> 0 then bump (\<lambda>s. s\<lparr>error_write_opt := error_write_opt s + 1\<rparr>) st'
       else bump (\<lambda>s. s\<lparr>server_id_set := server_id_set s + 1\<rparr>) st')"
    using True
    by (simp add: handle_active_write_hdr_opt_def st1_def [symmetric] clt_opt_def tpr_consts Let_def)
  show ?thesis
  proof (cases "err = 0")
    case True
    with wrote_after(2) [OF wrote_store(2) [OF s True], of st] o r show ?thesis by simp
  next
    case False
    with wrote_store(1) [OF s] o r show ?thesis by auto
  qed
qed

text \<open>stored st st': nothing happened, or the first id of the connection was stored.\<close>

definition stored :: "tpr_state \<Rightarrow> tpr_state \<Rightarrow> bool" where
  "stored st st' \<longleftrightarrow> obs st' = obs st \<or>
     (\<exists>sid. sid \<noteq> 0 \<and> sk_sid_store st = None \<and>
        obs st' = (set_count st, sinfo st, Some sid, written st))"

lemma stored_obs [intro]: "obs st' = obs st \<Longrightarrow> stored st st'"
  by (simp add: stored_def)

lemma stored_after:
  assumes "stored st st'"
  shows "obs st'' = obs st' \<Longrightarrow> stored st st''"
    and "obs st0 = obs st \<Longrightarrow> stored st0 st'"
  using assms by (auto simp: stored_def obs_def)

lemma obs_load [simp]: "obs (snd (load_tpr_opt k st)) = obs st"
  by (simp add: load_tpr_opt_def split_beta)

lemma stored_create:
  assumes "storage_create k sid st = (idp, st')" "sid \<noteq> 0"
  shows "stored st st'"
  using assms
  by (auto simp: storage_create_def stored_def obs_def set_count_def split: option.splits if_splits)

lemma active_parse: "stored st (snd (handle_active_parse_hdr k st))"
proof -
  obtain err sid st1 where l: "load_tpr_opt k st = ((err, sid), st1)"
    by (metis prod.collapse)
  then have o: "obs st1 = obs st" using obs_load [of k st] by simp
  obtain idp st2 where c: "storage_create k sid st1 = (idp, st2)" by fastforce
  have "sid \<noteq> 0 \<Longrightarrow> stored st st2"
    using stored_after(2) [OF stored_create [OF c]] o by simp
  then have "sid \<noteq> 0 \<Longrightarrow> obs st3 = obs st2 \<Longrightarrow> stored st st3" for st3
    using stored_after(1) by blast
  then show ?thesis
    using o by (auto simp: handle_active_parse_hdr_def l c Let_def split_beta split: option.splits)
qed

lemma active_estab: "stored st (snd (handle_active_estab k st))"
proof -
  obtain err sid st1 where l: "load_tpr_opt k st = ((err, sid), st1)"
    by (metis prod.collapse)
  then have o: "obs st1 = obs st" using obs_load [of k st] by simp
  obtain idp st2 where c: "storage_create k sid st1 = (idp, st2)" by fastforce
  have "sid \<noteq> 0 \<Longrightarrow> stored st st2"
    using stored_after(2) [OF stored_create [OF c]] o by simp
  then have "sid \<noteq> 0 \<Longrightarrow> obs st3 = obs st2 \<Longrightarrow> stored st st3" for st3
    using stored_after(1) by blast
  then show ?thesis
    using o by (auto simp: handle_active_estab_def l c Let_def split_beta)
qed

lemma active_cb:
  "wrote clt_opt st (snd (handle_active_cb k st)) \<or> stored st (snd (handle_active_cb k st))"
  by (auto simp: handle_active_cb_def active_write active_parse active_estab split: sock_op.splits)

section \<open>The router\<close>

lemma router_obs:
  "obs (snd (tcp_pkt_router port k st)) = obs st \<or>
   (\<exists>si. sinfo st = Some si \<and> running_mode si = SERVER_MODE \<and>
     wrote (srv_opt si) st (snd (tcp_pkt_router port k st))) \<or>
   (\<exists>si. sinfo st = Some si \<and> running_mode si = CLIENT_MODE \<and>
     (wrote clt_opt st (snd (tcp_pkt_router port k st)) \<or>
      stored st (snd (tcp_pkt_router port k st))))"
proof (cases "sinfo st")
  case None
  then show ?thesis by (simp add: tcp_pkt_router_def)
next
  case (Some si)
  have a: "stored st (skip_conn st') = stored st st'" for st' by (simp add: stored_def)
  show ?thesis
    using Some passive_cb [of si st k] active_cb [of st k]
    by (simp add: tcp_pkt_router_def Let_def split_beta a)
qed

section \<open>The whole system\<close>

text \<open>
  The router object with the connection its program sees: any packet while the program is
  attached, and the operations of the object, in any order and with any result of the kernel.
  The server info entry of the connection's state is the one of the object's map.
\<close>

inductive tpr_step :: "tpr_router \<times> tpr_state \<Rightarrow> tpr_router \<times> tpr_state \<Rightarrow> bool" where
  packet: "attached r > 0 \<Longrightarrow>
    tpr_step (r, st) (r, snd (tcp_pkt_router (exclusive_port r) k (st\<lparr>sinfo := server_infos r\<rparr>)))"
| set_id: "setServerIdV6 s i r = Some (b, r') \<Longrightarrow> tpr_step (r, st) (r', st)"
| load: "router_init s p r = Some (b, r') \<Longrightarrow> tpr_step (r, st) (r', st)"
| unload: "router_shutdown s r = (b, r') \<Longrightarrow> tpr_step (r, st) (r', st)"

definition tpr_runs :: "tpr_router \<times> tpr_state \<Rightarrow> tpr_router \<times> tpr_state \<Rightarrow> bool" where
  "tpr_runs = tpr_step\<^sup>*\<^sup>*"

lemma tpr_runs_induct [consumes 1, case_names init step]:
  assumes "tpr_runs a b" "P a" "\<And>b c. P b \<Longrightarrow> tpr_step b c \<Longrightarrow> P c"
  shows "P b"
  using assms unfolding tpr_runs_def by (induction rule: rtranclp_induct) blast+

inductive_cases tpr_stepE: "tpr_step (r, st) (r', st')"

definition ctl_ok :: "running_mode_t \<Rightarrow> tpr_router \<Rightarrow> bool" where
  "ctl_ok m r \<longleftrightarrow> mode r = m \<and> v6Id r \<le> kMaxServerId \<and>
     (\<exists>si. server_infos r = Some si \<and>
        (running_mode si \<in> {0, running_mode_code m}) \<and> si_server_id si \<le> kMaxServerId)"

lemma ctl_ok_update: "ctl_ok m r \<Longrightarrow> m \<noteq> DEFAULT_RESERVED \<Longrightarrow> ctl_ok m (snd (updateServerInfo s r))"
  by (cases m) (auto simp: ctl_ok_def updateServerInfo_def server_info_of_def)

lemma ctl_ok_fields [simp]:
  "ctl_ok m (r\<lparr>attached := n\<rparr>) = ctl_ok m r" "ctl_ok m (r\<lparr>isInitialized := b\<rparr>) = ctl_ok m r"
  "ctl_ok m (r\<lparr>skel_open := b\<rparr>) = ctl_ok m r" "ctl_ok m (r\<lparr>exclusive_port := i\<rparr>) = ctl_ok m r"
  "ctl_ok m (r\<lparr>statsPoller := b\<rparr>) = ctl_ok m r"
  by (simp_all add: ctl_ok_def)

lemma ctl_ok_set_id:
  assumes "ctl_ok m r" "m \<noteq> DEFAULT_RESERVED" "setServerIdV6 s i r = Some (b, r')"
  shows "ctl_ok m r'"
proof -
  have "i \<le> kMaxServerId \<Longrightarrow> ctl_ok m (r\<lparr>v6Id := i\<rparr>)"
    using assms(1) by (simp add: ctl_ok_def)
  then show ?thesis
    using assms ctl_ok_update [of m "r\<lparr>v6Id := i\<rparr>" s]
    by (auto simp: setServerIdV6_def Let_def split_beta split: if_splits)
qed

lemma ctl_ok_shutdown: "ctl_ok m r \<Longrightarrow> ctl_ok m (snd (router_shutdown s r))"
  by (simp add: router_shutdown_def)

lemma ctl_ok_init:
  assumes "ctl_ok m r" "m \<noteq> DEFAULT_RESERVED" "router_init s p r = Some (b, r')"
  shows "ctl_ok m r'"
proof -
  define r1 where "r1 = r\<lparr>skel_open := True\<rparr>"
  define r2 where "r2 = (case serverPort r1 of Some port \<Rightarrow> r1\<lparr>exclusive_port := port\<rparr> | None \<Rightarrow> r1)"
  define r3 where "r3 = r2\<lparr>attached := Suc (attached r2)\<rparr>"
  obtain ok r4 where u: "updateServerInfo s r3 = (ok, r4)" by fastforce
  have ok: "ctl_ok m r1" "ctl_ok m r2" "ctl_ok m r3"
    using assms(1) by (simp_all add: r1_def r2_def r3_def split: option.splits)
  have "ctl_ok m r4" using ctl_ok_update [OF ok(3) assms(2), of s] u by simp
  then show ?thesis
    using assms ok ctl_ok_shutdown [of m "r4\<lparr>isInitialized := True\<rparr>" s]
    by (auto simp: router_init_def r1_def [symmetric] r2_def [symmetric] r3_def [symmetric] u Let_def
        split: if_splits)
qed

lemma tpr_step_ctl:
  assumes "tpr_step (r, st) (r', st')" "ctl_ok m r" "m \<noteq> DEFAULT_RESERVED"
  shows "ctl_ok m r'"
  using assms ctl_ok_shutdown [OF assms(2)]
  by (auto elim!: tpr_stepE intro: ctl_ok_set_id ctl_ok_init) (metis snd_conv)

lemma ctl_ok_new:
  "u \<le> kMaxServerId \<Longrightarrow> ctl_ok m (new_router u m kde port)"
  by (simp add: ctl_ok_def new_router_def)

section \<open>Reference values\<close>

text \<open>A kernel that refuses nothing, a fresh connection, and the runs the witnesses use.\<close>

definition ref_sys :: tpr_sys where
  "ref_sys = \<lparr>sys_init = True, sys_open = True, sys_load = True, sys_prog_fd = 3, sys_attach = True,
     sys_update = True, sys_stats_fd = 4, sys_detach = True\<rparr>"

definition ref_skops :: "sock_op \<Rightarrow> u32 \<Rightarrow> skops" where
  "ref_skops o' sid = \<lparr>op = o', skb_tcp_flags = 0x12, local_port = 443, has_sk = True,
     hload = (\<lambda>_. (6, sid)), hload_syn = (\<lambda>_. 0), hstore = (\<lambda>_. 0), hreserve = 0,
     hflags = (\<lambda>_ n. (0, n)), hcreate = True, hcond = False\<rparr>"

definition ref_conn :: tpr_state where
  "ref_conn = \<lparr>pstats = Some zero_tpr_stats, sinfo = None, cb_flags = 0, sk_sid_store = None,
     written = []\<rparr>"

definition ref_loaded :: "running_mode_t \<Rightarrow> u32 \<Rightarrow> tpr_router" where
  "ref_loaded m i = snd (the (router_init ref_sys False (new_router i m False None)))"

definition ref_packet :: "tpr_router \<Rightarrow> skops \<Rightarrow> tpr_state \<Rightarrow> tpr_state" where
  "ref_packet r k st = snd (tcp_pkt_router (exclusive_port r) k (st\<lparr>sinfo := server_infos r\<rparr>))"

lemma ref_router_init:
  "m \<noteq> DEFAULT_RESERVED \<Longrightarrow>
     router_init ref_sys False (new_router i m False None) = Some (True, ref_loaded m i)"
  by (simp add: ref_loaded_def router_init_def new_router_def ref_sys_def updateServerInfo_def Let_def)

lemma ref_attached: "m \<noteq> DEFAULT_RESERVED \<Longrightarrow> attached (ref_loaded m i) = 1"
  by (simp add: ref_loaded_def router_init_def new_router_def ref_sys_def updateServerInfo_def Let_def)

lemma ref_run_packet:
  "m \<noteq> DEFAULT_RESERVED \<Longrightarrow> tpr_runs (ref_loaded m i, st) (ref_loaded m i, ref_packet (ref_loaded m i) k st)"
  unfolding tpr_runs_def ref_packet_def
  by (rule r_into_rtranclp, rule packet) (simp add: ref_attached)

lemma ref_run_load:
  "m \<noteq> DEFAULT_RESERVED \<Longrightarrow> tpr_runs (new_router i m False None, st) (ref_loaded m i, st)"
  unfolding tpr_runs_def by (rule r_into_rtranclp, rule load, rule ref_router_init)

lemma tpr_runs_trans: "tpr_runs a b \<Longrightarrow> tpr_runs b c \<Longrightarrow> tpr_runs a c"
  by (simp add: tpr_runs_def)

section \<open>Properties\<close>

definition srv_inv :: "tpr_state \<Rightarrow> tpr_router \<times> tpr_state \<Rightarrow> bool" where
  "srv_inv st0 c \<longleftrightarrow> ctl_ok SERVER (fst c) \<and> sk_sid_store (snd c) = sk_sid_store st0 \<and>
     (\<forall>opt \<in> set (written (snd c)).
        opt_kind opt = 0xB6 \<and> opt_len opt = 6 \<and> opt_server_id opt \<le> kMaxServerId)"

lemma srv_inv_step:
  assumes "srv_inv st0 b" "tpr_step b c"
  shows "srv_inv st0 c"
proof -
  obtain r st r' st' where bc: "b = (r, st)" "c = (r', st')" by fastforce
  have inv: "ctl_ok SERVER r" "sk_sid_store st = sk_sid_store st0"
    "\<forall>opt \<in> set (written st). opt_kind opt = 0xB6 \<and> opt_len opt = 6 \<and> opt_server_id opt \<le> kMaxServerId"
    using assms(1) by (simp_all add: srv_inv_def bc)
  have r': "ctl_ok SERVER r'"
    using tpr_step_ctl [of r st r' st' SERVER] assms(2) inv by (simp add: bc)
  obtain si where si: "server_infos r = Some si" "running_mode si \<in> {0, 1}"
    "si_server_id si \<le> kMaxServerId"
    using inv(1) by (auto simp: ctl_ok_def running_mode_code_def)
  from assms(2) have "st' = st \<or>
      (\<exists>k. st' = snd (tcp_pkt_router (exclusive_port r) k (st\<lparr>sinfo := server_infos r\<rparr>)))"
    by (auto simp: bc elim: tpr_stepE)
  then show ?thesis
  proof
    assume "st' = st"
    then show ?thesis using inv r' by (simp add: srv_inv_def bc)
  next
    assume "\<exists>k. st' = snd (tcp_pkt_router (exclusive_port r) k (st\<lparr>sinfo := server_infos r\<rparr>))"
    then obtain k where k: "st' = snd (tcp_pkt_router (exclusive_port r) k (st\<lparr>sinfo := server_infos r\<rparr>))" ..
    have "wrote (srv_opt si) (st\<lparr>sinfo := server_infos r\<rparr>) st'"
      using router_obs [of "exclusive_port r" k "st\<lparr>sinfo := server_infos r\<rparr>"] si k
      by (auto simp: SERVER_MODE_def CLIENT_MODE_def)
    then show ?thesis
      using inv r' si by (auto simp: srv_inv_def bc wrote_def obs_def srv_opt_def)
  qed
qed

text \<open>
  C40: whatever packets arrive and whatever is called on the router object in server mode, in any
  order and with any failures of the kernel, every option the program writes is of the server
  kind, has the right length and carries an id of at most 24 bits (if the object starts with
  such an id), and the socket storage of the client side is never touched.
\<close>

theorem tpr_server_options:
  assumes "tpr_runs (new_router u SERVER kde port, st0) (r, st)"
    and "u \<le> kMaxServerId" "written st0 = []"
  shows "(\<forall>opt \<in> set (written st).
      opt_kind opt = 0xB6 \<and> opt_len opt = 6 \<and> opt_server_id opt \<le> kMaxServerId) \<and>
    sk_sid_store st = sk_sid_store st0"
proof -
  have "srv_inv st0 (r, st)"
    using assms(1)
  proof (induction rule: tpr_runs_induct)
    case init
    show ?case using assms(2,3) by (simp add: srv_inv_def ctl_ok_new)
  next
    case (step b c)
    then show ?case using srv_inv_step by blast
  qed
  then show ?thesis by (simp add: srv_inv_def)
qed

theorem tpr_server_options_witness:
  "let st = ref_packet (ref_loaded SERVER 77) (ref_skops BPF_SOCK_OPS_WRITE_HDR_OPT_CB 0) ref_conn
   in length (written st) = 1 \<and> (\<forall>opt \<in> set (written st). opt_server_id opt \<le> kMaxServerId)"
proof -
  let ?r = "ref_loaded SERVER 77"
  let ?st = "ref_packet ?r (ref_skops BPF_SOCK_OPS_WRITE_HDR_OPT_CB 0) ref_conn"
  have "tpr_runs (new_router 77 SERVER False None, ref_conn) (?r, ?st)"
    by (rule tpr_runs_trans [OF ref_run_load ref_run_packet]) simp_all
  moreover have "77 \<le> kMaxServerId" "written ref_conn = []" "length (written ?st) = 1" by code_simp+
  ultimately show ?thesis
    unfolding Let_def using tpr_server_options by blast
qed

definition clt_inv :: "tpr_state \<Rightarrow> tpr_router \<times> tpr_state \<Rightarrow> bool" where
  "clt_inv st0 c \<longleftrightarrow> ctl_ok CLIENT (fst c) \<and>
     sk_sid_store (snd c) \<noteq> Some 0 \<and>
     (\<forall>i. sk_sid_store st0 = Some i \<longrightarrow> sk_sid_store (snd c) = Some i) \<and>
     (\<forall>opt \<in> set (written (snd c)). opt = clt_opt)"

lemma clt_inv_step:
  assumes "clt_inv st0 b" "tpr_step b c"
  shows "clt_inv st0 c"
proof -
  obtain r st r' st' where bc: "b = (r, st)" "c = (r', st')" by fastforce
  have inv: "ctl_ok CLIENT r" "sk_sid_store st \<noteq> Some 0"
    "\<forall>i. sk_sid_store st0 = Some i \<longrightarrow> sk_sid_store st = Some i"
    "\<forall>opt \<in> set (written st). opt = clt_opt"
    using assms(1) by (simp_all add: clt_inv_def bc)
  have r': "ctl_ok CLIENT r'"
    using tpr_step_ctl [of r st r' st' CLIENT] assms(2) inv by (simp add: bc)
  obtain si where si: "server_infos r = Some si" "running_mode si \<in> {0, 2}"
    using inv(1) by (auto simp: ctl_ok_def running_mode_code_def)
  from assms(2) have "st' = st \<or>
      (\<exists>k. st' = snd (tcp_pkt_router (exclusive_port r) k (st\<lparr>sinfo := server_infos r\<rparr>)))"
    by (auto simp: bc elim: tpr_stepE)
  then show ?thesis
  proof
    assume "st' = st"
    then show ?thesis using inv r' by (simp add: clt_inv_def bc)
  next
    assume "\<exists>k. st' = snd (tcp_pkt_router (exclusive_port r) k (st\<lparr>sinfo := server_infos r\<rparr>))"
    then obtain k where k: "st' = snd (tcp_pkt_router (exclusive_port r) k (st\<lparr>sinfo := server_infos r\<rparr>))" ..
    have "wrote clt_opt (st\<lparr>sinfo := server_infos r\<rparr>) st' \<or> stored (st\<lparr>sinfo := server_infos r\<rparr>) st'"
      using router_obs [of "exclusive_port r" k "st\<lparr>sinfo := server_infos r\<rparr>"] si k
      by (auto simp: SERVER_MODE_def CLIENT_MODE_def)
    then show ?thesis
      using inv r' by (auto simp: clt_inv_def bc wrote_def stored_def obs_def)
  qed
qed

text \<open>
  In client mode the id stored for a connection is never 0 and never changes once it is
  there, and every option the program writes is of the client kind with the id 0: the id of the
  server, although stored, is never echoed.
\<close>

theorem tpr_client_options:
  assumes "tpr_runs (new_router u CLIENT kde port, st0) (r1, st1)"
    and "tpr_runs (r1, st1) (r2, st2)"
    and "u \<le> kMaxServerId" "written st0 = []" "sk_sid_store st0 = None"
  shows "sk_sid_store st1 \<noteq> Some 0 \<and> (sk_sid_store st1 = None \<or> sk_sid_store st2 = sk_sid_store st1) \<and>
    (\<forall>opt \<in> set (written st2). opt_kind opt = 0xB7 \<and> opt_len opt = 6 \<and> opt_server_id opt = 0)"
proof -
  have 1: "clt_inv st0 (r1, st1)"
    using assms(1)
  proof (induction rule: tpr_runs_induct)
    case init
    show ?case using assms by (simp add: clt_inv_def ctl_ok_new)
  next
    case (step b c)
    then show ?case using clt_inv_step by blast
  qed
  have "clt_inv st1 (r2, st2)"
    using assms(2)
  proof (induction rule: tpr_runs_induct)
    case init
    show ?case using 1 by (simp add: clt_inv_def)
  next
    case (step b c)
    then show ?case using clt_inv_step by blast
  qed
  then show ?thesis
    using 1 by (cases "sk_sid_store st1") (auto simp: clt_inv_def clt_opt_def)
qed

theorem tpr_client_options_witness:
  "let r = ref_loaded CLIENT 0;
       st1 = ref_packet r (ref_skops BPF_SOCK_OPS_ACTIVE_ESTABLISHED_CB 77) ref_conn;
       st2 = ref_packet r (ref_skops BPF_SOCK_OPS_WRITE_HDR_OPT_CB 0\<lparr>skb_tcp_flags := 0x10\<rparr>) st1
   in sk_sid_store st1 = Some 77 \<and> sk_sid_store st2 = Some 77 \<and> length (written st2) = 1 \<and>
      (\<forall>opt \<in> set (written st2). opt_server_id opt = 0)"
proof -
  define r where "r = ref_loaded CLIENT 0"
  define st1 where "st1 = ref_packet r (ref_skops BPF_SOCK_OPS_ACTIVE_ESTABLISHED_CB 77) ref_conn"
  define st2 where
    "st2 = ref_packet r (ref_skops BPF_SOCK_OPS_WRITE_HDR_OPT_CB 0\<lparr>skb_tcp_flags := 0x10\<rparr>) st1"
  have 1: "tpr_runs (new_router 0 CLIENT False None, ref_conn) (r, st1)"
    unfolding st1_def r_def by (rule tpr_runs_trans [OF ref_run_load ref_run_packet]) simp_all
  have 2: "tpr_runs (r, st1) (r, st2)"
    unfolding st2_def r_def by (rule ref_run_packet) simp
  have "0 \<le> kMaxServerId" "written ref_conn = []" "sk_sid_store ref_conn = None" by code_simp+
  moreover have "sk_sid_store st1 = Some 77" unfolding st1_def r_def by code_simp
  moreover have "length (written st2) = 1" unfolding st2_def st1_def r_def by code_simp
  ultimately show ?thesis
    unfolding Let_def r_def [symmetric] st1_def [symmetric] st2_def [symmetric]
    using tpr_client_options [OF 1 2] by simp
qed

definition flags_law :: "skops \<Rightarrow> bool" where
  "flags_law k \<longleftrightarrow> (\<forall>c n. hflags k c n = (0, n))"

lemma flags_set_law:
  "flags_law k \<Longrightarrow> flags_set k new st = (0, st\<lparr>cb_flags := new\<rparr>)"
  by (simp add: flags_law_def flags_set_def)

lemma bump_simps:
  "pstats st = Some s \<Longrightarrow> bump f st = st\<lparr>pstats := Some (f s)\<rparr>"
  by (simp add: bump_def)

text \<open>
  What the server does when a connection is established. Without the client's option it stops
  writing and parsing options and the connection counts as skipped; with its own id it stops too
  and counts a successful read; with any other id it counts a bad one and keeps on parsing.
\<close>

theorem tpr_server_established:
  assumes "flags_law k" "op k = BPF_SOCK_OPS_PASSIVE_ESTABLISHED_CB"
    and "pstats st = Some s" "sinfo st = Some si" "running_mode si = SERVER_MODE"
    and "port = 0 \<or> local_port k = port" "hload k TCP_HDR_OPT_KIND = (v, sid)"
  shows "tcp_pkt_router port k st = (CG_OK,
    if v < 0 then
      st\<lparr>pstats := Some (s\<lparr>no_tcp_opt_hdr := no_tcp_opt_hdr s + 1, conns_skipped := conns_skipped s + 1\<rparr>),
         cb_flags := (cb_flags st AND NOT WRITE_HDR_FLAG) AND NOT PARSE_HDR_FLAG\<rparr>
    else if sid = si_server_id si then
      st\<lparr>pstats := Some (s\<lparr>server_id_read := server_id_read s + 1\<rparr>),
         cb_flags := (cb_flags st AND NOT PARSE_HDR_FLAG) AND NOT WRITE_HDR_FLAG\<rparr>
    else
      st\<lparr>pstats := Some (s\<lparr>error_bad_id := error_bad_id s + 1\<rparr>),
         cb_flags := cb_flags st OR PARSE_HDR_FLAG\<rparr>)"
  using assms
  by (auto simp: tcp_pkt_router_def handle_passive_cb_def handle_passive_estab_def Let_def
      set_flags_defs flags_set_law bump_simps skip_conn_def)

theorem tpr_server_established_witness:
  "tcp_pkt_router 443 (ref_skops BPF_SOCK_OPS_PASSIVE_ESTABLISHED_CB 77)
     (ref_conn\<lparr>cb_flags := 0x60, sinfo := server_infos (ref_loaded SERVER 77)\<rparr>) =
   (CG_OK, ref_conn\<lparr>cb_flags := 0, sinfo := server_infos (ref_loaded SERVER 77),
      pstats := Some (zero_tpr_stats\<lparr>server_id_read := 1\<rparr>)\<rparr>)"
proof -
  let ?k = "ref_skops BPF_SOCK_OPS_PASSIVE_ESTABLISHED_CB 77"
  let ?si = "\<lparr>running_mode = 1, kde_enabled_field = 0, si_server_id = 77\<rparr> :: server_info"
  have si: "server_infos (ref_loaded SERVER 77) = Some ?si"
    by (simp add: ref_loaded_def router_init_def new_router_def ref_sys_def updateServerInfo_def
        server_info_of_def running_mode_code_def Let_def)
  have "tcp_pkt_router 443 ?k (ref_conn\<lparr>cb_flags := 0x60, sinfo := Some ?si\<rparr>) =
    (CG_OK, ref_conn\<lparr>cb_flags := (0x60 AND NOT PARSE_HDR_FLAG) AND NOT WRITE_HDR_FLAG, sinfo := Some ?si,
       pstats := Some (zero_tpr_stats\<lparr>server_id_read := 1\<rparr>)\<rparr>)"
    by (subst tpr_server_established [of ?k _ zero_tpr_stats ?si 443 6 77])
       (simp_all add: flags_law_def ref_skops_def ref_conn_def SERVER_MODE_def zero_tpr_stats_def)
  moreover have "(0x60 AND NOT PARSE_HDR_FLAG) AND NOT WRITE_HDR_FLAG = (0 :: u32)" by code_simp
  ultimately show ?thesis by (simp add: si)
qed

definition read_count :: "tpr_state \<Rightarrow> u64 option" where
  "read_count st = map_option server_id_read (pstats st)"

lemma read_bump [simp]:
  "(\<And>s. server_id_read (f s) = server_id_read s) \<Longrightarrow> read_count (bump f st) = read_count st"
  by (simp add: read_count_def bump_def option.map_comp comp_def)

lemma read_flags [simp]: "read_count (snd (flags_set k new st)) = read_count st"
  by (simp add: flags_set_def Let_def read_count_def bump_def option.map_comp comp_def
      split: prod.splits)

lemma read_written [simp]: "read_count (st\<lparr>written := w\<rparr>) = read_count st"
  by (simp add: read_count_def)

lemma read_store [simp]: "read_count (snd (store_hdr_opt k opt st)) = read_count st"
  by (simp add: store_hdr_opt_def Let_def)

lemma read_handlers [simp]:
  "read_count (snd (handle_hdr_opt_len k st)) = read_count st"
  "read_count (snd (handle_passive_write_hdr_opt k si st)) = read_count st"
  by (simp_all add: handle_hdr_opt_len_def handle_passive_write_hdr_opt_def Let_def split_beta)

text \<open>
  A server whose id is set never confirms a connection to a client that runs this program:
  such a client sends no option or one with the id 0 (the property before), and then no
  invocation of the server's program counts a read id or, once the connection is established,
  stops writing.
\<close>

theorem tpr_server_never_confirms:
  assumes "sinfo st = Some si" "running_mode si = SERVER_MODE" "si_server_id si \<noteq> 0"
    and "hload k TCP_HDR_OPT_KIND = (v, sid)" "v < 0 \<or> sid = 0"
  shows "map_option server_id_read (pstats (snd (tcp_pkt_router port k st))) =
    map_option server_id_read (pstats st)"
proof -
  have "read_count (snd (handle_passive_parse_hdr k si st)) = read_count st"
    "read_count (snd (handle_passive_estab k si st)) = read_count st"
    using assms
    by (auto simp: handle_passive_parse_hdr_def handle_passive_estab_def Let_def split_beta
        set_flags_defs)
  then have "read_count (snd (handle_passive_cb k si st)) = read_count st"
    by (simp add: handle_passive_cb_def set_flags_defs split: sock_op.splits)
  then have "read_count (snd (tcp_pkt_router port k st)) = read_count st"
    using assms by (simp add: tcp_pkt_router_def Let_def split_beta skip_conn_def)
  then show ?thesis by (simp add: read_count_def)
qed

theorem tpr_server_never_confirms_witness:
  "map_option server_id_read (pstats (snd (tcp_pkt_router 0 (ref_skops BPF_SOCK_OPS_PARSE_HDR_OPT_CB 0)
     (ref_conn\<lparr>sinfo := Some \<lparr>running_mode = 1, kde_enabled_field = 0, si_server_id = 77\<rparr>\<rparr>)))) = Some 0"
  by (subst tpr_server_never_confirms [where si = "\<lparr>running_mode = 1, kde_enabled_field = 0, si_server_id = 77\<rparr>"
        and v = 6 and sid = 0])
     (simp_all add: SERVER_MODE_def ref_skops_def ref_conn_def zero_tpr_stats_def)

text \<open>
  When the kernel refuses the update of the server info entry, setServerIdV6 reports the
  failure, but the object has already taken the new id: every further call with that id reports
  success and does not touch the entry, whatever the kernel would do.
\<close>

theorem tpr_set_id_retry:
  assumes "mode r = SERVER" "isInitialized r" "i \<le> kMaxServerId" "v6Id r \<noteq> i" "\<not> sys_update s"
  shows "\<exists>r'. setServerIdV6 s i r = Some (False, r') \<and> server_infos r' = server_infos r \<and>
    (\<forall>s'. setServerIdV6 s' i r' = Some (True, r'))"
  using assms by (auto simp: setServerIdV6_def updateServerInfo_def)

theorem tpr_set_id_retry_witness:
  "\<exists>r'. setServerIdV6 (ref_sys\<lparr>sys_update := False\<rparr>) 78 (ref_loaded SERVER 77) = Some (False, r') \<and>
     setServerIdV6 ref_sys 78 r' = Some (True, r') \<and>
     server_infos r' = Some \<lparr>running_mode = 1, kde_enabled_field = 0, si_server_id = 77\<rparr>"
proof -
  have "mode (ref_loaded SERVER 77) = SERVER" "isInitialized (ref_loaded SERVER 77)"
    "(78 :: u32) \<le> kMaxServerId" "v6Id (ref_loaded SERVER 77) \<noteq> 78"
    "\<not> sys_update (ref_sys\<lparr>sys_update := False\<rparr>)"
    "server_infos (ref_loaded SERVER 77) = Some \<lparr>running_mode = 1, kde_enabled_field = 0, si_server_id = 77\<rparr>"
    by code_simp+
  then show ?thesis using tpr_set_id_retry by metis
qed

text \<open>
  When the same update fails while the program is loaded, init reports an error with the
  program attached to the cgroup, shutdown has no effect on it, and init can never succeed on
  this object again.
\<close>

theorem tpr_init_failure_leaves_attached:
  assumes "\<not> isInitialized r" "\<not> skel_open r" "sys_init s" "sys_open s" "sys_load s"
    and "sys_prog_fd s \<ge> 0" "sys_attach s" "\<not> sys_update s"
  shows "\<exists>r'. router_init s poll r = Some (False, r') \<and> attached r' = attached r + 1 \<and>
    (\<forall>s'. router_shutdown s' r' = (True, r')) \<and> (\<forall>s' p. router_init s' p r' = Some (False, r'))"
  using assms
  by (auto simp: router_init_def updateServerInfo_def router_shutdown_def Let_def split: option.splits)

theorem tpr_init_failure_leaves_attached_witness:
  "\<exists>r'. router_init (ref_sys\<lparr>sys_update := False\<rparr>) False (new_router 77 SERVER False None) = Some (False, r') \<and>
     attached r' = 1 \<and> router_shutdown ref_sys r' = (True, r')"
proof -
  let ?r = "new_router 77 SERVER False None" and ?s = "ref_sys\<lparr>sys_update := False\<rparr>"
  have "\<not> isInitialized ?r" "\<not> skel_open ?r" "sys_init ?s" "sys_open ?s" "sys_load ?s"
    "sys_prog_fd ?s \<ge> 0" "sys_attach ?s" "\<not> sys_update ?s" "attached ?r = 0"
    by (simp_all add: new_router_def ref_sys_def)
  note h = this
  obtain r' where "router_init ?s False ?r = Some (False, r')" "attached r' = attached ?r + 1"
    "\<forall>s'. router_shutdown s' r' = (True, r')"
    using tpr_init_failure_leaves_attached [OF h(1-8), of False] by (elim exE conjE) (rule that)
  then show ?thesis using h(9) by (intro exI [of _ r']) simp
qed

section \<open>The statistics poller\<close>

lemma fold_add_tpr_stats:
  "server_id_read (fold (\<lambda>s a. add_tpr_stats a s) xs a) = server_id_read a + sum_list (map server_id_read xs)"
  "server_id_set (fold (\<lambda>s a. add_tpr_stats a s) xs a) = server_id_set a + sum_list (map server_id_set xs)"
  "conns_skipped (fold (\<lambda>s a. add_tpr_stats a s) xs a) = conns_skipped a + sum_list (map conns_skipped xs)"
  "no_tcp_opt_hdr (fold (\<lambda>s a. add_tpr_stats a s) xs a) = no_tcp_opt_hdr a + sum_list (map no_tcp_opt_hdr xs)"
  "error_bad_id (fold (\<lambda>s a. add_tpr_stats a s) xs a) = error_bad_id a + sum_list (map error_bad_id xs)"
  "error_write_opt (fold (\<lambda>s a. add_tpr_stats a s) xs a) = error_write_opt a + sum_list (map error_write_opt xs)"
  "error_sys_calls (fold (\<lambda>s a. add_tpr_stats a s) xs a) = error_sys_calls a + sum_list (map error_sys_calls xs)"
  by (induction xs arbitrary: a) (simp_all add: add_tpr_stats_def add.assoc)

text \<open>
  On a machine whose possible CPUs are 0 to n, the poller's array has one element for each,
  so that the lookup neither overflows it nor leaves an element without a value, and the result
  is the sum over the CPUs.
\<close>

theorem tpr_poller_sums_cpus:
  assumes "fd \<ge> 0" "n < 2 ^ 31 - 1" "length cpus = unat n + 1"
  shows "\<exists>c a. getCpuCount (Some [0, n]) = Inr c \<and> collectTPRStats unset fd (Some cpus) c = Some (Inr a) \<and>
    server_id_read a = sum_list (map server_id_read cpus) \<and>
    server_id_set a = sum_list (map server_id_set cpus) \<and>
    conns_skipped a = sum_list (map conns_skipped cpus) \<and>
    error_bad_id a = sum_list (map error_bad_id cpus)"
proof -
  have u: "uint (n + 1) = uint n + 1"
    using assms(2) by (simp add: word_less_def uint_word_ariths)
  have "uint n + 1 < 2 ^ 31" using assms(2) by (simp add: word_less_def)
  then have "sint (n + 1) = uint n + 1"
    using u by (simp add: sint_uint signed_take_bit_int_eq_self)
  then have "sint (n + 1) = int (length cpus)"
    unfolding assms(3) unat_eq_nat_uint by simp
  then have c: "getCpuCount (Some [0, n]) = Inr (int (length cpus))"
    by (simp add: getCpuCount_def)
  show ?thesis
    using assms(1) by (simp add: c collectTPRStats_def fold_add_tpr_stats zero_tpr_stats_def)
qed

theorem tpr_poller_sums_cpus_witness:
  "\<exists>c a. getCpuCount (Some [0, 1]) = Inr c \<and>
     collectTPRStats (\<lambda>_. zero_tpr_stats) 4 (Some [zero_tpr_stats\<lparr>server_id_read := 2\<rparr>, zero_tpr_stats\<lparr>server_id_read := 3\<rparr>]) c
       = Some (Inr a) \<and> server_id_read a = 5"
  using tpr_poller_sums_cpus [of 4 1
      "[zero_tpr_stats\<lparr>server_id_read := 2\<rparr>, zero_tpr_stats\<lparr>server_id_read := 3\<rparr>]"
      "\<lambda>_. zero_tpr_stats"] by auto

end
