(* ===== verification/Vip.thy ===== *)
theory Vip
  imports Maglev "HOL-Library.AList"
begin

text \<open>
  Vip.cpp: one virtual IP with its reals, their weights and its hash ring. reals is an
  association list without duplicates; its order is the iteration order of the unordered_map,
  which C++ leaves open. The hash function is an argument gen, as the class holds a pointer to
  the interface ConsistentHash; None is a hash function that does not return. std::sort on
  endpoints of equal hashes may give any order, sort_key keeps the one of the list.
\<close>

section \<open>Vip.h\<close>

record real_pos =
  rp_real :: u32
  rp_pos :: u32

datatype modify_action = ADD | DEL

record update_real =
  action :: modify_action
  updatedReal :: endpoint

record vip_real_meta =
  weight :: u32
  hash :: u64

record vip =
  vipNum :: u32
  vipFlags :: u32
  chRingSize :: u32
  vip_reals :: "(u32 \<times> vip_real_meta) list"
  chRing :: "int list"
  chash :: hash_function

type_synonym hash_gen = "hash_function \<Rightarrow> endpoint list \<Rightarrow> u32 \<Rightarrow> int list option"

definition new_vip :: "u32 \<Rightarrow> u32 \<Rightarrow> u32 \<Rightarrow> hash_function \<Rightarrow> vip" where
  "new_vip num flags ringSize func =
     \<lparr>vipNum = num, vipFlags = flags, chRingSize = ringSize, vip_reals = [],
      chRing = replicate (unat ringSize) (- 1), chash = func\<rparr>"

definition setVipFlags :: "u32 \<Rightarrow> vip \<Rightarrow> vip" where
  "setVipFlags flags v = v\<lparr>vipFlags := vipFlags v OR flags\<rparr>"

definition clearVipFlags :: "vip \<Rightarrow> vip" where
  "clearVipFlags v = v\<lparr>vipFlags := 0\<rparr>"

definition unsetVipFlags :: "u32 \<Rightarrow> vip \<Rightarrow> vip" where
  "unsetVipFlags flags v = v\<lparr>vipFlags := vipFlags v AND NOT flags\<rparr>"

definition setHashFunction :: "hash_function \<Rightarrow> vip \<Rightarrow> vip" where
  "setHashFunction func v = v\<lparr>chash := func\<rparr>"

section \<open>Vip.cpp\<close>

text \<open>The loop of calculateHashRing: the slots that changed, and the ring with them stored.\<close>

definition ring_delta :: "int list \<Rightarrow> nat \<Rightarrow> int list \<Rightarrow> real_pos list \<times> int list" where
  "ring_delta new n old =
     fold (\<lambda>i (delta, ring).
        if new ! i \<noteq> ring ! i
        then (delta @ [\<lparr>rp_real = word_of_int (new ! i), rp_pos = of_nat i\<rparr>], ring[i := new ! i])
        else (delta, ring)) [0..<n] ([], old)"

definition calculateHashRing :: "hash_gen \<Rightarrow> endpoint list \<Rightarrow> vip \<Rightarrow> (real_pos list \<times> vip) option" where
  "calculateHashRing gen endpoints v =
     (if endpoints \<noteq> [] then
        (case gen (chash v) endpoints (chRingSize v) of
           None \<Rightarrow> None
         | Some new_ch_ring \<Rightarrow>
             let (delta, ring) = ring_delta new_ch_ring (unat (chRingSize v)) (chRing v)
             in Some (delta, v\<lparr>chRing := ring\<rparr>))
      else Some ([], v))"

text \<open>reals_[num] inserts an entry of zeros when there is none.\<close>

definition real_at :: "u32 \<Rightarrow> (u32 \<times> vip_real_meta) list \<Rightarrow> vip_real_meta" where
  "real_at num rs = (case map_of rs num of Some m \<Rightarrow> m | None \<Rightarrow> \<lparr>weight = 0, hash = 0\<rparr>)"

definition touch_real :: "u32 \<Rightarrow> (u32 \<times> vip_real_meta) list \<Rightarrow> (u32 \<times> vip_real_meta) list" where
  "touch_real num rs = (if map_of rs num = None then AList.update num \<lparr>weight = 0, hash = 0\<rparr> rs else rs)"

definition apply_ureal ::
  "update_real \<Rightarrow> (u32 \<times> vip_real_meta) list \<times> bool \<Rightarrow> (u32 \<times> vip_real_meta) list \<times> bool" where
  "apply_ureal u s =
     (let (rs, reals_changed) = s; e = updatedReal u
      in if action u = DEL then (AList.delete (ep_num e) rs, True)
         else
           let cur_weight = weight (real_at (ep_num e) rs);
               rs = touch_real (ep_num e) rs
           in if cur_weight \<noteq> ep_weight e
              then (AList.update (ep_num e) \<lparr>weight = ep_weight e, hash = ep_hash e\<rparr> rs, True)
              else (rs, reals_changed))"

definition real_endpoint :: "u32 \<times> vip_real_meta \<Rightarrow> endpoint" where
  "real_endpoint r = \<lparr>ep_num = fst r, ep_weight = weight (snd r), ep_hash = hash (snd r)\<rparr>"

definition getEndpoints :: "update_real list \<Rightarrow> vip \<Rightarrow> endpoint list \<times> vip" where
  "getEndpoints ureals v =
     (let (rs, reals_changed) = fold apply_ureal ureals (vip_reals v, False);
          v = v\<lparr>vip_reals := rs\<rparr>
      in if reals_changed
         then (sort_key ep_hash (map real_endpoint (filter (\<lambda>r. weight (snd r) \<noteq> 0) rs)), v)
         else ([], v))"

definition batchRealsUpdate :: "hash_gen \<Rightarrow> update_real list \<Rightarrow> vip \<Rightarrow> (real_pos list \<times> vip) option" where
  "batchRealsUpdate gen ureals v =
     (let (endpoints, v) = getEndpoints ureals v in calculateHashRing gen endpoints v)"

definition getReals :: "vip \<Rightarrow> u32 list" where
  "getReals v = map fst (vip_reals v)"

definition getRealsAndWeight :: "vip \<Rightarrow> endpoint list" where
  "getRealsAndWeight v = sort_key ep_hash (map real_endpoint (vip_reals v))"

definition recalculateHashRing :: "hash_gen \<Rightarrow> vip \<Rightarrow> (real_pos list \<times> vip) option" where
  "recalculateHashRing gen v = calculateHashRing gen (getRealsAndWeight v) v"

definition addReal :: "hash_gen \<Rightarrow> endpoint \<Rightarrow> vip \<Rightarrow> (real_pos list \<times> vip) option" where
  "addReal gen real v = batchRealsUpdate gen [\<lparr>action = ADD, updatedReal = real\<rparr>] v"

text \<open>The weight and the hash of the UpdateReal of delReal have no value; they are not read.\<close>

definition delReal :: "hash_gen \<Rightarrow> endpoint \<Rightarrow> u32 \<Rightarrow> vip \<Rightarrow> (real_pos list \<times> vip) option" where
  "delReal gen unset realNum v =
     batchRealsUpdate gen [\<lparr>action = DEL, updatedReal = unset\<lparr>ep_num := realNum\<rparr>\<rparr>] v"

end
