(* ===== verification/MaglevProps.thy ===== *)
theory MaglevProps
  imports Maglev
begin

text \<open>
  The hash functions of the consistent hashing terminate and fill the ring, and the second
  version divides it in proportion to the weights.
\<close>

section \<open>The law of the permutation and the invariant of the ring\<close>

definition perm_law :: "u32 \<Rightarrow> nat \<Rightarrow> (nat \<Rightarrow> u32 \<Rightarrow> nat) \<Rightarrow> bool" where
  "perm_law M n cur \<longleftrightarrow>
     (\<forall>i < n. bij_betw (\<lambda>k. cur i (of_nat k)) {..<unat M} {..<unat M})"

definition filled :: "int list \<Rightarrow> nat" where
  "filled r = length (filter (\<lambda>x. x \<ge> 0) r)"

definition nums_ok :: "endpoint list \<Rightarrow> bool" where
  "nums_ok es \<longleftrightarrow> (\<forall>e \<in> set es. sint (ep_num e) \<ge> 0)"

definition slot_of :: "endpoint list \<Rightarrow> int \<Rightarrow> bool" where
  "slot_of es x \<longleftrightarrow> (\<exists>e \<in> set es. x = sint (ep_num e))"

definition ring_inv ::
  "u32 \<Rightarrow> (nat \<Rightarrow> u32 \<Rightarrow> nat) \<Rightarrow> endpoint list \<Rightarrow> ring_state \<Rightarrow> bool" where
  "ring_inv M cur es s \<longleftrightarrow>
     length (rs_result s) = unat M \<and> length (rs_next s) = length es \<and>
     (\<forall>x \<in> set (rs_result s). x = - 1 \<or> slot_of es x) \<and>
     unat (rs_runs s) = filled (rs_result s) \<and> filled (rs_result s) < unat M \<and>
     (\<forall>i < length es. \<forall>k < unat (rs_next s ! i). rs_result s ! cur i (of_nat k) \<ge> 0)"

definition ring_full :: "u32 \<Rightarrow> endpoint list \<Rightarrow> int list \<Rightarrow> bool" where
  "ring_full M es r \<longleftrightarrow> length r = unat M \<and> (\<forall>x \<in> set r. slot_of es x)"

lemma filled_le: "filled r \<le> length r"
  by (simp add: filled_def)

lemma filled_update:
  "p < length r \<Longrightarrow> r ! p < 0 \<Longrightarrow> x \<ge> 0 \<Longrightarrow> filled (r[p := x]) = filled r + 1"
proof (induction r arbitrary: p)
  case Nil
  then show ?case by simp
next
  case (Cons a r)
  then show ?case by (cases p) (auto simp: filled_def)
qed

lemma filled_empty_slot: "filled r < length r \<Longrightarrow> \<exists>p < length r. r ! p < 0"
proof (rule ccontr)
  assume a: "filled r < length r" and "\<not> (\<exists>p < length r. r ! p < 0)"
  then have "\<forall>x \<in> set r. x \<ge> 0" by (metis in_set_conv_nth linorder_not_less)
  then have "filter (\<lambda>x. x \<ge> 0) r = r" by (simp add: filter_id_conv)
  with a show False by (simp add: filled_def)
qed

lemma filled_all: "filled r = length r \<Longrightarrow> x \<in> set r \<Longrightarrow> x \<ge> 0"
  by (metis filled_def filter_empty_conv length_filter_less less_irrefl)

lemma unat_Suc_small:
  assumes "unat (n :: u32) < unat (M :: u32)"
  shows "unat (n + 1) = unat n + 1"
proof -
  have "unat n + 1 < 2 ^ 32"
    using assms unat_less [of M] by simp
  then show ?thesis by (simp add: unat_word_ariths)
qed

lemma probe_finds:
  assumes "unat n \<le> k" "k < unat (M :: u32)" "result ! c (of_nat k) < 0" "k - unat n < fuel"
  shows "\<exists>n'. probe fuel c result n = Some n' \<and> unat n' \<le> k \<and> unat n \<le> unat n' \<and>
    result ! c n' < 0 \<and> (\<forall>j. unat n \<le> j \<and> j < unat n' \<longrightarrow> result ! c (of_nat j) \<ge> 0)"
  using assms
proof (induction fuel arbitrary: n)
  case 0
  then show ?case by simp
next
  case (Suc fuel)
  show ?case
  proof (cases "result ! c n \<ge> 0")
    case False
    then show ?thesis using Suc.prems by auto
  next
    case True
    then have "unat n \<noteq> k" using Suc.prems(3) by auto
    then have lt: "unat n < k" using Suc.prems(1) by simp
    then have n1: "unat (n + 1) = unat n + 1"
      using Suc.prems(2) unat_Suc_small [of n M] by simp
    obtain n' where n': "probe fuel c result (n + 1) = Some n'" "unat n' \<le> k" "unat (n + 1) \<le> unat n'"
      "result ! c n' < 0" "\<forall>j. unat (n + 1) \<le> j \<and> j < unat n' \<longrightarrow> result ! c (of_nat j) \<ge> 0"
    proof -
      have "k - unat (n + 1) < fuel" "unat (n + 1) \<le> k" using Suc.prems(4) lt n1 by linarith+
      then show ?thesis using Suc.IH [of "n + 1"] Suc.prems that by blast
    qed
    have "\<forall>j. unat n \<le> j \<and> j < unat n' \<longrightarrow> result ! c (of_nat j) \<ge> 0"
    proof (intro allI impI)
      fix j assume "unat n \<le> j \<and> j < unat n'"
      then show "result ! c (of_nat j) \<ge> 0"
        using n'(5) True n1 by (cases "j = unat n") auto
    qed
    then show ?thesis using True n' n1 by auto
  qed
qed

text \<open>What one filled slot does to the result and the invariant.\<close>

definition fills :: "u32 \<Rightarrow> endpoint list \<Rightarrow> int \<Rightarrow> int list \<Rightarrow> int list \<Rightarrow> bool" where
  "fills M es x r r' \<longleftrightarrow> (\<exists>p < unat M. r ! p < 0 \<and> r' = r[p := x])"

lemma fill_slot_inv:
  assumes law: "perm_law M (length es) cur" and inv: "ring_inv M cur es s"
    and i: "i < length es" and num: "num = ep_num (es ! i)" and ok: "nums_ok es"
    and fuel: "fuel \<ge> unat M"
  shows "\<exists>r'. fills M es (sint num) (rs_result s) r' \<and>
    ((fill_slot fuel cur M i num s = Some (Done r') \<and> ring_full M es r') \<or>
     (\<exists>s'. fill_slot fuel cur M i num s = Some (More s') \<and> rs_result s' = r' \<and> ring_inv M cur es s'))"
proof -
  let ?r = "rs_result s" and ?n = "rs_next s ! i"
  have bij: "bij_betw (\<lambda>k. cur j (of_nat k)) {..<unat M} {..<unat M}" if "j < length es" for j
    using law that by (simp add: perm_law_def)
  have len: "length ?r = unat M" "length (rs_next s) = length es" "filled ?r < unat M"
    "unat (rs_runs s) = filled ?r" "\<forall>x \<in> set ?r. x = - 1 \<or> slot_of es x"
    and nxt: "\<And>j k. j < length es \<Longrightarrow> k < unat (rs_next s ! j) \<Longrightarrow> ?r ! cur j (of_nat k) \<ge> 0"
    using inv by (auto simp: ring_inv_def)
  obtain p where p: "p < unat M" "?r ! p < 0" using filled_empty_slot [of ?r] len by auto
  then obtain k where k: "k < unat M" "cur i (of_nat k) = p"
    using bij [OF i] by (metis (no_types, lifting) bij_betw_imp_surj_on imageE lessThan_iff)
  have "unat ?n \<le> k" using nxt [OF i, of k] p k by (meson linorder_not_less)
  then obtain n' where n': "probe fuel (cur i) ?r ?n = Some n'" "unat n' \<le> k" "unat ?n \<le> unat n'"
    "?r ! cur i n' < 0" "\<forall>j. unat ?n \<le> j \<and> j < unat n' \<longrightarrow> ?r ! cur i (of_nat j) \<ge> 0"
  proof -
    have "k - unat ?n < fuel" using k(1) fuel by linarith
    then show ?thesis
      using probe_finds [of ?n k M ?r "cur i" fuel] \<open>unat ?n \<le> k\<close> k p that by blast
  qed
  have pos: "cur i n' < unat M"
    using bspec [OF bij_betwE [OF bij [OF i]], of "unat n'"] n'(2) k(1) by simp
  have x: "sint num \<ge> 0" "slot_of es (sint num)"
    using ok i num by (auto simp: nums_ok_def slot_of_def)
  let ?r' = "?r[cur i n' := sint num]" and ?next' = "(rs_next s)[i := n' + 1]"
  have n1: "unat (n' + 1) = unat n' + 1" using unat_Suc_small [of n' M] n'(2) k(1) by simp
  have f': "filled ?r' = filled ?r + 1"
    using filled_update [of "cur i n'" ?r "sint num"] pos len(1) n'(4) x by simp
  have runs: "unat (rs_runs s + 1) = filled ?r'"
    using unat_Suc_small [of "rs_runs s" M] len f' by simp
  have vals: "\<forall>x \<in> set ?r'. x = - 1 \<or> slot_of es x"
    using len(5) x(2) by (auto dest: subsetD [OF set_update_subset_insert])
  have nxt': "?r' ! cur j (of_nat m) \<ge> 0"
    if j: "j < length es" and m: "m < unat (?next' ! j)" for j m
  proof (cases "cur j (of_nat m) = cur i n'")
    case True
    then show ?thesis using x(1) pos len(1) by simp
  next
    case ne: False
    have "?r ! cur j (of_nat m) \<ge> 0"
    proof (cases "j = i")
      case True
      then have "m < unat n' + 1" using m n1 i len(2) by simp
      moreover have "m \<noteq> unat n'" using ne True by auto
      ultimately show ?thesis
        using n'(5) nxt [OF i, of m] True by (cases "unat ?n \<le> m") auto
    next
      case False
      then show ?thesis using m nxt [OF j, of m] by simp
    qed
    then show ?thesis using ne by simp
  qed
  have fl: "fills M es (sint num) ?r ?r'" using pos n'(4) by (auto simp: fills_def)
  show ?thesis
  proof (cases "rs_runs s + 1 = M")
    case True
    then have "filled ?r' = length ?r'" using runs len(1) by simp
    then have "ring_full M es ?r'"
      using vals len(1) filled_all [of ?r'] by (fastforce simp: ring_full_def)
    then show ?thesis using fl True n'(1) by (auto simp: fill_slot_def Let_def)
  next
    case False
    then have "filled ?r' \<noteq> unat M" using runs by (metis word_unat_eq_iff)
    then have "filled ?r' < unat M" using f' len(3) by simp
    then have "ring_inv M cur es (s\<lparr>rs_result := ?r', rs_next := ?next', rs_runs := rs_runs s + 1\<rparr>)"
      using len vals runs nxt' by (simp add: ring_inv_def)
    then show ?thesis using fl False n'(1) by (auto simp: fill_slot_def Let_def)
  qed
qed

lemma filled_fills:
  "fills M es (sint num) r r' \<Longrightarrow> length r = unat M \<Longrightarrow> sint num \<ge> 0 \<Longrightarrow> filled r' = filled r + 1"
  by (auto simp: fills_def filled_update)

lemma ring_inv_length: "ring_inv M cur es s \<Longrightarrow> length (rs_result s) = unat M"
  by (simp add: ring_inv_def)

text \<open>The permutations divide by the size of the ring and by its predecessor.\<close>

lemma permutations_divide:
  "list_ex (\<lambda>e. genMaglevPermutation e M = None) es \<longleftrightarrow> es \<noteq> [] \<and> (M = 0 \<or> M = 1)"
  by (cases es) (auto simp: genMaglevPermutation_def Let_def list_ex_iff)

section \<open>The first version\<close>

text \<open>
  good s n r says what a part of the loops returns from the state s: the full ring, or a state
  with the invariant and n more slots filled (at least).
\<close>

definition good ::
  "u32 \<Rightarrow> (nat \<Rightarrow> u32 \<Rightarrow> nat) \<Rightarrow> endpoint list \<Rightarrow> ring_state \<Rightarrow> nat \<Rightarrow> ring_step option \<Rightarrow> bool" where
  "good M cur es s n r \<longleftrightarrow> (case r of
     None \<Rightarrow> False
   | Some (Done ring) \<Rightarrow> ring_full M es ring
   | Some (More s') \<Rightarrow> ring_inv M cur es s' \<and> filled (rs_result s) + n \<le> filled (rs_result s'))"

lemma good_fill_slot:
  assumes "perm_law M (length es) cur" "ring_inv M cur es s" "i < length es"
    "num = ep_num (es ! i)" "nums_ok es" "fuel \<ge> unat M"
  shows "good M cur es s 1 (fill_slot fuel cur M i num s)"
proof -
  have "sint num \<ge> 0" using assms(3-5) by (auto simp: nums_ok_def)
  with fill_slot_inv [OF assms] filled_fills [of M es num "rs_result s"] ring_inv_length [OF assms(2)]
  show ?thesis by (auto simp: good_def)
qed

lemma good_trans:
  "good M cur es s n (Some (More s')) \<Longrightarrow> good M cur es s' m r \<Longrightarrow> good M cur es s (n + m) r"
  by (auto simp: good_def split: option.splits ring_step.splits)

lemma good_v1_weight:
  assumes "perm_law M (length es) cur" "i < length es" "num = ep_num (es ! i)" "nums_ok es"
    "fuel \<ge> unat M" "ring_inv M cur es s"
  shows "good M cur es s j (v1_weight fuel cur M i num j s)"
  using assms(6)
proof (induction j arbitrary: s)
  case 0
  then show ?case by (simp add: good_def)
next
  case (Suc j)
  have f: "good M cur es s 1 (fill_slot fuel cur M i num s)"
    using good_fill_slot [OF assms(1) Suc.prems assms(2-5)] .
  show ?case
  proof (cases "fill_slot fuel cur M i num s")
    case None
    with f show ?thesis by (simp add: good_def)
  next
    case (Some r)
    show ?thesis
    proof (cases r)
      case (Done ring)
      with f Some show ?thesis by (simp add: good_def)
    next
      case (More s')
      then have "ring_inv M cur es s'" using f Some by (simp add: good_def)
      from good_trans [OF f [unfolded Some More] Suc.IH [OF this]]
      show ?thesis using Some More by simp
    qed
  qed
qed

lemma good_v1_round:
  assumes "perm_law M (length es) cur" "nums_ok es" "fuel \<ge> unat M" "ring_inv M cur es s"
    "map ep_num es' = drop i (map ep_num es)"
  shows "good M cur es s (\<Sum>e\<leftarrow>es'. unat (ep_weight e)) (v1_round fuel cur M i es' s)"
  using assms(4,5)
proof (induction es' arbitrary: i s)
  case Nil
  then show ?case by (simp add: good_def)
next
  case (Cons e es')
  have i: "i < length es" using Cons.prems(2) by (cases "i < length es") auto
  have d: "ep_num e = ep_num (es ! i)" "map ep_num es' = drop (i + 1) (map ep_num es)"
  proof -
    have "drop i (map ep_num es) = ep_num (es ! i) # drop (i + 1) (map ep_num es)"
      using i Cons_nth_drop_Suc [of i "map ep_num es"] by simp
    then show "ep_num e = ep_num (es ! i)" "map ep_num es' = drop (i + 1) (map ep_num es)"
      using Cons.prems(2) by simp_all
  qed
  have f: "good M cur es s (unat (ep_weight e)) (v1_weight fuel cur M i (ep_num e) (unat (ep_weight e)) s)"
    using good_v1_weight [OF assms(1) i d(1) assms(2,3) Cons.prems(1)] .
  show ?case
  proof (cases "v1_weight fuel cur M i (ep_num e) (unat (ep_weight e)) s")
    case None
    with f show ?thesis by (simp add: good_def)
  next
    case (Some r)
    show ?thesis
    proof (cases r)
      case (Done ring)
      with f Some show ?thesis by (simp add: good_def)
    next
      case (More s')
      then have "ring_inv M cur es s'" using f Some by (simp add: good_def)
      from good_trans [OF f [unfolded Some More] Cons.IH [OF this d(2)]]
      show ?thesis using Some More by simp
    qed
  qed
qed

lemma v1_rounds_ones:
  assumes "perm_law M (length es) cur" "nums_ok es" "fuel \<ge> unat M" "es \<noteq> []"
    "map ep_num es' = map ep_num es" "\<forall>e \<in> set es'. ep_weight e = 1"
    "ring_inv M cur es s" "unat M - filled (rs_result s) \<le> k"
  shows "\<exists>r. v1_rounds k fuel cur M es' s = Some r \<and> ring_full M es r"
  using assms(5-8)
proof (induction k arbitrary: s es')
  case 0
  then show ?case by (simp add: ring_inv_def)
next
  case (Suc k)
  have "(\<Sum>e\<leftarrow>es'. unat (ep_weight e)) = length es'"
    using Suc.prems(2) by (induction es') auto
  moreover have "length es' = length es" using Suc.prems(1) by (metis length_map)
  ultimately have g: "good M cur es s (length es) (v1_round fuel cur M 0 es' s)"
    using good_v1_round [OF assms(1-3) Suc.prems(3), of es' 0] Suc.prems(1) by simp
  show ?case
  proof (cases "v1_round fuel cur M 0 es' s")
    case None
    with g show ?thesis by (simp add: good_def)
  next
    case (Some r)
    show ?thesis
    proof (cases r)
      case (Done ring)
      with g Some show ?thesis by (simp add: good_def)
    next
      case (More s')
      then have s': "ring_inv M cur es s'" "filled (rs_result s) + length es \<le> filled (rs_result s')"
        using g Some by (simp_all add: good_def)
      have "length es > 0" using assms(4) by simp
      then have "unat M - filled (rs_result s') \<le> k" using s'(2) Suc.prems(4) by linarith
      then show ?thesis
        using Suc.IH [of "map (\<lambda>e. e\<lparr>ep_weight := 1\<rparr>) es'" s'] s'(1) Suc.prems(1) Some More
        by (simp add: comp_def)
    qed
  qed
qed

lemma init_ring_inv:
  assumes "M > 0"
  shows "ring_inv M cur es (init_ring es M)" "filled (rs_result (init_ring es M)) = 0"
  using assms by (auto simp: ring_inv_def init_ring_def filled_def word_greater_zero_iff unat_gt_0)

lemma v1_total:
  assumes "perm_law M (length es) cur" "nums_ok es" "M > 1" "es \<noteq> []" "length es \<noteq> 1"
  shows "\<exists>r. maglev_generateHashRing cur es M = Some r \<and> ring_full M es r"
proof -
  let ?s = "init_ring es M" and ?f = "ring_fuel M"
  have pos: "M > 0" using assms(3) by (simp add: word_less_nat_alt)
  have f: "?f \<ge> unat M" "?f = Suc (unat M + 1)" by (simp_all add: ring_fuel_def)
  have g: "good M cur es ?s (\<Sum>e\<leftarrow>es. unat (ep_weight e)) (v1_round ?f cur M 0 es ?s)"
    using good_v1_round [OF assms(1,2) f(1) init_ring_inv(1) [OF pos], of es 0] by simp
  have unf: "v1_rounds ?f ?f cur M es ?s = (case v1_round ?f cur M 0 es ?s of
        None \<Rightarrow> None
      | Some (Done r) \<Rightarrow> Some r
      | Some (More s') \<Rightarrow> v1_rounds (unat M + 1) ?f cur M (map (\<lambda>e. e\<lparr>ep_weight := 1\<rparr>) es) s')"
    by (metis f(2) v1_rounds.simps(2))
  have "\<exists>r. v1_rounds ?f ?f cur M es ?s = Some r \<and> ring_full M es r"
  proof (cases "v1_round ?f cur M 0 es ?s")
    case None
    with g show ?thesis by (simp add: good_def)
  next
    case (Some r)
    show ?thesis
    proof (cases r)
      case (Done ring)
      with g Some show ?thesis unfolding unf by (simp add: good_def)
    next
      case (More s')
      then have "ring_inv M cur es s'" using g Some by (simp add: good_def)
      then have "\<exists>r. v1_rounds (unat M + 1) ?f cur M (map (\<lambda>e. e\<lparr>ep_weight := 1\<rparr>) es) s' = Some r \<and>
          ring_full M es r"
        by (intro v1_rounds_ones [OF assms(1,2) f(1) assms(4)]) (simp_all add: comp_def)
      moreover have "v1_rounds ?f ?f cur M es ?s =
          v1_rounds (unat M + 1) ?f cur M (map (\<lambda>e. e\<lparr>ep_weight := 1\<rparr>) es) s'"
        using Some More unfolding unf by simp
      ultimately show ?thesis by simp
    qed
  qed
  then show ?thesis using assms(3-5) by (auto simp: maglev_generateHashRing_def permutations_divide)
qed

section \<open>The second version\<close>

lemma max_weight_fold:
  "fold (\<lambda>e m. if ep_weight e > m then ep_weight e else m) es m \<ge> m \<and>
   (\<forall>e \<in> set es. ep_weight e \<le> fold (\<lambda>e m. if ep_weight e > m then ep_weight e else m) es m) \<and>
   (fold (\<lambda>e m. if ep_weight e > m then ep_weight e else m) es m = m \<or>
    (\<exists>e \<in> set es. ep_weight e = fold (\<lambda>e m. if ep_weight e > m then ep_weight e else m) es m))"
proof (induction es arbitrary: m)
  case Nil
  then show ?case by simp
next
  case (Cons e es)
  show ?case
    using Cons.IH [of "if ep_weight e > m then ep_weight e else m"] by (auto split: if_splits)
qed

lemma max_weight:
  "e \<in> set es \<Longrightarrow> ep_weight e \<le> v2_max_weight es"
  "es \<noteq> [] \<Longrightarrow> \<exists>e \<in> set es. ep_weight e = v2_max_weight es"
proof -
  show "e \<in> set es \<Longrightarrow> ep_weight e \<le> v2_max_weight es"
    using max_weight_fold [of 0 es] by (simp add: v2_max_weight_def)
  assume "es \<noteq> []"
  then obtain e where e: "e \<in> set es" by (cases es) auto
  show "\<exists>e \<in> set es. ep_weight e = v2_max_weight es"
  proof (cases "v2_max_weight es = 0")
    case True
    then show ?thesis using e max_weight_fold [of 0 es] by (force simp: v2_max_weight_def)
  next
    case False
    then show ?thesis using max_weight_fold [of 0 es] by (auto simp: v2_max_weight_def)
  qed
qed

text \<open>
  The accumulated weights: an endpoint of the maximal weight starts every round with 0, and so
  gets a slot in every round.
\<close>

definition cum_ok :: "endpoint list \<Rightarrow> u32 \<Rightarrow> u32 list \<Rightarrow> bool" where
  "cum_ok es mw cum \<longleftrightarrow> length cum = length es \<and>
     (\<forall>j < length es. ep_weight (es ! j) = mw \<longrightarrow> cum ! j = 0)"

definition good2 ::
  "u32 \<Rightarrow> (nat \<Rightarrow> u32 \<Rightarrow> nat) \<Rightarrow> endpoint list \<Rightarrow> u32 \<Rightarrow> ring_state \<Rightarrow> nat \<Rightarrow> v2_step option \<Rightarrow> bool" where
  "good2 M cur es mw s n r \<longleftrightarrow> (case r of
     None \<Rightarrow> False
   | Some (Done2 ring) \<Rightarrow> ring_full M es ring
   | Some (More2 (s', cum)) \<Rightarrow>
       ring_inv M cur es s' \<and> cum_ok es mw cum \<and> filled (rs_result s) + n \<le> filled (rs_result s'))"

lemma good2_weaken: "good2 M cur es mw s n r \<Longrightarrow> m \<le> n \<Longrightarrow> good2 M cur es mw s m r"
  by (auto simp: good2_def split: option.splits v2_step.splits)

lemma good2_trans:
  "filled (rs_result s) + n \<le> filled (rs_result s') \<Longrightarrow> good2 M cur es mw s' m r \<Longrightarrow>
     good2 M cur es mw s (n + m) r"
  by (auto simp: good2_def split: option.splits v2_step.splits)

definition has_max :: "u32 \<Rightarrow> endpoint list \<Rightarrow> nat" where
  "has_max mw es = (if \<exists>e \<in> set es. ep_weight e = mw then 1 else 0)"

lemma good_v2_round:
  assumes "perm_law M (length es) cur" "nums_ok es" "fuel \<ge> unat M"
    "ring_inv M cur es s" "cum_ok es mw cum" "es' = drop i es"
  shows "good2 M cur es mw s (has_max mw es') (v2_round fuel cur M mw i es' (s, cum))"
  using assms(4-6)
proof (induction es' arbitrary: i s cum)
  case Nil
  then show ?case by (simp add: good2_def has_max_def)
next
  case (Cons e es')
  have i: "i < length es" using Cons.prems(3) by (cases "i < length es") auto
  have d: "e = es ! i" "es' = drop (i + 1) es"
  proof -
    have "e # es' = es ! i # drop (i + 1) es"
      using Cons.prems(3) i Cons_nth_drop_Suc [of i es] by simp
    then show "e = es ! i" "es' = drop (i + 1) es" by simp_all
  qed
  define c1 where "c1 = cum[i := cum ! i + ep_weight e]"
  define c2 where "c2 = c1[i := c1 ! i - mw]"
  have lc: "length cum = length es" using Cons.prems(2) by (simp add: cum_ok_def)
  have c1i: "c1 ! i = cum ! i + ep_weight e" using i lc by (simp add: c1_def)
  have mx: "c1 ! i = mw" if "ep_weight e = mw"
    using that Cons.prems(2) i d(1) by (simp add: c1i cum_ok_def)
  show ?case
  proof (cases "c1 ! i \<ge> mw")
    case False
    then have ne: "ep_weight e \<noteq> mw" using mx by auto
    have "cum_ok es mw c1"
      using Cons.prems(2) ne d(1) lc i by (auto simp: cum_ok_def c1_def nth_list_update)
    from Cons.IH [OF Cons.prems(1) this d(2)] False ne show ?thesis
      by (simp add: Let_def c1_def [symmetric] has_max_def)
  next
    case True
    have ok: "cum_ok es mw c2"
      using Cons.prems(2) mx d(1) lc i
      by (auto simp: cum_ok_def c2_def c1_def nth_list_update)
    have f: "good M cur es s 1 (fill_slot fuel cur M i (ep_num e) s)"
      using good_fill_slot [OF assms(1) Cons.prems(1) i _ assms(2,3)] d(1) by simp
    show ?thesis
    proof (cases "fill_slot fuel cur M i (ep_num e) s")
      case None
      with f show ?thesis by (simp add: good_def)
    next
      case (Some r)
      show ?thesis
      proof (cases r)
        case (Done ring)
        with f Some True show ?thesis
          by (simp add: good_def good2_def Let_def c1_def [symmetric])
      next
        case (More s')
        then have s': "ring_inv M cur es s'" "filled (rs_result s) + 1 \<le> filled (rs_result s')"
          using f Some by (simp_all add: good_def)
        have "good2 M cur es mw s (1 + has_max mw es') (v2_round fuel cur M mw (i + 1) es' (s', c2))"
          using good2_trans [OF s'(2) Cons.IH [OF s'(1) ok d(2)]] .
        then have "good2 M cur es mw s (has_max mw (e # es')) (v2_round fuel cur M mw (i + 1) es' (s', c2))"
          by (rule good2_weaken) (simp add: has_max_def)
        then show ?thesis
          using Some More True by (simp add: Let_def c1_def [symmetric] c2_def [symmetric])
      qed
    qed
  qed
qed

lemma v2_rounds_total:
  assumes "perm_law M (length es) cur" "nums_ok es" "fuel \<ge> unat M" "has_max mw es = 1"
    "ring_inv M cur es s" "cum_ok es mw cum" "unat M - filled (rs_result s) \<le> k"
  shows "\<exists>r. v2_rounds k fuel cur M mw es (s, cum) = Some r \<and> ring_full M es r"
  using assms(5-7)
proof (induction k arbitrary: s cum)
  case 0
  then show ?case by (simp add: ring_inv_def)
next
  case (Suc k)
  have g: "good2 M cur es mw s 1 (v2_round fuel cur M mw 0 es (s, cum))"
    using good_v2_round [OF assms(1-3) Suc.prems(1,2), of es 0] assms(4) by simp
  show ?case
  proof (cases "v2_round fuel cur M mw 0 es (s, cum)")
    case None
    with g show ?thesis by (simp add: good2_def)
  next
    case (Some r)
    show ?thesis
    proof (cases r)
      case (Done2 ring)
      with g Some show ?thesis by (simp add: good2_def)
    next
      case (More2 sc)
      obtain s' cum' where sc: "sc = (s', cum')" by fastforce
      then have s': "ring_inv M cur es s'" "cum_ok es mw cum'"
        "filled (rs_result s) + 1 \<le> filled (rs_result s')"
        using g Some More2 by (simp_all add: good2_def)
      then have "unat M - filled (rs_result s') \<le> k" using Suc.prems(3) by linarith
      then show ?thesis
        using Suc.IH [OF s'(1,2)] Some More2 sc by simp
    qed
  qed
qed

lemma v2_total:
  assumes "perm_law M (length es) cur" "nums_ok es" "M > 1" "es \<noteq> []" "length es \<noteq> 1"
  shows "\<exists>r. maglevV2_generateHashRing cur es M = Some r \<and> ring_full M es r"
proof -
  have pos: "M > 0" using assms(3) by (simp add: word_less_nat_alt)
  have "\<exists>r. v2_rounds (ring_fuel M) (ring_fuel M) cur M (v2_max_weight es) es
      (init_ring es M, replicate (length es) 0) = Some r \<and> ring_full M es r"
    using assms pos max_weight(2) [OF assms(4)]
    by (intro v2_rounds_total) (auto simp: has_max_def init_ring_inv ring_fuel_def cum_ok_def)
  then show ?thesis using assms(3-5) by (auto simp: maglevV2_generateHashRing_def permutations_divide)
qed

section \<open>Shares of the second version\<close>

lemma count_list_update:
  "p < length r \<Longrightarrow> r ! p \<noteq> y \<Longrightarrow>
     count_list (r[p := x]) y = count_list r y + (if x = y then 1 else 0)"
proof (induction r arbitrary: p)
  case Nil
  then show ?case by simp
next
  case (Cons a r)
  then show ?case by (cases p) auto
qed

lemma div_mod_step:
  fixes w m t :: nat
  assumes "w \<le> m" "m > 0"
  shows "(t * w) mod m + w \<ge> m \<Longrightarrow>
      (Suc t * w) div m = (t * w) div m + 1 \<and> (Suc t * w) mod m = (t * w) mod m + w - m"
    and "(t * w) mod m + w < m \<Longrightarrow>
      (Suc t * w) div m = (t * w) div m \<and> (Suc t * w) mod m = (t * w) mod m + w"
proof -
  define q r where "q = (t * w) div m" and "r = (t * w) mod m"
  have e: "Suc t * w = q * m + (r + w)" by (simp add: q_def r_def)
  have r: "r < m" using assms(2) by (simp add: r_def)
  have dm: "(q' * m + r') div m = q' \<and> (q' * m + r') mod m = r'" if "r' < m" for q' r'
    using that by simp
  have "(Suc t * w) div m = q + 1 \<and> (Suc t * w) mod m = r + w - m" if "r + w \<ge> m"
  proof -
    have "Suc t * w = (q + 1) * m + (r + w - m)" using e that by (simp add: algebra_simps)
    moreover have "r + w - m < m" using r that assms(1) by linarith
    ultimately show ?thesis using dm by metis
  qed
  moreover have "(Suc t * w) div m = q \<and> (Suc t * w) mod m = r + w" if "r + w < m"
    unfolding e by (rule dm [OF that])
  ultimately show "(t * w) mod m + w \<ge> m \<Longrightarrow>
      (Suc t * w) div m = (t * w) div m + 1 \<and> (Suc t * w) mod m = (t * w) mod m + w - m"
    and "(t * w) mod m + w < m \<Longrightarrow>
      (Suc t * w) div m = (t * w) div m \<and> (Suc t * w) mod m = (t * w) mod m + w"
    by (simp_all add: q_def r_def)
qed

text \<open>
  shares es mw t s cum: endpoint j has had t j turns, its accumulated weight is what is left of
  them and its slots are the quotient.
\<close>

definition has_share :: "endpoint list \<Rightarrow> u32 \<Rightarrow> (nat \<Rightarrow> nat) \<Rightarrow> int list \<Rightarrow> nat \<Rightarrow> bool" where
  "has_share es mw t r j \<longleftrightarrow>
     count_list r (sint (ep_num (es ! j))) = (t j * unat (ep_weight (es ! j))) div unat mw"

definition shares ::
  "endpoint list \<Rightarrow> u32 \<Rightarrow> (nat \<Rightarrow> nat) \<Rightarrow> int list \<Rightarrow> u32 list \<Rightarrow> bool" where
  "shares es mw t r cum \<longleftrightarrow> length cum = length es \<and> (\<forall>j < length es.
     unat (cum ! j) = (t j * unat (ep_weight (es ! j))) mod unat mw \<and> has_share es mw t r j)"

lemma shares_step:
  fixes mw :: u32
  assumes sh: "shares es mw t r cum" and i: "i < length es" and w: "ep_weight (es ! i) \<le> mw"
    and mw: "mw > 0" "mw < 2 ^ 31"
    and dist: "distinct (map ep_num es)" and nums: "nums_ok es"
  defines "c1 \<equiv> cum[i := cum ! i + ep_weight (es ! i)]"
  shows "\<not> c1 ! i \<ge> mw \<Longrightarrow> shares es mw (t(i := Suc (t i))) r c1"
    and "c1 ! i \<ge> mw \<Longrightarrow> p < length r \<Longrightarrow> r ! p < 0 \<Longrightarrow>
      shares es mw (t(i := Suc (t i))) (r[p := sint (ep_num (es ! i))]) (c1[i := c1 ! i - mw])"
proof -
  let ?w = "unat (ep_weight (es ! i))" and ?m = "unat mw"
  have lc: "length cum = length es" using sh by (simp add: shares_def)
  have ci: "unat (cum ! i) = (t i * ?w) mod ?m" using sh i by (simp add: shares_def)
  have m: "?m > 0" "?m < 2 ^ 31" "?w \<le> ?m"
    using mw w by (simp_all add: unat_gt_0 word_less_nat_alt word_le_nat_alt)
  have "unat (cum ! i) < ?m" using ci m(1) by simp
  then have "unat (cum ! i) + ?w < 2 ^ 32" using m(2,3) by simp
  then have c1i: "unat (c1 ! i) = (t i * ?w) mod ?m + ?w"
    using i lc ci by (simp add: c1_def unat_word_ariths)
  have inj: "ep_num (es ! j) \<noteq> ep_num (es ! i)" if "j < length es" "j \<noteq> i" for j
    using dist that i by (metis length_map nth_eq_iff_index_eq nth_map)
  have keep: "count_list (r[p := sint (ep_num (es ! i))]) (sint (ep_num (es ! j))) =
      count_list r (sint (ep_num (es ! j))) + (if j = i then 1 else 0)"
    if "j < length es" "p < length r" "r ! p < 0" for j
  proof -
    have "es ! j \<in> set es" using that(1) by simp
    then have "sint (ep_num (es ! j)) \<ge> 0" using nums by (simp add: nums_ok_def)
    then have "r ! p \<noteq> sint (ep_num (es ! j))" using that(3) by linarith
    moreover have "j \<noteq> i \<Longrightarrow> sint (ep_num (es ! i)) \<noteq> sint (ep_num (es ! j))"
      using inj [OF that(1)] signed_word_eqI by metis
    ultimately show ?thesis using that by (auto simp: count_list_update)
  qed
  show "shares es mw (t(i := Suc (t i))) r c1" if "\<not> c1 ! i \<ge> mw"
  proof -
    have "(t i * ?w) mod ?m + ?w < ?m" using that c1i by (simp add: word_le_nat_alt)
    from div_mod_step(2) [OF m(3,1) this] show ?thesis
      using sh c1i lc by (auto simp: shares_def has_share_def c1_def nth_list_update)
  qed
  show "shares es mw (t(i := Suc (t i))) (r[p := sint (ep_num (es ! i))]) (c1[i := c1 ! i - mw])"
    if "c1 ! i \<ge> mw" "p < length r" "r ! p < 0"
  proof -
    have ge: "(t i * ?w) mod ?m + ?w \<ge> ?m" using that(1) c1i by (simp add: word_le_nat_alt)
    have "unat (c1 ! i - mw) = (t i * ?w) mod ?m + ?w - ?m"
      using that(1) c1i by (simp add: unat_sub)
    with div_mod_step(1) [OF m(3,1) ge] show ?thesis
      using sh lc keep [OF _ that(2,3)]
      by (auto simp: shares_def has_share_def c1_def nth_list_update)
  qed
qed

definition shares_done ::
  "endpoint list \<Rightarrow> u32 \<Rightarrow> nat \<Rightarrow> (nat \<Rightarrow> nat) \<Rightarrow> int list \<Rightarrow> bool" where
  "shares_done es mw i t ring \<longleftrightarrow> (\<exists>t'. \<forall>j < length es.
     (t' j = t j \<or> i \<le> j \<and> t' j = Suc (t j)) \<and> has_share es mw t' ring j)"

lemma shares_v2_round:
  fixes mw :: u32
  assumes "perm_law M (length es) cur" "nums_ok es" "fuel \<ge> unat M" "distinct (map ep_num es)"
    "mw > 0" "mw < 2 ^ 31" "\<forall>e \<in> set es. ep_weight e \<le> mw"
    "ring_inv M cur es s" "shares es mw t (rs_result s) cum" "es' = drop i es"
  shows "case v2_round fuel cur M mw i es' (s, cum) of
      Some (More2 (s', cum')) \<Rightarrow> ring_inv M cur es s' \<and>
        shares es mw (\<lambda>j. if i \<le> j then Suc (t j) else t j) (rs_result s') cum'
    | Some (Done2 ring) \<Rightarrow> shares_done es mw i t ring
    | None \<Rightarrow> False"
  using assms(8-10)
proof (induction es' arbitrary: i s cum t)
  case Nil
  then have "i \<ge> length es" by simp
  then have "shares es mw (\<lambda>j. if i \<le> j then Suc (t j) else t j) (rs_result s) cum"
    using Nil.prems(2) by (simp add: shares_def has_share_def)
  then show ?case using Nil.prems(1) by simp
next
  case (Cons e es')
  have i: "i < length es" using Cons.prems(3) by (cases "i < length es") auto
  have d: "e = es ! i" "es' = drop (i + 1) es"
  proof -
    have "e # es' = es ! i # drop (i + 1) es"
      using Cons.prems(3) i Cons_nth_drop_Suc [of i es] by simp
    then show "e = es ! i" "es' = drop (i + 1) es" by simp_all
  qed
  have w: "ep_weight (es ! i) \<le> mw" using assms(7) i by simp
  define c1 where "c1 = cum[i := cum ! i + ep_weight e]"
  define t1 where "t1 = t(i := Suc (t i))"
  note step = shares_step [OF Cons.prems(2) i w assms(5,6,4,2), folded d(1), folded c1_def t1_def]
  have t1: "(\<lambda>j. if Suc i \<le> j then Suc (t1 j) else t1 j) = (\<lambda>j. if i \<le> j then Suc (t j) else t j)"
    by (auto simp: t1_def fun_eq_iff dest: le_antisym)
  have done_i: "shares_done es mw i t ring" if dn: "shares_done es mw (i + 1) t1 ring" for ring
  proof -
    obtain t' where t': "\<forall>j < length es. (t' j = t1 j \<or> i + 1 \<le> j \<and> t' j = Suc (t1 j)) \<and>
        has_share es mw t' ring j"
      using dn by (auto simp: shares_done_def)
    have "\<forall>j < length es. (t' j = t j \<or> i \<le> j \<and> t' j = Suc (t j)) \<and> has_share es mw t' ring j"
    proof (intro allI impI)
      fix j assume "j < length es"
      then show "(t' j = t j \<or> i \<le> j \<and> t' j = Suc (t j)) \<and> has_share es mw t' ring j"
        using t' by (cases "j = i") (auto simp: t1_def)
    qed
    then show ?thesis by (auto simp: shares_done_def)
  qed
  have here: "shares_done es mw i t ring" if "shares es mw t1 ring cum'" for ring cum'
    using that by (auto simp: shares_done_def shares_def t1_def split: if_splits intro!: exI [of _ t1])
  show ?case
  proof (cases "c1 ! i \<ge> mw")
    case False
    from Cons.IH [OF Cons.prems(1) step(1) [OF False] d(2)] False show ?thesis
      by (auto simp: Let_def c1_def [symmetric] t1 split: option.splits v2_step.splits intro: done_i)
  next
    case True
    obtain r' where r': "fills M es (sint (ep_num e)) (rs_result s) r'"
      "(fill_slot fuel cur M i (ep_num e) s = Some (Done r') \<and> ring_full M es r') \<or>
       (\<exists>s'. fill_slot fuel cur M i (ep_num e) s = Some (More s') \<and> rs_result s' = r' \<and>
          ring_inv M cur es s')"
      using fill_slot_inv [OF assms(1) Cons.prems(1) i _ assms(2,3)] d(1) by blast
    have sh: "shares es mw t1 r' (c1[i := c1 ! i - mw])"
      using step(2) [OF True] r'(1) ring_inv_length [OF Cons.prems(1)] by (auto simp: fills_def)
    from r'(2) show ?thesis
    proof
      assume "fill_slot fuel cur M i (ep_num e) s = Some (Done r') \<and> ring_full M es r'"
      then show ?thesis
        using True here [OF sh] by (simp add: Let_def c1_def [symmetric])
    next
      assume "\<exists>s'. fill_slot fuel cur M i (ep_num e) s = Some (More s') \<and> rs_result s' = r' \<and>
          ring_inv M cur es s'"
      then obtain s' where s': "fill_slot fuel cur M i (ep_num e) s = Some (More s')"
        "rs_result s' = r'" "ring_inv M cur es s'" by blast
      from Cons.IH [OF s'(3) sh [folded s'(2)] d(2)] s'(1) True show ?thesis
        by (auto simp: Let_def c1_def [symmetric] t1 split: option.splits v2_step.splits intro: done_i)
    qed
  qed
qed

lemma shares_v2_rounds:
  fixes mw :: u32
  assumes "perm_law M (length es) cur" "nums_ok es" "fuel \<ge> unat M" "distinct (map ep_num es)"
    "mw > 0" "mw < 2 ^ 31" "\<forall>e \<in> set es. ep_weight e \<le> mw"
    "ring_inv M cur es s" "shares es mw (\<lambda>_. R) (rs_result s) cum"
    "v2_rounds k fuel cur M mw es (s, cum) = Some ring"
  shows "\<exists>R t'. \<forall>j < length es. (t' j = R \<or> t' j = Suc R) \<and> has_share es mw t' ring j"
  using assms(8-10)
proof (induction k arbitrary: s cum R)
  case 0
  then show ?case by simp
next
  case (Suc k)
  note g = shares_v2_round [OF assms(1-7) Suc.prems(1,2), of es 0]
  show ?case
  proof (cases "v2_round fuel cur M mw 0 es (s, cum)")
    case None
    with g show ?thesis by simp
  next
    case (Some r)
    show ?thesis
    proof (cases r)
      case (Done2 ring')
      with g Some Suc.prems(3) show ?thesis by (auto simp: shares_done_def)
    next
      case (More2 sc)
      obtain s' cum' where sc: "sc = (s', cum')" by fastforce
      have "ring_inv M cur es s'" "shares es mw (\<lambda>_. Suc R) (rs_result s') cum'"
        using g Some More2 sc by simp_all
      from Suc.IH [OF this] Suc.prems(3) Some More2 sc show ?thesis by simp
    qed
  qed
qed

section \<open>Properties\<close>

lemma chash_total:
  assumes "perm_law M (length es) (cur es)" "nums_ok es" "es \<noteq> []" "M > 1 \<or> length es = 1"
  shows "\<exists>r. chash_generate func cur es M = Some r \<and> length r = unat M \<and>
    (\<forall>x \<in> set r. \<exists>e \<in> set es. x = sint (ep_num e))"
proof (cases "length es = 1")
  case True
  then obtain e where "es = [e]" by (cases es) auto
  then show ?thesis
    by (cases func)
       (auto simp: chash_generate_def maglev_generateHashRing_def maglevV2_generateHashRing_def)
next
  case False
  then have "M > 1" using assms(4) by simp
  then show ?thesis
    using v1_total [OF assms(1,2) _ assms(3) False] v2_total [OF assms(1,2) _ assms(3) False]
    by (cases func) (auto simp: chash_generate_def ring_full_def slot_of_def)
qed

text \<open>
  C13: both hash functions terminate: for a list of endpoints that is not empty, with numbers below
  2 to the 31, a ring that is not empty and probes that run through the ring (the documented
  property of the permutation), they return a ring of the requested size in which every slot holds
  the number of an endpoint; except that two or more endpoints on a ring of size 1 end in a
  division by zero, for the permutation divides by the size less one.
\<close>

theorem hash_ring_total:
  assumes "perm_law M (length es) (cur es)" "nums_ok es" "M > 0" "es \<noteq> []"
  shows "if M = 1 \<and> length es \<ge> 2 then chash_generate func cur es M = None
    else \<exists>r. chash_generate func cur es M = Some r \<and> length r = unat M \<and>
      (\<forall>x \<in> set r. \<exists>e \<in> set es. x = sint (ep_num e))"
proof (cases "M = 1 \<and> length es \<ge> 2")
  case True
  then have "list_ex (\<lambda>e. genMaglevPermutation e M = None) es" "length es \<noteq> 1"
    using assms(4) by (simp_all add: permutations_divide)
  then have "chash_generate func cur es M = None" using assms(4)
    by (cases func) (simp_all add: chash_generate_def maglev_generateHashRing_def maglevV2_generateHashRing_def)
  then show ?thesis using True by simp
next
  case False
  then have "M > 1 \<or> length es = 1"
    using assms(3,4) by (cases es; cases "tl es") (auto simp: word_less_nat_alt word_unat_eq_iff)
  from chash_total [where es = es and cur = cur, OF assms(1,2,4) this] show ?thesis
    unfolding if_not_P [OF False] .
qed

definition ref_endpoints :: "endpoint list" where
  "ref_endpoints = [\<lparr>ep_num = 1, ep_weight = 1, ep_hash = 10\<rparr>, \<lparr>ep_num = 2, ep_weight = 3, ep_hash = 20\<rparr>]"

definition ref_cur :: "endpoint list \<Rightarrow> nat \<Rightarrow> u32 \<Rightarrow> nat" where
  "ref_cur es i n = (i + unat n) mod 5"

lemma ref_perm_law: "perm_law 5 2 (ref_cur es)"
proof -
  have "bij_betw (\<lambda>k. ref_cur es i (of_nat k)) {..<5} {..<5}" if "i < 2" for i
  proof -
    have "bij_betw (\<lambda>k. (i + k) mod 5) {0, 1, 2, 3, 4 :: nat} {0, 1, 2, 3, 4 :: nat}"
      using that by (cases i rule: nat.exhaust) (auto simp: bij_betw_def less_Suc_eq)
    moreover have "{..<5} = {0, 1, 2, 3, 4 :: nat}" by auto
    moreover have "ref_cur es i (of_nat k) = (i + k) mod 5" if "k \<in> {..<5}" for k
      using that by (simp add: ref_cur_def unat_of_nat)
    ultimately show ?thesis
      using bij_betw_cong [of "{..<5}" "\<lambda>k. ref_cur es i (of_nat k)" "\<lambda>k. (i + k) mod 5" "{..<5}"]
      by simp
  qed
  then show ?thesis by (simp add: perm_law_def)
qed

lemma ref_endpoints_law: "perm_law 5 (length ref_endpoints) (ref_cur ref_endpoints)"
  by (simp add: ref_endpoints_def ref_perm_law [unfolded numeral_2_eq_2])

theorem hash_ring_total_witness:
  "\<exists>r. chash_generate MaglevV2_fn ref_cur ref_endpoints 5 = Some r \<and> length r = 5 \<and> set r \<subseteq> {1, 2}"
proof -
  have "perm_law 5 (length ref_endpoints) (ref_cur ref_endpoints)" "nums_ok ref_endpoints"
    "(5 :: u32) > 0" "ref_endpoints \<noteq> []"
    by (rule ref_endpoints_law) (simp_all add: ref_endpoints_def nums_ok_def)
  from hash_ring_total [of 5 ref_endpoints ref_cur MaglevV2_fn, OF this] show ?thesis
    by (auto simp: ref_endpoints_def)
qed

text \<open>
  C34: the second version divides the ring in proportion to the weights: for two or more endpoints
  with different numbers below 2 to the 31, a ring of at least two positions, probes that run
  through the ring, and a greatest weight that is neither 0 nor 2 to the 31 or more, it returns a
  ring, and there is a number R of rounds such that every endpoint has floor(R w / max) or
  floor((R + 1) w / max) slots, where w is its weight and max the greatest weight.
\<close>

theorem maglev_v2_shares:
  assumes "perm_law M (length es) cur" "nums_ok es" "M > 1" "distinct (map ep_num es)"
    and "v2_max_weight es > 0" "v2_max_weight es < 2 ^ 31" "length es \<ge> 2"
  shows "\<exists>r R. maglevV2_generateHashRing cur es M = Some r \<and>
    (\<forall>e \<in> set es. count_list r (sint (ep_num e)) \<in>
      {R * unat (ep_weight e) div unat (v2_max_weight es),
       (R + 1) * unat (ep_weight e) div unat (v2_max_weight es)})"
proof -
  have ne: "es \<noteq> []" "length es \<noteq> 1" using assms(7) by auto
  have pos: "M > 0" using assms(3) by (simp add: word_less_nat_alt)
  obtain r where r: "maglevV2_generateHashRing cur es M = Some r"
    using v2_total [OF assms(1-3) ne] by blast
  have sh: "shares es (v2_max_weight es) (\<lambda>_. 0) (rs_result (init_ring es M)) (replicate (length es) 0)"
  proof -
    have "count_list (replicate n (- 1)) (sint (ep_num (es ! j))) = 0" if "j < length es" for n j
    proof -
      have "sint (ep_num (es ! j)) \<ge> 0" using assms(2) that by (auto simp: nums_ok_def)
      then show ?thesis by (induction n) auto
    qed
    then show ?thesis by (simp add: shares_def has_share_def init_ring_def)
  qed
  obtain R t' where t': "\<forall>j < length es. (t' j = R \<or> t' j = Suc R) \<and>
      has_share es (v2_max_weight es) t' r j"
  proof -
    have "v2_rounds (ring_fuel M) (ring_fuel M) cur M (v2_max_weight es) es
        (init_ring es M, replicate (length es) 0) = Some r"
      using r ne by (auto simp: maglevV2_generateHashRing_def split: if_splits)
    from shares_v2_rounds [OF assms(1,2) _ assms(4-6) _ init_ring_inv(1) [OF pos] sh this]
    show ?thesis using max_weight(1) [of _ es] that by (auto simp: ring_fuel_def)
  qed
  have "count_list r (sint (ep_num e)) \<in>
    {R * unat (ep_weight e) div unat (v2_max_weight es),
     (R + 1) * unat (ep_weight e) div unat (v2_max_weight es)}" if e: "e \<in> set es" for e
  proof -
    obtain j where j: "j < length es" "e = es ! j" using e by (metis in_set_conv_nth)
    have "t' j = R \<or> t' j = R + 1" "has_share es (v2_max_weight es) t' r j" using t' j(1) by auto
    then show ?thesis unfolding has_share_def j(2) by (elim disjE) simp_all
  qed
  then show ?thesis using r by blast
qed

theorem maglev_v2_shares_witness:
  "\<exists>r R. maglevV2_generateHashRing (ref_cur ref_endpoints) ref_endpoints 5 = Some r \<and>
    (\<forall>e \<in> set ref_endpoints. count_list r (sint (ep_num e))
       \<in> {R * unat (ep_weight e) div 3, (R + 1) * unat (ep_weight e) div 3})"
proof -
  have p: "perm_law 5 (length ref_endpoints) (ref_cur ref_endpoints)" "nums_ok ref_endpoints"
    "(5 :: u32) > 1" "distinct (map ep_num ref_endpoints)" "v2_max_weight ref_endpoints > 0"
    "v2_max_weight ref_endpoints < 2 ^ 31" "length ref_endpoints \<ge> 2"
    by (rule ref_endpoints_law) (simp_all add: ref_endpoints_def nums_ok_def v2_max_weight_def)
  have "unat (v2_max_weight ref_endpoints) = 3" by (simp add: ref_endpoints_def v2_max_weight_def)
  with maglev_v2_shares [OF p] show ?thesis by simp
qed

text \<open>
  Beyond that bound the sums of weights wrap: of the weights 2 to the 32 less one and 2 to the 31
  the second gets no slot.
\<close>

definition wrap_endpoints :: "endpoint list" where
  "wrap_endpoints = [\<lparr>ep_num = 1, ep_weight = 0xFFFFFFFF, ep_hash = 10\<rparr>,
     \<lparr>ep_num = 2, ep_weight = 0x80000000, ep_hash = 20\<rparr>]"

theorem v2_weights_wrap:
  "maglevV2_generateHashRing (ref_cur wrap_endpoints) wrap_endpoints 5 = Some [1, 1, 1, 1, 1]"
  by code_simp

end
