(* ===== verification/VipProps.thy ===== *)
theory VipProps
  imports Vip MaglevProps
begin

text \<open>
  Properties of a virtual IP. The contract of the interface ConsistentHash is the locale
  consistent_hash; the lemmas on Vip are proved from it and instantiated with the hash functions
  of the code.
\<close>

section \<open>The contract of a hash function\<close>

definition ring_ok :: "nat \<Rightarrow> endpoint list \<Rightarrow> int list \<Rightarrow> bool" where
  "ring_ok n es r \<longleftrightarrow> length r = n \<and> (\<forall>x \<in> set r. x = - 1 \<or> slot_of es x)"

locale consistent_hash =
  fixes gen :: hash_gen
  assumes gen_ring: "gen f es n = Some r \<Longrightarrow> es \<noteq> [] \<Longrightarrow> ring_ok (unat n) es r"

section \<open>Maglev meets it\<close>

definition step_ok :: "nat \<Rightarrow> endpoint list \<Rightarrow> ring_step option \<Rightarrow> bool" where
  "step_ok n es r \<longleftrightarrow> (case r of
     None \<Rightarrow> True | Some (Done ring) \<Rightarrow> ring_ok n es ring | Some (More s) \<Rightarrow> ring_ok n es (rs_result s))"

lemma step_ok_simps [simp]:
  "step_ok n es None" "step_ok n es (Some (Done ring)) = ring_ok n es ring"
  "step_ok n es (Some (More s)) = ring_ok n es (rs_result s)"
  by (simp_all add: step_ok_def)

lemma ring_ok_update: "ring_ok n es r \<Longrightarrow> slot_of es x \<Longrightarrow> ring_ok n es (r[p := x])"
  by (auto simp: ring_ok_def dest: subsetD [OF set_update_subset_insert])

lemma step_ok_fill:
  "ring_ok n es (rs_result s) \<Longrightarrow> slot_of es (sint num) \<Longrightarrow> step_ok n es (fill_slot fuel cur M i num s)"
  by (simp add: fill_slot_def Let_def ring_ok_update split: option.split)

lemma step_ok_weight:
  "ring_ok n es (rs_result s) \<Longrightarrow> slot_of es (sint num) \<Longrightarrow>
     step_ok n es (v1_weight fuel cur M i num j s)"
proof (induction j arbitrary: s)
  case 0
  then show ?case by simp
next
  case (Suc j)
  then show ?case
    using step_ok_fill [OF Suc.prems, of fuel cur M i]
    by (auto split: option.split ring_step.split)
qed

lemma slot_of_subset: "e \<in> set es' \<Longrightarrow> ep_num ` set es' \<subseteq> ep_num ` set es \<Longrightarrow> slot_of es (sint (ep_num e))"
  by (force simp: slot_of_def)

lemma step_ok_round:
  "ring_ok n es (rs_result s) \<Longrightarrow> ep_num ` set es' \<subseteq> ep_num ` set es \<Longrightarrow>
     step_ok n es (v1_round fuel cur M i es' s)"
proof (induction es' arbitrary: i s)
  case Nil
  then show ?case by simp
next
  case (Cons e es')
  have "slot_of es (sint (ep_num e))" using slot_of_subset [of e "e # es'"] Cons.prems(2) by simp
  from step_ok_weight [OF Cons.prems(1) this, of fuel cur M i "unat (ep_weight e)"] Cons
  show ?case by (auto split: option.split ring_step.split)
qed

lemma ring_ok_v1_rounds:
  "ring_ok n es (rs_result s) \<Longrightarrow> ep_num ` set es' \<subseteq> ep_num ` set es \<Longrightarrow>
     v1_rounds k fuel cur M es' s = Some r \<Longrightarrow> ring_ok n es r"
proof (induction k arbitrary: s es')
  case 0
  then show ?case by simp
next
  case (Suc k)
  let ?es = "map (\<lambda>e. e\<lparr>ep_weight := 1\<rparr>) es'"
  have sub: "ep_num ` set ?es \<subseteq> ep_num ` set es"
    using Suc.prems(2) by (simp add: image_image)
  show ?case
  proof (cases "v1_round fuel cur M 0 es' s")
    case None
    then show ?thesis using Suc.prems(3) by simp
  next
    case (Some x)
    note ok = step_ok_round [OF Suc.prems(1,2), of fuel cur M 0, unfolded Some]
    show ?thesis
    proof (cases x)
      case (Done ring)
      then show ?thesis using Suc.prems(3) Some ok by simp
    next
      case (More s')
      then have "ring_ok n es (rs_result s')" "v1_rounds k fuel cur M ?es s' = Some r"
        using Suc.prems(3) Some ok by simp_all
      then show ?thesis using Suc.IH sub by blast
    qed
  qed
qed

definition step2_ok :: "nat \<Rightarrow> endpoint list \<Rightarrow> v2_step option \<Rightarrow> bool" where
  "step2_ok n es r \<longleftrightarrow> (case r of
     None \<Rightarrow> True | Some (Done2 ring) \<Rightarrow> ring_ok n es ring
   | Some (More2 (s, _)) \<Rightarrow> ring_ok n es (rs_result s))"

lemma step2_ok_simps [simp]:
  "step2_ok n es None" "step2_ok n es (Some (Done2 ring)) = ring_ok n es ring"
  "step2_ok n es (Some (More2 (s, cum))) = ring_ok n es (rs_result s)"
  by (simp_all add: step2_ok_def)

lemma step2_ok_round:
  "ring_ok n es (rs_result s) \<Longrightarrow> set es' \<subseteq> set es \<Longrightarrow>
     step2_ok n es (v2_round fuel cur M mw i es' (s, cum))"
proof (induction es' arbitrary: i s cum)
  case Nil
  then show ?case by simp
next
  case (Cons e es')
  have sl: "slot_of es (sint (ep_num e))" using Cons.prems(2) by (auto simp: slot_of_def)
  note f = step_ok_fill [OF Cons.prems(1) sl, of fuel cur M i]
  show ?case
    using f Cons by (auto simp: Let_def split: option.split ring_step.split)
qed

lemma ring_ok_v2_rounds:
  "ring_ok n es (rs_result s) \<Longrightarrow> v2_rounds k fuel cur M mw es (s, cum) = Some r \<Longrightarrow> ring_ok n es r"
proof (induction k arbitrary: s cum)
  case 0
  then show ?case by simp
next
  case (Suc k)
  show ?case
    using step2_ok_round [OF Suc.prems(1), of es fuel cur M mw 0 cum] Suc.prems(2) Suc.IH
    by (auto split: option.splits v2_step.splits)
qed

lemma ring_ok_init: "ring_ok (unat n) es (rs_result (init_ring es' n))"
  by (simp add: ring_ok_def init_ring_def)

lemma chash_generate_ring:
  assumes "chash_generate f cur es n = Some r" "es \<noteq> []"
  shows "ring_ok (unat n) es r"
proof (cases "length es = 1")
  case True
  then obtain e where "es = [e]" by (cases es) auto
  then show ?thesis
    using assms
    by (cases f) (auto simp: chash_generate_def maglev_generateHashRing_def
        maglevV2_generateHashRing_def ring_ok_def slot_of_def)
next
  case False
  then show ?thesis
    using assms ring_ok_v1_rounds [OF ring_ok_init subset_refl] ring_ok_v2_rounds [OF ring_ok_init]
    by (cases f) (auto simp: chash_generate_def maglev_generateHashRing_def maglevV2_generateHashRing_def
        split: if_splits)
qed

abbreviation maglev_gen :: "(endpoint list \<Rightarrow> nat \<Rightarrow> u32 \<Rightarrow> nat) \<Rightarrow> hash_gen" where
  "maglev_gen cur \<equiv> (\<lambda>f es n. chash_generate f cur es n)"

interpretation maglev: consistent_hash "maglev_gen cur" for cur
  by unfold_locales (rule chash_generate_ring)

section \<open>The delta of a ring\<close>

lemma ring_delta_eq:
  "n \<le> length old \<Longrightarrow> ring_delta new n old =
     (map (\<lambda>i. \<lparr>rp_real = word_of_int (new ! i), rp_pos = of_nat i\<rparr>) (filter (\<lambda>i. new ! i \<noteq> old ! i) [0..<n]),
      map (\<lambda>i. new ! i) [0..<n] @ drop n old)"
proof (induction n)
  case 0
  then show ?case by (simp add: ring_delta_def)
next
  case (Suc n)
  have "drop n old = old ! n # drop (Suc n) old" using Suc.prems by (simp add: Cons_nth_drop_Suc)
  moreover have "(map (\<lambda>i. new ! i) [0..<n] @ xs) ! n = xs ! 0" for xs by (simp add: nth_append)
  moreover have "(map (\<lambda>i. new ! i) [0..<n] @ x # xs)[n := y] = map (\<lambda>i. new ! i) [0..<n] @ y # xs" for x xs y
    by (simp add: list_update_append)
  ultimately show ?case
    using Suc by (simp add: ring_delta_def)
qed

definition apply_delta :: "real_pos list \<Rightarrow> (u32 \<Rightarrow> u32) \<Rightarrow> u32 \<Rightarrow> u32" where
  "apply_delta ds = fold (\<lambda>d t. t(rp_pos d := rp_real d)) ds"

lemma apply_delta_map:
  "distinct xs \<Longrightarrow> (\<forall>i \<in> set xs. i < 2 ^ 32) \<Longrightarrow> j < 2 ^ 32 \<Longrightarrow>
     apply_delta (map (\<lambda>i. \<lparr>rp_real = f i, rp_pos = of_nat i\<rparr>) xs) t (of_nat j) =
       (if j \<in> set xs then f j else t (of_nat j))"
proof (induction xs arbitrary: t)
  case Nil
  then show ?case by (simp add: apply_delta_def)
next
  case (Cons i xs)
  have "(of_nat i :: u32) = of_nat j \<longleftrightarrow> i = j" 
    using Cons.prems by (auto simp: word_of_nat_eq_iff take_bit_nat_eq_self)
  then show ?case using Cons by (auto simp: apply_delta_def)
qed

section \<open>Lemmas from the contract\<close>

context consistent_hash begin

lemma calculate_ring_eq:
  assumes "calculateHashRing gen es v = Some (delta, v')" "length (chRing v) = unat (chRingSize v)"
  shows "v' = v\<lparr>chRing := chRing v'\<rparr> \<and> length (chRing v') = unat (chRingSize v') \<and>
    (es = [] \<longrightarrow> v' = v) \<and> (es \<noteq> [] \<longrightarrow> ring_ok (unat (chRingSize v)) es (chRing v')) \<and>
    delta = map (\<lambda>i. \<lparr>rp_real = word_of_int (chRing v' ! i), rp_pos = of_nat i\<rparr>)
      (filter (\<lambda>i. chRing v' ! i \<noteq> chRing v ! i) [0..<unat (chRingSize v)])"
proof (cases "es = []")
  case True
  then show ?thesis using assms by (auto simp: calculateHashRing_def)
next
  case False
  then obtain new where new: "gen (chash v) es (chRingSize v) = Some new"
    using assms(1) by (auto simp: calculateHashRing_def split: option.splits)
  have ok: "ring_ok (unat (chRingSize v)) es new" using gen_ring [OF new False] .
  then have len: "length new = unat (chRingSize v)" by (simp add: ring_ok_def)
  then have "map (\<lambda>i. new ! i) [0..<unat (chRingSize v)] = new" by (metis map_nth)
  then have "chRing v' = new" "v' = v\<lparr>chRing := new\<rparr>"
    "delta = map (\<lambda>i. \<lparr>rp_real = word_of_int (new ! i), rp_pos = of_nat i\<rparr>)
       (filter (\<lambda>i. new ! i \<noteq> chRing v ! i) [0..<unat (chRingSize v)])"
    using assms new False by (auto simp: calculateHashRing_def ring_delta_eq)
  then show ?thesis using ok len False by simp
qed

lemma apply_delta_ring:
  assumes "calculateHashRing gen es v = Some (delta, v')" "length (chRing v) = unat (chRingSize v)"
    and "\<forall>i < unat (chRingSize v). t (of_nat i) = word_of_int (chRing v ! i)"
    and "i < unat (chRingSize v)"
  shows "apply_delta delta t (of_nat i) = word_of_int (chRing v' ! i)"
proof -
  have "i < 2 ^ 32" using assms(4) unat_less [of "chRingSize v"] by linarith
  moreover have "\<forall>i \<in> set [0..<unat (chRingSize v)]. i < 2 ^ 32"
    using unat_less [of "chRingSize v"] by auto
  ultimately show ?thesis
    using calculate_ring_eq [OF assms(1,2)] assms(3,4) by (auto simp: apply_delta_map)
qed

end

section \<open>Which reals a ring may hold\<close>

definition active :: "(u32 \<times> vip_real_meta) list \<Rightarrow> u32 \<Rightarrow> bool" where
  "active rs n \<longleftrightarrow> (\<exists>m. (n, m) \<in> set rs \<and> weight m \<noteq> 0)"

text \<open>
  As long as some real has a weight, every slot in use belongs to a real of the VIP that has one.
\<close>

definition vip_ring_inv :: "vip \<Rightarrow> bool" where
  "vip_ring_inv v \<longleftrightarrow> distinct (map fst (vip_reals v)) \<and> length (chRing v) = unat (chRingSize v) \<and>
     ((\<exists>n. active (vip_reals v) n) \<longrightarrow>
      (\<forall>x \<in> set (chRing v). x = - 1 \<or> (\<exists>n. x = sint n \<and> active (vip_reals v) n)))"

lemma distinct_apply_ureal:
  "distinct (map fst (fst s)) \<Longrightarrow> distinct (map fst (fst (apply_ureal u s)))"
  by (auto simp: apply_ureal_def touch_real_def Let_def distinct_update distinct_delete split: prod.splits)

lemma distinct_fold_ureal:
  "distinct (map fst (fst s)) \<Longrightarrow> distinct (map fst (fst (fold apply_ureal us s)))"
  by (induction us arbitrary: s) (simp_all add: distinct_apply_ureal)

text \<open>A step which reports no change leaves the active reals alone.\<close>

lemma apply_ureal_changed: "snd s \<Longrightarrow> snd (apply_ureal u s)"
  by (auto simp: apply_ureal_def Let_def split: prod.splits)

lemma fold_ureal_changed: "snd s \<Longrightarrow> snd (fold apply_ureal us s)"
  by (induction us arbitrary: s) (simp_all add: apply_ureal_changed)

lemma set_update_new: "map_of rs n = None \<Longrightarrow> set (AList.update n m rs) = insert (n, m) (set rs)"
  by (induction rs) (auto split: if_splits)

lemma active_touch: "active (touch_real n rs) = active rs"
  by (auto simp: active_def touch_real_def set_update_new fun_eq_iff)

lemma active_apply_ureal:
  "\<not> snd (apply_ureal u s) \<Longrightarrow> active (fst (apply_ureal u s)) = active (fst s)"
  by (auto simp: apply_ureal_def Let_def active_touch split: prod.splits if_splits)

lemma active_fold_ureal:
  "\<not> snd (fold apply_ureal us s) \<Longrightarrow> active (fst (fold apply_ureal us s)) = active (fst s)"
proof (induction us arbitrary: s)
  case Nil
  then show ?case by simp
next
  case (Cons u us)
  then have "\<not> snd (apply_ureal u s)" using fold_ureal_changed by fastforce
  then show ?case using Cons by (simp add: active_apply_ureal)
qed

lemma getEndpoints_eq:
  assumes "getEndpoints us v = (es, v1)"
  shows "chRing v1 = chRing v \<and> chRingSize v1 = chRingSize v \<and> chash v1 = chash v \<and>
    vipNum v1 = vipNum v \<and> vipFlags v1 = vipFlags v \<and>
    (distinct (map fst (vip_reals v)) \<longrightarrow> distinct (map fst (vip_reals v1))) \<and>
    (if snd (fold apply_ureal us (vip_reals v, False))
     then set es = real_endpoint ` {r \<in> set (vip_reals v1). weight (snd r) \<noteq> 0}
     else es = [] \<and> active (vip_reals v1) = active (vip_reals v))"
  using assms distinct_fold_ureal [of "(vip_reals v, False)" us]
    active_fold_ureal [of us "(vip_reals v, False)"]
  by (auto simp: getEndpoints_def Let_def split: prod.splits if_splits)

context consistent_hash begin

lemma vip_ring_inv_batch:
  assumes "batchRealsUpdate gen us v = Some (delta, v')" "vip_ring_inv v"
  shows "vip_ring_inv v'"
proof -
  obtain es v1 where e: "getEndpoints us v = (es, v1)" by fastforce
  note g = getEndpoints_eq [OF e]
  from assms(1) e have c: "calculateHashRing gen es v1 = Some (delta, v')"
    by (simp add: batchRealsUpdate_def)
  have inv: "distinct (map fst (vip_reals v))" "length (chRing v) = unat (chRingSize v)"
    "(\<exists>n. active (vip_reals v) n) \<Longrightarrow>
      \<forall>x \<in> set (chRing v). x = - 1 \<or> (\<exists>n. x = sint n \<and> active (vip_reals v) n)"
    using assms(2) by (auto simp: vip_ring_inv_def)
  have len: "length (chRing v1) = unat (chRingSize v1)" using g inv(2) by simp
  note q = calculate_ring_eq [OF c len]
  then have v': "vip_reals v' = vip_reals v1" "chRingSize v' = chRingSize v1"
    by (metis vip.select_convs(3,4) vip.surjective vip.update_convs(5))+
  show ?thesis
  proof (cases "snd (fold apply_ureal us (vip_reals v, False))")
    case False
    with g have "es = []" "active (vip_reals v1) = active (vip_reals v)" by argo+
    then show ?thesis using q g inv v' by (simp add: vip_ring_inv_def)
  next
    case True
    then have es: "set es = real_endpoint ` {r \<in> set (vip_reals v1). weight (snd r) \<noteq> 0}"
      using g by simp
    have slot: "slot_of es x \<Longrightarrow> \<exists>n. x = sint n \<and> active (vip_reals v1) n" for x
      by (auto simp: slot_of_def es active_def real_endpoint_def)
    have "es = [] \<Longrightarrow> \<not> active (vip_reals v1) n" for n
      using es by (auto simp: active_def)
    then show ?thesis
      using q g inv(1) v' slot by (auto simp: vip_ring_inv_def ring_ok_def)
  qed
qed

end

section \<open>Properties\<close>

lemma vip_ring_inv_new: "vip_ring_inv (new_vip num flags n f)"
  by (simp add: vip_ring_inv_def new_vip_def active_def)

fun vip_batches :: "hash_gen \<Rightarrow> update_real list list \<Rightarrow> vip \<Rightarrow> vip option" where
  "vip_batches gen [] v = Some v"
| "vip_batches gen (us # uss) v =
     (case batchRealsUpdate gen us v of None \<Rightarrow> None | Some (_, v') \<Rightarrow> vip_batches gen uss v')"

text \<open>
  After any sequence of batches of updates of a new VIP, its ring has its size, and as long as
  one of its reals has a weight that is not zero, every slot in use holds a real of the VIP whose
  weight is not zero: a real that was deleted or drained gets no slot.
\<close>

theorem vip_ring_active:
  assumes "vip_batches (maglev_gen cur) uss (new_vip num flags n f) = Some v"
  shows "length (chRing v) = unat (chRingSize v) \<and>
    ((\<exists>(r, m) \<in> set (vip_reals v). weight m \<noteq> 0) \<longrightarrow>
     (\<forall>x \<in> set (chRing v). x = - 1 \<or> (\<exists>(r, m) \<in> set (vip_reals v). x = sint r \<and> weight m \<noteq> 0)))"
proof -
  have "vip_batches (maglev_gen cur) uss w = Some v \<Longrightarrow> vip_ring_inv w \<Longrightarrow> vip_ring_inv v" for w
  proof (induction uss arbitrary: w)
    case Nil
    then show ?case by simp
  next
    case (Cons us uss)
    then show ?case by (auto split: option.splits dest: maglev.vip_ring_inv_batch)
  qed
  from this [OF assms vip_ring_inv_new] show ?thesis
    unfolding vip_ring_inv_def active_def by fastforce
qed

definition ref_updates :: "update_real list list" where
  "ref_updates = [[\<lparr>action = ADD, updatedReal = \<lparr>ep_num = 1, ep_weight = 2, ep_hash = 7\<rparr>\<rparr>,
                   \<lparr>action = ADD, updatedReal = \<lparr>ep_num = 2, ep_weight = 1, ep_hash = 9\<rparr>\<rparr>],
                  [\<lparr>action = ADD, updatedReal = \<lparr>ep_num = 1, ep_weight = 0, ep_hash = 7\<rparr>\<rparr>]]"

theorem vip_ring_active_witness:
  "\<exists>v. vip_batches (maglev_gen ref_cur) ref_updates (new_vip 0 0 5 Maglev_fn) = Some v \<and>
     (\<forall>x \<in> set (chRing v). x = - 1 \<or> (\<exists>(r, m) \<in> set (vip_reals v). x = sint r \<and> weight m \<noteq> 0))"
proof -
  let ?r = "vip_batches (maglev_gen ref_cur) ref_updates (new_vip 0 0 5 Maglev_fn)"
  have "?r \<noteq> None" "\<exists>(r, m) \<in> set (vip_reals (the ?r)). weight m \<noteq> 0" by code_simp+
  then show ?thesis using vip_ring_active [of ref_cur ref_updates 0 0 5 Maglev_fn "the ?r"] by auto
qed

text \<open>
  C6: the data plane keeps the ring of a VIP as a table. If the table agrees with the ring before
  a batch of updates, writing the returned delta into it makes it agree with the ring after: the
  deltas implement the ring.
\<close>

theorem vip_delta_refines_ring:
  assumes "batchRealsUpdate (maglev_gen cur) us v = Some (delta, v')"
    and "length (chRing v) = unat (chRingSize v)"
    and "\<forall>i < unat (chRingSize v). t (of_nat i) = word_of_int (chRing v ! i)"
  shows "\<forall>i < unat (chRingSize v). apply_delta delta t (of_nat i) = word_of_int (chRing v' ! i)"
proof -
  obtain es v1 where e: "getEndpoints us v = (es, v1)" by fastforce
  have c: "calculateHashRing (maglev_gen cur) es v1 = Some (delta, v')"
    using assms(1) e by (simp add: batchRealsUpdate_def)
  have "chRing v1 = chRing v" "chRingSize v1 = chRingSize v" using getEndpoints_eq [OF e] by simp_all
  then show ?thesis using maglev.apply_delta_ring [OF c] assms(2,3) by simp
qed

theorem vip_delta_refines_ring_witness:
  "\<exists>delta v'. addReal (maglev_gen ref_cur) \<lparr>ep_num = 3, ep_weight = 1, ep_hash = 7\<rparr> (new_vip 0 0 5 Maglev_fn)
      = Some (delta, v') \<and> apply_delta delta (\<lambda>_. - 1) 4 = word_of_int (chRing v' ! 4) \<and> chRing v' ! 4 = 3"
proof -
  let ?v = "new_vip 0 0 5 Maglev_fn" and
    ?us = "[\<lparr>action = ADD, updatedReal = \<lparr>ep_num = 3, ep_weight = 1, ep_hash = 7\<rparr>\<rparr>]"
  let ?r = "batchRealsUpdate (maglev_gen ref_cur) ?us ?v"
  have "?r \<noteq> None" "chRing (snd (the ?r)) ! 4 = 3" by code_simp+
  then obtain delta v' where r: "?r = Some (delta, v')" "chRing v' ! 4 = 3"
    by (cases ?r) auto
  have v: "chRingSize ?v = 5" "chRing ?v = replicate 5 (- 1)" by (simp_all add: new_vip_def)
  have "\<forall>i < 5. apply_delta delta (\<lambda>_. - 1) (of_nat i) = word_of_int (chRing v' ! i)"
    using vip_delta_refines_ring [OF r(1), of "\<lambda>_. - 1"] unfolding v by simp
  from this [rule_format, of 4] have "apply_delta delta (\<lambda>_. - 1) 4 = word_of_int (chRing v' ! 4)"
    by simp
  then show ?thesis using r unfolding addReal_def by (intro exI [of _ delta] exI [of _ v']) simp
qed

text \<open>
  Two boundary cases the class gets wrong. Deleting the last real of a VIP returns no delta,
  so that the ring of the data plane goes on pointing to it; and recalculating the ring, which a
  change of the hash function does, gives a real its slots even when its weight is 0: a VIP whose
  only real is drained hands it the whole ring.
\<close>

theorem vip_last_real:
  assumes "vip_reals v = [(n, m)]" "length (chRing v) = unat (chRingSize v)"
  shows "delReal gen unset n v = Some ([], v\<lparr>vip_reals := []\<rparr>) \<and>
    (\<exists>delta. recalculateHashRing (maglev_gen cur) v =
      Some (delta, v\<lparr>chRing := replicate (unat (chRingSize v)) (sint n)\<rparr>))"
proof -
  let ?n = "unat (chRingSize v)"
  have "map (\<lambda>i. replicate ?n (sint n) ! i) [0..<?n] = replicate ?n (sint n)"
    by (metis length_replicate map_nth)
  then have "snd (ring_delta (replicate ?n (sint n)) ?n (chRing v)) = replicate ?n (sint n)"
    using ring_delta_eq [of ?n "chRing v" "replicate ?n (sint n)"] assms(2) by simp
  then obtain d where "ring_delta (replicate ?n (sint n)) ?n (chRing v) = (d, replicate ?n (sint n))"
    by (metis prod.collapse)
  then show ?thesis
    using assms
    by (auto simp: delReal_def batchRealsUpdate_def getEndpoints_def apply_ureal_def
        calculateHashRing_def recalculateHashRing_def getRealsAndWeight_def real_endpoint_def
        chash_generate_def maglev_generateHashRing_def maglevV2_generateHashRing_def
        split: hash_function.splits prod.splits)
qed

theorem vip_last_real_witness:
  "\<exists>v. vip_batches (maglev_gen ref_cur) [hd ref_updates,
       [\<lparr>action = DEL, updatedReal = \<lparr>ep_num = 2, ep_weight = 0, ep_hash = 0\<rparr>\<rparr>],
       [\<lparr>action = ADD, updatedReal = \<lparr>ep_num = 1, ep_weight = 0, ep_hash = 7\<rparr>\<rparr>]]
       (new_vip 0 0 5 Maglev_fn) = Some v \<and>
     (\<exists>delta. recalculateHashRing (maglev_gen ref_cur) v = Some (delta, v\<lparr>chRing := [1, 1, 1, 1, 1]\<rparr>))"
proof -
  let ?r = "vip_batches (maglev_gen ref_cur) [hd ref_updates,
       [\<lparr>action = DEL, updatedReal = \<lparr>ep_num = 2, ep_weight = 0, ep_hash = 0\<rparr>\<rparr>],
       [\<lparr>action = ADD, updatedReal = \<lparr>ep_num = 1, ep_weight = 0, ep_hash = 7\<rparr>\<rparr>]]
       (new_vip 0 0 5 Maglev_fn)"
  have "?r \<noteq> None" "vip_reals (the ?r) = [(1, \<lparr>weight = 0, hash = 7\<rparr>)]" "chRingSize (the ?r) = 5"
    "length (chRing (the ?r)) = unat (chRingSize (the ?r))"
    "replicate (unat (5 :: u32)) (sint (1 :: u32)) = [1, 1, 1, 1, 1]"
    by code_simp+
  then show ?thesis
    using vip_last_real [of "the ?r" 1 "\<lparr>weight = 0, hash = 7\<rparr>" "maglev_gen ref_cur" "\<lparr>ep_num = 0, ep_weight = 0, ep_hash = 0\<rparr>" ref_cur]
    by (intro exI [of _ "the ?r"]) simp
qed

end
