(* ===== verification/LbState.thy ===== *)
theory LbState
  imports Structs Vip
begin

text \<open>
  The state of the control plane class VsoshlbLb (VsoshlbLb.h, VsoshlbLbStructs.h,
  IpHelpers.cpp) and the helpers its operations share: address checks, conversions to the keys
  of the data plane, reference counts of the reals and updates of BPF maps.

  Addresses and their text forms belong to folly, BPF maps to the kernel: both are a record env of
  functions. kmaps is the memory the data plane reads, the record of theory Structs, so that the
  two sides of the program meet in one state. The order of an unordered_map that is iterated is
  the order of an association list.
\<close>

section \<open>Configuration and environment\<close>

record lb_config =
  maxVips :: u32
  maxReals :: u32
  cfg_chRingSize :: u32
  testing :: bool
  enableHc :: bool
  tunnelBasedHCEncap :: bool
  maxLpmSrcSize :: u32
  maxDecapDst :: u32
  enableCidV3 :: bool
  hashFunction :: hash_function

record lb_features =
  srcRouting :: bool
  inlineDecap :: bool
  introspection :: bool
  gueEncap :: bool
  directHealthchecking :: bool
  localDeliveryOptimization :: bool
  flowDebug :: bool

text \<open>The value of a folly::IPAddress; NoIP is the default constructed one.\<close>

datatype ip = NoIP | V4 u32 | V6 addr

type_synonym network = "ip \<times> u8"

text \<open>
  parse_ip and parse_net are folly's parsers (tryFromString and tryCreateNetwork), ip_hash its
  hash; addr_part is the word of an IPv6 address whose expression is cut from parseAddrToBe.
  bpf_ok n tells whether the n-th call of a map operation is accepted by the kernel, batch_part n
  how many elements of a refused batch are written. hash_of runs the consistent hash; ring_key
  is the key of a ring slot in ch_rings, whose expression is cut from programHashRing.
\<close>

record env =
  parse_ip :: "string \<Rightarrow> ip option"
  parse_net :: "string \<Rightarrow> network option"
  ip_hash :: "ip \<Rightarrow> u64"
  addr_part :: "addr \<Rightarrow> nat \<Rightarrow> u32"
  bpf_ok :: "nat \<Rightarrow> bool"
  batch_part :: "nat \<Rightarrow> nat"
  hash_of :: hash_gen
  ring_key :: "u32 \<Rightarrow> real_pos \<Rightarrow> u32"

section \<open>VsoshlbLbStructs.h\<close>

record real_meta =
  rm_num :: u32
  refCount :: u32
  rm_flags :: u8

record new_real =
  nr_address :: string
  nr_weight :: u32
  nr_flags :: u8

record quic_real =
  qr_address :: string
  qr_id :: u32

datatype address_type = INVALID | HOST | NETWORK

record vip_key =
  vk_address :: string
  vk_port :: u16
  vk_proto :: u8

record lb_class_stats =
  bpfFailedCalls :: u64
  addrValidationFailed :: u64

datatype real_event = RealAdded ip u32 | RealDeleted ip u32

record lb =
  config :: lb_config
  features :: lb_features
  vipNums :: "u32 list"
  realNums :: "u32 list"
  hcKeyNums :: "u32 list"
  lb_reals :: "ip \<rightharpoonup> real_meta"
  numToReals :: "u32 \<rightharpoonup> ip"
  quicMapping :: "(u32 \<times> ip) list"
  vips :: "(vip_key \<times> vip) list"
  lruMissStatsVip :: "vip_key option"
  hckeys :: "(vip_key \<times> u32) list"
  lpmSrcMapping :: "(network \<times> u32) list"
  decapDsts :: "ip list"
  hcReals :: "(u32 \<times> ip) list"
  lbStats :: lb_class_stats
  realsIdCallback :: bool
  cb_log :: "real_event list"
  kmaps :: bst
  hc_key_map :: "vip_definition \<rightharpoonup> u32"
  hc_reals_map :: "u32 \<rightharpoonup> real_definition"
  ncalls :: nat

text \<open>The ways an operation ends: with a value, with an exception, or not at all.\<close>

datatype 'a lbres = Ret 'a | Exn | Diverge

definition kError :: int where "kError = - 1"
definition kMaxQuicIdV2 :: u32 where "kMaxQuicIdV2 = 0x00fffffe"
definition V6DADDR :: u8 where "V6DADDR = 1"

section \<open>BPF map operations\<close>

text \<open>
  A map operation counts as a call; when the kernel refuses it, nothing is written. Deleting a
  key that is not there is refused.
\<close>

definition bpf_call :: "env \<Rightarrow> bool \<Rightarrow> (lb \<Rightarrow> lb) \<Rightarrow> lb \<Rightarrow> bool \<times> lb" where
  "bpf_call e allowed f st =
     (let ok = bpf_ok e (ncalls st) \<and> allowed; st = st\<lparr>ncalls := ncalls st + 1\<rparr>
      in if ok then (True, f st) else (False, st))"

definition failed_call :: "lb \<Rightarrow> lb" where
  "failed_call st = st\<lparr>lbStats := (lbStats st)\<lparr>bpfFailedCalls := bpfFailedCalls (lbStats st) + 1\<rparr>\<rparr>"

text \<open>The pattern of every call whose failure is counted.\<close>

definition counted_call :: "env \<Rightarrow> bool \<Rightarrow> (lb \<Rightarrow> lb) \<Rightarrow> lb \<Rightarrow> bool \<times> lb" where
  "counted_call e allowed f st =
     (let (ok, st) = bpf_call e allowed f st in if ok then (True, st) else (False, failed_call st))"

definition on_kmaps :: "(bst \<Rightarrow> bst) \<Rightarrow> lb \<Rightarrow> lb" where
  "on_kmaps f st = st\<lparr>kmaps := f (kmaps st)\<rparr>"

section \<open>IpHelpers.cpp\<close>

text \<open>struct beaddr has the layout of the data plane's struct real_definition.\<close>

definition parseAddr :: "env \<Rightarrow> bool \<Rightarrow> ip \<Rightarrow> real_definition" where
  "parseAddr e bigendian a =
     (case a of
        V4 w \<Rightarrow> \<lparr>real_dst = Addr (if bigendian then w else bswap32 w) 0 0 0, real_flags = 0\<rparr>
      | V6 x \<Rightarrow>
          let word = (\<lambda>i. if bigendian then addr_part e x i else bswap32 (addr_part e x i))
          in \<lparr>real_dst = Addr (word 0) (word 1) (word 2) (word 3), real_flags = V6DADDR\<rparr>
      | NoIP \<Rightarrow>
          let word = (\<lambda>i. if bigendian then addr_part e zero_addr i else bswap32 (addr_part e zero_addr i))
          in \<lparr>real_dst = Addr (word 0) (word 1) (word 2) (word 3), real_flags = V6DADDR\<rparr>)"

abbreviation parseAddrToBe :: "env \<Rightarrow> ip \<Rightarrow> real_definition" where
  "parseAddrToBe e \<equiv> parseAddr e True"

abbreviation parseAddrToInt :: "env \<Rightarrow> ip \<Rightarrow> real_definition" where
  "parseAddrToInt e \<equiv> parseAddr e False"

section \<open>Addresses\<close>

definition validateAddress :: "env \<Rightarrow> string \<Rightarrow> bool \<Rightarrow> lb \<Rightarrow> address_type \<times> lb" where
  "validateAddress e a allowNetAddr st =
     (if parse_ip e a = None then
        if allowNetAddr \<and> (srcRouting (features st) \<or> testing (config st)) \<and> parse_net e a \<noteq> None
        then (NETWORK, st)
        else (INVALID, st\<lparr>lbStats := (lbStats st)
                \<lparr>addrValidationFailed := addrValidationFailed (lbStats st) + 1\<rparr>\<rparr>)
      else (HOST, st))"

text \<open>None is the exception of folly's constructor for an address it cannot parse.\<close>

definition vipKeyToVipDefinition :: "env \<Rightarrow> vip_key \<Rightarrow> vip_definition option" where
  "vipKeyToVipDefinition e k =
     (case parse_ip e (vk_address k) of
        None \<Rightarrow> None
      | Some a \<Rightarrow>
          let vip_addr = parseAddrToBe e a;
              x = (if real_flags vip_addr AND V6DADDR > 0 then real_dst vip_addr
                   else set_w0 (w0 (real_dst vip_addr)) zero_addr)
          in Some \<lparr>vip_addr = x, vip_port = bswap16 (vk_port k), vip_proto = vk_proto k\<rparr>)"

section \<open>Entries of the data plane's maps\<close>

definition updateVipMap ::
  "env \<Rightarrow> modify_action \<Rightarrow> vip_key \<Rightarrow> vip_meta \<Rightarrow> lb \<Rightarrow> bool lbres \<times> lb" where
  "updateVipMap e act k meta st =
     (case vipKeyToVipDefinition e k of
        None \<Rightarrow> (Exn, st)
      | Some d \<Rightarrow>
          let (ok, st) =
                (if act = ADD
                 then counted_call e True (on_kmaps (\<lambda>m. m\<lparr>vip_map := (vip_map m)(d \<mapsto> meta)\<rparr>)) st
                 else counted_call e (vip_map (kmaps st) d \<noteq> None)
                        (on_kmaps (\<lambda>m. m\<lparr>vip_map := (vip_map m)(d := None)\<rparr>)) st)
          in (Ret ok, st))"

definition updateHcKeyMap ::
  "env \<Rightarrow> modify_action \<Rightarrow> vip_key \<Rightarrow> u32 \<Rightarrow> lb \<Rightarrow> bool lbres \<times> lb" where
  "updateHcKeyMap e act k hcKeyId st =
     (case vipKeyToVipDefinition e k of
        None \<Rightarrow> (Exn, st)
      | Some d \<Rightarrow>
          let (ok, st) =
                (if act = ADD
                 then counted_call e True (\<lambda>st. st\<lparr>hc_key_map := (hc_key_map st)(d \<mapsto> hcKeyId)\<rparr>) st
                 else counted_call e (hc_key_map st d \<noteq> None)
                        (\<lambda>st. st\<lparr>hc_key_map := (hc_key_map st)(d := None)\<rparr>) st)
          in (Ret ok, st))"

definition updateRealsMap :: "env \<Rightarrow> ip \<Rightarrow> u32 \<Rightarrow> u8 \<Rightarrow> lb \<Rightarrow> bool \<times> lb" where
  "updateRealsMap e real num flags st =
     (let real_addr = parseAddrToBe e real;
          flags = flags AND NOT V6DADDR;
          real_addr = real_addr\<lparr>real_flags := real_flags real_addr OR flags\<rparr>
      in counted_call e True (on_kmaps (\<lambda>m. m\<lparr>reals := (reals m)(num \<mapsto> real_addr)\<rparr>)) st)"

section \<open>Reference counts of the reals\<close>

definition notify :: "real_event \<Rightarrow> lb \<Rightarrow> lb" where
  "notify ev st = (if realsIdCallback st then st\<lparr>cb_log := cb_log st @ [ev]\<rparr> else st)"

definition decreaseRefCountForReal :: "ip \<Rightarrow> lb \<Rightarrow> lb" where
  "decreaseRefCountForReal real st =
     (case lb_reals st real of
        None \<Rightarrow> st
      | Some rm \<Rightarrow>
          let rm = rm\<lparr>refCount := refCount rm - 1\<rparr>
          in if refCount rm = 0 then
               let num = rm_num rm;
                   st = st\<lparr>realNums := realNums st @ [num], lb_reals := (lb_reals st)(real := None),
                           numToReals := (numToReals st)(num := None)\<rparr>
               in notify (RealDeleted real num) st
             else st\<lparr>lb_reals := (lb_reals st)(real \<mapsto> rm)\<rparr>)"

definition increaseRefCountForReal :: "env \<Rightarrow> ip \<Rightarrow> u8 \<Rightarrow> lb \<Rightarrow> u32 \<times> lb" where
  "increaseRefCountForReal e real flags st =
     (let flags = flags AND NOT V6DADDR
      in case lb_reals st real of
           Some rm \<Rightarrow>
             (rm_num rm, st\<lparr>lb_reals := (lb_reals st)(real \<mapsto> rm\<lparr>refCount := refCount rm + 1\<rparr>)\<rparr>)
         | None \<Rightarrow>
             (case realNums st of
                [] \<Rightarrow> (maxReals (config st), st)
              | rnum # nums \<Rightarrow>
                  let rmeta = \<lparr>rm_num = rnum, refCount = 1, rm_flags = flags\<rparr>;
                      st = st\<lparr>realNums := nums, numToReals := (numToReals st)(rnum \<mapsto> real),
                              lb_reals := (lb_reals st)(real \<mapsto> rmeta)\<rparr>;
                      st = (if \<not> testing (config st) then snd (updateRealsMap e real rnum flags st) else st)
                  in (rnum, notify (RealAdded real rnum) st)))"

text \<open>numToReals\_[num], which inserts a default address when there is none.\<close>

definition num_to_real :: "u32 \<Rightarrow> lb \<Rightarrow> ip \<times> lb" where
  "num_to_real n st =
     (case numToReals st n of
        Some a \<Rightarrow> (a, st)
      | None \<Rightarrow> (NoIP, st\<lparr>numToReals := (numToReals st)(n \<mapsto> NoIP)\<rparr>))"

end
