(* ===== verification/LbVips.thy ===== *)
theory LbVips
  imports LbState
begin

text \<open>
  Operations of VsoshlbLb.cpp on virtual IPs, their reals and health check keys. The result of an
  operation is Ret with the value it returns, Exn when it throws, Diverge when the hash function
  does not return.
\<close>

section \<open>Virtual IPs\<close>

definition addVip :: "env \<Rightarrow> vip_key \<Rightarrow> u32 \<Rightarrow> lb \<Rightarrow> bool lbres \<times> lb" where
  "addVip e vip flags st =
     (let (t, st) = validateAddress e (vk_address vip) False st
      in if t = INVALID then (Ret False, st)
         else case vipNums st of
           [] \<Rightarrow> (Ret False, st)
         | vnum # nums \<Rightarrow>
             if map_of (vips st) vip \<noteq> None then (Ret False, st)
             else
               let st = st\<lparr>vipNums := nums,
                     vips := AList.update vip
                       (new_vip vnum flags (cfg_chRingSize (config st)) (hashFunction (config st))) (vips st)\<rparr>
               in if testing (config st) then (Ret True, st)
                  else
                    let (r, st) = updateVipMap e ADD vip \<lparr>vip_flags = flags, vip_num = vnum\<rparr> st
                    in (if r = Exn then Exn else Ret True, st))"

definition programHashRing :: "env \<Rightarrow> real_pos list \<Rightarrow> u32 \<Rightarrow> lb \<Rightarrow> lb" where
  "programHashRing e chPositions vnum st =
     (if chPositions = [] \<or> testing (config st) then st
      else
        let put = (\<lambda>ps. on_kmaps (\<lambda>m. m\<lparr>ch_rings :=
                    fold (\<lambda>p t. t(ring_key e vnum p \<mapsto> rp_real p)) ps (ch_rings m)\<rparr>));
            n = ncalls st;
            (ok, st) = counted_call e True (put chPositions) st
        in if ok then st else put (take (batch_part e n) chPositions) st)"

text \<open>The vip of an operation, with what it became written back into vips.\<close>

definition put_vip :: "vip_key \<Rightarrow> vip \<Rightarrow> lb \<Rightarrow> lb" where
  "put_vip k v st = st\<lparr>vips := AList.update k v (vips st)\<rparr>"

definition changeHashFunctionForVip ::
  "env \<Rightarrow> vip_key \<Rightarrow> hash_function \<Rightarrow> lb \<Rightarrow> bool lbres \<times> lb" where
  "changeHashFunctionForVip e vip func st =
     (let (t, st) = validateAddress e (vk_address vip) False st
      in if t = INVALID then (Ret False, st)
         else case map_of (vips st) vip of
           None \<Rightarrow> (Ret False, st)
         | Some v \<Rightarrow>
             let v = setHashFunction func v
             in case recalculateHashRing (hash_of e) v of
                  None \<Rightarrow> (Diverge, put_vip vip v st)
                | Some (positions, v') \<Rightarrow>
                    (Ret True, programHashRing e positions (vipNum v') (put_vip vip v' st)))"

definition delVip :: "env \<Rightarrow> vip_key \<Rightarrow> lb \<Rightarrow> bool lbres \<times> lb" where
  "delVip e vip st =
     (case map_of (vips st) vip of
        None \<Rightarrow> (Ret False, st)
      | Some v \<Rightarrow>
          let st = fold (\<lambda>n st. let (real_name, st) = num_to_real n st
                                in decreaseRefCountForReal real_name st) (getReals v) st;
              st = st\<lparr>vipNums := vipNums st @ [vipNum v]\<rparr>;
              (r, st) = (if testing (config st) then (Ret True, st)
                         else updateVipMap e DEL vip \<lparr>vip_flags = 0, vip_num = 0\<rparr> st)
          in if r = Exn then (Exn, st)
             else (Ret True, st\<lparr>vips := AList.delete vip (vips st)\<rparr>))"

definition getAllVips :: "lb \<Rightarrow> vip_key list" where
  "getAllVips st = map fst (vips st)"

definition getVipFlags :: "vip_key \<Rightarrow> lb \<Rightarrow> u32 lbres" where
  "getVipFlags vip st = (case map_of (vips st) vip of None \<Rightarrow> Exn | Some v \<Rightarrow> Ret (vipFlags v))"

definition modifyVip :: "env \<Rightarrow> vip_key \<Rightarrow> u32 \<Rightarrow> bool \<Rightarrow> lb \<Rightarrow> bool lbres \<times> lb" where
  "modifyVip e vip flag set_flag st =
     (case map_of (vips st) vip of
        None \<Rightarrow> (Ret False, st)
      | Some v \<Rightarrow>
          let v = (if set_flag then setVipFlags flag v else unsetVipFlags flag v);
              st = put_vip vip v st
          in if testing (config st) then (Ret True, st)
             else updateVipMap e ADD vip \<lparr>vip_flags = vipFlags v, vip_num = vipNum v\<rparr> st)"

section \<open>Health check keys\<close>

definition addHcKey :: "env \<Rightarrow> vip_key \<Rightarrow> lb \<Rightarrow> bool lbres \<times> lb" where
  "addHcKey e k st =
     (if \<not> enableHc (config st) then (Ret False, st)
      else case hcKeyNums st of
        [] \<Rightarrow> (Ret False, st)
      | n # nums \<Rightarrow>
          if map_of (hckeys st) k \<noteq> None then (Ret False, st)
          else
            let st = st\<lparr>hcKeyNums := nums, hckeys := AList.update k n (hckeys st)\<rparr>
            in if testing (config st) then (Ret True, st) else updateHcKeyMap e ADD k n st)"

definition delHcKey :: "env \<Rightarrow> vip_key \<Rightarrow> lb \<Rightarrow> bool lbres \<times> lb" where
  "delHcKey e k st =
     (if \<not> enableHc (config st) then (Ret False, st)
      else case map_of (hckeys st) k of
        None \<Rightarrow> (Ret False, st)
      | Some n \<Rightarrow>
          let st = st\<lparr>hcKeyNums := hcKeyNums st @ [n], hckeys := AList.delete k (hckeys st)\<rparr>
          in if testing (config st) then (Ret True, st) else updateHcKeyMap e DEL k 0 st)"

section \<open>Reals\<close>

definition modifyReal :: "env \<Rightarrow> string \<Rightarrow> u8 \<Rightarrow> bool \<Rightarrow> lb \<Rightarrow> bool \<times> lb" where
  "modifyReal e real flags set_flag st =
     (let (t, st) = validateAddress e real False st
      in if t = INVALID then (False, st)
         else
           let raddr = the (parse_ip e real)
           in case lb_reals st raddr of
                None \<Rightarrow> (False, st)
              | Some rm \<Rightarrow>
                  let flags = flags AND NOT V6DADDR;
                      rm = (if set_flag then rm\<lparr>rm_flags := rm_flags rm OR flags\<rparr>
                            else rm\<lparr>rm_flags := rm_flags rm AND NOT flags\<rparr>);
                      st = st\<lparr>lb_reals := (lb_reals st)(raddr \<mapsto> rm)\<rparr>;
                      st = (if testing (config st) then st
                            else snd (updateRealsMap e raddr (rm_num rm) (rm_flags rm) st))
                  in (True, st))"

text \<open>
  One iteration of the loop over the reals in modifyRealsForVip: the numbers of the VIP's reals
  and the updates collected so far are part of its state. The weight and the hash of an update
  that deletes are not read.
\<close>

definition modify_step :: "env \<Rightarrow> modify_action \<Rightarrow> new_real \<Rightarrow> u32 list \<times> update_real list \<times> lb
    \<Rightarrow> u32 list \<times> update_real list \<times> lb" where
  "modify_step e act real s =
     (let (cur_reals, ureals, st) = s;
          (t, st) = validateAddress e (nr_address real) False st
      in if t = INVALID then (cur_reals, ureals, st)
         else
           let raddr = the (parse_ip e (nr_address real))
           in if act = DEL then
                case lb_reals st raddr of
                  None \<Rightarrow> (cur_reals, ureals, st)
                | Some rm \<Rightarrow>
                    if rm_num rm \<notin> set cur_reals then (cur_reals, ureals, st)
                    else
                      (cur_reals,
                       ureals @ [\<lparr>action = DEL,
                                  updatedReal = \<lparr>ep_num = rm_num rm, ep_weight = 0, ep_hash = 0\<rparr>\<rparr>],
                       decreaseRefCountForReal raddr st)
              else
                let upd = (\<lambda>n. \<lparr>action = ADD, updatedReal =
                       \<lparr>ep_num = n, ep_weight = nr_weight real, ep_hash = ip_hash e raddr\<rparr>\<rparr>)
                in case lb_reals st raddr of
                     Some rm \<Rightarrow>
                       if rm_num rm \<notin> set cur_reals then
                         let (_, st) = increaseRefCountForReal e raddr (nr_flags real) st
                         in (cur_reals @ [rm_num rm], ureals @ [upd (rm_num rm)], st)
                       else (cur_reals, ureals @ [upd (rm_num rm)], st)
                   | None \<Rightarrow>
                       let (rnum, st) = increaseRefCountForReal e raddr (nr_flags real) st
                       in if rnum = maxReals (config st) then (cur_reals, ureals, st)
                          else (cur_reals, ureals @ [upd rnum], st))"

definition modifyRealsForVip ::
  "env \<Rightarrow> modify_action \<Rightarrow> new_real list \<Rightarrow> vip_key \<Rightarrow> lb \<Rightarrow> bool lbres \<times> lb" where
  "modifyRealsForVip e act rs vip st =
     (case map_of (vips st) vip of
        None \<Rightarrow> (Ret False, st)
      | Some v \<Rightarrow>
          let (_, ureals, st) = fold (modify_step e act) rs (getReals v, [], st)
          in case batchRealsUpdate (hash_of e) ureals v of
               None \<Rightarrow> (Diverge, put_vip vip (snd (getEndpoints ureals v)) st)
             | Some (ch_positions, v') \<Rightarrow>
                 (Ret True, programHashRing e ch_positions (vipNum v') (put_vip vip v' st)))"

definition addRealForVip :: "env \<Rightarrow> new_real \<Rightarrow> vip_key \<Rightarrow> lb \<Rightarrow> bool lbres \<times> lb" where
  "addRealForVip e real vip st = modifyRealsForVip e ADD [real] vip st"

definition delRealForVip :: "env \<Rightarrow> new_real \<Rightarrow> vip_key \<Rightarrow> lb \<Rightarrow> bool lbres \<times> lb" where
  "delRealForVip e real vip st = modifyRealsForVip e DEL [real] vip st"

text \<open>A real of the VIP: its weight, its address and its flags (0 for an address not in reals).\<close>

definition getRealsForVip :: "vip_key \<Rightarrow> lb \<Rightarrow> (u32 \<times> ip \<times> u8) list lbres \<times> lb" where
  "getRealsForVip vip st =
     (case map_of (vips st) vip of
        None \<Rightarrow> (Exn, st)
      | Some v \<Rightarrow>
          let (rs, st) = fold (\<lambda>r (rs, st).
                let (a, st) = num_to_real (ep_num r) st;
                    st = (if lb_reals st a = None
                          then st\<lparr>lb_reals := (lb_reals st)(a \<mapsto> \<lparr>rm_num = 0, refCount = 0, rm_flags = 0\<rparr>)\<rparr>
                          else st)
                in (rs @ [(ep_weight r, a, rm_flags (the (lb_reals st a)))], st)) (getRealsAndWeight v) ([], st)
          in (Ret rs, st))"

definition getIndexForReal :: "env \<Rightarrow> string \<Rightarrow> lb \<Rightarrow> int \<times> lb" where
  "getIndexForReal e real st =
     (let (t, st) = validateAddress e real False st
      in if t = INVALID then (kError, st)
         else case lb_reals st (the (parse_ip e real)) of
           Some rm \<Rightarrow> (uint (rm_num rm), st)
         | None \<Rightarrow> (kError, st))"

definition getNumToRealMap :: "lb \<Rightarrow> u32 \<rightharpoonup> ip" where
  "getNumToRealMap st = numToReals st"

end
