(* ===== verification/LbRoutes.thy ===== *)
theory LbRoutes
  imports LbState BpfMaps
begin

text \<open>
  Operations of VsoshlbLb.cpp on source routing rules, addresses for inline decapsulation, QUIC
  server ids, health check destinations, and the invalidation and revalidation of server ids.
\<close>

section \<open>Source routing\<close>

text \<open>
  modifyLpmSrcRule with modifyLpmMap: the address goes through its text form and back, which folly
  keeps; the kernel refuses a prefix longer than the address, and to delete a key that is not
  there.
\<close>

definition modifyLpmSrcRule :: "env \<Rightarrow> modify_action \<Rightarrow> network \<Rightarrow> u32 \<Rightarrow> lb \<Rightarrow> bool \<times> lb" where
  "modifyLpmSrcRule e act prefix rnum st =
     (let lpm_addr = real_dst (parseAddrToBe e (fst prefix))
      in case fst prefix of
           V4 _ \<Rightarrow>
             let k = (ucast (snd prefix), lpm_mask4 (unat (snd prefix)) (w0 lpm_addr))
             in if act = ADD
                then counted_call e (snd prefix \<le> 32)
                       (on_kmaps (\<lambda>m. m\<lparr>lpm_src_v4 := (lpm_src_v4 m)(k \<mapsto> rnum)\<rparr>)) st
                else counted_call e (lpm_src_v4 (kmaps st) k \<noteq> None)
                       (on_kmaps (\<lambda>m. m\<lparr>lpm_src_v4 := (lpm_src_v4 m)(k := None)\<rparr>)) st
         | _ \<Rightarrow>
             let k = (ucast (snd prefix), lpm_mask6 (unat (snd prefix)) lpm_addr)
             in if act = ADD
                then counted_call e (snd prefix \<le> 128)
                       (on_kmaps (\<lambda>m. m\<lparr>lpm_src_v6 := (lpm_src_v6 m)(k \<mapsto> rnum)\<rparr>)) st
                else counted_call e (lpm_src_v6 (kmaps st) k \<noteq> None)
                       (on_kmaps (\<lambda>m. m\<lparr>lpm_src_v6 := (lpm_src_v6 m)(k := None)\<rparr>)) st)"

definition no_src_routing :: "lb \<Rightarrow> bool" where
  "no_src_routing st = (\<not> srcRouting (features st) \<and> \<not> testing (config st))"

text \<open>The loop over the networks; the rules installed before an error stay.\<close>

fun add_src_rules :: "env \<Rightarrow> ip \<Rightarrow> network list \<Rightarrow> lb \<Rightarrow> int \<times> lb" where
  "add_src_rules e dst_ip [] st = (0, st)"
| "add_src_rules e dst_ip (s_net # srcs) st =
     (if length (lpmSrcMapping st) + 1 > unat (maxLpmSrcSize (config st)) then (kError, st)
      else
        let (rnum, st) = increaseRefCountForReal e dst_ip 0 st
        in if rnum = maxReals (config st) then (kError, st)
           else
             let st = st\<lparr>lpmSrcMapping := AList.update s_net rnum (lpmSrcMapping st)\<rparr>;
                 st = (if testing (config st) then st else snd (modifyLpmSrcRule e ADD s_net rnum st))
             in add_src_rules e dst_ip srcs st)"

definition addSrcRoutingRule_cidr :: "env \<Rightarrow> network list \<Rightarrow> string \<Rightarrow> lb \<Rightarrow> int \<times> lb" where
  "addSrcRoutingRule_cidr e srcs dst_addr st =
     (if no_src_routing st then (kError, st)
      else
        let (t, st) = validateAddress e dst_addr False st
        in if t = INVALID then (kError, st)
           else add_src_rules e (the (parse_ip e dst_addr)) srcs st)"

text \<open>
  The loop of the version that takes text: the networks collected and the number of errors. n_srcs
  is the number of all sources.
\<close>

fun collect_srcs ::
  "env \<Rightarrow> nat \<Rightarrow> string list \<Rightarrow> network list \<times> int \<times> lb \<Rightarrow> network list \<times> int \<times> lb" where
  "collect_srcs e n_srcs [] s = s"
| "collect_srcs e n_srcs (s_net # srcs) (nets, num_errors, st) =
     (let (t, st) = validateAddress e s_net True st
      in if t \<noteq> NETWORK then collect_srcs e n_srcs srcs (nets, num_errors + 1, st)
         else if length (lpmSrcMapping st) + length nets + 1 > unat (maxLpmSrcSize (config st))
         then (nets, num_errors + (int n_srcs - int (length nets)), st)
         else collect_srcs e n_srcs srcs (nets @ [the (parse_net e s_net)], num_errors, st))"

definition addSrcRoutingRule :: "env \<Rightarrow> string list \<Rightarrow> string \<Rightarrow> lb \<Rightarrow> int \<times> lb" where
  "addSrcRoutingRule e srcs dst_addr st =
     (if no_src_routing st then (kError, st)
      else
        let (t, st) = validateAddress e dst_addr False st
        in if t = INVALID then (kError, st)
           else
             let (nets, num_errors, st) = collect_srcs e (length srcs) srcs ([], 0, st);
                 (rval, st) = addSrcRoutingRule_cidr e nets dst_addr st
             in (if rval = kError then rval else num_errors, st))"

definition del_src_rule :: "env \<Rightarrow> network \<Rightarrow> lb \<Rightarrow> lb" where
  "del_src_rule e s_net st =
     (case map_of (lpmSrcMapping st) s_net of
        None \<Rightarrow> st
      | Some n \<Rightarrow>
          let (d, st) = num_to_real n st;
              st = decreaseRefCountForReal d st;
              st = (if testing (config st) then st else snd (modifyLpmSrcRule e DEL s_net n st))
          in st\<lparr>lpmSrcMapping := AList.delete s_net (lpmSrcMapping st)\<rparr>)"

definition delSrcRoutingRule_cidr :: "env \<Rightarrow> network list \<Rightarrow> lb \<Rightarrow> bool \<times> lb" where
  "delSrcRoutingRule_cidr e srcs st =
     (if no_src_routing st then (False, st) else (True, fold (del_src_rule e) srcs st))"

definition delSrcRoutingRule :: "env \<Rightarrow> string list \<Rightarrow> lb \<Rightarrow> bool \<times> lb" where
  "delSrcRoutingRule e srcs st =
     (if no_src_routing st then (False, st)
      else delSrcRoutingRule_cidr e (List.map_filter (parse_net e) srcs) st)"

text \<open>
  Clearing looks the destination up with find and follows the iterator: a number without a real
  would be read through the end iterator, which is the value None.
\<close>

fun clear_src_rules :: "env \<Rightarrow> (network \<times> u32) list \<Rightarrow> lb \<Rightarrow> lb option" where
  "clear_src_rules e [] st = Some st"
| "clear_src_rules e ((s_net, n) # rules) st =
     (case numToReals st n of
        None \<Rightarrow> None
      | Some d \<Rightarrow>
          let st = decreaseRefCountForReal d st;
              st = (if testing (config st) then st else snd (modifyLpmSrcRule e DEL s_net n st))
          in clear_src_rules e rules st)"

definition clearAllSrcRoutingRules :: "env \<Rightarrow> lb \<Rightarrow> (bool \<times> lb) option" where
  "clearAllSrcRoutingRules e st =
     (if no_src_routing st then Some (False, st)
      else case clear_src_rules e (lpmSrcMapping st) st of
        None \<Rightarrow> None
      | Some st \<Rightarrow> Some (True, st\<lparr>lpmSrcMapping := []\<rparr>))"

definition getSrcRoutingRuleSize :: "lb \<Rightarrow> u32" where
  "getSrcRoutingRuleSize st = of_nat (length (lpmSrcMapping st))"

definition getSrcRoutingRuleCidr :: "lb \<Rightarrow> (network \<times> ip) list \<times> lb" where
  "getSrcRoutingRuleCidr st =
     (if no_src_routing st then ([], st)
      else fold (\<lambda>(s_net, n) (rs, st). let (a, st) = num_to_real n st in (rs @ [(s_net, a)], st))
             (lpmSrcMapping st) ([], st))"

section \<open>Inline decapsulation\<close>

definition modifyDecapDst :: "env \<Rightarrow> modify_action \<Rightarrow> ip \<Rightarrow> u32 \<Rightarrow> lb \<Rightarrow> bool \<times> lb" where
  "modifyDecapDst e act d flags st =
     (let a = real_dst (parseAddrToBe e d)
      in if act = ADD
         then counted_call e True (on_kmaps (\<lambda>m. m\<lparr>decap_dst := (decap_dst m)(a \<mapsto> flags)\<rparr>)) st
         else counted_call e (decap_dst (kmaps st) a \<noteq> None)
                (on_kmaps (\<lambda>m. m\<lparr>decap_dst := (decap_dst m)(a := None)\<rparr>)) st)"

definition no_inline_decap :: "lb \<Rightarrow> bool" where
  "no_inline_decap st = (\<not> inlineDecap (features st) \<and> \<not> testing (config st))"

definition addInlineDecapDst :: "env \<Rightarrow> string \<Rightarrow> lb \<Rightarrow> bool \<times> lb" where
  "addInlineDecapDst e d st =
     (if no_inline_decap st then (False, st)
      else
        let (t, st) = validateAddress e d False st
        in if t = INVALID then (False, st)
           else
             let daddr = the (parse_ip e d)
             in if daddr \<in> set (decapDsts st) then (False, st)
                else if length (decapDsts st) + 1 > unat (maxDecapDst (config st)) then (False, st)
                else
                  let st = st\<lparr>decapDsts := decapDsts st @ [daddr]\<rparr>;
                      st = (if testing (config st) then st else snd (modifyDecapDst e ADD daddr 0 st))
                  in (True, st))"

definition delInlineDecapDst :: "env \<Rightarrow> string \<Rightarrow> lb \<Rightarrow> bool \<times> lb" where
  "delInlineDecapDst e d st =
     (if no_inline_decap st then (False, st)
      else
        let (t, st) = validateAddress e d False st
        in if t = INVALID then (False, st)
           else
             let daddr = the (parse_ip e d)
             in if daddr \<notin> set (decapDsts st) then (False, st)
                else
                  let st = st\<lparr>decapDsts := removeAll daddr (decapDsts st)\<rparr>;
                      st = (if testing (config st) then st else snd (modifyDecapDst e DEL daddr 0 st))
                  in (True, st))"

definition getInlineDecapDst :: "lb \<Rightarrow> ip list" where
  "getInlineDecapDst st = decapDsts st"

section \<open>QUIC server ids\<close>

text \<open>One iteration of the loop; to_update is the map of the entries to write.\<close>

definition quic_step ::
  "env \<Rightarrow> modify_action \<Rightarrow> quic_real \<Rightarrow> (u32 \<times> u32) list \<times> lb \<Rightarrow> (u32 \<times> u32) list \<times> lb" where
  "quic_step e act real s =
     (let (to_update, st) = s;
          (t, st) = validateAddress e (qr_address real) False st
      in if t = INVALID then (to_update, st)
         else if \<not> enableCidV3 (config st) \<and> qr_id real > kMaxQuicIdV2 then (to_update, st)
         else
           let raddr = the (parse_ip e (qr_address real));
               cur = map_of (quicMapping st) (qr_id real)
           in if act = DEL then
                case cur of
                  None \<Rightarrow> (to_update, st)
                | Some a \<Rightarrow>
                    if a \<noteq> raddr then (to_update, st)
                    else (to_update,
                          (decreaseRefCountForReal raddr st)
                            \<lparr>quicMapping := AList.delete (qr_id real) (quicMapping st)\<rparr>)
              else if cur = Some raddr then (to_update, st)
              else
                let st = (case cur of Some a \<Rightarrow> decreaseRefCountForReal a st | None \<Rightarrow> st);
                    (rnum, st) = increaseRefCountForReal e raddr 0 st
                in if rnum = maxReals (config st) then (to_update, st)
                   else (AList.update (qr_id real) rnum to_update,
                         st\<lparr>quicMapping := AList.update (qr_id real) raddr (quicMapping st)\<rparr>))"

definition put_server_id :: "env \<Rightarrow> u32 \<Rightarrow> u32 \<Rightarrow> lb \<Rightarrow> lb" where
  "put_server_id e i rnum st =
     snd (counted_call e True (on_kmaps (\<lambda>m. m\<lparr>server_id_map := (server_id_map m)(i \<mapsto> rnum)\<rparr>)) st)"

definition modifyQuicRealsMapping :: "env \<Rightarrow> modify_action \<Rightarrow> quic_real list \<Rightarrow> lb \<Rightarrow> lb" where
  "modifyQuicRealsMapping e act rs st =
     (let (to_update, st) = fold (quic_step e act) rs ([], st)
      in if testing (config st) then st
         else fold (\<lambda>(i, rnum) st. put_server_id e i rnum st) to_update st)"

definition getQuicRealsMapping :: "lb \<Rightarrow> (u32 \<times> ip) list" where
  "getQuicRealsMapping st = quicMapping st"

definition invalidateServerIds :: "env \<Rightarrow> u32 list \<Rightarrow> lb \<Rightarrow> lb" where
  "invalidateServerIds e ids st =
     fold (\<lambda>i st.
        if enableCidV3 (config st)
        then snd (counted_call e (server_id_map (kmaps st) i \<noteq> None)
               (on_kmaps (\<lambda>m. m\<lparr>server_id_map := (server_id_map m)(i := None)\<rparr>)) st)
        else put_server_id e i 0 st) ids st"

definition revalidateServerIds ::
  "env \<Rightarrow> (env \<Rightarrow> string \<Rightarrow> lb \<Rightarrow> int \<times> lb) \<Rightarrow> quic_real list \<Rightarrow> lb \<Rightarrow> lb" where
  "revalidateServerIds e get_index rs st =
     fold (\<lambda>r st.
        let (i, st) = get_index e (qr_address r) st
        in if i = kError then st else put_server_id e (qr_id r) (word_of_int i) st) rs st"

section \<open>Health check destinations\<close>

definition addHealthcheckerDst :: "env \<Rightarrow> u32 \<Rightarrow> string \<Rightarrow> lb \<Rightarrow> bool \<times> lb" where
  "addHealthcheckerDst e somark d st =
     (if \<not> enableHc (config st) then (False, st)
      else
        let (t, st) = validateAddress e d False st
        in if t = INVALID then (False, st)
           else
             let hcaddr = the (parse_ip e d)
             in if map_of (hcReals st) somark = None \<and>
                   length (hcReals st) = unat (maxReals (config st)) then (False, st)
                else
                  let v4 = (case hcaddr of V4 _ \<Rightarrow> True | _ \<Rightarrow> False);
                      a = (if v4 \<and> \<not> directHealthchecking (features st)
                           then parseAddrToInt e hcaddr else parseAddrToBe e hcaddr);
                      (ok, st) = (if testing (config st) then (True, st)
                         else counted_call e True
                                (\<lambda>st. st\<lparr>hc_reals_map := (hc_reals_map st)(somark \<mapsto> a)\<rparr>) st)
                  in if \<not> ok then (False, st)
                     else (True, st\<lparr>hcReals := AList.update somark hcaddr (hcReals st)\<rparr>))"

definition delHealthcheckerDst :: "env \<Rightarrow> u32 \<Rightarrow> lb \<Rightarrow> bool \<times> lb" where
  "delHealthcheckerDst e somark st =
     (if \<not> enableHc (config st) then (False, st)
      else if map_of (hcReals st) somark = None then (False, st)
      else
        let (ok, st) = (if testing (config st) then (True, st)
              else counted_call e (hc_reals_map st somark \<noteq> None)
                     (\<lambda>st. st\<lparr>hc_reals_map := (hc_reals_map st)(somark := None)\<rparr>) st)
        in if \<not> ok then (False, st)
           else (True, st\<lparr>hcReals := AList.delete somark (hcReals st)\<rparr>))"

definition getHealthcheckersDst :: "lb \<Rightarrow> (u32 \<times> ip) list" where
  "getHealthcheckersDst st = hcReals st"

end
