(* ===== verification/LbPools.thy ===== *)
theory LbPools
  imports LbVips LbRoutes
begin

text \<open>
  The pools of numbers of the control plane. VIPs, reals and health check keys draw their numbers
  from queues. A pool is partitioned when every number is either in the queue, once, or held by
  exactly one owner. The locale number_pool is the interface of acquiring and releasing; it is
  interpreted for the three pools.
\<close>

section \<open>Partition of a pool\<close>

definition pool :: "u32 set \<Rightarrow> u32 list \<Rightarrow> ('k \<rightharpoonup> u32) \<Rightarrow> bool" where
  "pool A free own \<longleftrightarrow>
     distinct free \<and> set free \<union> ran own = A \<and> set free \<inter> ran own = {} \<and> inj_on own (dom own)"

lemma pool_owner_unique:
  "pool A free own \<Longrightarrow> own k = Some n \<Longrightarrow> own k' = Some n \<Longrightarrow> k = k'"
  unfolding pool_def by (metis domI inj_onD)

lemma pool_owner_in: "pool A free own \<Longrightarrow> own k = Some n \<Longrightarrow> n \<in> A \<and> n \<notin> set free"
  unfolding pool_def by (auto simp: ran_def)

lemma pool_take:
  assumes "pool A (n # free) own" "own k = None"
  shows "pool A free (own(k \<mapsto> n))"
proof -
  have "ran (own(k \<mapsto> n)) = insert n (ran own)" by (simp add: assms(2))
  moreover have "n \<notin> ran own" using assms(1) unfolding pool_def by auto
  moreover have "inj_on (own(k \<mapsto> n)) (dom (own(k \<mapsto> n)))"
    using assms(1) \<open>n \<notin> ran own\<close> unfolding pool_def
    by (auto simp: inj_on_def ran_def dom_def split: if_splits)
  ultimately show ?thesis using assms(1) unfolding pool_def by auto
qed

lemma ran_remove:
  assumes "inj_on own (dom own)" "own k = Some n"
  shows "ran (own(k := None)) = ran own - {n}"
proof -
  have "x \<noteq> n" if "own j = Some x" "j \<noteq> k" for j x
    using assms that by (metis domI inj_onD)
  then show ?thesis using assms(2) by (auto simp: ran_def split: if_splits) (metis option.inject)
qed

lemma pool_give:
  assumes "pool A free own" "own k = Some n"
  shows "pool A (free @ [n]) (own(k := None))"
proof -
  have inj: "inj_on own (dom own)" using assms(1) unfolding pool_def by blast
  have "inj_on (own(k := None)) (dom (own(k := None)))"
    using inj by (auto simp: inj_on_def dom_def)
  moreover have "n \<notin> set free" "n \<in> ran own"
    using assms unfolding pool_def by (auto simp: ran_def)
  ultimately show ?thesis using assms(1) ran_remove [OF inj assms(2)] unfolding pool_def by auto
qed

section \<open>The interface\<close>

locale number_pool =
  fixes free :: "'s \<Rightarrow> u32 list"
    and own :: "'s \<Rightarrow> 'k \<Rightarrow> u32 option"
    and ready :: "'s \<Rightarrow> bool"
    and acquire :: "'k \<Rightarrow> 's \<Rightarrow> 's"
    and release :: "'k \<Rightarrow> 's \<Rightarrow> 's"
  assumes acquire_law:
    "free (acquire k s) = free s \<and> own (acquire k s) = own s \<or>
     own s k = None \<and> (\<exists>n. free s = n # free (acquire k s) \<and> own (acquire k s) = (own s)(k \<mapsto> n))"
  and release_law:
    "ready s \<Longrightarrow> free (release k s) = free s \<and> own (release k s) = own s \<or>
     (\<exists>n. own s k = Some n \<and> free (release k s) = free s @ [n] \<and> own (release k s) = (own s)(k := None))"
begin

lemma acquire_pool: "pool A (free s) (own s) \<Longrightarrow> pool A (free (acquire k s)) (own (acquire k s))"
  using acquire_law [of k s] pool_take by fastforce

lemma release_pool:
  "ready s \<Longrightarrow> pool A (free s) (own s) \<Longrightarrow> pool A (free (release k s)) (own (release k s))"
  using release_law [of s k] pool_give by fastforce

lemma acquire_fresh:
  assumes "pool A (free s) (own s)" "own s k = None" "own (acquire k s) k = Some n"
  shows "n \<in> A \<and> n \<notin> ran (own s)"
proof -
  have "free s = n # free (acquire k s)"
    using acquire_law [of k s] assms(2,3) by force
  then show ?thesis using assms(1) unfolding pool_def by auto
qed

end

section \<open>The owners\<close>

definition vip_nums :: "lb \<Rightarrow> (vip_key \<times> u32) list" where
  "vip_nums st = map (\<lambda>(k, v). (k, vipNum v)) (vips st)"

definition vip_own :: "lb \<Rightarrow> vip_key \<Rightarrow> u32 option" where
  "vip_own st = map_of (vip_nums st)"

definition real_own :: "lb \<Rightarrow> ip \<Rightarrow> u32 option" where
  "real_own st a = map_option rm_num (lb_reals st a)"

definition hc_own :: "lb \<Rightarrow> vip_key \<Rightarrow> u32 option" where
  "hc_own st = map_of (hckeys st)"

lemma vip_own_map: "vip_own st k = map_option vipNum (map_of (vips st) k)"
  by (simp add: vip_own_def vip_nums_def map_of_map)

section \<open>What the helpers leave alone\<close>

text \<open>
  hull is the part of the state that pools and owners consist of: what validation, counters, map
  writes and the tables of routes, QUIC ids and health check destinations are not.
\<close>

definition hull :: "lb \<Rightarrow> lb" where
  "hull st = st\<lparr>lbStats := \<lparr>bpfFailedCalls = 0, addrValidationFailed = 0\<rparr>, kmaps := undefined,
     hc_key_map := Map.empty, hc_reals_map := Map.empty, ncalls := 0, cb_log := [],
     quicMapping := [], lpmSrcMapping := [], decapDsts := [], hcReals := [], lruMissStatsVip := None\<rparr>"

lemma hull_fields:
  assumes "hull st' = hull st"
  shows "config st' = config st" "features st' = features st" "vipNums st' = vipNums st"
    "realNums st' = realNums st"
    "hcKeyNums st' = hcKeyNums st" "lb_reals st' = lb_reals st" "numToReals st' = numToReals st"
    "vips st' = vips st" "hckeys st' = hckeys st"
proof -
  have f: "f st' = f st" if "\<And>x. f (hull x) = f x" for f :: "lb \<Rightarrow> 'a"
    using that assms by metis
  show "config st' = config st" "features st' = features st" "vipNums st' = vipNums st"
    "realNums st' = realNums st"
    "hcKeyNums st' = hcKeyNums st" "lb_reals st' = lb_reals st" "numToReals st' = numToReals st"
    "vips st' = vips st" "hckeys st' = hckeys st"
    by (rule f, simp add: hull_def)+
qed

lemma hull_upd:
  "hull (st\<lparr>vipNums := a\<rparr>) = (hull st)\<lparr>vipNums := a\<rparr>"
  "hull (st\<lparr>hcKeyNums := a\<rparr>) = (hull st)\<lparr>hcKeyNums := a\<rparr>"
  "hull (st\<lparr>realNums := a\<rparr>) = (hull st)\<lparr>realNums := a\<rparr>"
  "hull (st\<lparr>vips := b\<rparr>) = (hull st)\<lparr>vips := b\<rparr>"
  "hull (st\<lparr>hckeys := c\<rparr>) = (hull st)\<lparr>hckeys := c\<rparr>"
  "hull (st\<lparr>lb_reals := d\<rparr>) = (hull st)\<lparr>lb_reals := d\<rparr>"
  "hull (st\<lparr>numToReals := n\<rparr>) = (hull st)\<lparr>numToReals := n\<rparr>"
  by (simp_all add: hull_def)

lemma hull_failed_call [simp]: "hull (failed_call st) = hull st"
  by (simp add: failed_call_def hull_def)

lemma hull_on_kmaps [simp]: "hull (on_kmaps f st) = hull st"
  by (simp add: on_kmaps_def hull_def)

lemma hull_counted:
  assumes "\<And>s. hull (f s) = hull s"
  shows "hull (snd (counted_call e b f st)) = hull st"
proof -
  have "hull (f (st\<lparr>ncalls := ncalls st + 1\<rparr>)) = hull st" by (simp add: assms) (simp add: hull_def)
  moreover have "hull (st\<lparr>ncalls := ncalls st + 1\<rparr>) = hull st" by (simp add: hull_def)
  ultimately show ?thesis by (simp add: counted_call_def bpf_call_def Let_def)
qed

lemma hull_validate [simp]: "hull (snd (validateAddress e a n st)) = hull st"
  by (simp add: validateAddress_def hull_def)

lemma hull_updateVipMap [simp]: "hull (snd (updateVipMap e act k m st)) = hull st"
proof -
  have "hull (snd (counted_call e b (on_kmaps f) st)) = hull st" for b f by (rule hull_counted) simp
  then show ?thesis
    by (simp add: updateVipMap_def Let_def split_def split: option.split)
qed

lemma hull_updateHcKeyMap [simp]: "hull (snd (updateHcKeyMap e act k m st)) = hull st"
proof -
  have "hull (snd (counted_call e b (\<lambda>s. s\<lparr>hc_key_map := f s\<rparr>) st)) = hull st" for b f
    by (rule hull_counted) (simp add: hull_def)
  then show ?thesis
    by (simp add: updateHcKeyMap_def Let_def split_def split: option.split)
qed

lemma hull_updateRealsMap [simp]: "hull (snd (updateRealsMap e a n f st)) = hull st"
  by (simp add: updateRealsMap_def Let_def hull_counted)

lemma hull_notify [simp]: "hull (notify ev st) = hull st"
  by (simp add: notify_def hull_def)

section \<open>The pool of the reals\<close>

lemma increase_cases:
  obtains (known) rm where "lb_reals st a = Some rm"
    "increaseRefCountForReal e a f st =
       (rm_num rm, st\<lparr>lb_reals := (lb_reals st)(a \<mapsto> rm\<lparr>refCount := refCount rm + 1\<rparr>)\<rparr>)"
  | (exhausted) "lb_reals st a = None" "realNums st = []"
    "increaseRefCountForReal e a f st = (maxReals (config st), st)"
  | (fresh) n ns st' where "lb_reals st a = None" "realNums st = n # ns"
    "increaseRefCountForReal e a f st = (n, st')"
    "hull st' = hull (st\<lparr>realNums := ns, numToReals := (numToReals st)(n \<mapsto> a),
        lb_reals := (lb_reals st)(a \<mapsto> \<lparr>rm_num = n, refCount = 1, rm_flags = f AND NOT V6DADDR\<rparr>)\<rparr>)"
proof (cases "lb_reals st a")
  case (Some rm)
  then show ?thesis by (intro known [OF Some]) (simp add: increaseRefCountForReal_def)
next
  case None
  show ?thesis
  proof (cases "realNums st")
    case Nil
    with None show ?thesis by (intro exhausted) (simp_all add: increaseRefCountForReal_def)
  next
    case (Cons n ns)
    show ?thesis
      by (rule fresh [OF None Cons, of "snd (increaseRefCountForReal e a f st)"])
         (simp_all add: increaseRefCountForReal_def None Cons Let_def)
  qed
qed

lemma decrease_cases:
  obtains (unknown) "lb_reals st a = None" "decreaseRefCountForReal a st = st"
  | (more) rm where "lb_reals st a = Some rm"
    "decreaseRefCountForReal a st =
       st\<lparr>lb_reals := (lb_reals st)(a \<mapsto> rm\<lparr>refCount := refCount rm - 1\<rparr>)\<rparr>"
  | (last) rm where "lb_reals st a = Some rm" "refCount rm = 1"
    "hull (decreaseRefCountForReal a st) = hull (st\<lparr>realNums := realNums st @ [rm_num rm],
        lb_reals := (lb_reals st)(a := None), numToReals := (numToReals st)(rm_num rm := None)\<rparr>)"
    "kmaps (decreaseRefCountForReal a st) = kmaps st"
proof (cases "lb_reals st a")
  case None
  then show ?thesis by (intro unknown) (simp_all add: decreaseRefCountForReal_def)
next
  case (Some rm)
  show ?thesis
  proof (cases "refCount rm - 1 = 0")
    case False
    with Some show ?thesis by (intro more [OF Some]) (simp add: decreaseRefCountForReal_def Let_def)
  next
    case True
    then have "refCount rm = 1" by simp
    then show ?thesis
      by (intro last [OF Some]) (simp_all add: decreaseRefCountForReal_def Let_def Some notify_def hull_def)
  qed
qed

interpretation real_pool: number_pool realNums real_own "\<lambda>_. True"
  "\<lambda>a st. snd (increaseRefCountForReal e a f st)" decreaseRefCountForReal
proof
  fix a st
  show "realNums (snd (increaseRefCountForReal e a f st)) = realNums st
      \<and> real_own (snd (increaseRefCountForReal e a f st)) = real_own st \<or>
    real_own st a = None \<and> (\<exists>n. realNums st = n # realNums (snd (increaseRefCountForReal e a f st))
      \<and> real_own (snd (increaseRefCountForReal e a f st)) = (real_own st)(a \<mapsto> n))"
    by (cases rule: increase_cases [of st a e f])
       (auto simp: real_own_def fun_eq_iff dest: hull_fields)
next
  fix a st
  show "realNums (decreaseRefCountForReal a st) = realNums st
      \<and> real_own (decreaseRefCountForReal a st) = real_own st \<or>
    (\<exists>n. real_own st a = Some n \<and> realNums (decreaseRefCountForReal a st) = realNums st @ [n]
      \<and> real_own (decreaseRefCountForReal a st) = (real_own st)(a := None))"
    by (cases rule: decrease_cases [of st a])
       (auto simp: real_own_def fun_eq_iff dest: hull_fields)
qed

section \<open>The pools of the VIPs and of the health check keys\<close>

definition vips_parse :: "env \<Rightarrow> lb \<Rightarrow> bool" where
  "vips_parse e st \<longleftrightarrow> (\<forall>k. vip_own st k \<noteq> None \<longrightarrow> parse_ip e (vk_address k) \<noteq> None)"

lemma updateVipMap_returns:
  "parse_ip e (vk_address k) \<noteq> None \<Longrightarrow> fst (updateVipMap e act k m st) \<noteq> Exn"
  by (auto simp: updateVipMap_def vipKeyToVipDefinition_def Let_def split_def)

lemma addVip_cases:
  obtains (refused) st' where "addVip e k flags st = (Ret False, st')" "hull st' = hull st"
  | (added) n ns st' where "vipNums st = n # ns" "map_of (vips st) k = None"
    "parse_ip e (vk_address k) \<noteq> None" "addVip e k flags st = (Ret True, st')"
    "hull st' = hull (st\<lparr>vipNums := ns, vips := AList.update k
       (new_vip n flags (cfg_chRingSize (config st)) (hashFunction (config st))) (vips st)\<rparr>)"
proof -
  obtain t s where v: "validateAddress e (vk_address k) False st = (t, s)" by fastforce
  have s: "hull s = hull st" using hull_validate [of e "vk_address k" False st] v by simp
  note f = hull_fields [OF s]
  show ?thesis
  proof (cases "t = INVALID \<or> vipNums s = [] \<or> map_of (vips s) k \<noteq> None")
    case True
    then have "addVip e k flags st = (Ret False, s)"
      by (auto simp: addVip_def v split: list.split)
    then show ?thesis using s by (rule refused)
  next
    case False
    then obtain n ns where c: "vipNums s = n # ns" "map_of (vips s) k = None" "t \<noteq> INVALID"
      by (cases "vipNums s") auto
    have p: "parse_ip e (vk_address k) \<noteq> None"
      using v c(3) by (auto simp: validateAddress_def split: if_splits)
    let ?s = "s\<lparr>vipNums := ns, vips := AList.update k
       (new_vip n flags (cfg_chRingSize (config s)) (hashFunction (config s))) (vips s)\<rparr>"
    have h: "hull ?s = hull (st\<lparr>vipNums := ns, vips := AList.update k
       (new_vip n flags (cfg_chRingSize (config st)) (hashFunction (config st))) (vips st)\<rparr>)"
      using s f by (simp add: hull_upd)
    have "fst (addVip e k flags st) = Ret True"
      using updateVipMap_returns [OF p] c by (simp add: addVip_def v Let_def split_def)
    moreover have "hull (snd (addVip e k flags st)) = hull ?s"
      using c by (simp add: addVip_def v Let_def split_def)
    ultimately show ?thesis
      using added [of n ns "snd (addVip e k flags st)"] c p h f by (metis prod.collapse)
  qed
qed

end
