(* ===== verification/LbInit.thy ===== *)
theory LbInit
  imports LbState
begin

text \<open>
  Start-up of VsoshlbLb.cpp: the constructor, loading and attaching of the programs, reloading,
  features and teardown. Every call of the adapter is recorded with its answer, which is a
  parameter: answer n c is the result of the n-th call c, so a failure of any call, and the order
  of the calls, are part of the model. The descriptors in the vectors are those numbers.
\<close>

section \<open>Calls of the adapter\<close>

text \<open>The values written to maps: descriptors and numbers, addresses, MAC addresses, control words.\<close>

datatype map_val = VNum int | VAddr real_definition | VMac bytes | VCtl u64 | VVip vip_definition

datatype call =
    CreateLruMap string int nat nat int
  | SetInnerMapPrototype string int
  | UpdateElem string int map_val
  | GetMapFd string
  | GetProgFd string
  | IsMapInObject string string
  | IsMapInProg string string
  | LoadProg string
  | ReloadProg string
  | GetInterfaceIndex string
  | ModifyXdp int u32 u32
  | DetachXdp u32 u32
  | GetPinned string
  | UpdateRoot int u32 int
  | DeleteRoot int u32
  | AddTcFilter int u32 u32
  | DelTcFilter int u32 u32
  | StartMonitor

record adapter =
  answer :: "nat \<Rightarrow> call \<Rightarrow> int"
  parse_addr :: "string \<Rightarrow> real_definition option"

record init_config =
  mainInterface :: string
  v4TunInterface :: string
  v6TunInterface :: string
  balancerProgPath :: string
  healthcheckingProgPath :: string
  defaultMac :: bytes
  priority :: u32
  rootMapPath :: string
  rootMapPos :: u32
  i_enableHc :: bool
  i_tunnelBasedHCEncap :: bool
  i_maxVips :: u32
  i_maxReals :: u32
  i_testing :: bool
  LruSize :: u64
  forwardingCores :: "int list"
  numaNodes :: "int list"
  hcInterface :: string
  xdpAttachFlags :: u32
  vsoshlbSrcV4 :: string
  vsoshlbSrcV6 :: string
  localMac :: bytes
  globalLruSize :: u32
  useRootMap :: bool
  mainInterfaceIndex :: u32
  hcInterfaceIndex :: u32
  cleanupOnShutdown :: bool

record init_state =
  icfg :: init_config
  i_vipNums :: "u32 list"
  i_realNums :: "u32 list"
  i_hcKeyNums :: "u32 list"
  ctlValues :: "u64 list"
  standalone :: bool
  rootMapFd :: int
  progsLoaded :: bool
  progsAttached :: bool
  progsReloaded :: bool
  introspectionStarted :: bool
  i_features :: lb_features
  lruMapsFd :: "int list"
  flowDebugMapsFd :: "int list"
  globalLruMapsFd :: "int list"
  globalLruFallbackFd :: int
  i_failed :: u64
  calls :: "(call \<times> int) list"

definition kMacAddrPos :: nat where "kMacAddrPos = 0"
definition kIpv4TunPos :: nat where "kIpv4TunPos = 1"
definition kIpv6TunPos :: nat where "kIpv6TunPos = 2"
definition kMainIntfPos :: nat where "kMainIntfPos = 3"
definition kHcIntfPos :: nat where "kHcIntfPos = 4"
definition kFallbackLruSize :: nat where "kFallbackLruSize = 1024"
definition kMapNoFlags :: nat where "kMapNoFlags = 0"
definition kNoNuma :: int where "kNoNuma = - 1"
definition kMacBytes :: nat where "kMacBytes = 6"
definition kCtlMapSize :: nat where "kCtlMapSize = 16"
definition kMaxForwardingCores :: nat where "kMaxForwardingCores = 128"
definition kSrcV4Pos :: int where "kSrcV4Pos = 0"
definition kSrcV6Pos :: int where "kSrcV6Pos = 1"
definition kRecirculationIndex :: int where "kRecirculationIndex = 0"
definition kHcSrcMacPos :: int where "kHcSrcMacPos = 0"
definition kHcDstMacPos :: int where "kHcDstMacPos = 1"
definition kBalancerProgName :: string where "kBalancerProgName = ''balancer_ingress''"
definition kHealthcheckerProgName :: string where "kHealthcheckerProgName = ''healthcheck_encap''"

section \<open>Operations that may throw\<close>

text \<open>
  An operation returns a value or throws; the state is the one at the exception. Fatal is the
  abort of LOG(FATAL) and an access outside a vector.
\<close>

datatype 'a outcome = Val 'a | Throw | Fatal

type_synonym 'a op = "init_state \<Rightarrow> 'a outcome \<times> init_state"

definition ret :: "'a \<Rightarrow> 'a op" where
  "ret x st = (Val x, st)"

definition throw :: "'a op" where
  "throw st = (Throw, st)"

definition fatal :: "'a op" where
  "fatal st = (Fatal, st)"

definition andThen :: "'a op \<Rightarrow> ('a \<Rightarrow> 'b op) \<Rightarrow> 'b op" where
  "andThen m f st =
     (case m st of (Val x, st') \<Rightarrow> f x st' | (Throw, st') \<Rightarrow> (Throw, st') | (Fatal, st') \<Rightarrow> (Fatal, st'))"

definition read_st :: "(init_state \<Rightarrow> 'a) \<Rightarrow> 'a op" where
  "read_st f st = (Val (f st), st)"

definition modify_st :: "(init_state \<Rightarrow> init_state) \<Rightarrow> unit op" where
  "modify_st f st = (Val (), f st)"

definition only_if :: "bool \<Rightarrow> unit op \<Rightarrow> unit op" where
  "only_if b m = (if b then m else ret ())"

fun each :: "'a list \<Rightarrow> ('a \<Rightarrow> unit op) \<Rightarrow> unit op" where
  "each [] f = ret ()"
| "each (x # xs) f = andThen (f x) (\<lambda>_. each xs f)"

definition invoke :: "adapter \<Rightarrow> call \<Rightarrow> int op" where
  "invoke a c st = (let r = answer a (length (calls st)) c in (Val r, st\<lparr>calls := calls st @ [(c, r)]\<rparr>))"

text \<open>Calls whose failure throws: a negative answer, or one that is not zero.\<close>

definition must_nonneg :: "adapter \<Rightarrow> call \<Rightarrow> int op" where
  "must_nonneg a c = andThen (invoke a c) (\<lambda>r. if r < 0 then throw else ret r)"

definition must_zero :: "adapter \<Rightarrow> call \<Rightarrow> unit op" where
  "must_zero a c = andThen (invoke a c) (\<lambda>r. if r \<noteq> 0 then throw else ret ())"

section \<open>Control words\<close>

text \<open>A control word is the union of a number, an interface index and a MAC address.\<close>

definition set_mac :: "bytes \<Rightarrow> u64 \<Rightarrow> u64" where
  "set_mac m c = (c AND NOT (mask 48)) OR
     fold (\<lambda>i w. w OR push_bit (8 * i) (ucast (m ! i))) [0..<6] 0"

definition get_mac :: "u64 \<Rightarrow> bytes" where
  "get_mac c = map (\<lambda>i. ucast (drop_bit (8 * i) c)) [0..<6]"

definition set_ifindex :: "u32 \<Rightarrow> u64 \<Rightarrow> u64" where
  "set_ifindex i c = (c AND NOT (mask 32)) OR ucast i"

definition get_ifindex :: "u64 \<Rightarrow> u32" where
  "get_ifindex c = ucast c"

section \<open>The constructor\<close>

definition all_features_off :: lb_features where
  "all_features_off = \<lparr>srcRouting = False, inlineDecap = False, introspection = False, gueEncap = False,
     directHealthchecking = False, localDeliveryOptimization = False, flowDebug = False\<rparr>"

text \<open>The state before the body of the constructor; rootMapFd_ is not initialised.\<close>

definition members :: "int \<Rightarrow> init_config \<Rightarrow> init_state" where
  "members root_fd cfg =
     \<lparr>icfg = cfg, i_vipNums = [], i_realNums = [], i_hcKeyNums = [],
      ctlValues = replicate kCtlMapSize 0, standalone = True, rootMapFd = root_fd,
      progsLoaded = False, progsAttached = False, progsReloaded = False, introspectionStarted = False,
      i_features = all_features_off, lruMapsFd = replicate kMaxForwardingCores 0,
      flowDebugMapsFd = replicate kMaxForwardingCores 0,
      globalLruMapsFd = replicate kMaxForwardingCores 0, globalLruFallbackFd = - 1,
      i_failed = 0, calls = []\<rparr>"

text \<open>vipNums, hcKeyNums and realNums: number 0 is not given to a real.\<close>

definition numbers :: "u32 \<Rightarrow> u32 \<Rightarrow> u32 list" where
  "numbers lo hi = map of_nat [unat lo..<unat hi]"

definition put_ctl :: "nat \<Rightarrow> u64 \<Rightarrow> unit op" where
  "put_ctl i c = modify_st (\<lambda>st. st\<lparr>ctlValues := (ctlValues st)[i := c]\<rparr>)"

text \<open>An interface index that has to resolve; a given index that is not zero is used as it is.\<close>

definition resolve :: "adapter \<Rightarrow> u32 \<Rightarrow> string \<Rightarrow> u32 op" where
  "resolve a given name =
     (if given \<noteq> 0 then ret given
      else andThen (invoke a (GetInterfaceIndex name))
             (\<lambda>r. if word_of_int r = (0 :: u32) then throw else ret (word_of_int r)))"

text \<open>The pools, the mode and the health check interface.\<close>

definition init_members :: "unit op" where
  "init_members = modify_st (\<lambda>st. st\<lparr>i_vipNums := numbers 0 (i_maxVips (icfg st)),
     i_hcKeyNums := (if i_enableHc (icfg st) then numbers 0 (i_maxVips (icfg st)) else []),
     i_realNums := numbers 1 (i_maxReals (icfg st)),
     standalone := (rootMapPath (icfg st) = ''''),
     icfg := (if hcInterface (icfg st) = '''' then (icfg st)\<lparr>hcInterface := mainInterface (icfg st)\<rparr>
              else icfg st)\<rparr>)"

text \<open>
  The control words. ctl is a local that is not initialised, uninit its first value; it keeps the
  bytes that an interface index does not cover.
\<close>

definition init_ctl :: "adapter \<Rightarrow> u64 \<Rightarrow> unit op" where
  "init_ctl a uninit =
     andThen (read_st icfg) (\<lambda>cfg.
     if i_testing cfg then ret ()
     else if length (defaultMac cfg) \<noteq> 6 then throw
     else
       let mac_ctl = set_mac (defaultMac cfg) uninit in
       andThen (put_ctl kMacAddrPos mac_ctl) (\<lambda>_.
       andThen
         (if i_enableHc cfg then
            andThen (resolve a (hcInterfaceIndex cfg) (hcInterface cfg)) (\<lambda>i.
            let ctl = set_ifindex i mac_ctl in
            andThen (put_ctl kHcIntfPos ctl) (\<lambda>_.
            if i_tunnelBasedHCEncap cfg then
              andThen (resolve a 0 (v4TunInterface cfg)) (\<lambda>i.
              let ctl = set_ifindex i ctl in
              andThen (put_ctl kIpv4TunPos ctl) (\<lambda>_.
              andThen (resolve a 0 (v6TunInterface cfg)) (\<lambda>i.
              let ctl = set_ifindex i ctl in
              andThen (put_ctl kIpv6TunPos ctl) (\<lambda>_. ret ctl))))
            else ret ctl))
          else ret mac_ctl) (\<lambda>ctl.
       andThen (resolve a (mainInterfaceIndex cfg) (mainInterface cfg)) (\<lambda>i.
       put_ctl kMainIntfPos (set_ifindex i ctl)))))"

definition constructor :: "adapter \<Rightarrow> u64 \<Rightarrow> unit op" where
  "constructor a uninit = andThen init_members (\<lambda>_. init_ctl a uninit)"

section \<open>Sanity checking and connection tables\<close>

definition checked_maps :: "bool \<Rightarrow> bool \<Rightarrow> string list" where
  "checked_maps flow_debug globalLru =
     [''ctl_array'', ''vip_map'', ''ch_rings'', ''reals'', ''stats'', ''lru_mapping'', ''server_id_map'',
      ''lru_miss_stats'', ''vip_miss_stats'']
     @ (if flow_debug then [''flow_debug_maps''] else [])
     @ (if globalLru then [''global_lru_maps''] else [])"

definition initialSanityChecking :: "adapter \<Rightarrow> bool \<Rightarrow> bool \<Rightarrow> unit op" where
  "initialSanityChecking a flow_debug globalLru =
     andThen (must_nonneg a (GetProgFd kBalancerProgName)) (\<lambda>_.
     andThen (read_st (\<lambda>st. i_enableHc (icfg st))) (\<lambda>hc.
     andThen (if hc then must_nonneg a (GetProgFd kHealthcheckerProgName) else ret 0) (\<lambda>_.
     each (checked_maps flow_debug globalLru
           @ (if hc then [''hc_ctrl_map'', ''hc_reals_map'', ''hc_stats_map''] else []))
       (\<lambda>m. andThen (must_nonneg a (GetMapFd m)) (\<lambda>_. ret ())))))"

definition createLruMap :: "adapter \<Rightarrow> nat \<Rightarrow> nat \<Rightarrow> int \<Rightarrow> int \<Rightarrow> int op" where
  "createLruMap a sz flags numaNode core = invoke a (CreateLruMap ''vsoshlb_lru'' core sz flags numaNode)"

text \<open>Writing to the vector of a table's descriptors: a core outside it is outside its memory.\<close>

definition put_fd :: "((int list \<Rightarrow> int list) \<Rightarrow> init_state \<Rightarrow> init_state) \<Rightarrow> int \<Rightarrow> int \<Rightarrow> unit op" where
  "put_fd upd core fd =
     (if 0 \<le> core \<and> core < int kMaxForwardingCores then modify_st (upd (\<lambda>fds. fds[nat core := fd]))
      else fatal)"

definition get_fd :: "(init_state \<Rightarrow> int list) \<Rightarrow> int \<Rightarrow> int op" where
  "get_fd fds core =
     (if 0 \<le> core \<and> core < int kMaxForwardingCores then read_st (\<lambda>st. fds st ! nat core) else fatal)"

definition initFlowDebugMapForCore :: "adapter \<Rightarrow> int \<Rightarrow> nat \<Rightarrow> nat \<Rightarrow> int \<Rightarrow> unit op" where
  "initFlowDebugMapForCore a core sz flags numaNode =
     andThen (must_nonneg a (CreateLruMap ''flow_debug_lru'' core sz flags numaNode))
       (put_fd flowDebugMapsFd_update core)"

definition initGlobalLruMapForCore :: "adapter \<Rightarrow> int \<Rightarrow> nat \<Rightarrow> nat \<Rightarrow> int \<Rightarrow> unit op" where
  "initGlobalLruMapForCore a core sz flags numaNode =
     andThen (must_nonneg a (CreateLruMap ''global_lru'' core sz flags numaNode))
       (put_fd globalLruMapsFd_update core)"

text \<open>The first forwarding core, when there is one.\<close>

definition first_core :: "int option op" where
  "first_core = read_st (\<lambda>st. case forwardingCores (icfg st) of [] \<Rightarrow> None | c # _ \<Rightarrow> Some c)"

text \<open>
  The prototype of an inner map, negative when it could not be created: the table of the first
  forwarding core, or a generic one.
\<close>

definition proto_fd :: "adapter \<Rightarrow> (init_state \<Rightarrow> int list) \<Rightarrow> string \<Rightarrow> int op" where
  "proto_fd a fds name =
     andThen first_core (\<lambda>c. case c of
         Some core \<Rightarrow> get_fd fds core
       | None \<Rightarrow> invoke a (CreateLruMap name 0 kFallbackLruSize kMapNoFlags kNoNuma))"

definition initFlowDebugPrototypeMap :: "adapter \<Rightarrow> unit op" where
  "initFlowDebugPrototypeMap a =
     andThen (proto_fd a flowDebugMapsFd ''flow_debug_lru'') (\<lambda>fd.
     if fd < 0 then throw
     else andThen (must_nonneg a (SetInnerMapPrototype ''flow_debug_maps'' fd)) (\<lambda>_. ret ()))"

definition initGlobalLruPrototypeMap :: "adapter \<Rightarrow> unit op" where
  "initGlobalLruPrototypeMap a =
     andThen (proto_fd a globalLruMapsFd ''global_lru'') (\<lambda>fd.
     if fd < 0 then throw
     else andThen (must_nonneg a (SetInnerMapPrototype ''global_lru_maps'' fd)) (\<lambda>_. ret ()))"

definition BPF_F_NUMA_NODE :: nat where "BPF_F_NUMA_NODE = 4"

text \<open>
  One core in initLrus. The test lets a core number equal to kMaxForwardingCores pass; writing
  its descriptor is an access behind the vector.
\<close>

definition init_core :: "adapter \<Rightarrow> bool \<Rightarrow> bool \<Rightarrow> nat \<Rightarrow> nat \<Rightarrow> int \<times> int option \<Rightarrow> unit op" where
  "init_core a flow_debug globalLru lru_size global_size cn =
     (let (core, numa) = cn
      in if core > int kMaxForwardingCores \<or> core < 0 then fatal
         else
           let numa_node = (case numa of Some n \<Rightarrow> n | None \<Rightarrow> kNoNuma);
               flags = (case numa of Some n \<Rightarrow> BPF_F_NUMA_NODE | None \<Rightarrow> 0)
           in andThen (createLruMap a lru_size flags numa_node core) (\<lambda>fd.
              if fd < 0 then fatal
              else
                andThen (put_fd lruMapsFd_update core fd) (\<lambda>_.
                andThen (only_if flow_debug (initFlowDebugMapForCore a core lru_size flags numa_node)) (\<lambda>_.
                only_if globalLru (initGlobalLruMapForCore a core global_size flags numa_node)))))"

definition initLrus :: "adapter \<Rightarrow> bool \<Rightarrow> bool \<Rightarrow> unit op" where
  "initLrus a flow_debug globalLru =
     andThen (read_st icfg) (\<lambda>cfg.
     let cores = forwardingCores cfg; numa = numaNodes cfg in
     if cores \<noteq> [] \<and> numa \<noteq> [] \<and> length numa \<noteq> length cores then throw
     else
       andThen
         (each (zip cores (if numa = [] then map (\<lambda>_. None) cores else map Some numa))
            (init_core a flow_debug globalLru (unat (LruSize cfg) div length cores) (unat (globalLruSize cfg)))) (\<lambda>_.
       andThen
         (case cores of
            core # _ \<Rightarrow> get_fd lruMapsFd core
          | [] \<Rightarrow> andThen (createLruMap a kFallbackLruSize kMapNoFlags kNoNuma 0)
                    (\<lambda>fd. if fd < 0 then throw else ret fd)) (\<lambda>fd.
       andThen (must_nonneg a (SetInnerMapPrototype ''lru_mapping'' fd)) (\<lambda>_. ret ()))))"

text \<open>Writing the descriptor of a core's table into a map of maps.\<close>

definition attach_map :: "adapter \<Rightarrow> (init_state \<Rightarrow> int list) \<Rightarrow> string \<Rightarrow> bool \<Rightarrow> int \<Rightarrow> unit op" where
  "attach_map a fds m check core =
     andThen (get_fd fds core) (\<lambda>fd.
     if check \<and> fd < 0 then throw
     else andThen (must_nonneg a (UpdateElem m core (VNum fd))) (\<lambda>_. ret ()))"

definition attachFlowDebugLru :: "adapter \<Rightarrow> int \<Rightarrow> unit op" where
  "attachFlowDebugLru a core = attach_map a flowDebugMapsFd ''flow_debug_maps'' True core"

definition attachGlobalLru :: "adapter \<Rightarrow> int \<Rightarrow> unit op" where
  "attachGlobalLru a core = attach_map a globalLruMapsFd ''global_lru_maps'' True core"

definition attachLrus :: "adapter \<Rightarrow> bool \<Rightarrow> bool \<Rightarrow> unit op" where
  "attachLrus a flow_debug globalLru =
     andThen (read_st progsLoaded) (\<lambda>loaded.
     if \<not> loaded then throw
     else
       andThen (read_st (\<lambda>st. forwardingCores (icfg st))) (\<lambda>cores.
       andThen (each cores (\<lambda>core.
         andThen (attach_map a lruMapsFd ''lru_mapping'' False core) (\<lambda>_.
         andThen (only_if flow_debug (attachFlowDebugLru a core)) (\<lambda>_.
         only_if globalLru (attachGlobalLru a core))))) (\<lambda>_.
       only_if globalLru (andThen (invoke a (GetMapFd ''fallback_glru''))
         (\<lambda>fd. modify_st (\<lambda>st. st\<lparr>globalLruFallbackFd := fd\<rparr>))))))"

section \<open>Source addresses\<close>

text \<open>folly's constructor throws for an address that it cannot parse.\<close>

definition put_src :: "adapter \<Rightarrow> string \<Rightarrow> int \<Rightarrow> string \<Rightarrow> unit op" where
  "put_src a m key s =
     (case parse_addr a s of
        None \<Rightarrow> throw
      | Some r \<Rightarrow> andThen (must_nonneg a (UpdateElem m key (VAddr r))) (\<lambda>_. ret ()))"

definition put_srcs :: "adapter \<Rightarrow> string \<Rightarrow> unit op" where
  "put_srcs a m =
     andThen (read_st icfg) (\<lambda>cfg.
     if vsoshlbSrcV4 cfg = '''' \<and> vsoshlbSrcV6 cfg = '''' then throw
     else
       andThen (only_if (vsoshlbSrcV4 cfg \<noteq> '''') (put_src a m kSrcV4Pos (vsoshlbSrcV4 cfg))) (\<lambda>_.
       only_if (vsoshlbSrcV6 cfg \<noteq> '''') (put_src a m kSrcV6Pos (vsoshlbSrcV6 cfg))))"

definition setupGueEnvironment :: "adapter \<Rightarrow> unit op" where
  "setupGueEnvironment a = put_srcs a ''pckt_srcs''"

definition setupHcEnvironment :: "adapter \<Rightarrow> unit op" where
  "setupHcEnvironment a =
     andThen (put_srcs a ''hc_pckt_srcs_map'') (\<lambda>_.
     andThen (read_st icfg) (\<lambda>cfg.
     if length (localMac cfg) \<noteq> 6 then throw
     else each [(kHcSrcMacPos, localMac cfg), (kHcDstMacPos, take 6 (defaultMac cfg))] (\<lambda>(position, m).
       andThen (must_nonneg a (UpdateElem ''hc_pckt_macs'' position (VMac m))) (\<lambda>_. ret ()))))"

definition addSrcIpForPcktEncap :: "adapter \<Rightarrow> bool \<Rightarrow> real_definition \<Rightarrow> bool op" where
  "addSrcIpForPcktEncap a v4 srcBe =
     (let key = (if v4 then kSrcV4Pos else kSrcV6Pos) in
      andThen (invoke a (UpdateElem ''hc_pckt_srcs_map'' key (VAddr srcBe))) (\<lambda>res.
      if res \<noteq> 0 then ret False
      else andThen (invoke a (UpdateElem ''pckt_srcs'' key (VAddr srcBe))) (\<lambda>res. ret (res = 0))))"

definition enableRecirculation :: "adapter \<Rightarrow> unit op" where
  "enableRecirculation a =
     andThen (invoke a (GetProgFd kBalancerProgName)) (\<lambda>balancer_fd.
     andThen (must_nonneg a (UpdateElem ''subprograms'' kRecirculationIndex (VNum balancer_fd))) (\<lambda>_. ret ()))"

section \<open>Features\<close>

definition in_prog :: "adapter \<Rightarrow> string \<Rightarrow> string \<Rightarrow> bool op" where
  "in_prog a p m = andThen (invoke a (IsMapInProg p m)) (\<lambda>r. ret (r \<noteq> 0))"

text \<open>localDeliveryOptimization is not discovered.\<close>

definition featureDiscovering :: "adapter \<Rightarrow> unit op" where
  "featureDiscovering a =
     andThen (in_prog a kBalancerProgName ''lpm_src_v4'') (\<lambda>b.
     andThen (modify_st (\<lambda>st. st\<lparr>i_features := (i_features st)\<lparr>srcRouting := b\<rparr>\<rparr>)) (\<lambda>_.
     andThen (in_prog a kBalancerProgName ''decap_dst'') (\<lambda>b.
     andThen (modify_st (\<lambda>st. st\<lparr>i_features := (i_features st)\<lparr>inlineDecap := b\<rparr>\<rparr>)) (\<lambda>_.
     andThen (in_prog a kBalancerProgName ''event_pipe'') (\<lambda>b.
     andThen (modify_st (\<lambda>st. st\<lparr>i_features := (i_features st)\<lparr>introspection := b\<rparr>\<rparr>)) (\<lambda>_.
     andThen (in_prog a kBalancerProgName ''pckt_srcs'') (\<lambda>b.
     andThen (modify_st (\<lambda>st. st\<lparr>i_features := (i_features st)\<lparr>gueEncap := b\<rparr>\<rparr>)) (\<lambda>_.
     andThen (in_prog a kHealthcheckerProgName ''hc_pckt_srcs_map'') (\<lambda>b.
     andThen (modify_st (\<lambda>st. st\<lparr>i_features := (i_features st)\<lparr>directHealthchecking := b\<rparr>\<rparr>)) (\<lambda>_.
     andThen (in_prog a kBalancerProgName ''flow_debug_maps'') (\<lambda>b.
     modify_st (\<lambda>st. st\<lparr>i_features := (i_features st)\<lparr>LbState.flowDebug := b\<rparr>\<rparr>))))))))))))"

section \<open>Loading\<close>

definition startIntrospectionRoutines :: "adapter \<Rightarrow> unit op" where
  "startIntrospectionRoutines a =
     andThen (invoke a (GetMapFd ''event_pipe'')) (\<lambda>_.
     andThen (invoke a StartMonitor) (\<lambda>_. modify_st (\<lambda>st. st\<lparr>introspectionStarted := True\<rparr>)))"

definition put_ctl_map :: "adapter \<Rightarrow> string \<Rightarrow> (u64 \<Rightarrow> map_val) \<Rightarrow> nat \<Rightarrow> unit op" where
  "put_ctl_map a m f key =
     andThen (read_st (\<lambda>st. ctlValues st ! key)) (\<lambda>c. must_zero a (UpdateElem m (int key) (f c)))"

definition gue_and_recirculation :: "adapter \<Rightarrow> unit op" where
  "gue_and_recirculation a =
     andThen (read_st i_features) (\<lambda>f.
     andThen (only_if (gueEncap f) (setupGueEnvironment a)) (\<lambda>_.
     only_if (inlineDecap f) (enableRecirculation a)))"

definition zero_vip :: vip_definition where
  "zero_vip = \<lparr>vip_addr = zero_addr, vip_port = 0, vip_proto = 0\<rparr>"

definition loadBpfProgs :: "adapter \<Rightarrow> unit op" where
  "loadBpfProgs a =
     andThen (read_st icfg) (\<lambda>cfg.
     andThen (invoke a (IsMapInObject (balancerProgPath cfg) ''flow_debug_maps'')) (\<lambda>fd.
     andThen (invoke a (IsMapInObject (balancerProgPath cfg) ''global_lru_maps'')) (\<lambda>gl.
     let flowDebugInProg = (fd \<noteq> 0); globalLruInProg = (gl \<noteq> 0) in
     andThen (initLrus a flowDebugInProg globalLruInProg) (\<lambda>_.
     andThen (only_if flowDebugInProg (initFlowDebugPrototypeMap a)) (\<lambda>_.
     andThen (only_if globalLruInProg (initGlobalLruPrototypeMap a)) (\<lambda>_.
     andThen (must_zero a (LoadProg (balancerProgPath cfg))) (\<lambda>_.
     andThen (only_if (i_enableHc cfg) (must_zero a (LoadProg (healthcheckingProgPath cfg)))) (\<lambda>_.
     andThen (initialSanityChecking a flowDebugInProg globalLruInProg) (\<lambda>_.
     andThen (featureDiscovering a) (\<lambda>_.
     andThen (gue_and_recirculation a) (\<lambda>_.
     andThen (put_ctl_map a ''ctl_array'' VCtl kMacAddrPos) (\<lambda>_.
     andThen (read_st i_features) (\<lambda>f.
     andThen (only_if (i_enableHc cfg)
       (andThen (each ([kMainIntfPos] @ (if i_tunnelBasedHCEncap cfg then [kIpv4TunPos, kIpv6TunPos] else []))
                   (put_ctl_map a ''hc_ctrl_map'' (\<lambda>c. VNum (uint (get_ifindex c)))))
          (\<lambda>_. only_if (directHealthchecking f) (setupHcEnvironment a)))) (\<lambda>_.
     andThen (modify_st (\<lambda>st. st\<lparr>progsLoaded := True\<rparr>)) (\<lambda>_.
     andThen (only_if (introspection f) (startIntrospectionRoutines a)) (\<lambda>_.
     andThen (attachLrus a flowDebugInProg globalLruInProg) (\<lambda>_.
     andThen (invoke a (UpdateElem ''vip_miss_stats'' 0 (VVip zero_vip))) (\<lambda>_. ret ()))))))))))))))))))"

text \<open>config, the second parameter, is not used: the statements that read it are cut or absent.\<close>

definition reloadBalancerProg :: "adapter \<Rightarrow> string \<Rightarrow> bool op" where
  "reloadBalancerProg a path =
     andThen (invoke a (ReloadProg path)) (\<lambda>res.
     if res \<noteq> 0 then ret False
     else
       andThen (modify_st (\<lambda>st. st\<lparr>icfg := (icfg st)\<lparr>balancerProgPath := path\<rparr>\<rparr>)) (\<lambda>_.
       andThen (invoke a (IsMapInObject path ''flow_debug_maps'')) (\<lambda>fd.
       andThen (invoke a (IsMapInObject path ''global_lru_maps'')) (\<lambda>gl.
       andThen (initialSanityChecking a (fd \<noteq> 0) (gl \<noteq> 0)) (\<lambda>_.
       andThen (featureDiscovering a) (\<lambda>_.
       andThen (gue_and_recirculation a) (\<lambda>_.
       andThen (read_st (\<lambda>st. introspection (i_features st) \<and> \<not> introspectionStarted st)) (\<lambda>b.
       andThen (only_if b (startIntrospectionRoutines a)) (\<lambda>_.
       andThen (modify_st (\<lambda>st. st\<lparr>progsReloaded := True\<rparr>)) (\<lambda>_. ret True))))))))))"

section \<open>Attaching\<close>

definition ctl_at :: "nat \<Rightarrow> u32 op" where
  "ctl_at i = read_st (\<lambda>st. get_ifindex (ctlValues st ! i))"

text \<open>The main program: attached to its interface, or registered in the map of the root program.\<close>

definition attach_main :: "adapter \<Rightarrow> int \<Rightarrow> u32 \<Rightarrow> unit op" where
  "attach_main a main_fd interface_index =
     andThen (read_st icfg) (\<lambda>cfg.
     andThen (read_st standalone) (\<lambda>alone.
     if alone then must_zero a (ModifyXdp main_fd interface_index (xdpAttachFlags cfg))
     else if useRootMap cfg then
       andThen (invoke a (GetPinned (rootMapPath cfg))) (\<lambda>fd.
       andThen (modify_st (\<lambda>st. st\<lparr>rootMapFd := fd\<rparr>)) (\<lambda>_.
       if fd < 0 then throw else must_zero a (UpdateRoot fd (rootMapPos cfg) main_fd)))
     else ret ()))"

text \<open>Undoing attach_main, in attachBpfProgs and in the destructor.\<close>

definition detach_main :: "adapter \<Rightarrow> u32 \<Rightarrow> int op" where
  "detach_main a interface_index =
     andThen (read_st icfg) (\<lambda>cfg.
     andThen (read_st standalone) (\<lambda>alone.
     andThen (read_st rootMapFd) (\<lambda>fd.
     if alone then invoke a (DetachXdp interface_index (xdpAttachFlags cfg))
     else invoke a (DeleteRoot fd (rootMapPos cfg)))))"

definition attachBpfProgs :: "adapter \<Rightarrow> unit op" where
  "attachBpfProgs a =
     andThen (read_st progsLoaded) (\<lambda>loaded.
     if \<not> loaded then throw
     else
       andThen (invoke a (GetProgFd kBalancerProgName)) (\<lambda>main_fd.
       andThen (ctl_at kMainIntfPos) (\<lambda>interface_index.
       andThen (attach_main a main_fd interface_index) (\<lambda>_.
       andThen (read_st (\<lambda>st. i_enableHc (icfg st) \<and> \<not> progsReloaded st)) (\<lambda>hc.
       andThen (only_if hc
         (andThen (invoke a (GetProgFd kHealthcheckerProgName)) (\<lambda>hc_fd.
          andThen (ctl_at kHcIntfPos) (\<lambda>hc_index.
          andThen (read_st (\<lambda>st. priority (icfg st))) (\<lambda>prio.
          andThen (invoke a (AddTcFilter hc_fd hc_index prio)) (\<lambda>res.
          if res \<noteq> 0 then andThen (detach_main a interface_index) (\<lambda>_. throw) else ret ())))))) (\<lambda>_.
       modify_st (\<lambda>st. st\<lparr>progsAttached := True\<rparr>)))))))"

definition destructor :: "adapter \<Rightarrow> unit op" where
  "destructor a =
     andThen (read_st (\<lambda>st. \<not> i_testing (icfg st) \<and> progsAttached st \<and> cleanupOnShutdown (icfg st))) (\<lambda>b.
     only_if b
       (andThen (ctl_at kMainIntfPos) (\<lambda>mainIfindex.
        andThen (ctl_at kHcIntfPos) (\<lambda>hcIfindex.
        andThen (detach_main a mainIfindex) (\<lambda>_.
        andThen (read_st icfg) (\<lambda>cfg.
        only_if (i_enableHc cfg)
          (andThen (invoke a (GetProgFd kHealthcheckerProgName)) (\<lambda>hc_fd.
           andThen (invoke a (DelTcFilter hc_fd hcIfindex (priority cfg))) (\<lambda>_. ret ())))))))))"

section \<open>Features on demand\<close>

datatype feature =
  SrcRouting | InlineDecap | Introspection | GueEncap | DirectHealthchecking
  | LocalDeliveryOptimization | FlowDebug

fun hasFeature :: "feature \<Rightarrow> init_state \<Rightarrow> bool" where
  "hasFeature LocalDeliveryOptimization st = localDeliveryOptimization (i_features st)"
| "hasFeature DirectHealthchecking st = directHealthchecking (i_features st)"
| "hasFeature GueEncap st = gueEncap (i_features st)"
| "hasFeature InlineDecap st = inlineDecap (i_features st)"
| "hasFeature Introspection st = introspection (i_features st)"
| "hasFeature SrcRouting st = srcRouting (i_features st)"
| "hasFeature FlowDebug st = LbState.flowDebug (i_features st)"

definition attach_unless_testing :: "adapter \<Rightarrow> unit op" where
  "attach_unless_testing a =
     andThen (read_st (\<lambda>st. i_testing (icfg st))) (\<lambda>t. only_if (\<not> t) (attachBpfProgs a))"

text \<open>Reloading with a fall back to the program at hand.\<close>

definition try_reload :: "adapter \<Rightarrow> string \<Rightarrow> bool op \<Rightarrow> bool op" where
  "try_reload a prog_path k =
     andThen (read_st (\<lambda>st. balancerProgPath (icfg st))) (\<lambda>original_balancer_prog.
     andThen (reloadBalancerProg a prog_path) (\<lambda>ok.
     if \<not> ok then andThen (reloadBalancerProg a original_balancer_prog) (\<lambda>_. ret False)
     else andThen (attach_unless_testing a) (\<lambda>_. k)))"

definition installFeature :: "adapter \<Rightarrow> feature \<Rightarrow> string \<Rightarrow> bool op" where
  "installFeature a f prog_path =
     andThen (read_st (hasFeature f)) (\<lambda>has.
     if has then ret True
     else if prog_path = '''' then ret False
     else try_reload a prog_path (read_st (hasFeature f)))"

definition removeFeature :: "adapter \<Rightarrow> feature \<Rightarrow> string \<Rightarrow> bool op" where
  "removeFeature a f prog_path =
     andThen (read_st (hasFeature f)) (\<lambda>has.
     if \<not> has then ret True
     else if prog_path = '''' then ret False
     else try_reload a prog_path (read_st (\<lambda>st. \<not> hasFeature f st)))"

section \<open>The MAC address and the interfaces\<close>

definition count_failure :: "unit op" where
  "count_failure = modify_st (\<lambda>st. st\<lparr>i_failed := i_failed st + 1\<rparr>)"

definition changeMac :: "adapter \<Rightarrow> bytes \<Rightarrow> bool op" where
  "changeMac a newMac =
     (if length newMac \<noteq> kMacBytes then ret False
      else
        andThen (modify_st (\<lambda>st. st\<lparr>ctlValues :=
            (ctlValues st)[kMacAddrPos := set_mac newMac (ctlValues st ! kMacAddrPos)]\<rparr>)) (\<lambda>_.
        andThen (read_st (\<lambda>st. i_testing (icfg st))) (\<lambda>t.
        if t then ret True
        else
          andThen (read_st (\<lambda>st. ctlValues st ! kMacAddrPos)) (\<lambda>c.
          andThen (invoke a (UpdateElem ''ctl_array'' (int kMacAddrPos) (VCtl c))) (\<lambda>res.
          if res \<noteq> 0 then andThen count_failure (\<lambda>_. ret False)
          else
            andThen (read_st (\<lambda>st. directHealthchecking (i_features st))) (\<lambda>direct.
            if \<not> direct then ret True
            else
              andThen (invoke a (UpdateElem ''hc_pckt_macs'' kHcDstMacPos (VMac (get_mac c)))) (\<lambda>res_2.
              if res_2 \<noteq> 0 then andThen count_failure (\<lambda>_. ret False) else ret True)))))))"

definition getMac :: "init_state \<Rightarrow> bytes" where
  "getMac st = get_mac (ctlValues st ! kMacAddrPos)"

definition getIndexOfNetworkInterfaces :: "init_state \<Rightarrow> (nat \<times> u32) list" where
  "getIndexOfNetworkInterfaces st =
     map (\<lambda>i. (i, get_ifindex (ctlValues st ! i)))
       ([kMainIntfPos]
        @ (if i_enableHc (icfg st) then
             [kHcIntfPos] @ (if i_tunnelBasedHCEncap (icfg st) then [kIpv4TunPos, kIpv6TunPos] else [])
           else []))"

definition getGlobalLruMapsFds :: "init_state \<Rightarrow> int list" where
  "getGlobalLruMapsFds st =
     map (\<lambda>c. globalLruMapsFd st ! nat c) (forwardingCores (icfg st))
     @ (if globalLruFallbackFd st \<ge> 0 then [globalLruFallbackFd st] else [])"

end
