(* ===== verification/LbInv.thy ===== *)
theory LbInv
  imports LbPools LbInit
begin

text \<open>
  The invariant of the control plane: the three pools are partitioned, the numbers of the reals
  lead back to them, and the array reals of the data plane holds the address of every real. Every
  operation preserves it.
\<close>

section \<open>The front of the state\<close>

text \<open>The part of the state that no operation on a real's reference count changes.\<close>

definition front :: "lb \<Rightarrow> lb_config \<times> lb_features \<times> u32 list \<times> (vip_key \<times> vip) list
    \<times> u32 list \<times> (vip_key \<times> u32) list" where
  "front st = (config st, features st, vipNums st, vips st, hcKeyNums st, hckeys st)"

lemma front_hull: "hull st' = hull st \<Longrightarrow> front st' = front st"
  by (auto simp: front_def dest: hull_fields)

lemma front_upd [simp]:
  "front (st\<lparr>lb_reals := d\<rparr>) = front st" "front (st\<lparr>realNums := a\<rparr>) = front st"
  "front (st\<lparr>numToReals := n\<rparr>) = front st"
  by (simp_all add: front_def)

lemma front_increase [simp]: "front (snd (increaseRefCountForReal e a f st)) = front st"
  by (cases rule: increase_cases [of st a e f]) (simp_all, metis front_hull front_upd)

lemma front_decrease [simp]: "front (decreaseRefCountForReal a st) = front st"
  by (cases rule: decrease_cases [of st a]) (simp_all, metis front_hull front_upd)

lemma front_num_to_real [simp]: "front (snd (num_to_real n st)) = front st"
  by (simp add: num_to_real_def split: option.split)

lemma front_fields:
  assumes "front st' = front st"
  shows "config st' = config st" "vipNums st' = vipNums st" "vips st' = vips st"
    "hcKeyNums st' = hcKeyNums st" "hckeys st' = hckeys st"
  using assms by (auto simp: front_def)

lemma fold_keeps:
  assumes "\<And>x s. x \<in> set xs \<Longrightarrow> P s \<Longrightarrow> P (f x s)" "P s"
  shows "P (fold f xs s)"
  using assms by (induction xs arbitrary: s) auto

section \<open>Deletion of a VIP\<close>

definition drop_real :: "u32 \<Rightarrow> lb \<Rightarrow> lb" where
  "drop_real n st = (let (real_name, st) = num_to_real n st in decreaseRefCountForReal real_name st)"

lemma drop_real_eq:
  "(\<lambda>n st. let (real_name, st) = num_to_real n st in decreaseRefCountForReal real_name st) = drop_real"
  by (intro ext) (simp add: drop_real_def)

lemma front_drop_reals [simp]: "front (fold drop_real ns st) = front st"
  by (rule fold_keeps) (simp_all add: drop_real_def split_def Let_def)

lemma delVip_cases:
  obtains (unknown) "map_of (vips st) k = None" "delVip e k st = (Ret False, st)"
  | (deleted) v st' where "map_of (vips st) k = Some v"
    "parse_ip e (vk_address k) \<noteq> None \<or> testing (config st)" "delVip e k st = (Ret True, st')"
    "hull st' = hull ((fold drop_real (getReals v) st)
       \<lparr>vipNums := vipNums st @ [vipNum v], vips := AList.delete k (vips st)\<rparr>)"
  | (thrown) v st' where "map_of (vips st) k = Some v" "parse_ip e (vk_address k) = None"
    "\<not> testing (config st)" "delVip e k st = (Exn, st')"
proof (cases "map_of (vips st) k")
  case None
  then show ?thesis by (intro unknown) (simp_all add: delVip_def)
next
  case (Some v)
  let ?s = "fold drop_real (getReals v) st"
  have f: "vipNums ?s = vipNums st" "vips ?s = vips st" "config ?s = config st"
    using front_fields [OF front_drop_reals [of "getReals v" st]] by auto
  let ?s1 = "?s\<lparr>vipNums := vipNums st @ [vipNum v]\<rparr>"
  obtain r s2 where r: "(if testing (config ?s1) then (Ret True, ?s1)
      else updateVipMap e DEL k \<lparr>vip_flags = 0, vip_num = 0\<rparr> ?s1) = (r, s2)" by fastforce
  have d: "delVip e k st = (if r = Exn then (Exn, s2) else (Ret True, s2\<lparr>vips := AList.delete k (vips s2)\<rparr>))"
    unfolding delVip_def Some drop_real_eq option.case
    using r f by (cases "testing (config st)") (auto simp: Let_def)
  have h: "hull s2 = hull ?s1"
    using r hull_updateVipMap [of e DEL k "\<lparr>vip_flags = 0, vip_num = 0\<rparr>" ?s1]
    by (metis snd_conv)
  show ?thesis
  proof (cases "parse_ip e (vk_address k) = None \<and> \<not> testing (config st)")
    case True
    then have "r = Exn" using r f by (simp add: updateVipMap_def vipKeyToVipDefinition_def)
    then show ?thesis using thrown [OF Some, of s2] True d by simp
  next
    case False
    then have n: "r \<noteq> Exn"
      using r f updateVipMap_returns [of e k DEL "\<lparr>vip_flags = 0, vip_num = 0\<rparr>" ?s1]
      by (auto split: if_splits)
    have "hull (s2\<lparr>vips := AList.delete k (vips s2)\<rparr>)
        = hull (?s1\<lparr>vips := AList.delete k (vips st)\<rparr>)"
      using h hull_fields(8) [OF h] f by (simp add: hull_upd)
    then show ?thesis
      using deleted [OF Some, of "s2\<lparr>vips := AList.delete k (vips s2)\<rparr>"] False d n by simp
  qed
qed

lemma map_of_vip_nums: "map_of (vips st) k = None \<longleftrightarrow> vip_own st k = None"
  by (simp add: vip_own_map)

lemma vip_own_front: "front st' = front st \<Longrightarrow> vip_own st' = vip_own st"
  by (simp add: front_def vip_own_def vip_nums_def)

interpretation vip_pool: number_pool vipNums vip_own "vips_parse e"
  "\<lambda>k st. snd (addVip e k flags st)" "\<lambda>k st. snd (delVip e k st)"
proof
  fix k st
  show "vipNums (snd (addVip e k flags st)) = vipNums st \<and> vip_own (snd (addVip e k flags st)) = vip_own st \<or>
    vip_own st k = None \<and> (\<exists>n. vipNums st = n # vipNums (snd (addVip e k flags st))
      \<and> vip_own (snd (addVip e k flags st)) = (vip_own st)(k \<mapsto> n))"
  proof (cases rule: addVip_cases [of e k flags st])
    case (refused st')
    then show ?thesis using hull_fields [OF refused(2)] by (simp add: vip_own_map fun_eq_iff)
  next
    case (added n ns st')
    then show ?thesis using hull_fields [OF added(5)]
      by (auto simp: vip_own_map fun_eq_iff update_conv' new_vip_def)
  qed
next
  fix k st
  assume p: "vips_parse e st"
  show "vipNums (snd (delVip e k st)) = vipNums st \<and> vip_own (snd (delVip e k st)) = vip_own st \<or>
    (\<exists>n. vip_own st k = Some n \<and> vipNums (snd (delVip e k st)) = vipNums st @ [n]
      \<and> vip_own (snd (delVip e k st)) = (vip_own st)(k := None))"
  proof (cases rule: delVip_cases [of st k e])
    case (deleted v st')
    then show ?thesis using hull_fields [OF deleted(4)]
      by (auto simp: vip_own_map fun_eq_iff delete_conv')
  next
    case (thrown v st')
    then have "vip_own st k \<noteq> None" by (simp add: vip_own_map)
    with p thrown(2) have False by (auto simp: vips_parse_def)
    then show ?thesis ..
  qed simp
qed

interpretation hc_pool: number_pool hcKeyNums hc_own "\<lambda>_. True"
  "\<lambda>k st. snd (addHcKey e k st)" "\<lambda>k st. snd (delHcKey e k st)"
proof
  fix k st
  show "hcKeyNums (snd (addHcKey e k st)) = hcKeyNums st \<and> hc_own (snd (addHcKey e k st)) = hc_own st \<or>
    hc_own st k = None \<and> (\<exists>n. hcKeyNums st = n # hcKeyNums (snd (addHcKey e k st))
      \<and> hc_own (snd (addHcKey e k st)) = (hc_own st)(k \<mapsto> n))"
    by (auto simp: addHcKey_def Let_def hc_own_def update_conv' hull_fields [OF hull_updateHcKeyMap]
        split: list.split)
next
  fix k st
  show "hcKeyNums (snd (delHcKey e k st)) = hcKeyNums st \<and> hc_own (snd (delHcKey e k st)) = hc_own st \<or>
    (\<exists>n. hc_own st k = Some n \<and> hcKeyNums (snd (delHcKey e k st)) = hcKeyNums st @ [n]
      \<and> hc_own (snd (delHcKey e k st)) = (hc_own st)(k := None))"
    by (auto simp: delHcKey_def Let_def hc_own_def delete_conv' hull_fields [OF hull_updateHcKeyMap]
        split: option.split)
qed

section \<open>The invariant\<close>

text \<open>The configuration cf is the one of the constructor. The entry that the data plane reads for a real:\<close>

definition real_entry :: "env \<Rightarrow> ip \<Rightarrow> real_meta \<Rightarrow> real_definition" where
  "real_entry e a rm =
     (let d = parseAddrToBe e a in d\<lparr>real_flags := real_flags d OR (rm_flags rm AND NOT V6DADDR)\<rparr>)"

definition reals_synced :: "env \<Rightarrow> lb \<Rightarrow> bool" where
  "reals_synced e st \<longleftrightarrow>
     (\<forall>a rm. lb_reals st a = Some rm \<longrightarrow> reals (kmaps st) (rm_num rm) = Some (real_entry e a rm))"

definition all_accepted :: "env \<Rightarrow> lb \<Rightarrow> bool" where
  "all_accepted e st \<longleftrightarrow> (\<forall>n. bpf_ok e n) \<and> \<not> testing (config st)"

definition hc_numbers :: "lb_config \<Rightarrow> u32 set" where
  "hc_numbers c = (if enableHc c then set (numbers 0 (maxVips c)) else {})"

definition pools_ok :: "lb_config \<Rightarrow> lb \<Rightarrow> bool" where
  "pools_ok cf st \<longleftrightarrow>
     pool (set (numbers 0 (maxVips cf))) (vipNums st) (vip_own st) \<and>
     pool (hc_numbers cf) (hcKeyNums st) (hc_own st) \<and>
     pool (set (numbers 1 (maxReals cf))) (realNums st) (real_own st)"

definition numbers_lead_back :: "lb \<Rightarrow> bool" where
  "numbers_lead_back st \<longleftrightarrow> (\<forall>a n. real_own st a = Some n \<longrightarrow> numToReals st n = Some a) \<and>
     (\<forall>a n. numToReals st n = Some a \<longrightarrow> a = NoIP \<or> real_own st a = Some n)"

lemma lead_same:
  "numToReals st' = numToReals st \<Longrightarrow> real_own st' = real_own st \<Longrightarrow> numbers_lead_back st' = numbers_lead_back st"
  by (simp add: numbers_lead_back_def)

lemma lead_take:
  assumes "numbers_lead_back st" "pool A (n # ns) (real_own st)" "real_own st a = None"
    "numToReals st' = (numToReals st)(n \<mapsto> a)" "real_own st' = (real_own st)(a \<mapsto> n)"
  shows "numbers_lead_back st'"
proof -
  have "m \<noteq> n" if "real_own st b = Some m" for b m
    using pool_owner_in [OF assms(2), of b m] that by auto
  moreover have "b = NoIP \<or> real_own st b = Some m" if "numToReals st m = Some b" for b m
    using assms(1) that unfolding numbers_lead_back_def by blast
  ultimately show ?thesis using assms(1,3-5) by (force simp: numbers_lead_back_def)
qed

lemma lead_give:
  assumes "numbers_lead_back st" "real_own st a = Some n"
    "numToReals st' = (numToReals st)(n := None)" "real_own st' = (real_own st)(a := None)"
  shows "numbers_lead_back st'"
proof -
  have "numToReals st n = Some a" using assms(1,2) by (simp add: numbers_lead_back_def)
  then show ?thesis using assms unfolding numbers_lead_back_def
    by (auto split: if_splits) (metis option.inject)+
qed

definition lb_inv :: "lb_config \<Rightarrow> env \<Rightarrow> lb \<Rightarrow> bool" where
  "lb_inv cf e st \<longleftrightarrow> config st = cf \<and> pools_ok cf st \<and> vips_parse e st \<and> lb_reals st NoIP = None \<and> numbers_lead_back st \<and>
     (all_accepted e st \<longrightarrow> reals_synced e st)"

definition same :: "lb \<Rightarrow> lb \<Rightarrow> bool" where
  "same st st' \<longleftrightarrow> hull st' = hull st \<and> reals (kmaps st') = reals (kmaps st)"

lemma sameI [intro]: "hull st' = hull st \<Longrightarrow> reals (kmaps st') = reals (kmaps st) \<Longrightarrow> same st st'"
  by (simp add: same_def)

lemma same_refl [simp]: "same st st"
  by auto

lemma same_trans [trans]: "same s t \<Longrightarrow> same t u \<Longrightarrow> same s u"
  by (simp add: same_def)

lemma lb_inv_same:
  assumes "same st st'" "lb_inv cf e st"
  shows "lb_inv cf e st'"
proof -
  note f = hull_fields [OF conjunct1 [OF assms(1) [unfolded same_def]]]
  have "vip_own st' = vip_own st" "hc_own st' = hc_own st" "real_own st' = real_own st"
    using f by (simp_all add: vip_own_def vip_nums_def hc_own_def real_own_def [abs_def])
  moreover have "all_accepted e st' = all_accepted e st" "reals_synced e st' = reals_synced e st"
    using assms(1) f by (simp_all add: all_accepted_def reals_synced_def same_def)
  ultimately show ?thesis
    using assms f by (simp add: lb_inv_def pools_ok_def vips_parse_def numbers_lead_back_def)
qed

lemma same_counted:
  assumes "\<And>s. same s (f s)"
  shows "same st (snd (counted_call e b f st))"
proof
  show "hull (snd (counted_call e b f st)) = hull st"
    using assms by (intro hull_counted) (simp add: same_def)
  have "reals (kmaps (f (st\<lparr>ncalls := ncalls st + 1\<rparr>))) = reals (kmaps st)"
    using assms [of "st\<lparr>ncalls := ncalls st + 1\<rparr>"] by (simp add: same_def)
  then show "reals (kmaps (snd (counted_call e b f st))) = reals (kmaps st)"
    by (simp add: counted_call_def bpf_call_def failed_call_def Let_def)
qed

lemma same_on_kmaps: "reals (f (kmaps s)) = reals (kmaps s) \<Longrightarrow> same s (on_kmaps f s)"
  by (intro sameI hull_on_kmaps) (simp add: on_kmaps_def)

lemma same_counted_kmaps:
  assumes "\<And>m. reals (f m) = reals m"
  shows "same st (snd (counted_call e b (on_kmaps f) st))"
  by (rule same_counted) (rule same_on_kmaps, rule assms)

lemma same_validate [simp]: "same st (snd (validateAddress e a n st))"
  by (intro sameI hull_validate) (simp add: validateAddress_def)

lemma same_updateVipMap [simp]: "same st (snd (updateVipMap e act k m st))"
  by (simp add: updateVipMap_def Let_def split_def same_counted_kmaps split: option.split)

lemma same_updateHcKeyMap [simp]: "same st (snd (updateHcKeyMap e act k m st))"
proof -
  have "same st (snd (counted_call e b (\<lambda>s. s\<lparr>hc_key_map := f s\<rparr>) st))" for b f
    by (rule same_counted) (auto simp: hull_def)
  then show ?thesis by (simp add: updateHcKeyMap_def Let_def split_def split: option.split)
qed

section \<open>Reference counts\<close>

lemma updateRealsMap_kmaps:
  assumes "bpf_ok e (ncalls st)"
  shows "reals (kmaps (snd (updateRealsMap e a n f st)))
    = (reals (kmaps st))(n \<mapsto> (parseAddrToBe e a)\<lparr>real_flags := real_flags (parseAddrToBe e a) OR (f AND NOT V6DADDR)\<rparr>)"
  using assms by (simp add: updateRealsMap_def counted_call_def bpf_call_def on_kmaps_def Let_def)

lemma increase_kmaps:
  assumes "lb_reals st a = None" "realNums st = n # ns" "all_accepted e st"
  shows "reals (kmaps (snd (increaseRefCountForReal e a f st)))
    = (reals (kmaps st))(n \<mapsto> real_entry e a \<lparr>rm_num = n, refCount = 1, rm_flags = f AND NOT V6DADDR\<rparr>)"
  using assms
  by (simp add: increaseRefCountForReal_def Let_def notify_def all_accepted_def real_entry_def
      updateRealsMap_kmaps)

lemma lb_inv_pools:
  assumes "front st' = front st" "lb_inv cf e st"
    "pool (set (numbers 1 (maxReals cf))) (realNums st') (real_own st')"
  shows "pools_ok cf st'" "vips_parse e st'"
  using assms front_fields [OF assms(1)] vip_own_front [OF assms(1)]
  by (simp_all add: lb_inv_def pools_ok_def vips_parse_def hc_own_def)

lemma inv_increase:
  assumes "lb_inv cf e st" "a \<noteq> NoIP"
  shows "lb_inv cf e (snd (increaseRefCountForReal e a f st))"
proof -
  let ?st = "snd (increaseRefCountForReal e a f st)"
  have p: "pool (set (numbers 1 (maxReals cf))) (realNums st) (real_own st)"
    using assms(1) by (simp add: lb_inv_def pools_ok_def)
  note pools = lb_inv_pools [OF front_increase assms(1) real_pool.acquire_pool [OF p]]
  have c: "config ?st = config st" using front_fields [OF front_increase] by auto
  have "lb_reals ?st NoIP = None \<and> numbers_lead_back ?st \<and> (all_accepted e st \<longrightarrow> reals_synced e ?st)"
  proof (cases rule: increase_cases [of st a e f])
    case (known rm)
    then have "real_own ?st = real_own st" "numToReals ?st = numToReals st"
      by (auto simp: real_own_def fun_eq_iff)
    then have "numbers_lead_back ?st" using assms(1) lead_same [of ?st st] by (simp add: lb_inv_def)
    then show ?thesis using assms known
      by (auto simp: lb_inv_def reals_synced_def real_entry_def)
  next
    case exhausted
    then show ?thesis using assms by (simp add: lb_inv_def)
  next
    case (fresh n ns st')
    note h = hull_fields [OF fresh(4)]
    have free: "rm_num rm \<noteq> n" if "lb_reals st b = Some rm" for b rm
      using pool_owner_in [OF p, of b "rm_num rm"] that fresh(2) by (auto simp: real_own_def)
    have "real_own ?st = (real_own st)(a \<mapsto> n)" "numToReals ?st = (numToReals st)(n \<mapsto> a)"
      using fresh(3) h by (auto simp: real_own_def fun_eq_iff)
    then have "numbers_lead_back ?st"
      using assms(1) p fresh(1,2) lead_take [of st _ n ns a ?st] by (simp add: lb_inv_def real_own_def)
    then show ?thesis using assms fresh h free increase_kmaps [OF fresh(1,2), of e f]
      by (auto simp: lb_inv_def reals_synced_def)
  qed
  moreover have "all_accepted e ?st = all_accepted e st" using c by (simp add: all_accepted_def)
  ultimately show ?thesis using pools c assms by (simp add: lb_inv_def)
qed

lemma inv_decrease:
  assumes "lb_inv cf e st"
  shows "lb_inv cf e (decreaseRefCountForReal a st)"
proof -
  let ?st = "decreaseRefCountForReal a st"
  have p: "pool (set (numbers 1 (maxReals cf))) (realNums st) (real_own st)"
    using assms(1) by (simp add: lb_inv_def pools_ok_def)
  note pools = lb_inv_pools [OF front_decrease assms real_pool.release_pool [OF TrueI p]]
  have c: "config ?st = config st" using front_fields [OF front_decrease] by auto
  have "lb_reals ?st NoIP = None \<and> numbers_lead_back ?st \<and> (all_accepted e st \<longrightarrow> reals_synced e ?st)"
  proof (cases rule: decrease_cases [of st a])
    case unknown
    then show ?thesis using assms by (simp add: lb_inv_def)
  next
    case (more rm)
    then have "real_own ?st = real_own st" "numToReals ?st = numToReals st"
      by (auto simp: real_own_def fun_eq_iff)
    then have "numbers_lead_back ?st" using assms(1) lead_same [of ?st st] by (simp add: lb_inv_def)
    then show ?thesis using assms more
      by (auto simp: lb_inv_def reals_synced_def real_entry_def)
  next
    case (last rm)
    note h = hull_fields [OF last(3)]
    have other: "rm_num rm' \<noteq> rm_num rm" if "lb_reals st b = Some rm'" "b \<noteq> a" for b rm'
      using pool_owner_unique [OF p, of b "rm_num rm'" a] that last(1) by (auto simp: real_own_def)
    have "real_own ?st = (real_own st)(a := None)" "numToReals ?st = (numToReals st)(rm_num rm := None)"
      using h by (auto simp: real_own_def fun_eq_iff)
    then have "numbers_lead_back ?st"
      using assms(1) last(1) lead_give [of st a "rm_num rm" ?st] by (simp add: lb_inv_def real_own_def)
    then show ?thesis using assms last(1,4) h other
      by (auto simp: lb_inv_def reals_synced_def)
  qed
  moreover have "all_accepted e ?st = all_accepted e st" using c by (simp add: all_accepted_def)
  ultimately show ?thesis using pools c assms by (simp add: lb_inv_def)
qed

lemma inv_num_to_real:
  assumes "lb_inv cf e st"
  shows "lb_inv cf e (snd (num_to_real n st))"
proof (cases "numToReals st n")
  case None
  let ?st = "st\<lparr>numToReals := (numToReals st)(n \<mapsto> NoIP)\<rparr>"
  have o: "vip_own ?st = vip_own st" "hc_own ?st = hc_own st" "real_own ?st = real_own st"
    by (simp_all add: vip_own_def vip_nums_def hc_own_def real_own_def [abs_def])
  have "numbers_lead_back ?st"
    using assms None o by (auto simp: lb_inv_def numbers_lead_back_def)
  moreover have "all_accepted e ?st = all_accepted e st" "reals_synced e ?st = reals_synced e st"
    by (simp_all add: all_accepted_def reals_synced_def)
  ultimately have "lb_inv cf e ?st"
    using assms o by (simp add: lb_inv_def pools_ok_def vips_parse_def)
  then show ?thesis by (simp add: num_to_real_def None)
qed (simp add: num_to_real_def assms)

end
