(* ===== verification/LbStats.thy ===== *)
theory LbStats
  imports LbState
begin

text \<open>
  The statistics that VsoshlbLb.cpp reads. A lookup in a per-CPU map returns one value for each
  possible CPU: the memory is a list with the data plane's maps of every CPU, and the entry of
  the calling CPU is a member of it. The number of possible CPUs is unsigned, so the source's test
  for a negative number never holds. fails says whether the kernel refuses the lookup.
\<close>

section \<open>Lookups in per-CPU maps\<close>

type_synonym cpu_mem = "bst list"

text \<open>None when the key is in no map or the call is refused.\<close>

definition percpu_lookup :: "(bst \<Rightarrow> u32 \<rightharpoonup> 'v) \<Rightarrow> bool \<Rightarrow> u32 \<Rightarrow> cpu_mem \<Rightarrow> 'v list option" where
  "percpu_lookup get fails k mem =
     (let vs = map (\<lambda>m. get m k) mem
      in if fails \<or> None \<in> set vs then None else Some (map the vs))"

section \<open>lb_stats\<close>

definition sum_step :: "lb_stats \<Rightarrow> lb_stats \<Rightarrow> lb_stats" where
  "sum_step stat sum_stat = sum_stat\<lparr>v1 := v1 sum_stat + v1 stat, v2 := v2 sum_stat + v2 stat\<rparr>"

definition no_lb_stats :: lb_stats where
  "no_lb_stats = \<lparr>v1 = 0, v2 = 0\<rparr>"

definition getLbStats ::
  "(bst \<Rightarrow> u32 \<rightharpoonup> lb_stats) \<Rightarrow> bool \<Rightarrow> u32 \<Rightarrow> cpu_mem \<Rightarrow> lb \<Rightarrow> lb_stats \<times> lb" where
  "getLbStats get fails position mem st =
     (if testing (config st) then (no_lb_stats, st)
      else case percpu_lookup get fails position mem of
        None \<Rightarrow> (no_lb_stats, failed_call st)
      | Some vs \<Rightarrow> (fold sum_step vs no_lb_stats, st))"

definition kLruCntrOffset :: u32 where "kLruCntrOffset = 0"
definition kLruMissOffset :: u32 where "kLruMissOffset = 1"
definition kLruFallbackOffset :: u32 where "kLruFallbackOffset = 3"
definition kIcmpTooBigOffset :: u32 where "kIcmpTooBigOffset = 4"
definition kLpmSrcOffset :: u32 where "kLpmSrcOffset = 5"
definition kInlineDecapOffset :: u32 where "kInlineDecapOffset = 6"
definition kGlobalLruOffset :: u32 where "kGlobalLruOffset = 8"
definition kChDropOffset :: u32 where "kChDropOffset = 9"
definition kDecapCounterOffset :: u32 where "kDecapCounterOffset = 10"
definition kQuicIcmpOffset :: u32 where "kQuicIcmpOffset = 11"
definition kIcmpPtbV6Offset :: u32 where "kIcmpPtbV6Offset = 12"
definition kIcmpPtbV4Offset :: u32 where "kIcmpPtbV4Offset = 13"

text \<open>The counters that follow those of the VIPs in the map stats.\<close>

definition global_stats :: "u32 \<Rightarrow> bool \<Rightarrow> cpu_mem \<Rightarrow> lb \<Rightarrow> lb_stats \<times> lb" where
  "global_stats off fails mem st = getLbStats stats fails (maxVips (config st) + off) mem st"

definition getLruStats :: "bool \<Rightarrow> cpu_mem \<Rightarrow> lb \<Rightarrow> lb_stats \<times> lb" where
  "getLruStats = global_stats kLruCntrOffset"

definition getLruMissStats :: "bool \<Rightarrow> cpu_mem \<Rightarrow> lb \<Rightarrow> lb_stats \<times> lb" where
  "getLruMissStats = global_stats kLruMissOffset"

definition getLruFallbackStats :: "bool \<Rightarrow> cpu_mem \<Rightarrow> lb \<Rightarrow> lb_stats \<times> lb" where
  "getLruFallbackStats = global_stats kLruFallbackOffset"

definition getIcmpTooBigStats :: "bool \<Rightarrow> cpu_mem \<Rightarrow> lb \<Rightarrow> lb_stats \<times> lb" where
  "getIcmpTooBigStats = global_stats kIcmpTooBigOffset"

definition getChDropStats :: "bool \<Rightarrow> cpu_mem \<Rightarrow> lb \<Rightarrow> lb_stats \<times> lb" where
  "getChDropStats = global_stats kChDropOffset"

definition getSrcRoutingStats :: "bool \<Rightarrow> cpu_mem \<Rightarrow> lb \<Rightarrow> lb_stats \<times> lb" where
  "getSrcRoutingStats = global_stats kLpmSrcOffset"

definition getInlineDecapStats :: "bool \<Rightarrow> cpu_mem \<Rightarrow> lb \<Rightarrow> lb_stats \<times> lb" where
  "getInlineDecapStats = global_stats kInlineDecapOffset"

definition getGlobalLruStats :: "bool \<Rightarrow> cpu_mem \<Rightarrow> lb \<Rightarrow> lb_stats \<times> lb" where
  "getGlobalLruStats = global_stats kGlobalLruOffset"

definition getDecapStats :: "bool \<Rightarrow> cpu_mem \<Rightarrow> lb \<Rightarrow> lb_stats \<times> lb" where
  "getDecapStats = global_stats kDecapCounterOffset"

definition getQuicIcmpStats :: "bool \<Rightarrow> cpu_mem \<Rightarrow> lb \<Rightarrow> lb_stats \<times> lb" where
  "getQuicIcmpStats = global_stats kQuicIcmpOffset"

definition getIcmpPtbV6Stats :: "bool \<Rightarrow> cpu_mem \<Rightarrow> lb \<Rightarrow> lb_stats \<times> lb" where
  "getIcmpPtbV6Stats = global_stats kIcmpPtbV6Offset"

definition getIcmpPtbV4Stats :: "bool \<Rightarrow> cpu_mem \<Rightarrow> lb \<Rightarrow> lb_stats \<times> lb" where
  "getIcmpPtbV4Stats = global_stats kIcmpPtbV4Offset"

definition getRealStats :: "u32 \<Rightarrow> bool \<Rightarrow> cpu_mem \<Rightarrow> lb \<Rightarrow> lb_stats \<times> lb" where
  "getRealStats index fails mem st = getLbStats reals_stats fails index mem st"

text \<open>The statistics of a VIP in one of the maps indexed by VIP numbers.\<close>

definition vip_stats_in ::
  "(bst \<Rightarrow> u32 \<rightharpoonup> lb_stats) \<Rightarrow> vip_key \<Rightarrow> bool \<Rightarrow> cpu_mem \<Rightarrow> lb \<Rightarrow> lb_stats \<times> lb" where
  "vip_stats_in get vip fails mem st =
     (case map_of (vips st) vip of
        None \<Rightarrow> (no_lb_stats, st)
      | Some v \<Rightarrow> getLbStats get fails (vipNum v) mem st)"

definition getStatsForVip :: "vip_key \<Rightarrow> bool \<Rightarrow> cpu_mem \<Rightarrow> lb \<Rightarrow> lb_stats \<times> lb" where
  "getStatsForVip = vip_stats_in stats"

definition getDecapStatsForVip :: "vip_key \<Rightarrow> bool \<Rightarrow> cpu_mem \<Rightarrow> lb \<Rightarrow> lb_stats \<times> lb" where
  "getDecapStatsForVip = vip_stats_in decap_vip_stats"

definition getSidRoutingStatsForVip :: "vip_key \<Rightarrow> bool \<Rightarrow> cpu_mem \<Rightarrow> lb \<Rightarrow> lb_stats \<times> lb" where
  "getSidRoutingStatsForVip = vip_stats_in server_id_stats"

text \<open>
  The packets of every core, summed over the VIPs; a refused lookup (refused n for VIP number n)
  skips the VIP. The counter is signed in the source, the sum the same modulo 2 ^ 64.
\<close>

definition getPerCorePacketsStats :: "(u32 \<Rightarrow> bool) \<Rightarrow> cpu_mem \<Rightarrow> lb \<Rightarrow> u64 list" where
  "getPerCorePacketsStats refused mem st =
     (if testing (config st) then []
      else fold (\<lambda>(_, vip) corePackets.
             case percpu_lookup stats (refused (vipNum vip)) (vipNum vip) mem of
               None \<Rightarrow> corePackets
             | Some vs \<Rightarrow> map2 (\<lambda>c s. c + v1 s) corePackets vs)
             (vips st) (replicate (length mem) 0))"

section \<open>QUIC, TCP server id and stable routing statistics\<close>

definition no_quic_stats :: lb_quic_packets_stats where
  "no_quic_stats = \<lparr>q_ch_routed = 0, q_cid_initial = 0, q_cid_invalid_server_id = 0,
     q_cid_invalid_server_id_sample = 0, q_cid_routed = 0, q_cid_unknown_real_dropped = 0,
     q_cid_v0 = 0, q_cid_v1 = 0, q_cid_v2 = 0, q_cid_v3 = 0, q_dst_match_in_lru = 0,
     q_dst_mismatch_in_lru = 0, q_dst_not_found_in_lru = 0\<rparr>"

definition kMaxInvalidServerIds :: nat where "kMaxInvalidServerIds = 10000"

text \<open>One CPU in the loop; ids is invalidServerIds\_, a set kept as a list.\<close>

definition quic_sum_step ::
  "lb_quic_packets_stats \<Rightarrow> lb_quic_packets_stats \<times> u64 list \<Rightarrow> lb_quic_packets_stats \<times> u64 list" where
  "quic_sum_step stat s =
     (let (sum_stat, ids) = s;
          sample = q_cid_invalid_server_id_sample stat;
          ids = (if sample \<noteq> 0 \<and> sample \<notin> set ids \<and> length ids < kMaxInvalidServerIds
                 then ids @ [sample] else ids)
      in (sum_stat\<lparr>q_ch_routed := q_ch_routed sum_stat + q_ch_routed stat,
            q_cid_initial := q_cid_initial sum_stat + q_cid_initial stat,
            q_cid_invalid_server_id := q_cid_invalid_server_id sum_stat + q_cid_invalid_server_id stat,
            q_cid_routed := q_cid_routed sum_stat + q_cid_routed stat,
            q_cid_unknown_real_dropped :=
              q_cid_unknown_real_dropped sum_stat + q_cid_unknown_real_dropped stat,
            q_cid_v0 := q_cid_v0 sum_stat + q_cid_v0 stat,
            q_cid_v1 := q_cid_v1 sum_stat + q_cid_v1 stat,
            q_cid_v2 := q_cid_v2 sum_stat + q_cid_v2 stat,
            q_cid_v3 := q_cid_v3 sum_stat + q_cid_v3 stat,
            q_dst_match_in_lru := q_dst_match_in_lru sum_stat + q_dst_match_in_lru stat,
            q_dst_mismatch_in_lru := q_dst_mismatch_in_lru sum_stat + q_dst_mismatch_in_lru stat,
            q_dst_not_found_in_lru := q_dst_not_found_in_lru sum_stat + q_dst_not_found_in_lru stat\<rparr>,
          ids))"

definition getLbQuicPacketsStats ::
  "bool \<Rightarrow> cpu_mem \<Rightarrow> u64 list \<times> lb \<Rightarrow> lb_quic_packets_stats \<times> u64 list \<times> lb" where
  "getLbQuicPacketsStats fails mem s =
     (let (ids, st) = s
      in if testing (config st) then (no_quic_stats, ids, st)
         else case percpu_lookup quic_stats_map fails 0 mem of
           None \<Rightarrow> (no_quic_stats, ids, failed_call st)
         | Some vs \<Rightarrow> let (r, ids) = fold quic_sum_step vs (no_quic_stats, ids) in (r, ids, st))"

definition getTcpServerIdRoutingStats ::
  "bool \<Rightarrow> cpu_mem \<Rightarrow> lb \<Rightarrow> lb_tpr_packets_stats \<times> lb" where
  "getTcpServerIdRoutingStats fails mem st =
     (let z = \<lparr>t_ch_routed = 0, t_dst_mismatch_in_lru = 0, t_sid_routed = 0, t_tcp_syn = 0\<rparr>
      in if testing (config st) then (z, st)
         else case percpu_lookup tpr_stats_map fails 0 mem of
           None \<Rightarrow> (z, failed_call st)
         | Some vs \<Rightarrow>
             (fold (\<lambda>stat sum_stat. sum_stat
                 \<lparr>t_ch_routed := t_ch_routed sum_stat + t_ch_routed stat,
                  t_dst_mismatch_in_lru := t_dst_mismatch_in_lru sum_stat + t_dst_mismatch_in_lru stat,
                  t_sid_routed := t_sid_routed sum_stat + t_sid_routed stat,
                  t_tcp_syn := t_tcp_syn sum_stat + t_tcp_syn stat\<rparr>) vs z, st))"

text \<open>The fifth counter of the structure, invalid packet types, is not summed.\<close>

definition getUdpStableRoutingStats ::
  "bool \<Rightarrow> cpu_mem \<Rightarrow> lb \<Rightarrow> lb_stable_rt_packets_stats \<times> lb" where
  "getUdpStableRoutingStats fails mem st =
     (let z = \<lparr>s_ch_routed = 0, s_cid_routed = 0, s_cid_invalid_server_id = 0,
               s_cid_unknown_real_dropped = 0, s_invalid_packet_type = 0\<rparr>
      in if testing (config st) then (z, st)
         else case percpu_lookup stable_rt_stats fails 0 mem of
           None \<Rightarrow> (z, failed_call st)
         | Some vs \<Rightarrow>
             (fold (\<lambda>stat sum_stat. sum_stat
                 \<lparr>s_ch_routed := s_ch_routed sum_stat + s_ch_routed stat,
                  s_cid_routed := s_cid_routed sum_stat + s_cid_routed stat,
                  s_cid_invalid_server_id := s_cid_invalid_server_id sum_stat + s_cid_invalid_server_id stat,
                  s_cid_unknown_real_dropped :=
                    s_cid_unknown_real_dropped sum_stat + s_cid_unknown_real_dropped stat\<rparr>) vs z, st))"

section \<open>Health check statistics\<close>

record hc_prog_stats =
  packetsProcessed :: u64
  packetsDropped :: u64
  packetsSkipped :: u64
  packetsTooBig :: u64

text \<open>look is the lookup of entry 0 in hc_stats_map, in the layout of HealthCheckProgStats.\<close>

definition getStatsForHealthCheckProgram ::
  "hc_prog_stats list option \<Rightarrow> lb \<Rightarrow> hc_prog_stats \<times> lb" where
  "getStatsForHealthCheckProgram look st =
     (let z = \<lparr>packetsProcessed = 0, packetsDropped = 0, packetsSkipped = 0, packetsTooBig = 0\<rparr>
      in if testing (config st) then (z, st)
         else case look of
           None \<Rightarrow> (z, failed_call st)
         | Some vs \<Rightarrow>
             (fold (\<lambda>perCpuStat total_stats. total_stats
                 \<lparr>packetsProcessed := packetsProcessed total_stats + packetsProcessed perCpuStat,
                  packetsSkipped := packetsSkipped total_stats + packetsSkipped perCpuStat,
                  packetsDropped := packetsDropped total_stats + packetsDropped perCpuStat,
                  packetsTooBig := packetsTooBig total_stats + packetsTooBig perCpuStat\<rparr>) vs z, st))"

text \<open>look is the lookup in per_hckey_stats.\<close>

definition getPacketsProcessedForHcKey ::
  "(u32 \<Rightarrow> u64 list option) \<Rightarrow> vip_key \<Rightarrow> lb \<Rightarrow> u64 \<times> lb" where
  "getPacketsProcessedForHcKey look k st =
     (case map_of (hckeys st) k of
        None \<Rightarrow> (0, st)
      | Some hcKeyId \<Rightarrow>
          if testing (config st) then (0, st)
          else case look hcKeyId of
            Some vs \<Rightarrow> (fold (\<lambda>stat sum_stat. sum_stat + stat) vs 0, st)
          | None \<Rightarrow> (0, failed_call st))"

section \<open>Misses of the connection tables for one VIP\<close>

text \<open>
  norm is folly's IPAddress(a).str(). The write to vip_miss_stats and the writes that reset the
  counters may be refused; write_ok tells for how many keys the reset goes on.
\<close>

definition logVipLruMissStats ::
  "env \<Rightarrow> (string \<Rightarrow> string) \<Rightarrow> (u32 \<Rightarrow> bool) \<Rightarrow> vip_key \<Rightarrow> cpu_mem \<times> lb \<Rightarrow> bool lbres \<times> vip_key \<times> cpu_mem \<times> lb" where
  "logVipLruMissStats e norm write_ok vip s =
     (let (mem, st) = s; (t, st) = validateAddress e (vk_address vip) False st
      in if t = INVALID then (Ret False, vip, mem, st)
         else
           let vip = vip\<lparr>vk_address := norm (vk_address vip)\<rparr>;
               st = st\<lparr>lruMissStatsVip := Some vip\<rparr>
           in case vipKeyToVipDefinition e vip of
                None \<Rightarrow> (Exn, vip, mem, st)
              | Some d \<Rightarrow>
                  if \<not> bpf_ok e (ncalls st)
                  then (Ret False, vip, mem, failed_call (st\<lparr>ncalls := ncalls st + 1\<rparr>))
                  else
                    let st = on_kmaps (\<lambda>m. m\<lparr>vip_miss_stats := (vip_miss_stats m)(0 \<mapsto> d)\<rparr>)
                               (st\<lparr>ncalls := ncalls st + 1\<rparr>);
                        mem = map (\<lambda>m. m\<lparr>vip_miss_stats := (vip_miss_stats m)(0 \<mapsto> d)\<rparr>) mem;
                        keys = map of_nat [0..<unat (maxReals (config st))];
                        done_keys = takeWhile write_ok keys;
                        reset = (\<lambda>m. m\<lparr>lru_miss_stats := fold (\<lambda>k t. t(k \<mapsto> 0)) done_keys (lru_miss_stats m)\<rparr>)
                    in (Ret (length done_keys = length keys), vip, map reset mem, on_kmaps reset st))"

text \<open>The sum of a real is an int; the last of two reals with one address wins.\<close>

fun miss_sums :: "(u32 \<Rightarrow> bool) \<Rightarrow> cpu_mem \<Rightarrow> u32 list \<Rightarrow> (ip \<times> 32 word) list \<Rightarrow> lb
    \<Rightarrow> (ip \<times> 32 word) list \<times> lb" where
  "miss_sums refused mem [] acc st = (acc, st)"
| "miss_sums refused mem (k # ks) acc st =
     (case percpu_lookup lru_miss_stats (refused k) k mem of
        None \<Rightarrow> ([], failed_call st)
      | Some vs \<Rightarrow>
          let sum = fold (\<lambda>v s. s + ucast v) vs 0;
              (a, st) = num_to_real k st
          in miss_sums refused mem ks (AList.update a sum acc) st)"

definition getVipLruMissStats ::
  "env \<Rightarrow> (string \<Rightarrow> string) \<Rightarrow> (u32 \<Rightarrow> bool) \<Rightarrow> cpu_mem \<Rightarrow> vip_key \<Rightarrow> lb \<Rightarrow> (ip \<times> 32 word) list \<times> lb" where
  "getVipLruMissStats e norm refused mem vip st =
     (let (t, st) = validateAddress e (vk_address vip) False st
      in if t = INVALID then ([], st)
         else
           let vip = vip\<lparr>vk_address := norm (vk_address vip)\<rparr>
           in if lruMissStatsVip st \<noteq> Some vip then ([], st)
              else case map_of (vips st) vip of
                None \<Rightarrow> ([], st)
              | Some v \<Rightarrow> miss_sums refused mem (getReals v) [] st)"

end
