(* ===== verification/LbSteps.thy ===== *)
theory LbSteps
  imports LbInv LbStats
begin

text \<open>
  The operations of the control plane as steps of one transition relation, and the preservation of
  the invariant by each of them.
\<close>

text \<open>folly never parses a text to the default address.\<close>

definition real_addresses :: "env \<Rightarrow> bool" where
  "real_addresses e \<longleftrightarrow> (\<forall>s. parse_ip e s \<noteq> Some NoIP)"

lemma parsed_address:
  assumes "real_addresses e" "validateAddress e s n st = (HOST, st')"
  shows "the (parse_ip e s) \<noteq> NoIP"
  using assms by (auto simp: validateAddress_def real_addresses_def split: if_splits)

lemma validate_host:
  "validateAddress e s False st = (t, st') \<Longrightarrow> t \<noteq> INVALID \<Longrightarrow> t = HOST"
  by (auto simp: validateAddress_def split: if_splits)

lemma inv_validate: "lb_inv cf e st \<Longrightarrow> validateAddress e s n st = (t, st') \<Longrightarrow> lb_inv cf e st'"
  using lb_inv_same [OF same_validate] by (metis snd_conv)

section \<open>Fields outside the invariant\<close>

lemma same_fields [simp]:
  "same st (st\<lparr>lpmSrcMapping := x\<rparr>)" "same st (st\<lparr>quicMapping := q\<rparr>)"
  "same st (st\<lparr>decapDsts := d\<rparr>)" "same st (st\<lparr>hcReals := h\<rparr>)"
  "same st (st\<lparr>lruMissStatsVip := v\<rparr>)" "same st (st\<lparr>ncalls := n\<rparr>)"
  by (auto simp: hull_def)

lemma same_failed_call [simp]: "same st (failed_call st)"
  by (intro sameI hull_failed_call) (simp add: failed_call_def)

lemma lb_inv_fields [simp]:
  assumes "lb_inv cf e st"
  shows "lb_inv cf e (st\<lparr>lpmSrcMapping := x\<rparr>)" "lb_inv cf e (st\<lparr>quicMapping := q\<rparr>)"
    "lb_inv cf e (st\<lparr>decapDsts := d\<rparr>)" "lb_inv cf e (st\<lparr>hcReals := h\<rparr>)"
  by (rule lb_inv_same [OF _ assms], simp)+

section \<open>Preservation by the operations on VIPs\<close>

lemma same_programHashRing [simp]: "same st (programHashRing e ps n st)"
proof -
  have "same s (on_kmaps (\<lambda>m. m\<lparr>ch_rings := f m\<rparr>) s)" for f s by (rule same_on_kmaps) simp
  then show ?thesis
    unfolding programHashRing_def
    by (simp add: Let_def split_def) (meson same_counted same_trans)
qed

lemma vipNum_updates [simp]:
  "vipNum (setHashFunction f v) = vipNum v" "vipNum (setVipFlags fl v) = vipNum v"
  "vipNum (unsetVipFlags fl v) = vipNum v" "vipNum (snd (getEndpoints us v)) = vipNum v"
  by (simp_all add: setHashFunction_def setVipFlags_def unsetVipFlags_def getEndpoints_def split_def Let_def)

lemma vipNum_calculate: "calculateHashRing gen es v = Some (d, v') \<Longrightarrow> vipNum v' = vipNum v"
  by (auto simp: calculateHashRing_def split_def Let_def split: if_splits option.splits)

lemma vipNum_batch: "batchRealsUpdate gen us v = Some (d, v') \<Longrightarrow> vipNum v' = vipNum v"
  using vipNum_calculate [of gen "fst (getEndpoints us v)" "snd (getEndpoints us v)" d v']
  by (simp add: batchRealsUpdate_def split_def Let_def)

lemma vip_own_put:
  "map_of (vips st) k = Some v \<Longrightarrow> vipNum v' = vipNum v \<Longrightarrow> vip_own (put_vip k v' st) = vip_own st"
  by (auto simp: vip_own_map fun_eq_iff put_vip_def update_conv')

lemma inv_put_vip:
  assumes "lb_inv cf e st" "map_of (vips st) k = Some v" "vipNum v' = vipNum v"
  shows "lb_inv cf e (put_vip k v' st)"
proof -
  have "all_accepted e (put_vip k v' st) = all_accepted e st"
    "reals_synced e (put_vip k v' st) = reals_synced e st"
    "hc_own (put_vip k v' st) = hc_own st" "real_own (put_vip k v' st) = real_own st"
    by (simp_all add: all_accepted_def reals_synced_def put_vip_def hc_own_def real_own_def [abs_def])
  moreover note vip_own_put [OF assms(2,3)]
  ultimately show ?thesis using assms(1)
    by (simp add: lb_inv_def pools_ok_def vips_parse_def numbers_lead_back_def) (simp add: put_vip_def)
qed

lemma lb_inv_vips:
  assumes "lb_inv cf e st" "hull st' = hull (st\<lparr>vipNums := ns, vips := vs\<rparr>)" "kmaps st' = kmaps st \<or> reals (kmaps st') = reals (kmaps st)"
    "pool (set (numbers 0 (maxVips cf))) (vipNums st') (vip_own st')" "vips_parse e st'"
  shows "lb_inv cf e st'"
proof -
  note f = hull_fields [OF assms(2), simplified]
  have "all_accepted e st' = all_accepted e st" "reals_synced e st' = reals_synced e st"
    "hc_own st' = hc_own st" "real_own st' = real_own st"
    using f assms(3) by (auto simp: all_accepted_def reals_synced_def hc_own_def real_own_def [abs_def])
  then show ?thesis using assms f by (simp add: lb_inv_def pools_ok_def numbers_lead_back_def)
qed

lemma kmaps_addVip: "reals (kmaps (snd (addVip e k flags st))) = reals (kmaps st)"
proof -
  have v: "reals (kmaps (snd (updateVipMap e a x m s))) = reals (kmaps s)" for a x m s
    using same_updateVipMap by (simp add: same_def)
  have w: "reals (kmaps (snd (validateAddress e a n s))) = reals (kmaps s)" for a n s
    using same_validate by (simp add: same_def)
  show ?thesis by (simp add: addVip_def Let_def split_def v w split: list.split)
qed

lemma inv_addVip:
  assumes "lb_inv cf e st"
  shows "lb_inv cf e (snd (addVip e k flags st))"
proof (cases rule: addVip_cases [of e k flags st])
  case (refused st')
  then show ?thesis using assms kmaps_addVip [of e k flags st] by (auto intro: lb_inv_same)
next
  case (added n ns st')
  have own: "vip_own st' = (vip_own st)(k \<mapsto> n)"
    using hull_fields [OF added(5)] by (auto simp: vip_own_map fun_eq_iff update_conv' new_vip_def)
  have "vips_parse e st'" using assms added(3) own by (auto simp: lb_inv_def vips_parse_def)
  moreover have "pool (set (numbers 0 (maxVips cf))) (vipNums st') (vip_own st')"
    using vip_pool.acquire_pool [where A = "set (numbers 0 (maxVips cf))" and s = st and e = e
        and flags = flags and k = k] assms added(4)
    by (simp add: lb_inv_def pools_ok_def)
  ultimately show ?thesis
    using lb_inv_vips [OF assms added(5)] kmaps_addVip [of e k flags st] added(4) by simp
qed

lemma inv_drop_real: "lb_inv cf e st \<Longrightarrow> lb_inv cf e (drop_real n st)"
  by (simp add: drop_real_def split_def Let_def inv_num_to_real inv_decrease)

lemma inv_delVip:
  assumes "lb_inv cf e st"
  shows "lb_inv cf e (snd (delVip e k st))"
proof (cases rule: delVip_cases [of st k e])
  case unknown
  then show ?thesis using assms by simp
next
  case (deleted v st')
  let ?s = "fold drop_real (getReals v) st"
  have i: "lb_inv cf e ?s" by (rule fold_keeps [of _ "lb_inv cf e"]) (simp_all add: inv_drop_real assms)
  have fr: "config ?s = config st" "vipNums ?s = vipNums st" "vips ?s = vips st"
    using front_fields [OF front_drop_reals [of "getReals v" st]] by auto
  have own: "vip_own st' = (vip_own st)(k := None)"
    using hull_fields [OF deleted(4)] by (auto simp: vip_own_map fun_eq_iff delete_conv')
  have p: "pool (set (numbers 0 (maxVips cf))) (vipNums st') (vip_own st')"
    using vip_pool.release_pool [where A = "set (numbers 0 (maxVips cf))" and s = st and e = e
        and k = k] assms deleted(3)
    by (simp add: lb_inv_def pools_ok_def)
  have vp: "vips_parse e st'" using assms own by (auto simp: lb_inv_def vips_parse_def)
  have u: "reals (kmaps (snd (updateVipMap e a x m s))) = reals (kmaps s)" for a x m s
    using same_updateVipMap by (simp add: same_def)
  have "st' = snd (delVip e k st)" using deleted(3) by simp
  then have km: "reals (kmaps st') = reals (kmaps ?s)"
    using deleted(1,3) unfolding delVip_def drop_real_eq
    by (auto simp: Let_def split_def u split: if_splits)
  show ?thesis
    using lb_inv_vips [OF i deleted(4)] km p vp fr deleted(3) by simp
next
  case (thrown v st')
  then have "vip_own st k \<noteq> None" by (simp add: vip_own_map)
  with thrown(2) assms have False by (auto simp: lb_inv_def vips_parse_def)
  then show ?thesis ..
qed

lemma inv_updateVipMap: "lb_inv cf e st \<Longrightarrow> lb_inv cf e (snd (updateVipMap e a k m st))"
  by (rule lb_inv_same [OF same_updateVipMap])

lemma inv_modifyVip:
  assumes "lb_inv cf e st"
  shows "lb_inv cf e (snd (modifyVip e k flag b st))"
  using assms
  by (auto simp: modifyVip_def Let_def intro!: inv_updateVipMap inv_put_vip split: option.split)

lemma inv_changeHash:
  assumes "lb_inv cf e st"
  shows "lb_inv cf e (snd (changeHashFunctionForVip e k func st))"
proof -
  obtain t s where v: "validateAddress e (vk_address k) False st = (t, s)" by fastforce
  have i: "lb_inv cf e s" using assms v by (rule inv_validate)
  show ?thesis
  proof (cases "t = INVALID \<or> map_of (vips s) k = None")
    case True
    then show ?thesis using i by (auto simp: changeHashFunctionForVip_def v)
  next
    case False
    then obtain w where w: "map_of (vips s) k = Some w" "t \<noteq> INVALID" by auto
    show ?thesis
    proof (cases "recalculateHashRing (hash_of e) (setHashFunction func w)")
      case None
      then show ?thesis using i w
        by (simp add: changeHashFunctionForVip_def v Let_def inv_put_vip)
    next
      case (Some r)
      have "vipNum (snd r) = vipNum w"
        using vipNum_calculate Some unfolding recalculateHashRing_def
        by (metis prod.collapse vipNum_updates(1))
      then have "lb_inv cf e (put_vip k (snd r) s)" by (rule inv_put_vip [OF i w(1)])
      then show ?thesis using w Some
        by (simp add: changeHashFunctionForVip_def v Let_def split_def lb_inv_same [OF same_programHashRing])
    qed
  qed
qed

section \<open>Preservation by the operations on reals\<close>

lemma inv_increase_eq:
  "increaseRefCountForReal e a f st = (n, st') \<Longrightarrow> lb_inv cf e st \<Longrightarrow> a \<noteq> NoIP \<Longrightarrow> lb_inv cf e st'"
  using inv_increase by (metis snd_conv)

lemma inv_num_to_real_eq: "num_to_real n st = (a, st') \<Longrightarrow> lb_inv cf e st \<Longrightarrow> lb_inv cf e st'"
  using inv_num_to_real by (metis snd_conv)

lemma kmaps_validate: "kmaps (snd (validateAddress e s n st)) = kmaps st"
  by (simp add: validateAddress_def)

lemma inv_set_flags:
  assumes "lb_inv cf e st" "lb_reals st a = Some rm"
    "st' = (if testing (config st) then st\<lparr>lb_reals := (lb_reals st)(a \<mapsto> rm\<lparr>rm_flags := f\<rparr>)\<rparr>
       else snd (updateRealsMap e a (rm_num rm) f (st\<lparr>lb_reals := (lb_reals st)(a \<mapsto> rm\<lparr>rm_flags := f\<rparr>)\<rparr>)))"
  shows "lb_inv cf e st'"
proof -
  let ?s = "st\<lparr>lb_reals := (lb_reals st)(a \<mapsto> rm\<lparr>rm_flags := f\<rparr>)\<rparr>"
  have h: "hull st' = hull ?s" by (simp add: assms(3))
  note g = hull_fields [OF h, simplified]
  have o: "vip_own st' = vip_own st" "hc_own st' = hc_own st" "real_own st' = real_own st"
    using g assms(2) by (auto simp: vip_own_def vip_nums_def hc_own_def real_own_def fun_eq_iff)
  have acc: "all_accepted e st' = all_accepted e st" using g by (simp add: all_accepted_def)
  have "reals_synced e st'" if "all_accepted e st"
  proof -
    have k: "reals (kmaps st') = (reals (kmaps st))(rm_num rm \<mapsto> real_entry e a (rm\<lparr>rm_flags := f\<rparr>))"
      using that by (simp add: assms(3) all_accepted_def updateRealsMap_kmaps real_entry_def Let_def)
    have "rm_num rm' \<noteq> rm_num rm" if "lb_reals st b = Some rm'" "b \<noteq> a" for b rm'
      using assms(1,2) that pool_owner_unique [of _ "realNums st" "real_own st" b "rm_num rm'" a]
      by (auto simp: lb_inv_def pools_ok_def real_own_def)
    then show ?thesis using assms(1,2) that g k by (auto simp: lb_inv_def reals_synced_def)
  qed
  moreover have "lb_reals st' NoIP = None"
    using assms(1,2) g by (auto simp: lb_inv_def)
  ultimately show ?thesis using assms(1) o acc g
    by (simp add: lb_inv_def pools_ok_def vips_parse_def numbers_lead_back_def)
qed

lemma inv_modifyReal:
  assumes "lb_inv cf e st"
  shows "lb_inv cf e (snd (modifyReal e r fl b st))"
proof -
  obtain t s where v: "validateAddress e r False st = (t, s)" by fastforce
  have i: "lb_inv cf e s" using assms v by (rule inv_validate)
  show ?thesis
  proof (cases "t = INVALID \<or> lb_reals s (the (parse_ip e r)) = None")
    case True
    then show ?thesis using i by (auto simp: modifyReal_def v Let_def)
  next
    case False
    then obtain rm where rm: "lb_reals s (the (parse_ip e r)) = Some rm" "t \<noteq> INVALID" by auto
    show ?thesis
      by (rule inv_set_flags [OF i rm(1), of _ "if b then rm_flags rm OR (fl AND NOT V6DADDR)
            else rm_flags rm AND NOT (fl AND NOT V6DADDR)"])
         (simp add: modifyReal_def v rm Let_def)
  qed
qed

lemma inv_modify_step:
  assumes "real_addresses e" "lb_inv cf e (snd (snd s))"
  shows "lb_inv cf e (snd (snd (modify_step e act r s)))"
proof -
  obtain cur us st where s: "s = (cur, us, st)" by (cases s)
  obtain t st1 where v: "validateAddress e (nr_address r) False st = (t, st1)" by fastforce
  have i: "lb_inv cf e st1" using assms(2) v s by (auto intro: inv_validate)
  show ?thesis
  proof (cases "t = INVALID")
    case True
    then show ?thesis using i by (simp add: modify_step_def s v)
  next
    case False
    then have a: "the (parse_ip e (nr_address r)) \<noteq> NoIP"
      using parsed_address [OF assms(1)] validate_host v by metis
    show ?thesis
      using i False inv_increase [OF i a] inv_decrease [OF i]
      by (simp add: modify_step_def s v Let_def split_def split: option.split)
  qed
qed

lemma front_modify_step: "front (snd (snd (modify_step e act r s))) = front (snd (snd s))"
proof -
  obtain cur us st where s: "s = (cur, us, st)" by (cases s)
  obtain t st1 where v: "validateAddress e (nr_address r) False st = (t, st1)" by fastforce
  have f: "front st1 = front st" using front_hull [OF hull_validate] v by (metis snd_conv)
  show ?thesis
    by (simp add: modify_step_def s v f Let_def split_def split: option.split)
qed

lemma inv_modifyRealsForVip:
  assumes "real_addresses e" "lb_inv cf e st"
  shows "lb_inv cf e (snd (modifyRealsForVip e act rs k st))"
proof (cases "map_of (vips st) k")
  case None
  then show ?thesis using assms by (simp add: modifyRealsForVip_def)
next
  case (Some v)
  let ?s = "fold (modify_step e act) rs (getReals v, [], st)"
  have i: "lb_inv cf e (snd (snd ?s))"
    by (rule fold_keeps [where P = "\<lambda>s. lb_inv cf e (snd (snd s))"])
       (simp_all add: inv_modify_step assms)
  have "front (snd (snd ?s)) = front st"
    by (rule fold_keeps [where P = "\<lambda>s. front (snd (snd s)) = front st"])
       (simp_all add: front_modify_step)
  then have m: "map_of (vips (snd (snd ?s))) k = Some v"
    using front_fields(3) Some by metis
  obtain c us s' where s: "?s = (c, us, s')" by (cases ?s)
  show ?thesis
  proof (cases "batchRealsUpdate (hash_of e) us v")
    case None
    then show ?thesis using i m s
      by (simp add: modifyRealsForVip_def Some inv_put_vip)
  next
    case (Some r)
    have "lb_inv cf e (put_vip k (snd r) s')"
      using i m s Some vipNum_batch [of _ us v "fst r" "snd r"]
      by (intro inv_put_vip [of cf e s' k v]) simp_all
    then show ?thesis using \<open>map_of (vips st) k = Some _\<close> Some s
      by (cases r) (simp add: modifyRealsForVip_def lb_inv_same [OF same_programHashRing])
  qed
qed

lemma inv_getIndexForReal: "lb_inv cf e st \<Longrightarrow> lb_inv cf e (snd (getIndexForReal e r st))"
  by (auto simp: getIndexForReal_def split_def Let_def intro: lb_inv_same [OF same_validate] split: option.split)

text \<open>
  Reading the reals of a VIP inserts, for a number without an address, an entry of the default
  address with number 0; it changes nothing when there is no such number.
\<close>

definition read_real :: "endpoint \<Rightarrow> (u32 \<times> ip \<times> u8) list \<times> lb \<Rightarrow> (u32 \<times> ip \<times> u8) list \<times> lb" where
  "read_real r s =
     (let (rs, st) = s;
          (a, st) = num_to_real (ep_num r) st;
          st = (if lb_reals st a = None
                then st\<lparr>lb_reals := (lb_reals st)(a \<mapsto> \<lparr>rm_num = 0, refCount = 0, rm_flags = 0\<rparr>)\<rparr>
                else st)
      in (rs @ [(ep_weight r, a, rm_flags (the (lb_reals st a)))], st))"

lemma getRealsForVip_fold:
  "snd (getRealsForVip k st) = (case map_of (vips st) k of
     None \<Rightarrow> st | Some v \<Rightarrow> snd (fold read_real (getRealsAndWeight v) ([], st)))"
proof -
  have "(\<lambda>r (rs, st).
      let (a, st) = num_to_real (ep_num r) st;
          st = (if lb_reals st a = None
                then st\<lparr>lb_reals := (lb_reals st)(a \<mapsto> \<lparr>rm_num = 0, refCount = 0, rm_flags = 0\<rparr>)\<rparr>
                else st)
      in (rs @ [(ep_weight r, a, rm_flags (the (lb_reals st a)))], st)) = read_real"
    by (intro ext) (simp add: read_real_def split_def Let_def)
  then show ?thesis by (simp add: getRealsForVip_def split_def Let_def split: option.split)
qed

lemma read_real_cases:
  assumes "lb_reals (snd s) NoIP = None \<Longrightarrow> lb_inv cf e (snd s)"
  shows "lb_reals (snd (read_real r s)) NoIP \<noteq> None \<or> snd (read_real r s) = snd s"
proof (cases "lb_reals (snd s) NoIP")
  case None
  then have l: "numbers_lead_back (snd s)" using assms by (simp add: lb_inv_def)
  show ?thesis
  proof (cases "numToReals (snd s) (ep_num r)")
    case (Some a)
    then have "a = NoIP \<or> real_own (snd s) a = Some (ep_num r)"
      using l unfolding numbers_lead_back_def by blast
    then have "a = NoIP \<or> lb_reals (snd s) a \<noteq> None" by (auto simp: real_own_def)
    then show ?thesis using Some by (auto simp: read_real_def split_def Let_def num_to_real_def)
  qed (simp add: read_real_def split_def Let_def num_to_real_def)
qed (simp add: read_real_def split_def Let_def num_to_real_def split: option.split)

lemma getRealsForVip_same:
  assumes "lb_inv cf e st"
  shows "lb_reals (snd (getRealsForVip k st)) NoIP \<noteq> None \<or> snd (getRealsForVip k st) = st"
proof (cases "map_of (vips st) k")
  case (Some v)
  have "lb_reals (snd (fold read_real es ([], st))) NoIP \<noteq> None \<or> snd (fold read_real es ([], st)) = st" for es
    by (rule fold_keeps [where P = "\<lambda>s. lb_reals (snd s) NoIP \<noteq> None \<or> snd s = st"])
       (use read_real_cases [of _ cf e] assms in metis, simp)
  then show ?thesis by (simp add: getRealsForVip_fold Some)
qed (simp add: getRealsForVip_fold)

section \<open>Preservation by the routes and mappings\<close>

lemma same_modifyLpmSrcRule [simp]: "same st (snd (modifyLpmSrcRule e act p n st))"
  by (simp add: modifyLpmSrcRule_def Let_def same_counted_kmaps split: ip.split)

lemma same_modifyDecapDst [simp]: "same st (snd (modifyDecapDst e act d fl st))"
  by (simp add: modifyDecapDst_def Let_def same_counted_kmaps)

lemma same_put_server_id [simp]: "same st (put_server_id e i n st)"
  by (simp add: put_server_id_def same_counted_kmaps)

lemma inv_add_src_rules:
  assumes "d \<noteq> NoIP"
  shows "lb_inv cf e st \<Longrightarrow> lb_inv cf e (snd (add_src_rules e d srcs st))"
proof (induction srcs arbitrary: st)
  case (Cons s_net srcs)
  obtain n st1 where r: "increaseRefCountForReal e d 0 st = (n, st1)" by fastforce
  have i: "lb_inv cf e st1" using r Cons.prems assms by (rule inv_increase_eq)
  have "lb_inv cf e (snd (modifyLpmSrcRule e ADD s_net n (st1\<lparr>lpmSrcMapping := x\<rparr>)))" for x
    using i by (intro lb_inv_same [OF same_modifyLpmSrcRule]) simp
  then show ?case using Cons i by (simp add: r Let_def)
qed simp

lemma inv_addSrcRoutingRule_cidr:
  assumes "real_addresses e" "lb_inv cf e st"
  shows "lb_inv cf e (snd (addSrcRoutingRule_cidr e srcs d st))"
proof -
  obtain t s where v: "validateAddress e d False st = (t, s)" by fastforce
  have i: "lb_inv cf e s" using assms(2) v by (rule inv_validate)
  have "the (parse_ip e d) \<noteq> NoIP" if "t \<noteq> INVALID"
    using parsed_address [OF assms(1)] validate_host v that by metis
  then show ?thesis using i assms(2) by (simp add: addSrcRoutingRule_cidr_def v inv_add_src_rules)
qed

lemma inv_collect_srcs: "lb_inv cf e (snd (snd s)) \<Longrightarrow> lb_inv cf e (snd (snd (collect_srcs e n srcs s)))"
proof (induction srcs arbitrary: s)
  case (Cons a srcs)
  obtain nets k st where s: "s = (nets, k, st)" by (cases s)
  obtain t st1 where v: "validateAddress e a True st = (t, st1)" by fastforce
  have "lb_inv cf e st1" using Cons.prems v s by (auto intro: inv_validate)
  then show ?case using Cons.IH by (simp add: s v)
qed simp

lemma inv_addSrcRoutingRule:
  assumes "real_addresses e" "lb_inv cf e st"
  shows "lb_inv cf e (snd (addSrcRoutingRule e srcs d st))"
proof -
  obtain t s where v: "validateAddress e d False st = (t, s)" by fastforce
  have i: "lb_inv cf e s" using assms(2) v by (rule inv_validate)
  obtain nets k s1 where c: "collect_srcs e (length srcs) srcs ([], 0, s) = (nets, k, s1)"
    by (metis prod_cases3)
  have "lb_inv cf e s1" using inv_collect_srcs [of cf e "([], 0, s)" "length srcs" srcs] i c by simp
  then have "lb_inv cf e (snd (addSrcRoutingRule_cidr e nets d s1))"
    using assms(1) inv_addSrcRoutingRule_cidr by blast
  then show ?thesis using i assms(2) c by (simp add: addSrcRoutingRule_def v split_def Let_def)
qed

lemma inv_del_src_rule: "lb_inv cf e st \<Longrightarrow> lb_inv cf e (del_src_rule e a st)"
  by (auto simp: del_src_rule_def Let_def split_def inv_decrease inv_num_to_real
      lb_inv_same [OF same_modifyLpmSrcRule] split: option.split)

lemma inv_delSrcRoutingRule_cidr: "lb_inv cf e st \<Longrightarrow> lb_inv cf e (snd (delSrcRoutingRule_cidr e srcs st))"
  by (simp add: delSrcRoutingRule_cidr_def fold_keeps [where P = "lb_inv cf e"] inv_del_src_rule)

lemma inv_delSrcRoutingRule: "lb_inv cf e st \<Longrightarrow> lb_inv cf e (snd (delSrcRoutingRule e srcs st))"
  by (simp add: delSrcRoutingRule_def inv_delSrcRoutingRule_cidr)

lemma inv_clear_src_rules:
  "lb_inv cf e st \<Longrightarrow> clear_src_rules e rules st = Some st' \<Longrightarrow> lb_inv cf e st'"
proof (induction rules arbitrary: st)
  case (Cons p rules)
  obtain s_net n where p: "p = (s_net, n)" by (cases p)
  obtain d where d: "numToReals st n = Some d" using Cons.prems p by (auto split: option.splits)
  let ?s = "decreaseRefCountForReal d st"
  let ?s1 = "if testing (config ?s) then ?s else snd (modifyLpmSrcRule e DEL s_net n ?s)"
  have "lb_inv cf e ?s1"
    using Cons.prems(1) by (simp add: inv_decrease lb_inv_same [OF same_modifyLpmSrcRule])
  moreover have "clear_src_rules e rules ?s1 = Some st'"
    using Cons.prems(2) d p by (simp only: clear_src_rules.simps option.case Let_def)
  ultimately show ?case by (rule Cons.IH)
qed simp

lemma inv_quic_step:
  assumes "real_addresses e" "lb_inv cf e (snd s)"
  shows "lb_inv cf e (snd (quic_step e act r s))"
proof -
  obtain us st where s: "s = (us, st)" by (cases s)
  obtain t st1 where v: "validateAddress e (qr_address r) False st = (t, st1)" by fastforce
  have i: "lb_inv cf e st1" using assms(2) v s by (auto intro: inv_validate)
  have a: "the (parse_ip e (qr_address r)) \<noteq> NoIP" if "t \<noteq> INVALID"
    using parsed_address [OF assms(1)] validate_host v that by metis
  show ?thesis
    using i a by (simp add: quic_step_def s v Let_def split_def inv_increase inv_decrease split: option.split)
qed

lemma inv_modifyQuicRealsMapping:
  assumes "real_addresses e" "lb_inv cf e st"
  shows "lb_inv cf e (modifyQuicRealsMapping e act rs st)"
proof -
  have "lb_inv cf e (snd (fold (quic_step e act) rs ([], st)))"
    by (rule fold_keeps [where P = "\<lambda>s. lb_inv cf e (snd s)"]) (simp_all add: inv_quic_step assms)
  then show ?thesis
    by (simp add: modifyQuicRealsMapping_def split_def Let_def fold_keeps [where P = "lb_inv cf e"]
        lb_inv_same [OF same_put_server_id])
qed

lemma inv_invalidate: "lb_inv cf e st \<Longrightarrow> lb_inv cf e (invalidateServerIds e ids st)"
proof -
  have "lb_inv cf e s \<Longrightarrow> lb_inv cf e (snd (counted_call e b (on_kmaps (\<lambda>m. m\<lparr>server_id_map := f m\<rparr>)) s))" for b f s
    by (rule lb_inv_same [OF same_counted_kmaps]) simp_all
  then show "lb_inv cf e st \<Longrightarrow> lb_inv cf e (invalidateServerIds e ids st)"
    unfolding invalidateServerIds_def
    by (intro fold_keeps [where P = "lb_inv cf e"]) (auto intro: lb_inv_same [OF same_put_server_id])
qed

lemma inv_revalidate: "lb_inv cf e st \<Longrightarrow> lb_inv cf e (revalidateServerIds e getIndexForReal rs st)"
  unfolding revalidateServerIds_def
  by (intro fold_keeps [where P = "lb_inv cf e"])
     (auto simp: split_def Let_def intro: inv_getIndexForReal lb_inv_same [OF same_put_server_id])

lemma inv_addInlineDecapDst: "lb_inv cf e st \<Longrightarrow> lb_inv cf e (snd (addInlineDecapDst e d st))"
proof -
  assume i: "lb_inv cf e st"
  obtain t s where v: "validateAddress e d False st = (t, s)" by fastforce
  have "lb_inv cf e s" using i v by (rule inv_validate)
  then show ?thesis using i
    by (simp add: addInlineDecapDst_def v Let_def lb_inv_same [OF same_modifyDecapDst])
qed

lemma inv_delInlineDecapDst: "lb_inv cf e st \<Longrightarrow> lb_inv cf e (snd (delInlineDecapDst e d st))"
proof -
  assume i: "lb_inv cf e st"
  obtain t s where v: "validateAddress e d False st = (t, s)" by fastforce
  have "lb_inv cf e s" using i v by (rule inv_validate)
  then show ?thesis using i
    by (simp add: delInlineDecapDst_def v Let_def lb_inv_same [OF same_modifyDecapDst])
qed

lemma same_hc_reals: "same s (snd (counted_call e b (\<lambda>st. st\<lparr>hc_reals_map := f st\<rparr>) s))"
  by (rule same_counted) (auto simp: hull_def)

lemma inv_addHealthcheckerDst: "lb_inv cf e st \<Longrightarrow> lb_inv cf e (snd (addHealthcheckerDst e m d st))"
proof -
  assume i: "lb_inv cf e st"
  obtain t s where v: "validateAddress e d False st = (t, s)" by fastforce
  have "lb_inv cf e s" using i v by (rule inv_validate)
  then show ?thesis using i
    by (simp add: addHealthcheckerDst_def v Let_def split_def lb_inv_same [OF same_hc_reals])
qed

lemma inv_delHealthcheckerDst: "lb_inv cf e st \<Longrightarrow> lb_inv cf e (snd (delHealthcheckerDst e m st))"
  by (simp add: delHealthcheckerDst_def Let_def split_def lb_inv_same [OF same_hc_reals])

lemma lb_inv_hc:
  assumes "lb_inv cf e st" "hull st' = hull (st\<lparr>hcKeyNums := ns, hckeys := hs\<rparr>)" "reals (kmaps st') = reals (kmaps st)"
    "pool (hc_numbers cf) (hcKeyNums st') (hc_own st')"
  shows "lb_inv cf e st'"
proof -
  note f = hull_fields [OF assms(2), simplified]
  have "all_accepted e st' = all_accepted e st" "reals_synced e st' = reals_synced e st"
    "vip_own st' = vip_own st" "real_own st' = real_own st"
    using f assms(3) by (simp_all add: all_accepted_def reals_synced_def vip_own_def vip_nums_def real_own_def [abs_def])
  then show ?thesis using assms f by (simp add: lb_inv_def pools_ok_def numbers_lead_back_def vips_parse_def)
qed

lemma kmaps_updateHcKeyMap: "reals (kmaps (snd (updateHcKeyMap e a x m s))) = reals (kmaps s)"
  using same_updateHcKeyMap by (simp add: same_def)

lemma hc_put_same: "hcKeyNums st = ns \<Longrightarrow> hull st = hull (st\<lparr>hcKeyNums := ns\<rparr>)"
  by auto

lemma inv_addHcKey:
  assumes "lb_inv cf e st"
  shows "lb_inv cf e (snd (addHcKey e k st))"
proof -
  have "pool (hc_numbers cf) (hcKeyNums st) (hc_own st)"
    using assms by (simp add: lb_inv_def pools_ok_def)
  note p = hc_pool.acquire_pool [OF this, where e = e and k = k]
  have "hull (snd (addHcKey e k st)) = hull (st\<lparr>hcKeyNums := hcKeyNums (snd (addHcKey e k st)),
      hckeys := hckeys (snd (addHcKey e k st))\<rparr>)"
    by (auto simp: addHcKey_def Let_def hull_fields [OF hull_updateHcKeyMap] intro: hc_put_same split: list.split)
  moreover have "reals (kmaps (snd (addHcKey e k st))) = reals (kmaps st)"
    by (simp add: addHcKey_def Let_def kmaps_updateHcKeyMap split: list.split)
  ultimately show ?thesis using lb_inv_hc [OF assms] p by blast
qed

lemma inv_delHcKey:
  assumes "lb_inv cf e st"
  shows "lb_inv cf e (snd (delHcKey e k st))"
proof -
  have "pool (hc_numbers cf) (hcKeyNums st) (hc_own st)"
    using assms by (simp add: lb_inv_def pools_ok_def)
  note p = hc_pool.release_pool [OF TrueI this, where e = e and k = k]
  have "hull (snd (delHcKey e k st)) = hull (st\<lparr>hcKeyNums := hcKeyNums (snd (delHcKey e k st)),
      hckeys := hckeys (snd (delHcKey e k st))\<rparr>)"
    by (simp add: delHcKey_def Let_def hull_fields [OF hull_updateHcKeyMap] split: option.split)
  moreover have "reals (kmaps (snd (delHcKey e k st))) = reals (kmaps st)"
    by (simp add: delHcKey_def Let_def kmaps_updateHcKeyMap split: option.split)
  ultimately show ?thesis using lb_inv_hc [OF assms] p by blast
qed

end
