(* ===== verification/LbReach.thy ===== *)
theory LbReach
  imports LbSteps
begin

text \<open>
  What the control plane guarantees over all its histories: from the state the constructor leaves,
  any sequence of operations keeps the pools partitioned and the data plane's reals up to date, as
  long as no state of the history has an entry for the default address. A history is the list of the
  states it went through, the newest first.
\<close>

section \<open>Operations as steps\<close>

inductive lb_step :: "env \<Rightarrow> lb \<Rightarrow> lb \<Rightarrow> bool" for e :: env where
  add_vip: "lb_step e st (snd (addVip e k flags st))"
| del_vip: "lb_step e st (snd (delVip e k st))"
| modify_vip: "lb_step e st (snd (modifyVip e k flag b st))"
| change_hash: "lb_step e st (snd (changeHashFunctionForVip e k func st))"
| modify_reals: "lb_step e st (snd (modifyRealsForVip e act rs k st))"
| modify_real: "lb_step e st (snd (modifyReal e r fl b st))"
| add_hc_key: "lb_step e st (snd (addHcKey e k st))"
| del_hc_key: "lb_step e st (snd (delHcKey e k st))"
| get_index: "lb_step e st (snd (getIndexForReal e r st))"
| get_reals: "lb_step e st (snd (getRealsForVip k st))"
| add_src: "lb_step e st (snd (addSrcRoutingRule e srcs d st))"
| add_src_cidr: "lb_step e st (snd (addSrcRoutingRule_cidr e nets d st))"
| del_src: "lb_step e st (snd (delSrcRoutingRule e srcs st))"
| del_src_cidr: "lb_step e st (snd (delSrcRoutingRule_cidr e nets st))"
| clear_src: "clearAllSrcRoutingRules e st = Some (r, st') \<Longrightarrow> lb_step e st st'"
| get_src: "lb_step e st (snd (getSrcRoutingRuleCidr st))"
| add_decap: "lb_step e st (snd (addInlineDecapDst e d st))"
| del_decap: "lb_step e st (snd (delInlineDecapDst e d st))"
| quic: "lb_step e st (modifyQuicRealsMapping e act qs st)"
| invalidate: "lb_step e st (invalidateServerIds e ids st)"
| revalidate: "lb_step e st (revalidateServerIds e getIndexForReal qs st)"
| add_hc_dst: "lb_step e st (snd (addHealthcheckerDst e somark d st))"
| del_hc_dst: "lb_step e st (snd (delHealthcheckerDst e somark st))"
| get_stats: "lb_step e st (snd (getLbStats get fails n mem st))"

text \<open>A history: the states before the last one, the latest first.\<close>

inductive lb_reach :: "env \<Rightarrow> lb \<Rightarrow> lb list \<Rightarrow> lb \<Rightarrow> bool" for e :: env and st0 :: lb where
  start: "lb_reach e st0 [] st0"
| more: "lb_reach e st0 past st \<Longrightarrow> lb_step e st st' \<Longrightarrow> lb_reach e st0 (st # past) st'"

text \<open>
  In no state of a history is there an entry for the default address: getRealsForVip never met a
  number whose real was released while a VIP still had it.
\<close>

definition no_blank :: "lb list \<Rightarrow> bool" where
  "no_blank sts \<longleftrightarrow> (\<forall>st\<in>set sts. lb_reals st NoIP = None)"

lemma inv_clearAll:
  assumes "lb_inv cf e st" "clearAllSrcRoutingRules e st = Some (r, st')"
  shows "lb_inv cf e st'"
  using assms inv_clear_src_rules [OF assms(1)]
  by (auto simp: clearAllSrcRoutingRules_def split: if_splits option.splits)

lemma inv_getSrcRoutingRuleCidr: "lb_inv cf e st \<Longrightarrow> lb_inv cf e (snd (getSrcRoutingRuleCidr st))"
  unfolding getSrcRoutingRuleCidr_def
  by (auto simp: split_def Let_def intro!: fold_keeps [where P = "\<lambda>s. lb_inv cf e (snd s)"] inv_num_to_real)

lemma lb_step_inv:
  assumes "lb_step e st st'" "real_addresses e" "lb_inv cf e st" "lb_reals st' NoIP = None"
  shows "lb_inv cf e st'"
  using assms(1)
proof cases
  case (get_reals k)
  then show ?thesis using getRealsForVip_same [OF assms(3)] assms(3,4) by metis
next
  case (clear_src r)
  then show ?thesis using assms(3) by (blast intro: inv_clearAll)
next
  case (get_stats get fails n mem)
  then show ?thesis using assms(3)
    by (auto simp: getLbStats_def lb_inv_same [OF same_failed_call] split: option.split)
qed (simp_all add: assms(2,3) inv_addVip inv_delVip inv_modifyVip inv_changeHash inv_modifyRealsForVip
      inv_modifyReal inv_addHcKey inv_delHcKey inv_getIndexForReal inv_addSrcRoutingRule
      inv_addSrcRoutingRule_cidr inv_delSrcRoutingRule inv_delSrcRoutingRule_cidr
      inv_getSrcRoutingRuleCidr inv_addInlineDecapDst inv_delInlineDecapDst
      inv_modifyQuicRealsMapping inv_invalidate inv_revalidate inv_addHealthcheckerDst
      inv_delHealthcheckerDst)

lemma lb_reach_inv:
  assumes "lb_reach e st0 past st" "real_addresses e" "lb_inv cf e st0" "no_blank (st # past)"
  shows "lb_inv cf e st"
  using assms by (induction) (auto simp: no_blank_def intro: lb_step_inv)

section \<open>The state the constructor leaves\<close>

definition keeps :: "(init_state \<Rightarrow> 'b) \<Rightarrow> 'a op \<Rightarrow> bool" where
  "keeps f m \<longleftrightarrow> (\<forall>st. f (snd (m st)) = f st)"

lemma keeps_andThen: "keeps f m \<Longrightarrow> (\<And>x. keeps f (k x)) \<Longrightarrow> keeps f (andThen m k)"
  by (auto simp: keeps_def andThen_def split: outcome.split prod.split) (metis snd_conv)+

lemma keeps_basic: "keeps f (ret x)" "keeps f throw" "keeps f fatal" "keeps f (read_st g)"
  by (simp_all add: keeps_def ret_def throw_def fatal_def read_st_def)

lemma keeps_if: "keeps f m \<Longrightarrow> keeps f n \<Longrightarrow> keeps f (if b then m else n)"
  by simp

definition i_pools :: "init_state \<Rightarrow> u32 list \<times> u32 list \<times> u32 list" where
  "i_pools st = (i_vipNums st, i_realNums st, i_hcKeyNums st)"

lemma keeps_pools: "keeps i_pools (invoke a c)" "keeps i_pools (put_ctl i w)"
  by (simp_all add: keeps_def invoke_def put_ctl_def modify_st_def i_pools_def Let_def)

lemma keeps_resolve: "keeps i_pools (resolve a g n)"
  unfolding resolve_def by (intro keeps_if keeps_andThen keeps_basic keeps_pools)

lemma constructor_pools:
  assumes "constructor a u (members fd cfg) = (Val (), i)"
  shows "i_vipNums i = numbers 0 (i_maxVips cfg)" "i_realNums i = numbers 1 (i_maxReals cfg)"
    "i_hcKeyNums i = (if i_enableHc cfg then numbers 0 (i_maxVips cfg) else [])"
proof -
  have "keeps i_pools (init_ctl a u)"
    unfolding init_ctl_def Let_def
    by (intro keeps_if keeps_andThen keeps_basic keeps_pools keeps_resolve)
  moreover have "i_pools (snd (init_members (members fd cfg)))
      = (numbers 0 (i_maxVips cfg), numbers 1 (i_maxReals cfg),
         if i_enableHc cfg then numbers 0 (i_maxVips cfg) else [])"
    by (simp add: init_members_def modify_st_def i_pools_def members_def)
  moreover have "i = snd (init_ctl a u (snd (init_members (members fd cfg))))"
    using assms by (simp add: constructor_def andThen_def init_members_def modify_st_def)
  ultimately have "i_pools i = (numbers 0 (i_maxVips cfg), numbers 1 (i_maxReals cfg),
      if i_enableHc cfg then numbers 0 (i_maxVips cfg) else [])"
    by (simp add: keeps_def)
  then show "i_vipNums i = numbers 0 (i_maxVips cfg)" "i_realNums i = numbers 1 (i_maxReals cfg)"
    "i_hcKeyNums i = (if i_enableHc cfg then numbers 0 (i_maxVips cfg) else [])"
    by (simp_all add: i_pools_def)
qed

text \<open>
  The control plane at work: the pools and features of the start-up, the configuration c, empty
  tables, the kernel's maps k.
\<close>

definition boot :: "init_state \<Rightarrow> lb_config \<Rightarrow> bst \<Rightarrow> lb" where
  "boot i c k =
     \<lparr>config = c, features = i_features i, vipNums = i_vipNums i, realNums = i_realNums i,
      hcKeyNums = i_hcKeyNums i, lb_reals = Map.empty, numToReals = Map.empty, quicMapping = [],
      vips = [], lruMissStatsVip = None, hckeys = [], lpmSrcMapping = [], decapDsts = [], hcReals = [],
      lbStats = \<lparr>bpfFailedCalls = 0, addrValidationFailed = 0\<rparr>, realsIdCallback = False, cb_log = [],
      kmaps = k, hc_key_map = Map.empty, hc_reals_map = Map.empty, ncalls = 0\<rparr>"

definition agrees :: "lb_config \<Rightarrow> init_config \<Rightarrow> bool" where
  "agrees c cfg \<longleftrightarrow> maxVips c = i_maxVips cfg \<and> maxReals c = i_maxReals cfg \<and> enableHc c = i_enableHc cfg"

lemma distinct_numbers [simp]: "distinct (numbers lo hi)"
  unfolding numbers_def distinct_map
  by (auto intro!: inj_onI) (metis unat_of_nat_below)

lemma set_numbers: "set (numbers lo hi) = {n. lo \<le> n \<and> n < hi}"
proof (intro set_eqI iffI)
  fix n assume "n \<in> set (numbers lo hi)"
  then show "n \<in> {n. lo \<le> n \<and> n < hi}"
    by (auto simp: numbers_def word_le_nat_alt word_less_nat_alt unat_of_nat_below)
next
  fix n assume "n \<in> {n. lo \<le> n \<and> n < hi}"
  then show "n \<in> set (numbers lo hi)"
    by (auto simp: numbers_def word_le_nat_alt word_less_nat_alt image_iff intro!: bexI [of _ "unat n"])
qed

lemma pool_empty [simp]: "pool A free Map.empty \<longleftrightarrow> distinct free \<and> set free = A"
  by (auto simp: pool_def)

lemma boot_inv:
  assumes "constructor a u (members fd cfg) = (Val (), i)" "agrees c cfg"
  shows "lb_inv c e (boot i c k)"
proof -
  have "vip_own (boot i c k) = Map.empty" "hc_own (boot i c k) = Map.empty" "real_own (boot i c k) = Map.empty"
    by (simp_all add: boot_def vip_own_def vip_nums_def hc_own_def real_own_def [abs_def])
  then show ?thesis
    using constructor_pools [OF assms(1)] assms(2)
    by (simp add: lb_inv_def pools_ok_def vips_parse_def numbers_lead_back_def reals_synced_def
        agrees_def hc_numbers_def) (simp add: boot_def)
qed

end
