(* ===== verification/LbLru.thy ===== *)
theory LbLru
  imports LbState
begin

text \<open>
  Administration of the connection tables in VsoshlbLb.cpp: search, listing, statistics, deletion
  and purge. A table is an association list in the order in which the kernel enumerates it. None
  stands for a core without a table (a descriptor that is not positive). kLruMaxLookups, whose
  definition is cut from the source, is the field max_lookups; the key that searchLru, listLru,
  deleteLru and purgeVipLru read from the optional is the one flowKeyFromParams returned.
\<close>

section \<open>Tables and the kernel's answers\<close>

type_synonym lru_tbl = "(flow_key \<times> real_pos_lru) list"

record lru_tables =
  cpu_lru :: "lru_tbl option list"
  fallback_lru :: "lru_tbl option"

text \<open>
  next_err i: the i-th request for a next key fails with an error other than ENOENT. look_err and
  del_err: a lookup or a deletion of a key that is present is refused. from_binary is
  folly::IPAddressV6::fromBinary on the words of a flow key, ktime the clock.
\<close>

record lru_env =
  max_lookups :: nat
  next_err :: "nat \<Rightarrow> bool"
  look_err :: "flow_key \<Rightarrow> bool"
  del_err :: "flow_key \<Rightarrow> bool"
  from_binary :: "addr \<Rightarrow> ip"
  ktime :: u64

text \<open>
  BPF_MAP_GET_NEXT_KEY: the key after the given one, the first key when the given one is not in
  the map; None is ENOENT.
\<close>

definition next_key :: "'k list \<Rightarrow> 'k \<Rightarrow> 'k option" where
  "next_key ks k =
     (case dropWhile (\<lambda>x. x \<noteq> k) ks of
        [] \<Rightarrow> (case ks of [] \<Rightarrow> None | x # _ \<Rightarrow> Some x)
      | _ # rest \<Rightarrow> (case rest of [] \<Rightarrow> None | y # _ \<Rightarrow> Some y))"

definition flowKeyFromParams :: "env \<Rightarrow> vip_key \<Rightarrow> string \<Rightarrow> u16 \<Rightarrow> flow_key option" where
  "flowKeyFromParams e dstVip srcIp srcPort =
     (case parse_ip e (vk_address dstVip) of
        None \<Rightarrow> None
      | Some vip \<Rightarrow>
          let d = real_dst (parseAddrToBe e vip);
              key = zero_flow\<lparr>dst := (case vip of V4 _ \<Rightarrow> set_w0 (w0 d) zero_addr | _ \<Rightarrow> d),
                              port1 := bswap16 (vk_port dstVip)\<rparr>
          in case parse_ip e srcIp of
               None \<Rightarrow> None
             | Some s \<Rightarrow>
                 let a = real_dst (parseAddrToBe e s)
                 in Some (key\<lparr>src := (case s of V4 _ \<Rightarrow> set_w0 (w0 a) zero_addr | _ \<Rightarrow> a),
                              port0 := bswap16 srcPort, proto := vk_proto dstVip\<rparr>))"

text \<open>The comparison of a key with the filter in listLruMap and purgeVipLruMap.\<close>

definition vip_match :: "flow_key \<Rightarrow> flow_key \<Rightarrow> bool" where
  "vip_match filter_key key \<longleftrightarrow>
     proto key = proto filter_key \<and> port1 key = port1 filter_key \<and> dst key = dst filter_key"

section \<open>Entries\<close>

datatype source_map = Cpu nat | Fallback

record lru_entry =
  le_realAddress :: ip
  le_realPos :: u32
  le_atime :: u64
  le_atime_delta_sec :: u64
  le_sourceMap :: "source_map option"
  le_srcAddress :: ip
  le_srcPort :: u16

datatype lru_error = NoError | InvalidVip | LookupErr | QueryErr | DeleteErr | MaxedLookups | LimitReached

record lru_entries =
  le_error :: lru_error
  entries :: "lru_entry list"

definition new_entry :: lru_entry where
  "new_entry = \<lparr>le_realAddress = NoIP, le_realPos = 0, le_atime = 0, le_atime_delta_sec = 0,
     le_sourceMap = None, le_srcAddress = NoIP, le_srcPort = 0\<rparr>"

text \<open>The address of the real at a position, empty for position 0 and for unknown numbers.\<close>

definition entry_of :: "lb \<Rightarrow> real_pos_lru \<Rightarrow> lru_entry" where
  "entry_of st real =
     (let entry = new_entry\<lparr>le_realPos := pos real, le_atime := atime real\<rparr>
      in if pos real = 0 then entry
         else case numToReals st (pos real) of
           None \<Rightarrow> entry
         | Some a \<Rightarrow> entry\<lparr>le_realAddress := a\<rparr>)"

definition lookup_tbl :: "lru_env \<Rightarrow> lru_tbl \<Rightarrow> flow_key \<Rightarrow> real_pos_lru option" where
  "lookup_tbl le tbl key = (if look_err le key then None else map_of tbl key)"

definition lookupLruMap :: "lru_env \<Rightarrow> lb \<Rightarrow> lru_tbl \<Rightarrow> flow_key \<Rightarrow> lru_entry option" where
  "lookupLruMap le st tbl key = map_option (entry_of st) (lookup_tbl le tbl key)"

definition fillAtimeDelta :: "lru_env \<Rightarrow> lru_entries \<Rightarrow> lru_entries" where
  "fillAtimeDelta le r = r\<lparr>entries := map (\<lambda>entry.
       if le_atime entry > 0
       then entry\<lparr>le_atime_delta_sec := (ktime le - le_atime entry) div 1000000000\<rparr>
       else entry) (entries r)\<rparr>"

text \<open>One table of searchLru; the error of a lookup is LookupErr.\<close>

definition search_tbl ::
  "lru_env \<Rightarrow> lb \<Rightarrow> flow_key \<Rightarrow> source_map \<Rightarrow> lru_tbl \<Rightarrow> lru_entries \<Rightarrow> lru_entries" where
  "search_tbl le st key sm tbl r =
     (case lookupLruMap le st tbl key of
        Some entry \<Rightarrow> r\<lparr>entries := entries r @ [entry\<lparr>le_sourceMap := Some sm\<rparr>]\<rparr>
      | None \<Rightarrow> r\<lparr>le_error := LookupErr\<rparr>)"

definition no_entries :: lru_entries where
  "no_entries = \<lparr>le_error = NoError, entries = []\<rparr>"

definition searchLru ::
  "env \<Rightarrow> lru_env \<Rightarrow> lb \<Rightarrow> lru_tables \<Rightarrow> vip_key \<Rightarrow> string \<Rightarrow> u16 \<Rightarrow> lru_entries" where
  "searchLru e le st ts dstVip srcIp srcPort =
     (case flowKeyFromParams e dstVip srcIp srcPort of
        None \<Rightarrow> no_entries
      | Some key \<Rightarrow>
          let r = fold (\<lambda>(core, t) r. case t of None \<Rightarrow> r | Some tbl \<Rightarrow> search_tbl le st key (Cpu core) tbl r)
                    (enumerate 0 (cpu_lru ts)) no_entries;
              r = (case fallback_lru ts of None \<Rightarrow> r | Some tbl \<Rightarrow> search_tbl le st key Fallback tbl r)
          in fillAtimeDelta le r)"

section \<open>Listing\<close>

definition list_entry :: "lru_env \<Rightarrow> lb \<Rightarrow> source_map \<Rightarrow> bool \<Rightarrow> flow_key \<Rightarrow> real_pos_lru \<Rightarrow> lru_entry" where
  "list_entry le st sm isIPv6 key real =
     (entry_of st real)\<lparr>le_sourceMap := Some sm,
        le_srcAddress := (if isIPv6 then from_binary le (src key) else V4 (w0 (src key))),
        le_srcPort := bswap16 (port0 key)\<rparr>"

text \<open>What an iteration of listLruMap does with the key it holds.\<close>

definition list_key :: "lru_env \<Rightarrow> lb \<Rightarrow> source_map \<Rightarrow> flow_key \<Rightarrow> bool \<Rightarrow> lru_tbl \<Rightarrow> flow_key
    \<Rightarrow> lru_entries \<Rightarrow> lru_entries" where
  "list_key le st sm filter_key isIPv6 tbl key r =
     (if vip_match filter_key key then
        case lookup_tbl le tbl key of
          Some real \<Rightarrow> r\<lparr>entries := entries r @ [list_entry le st sm isIPv6 key real]\<rparr>
        | None \<Rightarrow> r\<lparr>le_error := LookupErr\<rparr>
      else r)"

text \<open>
  The loop of listLruMap with n iterations left, the i-th of which holds key. The comparison with
  limit converts it to an unsigned 64-bit number.
\<close>

fun list_loop :: "lru_env \<Rightarrow> lb \<Rightarrow> source_map \<Rightarrow> flow_key \<Rightarrow> bool \<Rightarrow> int \<Rightarrow> lru_tbl
    \<Rightarrow> nat \<Rightarrow> nat \<Rightarrow> flow_key \<Rightarrow> lru_entries \<Rightarrow> bool \<times> lru_entries" where
  "list_loop le st sm filter_key isIPv6 limit tbl i 0 key r = (True, r)"
| "list_loop le st sm filter_key isIPv6 limit tbl i (Suc n) key r =
     (let r = (if i \<noteq> 0 then list_key le st sm filter_key isIPv6 tbl key r else r)
      in if next_err le i then (True, r\<lparr>le_error := QueryErr\<rparr>)
         else case next_key (map fst tbl) key of
           None \<Rightarrow> (True, r)
         | Some nextKey \<Rightarrow>
             let r = (if n = 0 then r\<lparr>le_error := MaxedLookups\<rparr> else r)
             in if length (entries r) \<ge> unat (word_of_int limit :: u64)
                then (False, r\<lparr>le_error := LimitReached\<rparr>)
                else list_loop le st sm filter_key isIPv6 limit tbl (Suc i) n nextKey r)"

definition listLruMap :: "lru_env \<Rightarrow> lb \<Rightarrow> lru_tbl \<Rightarrow> source_map \<Rightarrow> flow_key \<Rightarrow> bool \<Rightarrow> int
    \<Rightarrow> lru_entries \<Rightarrow> bool \<times> lru_entries" where
  "listLruMap le st tbl sm filter_key isIPv6 limit r =
     list_loop le st sm filter_key isIPv6 limit tbl 0 (max_lookups le) zero_flow r"

fun list_cpus :: "lru_env \<Rightarrow> lb \<Rightarrow> flow_key \<Rightarrow> bool \<Rightarrow> int \<Rightarrow> nat \<Rightarrow> lru_tbl option list
    \<Rightarrow> lru_entries \<Rightarrow> lru_entries" where
  "list_cpus le st key isIPv6 limit core [] r = r"
| "list_cpus le st key isIPv6 limit core (None # ts) r = list_cpus le st key isIPv6 limit (Suc core) ts r"
| "list_cpus le st key isIPv6 limit core (Some tbl # ts) r =
     (let (go_on, r) = listLruMap le st tbl (Cpu core) key isIPv6 limit r
      in if go_on then list_cpus le st key isIPv6 limit (Suc core) ts r else r)"

definition listLru :: "env \<Rightarrow> lru_env \<Rightarrow> lb \<Rightarrow> lru_tables \<Rightarrow> vip_key \<Rightarrow> int \<Rightarrow> lru_entries" where
  "listLru e le st ts dstVip limit =
     (case flowKeyFromParams e dstVip ''::0'' 0 of
        None \<Rightarrow> no_entries\<lparr>le_error := InvalidVip\<rparr>
      | Some key \<Rightarrow>
          let isIPv6 = (case parse_ip e (vk_address dstVip) of Some (V6 _) \<Rightarrow> True | _ \<Rightarrow> False);
              r = list_cpus le st key isIPv6 limit 0 (cpu_lru ts) no_entries;
              r = (case fallback_lru ts of
                     None \<Rightarrow> r
                   | Some tbl \<Rightarrow> snd (listLruMap le st tbl Fallback key isIPv6 limit r))
          in fillAtimeDelta le r)"

section \<open>Deletion and purge\<close>

definition tbl_delete :: "lru_env \<Rightarrow> flow_key \<Rightarrow> lru_tbl \<Rightarrow> bool \<times> lru_tbl" where
  "tbl_delete le key tbl =
     (if del_err le key \<or> map_of tbl key = None then (False, tbl) else (True, AList.delete key tbl))"

fun delete_cpus :: "lru_env \<Rightarrow> flow_key \<Rightarrow> nat \<Rightarrow> lru_tbl option list \<Rightarrow> source_map list \<times> lru_tbl option list" where
  "delete_cpus le key core [] = ([], [])"
| "delete_cpus le key core (None # ts) =
     (let (ms, ts) = delete_cpus le key (Suc core) ts in (ms, None # ts))"
| "delete_cpus le key core (Some tbl # ts) =
     (let (ok, tbl) = tbl_delete le key tbl;
          (ms, ts) = delete_cpus le key (Suc core) ts
      in (if ok then Cpu core # ms else ms, Some tbl # ts))"

definition deleteLru :: "env \<Rightarrow> lru_env \<Rightarrow> vip_key \<Rightarrow> string \<Rightarrow> u16 \<Rightarrow> lru_tables
    \<Rightarrow> source_map list \<times> lru_tables" where
  "deleteLru e le dstVip srcIp srcPort ts =
     (case flowKeyFromParams e dstVip srcIp srcPort of
        None \<Rightarrow> ([], ts)
      | Some key \<Rightarrow>
          let (ms, cpus) = delete_cpus le key 0 (cpu_lru ts);
              ts = ts\<lparr>cpu_lru := cpus\<rparr>
          in case fallback_lru ts of
               None \<Rightarrow> (ms, ts)
             | Some tbl \<Rightarrow>
                 let (ok, tbl) = tbl_delete le key tbl
                 in (if ok then ms @ [Fallback] else ms, ts\<lparr>fallback_lru := Some tbl\<rparr>))"

record purge_response =
  deletedCount :: int
  pr_error :: lru_error

definition no_purge :: purge_response where
  "no_purge = \<lparr>deletedCount = 0, pr_error = NoError\<rparr>"

definition purge_key ::
  "lru_env \<Rightarrow> flow_key \<Rightarrow> flow_key \<Rightarrow> purge_response \<times> lru_tbl \<Rightarrow> purge_response \<times> lru_tbl" where
  "purge_key le filter_key key s =
     (let (r, tbl) = s
      in if vip_match filter_key key then
           let (ok, tbl) = tbl_delete le key tbl
           in (if ok then r\<lparr>deletedCount := deletedCount r + 1\<rparr> else r\<lparr>pr_error := DeleteErr\<rparr>, tbl)
         else (r, tbl))"

text \<open>The next key is asked for before the key at hand is deleted.\<close>

fun purge_loop :: "lru_env \<Rightarrow> flow_key \<Rightarrow> nat \<Rightarrow> nat \<Rightarrow> flow_key \<Rightarrow> purge_response \<times> lru_tbl
    \<Rightarrow> purge_response \<times> lru_tbl" where
  "purge_loop le filter_key i 0 key s = s"
| "purge_loop le filter_key i (Suc n) key s =
     (let nxt = next_key (map fst (snd s)) key;
          (r, tbl) = (if i \<noteq> 0 then purge_key le filter_key key s else s)
      in if next_err le i then (r\<lparr>pr_error := QueryErr\<rparr>, tbl)
         else case nxt of
           None \<Rightarrow> (r, tbl)
         | Some nextKey \<Rightarrow>
             purge_loop le filter_key (Suc i) n nextKey
               (if n = 0 then r\<lparr>pr_error := MaxedLookups\<rparr> else r, tbl))"

definition purgeVipLruMap :: "lru_env \<Rightarrow> flow_key \<Rightarrow> lru_tbl \<Rightarrow> purge_response \<times> lru_tbl" where
  "purgeVipLruMap le filter_key tbl =
     purge_loop le filter_key 0 (max_lookups le) zero_flow (no_purge, tbl)"

definition add_response :: "purge_response \<Rightarrow> purge_response \<Rightarrow> purge_response" where
  "add_response r m =
     (let r = r\<lparr>deletedCount := deletedCount r + deletedCount m\<rparr>
      in if pr_error m \<noteq> NoError then r\<lparr>pr_error := pr_error m\<rparr> else r)"

fun purge_cpus :: "lru_env \<Rightarrow> flow_key \<Rightarrow> lru_tbl option list \<Rightarrow> purge_response
    \<Rightarrow> purge_response \<times> lru_tbl option list" where
  "purge_cpus le key [] r = (r, [])"
| "purge_cpus le key (None # ts) r = (let (r, ts) = purge_cpus le key ts r in (r, None # ts))"
| "purge_cpus le key (Some tbl # ts) r =
     (let (m, tbl) = purgeVipLruMap le key tbl;
          (r, ts) = purge_cpus le key ts (add_response r m)
      in (r, Some tbl # ts))"

definition purgeVipLru ::
  "env \<Rightarrow> lru_env \<Rightarrow> vip_key \<Rightarrow> lru_tables \<Rightarrow> purge_response \<times> lru_tables" where
  "purgeVipLru e le dstVip ts =
     (case flowKeyFromParams e dstVip ''::0'' 0 of
        None \<Rightarrow> (no_purge\<lparr>pr_error := InvalidVip\<rparr>, ts)
      | Some key \<Rightarrow>
          let (r, cpus) = purge_cpus le key (cpu_lru ts) no_purge;
              ts = ts\<lparr>cpu_lru := cpus\<rparr>
          in case fallback_lru ts of
               None \<Rightarrow> (r, ts)
             | Some tbl \<Rightarrow>
                 let (m, tbl) = purgeVipLruMap le key tbl
                 in (add_response r m, ts\<lparr>fallback_lru := Some tbl\<rparr>))"

section \<open>Statistics\<close>

record lru_vip_key =
  lv_dst :: addr
  lv_port :: u16
  lv_proto :: u8

datatype vip_label = NoLabel | VipLabel vip_key | AggLabel

record vip_lru_stats =
  vs_vip :: vip_label
  vs_count :: int
  staleRealsCount :: int
  atimeZeroCount :: int
  atimeUnder30secCount :: int
  atime30to60secCount :: int
  atimeOver60secCount :: int

definition no_vip_stats :: vip_lru_stats where
  "no_vip_stats = \<lparr>vs_vip = NoLabel, vs_count = 0, staleRealsCount = 0, atimeZeroCount = 0,
     atimeUnder30secCount = 0, atime30to60secCount = 0, atimeOver60secCount = 0\<rparr>"

definition vip_stats_add :: "vip_lru_stats \<Rightarrow> vip_lru_stats \<Rightarrow> vip_lru_stats" where
  "vip_stats_add s other =
     s\<lparr>vs_count := vs_count s + vs_count other,
       staleRealsCount := staleRealsCount s + staleRealsCount other,
       atimeZeroCount := atimeZeroCount s + atimeZeroCount other,
       atimeUnder30secCount := atimeUnder30secCount s + atimeUnder30secCount other,
       atime30to60secCount := atime30to60secCount s + atime30to60secCount other,
       atimeOver60secCount := atimeOver60secCount s + atimeOver60secCount other\<rparr>"

type_synonym vip_stats_map = "(lru_vip_key \<times> vip_lru_stats) list"

text \<open>perVipStats[k], which inserts empty statistics when there are none.\<close>

definition stats_at :: "lru_vip_key \<Rightarrow> vip_stats_map \<Rightarrow> vip_lru_stats" where
  "stats_at k m = (case map_of m k of Some s \<Rightarrow> s | None \<Rightarrow> no_vip_stats)"

definition lru_vip_key_of :: "flow_key \<Rightarrow> lru_vip_key" where
  "lru_vip_key_of key = \<lparr>lv_dst = dst key, lv_port = port1 key, lv_proto = proto key\<rparr>"

text \<open>An entry in the statistics of its VIP; the age is an int, computed on unsigned numbers.\<close>

definition count_entry :: "lru_env \<Rightarrow> lb \<Rightarrow> real_pos_lru \<Rightarrow> vip_lru_stats \<Rightarrow> vip_lru_stats" where
  "count_entry le st real s =
     (let s = s\<lparr>vs_count := vs_count s + 1\<rparr>;
          s = (if pos real = 0 \<or> numToReals st (pos real) = None
               then s\<lparr>staleRealsCount := staleRealsCount s + 1\<rparr> else s)
      in if atime real = 0 then s\<lparr>atimeZeroCount := atimeZeroCount s + 1\<rparr>
         else
           let deltaSec = sint (ucast ((ktime le - atime real) div 1000000000) :: u32)
           in if deltaSec < 30 then s\<lparr>atimeUnder30secCount := atimeUnder30secCount s + 1\<rparr>
              else if deltaSec < 60 then s\<lparr>atime30to60secCount := atime30to60secCount s + 1\<rparr>
              else s\<lparr>atimeOver60secCount := atimeOver60secCount s + 1\<rparr>)"

record lru_stats_response =
  perVipStats :: vip_stats_map
  ls_error :: lru_error

definition analyze_key ::
  "lru_env \<Rightarrow> lb \<Rightarrow> lru_tbl \<Rightarrow> flow_key \<Rightarrow> lru_stats_response \<Rightarrow> lru_stats_response" where
  "analyze_key le st tbl key r =
     (case lookup_tbl le tbl key of
        None \<Rightarrow> r\<lparr>ls_error := LookupErr\<rparr>
      | Some real \<Rightarrow>
          let k = lru_vip_key_of key
          in r\<lparr>perVipStats := AList.update k (count_entry le st real (stats_at k (perVipStats r)))
                               (perVipStats r)\<rparr>)"

fun analyze_loop :: "lru_env \<Rightarrow> lb \<Rightarrow> lru_tbl \<Rightarrow> nat \<Rightarrow> nat \<Rightarrow> flow_key \<Rightarrow> lru_stats_response
    \<Rightarrow> lru_stats_response" where
  "analyze_loop le st tbl i 0 key r = r"
| "analyze_loop le st tbl i (Suc n) key r =
     (let r = (if i \<noteq> 0 then analyze_key le st tbl key r else r)
      in if next_err le i then r\<lparr>ls_error := QueryErr\<rparr>
         else case next_key (map fst tbl) key of
           None \<Rightarrow> r
         | Some nextKey \<Rightarrow>
             analyze_loop le st tbl (Suc i) n nextKey
               (if n = 0 then r\<lparr>ls_error := MaxedLookups\<rparr> else r))"

definition analyzeLruMap :: "lru_env \<Rightarrow> lb \<Rightarrow> lru_tbl \<Rightarrow> lru_stats_response \<Rightarrow> lru_stats_response" where
  "analyzeLruMap le st tbl r = analyze_loop le st tbl 0 (max_lookups le) zero_flow r"

text \<open>The names of the VIPs that are configured.\<close>

definition label_vip :: "env \<Rightarrow> vip_key \<Rightarrow> lru_stats_response \<Rightarrow> lru_stats_response" where
  "label_vip e k r =
     (case flowKeyFromParams e k ''::0'' 0 of
        None \<Rightarrow> r\<lparr>ls_error := InvalidVip\<rparr>
      | Some key \<Rightarrow>
          let lk = lru_vip_key_of key
          in case map_of (perVipStats r) lk of
               None \<Rightarrow> r
             | Some s \<Rightarrow> r\<lparr>perVipStats := AList.update lk (s\<lparr>vs_vip := VipLabel k\<rparr>) (perVipStats r)\<rparr>)"

definition aggregate :: "vip_stats_map \<Rightarrow> vip_stats_map" where
  "aggregate m =
     fold (\<lambda>(k, s) agg.
        if vs_vip s \<noteq> NoLabel then agg
        else let k = k\<lparr>lv_port := 0\<rparr> in AList.update k (vip_stats_add (stats_at k agg) s) agg) m []"

definition add_aggregate :: "lru_vip_key \<times> vip_lru_stats \<Rightarrow> vip_stats_map \<Rightarrow> vip_stats_map" where
  "add_aggregate ks m =
     (let (k, s) = ks; t = vip_stats_add (stats_at k m) s
      in AList.update k (if vs_vip t = NoLabel then t\<lparr>vs_vip := AggLabel\<rparr> else t) m)"

definition analyzeLru :: "env \<Rightarrow> lru_env \<Rightarrow> lb \<Rightarrow> lru_tables \<Rightarrow> lru_stats_response" where
  "analyzeLru e le st ts =
     (let r = fold (\<lambda>t r. case t of None \<Rightarrow> r | Some tbl \<Rightarrow> analyzeLruMap le st tbl r) (cpu_lru ts)
                \<lparr>perVipStats = [], ls_error = NoError\<rparr>;
          r = fold (label_vip e) (map fst (vips st)) r;
          agg = aggregate (perVipStats r);
          m = filter (\<lambda>(_, s). vs_vip s \<noteq> NoLabel) (perVipStats r)
      in r\<lparr>perVipStats := fold add_aggregate agg m\<rparr>)"

end
