(* ===== verification/LbProps.thy ===== *)
theory LbProps
  imports LbReach LbLru Balancer
begin

text \<open>
  Properties of the control plane: what holds in every reachable state, what single operations
  promise, and where they fail to. The examples run on a small configuration.
\<close>

section \<open>An example configuration\<close>

definition ex_env :: env where
  "ex_env = \<lparr>parse_ip = (\<lambda>s. if s = ''10.0.0.1'' then Some (V4 0x0100000A)
       else if s = ''fc00::1'' \<or> s = ''fc00:0::1'' then Some (V6 (Addr 0xfc 0 0 0x01000000)) else None),
     parse_net = (\<lambda>s. None), ip_hash = (\<lambda>a. 0),
     addr_part = (\<lambda>x i. [w0 x, w1 x, w2 x, w3 x] ! i), bpf_ok = (\<lambda>n. True), batch_part = (\<lambda>n. 0),
     hash_of = (\<lambda>f es m. Some (replicate (unat m) (uint (ep_num (hd es))))),
     ring_key = (\<lambda>v p. rp_pos p)\<rparr>"

definition ex_config :: lb_config where
  "ex_config = \<lparr>maxVips = 2, maxReals = 3, cfg_chRingSize = 1, testing = False, enableHc = True,
     tunnelBasedHCEncap = False, maxLpmSrcSize = 2, maxDecapDst = 1, enableCidV3 = False,
     hashFunction = Maglev_fn\<rparr>"

definition ex_init_config :: init_config where
  "ex_init_config = \<lparr>mainInterface = ''eth0'', v4TunInterface = '''', v6TunInterface = '''',
     balancerProgPath = ''balancer.o'', healthcheckingProgPath = ''hc.o'', defaultMac = [1, 2, 3, 4, 5, 6],
     priority = 2307, rootMapPath = '''', rootMapPos = 8, i_enableHc = True,
     i_tunnelBasedHCEncap = False, i_maxVips = 2, i_maxReals = 3, i_testing = False, LruSize = 8,
     forwardingCores = [0], numaNodes = [], hcInterface = '''', xdpAttachFlags = 0,
     vsoshlbSrcV4 = '''', vsoshlbSrcV6 = '''', localMac = [], globalLruSize = 8, useRootMap = True,
     mainInterfaceIndex = 2, hcInterfaceIndex = 3, cleanupOnShutdown = True\<rparr>"

definition ex_adapter :: adapter where
  "ex_adapter = \<lparr>answer = (\<lambda>n c. 0), parse_addr = (\<lambda>s. None)\<rparr>"

definition ex_init :: init_state where
  "ex_init = snd (constructor ex_adapter 0 (members 0 ex_init_config))"

definition ex_boot :: "bst \<Rightarrow> lb" where
  "ex_boot = boot ex_init ex_config"

lemma ex_parse [simp]:
  "parse_ip ex_env ''10.0.0.1'' = Some (V4 0x0100000A)"
  "parse_ip ex_env ''fc00::1'' = Some (V6 (Addr 0xfc 0 0 0x01000000))"
  "parse_ip ex_env ''fc00:0::1'' = Some (V6 (Addr 0xfc 0 0 0x01000000))"
  by (simp_all add: ex_env_def)

lemma ex_accepts [simp]: "bpf_ok ex_env n"
  by (simp add: ex_env_def)

lemma ex_addresses: "real_addresses ex_env"
  by (simp add: real_addresses_def ex_env_def)

lemma ex_constructor: "constructor ex_adapter 0 (members 0 ex_init_config) = (Val (), ex_init)"
proof -
  have "fst (constructor ex_adapter 0 (members 0 ex_init_config)) = Val ()"
    by (simp add: constructor_def init_members_def init_ctl_def andThen_def modify_st_def read_st_def
        ret_def put_ctl_def resolve_def members_def ex_init_config_def Let_def)
  then show ?thesis unfolding ex_init_def by (metis prod.collapse)
qed

lemma ex_agrees: "agrees ex_config ex_init_config"
  by (simp add: agrees_def ex_config_def ex_init_config_def)

lemma ex_fields [simp]:
  "config (ex_boot k) = ex_config" "vipNums (ex_boot k) = [0, 1]" "realNums (ex_boot k) = [1, 2]"
  "hcKeyNums (ex_boot k) = [0, 1]" "vips (ex_boot k) = []" "lb_reals (ex_boot k) = Map.empty"
  "numToReals (ex_boot k) = Map.empty" "quicMapping (ex_boot k) = []" "kmaps (ex_boot k) = k"
  "realsIdCallback (ex_boot k) = False" "ncalls (ex_boot k) = 0"
proof -
  have n: "numbers 0 2 = [0, 1]" "numbers 1 3 = [1, 2]" by (simp_all add: numbers_def upt_rec)
  show "config (ex_boot k) = ex_config" "vipNums (ex_boot k) = [0, 1]" "realNums (ex_boot k) = [1, 2]"
    "hcKeyNums (ex_boot k) = [0, 1]" "vips (ex_boot k) = []" "lb_reals (ex_boot k) = Map.empty"
    "numToReals (ex_boot k) = Map.empty" "quicMapping (ex_boot k) = []" "kmaps (ex_boot k) = k"
    "realsIdCallback (ex_boot k) = False" "ncalls (ex_boot k) = 0"
    using constructor_pools [OF ex_constructor] n
    by (simp_all add: ex_boot_def boot_def ex_init_config_def)
qed

lemma one_le_positive: "(1 :: u32) \<le> n \<longleftrightarrow> 0 < n"
  by (auto simp: word_le_nat_alt word_less_nat_alt Suc_le_eq)

lemma hc_numbers_set: "hc_numbers c = {n. enableHc c \<and> n < maxVips c}"
  by (auto simp: hc_numbers_def set_numbers)

section \<open>Reachable states\<close>

text \<open>
  C3: In every state that a history of operations reaches from the constructor's, as long as no
  state of the history has an entry for the default address (getRealsForVip makes one, with number
  0, when a VIP still has a number whose real was released), each pool is partitioned: a VIP number
  below maxVips, a health check key number and a real number from 1 to maxReals - 1 is either free,
  once, or held by exactly one owner. Number 0 is never given to a real. The addresses are those
  that folly parses, never the default one.
\<close>

theorem control_pools:
  assumes "real_addresses e" "constructor a u (members fd cfg) = (Val (), i)" "agrees c cfg"
    "lb_reach e (boot i c k) past st" "no_blank (st # past)"
  shows "pool {n. n < maxVips c} (vipNums st) (vip_own st) \<and>
    pool {n. enableHc c \<and> n < maxVips c} (hcKeyNums st) (hc_own st) \<and>
    pool {n. 0 < n \<and> n < maxReals c} (realNums st) (real_own st)"
proof -
  have "lb_inv c e st" using lb_reach_inv [OF assms(4,1) boot_inv [OF assms(2,3)] assms(5)] .
  then show ?thesis
    by (simp add: lb_inv_def pools_ok_def set_numbers hc_numbers_set one_le_positive)
qed

text \<open>Two steps of the example: a VIP is added, then a real for it.\<close>

definition ex_vip :: vip_key where
  "ex_vip = \<lparr>vk_address = ''fc00::1'', vk_port = 443, vk_proto = 6\<rparr>"

definition ex_real :: new_real where
  "ex_real = \<lparr>nr_address = ''10.0.0.1'', nr_weight = 1, nr_flags = 0\<rparr>"

definition ex_after :: "bst \<Rightarrow> lb" where
  "ex_after k = snd (modifyRealsForVip ex_env ADD [ex_real] ex_vip (snd (addVip ex_env ex_vip 0 (ex_boot k))))"

lemma ex_reach:
  "lb_reach ex_env (boot ex_init ex_config k) [snd (addVip ex_env ex_vip 0 (ex_boot k)), ex_boot k] (ex_after k)"
  unfolding ex_after_def ex_boot_def
  by (rule lb_reach.more [OF lb_reach.more [OF lb_reach.start lb_step.add_vip] lb_step.modify_reals])

section \<open>Adding and deleting a real\<close>

lemma hull_programHashRing [simp]: "hull (programHashRing e ps n st) = hull st"
  using same_programHashRing by (simp add: same_def)

lemma hull_put_vip: "hull (put_vip k v st) = (hull st)\<lparr>vips := AList.update k v (vips st)\<rparr>"
  by (simp add: put_vip_def hull_upd)

lemma validate_parsed [simp]:
  "parse_ip e s = Some a \<Longrightarrow> validateAddress e s n st = (HOST, st)"
  by (simp add: validateAddress_def)

text \<open>A real the control plane does not know gets the first free number.\<close>

lemma add_fresh_real:
  assumes "map_of (vips st) k = Some v" "parse_ip e (nr_address r) = Some a" "lb_reals st a = None"
    "realNums st = n # ns" "n \<noteq> maxReals (config st)"
    "batchRealsUpdate (hash_of e) [\<lparr>action = ADD, updatedReal =
        \<lparr>ep_num = n, ep_weight = nr_weight r, ep_hash = ip_hash e a\<rparr>\<rparr>] v = Some (ps, v')"
  shows "\<exists>st'. modifyRealsForVip e ADD [r] k st = (Ret True, st') \<and>
    hull st' = hull (st\<lparr>realNums := ns, numToReals := (numToReals st)(n \<mapsto> a),
        lb_reals := (lb_reals st)(a \<mapsto> \<lparr>rm_num = n, refCount = 1, rm_flags = nr_flags r AND NOT V6DADDR\<rparr>),
        vips := AList.update k v' (vips st)\<rparr>)"
proof (cases rule: increase_cases [of st a e "nr_flags r"])
  case (fresh n' ns' st')
  then have n: "n' = n" "ns' = ns" using assms(4) by auto
  have m: "modify_step e ADD r (getReals v, [], st) = (getReals v, [\<lparr>action = ADD, updatedReal =
        \<lparr>ep_num = n, ep_weight = nr_weight r, ep_hash = ip_hash e a\<rparr>\<rparr>], st')"
    using fresh n assms hull_fields(1) [OF fresh(4)] by (simp add: modify_step_def)
  have "hull (programHashRing e ps (vipNum v') (put_vip k v' st')) = hull (st\<lparr>realNums := ns,
        numToReals := (numToReals st)(n \<mapsto> a),
        lb_reals := (lb_reals st)(a \<mapsto> \<lparr>rm_num = n, refCount = 1, rm_flags = nr_flags r AND NOT V6DADDR\<rparr>),
        vips := AList.update k v' (vips st)\<rparr>)"
    using fresh(4) hull_fields(8) [OF fresh(4)] n by (simp add: hull_put_vip hull_upd)
  then show ?thesis
    by (intro exI [of _ "programHashRing e ps (vipNum v') (put_vip k v' st')"])
       (simp add: modifyRealsForVip_def assms(1,6) m)
qed (use assms in auto)

lemma ex_added:
  "lb_reals (snd (addVip ex_env ex_vip 0 (ex_boot k))) = Map.empty"
  "realNums (snd (addVip ex_env ex_vip 0 (ex_boot k))) = [1, 2]"
  "config (snd (addVip ex_env ex_vip 0 (ex_boot k))) = ex_config"
  "map_of (vips (snd (addVip ex_env ex_vip 0 (ex_boot k)))) ex_vip = Some (new_vip 0 0 1 Maglev_fn)"
  by (simp_all add: addVip_def ex_vip_def Let_def split_def ex_config_def
      hull_fields [OF hull_updateVipMap] update_conv')

lemma ex_batch:
  "\<exists>ps v'. batchRealsUpdate (hash_of ex_env) [\<lparr>action = ADD, updatedReal =
        \<lparr>ep_num = 1, ep_weight = nr_weight ex_real, ep_hash = ip_hash ex_env (V4 0x0100000A)\<rparr>\<rparr>]
        (new_vip 0 0 1 Maglev_fn) = Some (ps, v')"
  by (simp add: batchRealsUpdate_def getEndpoints_def apply_ureal_def new_vip_def ex_real_def
      real_at_def touch_real_def calculateHashRing_def real_endpoint_def ring_delta_def ex_env_def Let_def)

lemma ex_add_real:
  obtains "modifyRealsForVip ex_env ADD [ex_real] ex_vip (snd (addVip ex_env ex_vip 0 (ex_boot k)))
      = (Ret True, ex_after k)"
    "lb_reals (ex_after k) = [V4 0x0100000A \<mapsto> \<lparr>rm_num = 1, refCount = 1, rm_flags = 0\<rparr>]"
proof -
  let ?st = "snd (addVip ex_env ex_vip 0 (ex_boot k))"
  obtain ps v' where b: "batchRealsUpdate (hash_of ex_env) [\<lparr>action = ADD, updatedReal =
        \<lparr>ep_num = 1, ep_weight = nr_weight ex_real, ep_hash = ip_hash ex_env (V4 0x0100000A)\<rparr>\<rparr>]
        (new_vip 0 0 1 Maglev_fn) = Some (ps, v')"
    using ex_batch by blast
  obtain st' where m: "modifyRealsForVip ex_env ADD [ex_real] ex_vip ?st = (Ret True, st')" and
    h: "hull st' = hull (?st\<lparr>realNums := [2], numToReals := (numToReals ?st)(1 \<mapsto> V4 0x0100000A),
        lb_reals := (lb_reals ?st)(V4 0x0100000A \<mapsto>
          \<lparr>rm_num = 1, refCount = 1, rm_flags = nr_flags ex_real AND NOT V6DADDR\<rparr>),
        vips := AList.update ex_vip v' (vips ?st)\<rparr>)"
    using add_fresh_real [OF ex_added(4) _ _ ex_added(2) _ b, of k] ex_added
    by (auto simp: ex_real_def ex_config_def)
  then have "ex_after k = st'" by (simp add: ex_after_def)
  then show ?thesis
    using that m hull_fields(6) [OF h] ex_added(1) by (simp add: ex_real_def)
qed

lemma ex_after_reals:
  "lb_reals (ex_after k) (V4 0x0100000A) = Some \<lparr>rm_num = 1, refCount = 1, rm_flags = 0\<rparr>"
  by (rule ex_add_real [of k]) simp

lemma ex_no_blank: "no_blank [ex_after k, snd (addVip ex_env ex_vip 0 (ex_boot k)), ex_boot k]"
  by (rule ex_add_real [of k]) (simp add: no_blank_def ex_added(1))

lemma control_pools_witness:
  "pool {n. n < 2} (vipNums (ex_after (init_bst ref_config []))) (vip_own (ex_after (init_bst ref_config [])))"
  using control_pools [OF ex_addresses ex_constructor ex_agrees ex_reach [of "init_bst ref_config []"] ex_no_blank]
  by (simp add: ex_config_def)

text \<open>
  C10: When the kernel accepts every call, in every state that a history of operations reaches, as
  long as no state of the history has an entry for the default address (getRealsForVip makes one,
  with number 0, when a VIP still has a number whose real was released), the entry of the data
  plane's array reals at a real's number is that real's address with its flags; the number is not 0,
  lies below maxReals and belongs to no other address.
\<close>

theorem reals_array_current:
  assumes "real_addresses e" "constructor a u (members fd cfg) = (Val (), i)" "agrees c cfg"
    "lb_reach e (boot i c k) past st" "no_blank (st # past)" "\<And>n. bpf_ok e n" "\<not> testing c"
    "lb_reals st r = Some rm"
  shows "reals (kmaps st) (rm_num rm) = Some (real_entry e r rm) \<and> 0 < rm_num rm \<and> rm_num rm < maxReals c \<and>
    (\<forall>r' rm'. lb_reals st r' = Some rm' \<longrightarrow> rm_num rm' = rm_num rm \<longrightarrow> r' = r)"
proof -
  have i: "lb_inv c e st" using lb_reach_inv [OF assms(4,1) boot_inv [OF assms(2,3)] assms(5)] .
  then have p: "pool {n. 1 \<le> n \<and> n < maxReals c} (realNums st) (real_own st)"
    by (simp add: lb_inv_def pools_ok_def set_numbers)
  have n: "rm_num rm \<in> {n. 1 \<le> n \<and> n < maxReals c}"
    using pool_owner_in [OF p, of r "rm_num rm"] assms(8) by (simp add: real_own_def)
  have u: "r' = r" if "lb_reals st r' = Some rm'" "rm_num rm' = rm_num rm" for r' rm'
    using pool_owner_unique [OF p, of r' "rm_num rm" r] that assms(8) by (simp add: real_own_def)
  have "reals_synced e st" using i assms(6,7) by (simp add: lb_inv_def all_accepted_def)
  then have "reals (kmaps st) (rm_num rm) = Some (real_entry e r rm)"
    using assms(8) by (simp add: reals_synced_def)
  then show ?thesis using n u by (simp add: one_le_positive)
qed

lemma reals_array_current_witness:
  "reals (kmaps (ex_after (init_bst ref_config []))) 1
    = Some \<lparr>real_dst = Addr 0x0100000A 0 0 0, real_flags = 0\<rparr>"
proof -
  have "\<not> testing ex_config" by (simp add: ex_config_def)
  from reals_array_current [OF ex_addresses ex_constructor ex_agrees ex_reach ex_no_blank ex_accepts this ex_after_reals,
      THEN conjunct1, of "init_bst ref_config []"]
  show ?thesis by (simp add: real_entry_def parseAddr_def)
qed

section \<open>From the control plane to the data plane\<close>

text \<open>
  C12: When addVip accepts a VIP, the kernel takes the update of vip_map and the library is not in
  testing mode, the data plane finds the VIP: for a packet whose flow is the key that
  flowKeyFromParams builds for the VIP and any source, the VIP stage of the balancer goes on with
  the flags given and the number the control plane drew from its pool, not with the wildcard port.
  When the kernel refuses the update, or in testing mode, addVip accepts the VIP all the same and
  leaves every map of the data plane as it was.
\<close>

theorem added_vip_is_found:
  assumes "addVip e k flags st = (Ret True, st')" "parse_ip e (vk_address k) = Some a"
    "flowKeyFromParams e k srcIp srcPort = Some key" "flow pckt = key"
  shows "if bpf_ok e (ncalls st) \<and> \<not> testing (config st)
    then \<exists>n ns d. vipNums st = n # ns \<and> vip_own st' k = Some n \<and>
      pp_vip (\<forall>w. a \<noteq> V4 w) pckt (kmaps st') = (Go (d, \<lparr>vip_flags = flags, vip_num = n\<rparr>, pckt), kmaps st')
    else kmaps st' = kmaps st"
proof -
  obtain n ns where n: "vipNums st = n # ns" "map_of (vips st) k = None"
    using assms(1,2) by (auto simp: addVip_def split: list.splits option.splits if_splits)
  obtain d where d: "vipKeyToVipDefinition e k = Some d"
    by (simp add: vipKeyToVipDefinition_def assms(2) Let_def)
  have d': "d = \<lparr>vip_addr = (case a of V4 _ \<Rightarrow> set_w0 (w0 (dst key)) zero_addr | _ \<Rightarrow> dst key),
      vip_port = port1 key, vip_proto = proto key\<rparr>"
    using d assms(2,3)
    by (auto simp: vipKeyToVipDefinition_def flowKeyFromParams_def parseAddr_def V6DADDR_def zero_flow_def
        Let_def split: option.splits ip.splits)
  have u: "snd (updateVipMap e ADD k m s) = (if bpf_ok e (ncalls s) then s\<lparr>ncalls := ncalls s + 1,
      kmaps := (kmaps s)\<lparr>vip_map := (vip_map (kmaps s))(d \<mapsto> m)\<rparr>\<rparr>
      else failed_call (s\<lparr>ncalls := ncalls s + 1\<rparr>))" for m s
    by (simp add: updateVipMap_def d counted_call_def bpf_call_def on_kmaps_def Let_def)
  have x: "st' = (if testing (config st) then added else snd (updateVipMap e ADD k m added))"
    if "added = st\<lparr>vipNums := ns, vips := AList.update k (new_vip n flags (cfg_chRingSize (config st))
      (hashFunction (config st))) (vips st)\<rparr>" "m = \<lparr>vip_flags = flags, vip_num = n\<rparr>" for added m
    using assms(1) n that by (auto simp: addVip_def assms(2) Let_def split_def split: if_splits)
  show ?thesis
  proof (cases "bpf_ok e (ncalls st) \<and> \<not> testing (config st)")
    case True
    have st': "vip_map (kmaps st') d = Some \<lparr>vip_flags = flags, vip_num = n\<rparr>" "vip_own st' k = Some n"
      using x [OF refl refl] True by (simp_all add: u vip_own_map update_conv' new_vip_def)
    have "pp_vip (\<forall>w. a \<noteq> V4 w) pckt (kmaps st')
        = (Go (d, \<lparr>vip_flags = flags, vip_num = n\<rparr>, pckt), kmaps st')"
      using st'(1) d' assms(4) by (cases a) (auto simp: pp_vip_def Let_def)
    then show ?thesis using True n(1) st'(2) by auto
  next
    case False
    then have "kmaps st' = kmaps st" using x [OF refl refl] by (auto simp: u failed_call_def)
    then show ?thesis unfolding if_not_P [OF False] .
  qed
qed

definition ex_flow :: flow_key where
  "ex_flow = \<lparr>src = Addr 0x0100000A 0 0 0, dst = Addr 0xfc 0 0 0x01000000, port0 = bswap16 5555,
     port1 = bswap16 443, proto = 6\<rparr>"

lemma ex_flow_key: "flowKeyFromParams ex_env ex_vip ''10.0.0.1'' 5555 = Some ex_flow"
  by (simp add: flowKeyFromParams_def ex_vip_def ex_flow_def zero_flow_def parseAddr_def zero_addr_def
      Let_def) (simp add: ex_env_def)

lemma ex_addVip:
  "map_of (vips st) k = None \<Longrightarrow> vipNums st = n # ns \<Longrightarrow> parse_ip e (vk_address k) = Some a \<Longrightarrow>
    fst (addVip e k flags st) = Ret True"
  using updateVipMap_returns [of e k ADD] by (auto simp: addVip_def Let_def split_def)

lemma added_vip_is_found_witness:
  "\<exists>n ns d. vipNums (ex_boot (init_bst ref_config [])) = n # ns \<and>
    vip_own (snd (addVip ex_env ex_vip 7 (ex_boot (init_bst ref_config [])))) ex_vip = Some n \<and>
    pp_vip True (zero_pckt\<lparr>flow := ex_flow\<rparr>) (kmaps (snd (addVip ex_env ex_vip 7 (ex_boot (init_bst ref_config [])))))
      = (Go (d, \<lparr>vip_flags = 7, vip_num = n\<rparr>, zero_pckt\<lparr>flow := ex_flow\<rparr>),
         kmaps (snd (addVip ex_env ex_vip 7 (ex_boot (init_bst ref_config [])))))"
proof -
  let ?b = "ex_boot (init_bst ref_config [])"
  have "addVip ex_env ex_vip 7 ?b = (Ret True, snd (addVip ex_env ex_vip 7 ?b))"
    using ex_addVip [of ?b ex_vip 0 "[1]" ex_env _ 7] by (simp add: prod_eq_iff ex_vip_def)
  from added_vip_is_found [OF this _ ex_flow_key, of _ "zero_pckt\<lparr>flow := ex_flow\<rparr>"]
  show ?thesis by (simp add: ex_config_def) (simp add: ex_vip_def)
qed

section \<open>Histories of one real\<close>

lemma hull_delete_fields:
  assumes "hull st' = hull (st\<lparr>vips := vs\<rparr>)"
  shows "lb_reals st' = lb_reals st" "realNums st' = realNums st" "numToReals st' = numToReals st"
  using hull_fields [OF assms] by simp_all

lemma modifyReals_hull:
  assumes "map_of (vips st) k = Some v" "fold (modify_step e act) rs (getReals v, [], st) = (cur, us, st1)"
  shows "\<exists>r v' st'. modifyRealsForVip e act rs k st = (r, st') \<and> hull st' = hull (put_vip k v' st1)"
  using assms by (cases "batchRealsUpdate (hash_of e) us v") (auto simp: modifyRealsForVip_def)

lemma batch_add_member:
  assumes "batchRealsUpdate gen [\<lparr>action = ADD, updatedReal = ep\<rparr>] v = Some (ps, v')"
  shows "ep_num ep \<in> set (getReals v')"
proof -
  have keep: "vip_reals v' = vip_reals w" if "calculateHashRing gen es w = Some (ps, v')" for es w
    using that by (auto simp: calculateHashRing_def Let_def split_def split: if_splits option.splits)
  have "vip_reals v' = fst (apply_ureal \<lparr>action = ADD, updatedReal = ep\<rparr> (vip_reals v, False))"
    using assms keep by (auto simp: batchRealsUpdate_def getEndpoints_def Let_def split_def split: if_splits)
  then show ?thesis
    by (simp add: getReals_def apply_ureal_def touch_real_def Let_def dom_update map_of_eq_None_iff
        split: if_splits)
qed

text \<open>
  Adding an unknown real to a VIP and deleting it again restores the table of the reals; its
  number goes to the end of the queue of free numbers.
\<close>

theorem real_add_del_roundtrip:
  assumes "map_of (vips st) k = Some v" "parse_ip e (nr_address r) = Some a" "lb_reals st a = None"
    "realNums st = n # ns" "n \<noteq> maxReals (config st)"
    "addRealForVip e r k st = (Ret True, st1)" "delRealForVip e r k st1 = (res, st2)"
  shows "lb_reals st2 = lb_reals st \<and> numToReals st2 = (numToReals st)(n := None) \<and> realNums st2 = ns @ [n]"
proof -
  let ?us = "[\<lparr>action = ADD, updatedReal = \<lparr>ep_num = n, ep_weight = nr_weight r, ep_hash = ip_hash e a\<rparr>\<rparr>]"
  obtain ps v' where b: "batchRealsUpdate (hash_of e) ?us v = Some (ps, v')"
  proof (cases "batchRealsUpdate (hash_of e) ?us v")
    case None
    then have False using assms
      by (cases rule: increase_cases [of st a e "nr_flags r"])
         (auto simp: addRealForVip_def modifyRealsForVip_def modify_step_def dest: hull_fields(1))
    then show ?thesis ..
  qed auto
  have h1: "hull st1 = hull (st\<lparr>realNums := ns, numToReals := (numToReals st)(n \<mapsto> a),
        lb_reals := (lb_reals st)(a \<mapsto> \<lparr>rm_num = n, refCount = 1, rm_flags = nr_flags r AND NOT V6DADDR\<rparr>),
        vips := AList.update k v' (vips st)\<rparr>)"
    using add_fresh_real [OF assms(1-5) b] assms(6) by (simp add: addRealForVip_def)
  note f1 = hull_fields [OF h1, simplified]
  have k1: "map_of (vips st1) k = Some v'" by (simp add: f1 update_conv')
  have rm: "lb_reals st1 a = Some \<lparr>rm_num = n, refCount = 1, rm_flags = nr_flags r AND NOT V6DADDR\<rparr>"
    by (simp add: f1)
  let ?d = "decreaseRefCountForReal a st1"
  have d: "lb_reals ?d = (lb_reals st1)(a := None)" "numToReals ?d = (numToReals st1)(n := None)"
    "realNums ?d = realNums st1 @ [n]"
    using rm by (simp_all add: decreaseRefCountForReal_def Let_def notify_def)
  have "fold (modify_step e DEL) [r] (getReals v', [], st1)
      = (getReals v', [\<lparr>action = DEL, updatedReal = \<lparr>ep_num = n, ep_weight = 0, ep_hash = 0\<rparr>\<rparr>], ?d)"
    using rm batch_add_member [OF b] assms(2) by (simp add: modify_step_def)
  from modifyReals_hull [OF k1 this] obtain v'' where "hull st2 = hull (put_vip k v'' ?d)"
    using assms(7) by (auto simp: delRealForVip_def)
  from hull_delete_fields [OF this [unfolded put_vip_def]]
  have "lb_reals st2 = lb_reals ?d" "realNums st2 = realNums ?d" "numToReals st2 = numToReals ?d" by auto
  then show ?thesis using d f1 assms(3) by (auto simp: fun_upd_idem)
qed

lemma real_add_del_roundtrip_witness:
  "realNums (snd (delRealForVip ex_env ex_real ex_vip (ex_after (init_bst ref_config [])))) = [2, 1]"
proof -
  let ?k = "init_bst ref_config []"
  have a: "addRealForVip ex_env ex_real ex_vip (snd (addVip ex_env ex_vip 0 (ex_boot ?k))) = (Ret True, ex_after ?k)"
    unfolding addRealForVip_def by (rule ex_add_real [of ?k])
  have d: "delRealForVip ex_env ex_real ex_vip (ex_after ?k)
      = (fst (delRealForVip ex_env ex_real ex_vip (ex_after ?k)), snd (delRealForVip ex_env ex_real ex_vip (ex_after ?k)))"
    by simp
  have p: "parse_ip ex_env (nr_address ex_real) = Some (V4 0x0100000A)" by (simp add: ex_real_def)
  have "lb_reals (snd (addVip ex_env ex_vip 0 (ex_boot ?k))) (V4 0x0100000A) = None"
    "(1 :: u32) \<noteq> maxReals (config (snd (addVip ex_env ex_vip 0 (ex_boot ?k))))"
    by (simp_all add: ex_added) (simp add: ex_config_def)
  from real_add_del_roundtrip [OF ex_added(4) p this(1) ex_added(2) this(2) a d]
  show ?thesis by simp
qed

section \<open>Where the histories go wrong\<close>

text \<open>
  A batch that deletes the same real twice from one VIP decreases its count twice: a real that
  another VIP still holds is forgotten, and its number is free for another address while the other
  VIP keeps it.
\<close>

theorem duplicate_delete_frees_shared_real:
  assumes "map_of (vips st) k = Some v" "parse_ip e (nr_address r) = Some a"
    "lb_reals st a = Some rm" "refCount rm = 2" "rm_num rm \<in> set (getReals v)"
    "map_of (vips st) k' = Some v'" "k' \<noteq> k" "rm_num rm \<in> set (getReals v')"
    "modifyRealsForVip e DEL [r, r] k st = (res, st')"
  shows "lb_reals st' a = None \<and> rm_num rm \<in> set (realNums st') \<and>
    (\<exists>w. map_of (vips st') k' = Some w \<and> rm_num rm \<in> set (getReals w))"
proof -
  let ?s1 = "st\<lparr>lb_reals := (lb_reals st)(a \<mapsto> rm\<lparr>refCount := 1\<rparr>)\<rparr>"
  have s1: "decreaseRefCountForReal a st = ?s1"
    using assms(3,4) by (simp add: decreaseRefCountForReal_def Let_def)
  let ?s2 = "decreaseRefCountForReal a ?s1"
  have s2: "lb_reals ?s2 = (lb_reals st)(a := None)" "realNums ?s2 = realNums st @ [rm_num rm]"
    by (simp_all add: decreaseRefCountForReal_def Let_def notify_def)
  have v2: "vips ?s2 = vips st" by (simp add: decreaseRefCountForReal_def Let_def notify_def)
  have "\<exists>us. fold (modify_step e DEL) [r, r] (getReals v, [], st) = (getReals v, us, ?s2)"
    using assms(2,3,5) s1 by (simp add: modify_step_def)
  then obtain us where "fold (modify_step e DEL) [r, r] (getReals v, [], st) = (getReals v, us, ?s2)" ..
  from modifyReals_hull [OF assms(1) this] obtain w where h: "hull st' = hull (put_vip k w ?s2)"
    using assms(9) by auto
  have "lb_reals st' = lb_reals ?s2" "realNums st' = realNums ?s2" "vips st' = AList.update k w (vips st)"
    using hull_fields [OF h] v2 by (simp_all add: put_vip_def)
  then show ?thesis using s2 assms(6-8) by (simp add: update_conv')
qed

text \<open>Two VIPs, of one address in two forms, with one real.\<close>

definition ex_alias :: vip_key where
  "ex_alias = \<lparr>vk_address = ''fc00:0::1'', vk_port = 443, vk_proto = 6\<rparr>"

definition ex_shared :: lb where
  "ex_shared = (ex_boot (init_bst ref_config []))\<lparr>
     vips := [(ex_vip, (new_vip 0 0 1 Maglev_fn)\<lparr>vip_reals := [(1, \<lparr>weight = 1, hash = 0\<rparr>)]\<rparr>),
              (ex_alias, (new_vip 1 0 1 Maglev_fn)\<lparr>vip_reals := [(1, \<lparr>weight = 1, hash = 0\<rparr>)]\<rparr>)],
     lb_reals := [V4 0x0100000A \<mapsto> \<lparr>rm_num = 1, refCount = 2, rm_flags = 0\<rparr>],
     numToReals := [1 \<mapsto> V4 0x0100000A], realNums := [2], vipNums := []\<rparr>"

lemma duplicate_delete_frees_shared_real_witness:
  "lb_reals (snd (modifyRealsForVip ex_env DEL [ex_real, ex_real] ex_vip ex_shared)) (V4 0x0100000A) = None"
proof -
  have "modifyRealsForVip ex_env DEL [ex_real, ex_real] ex_vip ex_shared
    = (fst (modifyRealsForVip ex_env DEL [ex_real, ex_real] ex_vip ex_shared),
       snd (modifyRealsForVip ex_env DEL [ex_real, ex_real] ex_vip ex_shared))" by simp
  from duplicate_delete_frees_shared_real [OF _ _ _ _ _ _ _ _ this, where a = "V4 0x0100000A" and k' = ex_alias]
  show ?thesis
    by (simp add: ex_shared_def ex_vip_def ex_alias_def ex_real_def getReals_def)
qed

text \<open>
  Deleting the last QUIC id of a real frees the real's number but leaves the id in the data
  plane's server_id_map: the id still routes to the number, which the next new real is given.
\<close>

theorem quic_delete_leaves_route:
  assumes "parse_ip e (qr_address q) = Some a" "map_of (quicMapping st) (qr_id q) = Some a"
    "lb_reals st a = Some rm" "refCount rm = 1" "qr_id q \<le> kMaxQuicIdV2"
    "server_id_map (kmaps st) (qr_id q) = Some (rm_num rm)"
  shows "let st' = modifyQuicRealsMapping e DEL [q] st in
    map_of (quicMapping st') (qr_id q) = None \<and> lb_reals st' a = None \<and>
    rm_num rm \<in> set (realNums st') \<and> server_id_map (kmaps st') (qr_id q) = Some (rm_num rm)"
proof -
  have n: "\<not> qr_id q > kMaxQuicIdV2" using assms(5) by simp
  let ?d = "decreaseRefCountForReal a st"
  have d: "lb_reals ?d a = None" "rm_num rm \<in> set (realNums ?d)" "kmaps ?d = kmaps st"
    using assms(3,4) by (simp_all add: decreaseRefCountForReal_def Let_def notify_def)
  have "modifyQuicRealsMapping e DEL [q] st = ?d\<lparr>quicMapping := AList.delete (qr_id q) (quicMapping st)\<rparr>"
    using n assms(1,2) by (simp add: modifyQuicRealsMapping_def quic_step_def)
  then show ?thesis using d assms(6) by (simp add: delete_conv')
qed

definition ex_quic :: lb where
  "ex_quic = (ex_boot ((init_bst ref_config [])\<lparr>server_id_map := [5 \<mapsto> 1]\<rparr>))\<lparr>
     quicMapping := [(5, V4 0x0100000A)],
     lb_reals := [V4 0x0100000A \<mapsto> \<lparr>rm_num = 1, refCount = 1, rm_flags = 0\<rparr>],
     numToReals := [1 \<mapsto> V4 0x0100000A], realNums := [2]\<rparr>"

lemma quic_delete_leaves_route_witness:
  "let st' = modifyQuicRealsMapping ex_env DEL [\<lparr>qr_address = ''10.0.0.1'', qr_id = 5\<rparr>] ex_quic
   in 1 \<in> set (realNums st') \<and> server_id_map (kmaps st') 5 = Some 1"
  using quic_delete_leaves_route [of ex_env "\<lparr>qr_address = ''10.0.0.1'', qr_id = 5\<rparr>" "V4 0x0100000A" ex_quic]
  by (simp add: ex_quic_def kMaxQuicIdV2_def Let_def)

text \<open>
  VIPs are compared by the text of their addresses. Two VIPs whose texts denote one address
  share one entry of vip_map: deleting the first leaves the second configured, but the data plane
  no longer knows it.
\<close>

theorem vip_alias_delete:
  assumes "map_of (vips st) k = Some v" "map_of (vips st) k' = Some v'" "k' \<noteq> k"
    "vipKeyToVipDefinition e k = Some d" "vipKeyToVipDefinition e k' = Some d"
    "\<And>n. bpf_ok e n" "\<not> testing (config st)" "delVip e k st = (res, st')"
  shows "map_of (vips st') k' = Some v' \<and> vip_map (kmaps st') d = None"
proof -
  have p: "parse_ip e (vk_address k) \<noteq> None"
    using assms(4) by (auto simp: vipKeyToVipDefinition_def split: option.splits)
  show ?thesis
  proof (cases rule: delVip_cases [of st k e])
    case (deleted w s)
    then have s: "s = st'" "w = v" using assms(1,8) by auto
    have "vips st' = AList.delete k (vips st)" using hull_fields [OF deleted(4)] s by simp
    then have "map_of (vips st') k' = Some v'" using assms(2,3) by (simp add: delete_conv')
    moreover have "vip_map (kmaps st') d = None"
      using assms(1,4,6-8) front_fields(1) [OF front_drop_reals [of "getReals v" st]]
      unfolding delVip_def drop_real_eq
      by (auto simp: updateVipMap_def counted_call_def bpf_call_def on_kmaps_def failed_call_def Let_def
          split: if_splits)
    ultimately show ?thesis ..
  qed (use assms(1) p in auto)
qed

lemma ex_shared_fields:
  "map_of (vips ex_shared) ex_vip = Some ((new_vip 0 0 1 Maglev_fn)\<lparr>vip_reals := [(1, \<lparr>weight = 1, hash = 0\<rparr>)]\<rparr>)"
  "map_of (vips ex_shared) ex_alias = Some ((new_vip 1 0 1 Maglev_fn)\<lparr>vip_reals := [(1, \<lparr>weight = 1, hash = 0\<rparr>)]\<rparr>)"
  "ex_alias \<noteq> ex_vip" "\<not> testing (config ex_shared)"
  by (simp_all add: ex_shared_def ex_vip_def ex_alias_def ex_config_def)

lemma ex_definition:
  "vipKeyToVipDefinition ex_env ex_vip
     = Some \<lparr>vip_addr = Addr 0xfc 0 0 0x01000000, vip_port = bswap16 443, vip_proto = 6\<rparr>"
  "vipKeyToVipDefinition ex_env ex_alias
     = Some \<lparr>vip_addr = Addr 0xfc 0 0 0x01000000, vip_port = bswap16 443, vip_proto = 6\<rparr>"
  by (simp_all add: vipKeyToVipDefinition_def ex_vip_def ex_alias_def parseAddr_def V6DADDR_def Let_def)
     (simp_all add: ex_env_def)

lemma vip_alias_delete_witness:
  "vip_map (kmaps (snd (delVip ex_env ex_vip ex_shared)))
     \<lparr>vip_addr = Addr 0xfc 0 0 0x01000000, vip_port = bswap16 443, vip_proto = 6\<rparr> = None"
proof -
  have "delVip ex_env ex_vip ex_shared = (fst (delVip ex_env ex_vip ex_shared), snd (delVip ex_env ex_vip ex_shared))"
    by simp
  from vip_alias_delete [OF ex_shared_fields(1-3) ex_definition ex_accepts ex_shared_fields(4) this]
  show ?thesis ..
qed

end
