(* ===== verification/LruProps.thy ===== *)
theory LruProps
  imports LbProps
begin

text \<open>
  Properties of the administration of connection tables and of the statistics.
\<close>

section \<open>Purging\<close>

lemma next_key_at:
  assumes "k \<notin> fst ` set pre"
  shows "next_key (map fst (pre @ (k, v) # rest)) k = (case rest of [] \<Rightarrow> None | y # _ \<Rightarrow> Some (fst y))"
proof -
  have "dropWhile (\<lambda>x. x \<noteq> k) (map fst pre @ k # map fst rest) = k # map fst rest"
    using assms by (subst dropWhile_append2) auto
  then show ?thesis by (simp add: next_key_def split: list.split)
qed

lemma next_key_zero:
  assumes "k \<notin> fst ` set tbl"
  shows "next_key (map fst tbl) k = (case tbl of [] \<Rightarrow> None | y # _ \<Rightarrow> Some (fst y))"
proof -
  have "dropWhile (\<lambda>x. x \<noteq> k) (map fst tbl) = []"
    using assms by (auto simp: dropWhile_eq_Nil_conv)
  then show ?thesis unfolding next_key_def by (cases tbl) simp_all
qed

lemma delete_at:
  assumes "distinct (map fst (pre @ (k, v) # rest))"
  shows "AList.delete k (pre @ (k, v) # rest) = pre @ rest"
proof -
  have "AList.delete k xs = xs" if "k \<notin> fst ` set xs" for xs :: "('a \<times> 'b) list"
    using that by (simp add: delete_id)
  then show ?thesis using assms by (auto simp: AList.delete_eq filter_id_conv)
qed

definition matches :: "flow_key \<Rightarrow> lru_tbl \<Rightarrow> lru_tbl" where
  "matches f tbl = filter (\<lambda>e. vip_match f (fst e)) tbl"

definition others :: "flow_key \<Rightarrow> lru_tbl \<Rightarrow> lru_tbl" where
  "others f tbl = filter (\<lambda>e. \<not> vip_match f (fst e)) tbl"

lemma purge_loop_from:
  assumes "\<And>i. \<not> next_err le i" "\<And>key. \<not> del_err le key" "distinct (map fst (pre @ (k, v) # rest))"
    "length rest \<le> n" "i \<noteq> 0"
  shows "purge_loop le f i (Suc n) k (r, pre @ (k, v) # rest)
    = (r\<lparr>deletedCount := deletedCount r + int (length (matches f ((k, v) # rest)))\<rparr>,
       pre @ others f ((k, v) # rest))"
  using assms(3-5)
proof (induction rest arbitrary: n i k v r pre)
  case Nil
  have p: "purge_key le f k (r, pre @ [(k, v)])
      = (r\<lparr>deletedCount := deletedCount r + int (length (matches f [(k, v)]))\<rparr>, pre @ others f [(k, v)])"
    using delete_at [OF Nil(1)] assms(2) Nil(1)
    by (auto simp: purge_key_def tbl_delete_def matches_def others_def map_of_append map_add_Some_iff)
  show ?case
    using p assms(1) Nil next_key_at [of k pre v "[]"] by (simp add: Let_def)
next
  case (Cons y rest)
  obtain k2 v2 where y: "y = (k2, v2)" by (cases y)
  obtain n' where n': "n = Suc n'" using Cons.prems(2) by (cases n) auto
  let ?m = "vip_match f k"
  let ?r = "if ?m then r\<lparr>deletedCount := deletedCount r + 1\<rparr> else r"
  let ?pre = "if ?m then pre else pre @ [(k, v)]"
  have p: "purge_key le f k (r, pre @ (k, v) # y # rest) = (?r, ?pre @ y # rest)"
    using delete_at [OF Cons.prems(1)] assms(2) Cons.prems(1)
    by (auto simp: purge_key_def tbl_delete_def map_add_Some_iff)
  have d: "distinct (map fst (?pre @ (k2, v2) # rest))"
    using Cons.prems(1) y by auto
  have "purge_loop le f i (Suc n) k (r, pre @ (k, v) # y # rest)
      = purge_loop le f (Suc i) (Suc n') k2 (?r, ?pre @ (k2, v2) # rest)"
    using p assms(1) Cons.prems(1,3) next_key_at [of k pre v "y # rest"] n' y by (simp add: Let_def)
  also have "\<dots> = (?r\<lparr>deletedCount := deletedCount ?r + int (length (matches f ((k2, v2) # rest)))\<rparr>,
      ?pre @ others f ((k2, v2) # rest))"
    by (rule Cons.IH [OF d]) (use Cons.prems(2) n' in auto)
  finally show ?case using y by (auto simp: matches_def others_def)
qed

text \<open>
  C36: Purging a VIP removes exactly the entries of its flows and counts them, whatever the order
  of the table: the walk asks for the next key before it deletes one. The table has no duplicates
  and fewer entries than the walk has iterations, it does not hold the key of zeros the walk
  starts from, and the kernel accepts the calls.
\<close>

theorem purge_exact:
  assumes "distinct (map fst tbl)" "zero_flow \<notin> fst ` set tbl" "length tbl < max_lookups le"
    "\<And>i. \<not> next_err le i" "\<And>key. \<not> del_err le key"
  shows "purgeVipLruMap le f tbl =
    (\<lparr>deletedCount = int (length (filter (\<lambda>e. vip_match f (fst e)) tbl)), pr_error = NoError\<rparr>,
     filter (\<lambda>e. \<not> vip_match f (fst e)) tbl)"
proof (cases tbl)
  case Nil
  then show ?thesis using assms(3,4)
    by (cases "max_lookups le") (simp_all add: purgeVipLruMap_def next_key_def no_purge_def)
next
  case (Cons e rest)
  obtain k v where e: "e = (k, v)" by (cases e)
  obtain n where n: "max_lookups le = Suc (Suc n)" "length rest \<le> n"
    using assms(3) Cons by (cases "max_lookups le"; cases "max_lookups le - 1") auto
  have "purgeVipLruMap le f tbl = purge_loop le f 1 (Suc n) k (no_purge, [] @ (k, v) # rest)"
    using assms(2,4) next_key_zero [of zero_flow tbl] n Cons e by (simp add: purgeVipLruMap_def Let_def)
  also have "\<dots> = (no_purge\<lparr>deletedCount := deletedCount no_purge + int (length (matches f tbl))\<rparr>, others f tbl)"
    using purge_loop_from [OF assms(4,5), of "[]" k v rest n 1 f no_purge] assms(1) n(2) Cons e by simp
  finally show ?thesis by (simp add: matches_def others_def no_purge_def)
qed

definition ex_key :: "u16 \<Rightarrow> u16 \<Rightarrow> flow_key" where
  "ex_key sport dport = \<lparr>src = Addr 1 0 0 0, dst = Addr 2 0 0 0, port0 = sport, port1 = dport, proto = 6\<rparr>"

definition ex_lru_env :: lru_env where
  "ex_lru_env = \<lparr>max_lookups = 10, next_err = (\<lambda>i. False), look_err = (\<lambda>k. False), del_err = (\<lambda>k. False),
     from_binary = V6, ktime = 0\<rparr>"

lemma purge_exact_witness:
  "purgeVipLruMap ex_lru_env (ex_key 0 80) [(ex_key 7 80, \<lparr>pos = 1, atime = 0\<rparr>),
      (ex_key 7 443, \<lparr>pos = 1, atime = 0\<rparr>), (ex_key 8 80, \<lparr>pos = 2, atime = 0\<rparr>)]
    = (\<lparr>deletedCount = 2, pr_error = NoError\<rparr>, [(ex_key 7 443, \<lparr>pos = 1, atime = 0\<rparr>)])"
  using purge_exact [of "[(ex_key 7 80, \<lparr>pos = 1, atime = 0\<rparr>),
      (ex_key 7 443, \<lparr>pos = 1, atime = 0\<rparr>), (ex_key 8 80, \<lparr>pos = 2, atime = 0\<rparr>)]" ex_lru_env "ex_key 0 80"]
  by (simp add: ex_lru_env_def ex_key_def zero_flow_def vip_match_def)

section \<open>Counters\<close>

lemma sum_step_shift:
  "fold sum_step vs (s\<lparr>v1 := v1 s + n, v2 := v2 s + m\<rparr>)
    = (fold sum_step vs s)\<lparr>v1 := v1 (fold sum_step vs s) + n, v2 := v2 (fold sum_step vs s) + m\<rparr>"
proof (induction vs arbitrary: s)
  case (Cons x vs)
  have "sum_step x (s\<lparr>v1 := v1 s + n, v2 := v2 s + m\<rparr>)
      = (sum_step x s)\<lparr>v1 := v1 (sum_step x s) + n, v2 := v2 (sum_step x s) + m\<rparr>"
    by (simp add: sum_step_def algebra_simps)
  then show ?case using Cons by simp
qed simp

lemma sum_update:
  assumes "c < length vs"
  shows "fold sum_step (vs[c := \<lparr>v1 = v1 (vs ! c) + n, v2 = v2 (vs ! c) + m\<rparr>]) s
    = (fold sum_step vs s)\<lparr>v1 := v1 (fold sum_step vs s) + n, v2 := v2 (fold sum_step vs s) + m\<rparr>"
  using assms
proof (induction vs arbitrary: c s)
  case (Cons x vs)
  show ?case
  proof (cases c)
    case 0
    have "sum_step \<lparr>v1 = v1 x + n, v2 = v2 x + m\<rparr> s
        = (sum_step x s)\<lparr>v1 := v1 (sum_step x s) + n, v2 := v2 (sum_step x s) + m\<rparr>"
      by (simp add: sum_step_def algebra_simps)
    then show ?thesis using 0 sum_step_shift by simp
  next
    case (Suc c')
    then show ?thesis using Cons by simp
  qed
qed simp

text \<open>The counters of the control plane and the offsets at which the data plane counts.\<close>

definition counters :: "((bool \<Rightarrow> cpu_mem \<Rightarrow> lb \<Rightarrow> lb_stats \<times> lb) \<times> u32) list" where
  "counters = [(getLruStats, LRU_CNTRS), (getLruMissStats, LRU_MISS_CNTR),
     (getLruFallbackStats, FALLBACK_LRU_CNTR), (getIcmpTooBigStats, ICMP_TOOBIG_CNTRS),
     (getSrcRoutingStats, LPM_SRC_CNTRS), (getInlineDecapStats, REMOTE_ENCAP_CNTRS),
     (getGlobalLruStats, GLOBAL_LRU_CNTR), (getChDropStats, CH_DROP_STATS), (getDecapStats, DECAP_CNTR),
     (getQuicIcmpStats, QUIC_ICMP_STATS), (getIcmpPtbV6Stats, ICMP_PTB_V6_STATS),
     (getIcmpPtbV4Stats, ICMP_PTB_V4_STATS)]"

lemma readers:
  "(reader, off) \<in> set counters \<Longrightarrow> reader = global_stats off"
  by (auto simp: counters_def getLruStats_def getLruMissStats_def getLruFallbackStats_def
      getIcmpTooBigStats_def getSrcRoutingStats_def getInlineDecapStats_def getGlobalLruStats_def
      getChDropStats_def getDecapStats_def getQuicIcmpStats_def getIcmpPtbV6Stats_def
      getIcmpPtbV4Stats_def const_defs kLruCntrOffset_def kLruMissOffset_def kLruFallbackOffset_def
      kIcmpTooBigOffset_def kLpmSrcOffset_def kInlineDecapOffset_def kGlobalLruOffset_def
      kChDropOffset_def kDecapCounterOffset_def kQuicIcmpOffset_def kIcmpPtbV6Offset_def
      kIcmpPtbV4Offset_def)

text \<open>
  C38: When one CPU counts n packets in v1 and m in v2 at the data plane's offset of a global
  counter, what the control plane reports for that counter, in lookups that the kernel does not
  refuse, is decided by its configuration. In testing mode it reports 0. With the number of VIPs it
  is configured for equal to MAX_VIPS of the data plane, its sum over all CPUs grows by exactly n and m.
  With any other number of VIPs it reads elsewhere in the map and does not see these packets: its
  answer stays the same.
\<close>

theorem counters_agree:
  assumes "(reader, off) \<in> set counters" "c < length mem"
    "\<And>b. b \<in> set mem \<Longrightarrow> stats b (MAX_VIPS + off) \<noteq> None"
  shows "fst (reader False (mem[c := stats_put (MAX_VIPS + off) (add_v2 m)
        (stats_put (MAX_VIPS + off) (add_v1 n) (mem ! c))]) st)
    = (if testing (config st) then \<lparr>v1 = 0, v2 = 0\<rparr>
       else if maxVips (config st) = MAX_VIPS
       then (fst (reader False mem st))\<lparr>v1 := v1 (fst (reader False mem st)) + n,
          v2 := v2 (fst (reader False mem st)) + m\<rparr>
       else fst (reader False mem st))"
proof -
  let ?k = "MAX_VIPS + off"
  let ?b = "stats_put ?k (add_v2 m) (stats_put ?k (add_v1 n) (mem ! c))"
  note r = readers [OF assms(1)]
  let ?vs = "map (\<lambda>b. the (stats b ?k)) mem"
  obtain e where e: "stats (mem ! c) ?k = Some e" using assms(2,3) nth_mem by blast
  have b: "stats ?b ?k = Some \<lparr>v1 = v1 e + n, v2 = v2 e + m\<rparr>"
    by (rule stc.bump_both [OF e])
  have l1: "percpu_lookup stats False ?k mem = Some ?vs"
  proof -
    have "None \<notin> set (map (\<lambda>b. stats b ?k) mem)" using assms(3) by force
    then show ?thesis by (simp add: percpu_lookup_def Let_def comp_def)
  qed
  have "percpu_lookup stats False ?k (mem[c := nb])
      = Some (?vs[c := \<lparr>v1 = v1 (?vs ! c) + n, v2 = v2 (?vs ! c) + m\<rparr>])"
    if nb: "stats nb ?k = Some \<lparr>v1 = v1 e + n, v2 = v2 e + m\<rparr>" for nb
  proof -
    have "stats x ?k \<noteq> None" if "x \<in> set (mem[c := nb])" for x
    proof -
      have "x = nb \<or> x \<in> set mem" using that set_update_subset_insert [of mem c nb] by blast
      then show ?thesis using nb assms(3) by auto
    qed
    then have "None \<notin> set (map (\<lambda>b. stats b ?k) (mem[c := nb]))" by force
    moreover have "map the (map (\<lambda>b. stats b ?k) (mem[c := nb]))
        = ?vs[c := \<lparr>v1 = v1 (?vs ! c) + n, v2 = v2 (?vs ! c) + m\<rparr>]"
      using assms(2) nb e by (simp add: map_update comp_def)
    ultimately show ?thesis by (simp add: percpu_lookup_def Let_def)
  qed
  note l2 = this [OF b]
  have "map (\<lambda>b. stats b p) (mem[c := ?b]) = map (\<lambda>b. stats b p) mem" if "p \<noteq> ?k" for p
    using assms(2) that by (simp add: map_update stc.get_put_other list_update_same_conv)
  then have l3: "percpu_lookup stats False p (mem[c := ?b]) = percpu_lookup stats False p mem" if "p \<noteq> ?k" for p
    using that by (simp add: percpu_lookup_def)
  consider "testing (config st)" | "\<not> testing (config st)" "maxVips (config st) = MAX_VIPS"
    | "\<not> testing (config st)" "maxVips (config st) \<noteq> MAX_VIPS"
    by blast
  then show ?thesis
  proof cases
    case 1
    then show ?thesis
      unfolding r by (simp add: global_stats_def getLbStats_def no_lb_stats_def)
  next
    case 2
    then show ?thesis
      using l1 l2 assms(2) sum_update [of c ?vs n m no_lb_stats] unfolding r
      by (simp add: global_stats_def getLbStats_def)
  next
    case 3
    then show ?thesis
      using l3 [of "maxVips (config st) + off"] unfolding r
      by (simp add: global_stats_def getLbStats_def split: option.splits)
  qed
qed

definition ex_control :: lb where
  "ex_control = (ex_boot (init_bst ref_config []))\<lparr>config := ex_config\<lparr>maxVips := MAX_VIPS\<rparr>\<rparr>"

lemma counters_agree_witness:
  "fst (getLruMissStats False ([init_bst ref_config [], init_bst ref_config []]
      [0 := stats_put (MAX_VIPS + LRU_MISS_CNTR) (add_v2 5)
        (stats_put (MAX_VIPS + LRU_MISS_CNTR) (add_v1 2) ([init_bst ref_config [], init_bst ref_config []] ! 0))])
      ex_control) = \<lparr>v1 = 2, v2 = 5\<rparr>"
proof -
  let ?m = "init_bst ref_config []"
  have s: "stats ?m (MAX_VIPS + LRU_MISS_CNTR) = Some zero_stats"
    by (simp add: init_bst_def zero_array_def ref_config_def const_defs)
  have z: "fst (getLruMissStats False [?m, ?m] ex_control) = \<lparr>v1 = 0, v2 = 0\<rparr>"
    using s by (simp add: getLruMissStats_def global_stats_def getLbStats_def ex_control_def ex_config_def
        percpu_lookup_def kLruMissOffset_def LRU_MISS_CNTR_def sum_step_def no_lb_stats_def zero_stats_def)
  have "(getLruMissStats, LRU_MISS_CNTR) \<in> set counters" by (simp add: counters_def)
  from counters_agree [OF this, where st = ex_control and c = 0 and mem = "[?m, ?m]" and n = 2 and m = 5]
  show ?thesis unfolding z using s by (simp add: ex_control_def ex_config_def)
qed

end
