(* ===== verification/InitProps.thy ===== *)
theory InitProps
  imports LbProps
begin

text \<open>
  Properties of the start-up: attaching is undone when it fails half way, the MAC address that is
  set is the one the data plane reads, cores outside the tables, features that are never found.
\<close>

lemmas op_defs = andThen_def read_st_def modify_st_def ret_def throw_def fatal_def invoke_def only_if_def

section \<open>Attaching\<close>

definition new_calls :: "init_state \<Rightarrow> init_state \<Rightarrow> (call \<times> int) list" where
  "new_calls st st' = drop (length (calls st)) (calls st')"

text \<open>The last call of a list detaches what an accepted call of it attached.\<close>

definition rolled_back :: "(call \<times> int) list \<Rightarrow> bool" where
  "rolled_back cs \<longleftrightarrow>
     (\<forall>fd i fl. (ModifyXdp fd i fl, 0) \<in> set cs \<longrightarrow> fst (last cs) = DetachXdp i fl) \<and>
     (\<forall>root i fd. (UpdateRoot root i fd, 0) \<in> set cs \<longrightarrow> fst (last cs) = DeleteRoot root i)"

text \<open>
  C37: When attachBpfProgs throws, progsAttached is as before and the main program is not left
  attached: if attaching it to its interface, or registering it with the root program, was
  accepted, the last call takes exactly that back.
\<close>

theorem attach_rolls_back:
  assumes "attachBpfProgs a st = (Throw, st')"
  shows "progsAttached st' = progsAttached st \<and> rolled_back (new_calls st st')"
  using assms
  by (auto simp: attachBpfProgs_def attach_main_def detach_main_def must_zero_def ctl_at_def op_defs
      Let_def new_calls_def rolled_back_def split: if_splits)

definition ex_loaded :: init_state where
  "ex_loaded = ex_init\<lparr>progsLoaded := True\<rparr>"

definition ex_tc_fails :: adapter where
  "ex_tc_fails = \<lparr>answer = (\<lambda>n c. case c of AddTcFilter _ _ _ \<Rightarrow> - 1 | _ \<Rightarrow> 0), parse_addr = (\<lambda>s. None)\<rparr>"

lemma ex_init_state:
  "icfg ex_init = ex_init_config\<lparr>hcInterface := ''eth0''\<rparr>" "standalone ex_init" "\<not> progsReloaded ex_init"
  "calls ex_init = []" "length (ctlValues ex_init) = 16"
  by (simp_all add: ex_init_def constructor_def init_members_def init_ctl_def op_defs put_ctl_def resolve_def
      members_def ex_init_config_def kCtlMapSize_def Let_def)

lemma attach_rolls_back_witness:
  "rolled_back (new_calls ex_loaded (snd (attachBpfProgs ex_tc_fails ex_loaded))) \<and>
   fst (attachBpfProgs ex_tc_fails ex_loaded) = Throw"
proof -
  have "fst (attachBpfProgs ex_tc_fails ex_loaded) = Throw"
    by (simp add: attachBpfProgs_def attach_main_def must_zero_def ctl_at_def detach_main_def op_defs Let_def ex_loaded_def
        ex_init_state ex_tc_fails_def ex_init_config_def)
  then have "attachBpfProgs ex_tc_fails ex_loaded = (Throw, snd (attachBpfProgs ex_tc_fails ex_loaded))"
    by (metis prod.collapse)
  from attach_rolls_back [OF this] \<open>fst _ = _\<close> show ?thesis by simp
qed

section \<open>The MAC address\<close>

lemma byte_of_or: "(ucast (drop_bit n (a OR b)) :: u8) = ucast (drop_bit n (a :: u64)) OR ucast (drop_bit n b)"
  by (rule bit_word_eqI) (auto simp: bit_simps)

lemma get_set_mac:
  assumes "length m = 6"
  shows "get_mac (set_mac m c) = m"
proof -
  obtain b0 b1 b2 b3 b4 b5 where m: "m = [b0, b1, b2, b3, b4, b5]"
    using assms by (auto simp: numeral_eq_Suc length_Suc_conv)
  have e: "set_mac m c = (c AND NOT (mask 48)) OR (push_bit 40 (ucast b5) OR (push_bit 32 (ucast b4) OR (push_bit 24 (ucast b3)
      OR (push_bit 16 (ucast b2) OR (push_bit 8 (ucast b1) OR ucast b0)))))"
    by (simp add: set_mac_def m upt_rec ac_simps)
  have "ucast (drop_bit 0 (set_mac m c)) = b0" "ucast (drop_bit 8 (set_mac m c)) = b1"
    "ucast (drop_bit 16 (set_mac m c)) = b2" "ucast (drop_bit 24 (set_mac m c)) = b3"
    "ucast (drop_bit 32 (set_mac m c)) = b4" "ucast (drop_bit 40 (set_mac m c)) = b5"
    unfolding e by (rule bit_word_eqI, auto simp: bit_simps dest: bit_imp_le_length)+
  then show ?thesis by (simp add: get_mac_def m upt_rec)
qed

text \<open>
  After a successful changeMac the control plane's MAC address is the new one, and, outside
  tests, the kernel has accepted a control word with this address for the data plane's entry 0,
  and with direct health checks the same address as their destination.
\<close>

theorem change_mac_takes_effect:
  assumes "changeMac a m st = (Val True, st')" "0 < length (ctlValues st)"
  shows "getMac st' = m \<and> (\<not> i_testing (icfg st) \<longrightarrow>
      (\<exists>c. (UpdateElem ''ctl_array'' 0 (VCtl c), 0) \<in> set (calls st') \<and> get_mac c = m) \<and>
      (directHealthchecking (i_features st) \<longrightarrow>
         (UpdateElem ''hc_pckt_macs'' kHcDstMacPos (VMac m), 0) \<in> set (calls st')))"
proof -
  have l: "length m = 6" using assms(1) by (auto simp: changeMac_def kMacBytes_def op_defs split: if_splits)
  let ?c = "set_mac m (ctlValues st ! 0)"
  have g: "get_mac ?c = m" by (rule get_set_mac [OF l])
  have "ctlValues st' ! 0 = ?c"
    using assms l by (auto simp: changeMac_def kMacBytes_def kMacAddrPos_def count_failure_def op_defs Let_def split: if_splits)
  then have "getMac st' = m" using g by (simp add: getMac_def kMacAddrPos_def)
  moreover have "(UpdateElem ''ctl_array'' 0 (VCtl ?c), 0) \<in> set (calls st') \<and>
      (directHealthchecking (i_features st) \<longrightarrow>
         (UpdateElem ''hc_pckt_macs'' kHcDstMacPos (VMac m), 0) \<in> set (calls st'))" if "\<not> i_testing (icfg st)"
    using assms l g that
    by (auto simp: changeMac_def kMacBytes_def kMacAddrPos_def count_failure_def op_defs Let_def split: if_splits)
  ultimately show ?thesis using g by blast
qed

lemma change_mac_takes_effect_witness:
  "getMac (snd (changeMac ex_adapter [6, 5, 4, 3, 2, 1] ex_loaded)) = [6, 5, 4, 3, 2, 1]"
proof -
  have "changeMac ex_adapter [6, 5, 4, 3, 2, 1] ex_loaded
      = (Val True, snd (changeMac ex_adapter [6, 5, 4, 3, 2, 1] ex_loaded))"
    by (simp add: changeMac_def kMacBytes_def op_defs Let_def ex_adapter_def count_failure_def)
  from change_mac_takes_effect [OF this] show ?thesis by (simp add: ex_loaded_def ex_init_state)
qed

section \<open>Cores\<close>

text \<open>
  A core for which the tables are set up without an exception lies in the vectors of
  descriptors. The source's test also lets the core 128 pass: its table is created, and its
  descriptor is then stored behind the vector, which has 128 elements.
\<close>

theorem init_core_range:
  "(fst (init_core a dbg glru n gn (core, numa) st) = Val () \<longrightarrow> 0 \<le> core \<and> core < 128) \<and>
   (core = 128 \<longrightarrow> (\<exists>r st'. init_core a dbg glru n gn (core, numa) st = (Fatal, st') \<and>
      (\<exists>flags nn. last (calls st') = (CreateLruMap ''vsoshlb_lru'' 128 n flags nn, r))))"
  by (auto simp: init_core_def op_defs createLruMap_def put_fd_def kMaxForwardingCores_def Let_def
      split: if_splits outcome.splits)

lemma init_core_range_witness:
  "fst (init_core ex_adapter False False 8 8 (128, None) ex_init) = Fatal"
  using init_core_range [of ex_adapter False False 8 8 128 None ex_init] by auto

section \<open>Features\<close>

definition local_delivery :: "init_state \<Rightarrow> bool" where
  "local_delivery st = localDeliveryOptimization (i_features st)"

lemma keeps_modify: "(\<And>st. f (g st) = f st) \<Longrightarrow> keeps f (modify_st g)"
  by (simp add: keeps_def modify_st_def)

lemma keeps_invoke: "keeps local_delivery (invoke a c)"
  by (simp add: keeps_def invoke_def local_delivery_def Let_def)

lemma keeps_only_if: "keeps f m \<Longrightarrow> keeps f (only_if b m)"
  by (simp add: only_if_def keeps_basic)

lemma keeps_each: "(\<And>x. keeps f (m x)) \<Longrightarrow> keeps f (each xs m)"
  by (induction xs) (auto intro: keeps_andThen keeps_basic)

lemma keeps_option: "keeps f n \<Longrightarrow> (\<And>x. keeps f (m x)) \<Longrightarrow> keeps f (case q of None \<Rightarrow> n | Some x \<Rightarrow> m x)"
  by (cases q) simp_all

lemmas keeps_intros = keeps_if keeps_andThen keeps_basic keeps_invoke keeps_only_if keeps_each keeps_option

lemma keeps_calls:
  "keeps local_delivery (must_nonneg a c)" "keeps local_delivery (must_zero a c)"
  "keeps local_delivery (in_prog a p m)"
  unfolding must_nonneg_def must_zero_def in_prog_def by (intro keeps_intros)+

lemma keeps_sanity: "keeps local_delivery (initialSanityChecking a b g)"
  unfolding initialSanityChecking_def by (intro keeps_intros keeps_calls)

lemma keeps_discovering: "keeps local_delivery (featureDiscovering a)"
  unfolding featureDiscovering_def
  by (intro keeps_intros keeps_calls keeps_modify) (simp_all add: local_delivery_def)

lemma keeps_put_srcs: "keeps local_delivery (put_srcs a m)"
  unfolding put_srcs_def put_src_def Let_def by (intro keeps_intros keeps_calls)

lemma keeps_gue_setup: "keeps local_delivery (gue_and_recirculation a)"
  unfolding gue_and_recirculation_def setupGueEnvironment_def enableRecirculation_def
  by (intro keeps_intros keeps_calls keeps_put_srcs)

lemma keeps_introspection: "keeps local_delivery (startIntrospectionRoutines a)"
  unfolding startIntrospectionRoutines_def
  by (intro keeps_intros keeps_modify) (simp_all add: local_delivery_def)

lemma keeps_reload: "keeps local_delivery (reloadBalancerProg a p)"
  unfolding reloadBalancerProg_def
  by (intro keeps_intros keeps_sanity keeps_discovering keeps_gue_setup keeps_introspection keeps_modify)
     (simp_all add: local_delivery_def)

lemma keeps_attach: "keeps local_delivery (attach_unless_testing a)"
  unfolding attach_unless_testing_def attachBpfProgs_def attach_main_def detach_main_def ctl_at_def
  by (intro keeps_intros keeps_calls keeps_modify) (simp_all add: local_delivery_def)

lemma andThen_Val:
  "fst (andThen m k st) = Val y \<longleftrightarrow> (\<exists>x st1. m st = (Val x, st1) \<and> fst (k x st1) = Val y)"
  by (auto simp: andThen_def split: outcome.splits prod.splits)

lemma keepsD: "keeps f m \<Longrightarrow> m st = (r, st') \<Longrightarrow> f st' = f st"
  by (metis keeps_def snd_conv)

text \<open>
  No reload discovers local delivery optimization: a balancer that does not have the feature
  never gets it, installFeature does not return true for it, whatever program it is given.
\<close>

theorem local_delivery_never_installed:
  assumes "\<not> hasFeature LocalDeliveryOptimization st"
  shows "fst (installFeature a LocalDeliveryOptimization prog_path st) \<noteq> Val True"
proof
  assume v: "fst (installFeature a LocalDeliveryOptimization prog_path st) = Val True"
  have off: "\<not> local_delivery st" using assms by (simp add: local_delivery_def)
  from v assms have "prog_path \<noteq> ''''" and
    t: "fst (try_reload a prog_path (read_st (hasFeature LocalDeliveryOptimization)) st) = Val True"
    by (auto simp: installFeature_def andThen_def read_st_def ret_def split: if_splits)
  from t obtain ok st1 where r: "reloadBalancerProg a prog_path st = (Val ok, st1)" and
    k: "fst ((if \<not> ok then andThen (reloadBalancerProg a (balancerProgPath (icfg st))) (\<lambda>_. ret False)
       else andThen (attach_unless_testing a) (\<lambda>_. read_st (hasFeature LocalDeliveryOptimization))) st1) = Val True"
    unfolding try_reload_def by (auto simp: andThen_Val read_st_def)
  have off1: "\<not> local_delivery st1" using keepsD [OF keeps_reload r] off by simp
  show False
  proof (cases ok)
    case True
    with k obtain st2 where "attach_unless_testing a st1 = (Val (), st2)"
      "hasFeature LocalDeliveryOptimization st2"
      by (auto simp: andThen_Val read_st_def)
    then show False using keepsD [OF keeps_attach] off1 by (auto simp: local_delivery_def)
  next
    case False
    with k show False by (auto simp: andThen_Val ret_def)
  qed
qed

lemma local_delivery_never_installed_witness:
  "fst (installFeature ex_adapter LocalDeliveryOptimization ''balancer_local.o'' ex_init) \<noteq> Val True"
proof -
  have "\<not> hasFeature LocalDeliveryOptimization ex_init"
    by (simp add: ex_init_def constructor_def init_members_def init_ctl_def op_defs put_ctl_def resolve_def
        members_def ex_init_config_def all_features_off_def Let_def)
  then show ?thesis by (rule local_delivery_never_installed)
qed

end
