(* ===== verification/Decap.thy ===== *)
theory Decap
  imports Encap Lookup
begin

text \<open>
  decap/bpf/decap.bpf.c with the maps of decap/bpf/decap_maps.h: the XDP program on the real
  servers that removes the balancer's outer headers. A variable the program reads without
  assigning it (protocol and inner_protocol, which process_l3_headers no longer sets, the
  header pointers of the decapsulation functions, the packet seen through the data pointers
  after bpf_xdp_adjust_head) and the conditions of the cut if lines are the record
  xd_unread.
\<close>

section \<open>decap\_maps.h\<close>

record decap_stats =
  ds_v4 :: u64
  ds_v6 :: u64
  ds_total :: u64
  ds_tpr_misrouted :: u64
  ds_tpr_total :: u64

record xd_state =
  xd_data :: bytes
  decap_counters :: "u32 \<rightharpoonup> decap_stats"
  tpr_server_id :: "u32 \<rightharpoonup> u32"
  xd_pckt_srcs :: "u32 \<rightharpoonup> real_definition"

record xd_unread =
  xd_protocol :: u8
  xd_inner_protocol :: u8
  xd_new_eth :: nat
  xd_old_eth :: nat
  xd_short_v6 :: bool
  xd_short_v4 :: bool
  xd_host_id_known :: bool
  xd_stale_data :: bytes

definition decap_put :: "(decap_stats \<Rightarrow> decap_stats) \<Rightarrow> xd_state \<Rightarrow> xd_state" where
  "decap_put f st = st\<lparr>decap_counters := upd_entry (decap_counters st) 0 f\<rparr>"

section \<open>The program\<close>

definition xd_l3_headers ::
  "config \<Rightarrow> bytes \<Rightarrow> u8 \<Rightarrow> nat \<Rightarrow> bool \<Rightarrow> packet_description \<Rightarrow> int \<times> packet_description" where
  "xd_l3_headers cfg p protocol off is_ipv6 pckt =
     (if is_ipv6 then
        if off + IP6_HLEN > length p then (XDP_DROP, pckt)
        else if protocol = IPPROTO_FRAGMENT then (XDP_DROP, pckt)
        else (FURTHER_PROCESSING,
              if DECAP_STRICT_DESTINATION cfg
              then pckt\<lparr>flow := (flow pckt)\<lparr>dst := rd_addr6 p (off + 24)\<rparr>\<rparr> else pckt)
      else
        if off + IP_HLEN > length p then (XDP_DROP, pckt)
        else if rd8 p off AND 0x0F \<noteq> 5 then (XDP_DROP, pckt)
        else if has_flag (rd16 p (off + 6)) PCKT_FRAGMENTED then (XDP_DROP, pckt)
        else (FURTHER_PROCESSING,
              if DECAP_STRICT_DESTINATION cfg
              then pckt\<lparr>flow := (flow pckt)\<lparr>dst := set_w0 (rd32 p (off + 16)) (dst (flow pckt))\<rparr>\<rparr>
              else pckt))"

definition xd_check_decap_dst :: "packet_description \<Rightarrow> bool \<Rightarrow> xd_state \<Rightarrow> int" where
  "xd_check_decap_dst pckt is_ipv6 st =
     (if is_ipv6 then
        case xd_pckt_srcs st V6_SRC_INDEX of
          None \<Rightarrow> FURTHER_PROCESSING
        | Some host \<Rightarrow> if real_dst host \<noteq> dst (flow pckt) then XDP_PASS else FURTHER_PROCESSING
      else
        case xd_pckt_srcs st V4_SRC_INDEX of
          None \<Rightarrow> FURTHER_PROCESSING
        | Some host \<Rightarrow> if w0 (real_dst host) \<noteq> w0 (dst (flow pckt)) then XDP_PASS
                       else FURTHER_PROCESSING)"

text \<open>The two process_encaped functions: Stop with a verdict (or a fault), or go on.\<close>

definition xd_after_decap :: "(bool \<times> bytes) option \<Rightarrow> xd_state \<Rightarrow> unit step \<times> xd_state" where
  "xd_after_decap r st =
     (case r of
        None \<Rightarrow> (Stop Fault, st)
      | Some (ok, p) \<Rightarrow> (if ok then Go () else Stop (Verdict XDP_DROP), st\<lparr>xd_data := p\<rparr>))"

definition xd_process_encaped_ipip_pckt :: "config \<Rightarrow> kernel \<Rightarrow> xd_unread \<Rightarrow> bool \<Rightarrow> u8
    \<Rightarrow> xd_state \<Rightarrow> unit step \<times> xd_state" where
  "xd_process_encaped_ipip_pckt cfg k u is_ipv6 protocol st =
     (let p = xd_data st; ne = xd_new_eth u; oe = xd_old_eth u
      in if protocol = IPPROTO_IPIP then
           if is_ipv6 then
             if xd_short_v6 u then (Stop (Verdict XDP_DROP), st)
             else xd_after_decap (decap_v6 cfg k ne oe True p) st
           else
             if xd_short_v4 u then (Stop (Verdict XDP_DROP), st)
             else xd_after_decap (decap_v4 cfg k ne oe p) st
         else if protocol = IPPROTO_IPV6 then
           if xd_short_v6 u then (Stop (Verdict XDP_DROP), st)
           else xd_after_decap (decap_v6 cfg k ne oe False p) st
         else (Go (), st))"

definition xd_process_encaped_gue_pckt :: "config \<Rightarrow> kernel \<Rightarrow> xd_unread \<Rightarrow> bool
    \<Rightarrow> xd_state \<Rightarrow> unit step \<times> xd_state" where
  "xd_process_encaped_gue_pckt cfg k u is_ipv6 st =
     (let p = xd_data st; ne = xd_new_eth u; oe = xd_old_eth u
      in if is_ipv6 then
           let offset = IP6_HLEN + ETH_HLEN + UDP_HLEN
           in if xd_short_v6 u then (Stop (Verdict XDP_DROP), st)
              else if offset \<ge> length p then (Stop Fault, st)
              else
                let v6 = rd8 p offset AND GUEV1_IPV6MASK
                in xd_after_decap (gue_decap_v6 cfg k ne oe (v6 = 0) p) st
         else
           if xd_short_v4 u then (Stop (Verdict XDP_DROP), st)
           else xd_after_decap (gue_decap_v4 cfg k ne oe p) st)"

text \<open>
  tcp_hdr_opt_lookup_server_id never assigns the server_id it is given, so the local stays 0.
\<close>

definition xd_validate_tpr_server_id ::
  "config \<Rightarrow> xd_unread \<Rightarrow> bytes \<Rightarrow> nat \<Rightarrow> bool \<Rightarrow> xd_state \<Rightarrow> xd_state" where
  "xd_validate_tpr_server_id cfg u p off is_ipv6 st =
     (let (c, inner_pckt) = xd_l3_headers cfg p (xd_inner_protocol u) off is_ipv6 zero_pckt
      in if c \<ge> 0 then st
         else if xd_inner_protocol u \<noteq> IPPROTO_TCP then st
         else
           let (ok, inner_pckt) = parse_tcp p is_ipv6 inner_pckt
           in if \<not> ok then st
              else if \<not> has_flag (pflags inner_pckt) F_SYN_SET \<and> xd_host_id_known u then
                let srv = 0 :: u32
                in if srv > 0 then
                     let st = decap_put (\<lambda>s. s\<lparr>ds_tpr_total := ds_tpr_total s + 1\<rparr>) st
                     in if tpr_server_id st 0 \<noteq> Some srv
                        then decap_put (\<lambda>s. s\<lparr>ds_tpr_misrouted := ds_tpr_misrouted s + 1\<rparr>) st else st
                   else st
              else st)"

definition xd_count :: "bool \<Rightarrow> xd_state \<Rightarrow> xd_state" where
  "xd_count is_ipv6 st =
     decap_put (\<lambda>s. s\<lparr>ds_total := ds_total s + 1\<rparr>)
       (decap_put (\<lambda>s. if is_ipv6 then s\<lparr>ds_v6 := ds_v6 s + 1\<rparr> else s\<lparr>ds_v4 := ds_v4 s + 1\<rparr>) st)"

definition xd_strict_check :: "config \<Rightarrow> packet_description \<Rightarrow> bool \<Rightarrow> xd_state \<Rightarrow> int" where
  "xd_strict_check cfg pckt is_ipv6 st =
     (if DECAP_STRICT_DESTINATION cfg then xd_check_decap_dst pckt is_ipv6 st else FURTHER_PROCESSING)"

definition xd_process_packet :: "config \<Rightarrow> kernel \<Rightarrow> xd_unread \<Rightarrow> nat \<Rightarrow> bool
    \<Rightarrow> xd_state \<Rightarrow> outcome \<times> xd_state" where
  "xd_process_packet cfg k u off is_ipv6 st =
     (let (action, pckt) = xd_l3_headers cfg (xd_data st) (xd_protocol u) off is_ipv6 zero_pckt
      in if action \<ge> 0 then (Verdict action, st)
         else
           let protocol = proto (flow pckt)
           in if decap_counters st 0 = None then (Verdict XDP_PASS, st)
              else if protocol = IPPROTO_IPIP \<or> protocol = IPPROTO_IPV6 then
                let action = xd_strict_check cfg pckt is_ipv6 st
                in if action \<ge> 0 then (Verdict action, st)
                   else
                     (case xd_process_encaped_ipip_pckt cfg k u is_ipv6 protocol (xd_count is_ipv6 st) of
                        (Stop out, st) \<Rightarrow> (out, st)
                      | (Go _, st) \<Rightarrow> (Verdict XDP_PASS, st))
              else if INLINE_DECAP_GUE cfg \<and> protocol = IPPROTO_UDP then
                let (ok, pckt) = parse_udp (xd_data st) is_ipv6 pckt
                in if \<not> ok then (Verdict XDP_PASS, st)
                   else if port1 (flow pckt) = bswap16 GUE_DPORT then
                     let action = xd_strict_check cfg pckt is_ipv6 st
                     in if action \<ge> 0 then (Verdict action, st)
                        else
                          (case xd_process_encaped_gue_pckt cfg k u is_ipv6 (xd_count is_ipv6 st) of
                             (Stop out, st) \<Rightarrow> (out, st)
                           | (Go _, st) \<Rightarrow>
                               (Verdict XDP_PASS,
                                xd_validate_tpr_server_id cfg u (xd_stale_data u) off False st))
                   else (Verdict XDP_PASS, st)
              else (Verdict XDP_PASS, st))"

definition xdpdecap :: "config \<Rightarrow> kernel \<Rightarrow> xd_unread \<Rightarrow> xd_state \<Rightarrow> outcome \<times> xd_state" where
  "xdpdecap cfg k u st =
     (let p = xd_data st; nh_off = ETH_HLEN
      in if nh_off > length p then (Verdict XDP_DROP, st)
         else
           let eth_proto = rd16 p 12
           in if eth_proto = BE_ETH_P_IP then xd_process_packet cfg k u nh_off False st
              else if eth_proto = BE_ETH_P_IPV6 then xd_process_packet cfg k u nh_off True st
              else (Verdict XDP_PASS, st))"

section \<open>What the program does\<close>

lemma xd_l3_proto:
  "xd_l3_headers cfg p protocol off v6 pckt = (c, pckt') \<Longrightarrow> proto (flow pckt') = proto (flow pckt)"
  by (auto simp: xd_l3_headers_def split: if_splits)

lemma xd_process_packet_outcome:
  "xd_process_packet cfg k u off v6 st =
     (Verdict (let c = fst (xd_l3_headers cfg (xd_data st) (xd_protocol u) off v6 zero_pckt)
               in if c \<ge> 0 then c else XDP_PASS), st)"
proof -
  obtain c pk where l3: "xd_l3_headers cfg (xd_data st) (xd_protocol u) off v6 zero_pckt = (c, pk)"
    by (metis prod.exhaust)
  have "proto (flow pk) = 0"
    using xd_l3_proto [OF l3] by (simp add: zero_pckt_def zero_flow_def)
  then show ?thesis
    unfolding xd_process_packet_def l3 by (simp add: Let_def const_defs)
qed

text \<open>The headers the program accepts.\<close>

definition xd_good_headers :: "u8 \<Rightarrow> bytes \<Rightarrow> bool" where
  "xd_good_headers protocol p \<longleftrightarrow>
     14 \<le> length p \<and>
     (rd16 p 12 = BE_ETH_P_IP \<longrightarrow> 34 \<le> length p \<and> rd8 p 14 AND 0x0F = 5 \<and>
        \<not> has_flag (rd16 p 20) PCKT_FRAGMENTED) \<and>
     (rd16 p 12 = BE_ETH_P_IPV6 \<longrightarrow> 54 \<le> length p \<and> protocol \<noteq> IPPROTO_FRAGMENT)"

text \<open>
  The decapsulation program never decapsulates: whatever the build, the packet, the maps and the
  indeterminate values are, it leaves the packet and every map unchanged, passes the packets with
  well-formed headers and drops the others. The protocol it compares with is a field of a zeroed
  record which no line fills.
\<close>

theorem xdpdecap_only_filters:
  "xdpdecap cfg k u st =
     (Verdict (if xd_good_headers (xd_protocol u) (xd_data st) then XDP_PASS else XDP_DROP), st)"
proof -
  have p4: "xd_process_packet cfg k u 14 False st = (Verdict
     (if 34 \<le> length (xd_data st) \<and> rd8 (xd_data st) 14 AND 0x0F = 5 \<and>
         \<not> has_flag (rd16 (xd_data st) 20) PCKT_FRAGMENTED then XDP_PASS else XDP_DROP), st)"
    unfolding xd_process_packet_outcome xd_l3_headers_def
    by (simp add: Let_def XDP_DROP_def FURTHER_PROCESSING_def IP_HLEN_def)
  have p6: "xd_process_packet cfg k u 14 True st = (Verdict
     (if 54 \<le> length (xd_data st) \<and> xd_protocol u \<noteq> IPPROTO_FRAGMENT then XDP_PASS else XDP_DROP), st)"
    unfolding xd_process_packet_outcome xd_l3_headers_def
    by (simp add: Let_def XDP_DROP_def FURTHER_PROCESSING_def IP6_HLEN_def)
  show ?thesis
    unfolding xdpdecap_def xd_good_headers_def Let_def ETH_HLEN_def p4 p6
    by (simp add: BE_ETH_P_IP_def BE_ETH_P_IPV6_def not_le not_less)
qed

end
