(* ===== verification/Skb.thy ===== *)
theory Skb
  imports Structs
begin

text \<open>
  The socket buffer of the traffic control programs (struct __sk_buff, as far as the programs
  use it) and the kernel helpers they call on it, with the documented effect of the helpers
  that change the packet. skb_data is what lies between the data and data_end pointers.
\<close>

record skb =
  skb_data :: bytes
  skb_len :: u32
  skb_mark :: u32
  skb_protocol :: u32

text \<open>
  pull_data and adjust_room give the new packet, or None for a call that returned an error;
  every call of bpf_skb_adjust_room uses BPF_ADJ_ROOM_MAC. change_proto is
  bpf_skb_change_proto, whose result the code ignores.
\<close>

record tc_kernel =
  pull_data :: "u32 \<Rightarrow> bytes \<Rightarrow> bytes option"
  adjust_room :: "int \<Rightarrow> u64 \<Rightarrow> bytes \<Rightarrow> bytes option"
  change_proto :: "u16 \<Rightarrow> bytes \<Rightarrow> bytes"
  prandom :: u32

datatype tc_outcome = Tc int | Redirect u32 | Tc_fault

definition TC_ACT_UNSPEC :: int where [const_defs]: "TC_ACT_UNSPEC = - 1"
definition TC_ACT_SHOT :: int where [const_defs]: "TC_ACT_SHOT = 2"
definition BPF_F_ADJ_ROOM_FIXED_GSO :: u64 where [const_defs]: "BPF_F_ADJ_ROOM_FIXED_GSO = 1"
definition BPF_F_ADJ_ROOM_ENCAP_L3_IPV4 :: u64 where [const_defs]: "BPF_F_ADJ_ROOM_ENCAP_L3_IPV4 = 2"
definition BPF_F_ADJ_ROOM_ENCAP_L3_IPV6 :: u64 where [const_defs]: "BPF_F_ADJ_ROOM_ENCAP_L3_IPV6 = 4"
definition BPF_F_ADJ_ROOM_ENCAP_L4_UDP :: u64 where [const_defs]: "BPF_F_ADJ_ROOM_ENCAP_L4_UDP = 16"
definition BPF_F_TUNINFO_IPV6 :: u64 where [const_defs]: "BPF_F_TUNINFO_IPV6 = 1"

text \<open>
  The documented effect of bpf_skb_adjust_room with BPF_ADJ_ROOM_MAC: room is made or removed
  right behind the Ethernet header.
\<close>

definition room_law :: "tc_kernel \<Rightarrow> bool" where
  "room_law k \<longleftrightarrow> (\<forall>d f p q. adjust_room k d f p = Some q \<longrightarrow>
     (0 \<le> d \<longrightarrow> take 14 q = take 14 p \<and> drop (14 + nat d) q = drop 14 p \<and>
        length q = length p + nat d) \<and>
     (d < 0 \<longrightarrow> q = take 14 p @ drop (14 + nat (- d)) p))"

lemma room_law_shrink:
  "room_law k \<Longrightarrow> adjust_room k d f p = Some q \<Longrightarrow> d < 0 \<Longrightarrow>
    q = take 14 p @ drop (14 + nat (- d)) p"
  unfolding room_law_def by blast

lemma room_law_grow:
  "room_law k \<Longrightarrow> adjust_room k d f p = Some q \<Longrightarrow> 0 \<le> d \<Longrightarrow>
    take 14 q = take 14 p \<and> drop (14 + nat d) q = drop 14 p \<and> length q = length p + nat d"
  unfolding room_law_def by blast

definition ref_tc_kernel :: tc_kernel where
  "ref_tc_kernel = \<lparr>
     pull_data = (\<lambda>n p. if unat n \<le> length p then Some p else None),
     adjust_room = (\<lambda>d f p. if 14 \<le> length p
        then Some (if 0 \<le> d then take 14 p @ replicate (nat d) 0 @ drop 14 p
                   else take 14 p @ drop (14 + nat (- d)) p)
        else None),
     change_proto = (\<lambda>e p. p), prandom = 0\<rparr>"

lemma room_law_ref: "room_law ref_tc_kernel"
  by (auto simp: room_law_def ref_tc_kernel_def split: if_splits)

end
