(* ===== verification/TcDecap.thy ===== *)
theory TcDecap
  imports Skb Encap
begin

text \<open>
  decap/tc_bpf: the three traffic control programs of the real servers. tc_decap.bpf.c removes
  GUE headers, tc_decap_info.bpf.c records which outer flow carried an inner flow,
  tc_decap_stats.bpf.c counts decapsulated packets; pckt_helpers.h and tc_decap_kern_helpers.h
  are shared. The conditions of the cut if lines and the variables read before they are assigned
  are arguments.
\<close>

section \<open>pckt\_helpers.h\<close>

definition DECAP_FURTHER_PROCESSING :: int where [const_defs]: "DECAP_FURTHER_PROCESSING = - 2"

text \<open>
  The union of the two header pointers is the offset pa_hdr; it is set even when the packet
  ends before the header does.
\<close>

record pckt_addr_proto =
  pa_hdr :: nat
  pa_proto :: u8

definition get_packet_addr_proto ::
  "bytes \<Rightarrow> nat \<Rightarrow> bool \<Rightarrow> pckt_addr_proto \<Rightarrow> int \<times> pckt_addr_proto" where
  "get_packet_addr_proto p off is_ipv6 pckt =
     (let pckt = pckt\<lparr>pa_hdr := off\<rparr>
      in if is_ipv6 then
           if pa_hdr pckt + IP6_HLEN > length p then (TC_ACT_SHOT, pckt)
           else (DECAP_FURTHER_PROCESSING, pckt\<lparr>pa_proto := rd8 p (off + 6)\<rparr>)
         else
           if pa_hdr pckt + IP_HLEN > length p then (TC_ACT_SHOT, pckt)
           else (DECAP_FURTHER_PROCESSING, pckt\<lparr>pa_proto := rd8 p (off + 9)\<rparr>))"

definition tc_l3_headers :: "bytes \<Rightarrow> nat \<Rightarrow> bool \<Rightarrow> flow_key \<Rightarrow> int \<times> flow_key" where
  "tc_l3_headers p off is_ipv6 f =
     (if is_ipv6 then
        if off + IP6_HLEN > length p then (TC_ACT_SHOT, f)
        else
          let f = f\<lparr>proto := rd8 p (off + 6)\<rparr>
          in if proto f = IPPROTO_FRAGMENT then (TC_ACT_SHOT, f)
             else (DECAP_FURTHER_PROCESSING,
                   f\<lparr>src := rd_addr6 p (off + 8), dst := rd_addr6 p (off + 24)\<rparr>)
      else
        if off + IP_HLEN > length p then (TC_ACT_SHOT, f)
        else if rd8 p off AND 0x0F \<noteq> 5 then (TC_ACT_SHOT, f)
        else
          let f = f\<lparr>proto := rd8 p (off + 9)\<rparr>
          in if has_flag (rd16 p (off + 6)) PCKT_FRAGMENTED then (TC_ACT_SHOT, f)
             else (DECAP_FURTHER_PROCESSING,
                   f\<lparr>src := set_w0 (rd32 p (off + 12)) (src f),
                     dst := set_w0 (rd32 p (off + 16)) (dst f)\<rparr>))"

section \<open>tc\_decap\_kern\_helpers.h\<close>

definition tc_shrink :: "tc_kernel \<Rightarrow> nat \<Rightarrow> bytes \<Rightarrow> bool \<times> bytes" where
  "tc_shrink k adjust_len p =
     (case adjust_room k (- int adjust_len) BPF_F_ADJ_ROOM_FIXED_GSO p of
        None \<Rightarrow> (False, p) | Some q \<Rightarrow> (True, q))"

text \<open>The two IP in IP variants copy through pointers no line assigns; nothing calls them.\<close>

definition tc_decap_v6 ::
  "tc_kernel \<Rightarrow> nat \<Rightarrow> nat \<Rightarrow> bool \<Rightarrow> bytes \<Rightarrow> (bool \<times> bytes) option" where
  "tc_decap_v6 k new_eth old_eth inner_v4 p =
     map_option (tc_shrink k IP6_HLEN)
       (move_eth p new_eth old_eth (if inner_v4 then BE_ETH_P_IP else BE_ETH_P_IPV6))"

definition tc_decap_v4 :: "tc_kernel \<Rightarrow> nat \<Rightarrow> nat \<Rightarrow> bytes \<Rightarrow> (bool \<times> bytes) option" where
  "tc_decap_v4 k new_eth old_eth p =
     map_option (tc_shrink k IP_HLEN) (move_eth p new_eth old_eth BE_ETH_P_IP)"

definition gue_tc_decap_v4 :: "tc_kernel \<Rightarrow> bytes \<Rightarrow> bool \<times> bytes" where
  "gue_tc_decap_v4 k p = tc_shrink k (IP_HLEN + UDP_HLEN) p"

definition gue_tc_decap_v6 :: "tc_kernel \<Rightarrow> bool \<Rightarrow> bytes \<Rightarrow> bool \<times> bytes" where
  "gue_tc_decap_v6 k inner_v4 p =
     (if inner_v4
      then tc_shrink k (IP_HLEN + UDP_HLEN) (change_proto k BE_ETH_P_IP p)
      else tc_shrink k (IP6_HLEN + UDP_HLEN) p)"

section \<open>tc\_decap.bpf.c\<close>

record tc_decap_stats =
  tds_v4 :: u64
  tds_v6 :: u64
  tds_total :: u64

record tc_state =
  tskb :: skb
  tc_decap_counters :: "u32 \<rightharpoonup> tc_decap_stats"

definition tc_data :: "tc_state \<Rightarrow> bytes" where
  "tc_data st = skb_data (tskb st)"

definition tc_set_data :: "bytes \<Rightarrow> tc_state \<Rightarrow> tc_state" where
  "tc_set_data p st = st\<lparr>tskb := (tskb st)\<lparr>skb_data := p\<rparr>\<rparr>"

definition tc_put :: "(tc_decap_stats \<Rightarrow> tc_decap_stats) \<Rightarrow> tc_state \<Rightarrow> tc_state" where
  "tc_put f st = st\<lparr>tc_decap_counters := upd_entry (tc_decap_counters st) 0 f\<rparr>"

text \<open>
  short_v6 and short_v4 are the two cut conditions. Without one a read of the variant byte
  behind the packet is a fault.
\<close>

definition tc_process_encaped_gue_pckt ::
  "tc_kernel \<Rightarrow> bool \<Rightarrow> bool \<Rightarrow> bool \<Rightarrow> tc_state \<Rightarrow> tc_outcome option \<times> tc_state" where
  "tc_process_encaped_gue_pckt k short_v6 short_v4 is_ipv6 st =
     (let p = tc_data st;
          finish = (\<lambda>(ok, q). (if ok then None else Some (Tc TC_ACT_SHOT), tc_set_data q st))
      in if is_ipv6 then
           let offset = IP6_HLEN + ETH_HLEN + UDP_HLEN
           in if short_v6 then (Some (Tc TC_ACT_SHOT), st)
              else if offset \<ge> length p then (Some Tc_fault, st)
              else
                let v6 = rd8 p offset AND GUEV1_IPV6MASK
                in finish (gue_tc_decap_v6 k (v6 = 0) p)
         else
           if short_v4 then (Some (Tc TC_ACT_SHOT), st)
           else finish (gue_tc_decap_v4 k p))"

definition tc_process_packet ::
  "tc_kernel \<Rightarrow> bool \<Rightarrow> bool \<Rightarrow> nat \<Rightarrow> bool \<Rightarrow> tc_state \<Rightarrow> tc_outcome \<times> tc_state" where
  "tc_process_packet k short_v6 short_v4 off is_ipv6 st =
     (let pckt = zero_pckt;
          (action, f) = tc_l3_headers (tc_data st) off is_ipv6 (flow pckt);
          pckt = pckt\<lparr>flow := f\<rparr>
      in if action \<ge> 0 then (Tc action, st)
         else if tc_decap_counters st 0 = None then (Tc TC_ACT_UNSPEC, st)
         else
           let protocol = proto (flow pckt);
               st = tc_put (\<lambda>s. s\<lparr>tds_total := tds_total s + 1\<rparr>) st
           in if protocol = IPPROTO_UDP then
                let (ok, pckt) = parse_udp (tc_data st) is_ipv6 pckt
                in if \<not> ok then (Tc TC_ACT_UNSPEC, st)
                   else if port1 (flow pckt) = bswap16 GUE_DPORT then
                     let st = tc_put (\<lambda>s. if is_ipv6 then s\<lparr>tds_v6 := tds_v6 s + 1\<rparr>
                                          else s\<lparr>tds_v4 := tds_v4 s + 1\<rparr>) st
                     in (case tc_process_encaped_gue_pckt k short_v6 short_v4 is_ipv6 st of
                           (Some out, st) \<Rightarrow> (out, st)
                         | (None, st) \<Rightarrow> (Tc TC_ACT_UNSPEC, st))
                   else (Tc TC_ACT_UNSPEC, st)
              else (Tc TC_ACT_UNSPEC, st))"

definition tc_pull :: "tc_kernel \<Rightarrow> nat \<Rightarrow> tc_state \<Rightarrow> bool \<times> tc_state" where
  "tc_pull k hdr_len st =
     (if hdr_len > length (tc_data st) then
        case pull_data k (of_nat hdr_len) (tc_data st) of
          None \<Rightarrow> (False, st) | Some p \<Rightarrow> (True, tc_set_data p st)
      else (True, st))"

definition tcdecap :: "tc_kernel \<Rightarrow> bool \<Rightarrow> bool \<Rightarrow> tc_state \<Rightarrow> tc_outcome \<times> tc_state" where
  "tcdecap k short_v6 short_v4 st =
     (let nh_off = ETH_HLEN
      in if nh_off > length (tc_data st) then (Tc TC_ACT_SHOT, st)
         else
           let eth_proto = rd16 (tc_data st) 12
           in if eth_proto = BE_ETH_P_IP then
                let (ok, st) = tc_pull k (ETH_HLEN + IP_HLEN + UDP_HLEN + 1) st
                in if \<not> ok then (Tc TC_ACT_UNSPEC, st)
                   else tc_process_packet k short_v6 short_v4 nh_off False st
              else if eth_proto = BE_ETH_P_IPV6 then
                let (ok, st) = tc_pull k (ETH_HLEN + IP6_HLEN + UDP_HLEN + 1) st
                in if \<not> ok then (Tc TC_ACT_UNSPEC, st)
                   else tc_process_packet k short_v6 short_v4 nh_off True st
              else (Tc TC_ACT_UNSPEC, st))"

section \<open>tc\_decap\_info.bpf.c\<close>

text \<open>
  encap_update is bpf_map_update_elem on the LRU map pkt_encap_info; None is an error. hdr_len
  of tcdecapinfo, passed on as gue_offset, is never assigned: it is the argument gue_offset;
  hdr_len of pull_gue_layer is the argument own_len. is_outer_ipv6, is_inner_ipv6,
  is_inner_udp and inner_ip_offset keep their initial values, since no line assigns them.
\<close>

record info_state =
  iskb :: skb
  pkt_encap_info :: "flow_key \<rightharpoonup> flow_key"

type_synonym encap_update = "(flow_key \<rightharpoonup> flow_key) \<Rightarrow> flow_key \<Rightarrow> flow_key \<Rightarrow> (flow_key \<rightharpoonup> flow_key) option"

definition parse_inner_udp :: "bytes \<Rightarrow> nat \<Rightarrow> bool \<Rightarrow> flow_key \<Rightarrow> bool \<times> flow_key" where
  "parse_inner_udp p inner_offset is_inner_ipv6 f =
     (let off = inner_offset + (if is_inner_ipv6 then IP6_HLEN else IP_HLEN)
      in if off + UDP_HLEN > length p then (False, f)
         else (True, f\<lparr>port0 := rd16 p off, port1 := rd16 p (off + 2)\<rparr>))"

definition parse_inner_tcp :: "bytes \<Rightarrow> nat \<Rightarrow> bool \<Rightarrow> flow_key \<Rightarrow> bool \<times> flow_key" where
  "parse_inner_tcp p inner_offset is_inner_ipv6 f =
     (let off = inner_offset + (if is_inner_ipv6 then IP6_HLEN else IP_HLEN)
      in if off + TCP_HLEN > length p then (False, f)
         else (True, f\<lparr>port0 := rd16 p off, port1 := rd16 p (off + 2)\<rparr>))"

definition recorded_ports :: "u16 list" where
  "recorded_ports = [443, 8080, 7123, 7345]"

definition info_process_packet ::
  "encap_update \<Rightarrow> nat \<Rightarrow> bool \<Rightarrow> bool \<Rightarrow> bool \<Rightarrow> info_state \<Rightarrow> tc_outcome \<times> info_state" where
  "info_process_packet upd off is_ipv6 is_inner_ipv6 is_inner_udp st =
     (let p = skb_data (iskb st); pckt = zero_pckt;
          (action, f) = tc_l3_headers p off is_ipv6 (flow pckt);
          pckt = pckt\<lparr>flow := f\<rparr>
      in if action \<ge> 0 then (Tc action, st)
         else
           let off = ETH_HLEN + (if is_ipv6 then IP6_HLEN else IP_HLEN) + UDP_HLEN;
               (action, inner) = tc_l3_headers p off is_inner_ipv6 zero_flow
           in if action \<ge> 0 then (Tc action, st)
              else
                let (ok, inner) =
                      (if is_inner_udp then parse_inner_udp p off is_inner_ipv6 inner
                       else parse_inner_tcp p off is_inner_ipv6 inner)
                in if \<not> ok then (Tc TC_ACT_UNSPEC, st)
                   else if proto (flow pckt) = IPPROTO_UDP then
                     let (ok, pckt) = parse_udp p is_ipv6 pckt
                     in if \<not> ok then (Tc TC_ACT_UNSPEC, st)
                        else if port1 (flow pckt) = bswap16 GUE_DPORT \<and>
                             port1 inner \<in> bswap16 ` set recorded_ports then
                          (case upd (pkt_encap_info st) inner (flow pckt) of
                             None \<Rightarrow> (Tc TC_ACT_UNSPEC, st)
                           | Some m \<Rightarrow> (Tc TC_ACT_UNSPEC, st\<lparr>pkt_encap_info := m\<rparr>))
                        else (Tc TC_ACT_UNSPEC, st)
                   else (Tc TC_ACT_UNSPEC, st))"

text \<open>A pull stage: its code (DECAP_FURTHER_PROCESSING goes on) and the skb data after it.\<close>

definition pull_gue_layer :: "tc_kernel \<Rightarrow> u32 \<Rightarrow> u32 \<Rightarrow> bytes \<Rightarrow> tc_outcome \<times> bytes" where
  "pull_gue_layer k own_len gue_offset p =
     (let nh_off = ETH_HLEN
      in if nh_off > length p then (Tc TC_ACT_SHOT, p)
         else
           let eth_proto = rd16 p 12
           in if eth_proto \<noteq> BE_ETH_P_IP \<and> eth_proto \<noteq> BE_ETH_P_IPV6 then (Tc TC_ACT_UNSPEC, p)
              else
                case pull_data k (gue_offset + 1) p of
                  None \<Rightarrow> (Tc TC_ACT_UNSPEC, p)
                | Some p \<Rightarrow>
                    if unat own_len + 1 > length p then (Tc TC_ACT_UNSPEC, p)
                    else if nh_off + (if eth_proto = BE_ETH_P_IP then IP_HLEN else IP6_HLEN) > length p
                    then (Tc TC_ACT_SHOT, p)
                    else
                      let outer_protocol =
                            rd8 p (nh_off + (if eth_proto = BE_ETH_P_IP then 9 else 6))
                      in if outer_protocol \<noteq> IPPROTO_UDP then (Tc TC_ACT_UNSPEC, p)
                         else (Tc DECAP_FURTHER_PROCESSING, p))"

definition pull_inner_ip_layer ::
  "tc_kernel \<Rightarrow> bool \<Rightarrow> u32 \<Rightarrow> u32 \<Rightarrow> bytes \<Rightarrow> tc_outcome \<times> bytes" where
  "pull_inner_ip_layer k is_outer_ipv6 gue_offset inner_ip_offset p =
     (let hdr_len = gue_offset
      in if unat hdr_len + 1 > length p then (Tc TC_ACT_UNSPEC, p)
         else
           let (ok, pckt) = parse_udp p is_outer_ipv6 zero_pckt
           in if \<not> ok then (Tc TC_ACT_UNSPEC, p)
              else if port1 (flow pckt) \<noteq> bswap16 GUE_DPORT then (Tc TC_ACT_UNSPEC, p)
              else
                case pull_data k (hdr_len + inner_ip_offset) p of
                  None \<Rightarrow> (Tc TC_ACT_UNSPEC, p)
                | Some p \<Rightarrow> (Tc DECAP_FURTHER_PROCESSING, p))"

text \<open>
  The test if (is_inner_udp) is of the pointer, which is never null. The protocol byte of the
  inner header may lie behind the packet, since the bound checked is inner_ip_offset.
\<close>

definition pull_inner_tp_layer ::
  "tc_kernel \<Rightarrow> u32 \<Rightarrow> u32 \<Rightarrow> bool \<Rightarrow> bytes \<Rightarrow> tc_outcome \<times> bytes" where
  "pull_inner_tp_layer k gue_offset inner_ip_offset is_inner_ipv6 p =
     (let hdr_len = gue_offset;
          field = unat hdr_len + (if is_inner_ipv6 then 6 else 9)
      in if unat hdr_len + unat inner_ip_offset > length p then (Tc TC_ACT_UNSPEC, p)
         else if field \<ge> length p then (Tc_fault, p)
         else
           let inner_protocol = rd8 p field
           in if inner_protocol \<noteq> IPPROTO_UDP \<and> inner_protocol \<noteq> IPPROTO_TCP
              then (Tc TC_ACT_UNSPEC, p)
              else
                let inner_tp_offset = of_nat UDP_HLEN
                in case pull_data k (hdr_len + inner_ip_offset + inner_tp_offset) p of
                     None \<Rightarrow> (Tc TC_ACT_UNSPEC, p)
                   | Some p \<Rightarrow> (Tc DECAP_FURTHER_PROCESSING, p))"

definition tcdecapinfo ::
  "tc_kernel \<Rightarrow> encap_update \<Rightarrow> u32 \<Rightarrow> u32 \<Rightarrow> info_state \<Rightarrow> tc_outcome \<times> info_state" where
  "tcdecapinfo k upd own_len gue_offset st =
     (let go = Tc DECAP_FURTHER_PROCESSING;
          put = (\<lambda>p st. st\<lparr>iskb := (iskb st)\<lparr>skb_data := p\<rparr>\<rparr>);
          (ret, p) = pull_gue_layer k own_len gue_offset (skb_data (iskb st)); st = put p st
      in if ret \<noteq> go then (ret, st)
         else
           let (ret, p) = pull_inner_ip_layer k False gue_offset 0 p; st = put p st
           in if ret \<noteq> go then (ret, st)
              else
                let (ret, p) = pull_inner_tp_layer k gue_offset 0 False p; st = put p st
                in if ret \<noteq> go then (ret, st)
                   else info_process_packet upd ETH_HLEN False False False st)"

section \<open>tc\_decap\_stats.bpf.c\<close>

record decap_tpr_stats =
  dts_misrouted :: u64
  dts_total :: u64

record vip_decap_stats =
  vds_v4 :: u64
  vds_v6 :: u64

record stats_state =
  sskb :: skb
  tc_tpr_stats :: "u32 \<rightharpoonup> decap_tpr_stats"
  tpr_server_ids :: "u32 \<rightharpoonup> u32"
  tpr_mism_sid :: "u32 \<rightharpoonup> u64"
  tc_vip6_info :: "addr \<rightharpoonup> u8"
  tc_vip4_info :: "u32 \<rightharpoonup> u8"
  tc_vip_stats :: "u32 \<rightharpoonup> vip_decap_stats"

record stats_config =
  DECAP_TPR_STATS :: bool
  DECAP_VIP_STATS :: bool

definition dts_put :: "(decap_tpr_stats \<Rightarrow> decap_tpr_stats) \<Rightarrow> stats_state \<Rightarrow> stats_state" where
  "dts_put f st = st\<lparr>tc_tpr_stats := upd_entry (tc_tpr_stats st) 0 f\<rparr>"

text \<open>
  found0 and found1 are the two cut tests of the configured server ids. The local server_id
  stays 0, since the lookup of the TCP option never assigns it; the line which would store a
  sample of a mismatched id is cut.
\<close>

definition tc_validate_tpr_server_id ::
  "bool \<Rightarrow> bool \<Rightarrow> bytes \<Rightarrow> bool \<Rightarrow> stats_state \<Rightarrow> stats_state" where
  "tc_validate_tpr_server_id found0 found1 p is_ipv6 st =
     (let (ok, pckt) = parse_tcp p is_ipv6 zero_pckt
      in if \<not> ok then st
         else if \<not> has_flag (pflags pckt) F_SYN_SET \<and> (found0 \<or> found1) then
           let srv = 0 :: u32
           in if srv > 0 then
                let st = dts_put (\<lambda>s. s\<lparr>dts_total := dts_total s + 1\<rparr>) st
                in if (\<not> found0 \<or> tpr_server_ids st 0 \<noteq> Some srv) \<and>
                      (\<not> found1 \<or> tpr_server_ids st 1 \<noteq> Some srv)
                   then dts_put (\<lambda>s. s\<lparr>dts_misrouted := dts_misrouted s + 1\<rparr>) st
                   else st
              else st
         else st)"

definition incr_vip_stats :: "u8 \<Rightarrow> bool \<Rightarrow> stats_state \<Rightarrow> stats_state" where
  "incr_vip_stats prot is_ipv6 st =
     (let key = (if prot = IPPROTO_TCP then 0 else 1)
      in st\<lparr>tc_vip_stats := upd_entry (tc_vip_stats st) key
              (\<lambda>s. if is_ipv6 then s\<lparr>vds_v6 := vds_v6 s + 1\<rparr> else s\<lparr>vds_v4 := vds_v4 s + 1\<rparr>)\<rparr>)"

definition tc_incr_decap_vip_stats ::
  "bytes \<Rightarrow> pckt_addr_proto \<Rightarrow> bool \<Rightarrow> stats_state \<Rightarrow> stats_state" where
  "tc_incr_decap_vip_stats p pckt is_ipv6 st =
     (let off = pa_hdr pckt
      in if off + (if is_ipv6 then IP6_HLEN else IP_HLEN) > length p then st
         else
           case (if is_ipv6 then tc_vip6_info st (rd_addr6 p (off + 24))
                 else tc_vip4_info st (rd32 p (off + 16))) of
             None \<Rightarrow> st
           | Some proto_mask \<Rightarrow>
               if pa_proto pckt = IPPROTO_TCP \<and> has_flag proto_mask 1
               then incr_vip_stats (pa_proto pckt) is_ipv6 st
               else if pa_proto pckt = IPPROTO_UDP \<and> has_flag proto_mask 2
               then incr_vip_stats (pa_proto pckt) is_ipv6 st
               else st)"

definition stats_process_packet ::
  "stats_config \<Rightarrow> bool \<Rightarrow> bool \<Rightarrow> nat \<Rightarrow> bool \<Rightarrow> stats_state \<Rightarrow> tc_outcome \<times> stats_state" where
  "stats_process_packet cfg found0 found1 off is_ipv6 st =
     (let p = skb_data (sskb st)
      in if tc_tpr_stats st 0 = None then (Tc TC_ACT_UNSPEC, st)
         else
           let (c, pckt_info) = get_packet_addr_proto p off is_ipv6 \<lparr>pa_hdr = 0, pa_proto = 0\<rparr>
           in if c \<noteq> DECAP_FURTHER_PROCESSING then (Tc TC_ACT_UNSPEC, st)
              else
                let st = (if DECAP_TPR_STATS cfg \<and> pa_proto pckt_info = IPPROTO_TCP
                          then tc_validate_tpr_server_id found0 found1 p is_ipv6 st else st);
                    st = (if DECAP_VIP_STATS cfg then tc_incr_decap_vip_stats p pckt_info is_ipv6 st
                          else st)
                in (Tc TC_ACT_UNSPEC, st))"

definition tcdecapstats :: "stats_config \<Rightarrow> bool \<Rightarrow> bool \<Rightarrow> stats_state \<Rightarrow> tc_outcome \<times> stats_state" where
  "tcdecapstats cfg found0 found1 st =
     (let nh_off = ETH_HLEN
      in if nh_off > length (skb_data (sskb st)) then (Tc TC_ACT_UNSPEC, st)
         else
           let eth_proto = skb_protocol (sskb st)
           in if eth_proto = ucast BE_ETH_P_IP then stats_process_packet cfg found0 found1 nh_off False st
              else if eth_proto = ucast BE_ETH_P_IPV6 then stats_process_packet cfg found0 found1 nh_off True st
              else (Tc TC_ACT_UNSPEC, st))"

end
