(* ===== verification/TcDecapProps.thy ===== *)
theory TcDecapProps
  imports TcDecap
begin

text \<open>
  The traffic control decapsulation against the balancer's GUE encapsulation: the shape of an
  encapsulated packet, and the programs on such a packet.
\<close>

section \<open>GUE encapsulation\<close>

text \<open>The outer IPv4 and UDP headers of GUE in front of the packet of the client.\<close>

lemma gue_encap_v4_shape:
  assumes "head_law k" and "gue_encap_v4 cfg k rem_ret add_ret cval pckt real n st = (True, q)"
  shows "encapsulates 28 BE_ETH_P_IP cval (xdata st) q"
    and "\<exists>s. is_v4_hdr q 14 (tos pckt) s (w0 (real_dst real)) (ucast (n + 8) + 20) 17"
    and "rd16 q 36 = bswap16 GUE_DPORT"
proof -
  obtain srcr where sv: "pckt_srcs st V4_SRC_INDEX = Some srcr"
    using assms(2) by (auto simp: gue_encap_v4_def Let_def split: option.splits)
  obtain r where r: "XDP_ADJUST_HEAD_FUNC cfg k (- int 28) (xdata st) = (False, r)"
    using assms(2) sv
    by (cases "XDP_ADJUST_HEAD_FUNC cfg k (- int 28) (xdata st)")
       (auto simp: gue_encap_v4_def Let_def IP_HLEN_def UDP_HLEN_def split: if_splits)
  have len: "42 \<le> length r"
    using assms(2) sv r
    by (auto simp: gue_encap_v4_def Let_def IP_HLEN_def UDP_HLEN_def ETH_HLEN_def not_less
        split: if_splits)
  define sport where "sport = bswap16 (port0 (flow pckt)) XOR
    ucast (drop_bit 16 (w0 (src (flow pckt))) AND 0xFFFF)"
  define p1 where "p1 = create_udp_hdr (new_eth_hdr r cval 28 BE_ETH_P_IP) 34 sport GUE_DPORT (ucast (n + 8)) 0"
  define p0 where "p0 = create_v4_hdr p1 14 (tos pckt) (w0 (real_dst srcr)) (w0 (real_dst real)) (ucast (n + 8)) 17"
  have q0: "q = p0 \<or> q = wr p0 40 (le16 0)"
    using assms(2) sv r len unfolding gue_encap_v4_def p0_def p1_def sport_def
    by (simp add: Let_def IP_HLEN_def UDP_HLEN_def ETH_HLEN_def IPPROTO_UDP_def split: if_splits)
  have e: "encapsulates 28 BE_ETH_P_IP cval (xdata st) (new_eth_hdr r cval 28 BE_ETH_P_IP)"
    by (rule encapsulates_new_eth [OF assms(1) r]) (use len in simp_all)
  have e1: "encapsulates 28 BE_ETH_P_IP cval (xdata st) p1"
    using e len unfolding p1_def encapsulates_def create_udp_hdr_def Let_def by (simp add: buf_simps)
  have e0: "encapsulates 28 BE_ETH_P_IP cval (xdata st) p0"
    using e1 len unfolding p0_def encapsulates_def create_v4_hdr_def Let_def by (simp add: buf_simps)
  have l: "length p0 = length r" "length p1 = length r"
    by (simp_all add: p0_def p1_def)
  show "encapsulates 28 BE_ETH_P_IP cval (xdata st) q"
    using q0 e0 by (auto simp: encapsulates_def buf_simps)
  have h: "is_v4_hdr p0 14 (tos pckt) (w0 (real_dst srcr)) (w0 (real_dst real)) (ucast (n + 8) + 20) 17"
    unfolding p0_def by (rule is_v4_hdr_create) (use len l in simp)
  then show "\<exists>s. is_v4_hdr q 14 (tos pckt) s (w0 (real_dst real)) (ucast (n + 8) + 20) 17"
    using q0 by (auto simp: is_v4_hdr_def buf_simps)
  have "rd16 p1 36 = bswap16 GUE_DPORT"
    using create_udp_hdr_fields(2) [of 34 "new_eth_hdr r cval 28 BE_ETH_P_IP" p1] len
    by (simp add: p1_def)
  then have "rd16 p0 36 = bswap16 GUE_DPORT"
    unfolding p0_def create_v4_hdr_def Let_def by (simp add: buf_simps IP_HLEN_def)
  then show "rd16 q 36 = bswap16 GUE_DPORT"
    using q0 by (auto simp: buf_simps)
qed

section \<open>Decapsulation\<close>

lemma and_0f: "(0x45 :: u8) AND 0x0F = 5"
  by code_simp

text \<open>
  C16: the traffic control program undoes the balancer's GUE encapsulation. On the packet that
  gue_encap_v4 built for an IPv4 real, with the kernel helpers doing what they document, it
  passes on a packet whose bytes behind the Ethernet header are those of the client's packet,
  and counts one packet and one IPv4 decapsulation.
\<close>

theorem tcdecap_gue_roundtrip:
  assumes "head_law k" and "room_law tk"
    and "gue_encap_v4 cfg k rem_ret add_ret cval pckt real n st = (True, q)"
    and "15 \<le> length (xdata st)"
    and "tc_data ts = q" and "tc_decap_counters ts 0 = Some s"
    and "adjust_room tk (- 28) BPF_F_ADJ_ROOM_FIXED_GSO q \<noteq> None"
  shows "\<exists>ts'. tcdecap tk short_v6 False ts = (Tc TC_ACT_UNSPEC, ts') \<and>
    drop 14 (tc_data ts') = drop 14 (xdata st) \<and>
    tc_decap_counters ts' 0 = Some (s\<lparr>tds_total := tds_total s + 1, tds_v4 := tds_v4 s + 1\<rparr>)"
proof -
  note enc = gue_encap_v4_shape [OF assms(1,3)]
  obtain d where hdr: "is_v4_hdr q 14 (tos pckt) d (w0 (real_dst real)) (ucast (n + 8) + 20) 17"
    using enc(2) by blast
  have len: "length q = 28 + length (xdata st)" and tail: "drop 42 q = drop 14 (xdata st)"
    and eth: "rd16 q 12 = BE_ETH_P_IP"
    using enc(1) by (simp_all add: encapsulates_def)
  obtain r where r: "adjust_room tk (- 28) BPF_F_ADJ_ROOM_FIXED_GSO q = Some r"
    using assms(7) by blast
  then have rq: "r = take 14 q @ drop 42 q"
    using room_law_shrink [OF assms(2) r] by simp
  have l3: "\<exists>f. tc_l3_headers q 14 False zero_flow = (DECAP_FURTHER_PROCESSING, f) \<and> proto f = IPPROTO_UDP"
    using hdr len assms(4)
    by (simp add: tc_l3_headers_def is_v4_hdr_def Let_def and_0f has_flag_def IP_HLEN_def IPPROTO_UDP_def)
  then obtain f where f: "tc_l3_headers q 14 False zero_flow = (DECAP_FURTHER_PROCESSING, f)"
    "proto f = IPPROTO_UDP" by blast
  have udp: "\<exists>pk. parse_udp q False (zero_pckt\<lparr>flow := f\<rparr>) = (True, pk) \<and> port1 (flow pk) = bswap16 GUE_DPORT"
    using len assms(4) enc(3)
    by (simp add: parse_udp_def calc_offset_def Let_def zero_pckt_def has_flag_def ETH_HLEN_def IP_HLEN_def UDP_HLEN_def)
  then obtain pk where pk: "parse_udp q False (zero_pckt\<lparr>flow := f\<rparr>) = (True, pk)"
    "port1 (flow pk) = bswap16 GUE_DPORT" by blast
  have pull: "tc_pull tk 43 ts = (True, ts)"
    using assms(4,5) len by (simp add: tc_pull_def)
  show ?thesis
    using f pk pull r rq tail eth assms(4,5,6) len
    unfolding tcdecap_def tc_process_packet_def tc_process_encaped_gue_pckt_def gue_tc_decap_v4_def
      tc_shrink_def
    by (simp add: Let_def tc_put_def tc_data_def tc_set_data_def ETH_HLEN_def IP_HLEN_def UDP_HLEN_def
        DECAP_FURTHER_PROCESSING_def map_upd_simps zero_pckt_def)
qed

definition ex_gue_bst :: bst where
  "ex_gue_bst = (init_bst ref_config (replicate 60 1))
     \<lparr>pckt_srcs := [V4_SRC_INDEX \<mapsto> \<lparr>real_dst = Addr 1 0 0 0, real_flags = 0\<rparr>]\<rparr>"

definition ex_gue_packet :: "bool \<times> bytes" where
  "ex_gue_packet = gue_encap_v4 ref_config ref_kernel 0 0 \<lparr>ctl_bits = 7\<rparr> zero_pckt
     \<lparr>real_dst = Addr 10 0 0 0, real_flags = 0\<rparr> 46 ex_gue_bst"

definition ex_tc_state :: tc_state where
  "ex_tc_state = \<lparr>tskb = \<lparr>skb_data = snd ex_gue_packet, skb_len = 88, skb_mark = 0, skb_protocol = 8\<rparr>,
     tc_decap_counters = [0 \<mapsto> \<lparr>tds_v4 = 0, tds_v6 = 0, tds_total = 0\<rparr>]\<rparr>"

theorem tcdecap_gue_roundtrip_witness:
  "\<exists>ts'. tcdecap ref_tc_kernel False False ex_tc_state = (Tc TC_ACT_UNSPEC, ts') \<and>
    drop 14 (tc_data ts') = replicate 46 1"
proof -
  have "fst ex_gue_packet"
    by code_simp
  then have e: "ex_gue_packet = (True, snd ex_gue_packet)"
    using pair_of_fst by metis
  have l: "xdata ex_gue_bst = replicate 60 1"
    by (simp add: ex_gue_bst_def init_bst_def)
  have "14 \<le> length (snd ex_gue_packet)"
    by code_simp
  then have a: "adjust_room ref_tc_kernel (- 28) BPF_F_ADJ_ROOM_FIXED_GSO (snd ex_gue_packet) \<noteq> None"
    by (simp add: ref_tc_kernel_def)
  have "drop 14 (xdata ex_gue_bst) = replicate 46 1"
    by (simp add: l)
  then show ?thesis
    using tcdecap_gue_roundtrip [OF head_law_ref room_law_ref e [unfolded ex_gue_packet_def]
        _ _ _ a [unfolded ex_gue_packet_def], of ex_tc_state "\<lparr>tds_v4 = 0, tds_v6 = 0, tds_total = 0\<rparr>" False]
    by (auto simp: l ex_tc_state_def tc_data_def ex_gue_packet_def)
qed

section \<open>The recording program\<close>

definition v4_flow_at :: "bytes \<Rightarrow> nat \<Rightarrow> nat \<Rightarrow> flow_key" where
  "v4_flow_at p ip tp = \<lparr>src = Addr (rd32 p (ip + 12)) 0 0 0, dst = Addr (rd32 p (ip + 16)) 0 0 0,
     port0 = rd16 p tp, port1 = rd16 p (tp + 2), proto = rd8 p (ip + 9)\<rparr>"

lemma v4_flow_at_sel [simp]:
  "port1 (v4_flow_at p a b) = rd16 p (b + 2)" "proto (v4_flow_at p a b) = rd8 p (a + 9)"
  by (simp_all add: v4_flow_at_def)

lemma tc_l3_v4:
  assumes "tc_l3_headers p off False zero_flow = (c, f)" "\<not> c \<ge> 0"
  shows "f\<lparr>port0 := rd16 p tp, port1 := rd16 p (tp + 2)\<rparr> = v4_flow_at p off tp \<and> off + 20 \<le> length p"
  using assms
  by (auto simp: tc_l3_headers_def Let_def v4_flow_at_def zero_flow_def zero_addr_def set_w0_def
      TC_ACT_SHOT_def IP_HLEN_def not_less split: if_splits)

text \<open>
  What tcdecapinfo records, for every packet and every value of its unassigned variables: it
  never drops through the map update, and an entry it writes maps the IPv4 flow read at offset 42
  to the IPv4 flow of the outer headers, which are UDP to the GUE port, for an inner destination
  port of the fixed list. An IPv6 header is never looked at as one.
\<close>

theorem tcdecapinfo_records_v4:
  assumes "tcdecapinfo k (\<lambda>m f o'. Some (m(f \<mapsto> o'))) own_len gue_offset st = (out, st')"
    and "pkt_encap_info st' \<noteq> pkt_encap_info st"
  shows "let p = skb_data (iskb st') in
    pkt_encap_info st' = (pkt_encap_info st)(v4_flow_at p 42 62 \<mapsto> v4_flow_at p 14 34) \<and>
    82 \<le> length p \<and> rd8 p 23 = IPPROTO_UDP \<and> rd16 p 36 = bswap16 GUE_DPORT \<and>
    rd16 p 64 \<in> bswap16 ` set recorded_ports \<and> out = Tc TC_ACT_UNSPEC"
proof -
  obtain s where s: "info_process_packet (\<lambda>m f o'. Some (m(f \<mapsto> o'))) 14 False False False s = (out, st')"
    and m: "pkt_encap_info s = pkt_encap_info st"
    using assms
    by (auto simp: tcdecapinfo_def Let_def ETH_HLEN_def split: prod.splits if_splits)
  define p where "p = skb_data (iskb s)"
  obtain c f where l3: "tc_l3_headers p 14 False zero_flow = (c, f)"
    by (metis prod.exhaust)
  obtain c' g where l3': "tc_l3_headers p 42 False zero_flow = (c', g)"
    by (metis prod.exhaust)
  note step = s [unfolded info_process_packet_def, folded p_def]
  have neg: "\<not> c \<ge> 0" "\<not> c' \<ge> 0"
    using step l3 l3' assms(2) m
    by (auto simp: Let_def zero_pckt_def ETH_HLEN_def IP_HLEN_def UDP_HLEN_def split: if_splits)
  note f = tc_l3_v4 [OF l3 neg(1), of 34] and g = tc_l3_v4 [OF l3' neg(2), of 62]
  have pf: "proto f = rd8 p 23"
    using arg_cong [OF conjunct1 [OF f], of proto] by (simp add: v4_flow_at_def)
  have p': "skb_data (iskb st') = p"
    using step l3 l3' neg
    by (auto simp: Let_def zero_pckt_def p_def split: if_splits prod.splits option.splits)
  show ?thesis
    unfolding p' Let_def
    using step l3 l3' neg f g pf assms(2) m
    by (auto simp: Let_def zero_pckt_def ETH_HLEN_def IP_HLEN_def UDP_HLEN_def TCP_HLEN_def
        parse_inner_tcp_def parse_udp_def calc_offset_def has_flag_def set_ports_def not_less
        split: if_splits)
qed

definition ex_info_packet :: bytes where
  "ex_info_packet = replicate 12 0 @ [8, 0] @
     [0x45, 0, 0, 0, 0, 0, 0, 0, 64, 17, 0, 0, 10, 0, 0, 1, 10, 0, 0, 2] @
     [1, 2, 0x17, 0xC0, 0, 0, 0, 0] @
     [0x45, 0, 0, 0, 0, 0, 0, 0, 64, 6, 0, 0, 192, 168, 0, 1, 192, 168, 0, 2] @
     [9, 9, 1, 0xBB] @ replicate 16 0"

definition ex_info_state :: info_state where
  "ex_info_state = \<lparr>iskb = \<lparr>skb_data = ex_info_packet, skb_len = 82, skb_mark = 0, skb_protocol = 8\<rparr>,
     pkt_encap_info = Map.empty\<rparr>"

theorem tcdecapinfo_records_v4_witness:
  "pkt_encap_info (snd (tcdecapinfo ref_tc_kernel (\<lambda>m f o'. Some (m(f \<mapsto> o'))) 42 42 ex_info_state)) =
     [v4_flow_at ex_info_packet 42 62 \<mapsto> v4_flow_at ex_info_packet 14 34]"
proof -
  let ?r = "tcdecapinfo ref_tc_kernel (\<lambda>m f o'. Some (m(f \<mapsto> o'))) 42 42 ex_info_state"
  have "skb_data (iskb (snd ?r)) = ex_info_packet"
    by code_simp
  moreover have "pkt_encap_info (snd ?r) (v4_flow_at ex_info_packet 42 62) \<noteq> None"
    by code_simp
  then have "pkt_encap_info (snd ?r) \<noteq> pkt_encap_info ex_info_state"
    by (auto simp: ex_info_state_def)
  ultimately show ?thesis
    using tcdecapinfo_records_v4 [OF surjective_pairing [of ?r]]
    by (simp add: Let_def ex_info_state_def)
qed

section \<open>The counting program\<close>

text \<open>
  The counting program looks on: whatever the packet, the build and its unassigned values
  are, it returns no verdict of its own, changes neither the packet nor a TPR counter (the server
  id it compares is never read from the packet), and the counters of VIP traffic change only for
  a packet to a configured VIP and one of its protocols.
\<close>

theorem tcdecapstats_observes:
  "\<exists>st'. tcdecapstats cfg found0 found1 st = (Tc TC_ACT_UNSPEC, st') \<and> sskb st' = sskb st \<and>
     tc_tpr_stats st' = tc_tpr_stats st \<and> tpr_mism_sid st' = tpr_mism_sid st \<and>
     (tc_vip_stats st' \<noteq> tc_vip_stats st \<longrightarrow> DECAP_VIP_STATS cfg \<and>
        (let p = skb_data (sskb st); v6 = (skb_protocol (sskb st) \<noteq> 8);
             prot = rd8 p (if v6 then 20 else 23)
         in \<exists>m. (if v6 then tc_vip6_info st (rd_addr6 p 38) else tc_vip4_info st (rd32 p 30)) = Some m \<and>
              (prot = IPPROTO_TCP \<and> has_flag m 1 \<or> prot = IPPROTO_UDP \<and> has_flag m 2) \<and>
              st' = incr_vip_stats prot v6 st))"
proof -
  have v: "tc_validate_tpr_server_id a b p v6 s = s" for a b p v6 s
    by (simp add: tc_validate_tpr_server_id_def Let_def split: prod.splits)
  have keep: "sskb (incr_vip_stats a b s) = sskb s" "tc_tpr_stats (incr_vip_stats a b s) = tc_tpr_stats s"
    "tpr_mism_sid (incr_vip_stats a b s) = tpr_mism_sid s" for a b s
    by (simp_all add: incr_vip_stats_def Let_def)
  have "(56710 :: u32) \<noteq> 8" by simp
  then show ?thesis
    unfolding tcdecapstats_def stats_process_packet_def v
    by (simp add: Let_def get_packet_addr_proto_def tc_incr_decap_vip_stats_def keep
        DECAP_FURTHER_PROCESSING_def TC_ACT_SHOT_def BE_ETH_P_IP_def BE_ETH_P_IPV6_def ETH_HLEN_def
        IP_HLEN_def IP6_HLEN_def split: option.splits)
qed

end
