(* ===== verification/HealthCheck.thy ===== *)
theory HealthCheck
  imports Skb Encap
begin

text \<open>
  The health checking programs: lib/bpf/healthchecking.bpf.c with healthchecking_helpers.h
  (direct encapsulation) and lib/bpf/healthchecking_ipip.c (encapsulation by a tunnel
  device), with the structures, constants and maps of the three headers. They run on the
  health checks the host sends, recognised by the mark of the socket.
\<close>

section \<open>healthchecking\_structs.h, healthchecking\_maps.h\<close>

record hc_real_definition =
  hr_daddr :: addr
  hr_flags :: u8

record hc_stats =
  pckts_processed :: u64
  pckts_dropped :: u64
  pckts_skipped :: u64
  pckts_too_big :: u64

record hc_key =
  hk_addr :: addr
  hk_port :: u16
  hk_proto :: u8

definition zero_hc_key :: hc_key where
  "zero_hc_key = \<lparr>hk_addr = zero_addr, hk_port = 0, hk_proto = 0\<rparr>"

record tunnel_key =
  tk_remote :: addr
  tk_ttl :: u8
  tk_flags :: u64

record hc_state =
  hskb :: skb
  hc_stats_map :: "u32 \<rightharpoonup> hc_stats"
  hc_reals_map :: "u32 \<rightharpoonup> hc_real_definition"
  hc_ctrl_map :: "u32 \<rightharpoonup> u32"
  hc_pckt_macs :: "u32 \<rightharpoonup> bytes"
  hc_pckt_srcs_map :: "u32 \<rightharpoonup> hc_real_definition"
  hc_key_map :: "hc_key \<rightharpoonup> u32"
  per_hckey_stats :: "u32 \<rightharpoonup> u64"
  hc_tunnel :: "tunnel_key option"

text \<open>
  HC_MAX_PACKET_SIZE and MANGLE_HC_SRC can be set by the build; HC_ENCAP follows the option
  GUE_ENCAP of the balancer's configuration.
\<close>

record hc_config =
  HC_MAX_PACKET_SIZE :: u32
  MANGLE_HC_SRC :: bool
  HC_GUE_ENCAP :: bool

definition HC_MAIN_INTF_POSITION :: u32 where [const_defs]: "HC_MAIN_INTF_POSITION = 3"
definition MANGLED_HC_SRC_PORT :: u16 where [const_defs]: "MANGLED_HC_SRC_PORT = 31337"
definition V6DADDR :: u8 where [const_defs]: "V6DADDR = 1"
definition HC_SRC_MAC_POS :: u32 where [const_defs]: "HC_SRC_MAC_POS = 0"
definition HC_DST_MAC_POS :: u32 where [const_defs]: "HC_DST_MAC_POS = 1"
definition GUE_CSUM :: u16 where [const_defs]: "GUE_CSUM = 0"

definition hc_data :: "hc_state \<Rightarrow> bytes" where
  "hc_data st = skb_data (hskb st)"

definition hc_set_data :: "bytes \<Rightarrow> hc_state \<Rightarrow> hc_state" where
  "hc_set_data p st = st\<lparr>hskb := (hskb st)\<lparr>skb_data := p\<rparr>\<rparr>"

definition hc_count :: "(hc_stats \<Rightarrow> hc_stats) \<Rightarrow> hc_state \<Rightarrow> hc_state" where
  "hc_count f st = st\<lparr>hc_stats_map := upd_entry (hc_stats_map st) 0 f\<rparr>"

definition hc_processed :: "hc_stats \<Rightarrow> hc_stats" where
  "hc_processed s = s\<lparr>pckts_processed := pckts_processed s + 1\<rparr>"

definition hc_dropped :: "hc_stats \<Rightarrow> hc_stats" where
  "hc_dropped s = s\<lparr>pckts_dropped := pckts_dropped s + 1\<rparr>"

definition hc_skipped :: "hc_stats \<Rightarrow> hc_stats" where
  "hc_skipped s = s\<lparr>pckts_skipped := pckts_skipped s + 1\<rparr>"

definition hc_too_big :: "hc_stats \<Rightarrow> hc_stats" where
  "hc_too_big s = s\<lparr>pckts_too_big := pckts_too_big s + 1\<rparr>"

section \<open>healthchecking\_helpers.h\<close>

text \<open>The key may be half filled when the function returns false.\<close>

definition set_hc_key :: "bytes \<Rightarrow> hc_key \<Rightarrow> bool \<Rightarrow> bool \<times> hc_key" where
  "set_hc_key p hckey is_ipv6 =
     (let iphdr = ETH_HLEN; hlen = (if is_ipv6 then IP6_HLEN else IP_HLEN)
      in if iphdr + hlen > length p then (False, hckey)
         else
           let transport_hdr = iphdr + hlen;
               hckey = (if is_ipv6
                  then hckey\<lparr>hk_addr := rd_addr6 p (iphdr + 24), hk_proto := rd8 p (iphdr + 6)\<rparr>
                  else hckey\<lparr>hk_addr := set_w0 (rd32 p (iphdr + 16)) (hk_addr hckey),
                             hk_proto := rd8 p (iphdr + 9)\<rparr>)
           in if hk_proto hckey = IPPROTO_TCP then
                if transport_hdr + TCP_HLEN > length p then (False, hckey)
                else (True, hckey\<lparr>hk_port := rd16 p (transport_hdr + 2)\<rparr>)
              else if hk_proto hckey = IPPROTO_UDP then
                if transport_hdr + UDP_HLEN > length p then (False, hckey)
                else (True, hckey\<lparr>hk_port := rd16 p (transport_hdr + 2)\<rparr>)
              else (False, hckey))"

text \<open>Room for n bytes of headers behind the Ethernet header; failure is the value None.\<close>

definition hc_make_room :: "tc_kernel \<Rightarrow> nat \<Rightarrow> u64 \<Rightarrow> bytes \<Rightarrow> bool \<times> bytes" where
  "hc_make_room k n flags p =
     (case adjust_room k (int n) flags p of
        None \<Rightarrow> (False, p)
      | Some q \<Rightarrow> if ETH_HLEN + n > length q then (False, q) else (True, q))"

definition hc_encap_ipip ::
  "hc_config \<Rightarrow> tc_kernel \<Rightarrow> hc_real_definition \<Rightarrow> bool \<Rightarrow> hc_state \<Rightarrow> bool \<times> hc_state" where
  "hc_encap_ipip cfg k real is_ipv6 st =
     (let pkt_len = ucast (skb_len (hskb st) - of_nat ETH_HLEN) :: u16; p = hc_data st
      in if hr_flags real = V6DADDR then
           (case hc_pckt_srcs_map st V6_SRC_INDEX of
              None \<Rightarrow> (False, st)
            | Some srcr \<Rightarrow>
                let flags = BPF_F_ADJ_ROOM_FIXED_GSO OR BPF_F_ADJ_ROOM_ENCAP_L3_IPV6;
                    (ok, p) = hc_make_room k IP6_HLEN flags p
                in if \<not> ok then (False, hc_set_data p st)
                   else
                     let p = wr p 12 (le16 BE_ETH_P_IPV6);
                         prot = (if \<not> is_ipv6 then IPPROTO_IPIP else IPPROTO_IPV6);
                         saddr = (if MANGLE_HC_SRC cfg
                                  then create_encap_ipv6_src MANGLED_HC_SRC_PORT (w3 (hr_daddr srcr))
                                  else hr_daddr srcr);
                         p = create_v6_hdr p ETH_HLEN DEFAULT_TOS saddr (hr_daddr real) pkt_len prot
                     in (True, hc_set_data p st))
         else
           (case hc_pckt_srcs_map st V4_SRC_INDEX of
              None \<Rightarrow> (False, st)
            | Some srcr \<Rightarrow>
                let flags = BPF_F_ADJ_ROOM_FIXED_GSO OR BPF_F_ADJ_ROOM_ENCAP_L3_IPV4;
                    (ok, p) = hc_make_room k IP_HLEN flags p
                in if \<not> ok then (False, hc_set_data p st)
                   else
                     let ip_src = (if MANGLE_HC_SRC cfg
                                   then create_encap_ipv4_src MANGLED_HC_SRC_PORT (w0 (hr_daddr srcr))
                                   else w0 (hr_daddr srcr));
                         p = create_v4_hdr p ETH_HLEN DEFAULT_TOS ip_src (w0 (hr_daddr real)) pkt_len
                               IPPROTO_IPIP
                     in (True, hc_set_data p st)))"

definition gue_sport :: "tc_kernel \<Rightarrow> u16" where
  "gue_sport k = (let port = ucast (prandom k) :: u16 in port OR 0x400)"

definition hc_encap_gue ::
  "hc_config \<Rightarrow> tc_kernel \<Rightarrow> hc_real_definition \<Rightarrow> bool \<Rightarrow> hc_state \<Rightarrow> bool \<times> hc_state" where
  "hc_encap_gue cfg k real is_ipv6 st =
     (let pkt_len = ucast (skb_len (hskb st) - of_nat ETH_HLEN) :: u16; p = hc_data st;
          sport = gue_sport k
      in if hr_flags real = V6DADDR then
           (case hc_pckt_srcs_map st V6_SRC_INDEX of
              None \<Rightarrow> (False, st)
            | Some srcr \<Rightarrow>
                let flags = BPF_F_ADJ_ROOM_FIXED_GSO OR BPF_F_ADJ_ROOM_ENCAP_L3_IPV6
                              OR BPF_F_ADJ_ROOM_ENCAP_L4_UDP;
                    (ok, p) = hc_make_room k (IP6_HLEN + UDP_HLEN) flags p
                in if \<not> ok then (False, hc_set_data p st)
                   else
                     let p = wr p 12 (le16 BE_ETH_P_IPV6);
                         pkt_len = pkt_len + of_nat UDP_HLEN;
                         p = create_udp_hdr p (ETH_HLEN + IP6_HLEN) sport GUE_DPORT pkt_len GUE_CSUM;
                         p = create_v6_hdr p ETH_HLEN DEFAULT_TOS (hr_daddr srcr) (hr_daddr real) pkt_len
                               IPPROTO_UDP
                     in (True, hc_set_data p st))
         else
           (case hc_pckt_srcs_map st V4_SRC_INDEX of
              None \<Rightarrow> (False, st)
            | Some srcr \<Rightarrow>
                let flags = BPF_F_ADJ_ROOM_FIXED_GSO OR BPF_F_ADJ_ROOM_ENCAP_L3_IPV4
                              OR BPF_F_ADJ_ROOM_ENCAP_L4_UDP;
                    (ok, p) = hc_make_room k (IP_HLEN + UDP_HLEN) flags p
                in if \<not> ok then (False, hc_set_data p st)
                   else
                     let pkt_len = pkt_len + of_nat UDP_HLEN;
                         p = create_udp_hdr p (ETH_HLEN + IP_HLEN) sport GUE_DPORT pkt_len GUE_CSUM;
                         p = create_v4_hdr p ETH_HLEN DEFAULT_TOS (w0 (hr_daddr srcr)) (w0 (hr_daddr real))
                               pkt_len IPPROTO_UDP
                     in (True, hc_set_data p st)))"

definition HC_ENCAP ::
  "hc_config \<Rightarrow> tc_kernel \<Rightarrow> hc_real_definition \<Rightarrow> bool \<Rightarrow> hc_state \<Rightarrow> bool \<times> hc_state" where
  "HC_ENCAP cfg k real is_ipv6 st =
     (if HC_GUE_ENCAP cfg then hc_encap_gue cfg k real is_ipv6 st
      else hc_encap_ipip cfg k real is_ipv6 st)"

section \<open>healthchecking.bpf.c\<close>

definition hc_drop :: "hc_state \<Rightarrow> tc_outcome \<times> hc_state" where
  "hc_drop st = (Tc TC_ACT_SHOT, hc_count hc_dropped st)"

text \<open>From the encapsulation on. The line which would count the packet for its key is cut.\<close>

definition hc_send :: "hc_config \<Rightarrow> tc_kernel \<Rightarrow> hc_real_definition \<Rightarrow> u32 \<Rightarrow> bytes \<Rightarrow> bytes
    \<Rightarrow> hc_state \<Rightarrow> tc_outcome \<times> hc_state" where
  "hc_send cfg k real ifidx esrc edst st =
     (if ETH_HLEN > length (hc_data st) then hc_drop st
      else
        let is_ipv6 = (rd16 (hc_data st) 12 = BE_ETH_P_IPV6);
            (hc_key_parseable, hckey) = set_hc_key (hc_data st) zero_hc_key is_ipv6;
            st = st\<lparr>hskb := (hskb st)\<lparr>skb_mark := 0\<rparr>\<rparr>;
            (ok, st) = HC_ENCAP cfg k real is_ipv6 st
        in if \<not> ok then hc_drop st
           else if ETH_HLEN > length (hc_data st) then hc_drop st
           else
             let p = wr (hc_data st) 6 esrc;
                 p = wr p 0 edst;
                 st = hc_count hc_processed (hc_set_data p st)
             in (Redirect ifidx, st))"

definition healthcheck_encap :: "hc_config \<Rightarrow> tc_kernel \<Rightarrow> hc_state \<Rightarrow> tc_outcome \<times> hc_state" where
  "healthcheck_encap cfg k st =
     (let somark = skb_mark (hskb st)
      in if hc_stats_map st 0 = None then (Tc TC_ACT_UNSPEC, st)
         else if somark = 0 then (Tc TC_ACT_UNSPEC, hc_count hc_skipped st)
         else
           case hc_reals_map st somark of
             None \<Rightarrow> (Tc TC_ACT_UNSPEC, hc_count hc_skipped st)
           | Some real \<Rightarrow>
               if HC_MAX_PACKET_SIZE cfg > 0 \<and> skb_len (hskb st) > HC_MAX_PACKET_SIZE cfg
               then (Tc TC_ACT_SHOT, hc_count hc_too_big (hc_count hc_dropped st))
               else
                 case hc_ctrl_map st HC_MAIN_INTF_POSITION of
                   None \<Rightarrow> hc_drop st
                 | Some ifidx \<Rightarrow>
                     case hc_pckt_macs st HC_SRC_MAC_POS of
                       None \<Rightarrow> hc_drop st
                     | Some esrc \<Rightarrow>
                         case hc_pckt_macs st HC_DST_MAC_POS of
                           None \<Rightarrow> hc_drop st
                         | Some edst \<Rightarrow> hc_send cfg k real ifidx esrc edst st)"

section \<open>healthchecking\_ipip.c\<close>

text \<open>
  MAX_PACKET_SIZE is 1474 unless the build overrides it. The interface passed to bpf_redirect is
  a variable no line assigns: the argument ifindex.
\<close>

definition MAX_PACKET_SIZE :: u32 where [const_defs]: "MAX_PACKET_SIZE = 1474"

definition ipip_healthcheck_encap :: "u32 \<Rightarrow> hc_state \<Rightarrow> tc_outcome \<times> hc_state" where
  "ipip_healthcheck_encap ifidx st =
     (let somark = skb_mark (hskb st)
      in if hc_stats_map st 0 = None then (Tc TC_ACT_UNSPEC, st)
         else if somark = 0 then (Tc TC_ACT_UNSPEC, hc_count hc_skipped st)
         else
           case hc_reals_map st somark of
             None \<Rightarrow> (Tc TC_ACT_UNSPEC, hc_count hc_skipped st)
           | Some real \<Rightarrow>
               if skb_len (hskb st) > MAX_PACKET_SIZE
               then (Tc TC_ACT_SHOT, hc_count hc_too_big (hc_count hc_dropped st))
               else if hc_ctrl_map st 1 = None then hc_drop st
               else if hc_ctrl_map st 2 = None then hc_drop st
               else
                 let st = st\<lparr>hskb := (hskb st)\<lparr>skb_mark := 0\<rparr>\<rparr>;
                     v6 = (hr_flags real = V6DADDR);
                     tkey = \<lparr>tk_remote = (if v6 then hr_daddr real
                               else set_w0 (w0 (hr_daddr real)) zero_addr),
                             tk_ttl = DEFAULT_TTL,
                             tk_flags = (if v6 then BPF_F_TUNINFO_IPV6 else 0)\<rparr>;
                     st = hc_count hc_processed st
                 in (Redirect ifidx, st\<lparr>hc_tunnel := Some tkey\<rparr>))"

end
