(* ===== verification/HealthCheckProps.thy ===== *)
theory HealthCheckProps
  imports HealthCheck
begin

text \<open>
  The direct health checking program: its counters account for every packet, and a packet it
  redirects is the health check inside the headers of an encapsulation to the real server its
  mark names.
\<close>

section \<open>Counters\<close>

lemma hc_count_sel [simp]:
  "hskb (hc_count f st) = hskb st" "hc_data (hc_count f st) = hc_data st"
  "hc_stats_map (hc_count f st) 0 = map_option f (hc_stats_map st 0)"
  "hc_stats_map (hc_set_data p st) = hc_stats_map st" "hc_data (hc_set_data p st) = p"
  "skb_mark (hskb (hc_set_data p st)) = skb_mark (hskb st)"
  by (simp_all add: hc_count_def hc_set_data_def hc_data_def map_upd_simps)

lemma HC_ENCAP_keeps:
  "HC_ENCAP cfg k real v6 st = (ok, st') \<Longrightarrow> \<exists>p. st' = hc_set_data p st"
proof -
  have "st = hc_set_data (hc_data st) st"
    by (simp add: hc_set_data_def hc_data_def)
  then show "HC_ENCAP cfg k real v6 st = (ok, st') \<Longrightarrow> \<exists>p. st' = hc_set_data p st"
    by (auto simp: HC_ENCAP_def hc_encap_ipip_def hc_encap_gue_def Let_def
        split: if_splits option.splits prod.splits)
qed

lemma hc_send_stats:
  assumes "hc_stats_map st 0 = Some s" and "hc_send cfg k real i esrc edst st = (out, st')"
  shows "(out = Redirect i \<and> hc_stats_map st' 0 = Some (hc_processed s)) \<or>
    (out = Tc TC_ACT_SHOT \<and> hc_stats_map st' 0 = Some (hc_dropped s))"
  using assms(2)
  by (auto simp: hc_send_def hc_drop_def Let_def assms(1) split: if_splits prod.splits
      dest!: HC_ENCAP_keeps)


section \<open>Encapsulation\<close>

text \<open>
  The outer headers: an IPv6 or IPv4 header to the real server, a UDP header for GUE, and behind
  them the packet as it was. The Ethernet type is set for an IPv6 real only.
\<close>

definition hc_overhead :: "hc_config \<Rightarrow> hc_real_definition \<Rightarrow> nat" where
  "hc_overhead cfg real = (if hr_flags real = V6DADDR then 40 else 20) + (if HC_GUE_ENCAP cfg then 8 else 0)"

definition hc_payload_len :: "hc_config \<Rightarrow> hc_state \<Rightarrow> u16" where
  "hc_payload_len cfg st = ucast (skb_len (hskb st) - 14) + (if HC_GUE_ENCAP cfg then 8 else 0)"

definition is_udp_hdr :: "bytes \<Rightarrow> nat \<Rightarrow> u16 \<Rightarrow> u16 \<Rightarrow> u16 \<Rightarrow> bool" where
  "is_udp_hdr q i sport dport len \<longleftrightarrow> rd16 q i = sport \<and> rd16 q (i + 2) = bswap16 dport \<and>
     rd16 q (i + 4) = bswap16 len \<and> rd16 q (i + 6) = 0"

definition hc_outer :: "hc_config \<Rightarrow> tc_kernel \<Rightarrow> hc_real_definition \<Rightarrow> hc_real_definition \<Rightarrow> u16 \<Rightarrow> bool \<Rightarrow> bytes \<Rightarrow> bool" where
  "hc_outer cfg k real srcr len v6 q \<longleftrightarrow>
     (HC_GUE_ENCAP cfg \<longrightarrow> is_udp_hdr q (if hr_flags real = V6DADDR then 54 else 34)
        (ucast (prandom k) OR 0x400) 6080 len) \<and>
     (if hr_flags real = V6DADDR then
        is_v6_hdr q 14 0
          (if MANGLE_HC_SRC cfg \<and> \<not> HC_GUE_ENCAP cfg
           then create_encap_ipv6_src MANGLED_HC_SRC_PORT (w3 (hr_daddr srcr)) else hr_daddr srcr)
          (hr_daddr real) len (if HC_GUE_ENCAP cfg then 17 else if v6 then 41 else 4)
      else
        is_v4_hdr q 14 0
          (if MANGLE_HC_SRC cfg \<and> \<not> HC_GUE_ENCAP cfg
           then create_encap_ipv4_src MANGLED_HC_SRC_PORT (w0 (hr_daddr srcr)) else w0 (hr_daddr srcr))
          (w0 (hr_daddr real)) (len + 20) (if HC_GUE_ENCAP cfg then 17 else 4))"

lemma is_udp_hdr_create:
  assumes "i + 8 \<le> length p"
  shows "is_udp_hdr (create_udp_hdr p i sp dp n 0) i sp dp n"
  using assms by (simp add: is_udp_hdr_def create_udp_hdr_def Let_def buf_simps)

lemma is_udp_hdr_behind:
  "34 \<le> i \<Longrightarrow> is_udp_hdr (create_v4_hdr p 14 t s d n c) i sp dp m = is_udp_hdr p i sp dp m"
  "54 \<le> i \<Longrightarrow> is_udp_hdr (create_v6_hdr p 14 t s' d' n c) i sp dp m = is_udp_hdr p i sp dp m"
  "34 \<le> i \<Longrightarrow> j + length bs \<le> 14 \<Longrightarrow> is_udp_hdr (wr p j bs) i sp dp m = is_udp_hdr p i sp dp m"
  by (simp_all add: is_udp_hdr_def create_v4_hdr_def create_v6_hdr_def Let_def buf_simps)

lemma hc_make_room_ok:
  assumes "room_law k" "hc_make_room k n f p = (True, q)"
  shows "take 14 q = take 14 p" "drop (14 + n) q = drop 14 p" "14 + n \<le> length q"
proof -
  have a: "adjust_room k (int n) f p = Some q" and l: "14 + n \<le> length q"
    using assms(2) by (auto simp: hc_make_room_def ETH_HLEN_def not_less split: option.splits if_splits)
  show "take 14 q = take 14 p" "drop (14 + n) q = drop 14 p"
    using room_law_grow [OF assms(1) a] by simp_all
  show "14 + n \<le> length q"
    by (rule l)
qed

definition hc_src_index :: "hc_real_definition \<Rightarrow> u32" where
  "hc_src_index real = (if hr_flags real = V6DADDR then V6_SRC_INDEX else V4_SRC_INDEX)"

lemma hc_encap_ipip_correct:
  assumes "room_law k" "\<not> HC_GUE_ENCAP cfg" "hc_encap_ipip cfg k real v6 st = (True, st')"
  shows "\<exists>srcr. hc_pckt_srcs_map st (hc_src_index real) = Some srcr \<and>
    hc_outer cfg k real srcr (hc_payload_len cfg st) v6 (hc_data st') \<and>
    drop (14 + hc_overhead cfg real) (hc_data st') = drop 14 (hc_data st) \<and>
    14 + hc_overhead cfg real \<le> length (hc_data st')"
proof (cases "hr_flags real = V6DADDR")
  case True
  obtain srcr q where s: "hc_pckt_srcs_map st V6_SRC_INDEX = Some srcr"
    and r: "hc_make_room k 40 (BPF_F_ADJ_ROOM_FIXED_GSO OR BPF_F_ADJ_ROOM_ENCAP_L3_IPV6) (hc_data st)
      = (True, q)"
    and q: "hc_data st' = create_v6_hdr (wr q 12 (le16 BE_ETH_P_IPV6)) 14 0
      (if MANGLE_HC_SRC cfg then create_encap_ipv6_src MANGLED_HC_SRC_PORT (w3 (hr_daddr srcr))
       else hr_daddr srcr) (hr_daddr real) (ucast (skb_len (hskb st) - 14)) (if v6 then 41 else 4)"
    using assms(3) True
    by (auto simp: hc_encap_ipip_def Let_def IP6_HLEN_def ETH_HLEN_def DEFAULT_TOS_def
        IPPROTO_IPIP_def IPPROTO_IPV6_def split: option.splits prod.splits if_splits)
  note m = hc_make_room_ok [OF assms(1) r]
  have d: "drop 54 (hc_data st') = drop 14 (hc_data st)"
    unfolding q using create_v6_hdr_frame(1) [of 14] m(2) by (simp add: buf_simps)
  show ?thesis
    using True assms(2) s d m(3)
    by (simp add: hc_outer_def hc_payload_len_def hc_overhead_def hc_src_index_def q is_v6_hdr_create)
next
  case False
  obtain srcr q where s: "hc_pckt_srcs_map st V4_SRC_INDEX = Some srcr"
    and r: "hc_make_room k 20 (BPF_F_ADJ_ROOM_FIXED_GSO OR BPF_F_ADJ_ROOM_ENCAP_L3_IPV4) (hc_data st)
      = (True, q)"
    and q: "hc_data st' = create_v4_hdr q 14 0
      (if MANGLE_HC_SRC cfg then create_encap_ipv4_src MANGLED_HC_SRC_PORT (w0 (hr_daddr srcr))
       else w0 (hr_daddr srcr)) (w0 (hr_daddr real)) (ucast (skb_len (hskb st) - 14)) 4"
    using assms(3) False
    by (auto simp: hc_encap_ipip_def Let_def IP_HLEN_def ETH_HLEN_def DEFAULT_TOS_def IPPROTO_IPIP_def
        split: option.splits prod.splits if_splits)
  note m = hc_make_room_ok [OF assms(1) r]
  have d: "drop 34 (hc_data st') = drop 14 (hc_data st)"
    unfolding q using create_v4_hdr_frame(1) [of 14] m(2) by (simp add: buf_simps)
  show ?thesis
    using False assms(2) s d m(3)
    by (simp add: hc_outer_def hc_payload_len_def hc_overhead_def hc_src_index_def q is_v4_hdr_create)
qed

lemma hc_encap_gue_correct:
  assumes "room_law k" "HC_GUE_ENCAP cfg" "hc_encap_gue cfg k real v6 st = (True, st')"
  shows "\<exists>srcr. hc_pckt_srcs_map st (hc_src_index real) = Some srcr \<and>
    hc_outer cfg k real srcr (hc_payload_len cfg st) v6 (hc_data st') \<and>
    drop (14 + hc_overhead cfg real) (hc_data st') = drop 14 (hc_data st) \<and>
    14 + hc_overhead cfg real \<le> length (hc_data st')"
proof (cases "hr_flags real = V6DADDR")
  case True
  define fl where "fl = BPF_F_ADJ_ROOM_FIXED_GSO OR BPF_F_ADJ_ROOM_ENCAP_L3_IPV6 OR BPF_F_ADJ_ROOM_ENCAP_L4_UDP"
  obtain srcr q where s: "hc_pckt_srcs_map st V6_SRC_INDEX = Some srcr"
    and r: "hc_make_room k 48 fl (hc_data st) = (True, q)"
    and q: "hc_data st' = create_v6_hdr (create_udp_hdr (wr q 12 (le16 BE_ETH_P_IPV6)) 54 (gue_sport k)
      GUE_DPORT (ucast (skb_len (hskb st) - 14) + 8) GUE_CSUM) 14 0 (hr_daddr srcr) (hr_daddr real)
      (ucast (skb_len (hskb st) - 14) + 8) 17"
    using assms(3) True
    by (auto simp: hc_encap_gue_def Let_def IP6_HLEN_def UDP_HLEN_def ETH_HLEN_def DEFAULT_TOS_def
        IPPROTO_UDP_def fl_def split: option.splits prod.splits if_splits)
  note m = hc_make_room_ok [OF assms(1) r]
  have d: "drop 62 (hc_data st') = drop 14 (hc_data st)"
    unfolding q using m(2)
    by (simp add: create_v6_hdr_def create_udp_hdr_def Let_def buf_simps)
  have "is_udp_hdr (hc_data st') 54 (ucast (prandom k) OR 0x400) 6080 (ucast (skb_len (hskb st) - 14) + 8)"
    unfolding q using m(3)
    by (simp add: is_udp_hdr_behind is_udp_hdr_create gue_sport_def const_defs Let_def)
  then show ?thesis
    using True assms(2) s d m(3)
    by (simp add: hc_outer_def hc_payload_len_def hc_overhead_def hc_src_index_def q is_v6_hdr_create)
next
  case False
  define fl where "fl = BPF_F_ADJ_ROOM_FIXED_GSO OR BPF_F_ADJ_ROOM_ENCAP_L3_IPV4 OR BPF_F_ADJ_ROOM_ENCAP_L4_UDP"
  obtain srcr q where s: "hc_pckt_srcs_map st V4_SRC_INDEX = Some srcr"
    and r: "hc_make_room k 28 fl (hc_data st) = (True, q)"
    and q: "hc_data st' = create_v4_hdr (create_udp_hdr q 34 (gue_sport k) GUE_DPORT
      (ucast (skb_len (hskb st) - 14) + 8) GUE_CSUM) 14 0 (w0 (hr_daddr srcr)) (w0 (hr_daddr real))
      (ucast (skb_len (hskb st) - 14) + 8) 17"
    using assms(3) False
    by (auto simp: hc_encap_gue_def Let_def IP_HLEN_def UDP_HLEN_def ETH_HLEN_def DEFAULT_TOS_def
        IPPROTO_UDP_def fl_def split: option.splits prod.splits if_splits)
  note m = hc_make_room_ok [OF assms(1) r]
  have d: "drop 42 (hc_data st') = drop 14 (hc_data st)"
    unfolding q using m(2)
    by (simp add: create_v4_hdr_def create_udp_hdr_def Let_def buf_simps)
  have "is_v4_hdr (hc_data st') 14 0 (w0 (hr_daddr srcr)) (w0 (hr_daddr real))
      (ucast (skb_len (hskb st) - 14) + 8 + 20) 17"
    unfolding q by (rule is_v4_hdr_create) (use m(3) in simp)
  moreover have "is_udp_hdr (hc_data st') 34 (ucast (prandom k) OR 0x400) 6080 (ucast (skb_len (hskb st) - 14) + 8)"
    unfolding q using m(3)
    by (simp add: is_udp_hdr_behind is_udp_hdr_create gue_sport_def const_defs Let_def)
  ultimately show ?thesis
    using False assms(2) s d m(3)
    by (simp add: hc_outer_def hc_payload_len_def hc_overhead_def hc_src_index_def q)
qed

lemma HC_ENCAP_correct:
  assumes "room_law k" "HC_ENCAP cfg k real v6 st = (True, st')"
  shows "\<exists>srcr. hc_pckt_srcs_map st (hc_src_index real) = Some srcr \<and>
    hc_outer cfg k real srcr (hc_payload_len cfg st) v6 (hc_data st') \<and>
    drop (14 + hc_overhead cfg real) (hc_data st') = drop 14 (hc_data st) \<and>
    14 + hc_overhead cfg real \<le> length (hc_data st')"
  using assms hc_encap_ipip_correct [OF assms(1)] hc_encap_gue_correct [OF assms(1)]
  by (auto simp: HC_ENCAP_def split: if_splits)

text \<open>Writing the two Ethernet addresses keeps what lies behind them.\<close>

lemma hc_outer_wr:
  "hc_outer cfg k real srcr len v6 q \<Longrightarrow> i + length bs \<le> 12 \<Longrightarrow> hc_outer cfg k real srcr len v6 (wr q i bs)"
  by (auto simp: hc_outer_def is_v6_hdr_def is_v4_hdr_def is_udp_hdr_behind(3) buf_simps)

lemma healthcheck_redirected:
  assumes "room_law k" and "healthcheck_encap cfg k st = (Redirect i, st')"
    and "\<forall>j m. hc_pckt_macs st j = Some m \<longrightarrow> length m = 6"
  shows "\<exists>real srcr esrc edst. hc_reals_map st (skb_mark (hskb st)) = Some real \<and>
    hc_ctrl_map st HC_MAIN_INTF_POSITION = Some i \<and> skb_mark (hskb st') = 0 \<and>
    hc_pckt_macs st HC_SRC_MAC_POS = Some esrc \<and> bslice (hc_data st') 6 6 = esrc \<and>
    hc_pckt_macs st HC_DST_MAC_POS = Some edst \<and> bslice (hc_data st') 0 6 = edst \<and>
    hc_pckt_srcs_map st (hc_src_index real) = Some srcr \<and>
    hc_outer cfg k real srcr (hc_payload_len cfg st) (rd16 (hc_data st) 12 = BE_ETH_P_IPV6) (hc_data st') \<and>
    drop (14 + hc_overhead cfg real) (hc_data st') = drop 14 (hc_data st)"
proof -
  obtain real esrc edst where r: "hc_reals_map st (skb_mark (hskb st)) = Some real"
    and c: "hc_ctrl_map st HC_MAIN_INTF_POSITION = Some i"
    and es: "hc_pckt_macs st HC_SRC_MAC_POS = Some esrc"
    and ed: "hc_pckt_macs st HC_DST_MAC_POS = Some edst"
    and send: "hc_send cfg k real i esrc edst st = (Redirect i, st')"
    using assms(2)
    by (auto simp: healthcheck_encap_def hc_drop_def hc_send_def Let_def
        split: if_splits option.splits prod.splits)
  define st0 where "st0 = st\<lparr>hskb := (hskb st)\<lparr>skb_mark := 0\<rparr>\<rparr>"
  define v6 where "v6 = (rd16 (hc_data st) 12 = BE_ETH_P_IPV6)"
  have st0: "hc_data st0 = hc_data st" "hc_payload_len cfg st0 = hc_payload_len cfg st"
    "hc_pckt_srcs_map st0 = hc_pckt_srcs_map st" "skb_mark (hskb st0) = 0"
    by (simp_all add: st0_def hc_data_def hc_payload_len_def)
  obtain st1 where e: "HC_ENCAP cfg k real v6 st0 = (True, st1)"
    and st': "st' = hc_count hc_processed (hc_set_data (wr (wr (hc_data st1) 6 esrc) 0 edst) st1)"
    using send
    by (auto simp: hc_send_def hc_drop_def Let_def st0_def v6_def split: if_splits prod.splits)
  obtain srcr where s: "hc_pckt_srcs_map st (hc_src_index real) = Some srcr"
    and o: "hc_outer cfg k real srcr (hc_payload_len cfg st) v6 (hc_data st1)"
    and d: "drop (14 + hc_overhead cfg real) (hc_data st1) = drop 14 (hc_data st)"
    and l: "14 + hc_overhead cfg real \<le> length (hc_data st1)"
    using HC_ENCAP_correct [OF assms(1) e] st0 by auto
  have m: "length esrc = 6" "length edst = 6"
    using assms(3) es ed by auto
  have "skb_mark (hskb st1) = 0"
    using HC_ENCAP_keeps [OF e] st0(4) by auto
  moreover have "hc_outer cfg k real srcr (hc_payload_len cfg st) v6 (hc_data st')"
    unfolding st' using o m by (simp add: hc_outer_wr)
  ultimately show ?thesis
    using r c es ed s d l m v6_def
    by (auto simp: st' buf_simps)
qed


section \<open>The tunnel variant\<close>

text \<open>
  The variant for tunnel devices counts in the same way, and hands a packet over with the tunnel
  destination of the real server its mark names.
\<close>

lemma ipip_healthcheck_encap_tunnel:
  assumes "hc_stats_map st 0 = Some s" and "ipip_healthcheck_encap i st = (Redirect j, st')"
  shows "\<exists>real. hc_reals_map st (skb_mark (hskb st)) = Some real \<and> j = i \<and>
    skb_mark (hskb st') = 0 \<and> hc_data st' = hc_data st \<and>
    hc_stats_map st' 0 = Some (hc_processed s) \<and> skb_len (hskb st) \<le> 1474 \<and>
    (\<exists>t. hc_tunnel st' = Some t \<and> w0 (tk_remote t) = w0 (hr_daddr real) \<and> tk_ttl t = 64 \<and>
      (hr_flags real = V6DADDR \<longrightarrow> tk_remote t = hr_daddr real \<and> tk_flags t = BPF_F_TUNINFO_IPV6))"
  using assms
  by (auto simp: ipip_healthcheck_encap_def hc_drop_def Let_def hc_count_def hc_data_def map_upd_simps
      MAX_PACKET_SIZE_def DEFAULT_TTL_def split: if_splits option.splits)

section \<open>A concrete health check\<close>

definition ex_hc_config :: hc_config where
  "ex_hc_config = \<lparr>HC_MAX_PACKET_SIZE = 0, MANGLE_HC_SRC = False, HC_GUE_ENCAP = False\<rparr>"

definition ex_hc_real :: "u32 \<Rightarrow> hc_real_definition" where
  "ex_hc_real a = \<lparr>hr_daddr = Addr a 0 0 0, hr_flags = 0\<rparr>"

definition ex_hc_state :: hc_state where
  "ex_hc_state = \<lparr>
     hskb = \<lparr>skb_data = replicate 60 1, skb_len = 60, skb_mark = 5, skb_protocol = 8\<rparr>,
     hc_stats_map = [0 \<mapsto> \<lparr>pckts_processed = 0, pckts_dropped = 0, pckts_skipped = 0, pckts_too_big = 0\<rparr>],
     hc_reals_map = [5 \<mapsto> ex_hc_real 10], hc_ctrl_map = [3 \<mapsto> 2],
     hc_pckt_macs = [0 \<mapsto> replicate 6 0xAA, 1 \<mapsto> replicate 6 0xBB],
     hc_pckt_srcs_map = [0 \<mapsto> ex_hc_real 1], hc_key_map = Map.empty, per_hckey_stats = Map.empty,
     hc_tunnel = None\<rparr>"



end
