(* ===== verification/XdpRoot.thy ===== *)
theory XdpRoot
  imports Structs
begin

text \<open>
  The two small XDP programs: lib/bpf/xdp_root.c, which hands a packet to the first occupied
  slot of its program array, and lib/bpf/xdp_pktcntr.c, whose counting line is cut.
\<close>

definition ROOT_ARRAY_SIZE :: nat where [const_defs]: "ROOT_ARRAY_SIZE = 3"

text \<open>
  A tail call into an empty slot fails and the loop goes on; one into an occupied slot does not
  come back: Jump with the program's index.
\<close>

fun xdp_root_loop :: "(u32 \<rightharpoonup> u32) \<Rightarrow> nat \<Rightarrow> nat \<Rightarrow> outcome" where
  "xdp_root_loop root_array i 0 = Verdict XDP_PASS"
| "xdp_root_loop root_array i (Suc n) =
     (case root_array (of_nat i) of
        Some prog \<Rightarrow> Jump prog
      | None \<Rightarrow> xdp_root_loop root_array (Suc i) n)"

definition xdp_root :: "(u32 \<rightharpoonup> u32) \<Rightarrow> outcome" where
  "xdp_root root_array = xdp_root_loop root_array 0 ROOT_ARRAY_SIZE"

definition pktcntr :: "(u32 \<rightharpoonup> u32) \<Rightarrow> (u32 \<rightharpoonup> u64) \<Rightarrow> outcome \<times> (u32 \<rightharpoonup> u64)" where
  "pktcntr flags cntrs_array =
     (case flags 0 of
        None \<Rightarrow> (Verdict XDP_PASS, cntrs_array)
      | Some flag \<Rightarrow>
          if flag = 0 then (Verdict XDP_PASS, cntrs_array)
          else case cntrs_array 0 of
                 None \<Rightarrow> (Verdict XDP_PASS, cntrs_array)
               | Some cntr_val \<Rightarrow> (Verdict XDP_PASS, cntrs_array))"

lemma xdp_root_loop_first:
  "xdp_root_loop m i n = (case find (\<lambda>j. m (of_nat j) \<noteq> None) [i..<i + n] of
     Some j \<Rightarrow> Jump (the (m (of_nat j))) | None \<Rightarrow> Verdict XDP_PASS)"
proof (induction n arbitrary: i)
  case (Suc n)
  have "[i..<i + Suc n] = i # [Suc i..<Suc i + n]"
    by (simp add: upt_conv_Cons)
  then show ?case
    by (auto simp: Suc.IH split: option.splits)
qed simp

text \<open>The program in the lowest occupied slot runs; with none, the packet is passed.\<close>

lemma xdp_root_lowest:
  assumes "m (of_nat j) = Some prog" "j < 3" "\<forall>i<j. m (of_nat i) = None"
  shows "xdp_root m = Jump prog"
proof -
  from assms(2) consider "j = 0" | "j = 1" | "j = 2" by linarith
  then show ?thesis
    using assms(1,3)
    by cases (auto simp: xdp_root_def ROOT_ARRAY_SIZE_def numeral_3_eq_3 All_less_Suc numeral_2_eq_2)
qed

end
