(* ===== verification/Pcap.thy ===== *)
theory Pcap
  imports Prelude
begin

text \<open>
  Capturing of introspection events: lib/PcapMsg.cpp, lib/PcapMsgMeta.cpp, lib/PcapWriter.cpp,
  the data writers (FileWriter, IOBufWriter, PipeWriter, ByteRangeWriter), and
  VsoshlbEventReader. The members of the two pcap headers have no readable declaration: how a
  header is laid out in memory is the parameter layout. The file system is the parameter
  fs, which says what a write of some bytes to a file does; the queue is the list of messages
  still to be read, each with the clock values of its processing (the line which computes the
  microseconds is cut).
\<close>

section \<open>PcapMsg, PcapMsgMeta\<close>

record pcap_msg =
  pckt :: "bytes option"
  origLen :: u32
  capturedLen :: u32

definition new_pcap_msg :: "bytes option \<Rightarrow> u32 \<Rightarrow> u32 \<Rightarrow> pcap_msg" where
  "new_pcap_msg p orig captured =
     \<lparr>pckt = map_option (take (unat captured)) p, origLen = orig, capturedLen = captured\<rparr>"

definition emptyMsg :: "pcap_msg \<Rightarrow> bool" where
  "emptyMsg m = (pckt m = None)"

definition trim :: "u32 \<Rightarrow> pcap_msg \<Rightarrow> pcap_msg" where
  "trim snap m = m\<lparr>capturedLen := min (capturedLen m) snap\<rparr>"

text \<open>The bytes a write of the captured part reads: None when the buffer is missing or short.\<close>

definition raw_buffer :: "pcap_msg \<Rightarrow> bytes option" where
  "raw_buffer m = (case pckt m of None \<Rightarrow> None
     | Some p \<Rightarrow> if unat (capturedLen m) \<le> length p then Some (take (unat (capturedLen m)) p) else None)"

record pcap_msg_meta =
  mm_msg :: pcap_msg
  mm_event :: u32
  mm_packetLimit :: u32
  mm_restart :: bool
  mm_control :: bool
  mm_stop :: bool
  mm_shutdown :: bool

text \<open>EventId has 8 bits; the cast keeps the low ones and throws nothing.\<close>

type_synonym event_id = u8

definition getEventId :: "pcap_msg_meta \<Rightarrow> event_id" where
  "getEventId m = ucast (mm_event m)"

section \<open>Data writers\<close>

record rec_hdr =
  ts_sec :: u32
  ts_usec :: u32
  incl_len :: u32
  orig_len :: u32

record layout =
  rec_enc :: "rec_hdr \<Rightarrow> bytes"
  rec_dec :: "bytes \<Rightarrow> rec_hdr"
  rec_size :: nat
  file_enc :: "u32 \<Rightarrow> bytes"
  file_size :: nat

text \<open>What a struct in memory guarantees: a fixed size, and reading gives what was written.\<close>

definition layout_law :: "layout \<Rightarrow> bool" where
  "layout_law l \<longleftrightarrow> 0 < rec_size l \<and>
     (\<forall>h. length (rec_enc l h) = rec_size l \<and> rec_dec l (rec_enc l h) = h) \<and>
     (\<forall>s. length (file_enc l s) = file_size l) \<and> 0 < file_size l"

text \<open>The published libpcap format.\<close>

definition libpcap :: layout where
  "libpcap = \<lparr>rec_enc = (\<lambda>h. le32 (ts_sec h) @ le32 (ts_usec h) @ le32 (incl_len h) @ le32 (orig_len h)),
     rec_dec = (\<lambda>p. \<lparr>ts_sec = rd32 p 0, ts_usec = rd32 p 4, incl_len = rd32 p 8, orig_len = rd32 p 12\<rparr>),
     rec_size = 16,
     file_enc = (\<lambda>s. le32 0xa1b2c3d4 @ le16 2 @ le16 4 @ le32 0 @ le32 0 @ le32 s @ le32 1),
     file_size = 24\<rparr>"

text \<open>
  The writer behind a DataWriter pointer. A pipe writer sends to an asynchronous pipe once it
  has one; what it has sent is a byte stream. writtenBytes is kept by the file and the byte
  range writer only.
\<close>

datatype data_writer =
    FileWriter bool bytes nat
  | IOBufWriter nat bytes
  | PipeWriter bool "bytes option" "bytes option"
  | ByteRangeWriter nat bytes nat

type_synonym fs = "bytes \<Rightarrow> bytes \<Rightarrow> bool \<times> bytes"

text \<open>
  The methods of the four classes; None stands for a write outside the buffer or through a null
  pipe. The class members are the arguments.
\<close>

definition file_writeData :: "fs \<Rightarrow> bytes \<Rightarrow> bool \<Rightarrow> bytes \<Rightarrow> nat \<Rightarrow> data_writer option" where
  [simp]: "file_writeData fs d opened c n =
     (if opened then let (ok, c') = fs c d in Some (FileWriter opened c' (if ok then n + length d else n))
      else Some (FileWriter opened c n))"

definition iobuf_writeData :: "bytes \<Rightarrow> nat \<Rightarrow> bytes \<Rightarrow> data_writer option" where
  [simp]: "iobuf_writeData d cap c = (if length c + length d \<le> cap then Some (IOBufWriter cap (c @ d)) else None)"

definition pipe_writeData :: "bytes \<Rightarrow> bool \<Rightarrow> bytes option \<Rightarrow> bytes option \<Rightarrow> data_writer option" where
  [simp]: "pipe_writeData d enabled dest hdr =
     (if d = [] then Some (PipeWriter enabled dest hdr)
      else if \<not> enabled then Some (PipeWriter enabled dest hdr)
      else case dest of None \<Rightarrow> None | Some s \<Rightarrow> Some (PipeWriter enabled (Some (s @ d)) hdr))"

definition byte_range_writeData :: "bytes \<Rightarrow> nat \<Rightarrow> bytes \<Rightarrow> nat \<Rightarrow> data_writer option" where
  [simp]: "byte_range_writeData d room c n =
     (if length d \<le> room then Some (ByteRangeWriter (room - length d) (c @ d) (n + length d)) else None)"

fun writeData :: "fs \<Rightarrow> bytes \<Rightarrow> data_writer \<Rightarrow> data_writer option" where
  "writeData fs d (FileWriter opened c n) = file_writeData fs d opened c n"
| "writeData fs d (IOBufWriter cap c) = iobuf_writeData d cap c"
| "writeData fs d (PipeWriter enabled dest hdr) = pipe_writeData d enabled dest hdr"
| "writeData fs d (ByteRangeWriter room c n) = byte_range_writeData d room c n"

definition pipe_writeHeader :: "bytes \<Rightarrow> bool \<Rightarrow> bytes option \<Rightarrow> bytes option \<Rightarrow> data_writer option" where
  [simp]: "pipe_writeHeader d enabled dest hdr = Some (PipeWriter enabled dest (Some d))"

fun writeHeader :: "fs \<Rightarrow> bytes \<Rightarrow> data_writer \<Rightarrow> data_writer option" where
  "writeHeader fs d (PipeWriter enabled dest hdr) = pipe_writeHeader d enabled dest hdr"
| "writeHeader fs d w = writeData fs d w"

definition iobuf_available :: "nat \<Rightarrow> nat \<Rightarrow> bytes \<Rightarrow> bool" where
  [simp]: "iobuf_available n cap c \<longleftrightarrow> n \<le> cap - length c"

definition byte_range_available :: "nat \<Rightarrow> nat \<Rightarrow> bool" where
  [simp]: "byte_range_available n room \<longleftrightarrow> n \<le> room"

fun available :: "nat \<Rightarrow> data_writer \<Rightarrow> bool" where
  "available n (FileWriter opened c m) = True"
| "available n (IOBufWriter cap c) = iobuf_available n cap c"
| "available n (PipeWriter enabled dest hdr) = True"
| "available n (ByteRangeWriter room c m) = byte_range_available n room"

definition file_restart :: "bool \<Rightarrow> bytes \<Rightarrow> nat \<Rightarrow> data_writer" where
  [simp]: "file_restart opened c n = FileWriter True [] n"

definition iobuf_restart :: "nat \<Rightarrow> bytes \<Rightarrow> data_writer" where
  [simp]: "iobuf_restart cap c = IOBufWriter cap []"

definition pipe_restart :: "bool \<Rightarrow> bytes option \<Rightarrow> bytes option \<Rightarrow> data_writer" where
  [simp]: "pipe_restart enabled dest hdr = PipeWriter True dest hdr"

fun restart_writer :: "data_writer \<Rightarrow> data_writer" where
  "restart_writer (FileWriter opened c n) = file_restart opened c n"
| "restart_writer (IOBufWriter cap c) = iobuf_restart cap c"
| "restart_writer (PipeWriter enabled dest hdr) = pipe_restart enabled dest hdr"
| "restart_writer (ByteRangeWriter room c n) = ByteRangeWriter room c n"

definition file_stop :: "bool \<Rightarrow> bytes \<Rightarrow> nat \<Rightarrow> data_writer" where
  [simp]: "file_stop opened c n = FileWriter False c n"

definition pipe_stop :: "bool \<Rightarrow> bytes option \<Rightarrow> bytes option \<Rightarrow> data_writer" where
  [simp]: "pipe_stop enabled dest hdr = PipeWriter False dest hdr"

fun stop_writer :: "data_writer \<Rightarrow> data_writer" where
  "stop_writer (FileWriter opened c n) = file_stop opened c n"
| "stop_writer (PipeWriter enabled dest hdr) = pipe_stop enabled dest hdr"
| "stop_writer w = w"

text \<open>setWriterDestination, unsetWriterDestination of a pipe writer; other writers have none.\<close>

fun set_destination :: "bytes option \<Rightarrow> data_writer \<Rightarrow> data_writer" where
  "set_destination d (PipeWriter enabled dest hdr) = PipeWriter enabled d hdr"
| "set_destination d w = w"

section \<open>PcapWriter\<close>

record pcap_writer =
  dataWriters :: "event_id \<rightharpoonup> data_writer"
  enabledEvents :: "event_id set"
  headerExists :: "event_id set"
  packetAmount :: u32
  packetLimit :: u32
  packetLimitOverride :: bool
  bufferFull :: u32
  snaplen :: u32

definition kMaxSnapLen :: u32 where "kMaxSnapLen = 0xFFFF"
definition kDefaultWriter :: event_id where "kDefaultWriter = 0"

definition new_pcap_writer :: "(event_id \<rightharpoonup> data_writer) \<Rightarrow> u32 \<Rightarrow> u32 \<Rightarrow> pcap_writer" where
  "new_pcap_writer ws lim snap = \<lparr>dataWriters = ws, enabledEvents = {}, headerExists = {},
     packetAmount = 0, packetLimit = lim, packetLimitOverride = False, bufferFull = 0, snaplen = snap\<rparr>"

definition effective_snaplen :: "pcap_writer \<Rightarrow> u32" where
  "effective_snaplen w = (if snaplen w \<noteq> 0 then snaplen w else kMaxSnapLen)"

definition record_header :: "u32 \<times> u32 \<Rightarrow> pcap_msg \<Rightarrow> rec_hdr" where
  "record_header now m = \<lparr>ts_sec = fst now, ts_usec = snd now, incl_len = capturedLen m, orig_len = origLen m\<rparr>"

definition writePacket ::
  "layout \<Rightarrow> fs \<Rightarrow> u32 \<times> u32 \<Rightarrow> pcap_msg \<Rightarrow> event_id \<Rightarrow> pcap_writer \<Rightarrow> pcap_writer option" where
  "writePacket l fs now m e w =
     (case dataWriters w e of
        None \<Rightarrow> Some w
      | Some dw \<Rightarrow>
          (case writeData fs (rec_enc l (record_header now m)) dw of
             None \<Rightarrow> None
           | Some dw \<Rightarrow>
               (case raw_buffer m of
                  None \<Rightarrow> None
                | Some raw \<Rightarrow>
                    (case writeData fs raw dw of
                       None \<Rightarrow> None
                     | Some dw \<Rightarrow> Some (w\<lparr>dataWriters := (dataWriters w)(e \<mapsto> dw)\<rparr>)))))"

definition writePcapHeader ::
  "layout \<Rightarrow> fs \<Rightarrow> event_id \<Rightarrow> pcap_writer \<Rightarrow> (bool \<times> pcap_writer) option" where
  "writePcapHeader l fs e w =
     (if e \<in> headerExists w then Some (True, w)
      else
        case dataWriters w e of
          None \<Rightarrow> Some (False, w)
        | Some dw \<Rightarrow>
            if \<not> available (file_size l) dw then Some (False, w)
            else
              case writeHeader fs (file_enc l (effective_snaplen w)) dw of
                None \<Rightarrow> None
              | Some dw \<Rightarrow>
                  Some (True, w\<lparr>dataWriters := (dataWriters w)(e \<mapsto> dw),
                                headerExists := insert e (headerExists w)\<rparr>))"

text \<open>run: the loop of the single writer; a missing writer is dereferenced (None).\<close>

fun run_loop :: "layout \<Rightarrow> fs \<Rightarrow> ((u32 \<times> u32) \<times> pcap_msg) list \<Rightarrow> pcap_writer \<Rightarrow> pcap_writer option" where
  "run_loop l fs [] w = Some w"
| "run_loop l fs ((now, m) # q) w =
     (if \<not> (packetLimit w = 0 \<or> packetAmount w < packetLimit w) then Some w
      else
        let m = trim (effective_snaplen w) m
        in if emptyMsg m then Some w
           else
             case dataWriters w kDefaultWriter of
               None \<Rightarrow> None
             | Some dw \<Rightarrow>
                 if \<not> available (unat (capturedLen m) + rec_size l) dw
                 then Some (w\<lparr>bufferFull := bufferFull w + 1\<rparr>)
                 else
                   case writePacket l fs now m kDefaultWriter w of
                     None \<Rightarrow> None
                   | Some w \<Rightarrow> run_loop l fs q (w\<lparr>packetAmount := packetAmount w + 1\<rparr>))"

definition run :: "layout \<Rightarrow> fs \<Rightarrow> ((u32 \<times> u32) \<times> pcap_msg) list \<Rightarrow> pcap_writer \<Rightarrow> pcap_writer option" where
  "run l fs q w =
     (case writePcapHeader l fs kDefaultWriter w of
        None \<Rightarrow> None
      | Some (ok, w) \<Rightarrow> if \<not> ok then Some w else run_loop l fs q w)"

definition restartWriters :: "u32 \<Rightarrow> pcap_writer \<Rightarrow> pcap_writer" where
  "restartWriters lim w = w\<lparr>headerExists := {}, dataWriters := (map_option restart_writer \<circ> dataWriters w),
     packetLimit := lim, packetAmount := 0\<rparr>"

definition stopWriters :: "pcap_writer \<Rightarrow> pcap_writer" where
  "stopWriters w = w\<lparr>dataWriters := (map_option stop_writer \<circ> dataWriters w), packetLimit := 0,
     packetAmount := 0\<rparr>"

text \<open>The old writers are stopped before they are dropped.\<close>

definition resetWriters :: "(event_id \<rightharpoonup> data_writer) \<Rightarrow> pcap_writer \<Rightarrow> pcap_writer" where
  "resetWriters ws w =
     (let w = w\<lparr>dataWriters := (map_option stop_writer \<circ> dataWriters w)\<rparr>
      in w\<lparr>dataWriters := ws\<rparr>)"

text \<open>One round of runMulti: whether the loop goes on, and the new state.\<close>

definition multi_step ::
  "layout \<Rightarrow> fs \<Rightarrow> u32 \<times> u32 \<Rightarrow> pcap_msg_meta \<Rightarrow> pcap_writer \<Rightarrow> (bool \<times> pcap_writer) option" where
  "multi_step l fs now msg w =
     (if mm_control msg then
        if mm_shutdown msg then Some (False, w)
        else if mm_restart msg then Some (True, restartWriters (mm_packetLimit msg) w)
        else if mm_stop msg then Some (True, stopWriters w)
        else Some (True, w)
      else if \<not> packetLimitOverride w \<and> packetAmount w \<ge> packetLimit w then Some (True, w)
      else
        let e = getEventId msg
        in if e \<notin> enabledEvents w then Some (True, w)
           else
             case writePcapHeader l fs e w of
               None \<Rightarrow> None
             | Some (ok, w) \<Rightarrow>
                 if \<not> ok then Some (True, w)
                 else
                   let m = trim (effective_snaplen w) (mm_msg msg)
                   in case dataWriters w e of
                        None \<Rightarrow> Some (True, w)
                      | Some dw \<Rightarrow>
                          if \<not> available (unat (capturedLen m) + rec_size l) dw
                          then Some (True, w\<lparr>bufferFull := bufferFull w + 1\<rparr>)
                          else
                            case writePacket l fs now m e w of
                              None \<Rightarrow> None
                            | Some w \<Rightarrow> Some (True, w\<lparr>packetAmount := packetAmount w + 1\<rparr>))"

fun runMulti :: "layout \<Rightarrow> fs \<Rightarrow> ((u32 \<times> u32) \<times> pcap_msg_meta) list \<Rightarrow> pcap_writer \<Rightarrow> pcap_writer option" where
  "runMulti l fs [] w = Some w"
| "runMulti l fs ((now, msg) # q) w =
     (case multi_step l fs now msg w of
        None \<Rightarrow> None
      | Some (go, w) \<Rightarrow> if go then runMulti l fs q w else Some w)"

section \<open>VsoshlbEventReader\<close>

text \<open>
  The event metadata is packed: three words. The event of the queued message is set on a cut
  line: the argument event. A capture length behind the data of the sample is a read outside it.
\<close>

definition handlePerfBufferEvent ::
  "nat \<Rightarrow> u32 \<Rightarrow> bytes \<Rightarrow> pcap_msg_meta list \<Rightarrow> pcap_msg_meta list option" where
  "handlePerfBufferEvent capacity event d queue =
     (if length d < 12 then Some queue
      else
        let pkt_size = rd32 d 4; data_len = rd32 d 8
        in if 12 + unat data_len > length d then None
           else
             let m = \<lparr>mm_msg = new_pcap_msg (Some (drop 12 d)) pkt_size data_len, mm_event = event,
                      mm_packetLimit = 0, mm_restart = False, mm_control = False, mm_stop = False,
                      mm_shutdown = False\<rparr>
             in Some (if length queue < capacity then queue @ [m] else queue))"

end
