(* ===== verification/EventPipe.thy ===== *)
theory EventPipe
  imports Pcap
begin

text \<open>
  lib/EventPipeCallback.cpp and lib/EventPipeCallback.h: the reading end of the pipe of one
  event. The bytes arrive in pieces of any size; the callback cuts them into records, keeps an
  incomplete one for the next piece and sends each complete one to the clients. The bodies of
  enable, disable and enabled are cut (the flag is a field the definitions only read), and so is
  the header of the loop over the subscriptions: the clients it visits are the argument its.
\<close>

type_synonym client_id = u32

record event =
  ev_id :: event_id
  ev_pktsize :: u32
  ev_data :: bytes

record event_pipe =
  ep_event_id :: event_id
  ep_enabled :: bool
  ep_readBuffer :: bytes
  ep_subsmap :: "client_id \<rightharpoonup> nat"
  ep_sent :: "(client_id \<times> event) list"

definition new_event_pipe :: "event_id \<Rightarrow> event_pipe" where
  "new_event_pipe e = \<lparr>ep_event_id = e, ep_enabled = False, ep_readBuffer = [], ep_subsmap = Map.empty,
     ep_sent = []\<rparr>"

text \<open>
  The loop of readBuffer: the complete records at the front, each with its header, and the
  bytes left. The size of a struct is never 0; the test is there for the parameter.
\<close>

function read_records :: "layout \<Rightarrow> bytes \<Rightarrow> (rec_hdr \<times> bytes) list \<times> bytes" where
  "read_records l buf =
     (if rec_size l = 0 \<or> length buf < rec_size l then ([], buf)
      else
        let h = rec_dec l (take (rec_size l) buf); n = rec_size l + unat (incl_len h)
        in if length buf < n then ([], buf)
           else let (rs, rest) = read_records l (drop n buf) in ((h, take n buf) # rs, rest))"
  by pat_completeness auto
termination
  by (relation "measure (\<lambda>(l, buf). length buf)") auto

declare read_records.simps [simp del]

definition record_event :: "event_id \<Rightarrow> rec_hdr \<times> bytes \<Rightarrow> event" where
  "record_event e r = \<lparr>ev_id = e, ev_pktsize = orig_len (fst r), ev_data = snd r\<rparr>"

definition readBuffer :: "layout \<Rightarrow> client_id list \<Rightarrow> bytes \<Rightarrow> event_pipe \<Rightarrow> event_pipe" where
  "readBuffer l its buf ep =
     (let (rs, rest) = read_records l buf;
          msgs = map (record_event (ep_event_id ep)) rs;
          ep = (if ep_enabled ep
                then ep\<lparr>ep_sent := ep_sent ep @ concat (map (\<lambda>m. map (\<lambda>c. (c, m)) its) msgs)\<rparr> else ep)
      in ep\<lparr>ep_readBuffer := ep_readBuffer ep @ rest\<rparr>)"

text \<open>readDataAvailable takes what was kept and the new bytes out of the buffer.\<close>

definition readDataAvailable :: "layout \<Rightarrow> client_id list \<Rightarrow> bytes \<Rightarrow> event_pipe \<Rightarrow> event_pipe" where
  "readDataAvailable l its d ep =
     readBuffer l its (ep_readBuffer ep @ d) (ep\<lparr>ep_readBuffer := []\<rparr>)"

definition addClientSubscription :: "client_id \<times> nat \<Rightarrow> event_pipe \<Rightarrow> event_pipe" where
  "addClientSubscription s ep =
     (if ep_subsmap ep (fst s) \<noteq> None then ep
      else ep\<lparr>ep_subsmap := (ep_subsmap ep)(fst s \<mapsto> snd s)\<rparr>)"

definition removeClientSubscription :: "client_id \<Rightarrow> event_pipe \<Rightarrow> event_pipe" where
  "removeClientSubscription cid ep = ep\<lparr>ep_subsmap := (ep_subsmap ep)(cid := None)\<rparr>"

section \<open>Records in pieces\<close>

text \<open>Reading a first piece and then the rest is reading all at once.\<close>

lemma read_records_append:
  "read_records l (a @ b) =
     (let (r1, k) = read_records l a; (r2, k') = read_records l (k @ b) in (r1 @ r2, k'))"
proof (induction l a rule: read_records.induct)
  case (1 l a)
  define h where "h = rec_dec l (take (rec_size l) a)"
  define n where "n = rec_size l + unat (incl_len h)"
  consider "rec_size l = 0 \<or> length a < rec_size l" | "0 < rec_size l" "rec_size l \<le> length a" "length a < n"
    | "0 < rec_size l" "rec_size l \<le> length a" "n \<le> length a"
    by linarith
  then show ?case
  proof cases
    case 1
    then show ?thesis by (auto simp: read_records.simps [of l a])
  next
    case 2
    then have "read_records l a = ([], a)"
      by (subst read_records.simps) (simp add: Let_def h_def n_def)
    then show ?thesis by simp
  next
    case 3
    have ih: "read_records l (drop n a @ b) =
       (let (r1, k) = read_records l (drop n a); (r2, k') = read_records l (k @ b) in (r1 @ r2, k'))"
      using 1 [of h n] 3 by (auto simp: h_def n_def)
    have a: "read_records l a = (let (rs, rest) = read_records l (drop n a) in ((h, take n a) # rs, rest))"
      using 3 by (subst read_records.simps) (simp add: Let_def h_def n_def)
    have "take (rec_size l) (a @ b) = take (rec_size l) a" "drop n (a @ b) = drop n a @ b"
      "take n (a @ b) = take n a"
      using 3 by simp_all
    then have ab: "read_records l (a @ b) =
       (let (rs, rest) = read_records l (drop n a @ b) in ((h, take n a) # rs, rest))"
      using 3 by (subst read_records.simps) (simp add: Let_def h_def [symmetric] n_def [symmetric])
    show ?thesis
      unfolding ab ih a by (simp add: Let_def split: prod.splits)
  qed
qed

fun read_pieces :: "layout \<Rightarrow> client_id list \<Rightarrow> bytes list \<Rightarrow> event_pipe \<Rightarrow> event_pipe" where
  "read_pieces l its [] ep = ep"
| "read_pieces l its (d # ds) ep = read_pieces l its ds (readDataAvailable l its d ep)"

lemma readDataAvailable_eq:
  assumes "read_records l (ep_readBuffer ep @ d) = (rs, rest)" "ep_enabled ep"
  shows "readDataAvailable l its d ep = ep\<lparr>ep_readBuffer := rest,
    ep_sent := ep_sent ep @ concat (map (\<lambda>r. map (\<lambda>c. (c, record_event (ep_event_id ep) r)) its) rs)\<rparr>"
  using assms by (simp add: readDataAvailable_def readBuffer_def Let_def comp_def)

lemma read_pieces_eq:
  assumes "ep_enabled ep" "read_records l (ep_readBuffer ep @ concat ds) = (rs, rest)"
    and "fst (read_records l (ep_readBuffer ep)) = []"
  shows "read_pieces l its ds ep = ep\<lparr>ep_readBuffer := rest,
    ep_sent := ep_sent ep @ concat (map (\<lambda>r. map (\<lambda>c. (c, record_event (ep_event_id ep) r)) its) rs)\<rparr>"
  using assms
proof (induction ds arbitrary: ep rs rest)
  case Nil
  have "read_records l b = ([], b)" if "fst (read_records l b) = []" for b
    using that by (subst (asm) read_records.simps, subst read_records.simps)
      (auto simp: Let_def split: prod.splits if_splits)
  from this [OF Nil.prems(3)] have "rs = [] \<and> rest = ep_readBuffer ep"
    using Nil.prems(2) by simp
  then show ?case by simp
next
  case (Cons d ds)
  obtain r1 k where a: "read_records l (ep_readBuffer ep @ d) = (r1, k)"
    by (metis prod.exhaust)
  obtain r2 k' where b: "read_records l (k @ concat ds) = (r2, k')"
    by (metis prod.exhaust)
  have rs: "rs = r1 @ r2" "rest = k'"
    using Cons.prems(2) read_records_append [of l "ep_readBuffer ep @ d" "concat ds"] a b by auto
  have k: "fst (read_records l k) = []"
    using read_records_append [of l "ep_readBuffer ep @ d" "[]"] a by (auto split: prod.splits)
  define ep1 where "ep1 = readDataAvailable l its d ep"
  have ep1: "ep1 = ep\<lparr>ep_readBuffer := k, ep_sent := ep_sent ep @
      concat (map (\<lambda>r. map (\<lambda>c. (c, record_event (ep_event_id ep) r)) its) r1)\<rparr>"
    unfolding ep1_def by (rule readDataAvailable_eq [OF a Cons.prems(1)])
  have "read_pieces l its ds ep1 = ep1\<lparr>ep_readBuffer := k', ep_sent := ep_sent ep1 @
      concat (map (\<lambda>r. map (\<lambda>c. (c, record_event (ep_event_id ep1) r)) its) r2)\<rparr>"
    by (rule Cons.IH) (use b k Cons.prems(1) in \<open>simp_all add: ep1\<close>)
  then show ?case
    by (simp add: ep1_def [symmetric] rs ep1)
qed

section \<open>Records as the writer makes them\<close>

text \<open>What writePacket sends for one message: the record header and the captured bytes.\<close>

definition msg_ok :: "pcap_msg \<Rightarrow> bool" where
  "msg_ok m \<longleftrightarrow> raw_buffer m \<noteq> None"

definition pcap_record :: "layout \<Rightarrow> (u32 \<times> u32) \<times> pcap_msg \<Rightarrow> bytes" where
  "pcap_record l r = rec_enc l (record_header (fst r) (snd r)) @ the (raw_buffer (snd r))"

lemma msg_ok_length: "msg_ok m \<Longrightarrow> length (the (raw_buffer m)) = unat (capturedLen m)"
  by (auto simp: msg_ok_def raw_buffer_def split: option.splits if_splits)

lemma read_records_stream:
  assumes "layout_law l" "\<forall>r\<in>set q. msg_ok (snd r)"
  shows "read_records l (concat (map (pcap_record l) q)) =
    (map (\<lambda>r. (record_header (fst r) (snd r), pcap_record l r)) q, [])"
  using assms(2)
proof (induction q)
  case Nil
  then show ?case
    using assms(1) by (subst read_records.simps) (simp add: layout_law_def)
next
  case (Cons r q)
  define h where "h = record_header (fst r) (snd r)"
  define rest where "rest = concat (map (pcap_record l) q)"
  have len: "length (rec_enc l h) = rec_size l" "0 < rec_size l" "rec_dec l (rec_enc l h) = h"
    using assms(1) by (simp_all add: layout_law_def)
  have "incl_len h = capturedLen (snd r)"
    by (simp add: h_def record_header_def)
  then have n: "length (pcap_record l r) = rec_size l + unat (incl_len h)"
    using msg_ok_length Cons.prems len by (simp add: pcap_record_def h_def [symmetric])
  have t: "take (rec_size l) (pcap_record l r) = rec_enc l h"
    using len by (simp add: pcap_record_def h_def [symmetric])
  have "read_records l (pcap_record l r @ rest) =
      (let (rs, k) = read_records l rest in ((h, pcap_record l r) # rs, k))"
    using n len by (subst read_records.simps) (simp add: Let_def t len(3))
  then show ?case
    using Cons by (simp add: rest_def h_def)
qed

end
