(* ===== verification/Monitoring.thy ===== *)
theory Monitoring
  imports EventPipe "HOL-Library.AList"
begin

text \<open>
  lib/VsoshlbMonitor.cpp, lib/MonitoringServiceCore.cpp and lib/MonitoringStructs.cpp: the monitor,
  which owns the writer thread and its queue, and the service which hands events out to clients.
  An asynchronous pipe is the stream of bytes sent to it since a writer got it. What cut lines
  hide is an argument: the effect of enable and disable on the flag of a callback, the condition
  under which restartMonitor replaces the writers with the storage format used then, and the
  clients a loop visits.
\<close>

section \<open>MonitoringStructs.cpp\<close>

definition kAllEventIds :: "event_id list" where
  "kAllEventIds = [0, 1, 2]"

definition event_toString :: "event_id \<Rightarrow> string" where
  "event_toString e =
     (if e = 0 then ''TCP_NONSYN_LRUMISS''
      else if e = 1 then ''PACKET_TOOBIG''
      else if e = 2 then ''QUIC_PACKET_DROP_NO_REAL''
      else ''UNKOWN'')"

section \<open>VsoshlbMonitor\<close>

datatype storage_format = StoreFile | StoreIOBuf | StorePipe

record monitor_config =
  mo_pcktLimit :: u32
  mo_snapLen :: u32
  mo_events :: "event_id list"
  mo_storage :: storage_format
  mo_bufferSize :: u32

record monitor =
  mo_config :: monitor_config
  mo_writer :: pcap_writer
  mo_queue :: "pcap_msg_meta list"
  mo_pipe_dests :: "event_id set"

text \<open>
  kept gives the content of a buffer made earlier for the event, which insert keeps (empty
  for a new one).
\<close>

fun create_writers ::
  "storage_format \<Rightarrow> u32 \<Rightarrow> (event_id \<Rightarrow> bytes) \<Rightarrow> event_id set \<Rightarrow> event_id list \<Rightarrow> (event_id \<rightharpoonup> data_writer)" where
  "create_writers sf bs kept dests [] = Map.empty"
| "create_writers sf bs kept dests (e # es) =
     (create_writers sf bs kept dests es)(e \<mapsto>
        (case sf of
           StoreFile \<Rightarrow> FileWriter True [] 0
         | StoreIOBuf \<Rightarrow> IOBufWriter (unat bs) (kept e)
         | StorePipe \<Rightarrow> PipeWriter True (if e \<in> dests then Some [] else None) None))"

definition enableEvent :: "event_id \<Rightarrow> pcap_writer \<Rightarrow> bool \<times> pcap_writer" where
  "enableEvent e w = (e \<notin> enabledEvents w, w\<lparr>enabledEvents := insert e (enabledEvents w)\<rparr>)"

definition disableEvent :: "event_id \<Rightarrow> pcap_writer \<Rightarrow> pcap_writer" where
  "disableEvent e w = w\<lparr>enabledEvents := enabledEvents w - {e}\<rparr>"

definition new_monitor :: "monitor_config \<Rightarrow> monitor" where
  "new_monitor cfg =
     (let ws = create_writers (mo_storage cfg) (mo_bufferSize cfg) (\<lambda>_. []) {} (mo_events cfg);
          w = new_pcap_writer ws (mo_pcktLimit cfg) (mo_snapLen cfg);
          w = w\<lparr>packetLimitOverride := (mo_storage cfg = StorePipe)\<rparr>;
          w = fold (\<lambda>e w. snd (enableEvent e w)) (mo_events cfg) w
      in \<lparr>mo_config = cfg, mo_writer = w, mo_queue = [], mo_pipe_dests = {}\<rparr>)"

definition control_msg :: pcap_msg_meta where
  "control_msg = \<lparr>mm_msg = \<lparr>pckt = None, origLen = 0, capturedLen = 0\<rparr>, mm_event = 0, mm_packetLimit = 0,
     mm_restart = False, mm_control = True, mm_stop = False, mm_shutdown = False\<rparr>"

definition push_msg :: "pcap_msg_meta \<Rightarrow> monitor \<Rightarrow> monitor" where
  "push_msg m mo = mo\<lparr>mo_queue := mo_queue mo @ [m]\<rparr>"

definition stopMonitor :: "monitor \<Rightarrow> monitor" where
  "stopMonitor = push_msg (control_msg\<lparr>mm_stop := True\<rparr>)"

text \<open>replace is the cut condition, sf the format in the configuration at this point.\<close>

definition restartMonitor ::
  "bool \<Rightarrow> storage_format \<Rightarrow> (event_id \<Rightarrow> bytes) \<Rightarrow> u32 \<Rightarrow> monitor \<Rightarrow> monitor" where
  "restartMonitor replace sf kept lim mo =
     (let mo = (if replace then
             let mo = stopMonitor (mo\<lparr>mo_config := (mo_config mo)\<lparr>mo_storage := sf\<rparr>\<rparr>);
                 ws = create_writers sf (mo_bufferSize (mo_config mo)) kept (mo_pipe_dests mo)
                        (mo_events (mo_config mo));
                 w = (resetWriters ws (mo_writer mo))\<lparr>packetLimitOverride := (sf = StorePipe)\<rparr>
             in mo\<lparr>mo_writer := w\<rparr>
           else mo)
      in push_msg (control_msg\<lparr>mm_restart := True, mm_packetLimit := lim\<rparr>) mo)"

definition enableWriterEvent :: "event_id \<Rightarrow> monitor \<Rightarrow> bool \<times> monitor" where
  "enableWriterEvent e mo = (let (r, w) = enableEvent e (mo_writer mo) in (r, mo\<lparr>mo_writer := w\<rparr>))"

definition disableWriterEvent :: "event_id \<Rightarrow> monitor \<Rightarrow> bool \<times> monitor" where
  "disableWriterEvent e mo = (True, mo\<lparr>mo_writer := disableEvent e (mo_writer mo)\<rparr>)"

definition setAsyncPipeWriter :: "event_id \<Rightarrow> monitor \<Rightarrow> monitor" where
  "setAsyncPipeWriter e mo =
     (let mo = mo\<lparr>mo_pipe_dests := insert e (mo_pipe_dests mo)\<rparr>; w = mo_writer mo
      in case dataWriters w e of
           Some (PipeWriter enabled dest hdr) \<Rightarrow>
             mo\<lparr>mo_writer := snd (enableEvent e
                (w\<lparr>dataWriters := (dataWriters w)(e \<mapsto> set_destination (Some []) (PipeWriter enabled dest hdr))\<rparr>))\<rparr>
         | _ \<Rightarrow> mo)"

definition unsetAsyncPipeWriter :: "event_id \<Rightarrow> monitor \<Rightarrow> monitor" where
  "unsetAsyncPipeWriter e mo =
     (let w = mo_writer mo
      in case dataWriters w e of
           Some (PipeWriter enabled dest hdr) \<Rightarrow>
             mo\<lparr>mo_writer := (disableEvent e w)\<lparr>dataWriters := (dataWriters w)(e \<mapsto>
                  set_destination None (PipeWriter enabled dest hdr))\<rparr>,
                mo_pipe_dests := mo_pipe_dests mo - {e}\<rparr>
         | _ \<Rightarrow> mo)"

record writer_stats =
  ws_limit :: u32
  ws_amount :: u32
  ws_bufferFull :: u32

definition getStats :: "pcap_writer \<Rightarrow> writer_stats" where
  "getStats w = \<lparr>ws_limit = packetLimit w, ws_amount = packetAmount w, ws_bufferFull = bufferFull w\<rparr>"

text \<open>One round of the writer thread on the queue; the last component tells whether it goes on.\<close>

definition writer_round :: "layout \<Rightarrow> fs \<Rightarrow> u32 \<times> u32 \<Rightarrow> monitor \<Rightarrow> (monitor \<times> bool) option" where
  "writer_round l fs now mo =
     (case mo_queue mo of
        [] \<Rightarrow> Some (mo, True)
      | m # q \<Rightarrow>
          (case multi_step l fs now m (mo_writer mo) of
             None \<Rightarrow> None
           | Some (go, w) \<Rightarrow> Some (mo\<lparr>mo_queue := q, mo_writer := w\<rparr>, go)))"

section \<open>MonitoringServiceCore\<close>

datatype response_status = RespOK | NotSupported | TooManyClients | InternalError

record service_core =
  mc_initialized :: bool
  mc_monitor :: "monitor option"
  subscription_map :: "(client_id \<times> nat) list"
  curr_cid :: u32
  client_limit :: u32
  enabled_events :: "event_id set"
  client_to_event_ids :: "client_id \<rightharpoonup> event_id set"
  event_pipe_cbs :: "event_id \<rightharpoonup> event_pipe"

definition new_service_core :: service_core where
  "new_service_core = \<lparr>mc_initialized = False, mc_monitor = None, subscription_map = [], curr_cid = 0,
     client_limit = 10, enabled_events = {}, client_to_event_ids = Map.empty, event_pipe_cbs = Map.empty\<rparr>"

text \<open>pipe_ok tells whether pipe2 succeeds for an event; after_enable is the flag enable leaves.\<close>

fun init_events :: "(event_id \<Rightarrow> bool) \<Rightarrow> bool \<Rightarrow> event_id list \<Rightarrow> monitor \<Rightarrow> service_core \<Rightarrow> monitor \<times> service_core" where
  "init_events pipe_ok after_enable [] mo c = (mo, c)"
| "init_events pipe_ok after_enable (e # es) mo c =
     (if \<not> pipe_ok e then init_events pipe_ok after_enable es mo c
      else
        let cb = (new_event_pipe e)\<lparr>ep_enabled := after_enable\<rparr>;
            c = (if event_pipe_cbs c e = None
                 then c\<lparr>event_pipe_cbs := (event_pipe_cbs c)(e \<mapsto> cb)\<rparr> else c);
            mo = setAsyncPipeWriter e mo;
            c = c\<lparr>enabled_events := insert e (enabled_events c)\<rparr>
        in init_events pipe_ok after_enable es mo c)"

definition service_initialize ::
  "(event_id \<Rightarrow> bool) \<Rightarrow> bool \<Rightarrow> event_id list \<Rightarrow> monitor option \<Rightarrow> service_core \<Rightarrow> bool \<times> service_core" where
  "service_initialize pipe_ok after_enable eventIds m c =
     (if mc_initialized c then (True, c)
      else case m of
             None \<Rightarrow> (False, c)
           | Some mo \<Rightarrow>
               let (mo, c) = init_events pipe_ok after_enable eventIds mo c
               in (True, c\<lparr>mc_monitor := Some mo, mc_initialized := True\<rparr>))"

definition tearDown :: "bool \<Rightarrow> event_id list \<Rightarrow> service_core \<Rightarrow> service_core" where
  "tearDown after_disable enabled c =
     (if mc_initialized c then
        let c = c\<lparr>event_pipe_cbs := (\<lambda>e. map_option (\<lambda>cb. cb\<lparr>ep_enabled := after_disable\<rparr>) (event_pipe_cbs c e))\<rparr>
        in case mc_monitor c of
             None \<Rightarrow> c
           | Some mo \<Rightarrow> c\<lparr>mc_monitor := Some (fold unsetAsyncPipeWriter enabled mo)\<rparr>
      else c)"

text \<open>A failed CHECK aborts the process: None.\<close>

definition acceptSubscription ::
  "event_id set \<Rightarrow> service_core \<Rightarrow> ((response_status \<times> (client_id \<times> event_id set) option) \<times> service_core) option" where
  "acceptSubscription requested c =
     (if \<not> mc_initialized c then None
      else Some
        (if enabled_events c = {} then ((NotSupported, None), c)
         else if requested = {} then ((RespOK, None), c)
         else if length (subscription_map c) \<ge> unat (client_limit c) then ((TooManyClients, None), c)
         else
           let subscribed = enabled_events c \<inter> requested
           in if subscribed = {} then ((NotSupported, None), c)
              else
                let new_cid = curr_cid c
                in ((RespOK, Some (new_cid, subscribed)), c\<lparr>curr_cid := new_cid + 1\<rparr>)))"

text \<open>The loop header of getSubscriptionMapForEvent is cut; its are the clients it visits.\<close>

definition getSubscriptionMapForEvent ::
  "(client_id \<times> nat) list \<Rightarrow> event_id \<Rightarrow> service_core \<Rightarrow> (client_id \<times> nat) list option" where
  "getSubscriptionMapForEvent its e c =
     (if \<not> mc_initialized c then None
      else Some (filter (\<lambda>it. case client_to_event_ids c (fst it) of None \<Rightarrow> False | Some es \<Rightarrow> e \<in> es) its))"

definition cbs_update :: "event_id set \<Rightarrow> (event_pipe \<Rightarrow> event_pipe) \<Rightarrow> service_core \<Rightarrow> service_core" where
  "cbs_update es f c = c\<lparr>event_pipe_cbs := (\<lambda>e. if e \<in> es then map_option f (event_pipe_cbs c e) else event_pipe_cbs c e)\<rparr>"

definition addSubscription :: "client_id \<Rightarrow> nat \<Rightarrow> event_id set \<Rightarrow> service_core \<Rightarrow> (bool \<times> service_core) option" where
  "addSubscription cid sub subscribed c =
     (if \<not> mc_initialized c then None
      else if \<exists>e\<in>subscribed. event_pipe_cbs c e = None then Some (False, c)
      else
        let c = cbs_update subscribed (addClientSubscription (cid, sub)) c;
            c = (if map_of (subscription_map c) cid = None
                 then c\<lparr>subscription_map := (cid, sub) # subscription_map c\<rparr> else c);
            c = (if client_to_event_ids c cid = None
                 then c\<lparr>client_to_event_ids := (client_to_event_ids c)(cid \<mapsto> subscribed)\<rparr> else c)
        in Some (True, c))"

definition cancelSubscription :: "client_id \<Rightarrow> service_core \<Rightarrow> service_core option" where
  "cancelSubscription cid c =
     (if \<not> mc_initialized c then None
      else
        case client_to_event_ids c cid of
          None \<Rightarrow>
            let c = c\<lparr>event_pipe_cbs := (\<lambda>e. map_option (removeClientSubscription cid) (event_pipe_cbs c e))\<rparr>
            in Some (c\<lparr>subscription_map := AList.delete cid (subscription_map c)\<rparr>)
        | Some es \<Rightarrow>
            if \<exists>e\<in>es. event_pipe_cbs c e = None then None
            else
              let c = cbs_update es (removeClientSubscription cid) c
              in Some (c\<lparr>subscription_map := AList.delete cid (subscription_map c)\<rparr>))"

definition set_limit :: "u32 \<Rightarrow> service_core \<Rightarrow> service_core" where
  "set_limit lim c = (if unat lim \<ge> length (subscription_map c) then c\<lparr>client_limit := lim\<rparr> else c)"

definition has_client :: "client_id \<Rightarrow> service_core \<Rightarrow> bool" where
  "has_client cid c = (map_of (subscription_map c) cid \<noteq> None)"

end
