(* ===== verification/PcapProps.thy ===== *)
theory PcapProps
  imports EventPipe
begin

text \<open>
  The capture of events: the writer thread stays inside its buffers, and what it sends through
  the pipe of an event reaches the clients message by message, whatever the pieces in which the
  bytes arrive.
\<close>

section \<open>Writers with a place to write\<close>

fun ready :: "data_writer \<Rightarrow> bool" where
  "ready (IOBufWriter cap c) = (length c \<le> cap)"
| "ready (PipeWriter enabled dest hdr) = (dest \<noteq> None)"
| "ready dw = True"

definition all_ready :: "pcap_writer \<Rightarrow> bool" where
  "all_ready w \<longleftrightarrow> (\<forall>e dw. dataWriters w e = Some dw \<longrightarrow> ready dw)"

lemma writeData_ready:
  "ready dw \<Longrightarrow> available n dw \<Longrightarrow> length d \<le> n \<Longrightarrow>
    \<exists>dw'. writeData fs d dw = Some dw' \<and> ready dw' \<and> available (n - length d) dw'"
  by (cases dw) (auto split: prod.splits)

lemma writeHeader_ready:
  "ready dw \<Longrightarrow> available (length d) dw \<Longrightarrow> \<exists>dw'. writeHeader fs d dw = Some dw' \<and> ready dw'"
  using writeData_ready [of dw "length d" d fs] by (cases dw) auto

lemma ready_restart [simp]: "ready dw \<Longrightarrow> ready (restart_writer dw)"
  by (cases dw) auto

lemma ready_stop [simp]: "ready dw \<Longrightarrow> ready (stop_writer dw)"
  by (cases dw) auto

lemma all_ready_upd:
  "all_ready w \<Longrightarrow> ready dw \<Longrightarrow> dataWriters w' = (dataWriters w)(e \<mapsto> dw) \<Longrightarrow> all_ready w'"
  by (auto simp: all_ready_def split: if_splits)

lemma msg_ok_trim: "msg_ok m \<Longrightarrow> msg_ok (trim s m)"
  by (auto simp: msg_ok_def raw_buffer_def trim_def word_le_nat_alt min_def split: option.splits if_splits)

lemma writePacket_ready:
  assumes "layout_law l" "all_ready w" "dataWriters w e = Some dw" "msg_ok m"
    and "available (unat (capturedLen m) + rec_size l) dw"
  shows "\<exists>dw1 dw2. writeData fs (rec_enc l (record_header now m)) dw = Some dw1 \<and>
    writeData fs (the (raw_buffer m)) dw1 = Some dw2 \<and> ready dw2 \<and>
    writePacket l fs now m e w = Some (w\<lparr>dataWriters := (dataWriters w)(e \<mapsto> dw2)\<rparr>)"
proof -
  have r: "ready dw"
    using assms(2,3) by (auto simp: all_ready_def)
  have len: "length (rec_enc l (record_header now m)) = rec_size l"
    using assms(1) by (simp add: layout_law_def)
  obtain dw1 where 1: "writeData fs (rec_enc l (record_header now m)) dw = Some dw1" "ready dw1"
    "available (unat (capturedLen m)) dw1"
    using writeData_ready [OF r assms(5), of "rec_enc l (record_header now m)" fs] len by auto
  obtain dw2 where 2: "writeData fs (the (raw_buffer m)) dw1 = Some dw2" "ready dw2"
    using writeData_ready [OF 1(2,3), of "the (raw_buffer m)" fs] msg_ok_length [OF assms(4)] by auto
  show ?thesis
    using 1(1) 2 assms(3,4) by (auto simp: writePacket_def msg_ok_def)
qed

lemma writePcapHeader_ready:
  assumes "layout_law l" "all_ready w"
  shows "\<exists>ok w'. writePcapHeader l fs e w = Some (ok, w') \<and> all_ready w' \<and> (ok \<longrightarrow> dataWriters w' e = dataWriters w e
       \<or> (\<exists>dw dw'. dataWriters w e = Some dw \<and> writeHeader fs (file_enc l (effective_snaplen w)) dw = Some dw' \<and>
           dataWriters w' = (dataWriters w)(e \<mapsto> dw')))
     \<and> (\<forall>e'. e' \<noteq> e \<longrightarrow> dataWriters w' e' = dataWriters w e')
     \<and> packetAmount w' = packetAmount w \<and> packetLimit w' = packetLimit w
     \<and> packetLimitOverride w' = packetLimitOverride w \<and> enabledEvents w' = enabledEvents w \<and> snaplen w' = snaplen w"
proof (cases "e \<in> headerExists w \<or> dataWriters w e = None")
  case True
  then show ?thesis
    using assms(2) by (auto simp: writePcapHeader_def)
next
  case False
  then obtain dw where dw: "dataWriters w e = Some dw" by auto
  have r: "ready dw"
    using assms(2) dw by (auto simp: all_ready_def)
  show ?thesis
  proof (cases "available (file_size l) dw")
    case True
    have len: "length (file_enc l (effective_snaplen w)) = file_size l"
      using assms(1) by (simp add: layout_law_def)
    obtain dw' where h: "writeHeader fs (file_enc l (effective_snaplen w)) dw = Some dw'" "ready dw'"
      using writeHeader_ready [OF r, of "file_enc l (effective_snaplen w)" fs] True len by auto
    show ?thesis
      using False True dw h assms(2)
      by (auto simp: writePcapHeader_def intro: all_ready_upd)
  next
    case False
    then show ?thesis
      using \<open>\<not> (e \<in> headerExists w \<or> dataWriters w e = None)\<close> dw assms(2)
      by (auto simp: writePcapHeader_def)
  qed
qed

section \<open>The writer thread never faults\<close>

lemma multi_step_ready:
  assumes "layout_law l" "all_ready w" "\<not> mm_control msg \<longrightarrow> msg_ok (mm_msg msg)"
  shows "\<exists>go w'. multi_step l fs now msg w = Some (go, w') \<and> all_ready w'"
proof (cases "mm_control msg")
  case True
  then show ?thesis
    using assms(2)
    by (auto simp: multi_step_def restartWriters_def stopWriters_def all_ready_def)
next
  case False
  define e where "e = getEventId msg"
  define m where "m = trim (effective_snaplen w) (mm_msg msg)"
  obtain ok w1 where h: "writePcapHeader l fs e w = Some (ok, w1)" "all_ready w1" "snaplen w1 = snaplen w"
    using writePcapHeader_ready [OF assms(1,2), of fs e] by blast
  have m: "msg_ok m"
    using assms(3) False by (simp add: m_def msg_ok_trim)
  have s: "effective_snaplen w1 = effective_snaplen w"
    using h(3) by (simp add: effective_snaplen_def)
  have "\<exists>w2. writePacket l fs now m e w1 = Some w2 \<and> all_ready w2"
    if "dataWriters w1 e = Some dw" "available (unat (capturedLen m) + rec_size l) dw" for dw
    using writePacket_ready [OF assms(1) h(2) that(1) m that(2), of fs now] h(2)
    by (auto simp: all_ready_def)
  then show ?thesis
    using False assms(2) h(1,2)
    by (auto simp: multi_step_def Let_def e_def [symmetric] s m_def [symmetric] all_ready_def
        split: option.splits)
qed

text \<open>
  C33: the writer thread is memory safe: if every pipe writer has a pipe, every buffer writer starts
  within its buffer and every message holds the bytes it says it captured, then runMulti gets
  through any sequence of packets and control messages, in any order, without a write outside a
  buffer, a read outside a message or a null pointer; and the writers stay that way.
\<close>

theorem runMulti_safe:
  assumes "layout_law l" and "all_ready w"
    and "\<forall>r\<in>set q. \<not> mm_control (snd r) \<longrightarrow> msg_ok (mm_msg (snd r))"
  shows "\<exists>w'. runMulti l fs q w = Some w' \<and> all_ready w'"
  using assms(2,3)
proof (induction q arbitrary: w)
  case (Cons r q)
  obtain now msg where r: "r = (now, msg)" by fastforce
  obtain go w1 where "multi_step l fs now msg w = Some (go, w1)" "all_ready w1"
    using multi_step_ready [OF assms(1) Cons.prems(1), of msg fs now] Cons.prems(2) r by auto
  then show ?case
    using Cons.IH [of w1] Cons.prems(2) r by simp
qed simp

section \<open>The limit of packets\<close>

definition within_limit :: "pcap_writer \<Rightarrow> bool" where
  "within_limit w \<longleftrightarrow> packetLimitOverride w \<or> packetAmount w \<le> packetLimit w"

lemma multi_step_limit:
  assumes "within_limit w" "multi_step l fs now msg w = Some (go, w')"
  shows "within_limit w'"
proof -
  have h: "packetAmount w1 = packetAmount w \<and> packetLimit w1 = packetLimit w \<and>
      packetLimitOverride w1 = packetLimitOverride w"
    if "writePcapHeader l fs e w = Some (ok, w1)" for e ok w1
    using that by (auto simp: writePcapHeader_def split: if_splits option.splits)
  have p: "packetAmount w2 = packetAmount w1 \<and> packetLimit w2 = packetLimit w1 \<and>
      packetLimitOverride w2 = packetLimitOverride w1"
    if "writePacket l fs now m e w1 = Some w2" for m e w1 w2
    using that by (auto simp: writePacket_def split: option.splits)
  have i: "a < b \<Longrightarrow> a + 1 \<le> b" for a b :: u32
    by (simp add: inc_le)
  show ?thesis
    using assms
    by (auto simp: multi_step_def Let_def within_limit_def restartWriters_def stopWriters_def not_le i
        split: if_splits option.splits prod.splits dest!: h p)
qed

section \<open>From the writer to the clients\<close>

text \<open>The messages of one event, trimmed, with the times of their records.\<close>

definition event_messages ::
  "event_id \<Rightarrow> u32 \<Rightarrow> ((u32 \<times> u32) \<times> pcap_msg_meta) list \<Rightarrow> ((u32 \<times> u32) \<times> pcap_msg) list" where
  "event_messages e snap q =
     map (\<lambda>r. (fst r, trim snap (mm_msg (snd r)))) (filter (\<lambda>r. getEventId (snd r) = e) q)"

definition pipe_of :: "event_id \<Rightarrow> pcap_writer \<Rightarrow> bytes option" where
  "pipe_of e w = (case dataWriters w e of Some (PipeWriter True dest hdr) \<Rightarrow> dest | _ \<Rightarrow> None)"

lemma pipe_ofD: "pipe_of e w = Some s \<Longrightarrow> \<exists>hdr. dataWriters w e = Some (PipeWriter True (Some s) hdr)"
  by (auto simp: pipe_of_def split: option.splits data_writer.splits bool.splits)

lemma writePcapHeader_pipe:
  assumes "writePcapHeader l fs e' w = Some (ok, w')" "pipe_of e w = Some s"
  shows "pipe_of e w' = Some s \<and> (e' = e \<longrightarrow> ok)"
  using assms pipe_ofD [OF assms(2)]
  by (auto simp: writePcapHeader_def pipe_of_def split: if_splits option.splits)

lemma writePacket_pipe:
  assumes "writePacket l fs now m e' w = Some w'" "pipe_of e w = Some s" "msg_ok m" "layout_law l"
  shows "pipe_of e w' = Some (if e' = e then s @ pcap_record l (now, m) else s)"
proof (cases "e' = e")
  case True
  obtain hdr where d: "dataWriters w e = Some (PipeWriter True (Some s) hdr)"
    using pipe_ofD [OF assms(2)] by blast
  have "rec_enc l h \<noteq> []" for h
    using assms(4) by (metis layout_law_def less_irrefl list.size(3))
  then show ?thesis
    using assms(1,3) d True
    by (auto simp: writePacket_def msg_ok_def pcap_record_def pipe_of_def split: option.splits if_splits)
next
  case False
  then show ?thesis
    using assms(1,2) by (auto simp: writePacket_def pipe_of_def split: option.splits)
qed

lemma multi_step_pipe:
  assumes "layout_law l" "all_ready w" "\<not> mm_control msg" "msg_ok (mm_msg msg)"
    and "packetLimitOverride w" "e \<in> enabledEvents w" "pipe_of e w = Some s"
  shows "\<exists>w'. multi_step l fs now msg w = Some (True, w') \<and> packetLimitOverride w' \<and>
    enabledEvents w' = enabledEvents w \<and> snaplen w' = snaplen w \<and>
    pipe_of e w' = Some (if getEventId msg = e
      then s @ pcap_record l (now, trim (effective_snaplen w) (mm_msg msg)) else s)"
proof -
  define e' where "e' = getEventId msg"
  define m where "m = trim (effective_snaplen w) (mm_msg msg)"
  obtain ok w1 where h: "writePcapHeader l fs e' w = Some (ok, w1)" "all_ready w1"
    "packetLimitOverride w1 = packetLimitOverride w" "enabledEvents w1 = enabledEvents w" "snaplen w1 = snaplen w"
    using writePcapHeader_ready [OF assms(1,2), of fs e'] by blast
  have hp: "pipe_of e w1 = Some s" "e' = e \<longrightarrow> ok"
    using writePcapHeader_pipe [OF h(1) assms(7)] by auto
  have m: "msg_ok m"
    using assms(4) by (simp add: m_def msg_ok_trim)
  have s: "effective_snaplen w1 = effective_snaplen w"
    using h(5) by (simp add: effective_snaplen_def)
  have p: "\<exists>w2. writePacket l fs now m e' w1 = Some w2 \<and> packetLimitOverride w2 = packetLimitOverride w \<and>
      enabledEvents w2 = enabledEvents w \<and> snaplen w2 = snaplen w \<and>
      pipe_of e w2 = Some (if e' = e then s @ pcap_record l (now, m) else s)"
    if "dataWriters w1 e' = Some dw" "available (unat (capturedLen m) + rec_size l) dw" for dw
    using writePacket_ready [OF assms(1) h(2) that(1) m that(2), of fs now] h(3-5)
      writePacket_pipe [OF _ hp(1) m assms(1), of fs now e']
    by auto
  obtain hdr where d: "dataWriters w1 e = Some (PipeWriter True (Some s) hdr)"
    using pipe_ofD [OF hp(1)] by blast
  show ?thesis
  proof (cases "e' = e")
    case True
    then show ?thesis
      using assms(3,5,6) h(1) hp(2) p [of "PipeWriter True (Some s) hdr"] d
      by (auto simp: multi_step_def Let_def e'_def [symmetric] s m_def [symmetric] pipe_of_def)
  next
    case False
    have pu [simp]: "pipe_of e (x\<lparr>bufferFull := a\<rparr>) = pipe_of e x" "pipe_of e (x\<lparr>packetAmount := a\<rparr>) = pipe_of e x"
      for x a by (simp_all add: pipe_of_def)
    show ?thesis
      using assms(3,5,7) h hp(1) p False
      by (cases "dataWriters w1 e'")
         (auto simp: multi_step_def Let_def e'_def [symmetric] s m_def [symmetric])
  qed
qed

lemma runMulti_pipe:
  assumes "layout_law l" "all_ready w" "\<forall>r\<in>set q. \<not> mm_control (snd r) \<and> msg_ok (mm_msg (snd r))"
    and "packetLimitOverride w" "e \<in> enabledEvents w" "pipe_of e w = Some s"
  shows "\<exists>w'. runMulti l fs q w = Some w' \<and>
    pipe_of e w' = Some (s @ concat (map (pcap_record l) (event_messages e (effective_snaplen w) q)))"
  using assms(2-6)
proof (induction q arbitrary: w s)
  case Nil
  then show ?case by (simp add: event_messages_def)
next
  case (Cons r q)
  obtain now msg where r: "r = (now, msg)" by fastforce
  have ok: "\<not> mm_control msg" "msg_ok (mm_msg msg)"
    using Cons.prems(2) r by auto
  obtain w1 where 1: "multi_step l fs now msg w = Some (True, w1)" "packetLimitOverride w1"
    "enabledEvents w1 = enabledEvents w" "snaplen w1 = snaplen w"
    "pipe_of e w1 = Some (if getEventId msg = e
      then s @ pcap_record l (now, trim (effective_snaplen w) (mm_msg msg)) else s)"
    using multi_step_pipe [OF assms(1) Cons.prems(1) ok Cons.prems(3,4,5), of fs now] by blast
  have 2: "all_ready w1"
    using multi_step_ready [OF assms(1) Cons.prems(1), of msg fs now] ok 1(1) by auto
  have 3: "effective_snaplen w1 = effective_snaplen w"
    using 1(4) by (simp add: effective_snaplen_def)
  show ?case
    using Cons.IH [OF 2 _ 1(2) _ 1(5)] Cons.prems(2,4) 1(1,3) r
    by (auto simp: event_messages_def 3)
qed

lemma pipe_delivery:
  assumes "layout_law l" and "all_ready w"
    and "\<forall>r\<in>set q. \<not> mm_control (snd r) \<and> msg_ok (mm_msg (snd r))"
    and "packetLimitOverride w" and "e \<in> enabledEvents w" and "pipe_of e w = Some []"
    and "ep_enabled ep" and "ep_readBuffer ep = []" and "ep_event_id ep = e"
  shows "\<exists>w' sent. runMulti l fs q w = Some w' \<and> pipe_of e w' = Some sent \<and>
    (\<forall>pieces. concat pieces = sent \<longrightarrow> read_pieces l its pieces ep = ep\<lparr>ep_sent := ep_sent ep @
       concat (map (\<lambda>r. map (\<lambda>c. (c, \<lparr>ev_id = e, ev_pktsize = origLen (snd r), ev_data = pcap_record l r\<rparr>)) its)
         (event_messages e (effective_snaplen w) q))\<rparr>)"
proof -
  define ms where "ms = event_messages e (effective_snaplen w) q"
  obtain w' where w': "runMulti l fs q w = Some w'" "pipe_of e w' = Some (concat (map (pcap_record l) ms))"
    using runMulti_pipe [OF assms(1-6), of fs] by (auto simp: ms_def)
  have ok: "\<forall>r\<in>set ms. msg_ok (snd r)"
    using assms(3) by (force simp: ms_def event_messages_def intro: msg_ok_trim)
  have e: "fst (read_records l []) = []"
    by (subst read_records.simps) simp
  have "read_pieces l its pieces ep = ep\<lparr>ep_sent := ep_sent ep @
       concat (map (\<lambda>r. map (\<lambda>c. (c, \<lparr>ev_id = e, ev_pktsize = origLen (snd r), ev_data = pcap_record l r\<rparr>)) its) ms)\<rparr>"
    if "concat pieces = concat (map (pcap_record l) ms)" for pieces
    using read_pieces_eq [OF assms(7), of l pieces _ "[]" its] read_records_stream [OF assms(1) ok] assms(8,9) that e
    by (simp add: comp_def record_event_def record_header_def)
  then show ?thesis
    using w' by (auto simp: ms_def)
qed

text \<open>
  What a client sees of an event is what the data plane reported. When the queue holds packets
  of any events, the writer thread appends the records of event e to the pipe of e; and in
  whatever pieces those bytes arrive at the other end, the callback sends its clients one event per
  message, in order, with the original length and the record of the message, and keeps nothing
  back.
\<close>

theorem pipe_delivers_messages:
  assumes "layout_law l" and "all_ready w"
    and "\<forall>r\<in>set q. \<not> mm_control (snd r) \<and> msg_ok (mm_msg (snd r))"
    and "packetLimitOverride w" and "e \<in> enabledEvents w" and "pipe_of e w = Some []"
    and "ep_enabled ep" and "ep_readBuffer ep = []" and "ep_event_id ep = e"
  shows "\<exists>w' sent. runMulti l fs q w = Some w' \<and> pipe_of e w' = Some sent \<and>
    (\<forall>pieces. concat pieces = sent \<longrightarrow> read_pieces l its pieces ep = ep\<lparr>ep_sent := ep_sent ep @
       concat (map (\<lambda>r. map (\<lambda>c. (c, \<lparr>ev_id = e, ev_pktsize = origLen (snd r), ev_data = pcap_record l r\<rparr>)) its)
         (event_messages e (effective_snaplen w) q))\<rparr>)"
  using pipe_delivery [OF assms, of fs its] .

section \<open>A concrete capture\<close>

lemma rd32_le32: "rd32 (le32 w @ q) 0 = w"
  using rd32_wr_here [of 0 "replicate 4 0 @ q" w]
  by (simp add: rd32_def rd16_def rd8_def le32_def wr.simps numeral_eq_Suc nth_append)

lemma layout_law_libpcap: "layout_law libpcap"
proof -
  have "\<lparr>ts_sec = rd32 p 0, ts_usec = rd32 p 4, incl_len = rd32 p 8, orig_len = rd32 p 12\<rparr> = h"
    if "p = le32 (ts_sec h) @ le32 (ts_usec h) @ le32 (incl_len h) @ le32 (orig_len h)" for p h
  proof -
    have "rd32 (le32 w @ q) 0 = w" for w q
      by (rule rd32_le32)
    moreover have "rd32 (le32 w @ q) (i + 4) = rd32 q i" for w q i
      using rd32_drop [of 4 "le32 w @ q" i] by (simp add: add.commute)
    ultimately have "rd32 p 0 = ts_sec h" "rd32 p (0 + 4) = ts_usec h" "rd32 p (0 + 4 + 4) = incl_len h"
      "rd32 p (0 + 4 + 4 + 4) = orig_len h"
      unfolding that by (metis append_Nil2)+
    then show ?thesis by simp
  qed
  then show ?thesis
    by (simp add: layout_law_def libpcap_def)
qed

definition ex_capture :: "((u32 \<times> u32) \<times> pcap_msg_meta) list" where
  "ex_capture = map (\<lambda>e. ((1, 2), \<lparr>mm_msg = new_pcap_msg (Some (replicate 20 7)) 60 20, mm_event = e,
     mm_packetLimit = 0, mm_restart = False, mm_control = False, mm_stop = False, mm_shutdown = False\<rparr>))
     [1, 0, 1]"

definition ex_pcap_writer :: pcap_writer where
  "ex_pcap_writer = (new_pcap_writer [1 \<mapsto> PipeWriter True (Some []) None, 0 \<mapsto> IOBufWriter 10 []] 0 8)
     \<lparr>packetLimitOverride := True, enabledEvents := {0, 1}\<rparr>"

lemma ex_capture_ok:
  "all_ready ex_pcap_writer" "\<forall>r\<in>set ex_capture. \<not> mm_control (snd r) \<and> msg_ok (mm_msg (snd r))"
  by (simp_all add: ex_pcap_writer_def all_ready_def new_pcap_writer_def ex_capture_def msg_ok_def
      new_pcap_msg_def raw_buffer_def)

theorem runMulti_safe_witness:
  "runMulti libpcap (\<lambda>c d. (True, c @ d)) ex_capture ex_pcap_writer \<noteq> None"
  using runMulti_safe [OF layout_law_libpcap ex_capture_ok(1), of ex_capture "\<lambda>c d. (True, c @ d)"]
    ex_capture_ok(2) by auto

theorem pipe_delivers_messages_witness:
  "\<exists>w' sent. runMulti libpcap (\<lambda>c d. (True, c @ d)) ex_capture ex_pcap_writer = Some w' \<and>
     pipe_of 1 w' = Some sent \<and>
     length (ep_sent (read_pieces libpcap [7] [take 5 sent, drop 5 sent] ((new_event_pipe 1)\<lparr>ep_enabled := True\<rparr>))) = 2"
proof -
  have p: "packetLimitOverride ex_pcap_writer" "1 \<in> enabledEvents ex_pcap_writer" "pipe_of 1 ex_pcap_writer = Some []"
    by (simp_all add: ex_pcap_writer_def pipe_of_def new_pcap_writer_def)
  have e: "ep_enabled ((new_event_pipe 1)\<lparr>ep_enabled := True\<rparr>)" "ep_readBuffer ((new_event_pipe 1)\<lparr>ep_enabled := True\<rparr>) = []"
    "ep_event_id ((new_event_pipe 1)\<lparr>ep_enabled := True\<rparr>) = 1"
    by (simp_all add: new_event_pipe_def)
  have n: "length (event_messages 1 (effective_snaplen ex_pcap_writer) ex_capture) = 2"
    by (simp add: event_messages_def ex_capture_def getEventId_def)
  have cc: "concat [take 5 s, drop 5 s] = s" for s :: bytes
    by simp
  show ?thesis
    using pipe_delivers_messages [OF layout_law_libpcap ex_capture_ok p e, of "\<lambda>c d. (True, c @ d)" "[7]"] cc
    by (auto simp: n length_concat comp_def new_event_pipe_def sum_list_triv simp del: read_pieces.simps concat.simps)
qed

end
