(* ===== verification/MonitoringProps.thy ===== *)
theory MonitoringProps
  imports Monitoring PcapProps
begin

text \<open>
  The subscriptions of clients to events: what holds in every reachable state of the service, and
  two histories in which the code goes wrong.
\<close>

section \<open>The clients of a callback\<close>

text \<open>
  What the service relies on from the callback of an event: a collection of clients with addition
  and removal of one.
\<close>

locale client_registry =
  fixes has :: "'s \<Rightarrow> client_id \<Rightarrow> bool"
    and add :: "client_id \<times> nat \<Rightarrow> 's \<Rightarrow> 's"
    and remove :: "client_id \<Rightarrow> 's \<Rightarrow> 's"
  assumes has_add: "has (add s r) d \<longleftrightarrow> has r d \<or> d = fst s"
    and has_remove: "has (remove c r) d \<longleftrightarrow> has r d \<and> d \<noteq> c"
begin

lemma remove_add: "\<not> has r (fst s) \<Longrightarrow> has (remove (fst s) (add s r)) d \<longleftrightarrow> has r d"
  by (auto simp: has_add has_remove)

text \<open>A family of collections, one per event, updated on a set of events.\<close>

lemma add_on_set:
  "(if e \<in> es then map_option (add s) (m e) else m e) = Some r \<Longrightarrow> has r d \<Longrightarrow>
    (\<exists>r0. m e = Some r0 \<and> has r0 d) \<or> (e \<in> es \<and> d = fst s)"
  by (auto simp: has_add split: if_splits)

lemma remove_on_set:
  "(if e \<in> es then map_option (remove c) (m e) else m e) = Some r \<Longrightarrow> has r d \<Longrightarrow>
    (\<exists>r0. m e = Some r0 \<and> has r0 d) \<and> (d = c \<longrightarrow> e \<notin> es)"
  by (auto simp: has_remove split: if_splits)

end

definition subscribed_to :: "event_pipe \<Rightarrow> client_id \<Rightarrow> bool" where
  "subscribed_to ep cid \<longleftrightarrow> ep_subsmap ep cid \<noteq> None"

interpretation pipe_clients: client_registry subscribed_to addClientSubscription removeClientSubscription
  by unfold_locales
    (auto simp: subscribed_to_def addClientSubscription_def removeClientSubscription_def)

section \<open>The invariant of the service\<close>

definition core_inv :: "service_core \<Rightarrow> bool" where
  "core_inv c \<longleftrightarrow> mc_initialized c \<and>
     (\<forall>e ep cid. event_pipe_cbs c e = Some ep \<longrightarrow> subscribed_to ep cid \<longrightarrow>
        (\<exists>es. client_to_event_ids c cid = Some es \<and> e \<in> es)) \<and>
     (\<forall>cid es e. client_to_event_ids c cid = Some es \<longrightarrow> e \<in> es \<longrightarrow> event_pipe_cbs c e \<noteq> None)"

text \<open>
  The calls of the service and the arrival of data. A client is added under an id that was not
  used before, as acceptSubscription hands them out.
\<close>

inductive core_step :: "service_core \<Rightarrow> service_core \<Rightarrow> bool" where
  accept: "acceptSubscription req c = Some (r, c') \<Longrightarrow> core_step c c'"
| subscribe: "client_to_event_ids c cid = None \<Longrightarrow> addSubscription cid s es c = Some (ok, c') \<Longrightarrow> core_step c c'"
| cancel: "cancelSubscription cid c = Some c' \<Longrightarrow> core_step c c'"
| limit: "core_step c (set_limit n c)"
| data: "event_pipe_cbs c e = Some ep \<Longrightarrow>
    core_step c (c\<lparr>event_pipe_cbs := (event_pipe_cbs c)(e \<mapsto> readDataAvailable l its d ep)\<rparr>)"

inductive_cases core_stepE: "core_step c c'"

inductive core_runs :: "service_core \<Rightarrow> service_core \<Rightarrow> bool" where
  refl: "core_runs c c"
| step: "core_runs c c' \<Longrightarrow> core_step c' c'' \<Longrightarrow> core_runs c c''"

lemma subscribed_read [simp]: "subscribed_to (readDataAvailable l its d ep) cid = subscribed_to ep cid"
  by (simp add: readDataAvailable_def readBuffer_def subscribed_to_def Let_def split: prod.splits)

lemma core_inv_subscribe:
  assumes "core_inv c" "client_to_event_ids c cid = None" "addSubscription cid s es c = Some (ok, c')"
  shows "core_inv c'"
proof (cases "\<exists>e\<in>es. event_pipe_cbs c e = None")
  case True
  then show ?thesis
    using assms by (auto simp: addSubscription_def split: if_splits)
next
  case False
  have i: "event_pipe_cbs c e = Some ep \<Longrightarrow> subscribed_to ep d \<Longrightarrow>
      \<exists>es. client_to_event_ids c d = Some es \<and> e \<in> es" for e ep d
    using assms(1) unfolding core_inv_def by blast
  have cbs: "event_pipe_cbs c' = (\<lambda>e. if e \<in> es
      then map_option (addClientSubscription (cid, s)) (event_pipe_cbs c e) else event_pipe_cbs c e)"
    and ids: "client_to_event_ids c' = (client_to_event_ids c)(cid \<mapsto> es)"
    and init: "mc_initialized c'"
    using assms False
    by (auto simp: addSubscription_def cbs_update_def Let_def core_inv_def split: if_splits)
  have "\<exists>es'. client_to_event_ids c' d = Some es' \<and> e \<in> es'"
    if "event_pipe_cbs c' e = Some ep" "subscribed_to ep d" for e ep d
    using pipe_clients.add_on_set [of e es "(cid, s)" "event_pipe_cbs c" ep d] that cbs i assms(2) unfolding ids by fastforce
  moreover have "event_pipe_cbs c' e = None \<longleftrightarrow> event_pipe_cbs c e = None" for e
    by (auto simp: cbs)
  moreover have "\<forall>e\<in>es. event_pipe_cbs c e \<noteq> None"
    using False by auto
  ultimately show ?thesis
    using assms(1) init by (auto simp: core_inv_def ids split: if_splits)
qed

text \<open>What a cancellation leaves of the callbacks.\<close>

lemma cancel_cases:
  assumes "core_inv c" "cancelSubscription cid c = Some c'"
  obtains es where "event_pipe_cbs c' = (\<lambda>e. if e \<in> es
      then map_option (removeClientSubscription cid) (event_pipe_cbs c e) else event_pipe_cbs c e)"
    and "client_to_event_ids c' = client_to_event_ids c" and "mc_initialized c'"
    and "subscription_map c' = AList.delete cid (subscription_map c)"
    and "case client_to_event_ids c cid of None \<Rightarrow> es = UNIV | Some s \<Rightarrow> es = s"
proof (cases "client_to_event_ids c cid")
  case None
  then show ?thesis
    using assms that [of UNIV]
    by (auto simp: cancelSubscription_def Let_def core_inv_def split: if_splits)
next
  case (Some s)
  then show ?thesis
    using assms that [of s]
    by (auto simp: cancelSubscription_def cbs_update_def Let_def core_inv_def split: if_splits)
qed

lemma core_inv_cancel:
  assumes "core_inv c" "cancelSubscription cid c = Some c'"
  shows "core_inv c'"
proof -
  obtain es where c': "event_pipe_cbs c' = (\<lambda>e. if e \<in> es
      then map_option (removeClientSubscription cid) (event_pipe_cbs c e) else event_pipe_cbs c e)"
    "client_to_event_ids c' = client_to_event_ids c" "mc_initialized c'"
    using cancel_cases [OF assms] by metis
  have "event_pipe_cbs c' e = None \<longleftrightarrow> event_pipe_cbs c e = None" for e
    by (auto simp: c'(1))
  moreover have "\<exists>es. client_to_event_ids c d = Some es \<and> e \<in> es"
    if a: "event_pipe_cbs c' e = Some ep" "subscribed_to ep d" for e ep d
  proof -
    obtain r0 where "event_pipe_cbs c e = Some r0" "subscribed_to r0 d"
      using pipe_clients.remove_on_set [of e es cid "event_pipe_cbs c" ep d] a c'(1) by auto
    then show ?thesis
      using assms(1) unfolding core_inv_def by blast
  qed
  ultimately show ?thesis
    using assms(1) c' by (simp add: core_inv_def)
qed

lemma core_inv_step: "core_step c c' \<Longrightarrow> core_inv c \<Longrightarrow> core_inv c'"
proof (erule core_stepE)
  fix req r
  assume "core_inv c" "acceptSubscription req c = Some (r, c')"
  then show "core_inv c'"
    by (auto simp: acceptSubscription_def core_inv_def Let_def split: if_splits)
next
  fix cid s es ok
  assume "core_inv c" "client_to_event_ids c cid = None" "addSubscription cid s es c = Some (ok, c')"
  then show "core_inv c'" by (rule core_inv_subscribe)
next
  fix cid
  assume "core_inv c" "cancelSubscription cid c = Some c'"
  then show "core_inv c'" by (rule core_inv_cancel)
next
  fix n
  assume "core_inv c" "c' = set_limit n c"
  then show "core_inv c'" by (simp add: set_limit_def core_inv_def)
next
  fix e ep l its d
  assume i: "core_inv c" "event_pipe_cbs c e = Some ep"
    and c': "c' = c\<lparr>event_pipe_cbs := (event_pipe_cbs c)(e \<mapsto> readDataAvailable l its d ep)\<rparr>"
  from i show "core_inv c'"
    unfolding core_inv_def c' by (auto split: if_splits)
qed

lemma core_inv_runs: "core_runs c c' \<Longrightarrow> core_inv c \<Longrightarrow> core_inv c'"
  by (induction rule: core_runs.induct) (auto intro: core_inv_step)

lemma init_events_core:
  "init_events ok en es mo c = (mo', c') \<Longrightarrow> \<forall>e ep d. event_pipe_cbs c e = Some ep \<longrightarrow> \<not> subscribed_to ep d \<Longrightarrow>
    (\<forall>e ep d. event_pipe_cbs c' e = Some ep \<longrightarrow> \<not> subscribed_to ep d) \<and>
    client_to_event_ids c' = client_to_event_ids c"
proof (induction es arbitrary: mo c)
  case (Cons e es)
  show ?case
  proof (cases "ok e")
    case True
    define c1 where "c1 = (if event_pipe_cbs c e = None
      then c\<lparr>event_pipe_cbs := (event_pipe_cbs c)(e \<mapsto> (new_event_pipe e)\<lparr>ep_enabled := en\<rparr>)\<rparr> else c)"
    have f: "\<forall>e' ep d. event_pipe_cbs c1 e' = Some ep \<longrightarrow> \<not> subscribed_to ep d"
      and g: "client_to_event_ids c1 = client_to_event_ids c"
      using Cons.prems(2) by (auto simp: c1_def new_event_pipe_def subscribed_to_def split: if_splits)
    show ?thesis
      using Cons.IH [of "setAsyncPipeWriter e mo" "c1\<lparr>enabled_events := insert e (enabled_events c1)\<rparr>"]
        Cons.prems(1) True f g
      by (simp add: c1_def Let_def)
  next
    case False
    then show ?thesis
      using Cons by auto
  qed
qed auto

lemma core_inv_initialize:
  assumes "service_initialize ok en es (Some mo) new_service_core = (True, c)"
  shows "core_inv c"
proof -
  obtain mo' c1 where i: "init_events ok en es mo new_service_core = (mo', c1)"
    by (metis prod.exhaust)
  have "c = c1\<lparr>mc_monitor := Some mo', mc_initialized := True\<rparr>"
    using assms i by (simp add: service_initialize_def new_service_core_def)
  then show ?thesis
    using init_events_core [OF i] by (simp add: core_inv_def new_service_core_def)
qed

text \<open>
  C32: in every state the service reaches after its initialisation, through any requests,
  subscriptions under ids not used before, cancellations and arriving data, cancelling a client
  does not abort, and afterwards the client is in no callback and not among the subscriptions: no
  event is sent to it any more. Every other client keeps its entry among the subscriptions, and stays
  exactly where it was registered: at the callbacks that held it and at no others.
\<close>

theorem cancel_silences_client:
  assumes "service_initialize ok en es (Some mo) new_service_core = (True, c0)" and "core_runs c0 c"
  shows "\<exists>c'. cancelSubscription cid c = Some c' \<and> \<not> has_client cid c' \<and>
    (\<forall>e ep. event_pipe_cbs c' e = Some ep \<longrightarrow> \<not> subscribed_to ep cid) \<and>
    (\<forall>d. d \<noteq> cid \<longrightarrow> map_of (subscription_map c') d = map_of (subscription_map c) d) \<and>
    dom (event_pipe_cbs c') = dom (event_pipe_cbs c) \<and>
    (\<forall>e ep d. d \<noteq> cid \<longrightarrow> event_pipe_cbs c e = Some ep \<longrightarrow>
       (\<exists>ep'. event_pipe_cbs c' e = Some ep' \<and> (subscribed_to ep' d \<longleftrightarrow> subscribed_to ep d)))"
proof -
  have inv: "core_inv c"
    using core_inv_runs [OF assms(2)] core_inv_initialize [OF assms(1)] by simp
  have "cancelSubscription cid c \<noteq> None"
  proof (cases "client_to_event_ids c cid")
    case (Some es)
    then have "\<forall>e\<in>es. event_pipe_cbs c e \<noteq> None"
      using inv unfolding core_inv_def by blast
    then show ?thesis
      using Some inv by (simp add: cancelSubscription_def core_inv_def Let_def)
  qed (use inv in \<open>simp add: cancelSubscription_def core_inv_def Let_def\<close>)
  then obtain c' where c': "cancelSubscription cid c = Some c'" by blast
  obtain s where cbs: "event_pipe_cbs c' = (\<lambda>e. if e \<in> s
      then map_option (removeClientSubscription cid) (event_pipe_cbs c e) else event_pipe_cbs c e)"
    and sm: "subscription_map c' = AList.delete cid (subscription_map c)"
    and s: "case client_to_event_ids c cid of None \<Rightarrow> s = UNIV | Some es \<Rightarrow> s = es"
    using cancel_cases [OF inv c'] by metis
  have "\<not> has_client cid c'"
    by (simp add: has_client_def sm AList.delete_conv)
  moreover have "\<not> subscribed_to ep cid" if b: "event_pipe_cbs c' e = Some ep" for e ep
  proof
    assume a: "subscribed_to ep cid"
    obtain ep0 where "event_pipe_cbs c e = Some ep0" "subscribed_to ep0 cid" "e \<notin> s"
      using pipe_clients.remove_on_set [of e s cid "event_pipe_cbs c" ep cid] a b cbs by auto
    then show False
      using inv s unfolding core_inv_def by fastforce
  qed
  moreover have "\<exists>ep'. event_pipe_cbs c' e = Some ep' \<and> (subscribed_to ep' d \<longleftrightarrow> subscribed_to ep d)"
    if "d \<noteq> cid" "event_pipe_cbs c e = Some ep" for e ep d
    using that pipe_clients.has_remove [of cid ep d] by (auto simp: cbs)
  moreover have "map_of (subscription_map c') d = map_of (subscription_map c) d" if "d \<noteq> cid" for d
    using that by (simp add: sm AList.delete_conv)
  moreover have "dom (event_pipe_cbs c') = dom (event_pipe_cbs c)"
    by (auto simp: cbs split: if_splits)
  ultimately show ?thesis
    using c' by (intro exI [of _ c'] conjI) simp_all
qed

definition ex_monitor :: monitor where
  "ex_monitor = new_monitor \<lparr>mo_pcktLimit = 0, mo_snapLen = 0, mo_events = [0, 1], mo_storage = StorePipe,
     mo_bufferSize = 0\<rparr>"

definition ex_service :: service_core where
  "ex_service = snd (service_initialize (\<lambda>e. True) True [0, 1] (Some ex_monitor) new_service_core)"

lemma ex_service_init:
  "service_initialize (\<lambda>e. True) True [0, 1] (Some ex_monitor) new_service_core = (True, ex_service)"
  by (simp add: ex_service_def service_initialize_def new_service_core_def Let_def split: prod.splits)

theorem cancel_silences_client_witness:
  "\<exists>c c'. addSubscription 5 9 {0} ex_service = Some (True, c) \<and> has_client 5 c \<and>
    cancelSubscription 5 c = Some c' \<and> \<not> has_client 5 c'"
proof -
  have s: "mc_initialized ex_service" "event_pipe_cbs ex_service 0 \<noteq> None"
    "client_to_event_ids ex_service 5 = None" "map_of (subscription_map ex_service) 5 = None"
    by (simp_all add: ex_service_def service_initialize_def new_service_core_def Let_def)
  then obtain c where c: "addSubscription 5 9 {0} ex_service = Some (True, c)" "has_client 5 c"
    by (auto simp: addSubscription_def cbs_update_def Let_def has_client_def)
  have "core_runs ex_service c"
    using core_runs.step [OF core_runs.refl core_step.subscribe [OF s(3) c(1)]] .
  from cancel_silences_client [OF ex_service_init this, of 5]
  show ?thesis
    using c by (elim exE conjE) (intro exI conjI, assumption+)
qed

section \<open>Histories that go wrong\<close>

text \<open>
  The events of a client are never forgotten by cancelSubscription and never replaced by
  addSubscription. A client that subscribes to one event, cancels, subscribes to another event under
  the same id and cancels again is still registered at the callback of the second event, so that
  events go on being sent to a client that left.
\<close>

theorem resubscription_survives_cancel:
  assumes "mc_initialized c" "client_to_event_ids c cid = None" "e1 \<noteq> e2"
    and "event_pipe_cbs c e1 = Some ep1" "event_pipe_cbs c e2 = Some ep2" "\<not> subscribed_to ep2 cid"
  shows "\<exists>c1 c2 c3 c4 ep. addSubscription cid s1 {e1} c = Some (True, c1) \<and>
    cancelSubscription cid c1 = Some c2 \<and> addSubscription cid s2 {e2} c2 = Some (True, c3) \<and>
    cancelSubscription cid c3 = Some c4 \<and> \<not> has_client cid c4 \<and>
    event_pipe_cbs c4 e2 = Some ep \<and> subscribed_to ep cid"
proof -
  define c1 where "c1 = snd (the (addSubscription cid s1 {e1} c))"
  define c2 where "c2 = the (cancelSubscription cid c1)"
  define c3 where "c3 = snd (the (addSubscription cid s2 {e2} c2))"
  define c4 where "c4 = the (cancelSubscription cid c3)"
  have 1: "addSubscription cid s1 {e1} c = Some (True, c1)" "mc_initialized c1"
    "client_to_event_ids c1 cid = Some {e1}" "event_pipe_cbs c1 e1 \<noteq> None" "event_pipe_cbs c1 e2 = Some ep2"
    using assms by (auto simp: c1_def addSubscription_def cbs_update_def Let_def)
  have 2: "cancelSubscription cid c1 = Some c2" "mc_initialized c2"
    "client_to_event_ids c2 cid = Some {e1}" "event_pipe_cbs c2 e1 \<noteq> None" "event_pipe_cbs c2 e2 = Some ep2"
    using 1 assms(3) by (auto simp: c2_def cancelSubscription_def cbs_update_def Let_def)
  have 3: "addSubscription cid s2 {e2} c2 = Some (True, c3)" "mc_initialized c3"
    "client_to_event_ids c3 cid = Some {e1}" "event_pipe_cbs c3 e1 \<noteq> None"
    "event_pipe_cbs c3 e2 = Some (addClientSubscription (cid, s2) ep2)"
    using 2 assms(3) by (auto simp: c3_def addSubscription_def cbs_update_def Let_def)
  have 4: "cancelSubscription cid c3 = Some c4" "\<not> has_client cid c4"
    "event_pipe_cbs c4 e2 = Some (addClientSubscription (cid, s2) ep2)"
    using 3 assms(3)
    by (auto simp: c4_def cancelSubscription_def cbs_update_def Let_def has_client_def AList.delete_conv)
  show ?thesis
    using 1(1) 2(1) 3(1) 4 pipe_clients.has_add [of "(cid, s2)" ep2 cid] by auto
qed

theorem resubscription_survives_cancel_witness:
  "\<exists>c4 ep. event_pipe_cbs c4 1 = Some ep \<and> \<not> has_client 5 c4 \<and> subscribed_to ep 5"
proof -
  have s: "mc_initialized ex_service" "client_to_event_ids ex_service 5 = None" "(0 :: event_id) \<noteq> 1"
    "event_pipe_cbs ex_service 0 = Some ((new_event_pipe 0)\<lparr>ep_enabled := True\<rparr>)"
    "event_pipe_cbs ex_service 1 = Some ((new_event_pipe 1)\<lparr>ep_enabled := True\<rparr>)"
    "\<not> subscribed_to ((new_event_pipe 1)\<lparr>ep_enabled := True\<rparr>) 5"
    by (simp_all add: ex_service_def service_initialize_def new_service_core_def Let_def
        new_event_pipe_def subscribed_to_def)
  show ?thesis
    using resubscription_survives_cancel [OF s] by blast
qed

lemma create_writers_pipe:
  "e \<in> set es \<Longrightarrow> create_writers StorePipe bs kept {} es e = Some (PipeWriter True None None)"
  by (induction es) auto

lemma fold_enable:
  "fold (\<lambda>e w. snd (enableEvent e w)) es w = w\<lparr>enabledEvents := enabledEvents w \<union> set es\<rparr>"
  by (induction es arbitrary: w) (simp_all add: enableEvent_def)

text \<open>
  A monitor that stores to pipes enables its events before any pipe is there: the first packet
  of one of them makes the writer thread follow a null pointer.
\<close>

theorem monitor_without_pipe_faults:
  assumes "layout_law l" and "mo_storage cfg = StorePipe" and "getEventId msg \<in> set (mo_events cfg)"
    and "\<not> mm_control msg"
  shows "writer_round l fs now (push_msg msg (new_monitor cfg)) = None"
proof -
  define w where "w = mo_writer (new_monitor cfg)"
  define e where "e = getEventId msg"
  have w: "dataWriters w e = Some (PipeWriter True None None)" "e \<in> enabledEvents w" "packetLimitOverride w"
    "headerExists w = {}"
    using assms(2,3)
    by (simp_all add: w_def e_def new_monitor_def Let_def fold_enable new_pcap_writer_def create_writers_pipe)
  have "rec_enc l h \<noteq> []" for h
    using assms(1) by (metis layout_law_def less_irrefl list.size(3))
  then have "multi_step l fs now msg w = None"
    using w assms(4)
    by (simp add: multi_step_def Let_def e_def [symmetric] writePcapHeader_def writePacket_def)
  then show ?thesis
    by (simp add: writer_round_def push_msg_def new_monitor_def Let_def w_def)
qed

theorem monitor_without_pipe_faults_witness:
  "writer_round libpcap (\<lambda>c d. (True, c @ d)) (1, 2) (push_msg (snd (hd ex_capture)) ex_monitor) = None"
  unfolding ex_monitor_def
  by (rule monitor_without_pipe_faults [OF layout_law_libpcap])
     (simp_all add: ex_capture_def getEventId_def)

end
