(* ===== verification/LbMonitor.thy ===== *)
theory LbMonitor
  imports MonitoringProps Helpers
begin

text \<open>
  The introspection control of lib/VsoshlbLb.cpp: starting and stopping the monitor together with
  the gate keeper word of the data plane (ctl_array at kIntrospectionGkPos), and what it means for
  the events of the programs and the writer. update_ok tells whether the kernel accepts the update
  of ctl_array.
\<close>

record introspection =
  in_monitor :: "monitor option"
  in_gate :: "ctl_value option"
  in_bpfFailedCalls :: u64

datatype monitor_state = MonitorDisabled | MonitorEnabled

definition changeVsoshlbMonitorForwardingState ::
  "bool \<Rightarrow> monitor_state \<Rightarrow> introspection \<Rightarrow> bool \<times> introspection" where
  "changeVsoshlbMonitorForwardingState update_ok ms st =
     (let v = (case ms of MonitorEnabled \<Rightarrow> \<lparr>ctl_bits = 1\<rparr> | MonitorDisabled \<Rightarrow> \<lparr>ctl_bits = 0\<rparr>)
      in if \<not> update_ok then (False, st\<lparr>in_bpfFailedCalls := in_bpfFailedCalls st + 1\<rparr>)
         else (True, st\<lparr>in_gate := Some v\<rparr>))"

definition stopVsoshlbMonitor :: "bool \<Rightarrow> introspection \<Rightarrow> bool \<times> introspection" where
  "stopVsoshlbMonitor update_ok st =
     (case in_monitor st of
        None \<Rightarrow> (False, st)
      | Some mo \<Rightarrow>
          let (ok, st) = changeVsoshlbMonitorForwardingState update_ok MonitorDisabled st
          in if \<not> ok then (False, st) else (True, st\<lparr>in_monitor := Some (stopMonitor mo)\<rparr>))"

definition restartVsoshlbMonitor ::
  "bool \<Rightarrow> bool \<Rightarrow> storage_format \<Rightarrow> (event_id \<Rightarrow> bytes) \<Rightarrow> u32 \<Rightarrow> introspection \<Rightarrow> bool \<times> introspection" where
  "restartVsoshlbMonitor update_ok replace sf kept lim st =
     (case in_monitor st of
        None \<Rightarrow> (False, st)
      | Some mo \<Rightarrow>
          let (ok, st) = changeVsoshlbMonitorForwardingState update_ok MonitorEnabled st
          in if \<not> ok then (False, st)
             else (True, st\<lparr>in_monitor := Some (restartMonitor replace sf kept lim mo)\<rparr>))"

definition getVsoshlbMonitorStats :: "introspection \<Rightarrow> writer_stats" where
  "getVsoshlbMonitorStats st =
     (case in_monitor st of
        None \<Rightarrow> \<lparr>ws_limit = 0, ws_amount = 0, ws_bufferFull = 0\<rparr>
      | Some mo \<Rightarrow> getStats (mo_writer mo))"

section \<open>A stopped monitor\<close>

text \<open>
  After a successful stop the data plane sends no event, whatever it reports, until the gate is
  opened again.
\<close>

lemma stopped_gate_closes:
  assumes "stopVsoshlbMonitor True st = (True, st')" and "ctl_array bst 5 = in_gate st'"
  shows "submit_event ev n metadata_only bst = bst \<and> report_event cfg ev m bst = bst"
proof -
  have "in_gate st' = Some \<lparr>ctl_bits = 0\<rparr>"
    using assms(1)
    by (auto simp: stopVsoshlbMonitor_def changeVsoshlbMonitorForwardingState_def split: option.splits)
  then show ?thesis
    using assms(2) by (simp add: submit_event_def report_event_def)
qed

text \<open>
  The writer, once it has seen the stop message, changes no writer until a restart message: the
  limit and the amount are both 0. A writer with the limit override (pipes) is silent because its
  pipe writers are disabled.
\<close>

definition quiet :: "pcap_writer \<Rightarrow> bool" where
  "quiet w \<longleftrightarrow> \<not> packetLimitOverride w \<and> packetLimit w \<le> packetAmount w"

lemma multi_step_quiet:
  assumes "quiet w" "multi_step l fs now msg w = Some (go, w')" "\<not> (mm_control msg \<and> (mm_restart msg \<or> mm_stop msg))"
  shows "w' = w"
  using assms by (auto simp: multi_step_def quiet_def split: if_splits)

lemma quiet_stop: "\<not> packetLimitOverride w \<Longrightarrow> quiet (stopWriters w)"
  by (simp add: quiet_def stopWriters_def)

text \<open>
  A limit of 0 packets, the default of the configuration, means no packets for the monitor: a
  new monitor that stores to files or buffers drops every event until it is restarted with another
  limit. (The single writer takes 0 for no limit.)
\<close>

theorem zero_limit_captures_nothing:
  assumes "mo_pcktLimit cfg = 0" and "mo_storage cfg \<noteq> StorePipe"
    and "\<forall>r\<in>set q. \<not> mm_control (snd r)"
  shows "runMulti l fs q (mo_writer (new_monitor cfg)) = Some (mo_writer (new_monitor cfg))"
proof -
  have "quiet (mo_writer (new_monitor cfg))"
    using assms(1,2) by (simp add: new_monitor_def Let_def fold_enable quiet_def new_pcap_writer_def)
  then show ?thesis
    using assms(3)
    by (induction q) (auto simp: multi_step_def quiet_def)
qed

theorem zero_limit_captures_nothing_witness:
  "runMulti libpcap (\<lambda>c d. (True, c @ d)) ex_capture
     (mo_writer (new_monitor \<lparr>mo_pcktLimit = 0, mo_snapLen = 128, mo_events = kAllEventIds, mo_storage = StoreFile,
       mo_bufferSize = 0\<rparr>)) =
   Some (mo_writer (new_monitor \<lparr>mo_pcktLimit = 0, mo_snapLen = 128, mo_events = kAllEventIds,
       mo_storage = StoreFile, mo_bufferSize = 0\<rparr>))"
  by (rule zero_limit_captures_nothing) (simp_all add: ex_capture_def)

end
