(* ===== verification/PerfRing.thy ===== *)
theory PerfRing
  imports Prelude
begin

text \<open>
  handlePerfEvent of lib/BaseBpfAdapter.cpp: reading the records the kernel has put into the ring
  buffer of a CPU. A record starts with perf_event_header (type, misc, size of the whole
  record) and is aligned to 8 bytes; a sample carries the length of its data and the data. The
  ring is the list of its bytes, base is offset 0 and bufferSize, whose definition is cut, is its
  length. None stands for a read outside the ring or the record, and for a loop that never ends.
\<close>

definition PERF_RECORD_LOST :: u32 where "PERF_RECORD_LOST = 2"
definition PERF_RECORD_SAMPLE :: u32 where "PERF_RECORD_SAMPLE = 9"

definition rec_type :: "bytes \<Rightarrow> u32" where "rec_type r = rd32 r 0"
definition rec_len :: "bytes \<Rightarrow> nat" where "rec_len r = unat (rd16 r 6)"

text \<open>event->data and event->size of a sample.\<close>

definition sample_data :: "bytes \<Rightarrow> bytes option" where
  "sample_data r =
     (let n = unat (rd32 r 8) in if 12 + n \<le> length r then Some (take n (drop 12 r)) else None)"

text \<open>The record at begin, copied together when it wraps around, and the next begin.\<close>

definition next_record :: "bytes \<Rightarrow> nat \<Rightarrow> nat \<Rightarrow> bytes \<times> nat" where
  "next_record ring b sz =
     (let n = length ring
      in if b + sz > n then
           let len = n - b
           in (drop b ring @ take (sz - len) ring, sz - len)
         else if b + sz = n then (take sz (drop b ring), 0)
         else (take sz (drop b ring), b + sz))"

partial_function (option) perf_loop :: "bytes \<Rightarrow> nat \<Rightarrow> nat \<Rightarrow> bytes list \<Rightarrow> bytes list option" where
  "perf_loop ring b e handed =
     (if b = e then Some handed
      else if b + 8 > length ring \<or> b + rec_len (drop b ring) > 2 * length ring then None
      else
        let (r, b') = next_record ring b (rec_len (drop b ring))
        in if rec_type r = PERF_RECORD_SAMPLE then
             (case sample_data r of
                None \<Rightarrow> None
              | Some d \<Rightarrow> perf_loop ring b' e (handed @ [d]))
           else perf_loop ring b' e handed)"

text \<open>
  The function: what it hands to the event handler, and the new data_tail; a null header is the
  value None of header.
\<close>

definition handlePerfEvent :: "(nat \<times> nat) option \<Rightarrow> bytes \<Rightarrow> (bytes list \<times> (nat \<times> nat) option) option" where
  "handlePerfEvent header ring =
     (case header of
        None \<Rightarrow> Some ([], None)
      | Some (dataTail, dataHead) \<Rightarrow>
          if dataHead = dataTail then Some ([], header)
          else map_option (\<lambda>h. (h, Some (dataHead, dataHead)))
                 (perf_loop ring (dataTail mod length ring) (dataHead mod length ring) []))"

section \<open>Records in a ring\<close>

text \<open>k bytes from offset b on, around the end.\<close>

definition ring_read :: "bytes \<Rightarrow> nat \<Rightarrow> nat \<Rightarrow> bytes" where
  "ring_read ring b k = map (\<lambda>i. ring ! ((b + i) mod length ring)) [0..<k]"

lemma ring_read_split:
  assumes "b < length ring" "k \<le> length ring"
  shows "ring_read ring b k =
    (if b + k \<le> length ring then take k (drop b ring)
     else drop b ring @ take (b + k - length ring) ring)"
proof (rule nth_equalityI)
  fix i
  assume "i < length (ring_read ring b k)"
  then have i: "i < k" by (simp add: ring_read_def)
  show "ring_read ring b k ! i = (if b + k \<le> length ring then take k (drop b ring)
     else drop b ring @ take (b + k - length ring) ring) ! i"
  proof (cases "b + i < length ring")
    case True
    then have "i < length ring - b" by simp
    then show ?thesis
      using i assms True by (simp add: ring_read_def nth_append)
  next
    case False
    then have "(b + i) mod length ring = b + i - length ring" "\<not> i < length ring - b"
      using i assms by (simp_all add: mod_if)
    then show ?thesis
      using i assms False by (simp add: ring_read_def nth_append add.commute)
  qed
qed (use assms in \<open>simp add: ring_read_def\<close>)

lemma ring_read_append:
  "ring_read ring b (j + k) = ring_read ring b j @ ring_read ring ((b + j) mod length ring) k"
  by (rule nth_equalityI) (auto simp: ring_read_def nth_append mod_add_left_eq)

lemma next_record_eq:
  assumes "b < length ring" "0 < sz" "sz \<le> length ring"
  shows "next_record ring b sz = (ring_read ring b sz, (b + sz) mod length ring)"
proof -
  have "sz - (length ring - b) = b + sz - length ring"
    using assms(1) by simp
  moreover have "b + sz > length ring \<Longrightarrow> (b + sz) mod length ring = b + sz - length ring"
    using assms by (simp add: mod_if)
  ultimately show ?thesis
    using assms by (auto simp: next_record_def Let_def ring_read_split)
qed

text \<open>A record as the kernel writes it.\<close>

definition good_record :: "bytes \<Rightarrow> bool" where
  "good_record r \<longleftrightarrow> length r = rec_len r \<and> 8 \<le> length r \<and> 8 dvd length r \<and>
     (rec_type r = PERF_RECORD_SAMPLE \<longrightarrow> sample_data r \<noteq> None)"

definition samples :: "bytes list \<Rightarrow> bytes list" where
  "samples rs = map (\<lambda>r. the (sample_data r)) (filter (\<lambda>r. rec_type r = PERF_RECORD_SAMPLE) rs)"

lemma perf_loop_records:
  assumes "\<forall>r\<in>set rs. good_record r" "8 dvd length ring" "8 dvd b" "b < length ring"
    and "length (concat rs) < length ring" "ring_read ring b (length (concat rs)) = concat rs"
  shows "perf_loop ring b ((b + length (concat rs)) mod length ring) handed = Some (handed @ samples rs)"
  using assms(1,3-6)
proof (induction rs arbitrary: b handed)
  case Nil
  then show ?case by (subst perf_loop.simps) (simp add: samples_def)
next
  case (Cons r rs)
  define n where "n = length ring"
  define e where "e = (b + length (concat (r # rs))) mod n"
  have g: "length r = rec_len r" "8 \<le> length r" "8 dvd length r"
    using Cons.prems(1) by (auto simp: good_record_def)
  have tot: "length r + length (concat rs) < n"
    using Cons.prems(4) by (simp add: n_def)
  have room: "b + 8 \<le> n"
    using Cons.prems(2,3) assms(2) unfolding n_def by (auto elim!: dvdE)
  have ne: "b \<noteq> e"
  proof (cases "b + length (concat (r # rs)) < n")
    case True
    then show ?thesis using g(2) by (auto simp: e_def)
  next
    case False
    then have "e = b + length (concat (r # rs)) - n"
      using Cons.prems(3) tot unfolding e_def n_def [symmetric] by (simp add: mod_if)
    then show ?thesis using tot False by simp
  qed
  define b' where "b' = (b + length r) mod n"
  have split: "ring_read ring b (length r) @ ring_read ring b' (length (concat rs)) = r @ concat rs"
    using Cons.prems(5) ring_read_append [of ring b "length r" "length (concat rs)"]
    by (simp add: b'_def n_def)
  have r: "ring_read ring b (length r) = r" and rest: "ring_read ring b' (length (concat rs)) = concat rs"
    using split by (simp_all add: ring_read_def)
  have hd: "rec_len (drop b ring) = length r"
  proof -
    have "take 8 r = take 8 (drop b ring)"
      using arg_cong [OF r, of "take 8"] room g(2) tot Cons.prems(3)
      by (subst (asm) ring_read_split) (auto simp: n_def min_def split: if_splits)
    then have "rd8 r i = rd8 (drop b ring) i" if "i < 8" for i
      using that room g(2) by (metis (no_types, lifting) length_drop less_le_trans nth_take rd8_def
          le_diff_conv2 add_leD1 add.commute n_def)
    then show ?thesis
      using g(1) by (simp add: rec_len_def rd16_def)
  qed
  have nr: "next_record ring b (length r) = (r, b')"
  proof -
    have "0 < length r" "length r \<le> length ring"
      using g(2) tot unfolding n_def by linarith+
    then show ?thesis
      using next_record_eq [OF Cons.prems(3)] r by (metis b'_def n_def)
  qed
  have n0: "0 < n"
    using Cons.prems(3) unfolding n_def by linarith
  have b': "8 dvd b'" "b' < n"
    using Cons.prems(2) g(3) assms(2) n0 by (simp_all add: b'_def n_def dvd_mod)
  have e': "(b' + length (concat rs)) mod n = e"
    by (simp add: b'_def e_def mod_add_left_eq add.assoc)
  have ih: "perf_loop ring b' e h = Some (h @ samples rs)" for h
    using Cons.IH [of b' h] Cons.prems(1) b' tot rest e' by (simp add: n_def)
  have "rec_type r = PERF_RECORD_SAMPLE \<Longrightarrow> \<exists>d. sample_data r = Some d"
    using Cons.prems(1) by (auto simp: good_record_def)
  moreover have "\<not> 2 * length ring < b + length r"
    using Cons.prems(3) tot unfolding n_def by linarith
  ultimately have "perf_loop ring b e handed = Some (handed @ samples (r # rs))"
    using ne room by (subst perf_loop.simps) (auto simp: n_def hd nr ih samples_def)
  then show ?case
    by (simp add: e_def n_def)
qed

text \<open>
  C30: reading the ring returns, and hands over exactly the data of the samples the kernel wrote
  between data_tail and data_head, in their order, also when a record wraps around the end of the
  ring; records of other types are skipped, and the whole stretch is given back to the kernel. The
  kernel is relied on for aligned, well-formed records which do not fill the ring.
\<close>

theorem handlePerfEvent_delivers_samples:
  assumes "\<forall>r\<in>set rs. good_record r" and "8 dvd length ring" and "8 dvd t0" and "ring \<noteq> []"
    and "length (concat rs) < length ring"
    and "ring_read ring (t0 mod length ring) (length (concat rs)) = concat rs"
  shows "handlePerfEvent (Some (t0, t0 + length (concat rs))) ring =
    Some (samples rs, Some (t0 + length (concat rs), t0 + length (concat rs)))"
proof (cases "rs = []")
  case True
  then show ?thesis by (simp add: handlePerfEvent_def samples_def)
next
  case False
  then obtain r rs' where rs: "rs = r # rs'"
    by (cases rs) auto
  then have "8 \<le> length r"
    using assms(1) by (simp add: good_record_def)
  then have ne: "length (concat rs) \<noteq> 0"
    by (auto simp: rs)
  have b: "8 dvd t0 mod length ring" "t0 mod length ring < length ring"
    using assms(2,3,4) by (simp_all add: dvd_mod)
  show ?thesis
    using perf_loop_records [OF assms(1,2) b assms(5,6), of "[]"] ne
    by (auto simp: handlePerfEvent_def mod_add_left_eq)
qed

definition ex_sample :: bytes where
  "ex_sample = [9, 0, 0, 0, 0, 0, 16, 0, 3, 0, 0, 0, 7, 8, 9, 0]"

definition ex_lost :: bytes where
  "ex_lost = [2, 0, 0, 0, 0, 0, 24, 0] @ replicate 16 0"

theorem handlePerfEvent_delivers_samples_witness:
  "handlePerfEvent (Some (80, 120)) (drop 16 ex_lost @ ex_sample @ replicate 8 0 @ take 16 ex_lost) =
     Some ([[7, 8, 9]], Some (120, 120))"
proof -
  let ?ring = "drop 16 ex_lost @ ex_sample @ replicate 8 0 @ take 16 ex_lost"
  have "\<forall>r\<in>set [ex_lost, ex_sample]. good_record r"
    by code_simp
  moreover have "ring_read ?ring (80 mod length ?ring) 40 = ex_lost @ ex_sample"
    by code_simp
  moreover have "samples [ex_lost, ex_sample] = [[7, 8, 9]]"
    by code_simp
  ultimately show ?thesis
    using handlePerfEvent_delivers_samples [of "[ex_lost, ex_sample]" ?ring 80]
    by (simp add: ex_lost_def ex_sample_def)
qed

end
