(* ===== verification/Loader.thy ===== *)
theory Loader
  imports Prelude
begin

text \<open>
  lib/BpfLoader.cpp: the loader keeps the programs and maps of the loaded objects by name. An
  object file as libbpf presents it is the record bpf_object: the names of its programs and maps,
  the descriptors they have once loaded, and the answers of libbpf to the calls on them. The order
  of the loops is the order of the lists. A failed CHECK of a program's type aborts: None. BpfAdapter.cpp
  only passes its calls on to the loader.
\<close>

record bpf_object =
  bo_progs :: "string list"
  bo_maps :: "string list"
  bo_prog_fd :: "string \<Rightarrow> int"
  bo_map_fd :: "string \<Rightarrow> int"
  bo_reuse_ok :: "string \<Rightarrow> int \<Rightarrow> bool"
  bo_inner_ok :: "string \<Rightarrow> int \<Rightarrow> bool"
  bo_load_ok :: bool
  bo_types_ok :: bool

record bpf_loader =
  ld_objects :: "string \<rightharpoonup> bpf_object"
  ld_maps :: "string \<rightharpoonup> int"
  ld_progs :: "string \<rightharpoonup> int"
  ld_shared :: "string \<rightharpoonup> int"
  ld_inner :: "string \<rightharpoonup> int"
  ld_current :: "string \<rightharpoonup> string set"
  ld_closed :: "int list"

definition new_loader :: bpf_loader where
  "new_loader = \<lparr>ld_objects = Map.empty, ld_maps = Map.empty, ld_progs = Map.empty, ld_shared = Map.empty,
     ld_inner = Map.empty, ld_current = Map.empty, ld_closed = []\<rparr>"

definition ld_kError :: int where "ld_kError = 1"
definition ld_kNotExists :: int where "ld_kNotExists = - 1"
definition ld_kSuccess :: int where "ld_kSuccess = 0"
definition kMaxSharedMapNameSize :: nat where "kMaxSharedMapNameSize = 15"
definition knownDuplicateMaps :: "string set" where "knownDuplicateMaps = {''.rodata.str1.1''}"

definition ld_getMapFdByName :: "string \<Rightarrow> bpf_loader \<Rightarrow> int" where
  "ld_getMapFdByName n ld = (case ld_maps ld n of None \<Rightarrow> ld_kNotExists | Some fd \<Rightarrow> fd)"

definition ld_getProgFdByName :: "string \<Rightarrow> bpf_loader \<Rightarrow> int" where
  "ld_getProgFdByName n ld = (case ld_progs ld n of None \<Rightarrow> ld_kNotExists | Some fd \<Rightarrow> fd)"

definition ld_isMapInProg :: "string \<Rightarrow> string \<Rightarrow> bpf_loader \<Rightarrow> bool" where
  "ld_isMapInProg prog n ld = (case ld_current ld prog of None \<Rightarrow> False | Some ms \<Rightarrow> n \<in> ms)"

definition updateSharedMap :: "string \<Rightarrow> int \<Rightarrow> bpf_loader \<Rightarrow> int \<times> bpf_loader" where
  "updateSharedMap n fd ld =
     (if ld_shared ld n \<noteq> None then (ld_kNotExists, ld)
      else if length n > kMaxSharedMapNameSize then (ld_kNotExists, ld)
      else (ld_kSuccess, ld\<lparr>ld_shared := (ld_shared ld)(n \<mapsto> fd)\<rparr>))"

definition ld_setInnerMapPrototype :: "string \<Rightarrow> int \<Rightarrow> bpf_loader \<Rightarrow> int \<times> bpf_loader" where
  "ld_setInnerMapPrototype n fd ld =
     (if ld_inner ld n \<noteq> None then (ld_kError, ld)
      else (ld_kSuccess, ld\<lparr>ld_inner := (ld_inner ld)(n \<mapsto> fd)\<rparr>))"

text \<open>The inner map prototype of a map in maps; True when there is none or libbpf takes it.\<close>

definition set_inner :: "bpf_object \<Rightarrow> string \<Rightarrow> bpf_loader \<Rightarrow> bool" where
  "set_inner obj n ld = (case ld_inner ld n of None \<Rightarrow> True | Some fd \<Rightarrow> bo_inner_ok obj n fd)"

text \<open>The maps of an object that is loaded: shared, known duplicate, or new.\<close>

fun prepare_maps :: "bpf_object \<Rightarrow> string list \<Rightarrow> bpf_loader \<Rightarrow> bool" where
  "prepare_maps obj [] ld = True"
| "prepare_maps obj (n # ns) ld =
     (case ld_shared ld n of
        Some fd \<Rightarrow> if \<not> bo_reuse_ok obj n fd then False else prepare_maps obj ns ld
      | None \<Rightarrow>
          if ld_maps ld n \<noteq> None then
            if n \<in> knownDuplicateMaps then prepare_maps obj ns ld else False
          else if \<not> set_inner obj n ld then False
          else prepare_maps obj ns ld)"

definition add_progs :: "bpf_object \<Rightarrow> bpf_loader \<Rightarrow> bpf_loader" where
  "add_progs obj ld = fold (\<lambda>p ld. ld\<lparr>ld_progs := (ld_progs ld)(p \<mapsto> bo_prog_fd obj p)\<rparr>) (bo_progs obj) ld"

definition set_current :: "bpf_object \<Rightarrow> bpf_loader \<Rightarrow> bpf_loader" where
  "set_current obj ld =
     fold (\<lambda>p ld. ld\<lparr>ld_current := (ld_current ld)(p \<mapsto> set (bo_maps obj))\<rparr>) (bo_progs obj) ld"

definition loadBpfObject :: "bpf_object \<Rightarrow> string \<Rightarrow> bpf_loader \<Rightarrow> (int \<times> bpf_loader) option" where
  "loadBpfObject obj objName ld =
     (if ld_objects ld objName \<noteq> None then Some (ld_kError, ld)
      else if \<exists>p\<in>set (bo_progs obj). ld_progs ld p \<noteq> None then Some (ld_kError, ld)
      else if \<not> prepare_maps obj (bo_maps obj) ld then Some (ld_kError, ld)
      else if \<not> bo_load_ok obj then Some (ld_kError, ld)
      else if \<not> bo_types_ok obj then None
      else
        let ld = add_progs obj ld;
            ld = fold (\<lambda>n ld. ld\<lparr>ld_maps := (ld_maps ld)(n \<mapsto> bo_map_fd obj n)\<rparr>) (bo_maps obj) ld;
            ld = set_current obj ld
        in Some (ld_kSuccess, ld\<lparr>ld_objects := (ld_objects ld)(objName \<mapsto> obj)\<rparr>))"

text \<open>
  The maps of an object that is reloaded: one that is known but not shared becomes shared, also
  when a later step fails.
\<close>

fun reuse_maps :: "bpf_object \<Rightarrow> string list \<Rightarrow> bpf_loader \<Rightarrow> bool \<times> bpf_loader" where
  "reuse_maps obj [] ld = (True, ld)"
| "reuse_maps obj (n # ns) ld =
     (case ld_shared ld n of
        Some fd \<Rightarrow> if \<not> bo_reuse_ok obj n fd then (False, ld) else reuse_maps obj ns ld
      | None \<Rightarrow>
          (case ld_maps ld n of
             Some fd \<Rightarrow>
               let (res, ld) = updateSharedMap n fd ld
               in if res \<noteq> 0 then (False, ld)
                  else if \<not> bo_reuse_ok obj n fd then (False, ld)
                  else reuse_maps obj ns ld
           | None \<Rightarrow> if \<not> set_inner obj n ld then (False, ld) else reuse_maps obj ns ld))"

text \<open>progs_[prog_name] reads 0 for a missing name; the check before excludes it.\<close>

definition replace_progs :: "bpf_object \<Rightarrow> bpf_loader \<Rightarrow> bpf_loader" where
  "replace_progs obj ld =
     fold (\<lambda>p ld. ld\<lparr>ld_closed := ld_closed ld @ [case ld_progs ld p of None \<Rightarrow> 0 | Some fd \<Rightarrow> fd],
                     ld_progs := (ld_progs ld)(p \<mapsto> bo_prog_fd obj p)\<rparr>) (bo_progs obj) ld"

definition add_new_maps :: "bpf_object \<Rightarrow> bpf_loader \<Rightarrow> bpf_loader" where
  "add_new_maps obj ld =
     fold (\<lambda>n ld. if ld_maps ld n = None then ld\<lparr>ld_maps := (ld_maps ld)(n \<mapsto> bo_map_fd obj n)\<rparr> else ld)
       (bo_maps obj) ld"

definition reloadBpfObject :: "bpf_object \<Rightarrow> string \<Rightarrow> bpf_loader \<Rightarrow> (int \<times> bpf_loader) option" where
  "reloadBpfObject obj objName ld =
     (if \<exists>p\<in>set (bo_progs obj). ld_progs ld p = None then Some (ld_kError, ld)
      else
        let (ok, ld) = reuse_maps obj (bo_maps obj) ld
        in if \<not> ok then Some (ld_kError, ld)
           else if \<not> bo_load_ok obj then Some (ld_kError, ld)
           else if \<not> bo_types_ok obj then None
           else
             let ld = replace_progs obj ld;
                 ld = add_new_maps obj ld;
                 ld = set_current obj ld
             in Some (ld_kSuccess, ld\<lparr>ld_objects := (ld_objects ld)(objName \<mapsto> obj)\<rparr>))"

text \<open>Opening a file or a buffer; None is an error of libbpf.\<close>

definition loadBpfFile :: "(string \<Rightarrow> bpf_object option) \<Rightarrow> string \<Rightarrow> bpf_loader \<Rightarrow> (int \<times> bpf_loader) option" where
  "loadBpfFile open_file path ld =
     (case open_file path of None \<Rightarrow> Some (ld_kError, ld) | Some obj \<Rightarrow> loadBpfObject obj path ld)"

definition reloadBpfFromFile :: "(string \<Rightarrow> bpf_object option) \<Rightarrow> string \<Rightarrow> bpf_loader \<Rightarrow> (int \<times> bpf_loader) option" where
  "reloadBpfFromFile open_file path ld =
     (case open_file path of None \<Rightarrow> Some (ld_kError, ld) | Some obj \<Rightarrow> reloadBpfObject obj path ld)"

definition loadBpfFromBuffer :: "bpf_object option \<Rightarrow> string \<Rightarrow> bpf_loader \<Rightarrow> (int \<times> bpf_loader) option" where
  "loadBpfFromBuffer opened objName ld =
     (case opened of None \<Rightarrow> Some (ld_kError, ld) | Some obj \<Rightarrow> loadBpfObject obj objName ld)"

section \<open>The steps in closed form\<close>

lemma add_progs_eq:
  "fold (\<lambda>p ld. ld\<lparr>ld_progs := (ld_progs ld)(p \<mapsto> f p)\<rparr>) ps ld =
     ld\<lparr>ld_progs := (\<lambda>p. if p \<in> set ps then Some (f p) else ld_progs ld p)\<rparr>"
  by (induction ps arbitrary: ld) (auto simp: fun_eq_iff)

lemma add_maps_eq:
  "fold (\<lambda>p ld. ld\<lparr>ld_maps := (ld_maps ld)(p \<mapsto> f p)\<rparr>) ps ld =
     ld\<lparr>ld_maps := (\<lambda>p. if p \<in> set ps then Some (f p) else ld_maps ld p)\<rparr>"
  by (induction ps arbitrary: ld) (auto simp: fun_eq_iff)

lemma set_current_eq:
  "set_current obj ld = ld\<lparr>ld_current := (\<lambda>p. if p \<in> set (bo_progs obj) then Some (set (bo_maps obj))
     else ld_current ld p)\<rparr>"
proof -
  have "fold (\<lambda>p ld. ld\<lparr>ld_current := (ld_current ld)(p \<mapsto> ms)\<rparr>) ps ld =
      ld\<lparr>ld_current := (\<lambda>p. if p \<in> set ps then Some ms else ld_current ld p)\<rparr>" for ps ms
    by (induction ps arbitrary: ld) (auto simp: fun_eq_iff)
  then show ?thesis
    by (simp add: set_current_def)
qed

lemma add_new_maps_eq:
  "add_new_maps obj ld = ld\<lparr>ld_maps := (\<lambda>n. if ld_maps ld n = None \<and> n \<in> set (bo_maps obj)
     then Some (bo_map_fd obj n) else ld_maps ld n)\<rparr>"
proof -
  have "fold (\<lambda>n ld. if ld_maps ld n = None then ld\<lparr>ld_maps := (ld_maps ld)(n \<mapsto> f n)\<rparr> else ld) ns ld =
      ld\<lparr>ld_maps := (\<lambda>n. if ld_maps ld n = None \<and> n \<in> set ns then Some (f n) else ld_maps ld n)\<rparr>" for ns f
  proof (induction ns arbitrary: ld)
    case (Cons n ns)
    show ?case
    proof (cases "ld_maps ld n")
      case None
      let ?ld = "ld\<lparr>ld_maps := (ld_maps ld)(n \<mapsto> f n)\<rparr>"
      have "(\<lambda>m. if ld_maps ?ld m = None \<and> m \<in> set ns then Some (f m) else ld_maps ?ld m) =
          (\<lambda>m. if ld_maps ld m = None \<and> m \<in> set (n # ns) then Some (f m) else ld_maps ld m)"
        using None by (auto simp: fun_eq_iff)
      moreover have "?ld\<lparr>ld_maps := g\<rparr> = ld\<lparr>ld_maps := g\<rparr>" for g
        by simp
      ultimately show ?thesis
        using Cons.IH [of ?ld] None by (simp only: fold_simps if_True simp_thms)
    next
      case (Some fd)
      then have "(\<lambda>m. if ld_maps ld m = None \<and> m \<in> set ns then Some (f m) else ld_maps ld m) =
          (\<lambda>m. if ld_maps ld m = None \<and> m \<in> set (n # ns) then Some (f m) else ld_maps ld m)"
        by (auto simp: fun_eq_iff)
      then show ?thesis
        using Cons.IH [of ld] Some by (simp only: fold_simps option.distinct if_False)
    qed
  qed simp
  then show ?thesis
    by (simp add: add_new_maps_def)
qed

lemma replace_progs_sel:
  "ld_progs (replace_progs obj ld) = (\<lambda>p. if p \<in> set (bo_progs obj) then Some (bo_prog_fd obj p) else ld_progs ld p)"
  "ld_maps (replace_progs obj ld) = ld_maps ld" "ld_shared (replace_progs obj ld) = ld_shared ld"
  "ld_inner (replace_progs obj ld) = ld_inner ld" "ld_current (replace_progs obj ld) = ld_current ld"
  "ld_objects (replace_progs obj ld) = ld_objects ld"
proof -
  have "\<exists>c. fold (\<lambda>p ld. ld\<lparr>ld_closed := ld_closed ld @ [case ld_progs ld p of None \<Rightarrow> 0 | Some fd \<Rightarrow> fd],
                     ld_progs := (ld_progs ld)(p \<mapsto> f p)\<rparr>) ps ld =
      ld\<lparr>ld_closed := c, ld_progs := (\<lambda>p. if p \<in> set ps then Some (f p) else ld_progs ld p)\<rparr>" for ps f
  proof (induction ps arbitrary: ld)
    case Nil
    show ?case by (auto intro: exI [of _ "ld_closed ld"])
  next
    case (Cons p ps)
    define ld1 where "ld1 = ld\<lparr>ld_closed := ld_closed ld @ [case ld_progs ld p of None \<Rightarrow> 0 | Some fd \<Rightarrow> fd],
                     ld_progs := (ld_progs ld)(p \<mapsto> f p)\<rparr>"
    obtain c where "fold (\<lambda>p ld. ld\<lparr>ld_closed := ld_closed ld @ [case ld_progs ld p of None \<Rightarrow> 0 | Some fd \<Rightarrow> fd],
                     ld_progs := (ld_progs ld)(p \<mapsto> f p)\<rparr>) ps ld1 =
      ld1\<lparr>ld_closed := c, ld_progs := (\<lambda>q. if q \<in> set ps then Some (f q) else ld_progs ld1 q)\<rparr>"
      using Cons.IH [of ld1] by blast
    moreover have "ld1\<lparr>ld_closed := c, ld_progs := (\<lambda>q. if q \<in> set ps then Some (f q) else ld_progs ld1 q)\<rparr> =
        ld\<lparr>ld_closed := c, ld_progs := (\<lambda>q. if q \<in> set (p # ps) then Some (f q) else ld_progs ld q)\<rparr>"
    proof -
      have "(\<lambda>q. if q \<in> set ps then Some (f q) else ld_progs ld1 q) =
          (\<lambda>q. if q \<in> set (p # ps) then Some (f q) else ld_progs ld q)"
        by (auto simp: fun_eq_iff ld1_def)
      moreover have "ld1\<lparr>ld_closed := c, ld_progs := g\<rparr> = ld\<lparr>ld_closed := c, ld_progs := g\<rparr>" for g
        by (simp add: ld1_def)
      ultimately show ?thesis
        by (simp only:)
    qed
    ultimately show ?case
      by (intro exI [of _ c]) (simp only: fold_simps ld1_def)
  qed
  then obtain c where "replace_progs obj ld = ld\<lparr>ld_closed := c,
      ld_progs := (\<lambda>p. if p \<in> set (bo_progs obj) then Some (bo_prog_fd obj p) else ld_progs ld p)\<rparr>"
    unfolding replace_progs_def by blast
  then show "ld_progs (replace_progs obj ld) =
      (\<lambda>p. if p \<in> set (bo_progs obj) then Some (bo_prog_fd obj p) else ld_progs ld p)"
    "ld_maps (replace_progs obj ld) = ld_maps ld" "ld_shared (replace_progs obj ld) = ld_shared ld"
    "ld_inner (replace_progs obj ld) = ld_inner ld" "ld_current (replace_progs obj ld) = ld_current ld"
    "ld_objects (replace_progs obj ld) = ld_objects ld"
    by simp_all
qed

text \<open>Each distinct program's old descriptor is closed, in order.\<close>

lemma replace_progs_closed:
  "distinct (bo_progs obj) \<Longrightarrow> ld_closed (replace_progs obj ld) = ld_closed ld @
     map (\<lambda>p. case ld_progs ld p of None \<Rightarrow> 0 | Some fd \<Rightarrow> fd) (bo_progs obj)"
proof -
  have "distinct ps \<Longrightarrow> ld_closed (fold (\<lambda>p ld. ld\<lparr>ld_closed := ld_closed ld @ [case ld_progs ld p of None \<Rightarrow> 0 | Some fd \<Rightarrow> fd],
                     ld_progs := (ld_progs ld)(p \<mapsto> f p)\<rparr>) ps ld) =
      ld_closed ld @ map (\<lambda>p. case ld_progs ld p of None \<Rightarrow> 0 | Some fd \<Rightarrow> fd) ps" for ps f
    by (induction ps arbitrary: ld) auto
  then show "distinct (bo_progs obj) \<Longrightarrow> ?thesis"
    by (simp add: replace_progs_def)
qed

lemma reuse_maps_other:
  "reuse_maps obj ns ld = (ok, ld') \<Longrightarrow> m \<notin> set ns \<Longrightarrow> ld_shared ld' m = ld_shared ld m"
  by (induction ns arbitrary: ld)
     (auto simp: updateSharedMap_def ld_kSuccess_def split: option.splits if_splits)

lemma reuse_maps_shared:
  "reuse_maps obj ns ld = (ok, ld') \<Longrightarrow> \<exists>s. ld' = ld\<lparr>ld_shared := s\<rparr> \<and> ld_shared ld \<subseteq>\<^sub>m s \<and>
     (\<forall>n fd. s n = Some fd \<longrightarrow> ld_shared ld n = Some fd \<or> ld_maps ld n = Some fd)"
proof (induction ns arbitrary: ld)
  case Nil
  then show ?case by (auto intro!: exI [of _ "ld_shared ld"])
next
  case (Cons n ns)
  show ?case
  proof (cases "ld_shared ld n = None \<and> ld_maps ld n \<noteq> None \<and> length n \<le> 15")
    case True
    then obtain fd where fd: "ld_maps ld n = Some fd" by auto
    define ld1 where "ld1 = ld\<lparr>ld_shared := (ld_shared ld)(n \<mapsto> fd)\<rparr>"
    have sub: "ld_shared ld \<subseteq>\<^sub>m ld_shared ld1"
      using True by (auto simp: ld1_def map_le_def)
    show ?thesis
    proof (cases "bo_reuse_ok obj n fd")
      case False
      then have "ld' = ld1"
        using Cons.prems True fd
        by (auto simp: updateSharedMap_def kMaxSharedMapNameSize_def ld_kSuccess_def ld1_def)
      then show ?thesis
        using sub fd unfolding ld1_def
        by (intro exI [of _ "(ld_shared ld)(n \<mapsto> fd)"]) (simp del: fun_upd_apply, simp)
    next
      case r: True
      have "reuse_maps obj ns ld1 = (ok, ld')"
        using Cons.prems True fd r
        by (auto simp: updateSharedMap_def kMaxSharedMapNameSize_def ld_kSuccess_def ld1_def)
      from Cons.IH [OF this] obtain s where s: "ld' = ld1\<lparr>ld_shared := s\<rparr>" "ld_shared ld1 \<subseteq>\<^sub>m s"
        "\<forall>n fd. s n = Some fd \<longrightarrow> ld_shared ld1 n = Some fd \<or> ld_maps ld1 n = Some fd"
        by blast
      have "ld' = ld\<lparr>ld_shared := s\<rparr>"
        using s(1) by (simp add: ld1_def)
      moreover have "ld_shared ld \<subseteq>\<^sub>m s"
        using sub s(2) by (rule map_le_trans)
      moreover have "\<forall>m f. s m = Some f \<longrightarrow> ld_shared ld m = Some f \<or> ld_maps ld m = Some f"
        using s(3) fd by (auto simp: ld1_def split: if_splits)
      ultimately show ?thesis by blast
    qed
  next
    case False
    then have "ld' = ld \<or> reuse_maps obj ns ld = (ok, ld')"
      using Cons.prems
      by (auto simp: updateSharedMap_def kMaxSharedMapNameSize_def ld_kNotExists_def split: option.splits if_splits)
    then show ?thesis
    proof
      assume "ld' = ld"
      then show ?thesis by (auto intro!: exI [of _ "ld_shared ld"])
    next
      assume "reuse_maps obj ns ld = (ok, ld')"
      then show ?thesis by (rule Cons.IH)
    qed
  qed
qed

text \<open>
  The descriptor under which the loader knows a map: the one it is shared under, else its own. When
  the maps are prepared, libbpf has accepted that descriptor for each map that is known.
\<close>

lemma reuse_maps_accepted:
  "reuse_maps obj ns ld = (True, ld') \<Longrightarrow> m \<in> set ns \<Longrightarrow>
     ld_shared ld' m = (ld_maps ld ++ ld_shared ld) m \<and>
     (case (ld_maps ld ++ ld_shared ld) m of
        None \<Rightarrow> set_inner obj m ld
      | Some fd \<Rightarrow> bo_reuse_ok obj m fd)"
proof (induction ns arbitrary: ld)
  case (Cons n ns)
  define ld1 where "ld1 = (case ld_shared ld n of
      Some fd \<Rightarrow> ld
    | None \<Rightarrow> (case ld_maps ld n of None \<Rightarrow> ld | Some fd \<Rightarrow> ld\<lparr>ld_shared := (ld_shared ld)(n \<mapsto> fd)\<rparr>))"
  have r: "reuse_maps obj ns ld1 = (True, ld')"
    and ok: "case (ld_maps ld ++ ld_shared ld) n of None \<Rightarrow> set_inner obj n ld | Some fd \<Rightarrow> bo_reuse_ok obj n fd"
    using Cons.prems(1)
    by (auto simp: ld1_def updateSharedMap_def ld_kSuccess_def ld_kNotExists_def map_add_def
        split: option.splits if_splits)
  have same: "ld_maps ld1 ++ ld_shared ld1 = ld_maps ld ++ ld_shared ld"
    "set_inner obj m ld1 = set_inner obj m ld"
    by (auto simp: ld1_def map_add_def set_inner_def fun_eq_iff split: option.splits)
  show ?case
  proof (cases "m \<in> set ns")
    case True
    then show ?thesis
      using Cons.IH [OF r True] unfolding same by blast
  next
    case False
    then have m: "m = n"
      using Cons.prems(2) by simp
    have "ld_shared ld1 n = (ld_maps ld ++ ld_shared ld) n"
      by (auto simp: ld1_def map_add_def split: option.splits)
    then have "ld_shared ld' n = (ld_maps ld ++ ld_shared ld) n"
      using reuse_maps_other [OF r] False m by simp
    then show ?thesis
      unfolding m using ok by blast
  qed
qed simp

section \<open>Loading and reloading\<close>

text \<open>A failed load changes nothing.\<close>

lemma load_atomic:
  "loadBpfObject obj n ld = Some (res, ld') \<Longrightarrow> res \<noteq> 0 \<Longrightarrow> ld' = ld"
  by (auto simp: loadBpfObject_def ld_kSuccess_def Let_def split: if_splits)

text \<open>
  C31: for an object whose programs have different names, reloading either replaces the programs or
  keeps them. When it fails, in whatever step, every
  program and map keeps its descriptor, nothing is closed, and only the table of shared maps may
  have grown, by maps under their own descriptors. When it succeeds, each program of the object has its new
  descriptor and its old one is closed, every map the loader knew keeps its descriptor, and the
  programs are known to use exactly the maps of the new object. The state of the data plane survives:
  libbpf has accepted, for each map of the new object that the loader knew, the descriptor it was
  shared under, or else the loader's own, in place of a new map, that map is shared from now on under
  this descriptor, and only the other maps are created, with their inner map's prototype accepted;
  and libbpf has loaded the object.
\<close>

theorem reload_all_or_nothing:
  assumes "reloadBpfObject obj n ld = Some (res, ld')" and "distinct (bo_progs obj)"
  shows "if res = 0 then
      (\<forall>p\<in>set (bo_progs obj). ld_getProgFdByName p ld' = bo_prog_fd obj p \<and>
         (\<forall>m. ld_isMapInProg p m ld' \<longleftrightarrow> m \<in> set (bo_maps obj))) \<and>
      (\<forall>p. p \<notin> set (bo_progs obj) \<longrightarrow> ld_progs ld' p = ld_progs ld p \<and> ld_current ld' p = ld_current ld p) \<and>
      ld_maps ld \<subseteq>\<^sub>m ld_maps ld' \<and> set (bo_maps obj) \<subseteq> dom (ld_maps ld') \<and>
      ld_closed ld' = ld_closed ld @ map (\<lambda>p. ld_getProgFdByName p ld) (bo_progs obj) \<and>
      bo_load_ok obj \<and>
      (\<forall>m\<in>set (bo_maps obj). ld_shared ld' m = (ld_maps ld ++ ld_shared ld) m \<and>
         (case (ld_maps ld ++ ld_shared ld) m of
            None \<Rightarrow> set_inner obj m ld
          | Some fd \<Rightarrow> bo_reuse_ok obj m fd))
    else
      (\<exists>s. ld' = ld\<lparr>ld_shared := s\<rparr> \<and> ld_shared ld \<subseteq>\<^sub>m s \<and>
         (\<forall>m fd. s m = Some fd \<longrightarrow> ld_shared ld m = Some fd \<or> ld_maps ld m = Some fd))"
proof -
  have same: "\<exists>s. ld = ld\<lparr>ld_shared := s\<rparr> \<and> ld_shared ld \<subseteq>\<^sub>m s \<and>
      (\<forall>m fd. s m = Some fd \<longrightarrow> ld_shared ld m = Some fd \<or> ld_maps ld m = Some fd)"
    by (auto intro!: exI [of _ "ld_shared ld"])
  show ?thesis
  proof (cases "\<exists>p\<in>set (bo_progs obj). ld_progs ld p = None")
    case True
    then show ?thesis
      using assms(1) same by (auto simp: reloadBpfObject_def ld_kError_def)
  next
    case known: False
    obtain ok ld1 where r: "reuse_maps obj (bo_maps obj) ld = (ok, ld1)"
      by (metis prod.exhaust)
    obtain s where s: "ld1 = ld\<lparr>ld_shared := s\<rparr>" "ld_shared ld \<subseteq>\<^sub>m s"
      "\<forall>m fd. s m = Some fd \<longrightarrow> ld_shared ld m = Some fd \<or> ld_maps ld m = Some fd"
      using reuse_maps_shared [OF r] by blast
    show ?thesis
    proof (cases "ok \<and> bo_load_ok obj")
      case False
      then have "res = 1" "ld' = ld1"
        using assms(1) known r by (auto simp: reloadBpfObject_def ld_kError_def Let_def split: if_splits)
      then show ?thesis
        using s by auto
    next
      case True
      define ld2 where "ld2 = set_current obj (add_new_maps obj (replace_progs obj ld1))"
      have res: "res = 0" and ld': "ld' = ld2\<lparr>ld_objects := (ld_objects ld2)(n \<mapsto> obj)\<rparr>"
        using assms(1) known r True
        by (auto simp: reloadBpfObject_def ld_kSuccess_def Let_def ld2_def split: if_splits)
      have cl: "ld_closed ld' = ld_closed ld @ map (\<lambda>p. ld_getProgFdByName p ld) (bo_progs obj)"
      proof -
        have "ld_closed ld' = ld_closed ld @ map (\<lambda>p. case ld_progs ld p of None \<Rightarrow> 0 | Some fd \<Rightarrow> fd) (bo_progs obj)"
          by (simp add: ld' ld2_def set_current_eq add_new_maps_eq replace_progs_closed [OF assms(2)] s(1))
        moreover have "map (\<lambda>p. case ld_progs ld p of None \<Rightarrow> 0 | Some fd \<Rightarrow> fd) (bo_progs obj) =
            map (\<lambda>p. ld_getProgFdByName p ld) (bo_progs obj)"
          using known by (auto simp: ld_getProgFdByName_def split: option.splits)
        ultimately show ?thesis by simp
      qed
      have "ld_progs ld' = (\<lambda>p. if p \<in> set (bo_progs obj) then Some (bo_prog_fd obj p) else ld_progs ld p)"
        "ld_current ld' = (\<lambda>p. if p \<in> set (bo_progs obj) then Some (set (bo_maps obj)) else ld_current ld p)"
        "ld_maps ld' = (\<lambda>m. if ld_maps ld m = None \<and> m \<in> set (bo_maps obj) then Some (bo_map_fd obj m) else ld_maps ld m)"
        by (simp_all add: ld' ld2_def set_current_eq add_new_maps_eq replace_progs_sel s(1) cong: if_cong)
      then have progs: "\<forall>p\<in>set (bo_progs obj). ld_getProgFdByName p ld' = bo_prog_fd obj p \<and>
           (\<forall>m. ld_isMapInProg p m ld' \<longleftrightarrow> m \<in> set (bo_maps obj))"
        "\<forall>p. p \<notin> set (bo_progs obj) \<longrightarrow> ld_progs ld' p = ld_progs ld p \<and> ld_current ld' p = ld_current ld p"
        "ld_maps ld \<subseteq>\<^sub>m ld_maps ld'" "set (bo_maps obj) \<subseteq> dom (ld_maps ld')"
        by (auto simp: ld_getProgFdByName_def ld_isMapInProg_def map_le_def dom_def)
      have "ld_shared ld' = ld_shared ld1"
        by (simp add: ld' ld2_def set_current_eq add_new_maps_eq replace_progs_sel)
      then have "ld_shared ld' m = (ld_maps ld ++ ld_shared ld) m \<and>
         (case (ld_maps ld ++ ld_shared ld) m of
            None \<Rightarrow> set_inner obj m ld
          | Some fd \<Rightarrow> bo_reuse_ok obj m fd)" if "m \<in> set (bo_maps obj)" for m
        using reuse_maps_accepted [of obj "bo_maps obj" ld ld1 m] r True that by simp
      then show ?thesis
        using res cl progs True by simp
    qed
  qed
qed

definition ex_obj :: "int \<Rightarrow> bpf_object" where
  "ex_obj fd = \<lparr>bo_progs = [''balancer_ingress''], bo_maps = [''vip_map'', ''reals''], bo_prog_fd = (\<lambda>p. fd),
     bo_map_fd = (\<lambda>m. fd + 1), bo_reuse_ok = (\<lambda>m f. True), bo_inner_ok = (\<lambda>m f. True), bo_load_ok = True,
     bo_types_ok = True\<rparr>"

definition ex_loader :: bpf_loader where
  "ex_loader = snd (the (loadBpfObject (ex_obj 10) ''a.o'' new_loader))"

theorem reload_all_or_nothing_witness:
  "\<exists>ld'. reloadBpfObject (ex_obj 20) ''b.o'' ex_loader = Some (0, ld') \<and>
     ld_getProgFdByName ''balancer_ingress'' ld' = 20 \<and> ld_maps ld' ''vip_map'' = Some 11"
proof -
  have "map_option fst (reloadBpfObject (ex_obj 20) ''b.o'' ex_loader) = Some 0"
    by code_simp
  then obtain ld' where r: "reloadBpfObject (ex_obj 20) ''b.o'' ex_loader = Some (0, ld')"
    by (cases "reloadBpfObject (ex_obj 20) ''b.o'' ex_loader") auto
  have m: "ld_maps ex_loader ''vip_map'' = Some 11"
    by code_simp
  have d: "bo_progs (ex_obj 20) = [''balancer_ingress'']"
    by (simp add: ex_obj_def)
  have le: "ld_maps ex_loader \<subseteq>\<^sub>m ld_maps ld'" and p: "ld_getProgFdByName ''balancer_ingress'' ld' = 20"
    using reload_all_or_nothing [OF r] d by (auto simp: ex_obj_def)
  have "ld_maps ld' ''vip_map'' = Some 11"
    using le m by (auto simp: map_le_def dom_def)
  then show ?thesis
    using r p by blast
qed

text \<open>
  A map that is not shared and has a name of more than fifteen characters cannot be reloaded.
\<close>

lemma long_map_name_blocks_reload:
  assumes "ld_maps ld m = Some fd" "ld_shared ld m = None" "15 < length m" "bo_maps obj = m # ms"
  shows "\<exists>ld'. reloadBpfObject obj n ld = Some (1, ld')"
  using assms
  by (simp add: reloadBpfObject_def updateSharedMap_def kMaxSharedMapNameSize_def ld_kNotExists_def ld_kError_def Let_def)

end
