(* ===== verification/BalancerFilter.thy ===== *)
theory BalancerFilter
  imports Balancer Decap
begin

text \<open>
  What the balancer does with a packet that is not an ICMP message: it looks at the headers and
  passes or drops it. The protocol the program goes on with is a field of a zeroed record which
  only the ICMP handlers fill.
\<close>

lemma handle_non_icmp:
  "prot \<noteq> IPPROTO_ICMP \<Longrightarrow> prot \<noteq> IPPROTO_ICMPV6 \<Longrightarrow> handle_if_icmp off pckt prot st = (FURTHER_PROCESSING, pckt, st)"
  by (simp add: handle_if_icmp_def)

lemma parse_l3_proto:
  "proto (flow (snd (parse_l3_headers p prot off v6 pk))) = proto (flow pk)"
  by (simp add: parse_l3_headers_def Let_def)

lemma parse_l3_code:
  assumes "prot \<noteq> IPPROTO_ICMP" "prot \<noteq> IPPROTO_ICMPV6"
  shows "fst (parse_l3_headers p prot 14 v6 pk) =
    (if (if v6 then 54 \<le> length p \<and> prot \<noteq> IPPROTO_FRAGMENT
         else 34 \<le> length p \<and> rd8 p 14 AND 0x0F = 5 \<and> \<not> has_flag (rd16 p 20) PCKT_FRAGMENTED)
     then FURTHER_PROCESSING else XDP_DROP)"
  using assms by (auto simp: parse_l3_headers_def Let_def IP6_HLEN_def IP_HLEN_def)

lemma process_packet_non_icmp:
  assumes "u_protocol u \<noteq> IPPROTO_ICMP" "u_protocol u \<noteq> IPPROTO_ICMPV6"
  shows "process_packet c k u 14 v6 st =
    (Verdict (if fst (parse_l3_headers (xdata st) (u_protocol u) 14 v6 zero_pckt) = FURTHER_PROCESSING
              then XDP_PASS else XDP_DROP), st)"
proof -
  obtain code pk where l3: "parse_l3_headers (xdata st) (u_protocol u) 14 v6 zero_pckt = (code, pk)"
    by (metis prod.exhaust)
  have pk: "proto (flow pk) = 0"
    using parse_l3_proto [of "xdata st" "u_protocol u" 14 v6 zero_pckt] l3 by (simp add: zero_pckt_def zero_flow_def)
  have code: "code = FURTHER_PROCESSING \<or> code = XDP_DROP"
    using parse_l3_code [OF assms, of "xdata st" v6 zero_pckt] l3 by (auto split: if_splits)
  have protos: "(0 :: u8) \<noteq> IPPROTO_IPIP" "(0 :: u8) \<noteq> IPPROTO_IPV6" "(0 :: u8) \<noteq> IPPROTO_TCP" "(0 :: u8) \<noteq> IPPROTO_UDP"
    and codes: "\<not> FURTHER_PROCESSING \<ge> 0" "XDP_DROP \<ge> 0" "FURTHER_PROCESSING \<noteq> XDP_DROP"
    by (simp_all add: const_defs)
  have "pp_parse c k u 14 v6 st = (Stop (Verdict (if code = FURTHER_PROCESSING then XDP_PASS else XDP_DROP)), st)"
    using code pk protos codes
    by (auto simp: pp_parse_def l3 Let_def handle_non_icmp [OF assms])
  then show ?thesis
    by (simp add: process_packet_def finish_def l3)
qed

text \<open>
  C9: the balancer forwards nothing but ICMP. In every build, whatever the packet, the maps and the
  indeterminate values are, a packet that is not taken for an ICMP message is passed to the stack
  when its headers are well formed and dropped otherwise; no map is read to any effect and no
  map, counter or byte of the packet changes.
\<close>

theorem balancer_only_filters:
  assumes "u_protocol u \<noteq> IPPROTO_ICMP" and "u_protocol u \<noteq> IPPROTO_ICMPV6"
  shows "balancer_ingress c k u st =
    (Verdict (if xd_good_headers (u_protocol u) (xdata st) then XDP_PASS else XDP_DROP), st)"
proof -
  have types: "BE_ETH_P_IPV6 \<noteq> BE_ETH_P_IP" "FURTHER_PROCESSING \<noteq> XDP_DROP"
    by (simp_all add: const_defs)
  show ?thesis
    using types
    by (simp add: balancer_ingress_def Let_def ETH_HLEN_def process_packet_non_icmp [OF assms]
        parse_l3_code [OF assms] xd_good_headers_def)
qed

theorem balancer_only_filters_witness:
  "balancer_ingress ref_config ref_kernel ref_unread (init_bst ref_config (replicate 60 0)) =
     (Verdict XDP_PASS, init_bst ref_config (replicate 60 0))"
proof -
  have "u_protocol ref_unread \<noteq> IPPROTO_ICMP" "u_protocol ref_unread \<noteq> IPPROTO_ICMPV6"
    by (simp_all add: ref_unread_def const_defs)
  moreover have "xd_good_headers (u_protocol ref_unread) (replicate 60 0)"
    by code_simp
  ultimately show ?thesis
    using balancer_only_filters by (simp add: init_bst_def)
qed

section \<open>ICMP messages\<close>

text \<open>
  process_packet hands handle_if_icmp the offset 0, which parse_l3_headers was meant to set: the
  type of the message is read from the first byte of the Ethernet destination.
\<close>

definition echo_reply :: "bool \<Rightarrow> bytes \<Rightarrow> int \<times> bytes" where
  "echo_reply v6 p = (if v6 then send_icmp6_reply p else send_icmp_reply p)"

definition echo_type :: "bool \<Rightarrow> u8" where
  "echo_type v6 = (if v6 then ICMPV6_ECHO_REQUEST else ICMP_ECHO)"

definition error_types :: "bool \<Rightarrow> u8 set" where
  "error_types v6 = (if v6 then {ICMPV6_PKT_TOOBIG, ICMPV6_DEST_UNREACH} else {ICMP_DEST_UNREACH})"

lemma reply_codes: "fst (send_icmp_reply p) \<ge> 0" "fst (send_icmp6_reply p) \<ge> 0"
  by (simp_all add: send_icmp_reply_def send_icmp6_reply_def swap_mac_and_send_def Let_def const_defs)

lemma handle_icmp_type:
  assumes "prot = (if v6 then IPPROTO_ICMPV6 else IPPROTO_ICMP)" "rd8 (xdata st) 0 \<notin> error_types v6" "8 \<le> length (xdata st)"
  shows "handle_if_icmp 0 pk prot st =
    (if rd8 (xdata st) 0 = echo_type v6
     then (fst (echo_reply v6 (xdata st)), pk, st\<lparr>xdata := snd (echo_reply v6 (xdata st))\<rparr>)
     else (XDP_PASS, pk, st))"
proof (cases v6)
  case True
  have "ICMP6_HLEN = 8" by (simp add: const_defs)
  then show ?thesis
    using assms True
    by (simp add: handle_if_icmp_def parse_icmpv6_def error_types_def echo_type_def echo_reply_def split_def Let_def)
next
  case False
  have "IPPROTO_ICMPV6 \<noteq> IPPROTO_ICMP" "ICMP_HLEN = 8" by (simp_all add: const_defs)
  then show ?thesis
    using assms False
    by (simp add: handle_if_icmp_def parse_icmp_def error_types_def echo_type_def echo_reply_def split_def Let_def)
qed

text \<open>
  C11: in every build, an ICMP message with well formed headers is judged by the first byte of the
  Ethernet destination, whatever its own type is: where that byte is the number of an echo request,
  the balancer turns any message into an echo reply; where it is not the number of an error either,
  the balancer passes every message, echo requests and errors for its VIPs alike.
\<close>

theorem icmp_judged_by_mac:
  assumes "u_protocol u = (if v6 then IPPROTO_ICMPV6 else IPPROTO_ICMP)"
    "rd16 (xdata st) 12 = (if v6 then BE_ETH_P_IPV6 else BE_ETH_P_IP)"
    "xd_good_headers (u_protocol u) (xdata st)" "rd8 (xdata st) 0 \<notin> error_types v6"
  shows "balancer_ingress c k u st =
    (if rd8 (xdata st) 0 = echo_type v6
     then (Verdict (fst (echo_reply v6 (xdata st))), st\<lparr>xdata := snd (echo_reply v6 (xdata st))\<rparr>)
     else (Verdict XDP_PASS, st))"
proof -
  have types: "BE_ETH_P_IPV6 \<noteq> BE_ETH_P_IP" "XDP_PASS \<ge> 0" "\<not> FURTHER_PROCESSING \<ge> 0"
    "IPPROTO_ICMPV6 \<noteq> IPPROTO_FRAGMENT"
    by (simp_all add: const_defs)
  have len: "8 \<le> length (xdata st)" "14 \<le> length (xdata st)" using assms(3) by (simp_all add: xd_good_headers_def)
  note h = handle_icmp_type [OF assms(1,4) len(1)]
  have l3: "fst (parse_l3_headers (xdata st) (u_protocol u) 14 v6 zero_pckt) = FURTHER_PROCESSING"
    using assms(1-3) types
    by (auto simp: parse_l3_headers_def xd_good_headers_def Let_def IP6_HLEN_def IP_HLEN_def split: if_splits)
  have r: "fst (echo_reply v6 (xdata st)) \<ge> 0" by (simp add: echo_reply_def reply_codes)
  have "pp_parse c k u 14 v6 st =
    (if rd8 (xdata st) 0 = echo_type v6
     then (Stop (Verdict (fst (echo_reply v6 (xdata st)))), st\<lparr>xdata := snd (echo_reply v6 (xdata st))\<rparr>)
     else (Stop (Verdict XDP_PASS), st))"
    using l3 types r by (simp add: pp_parse_def split_def Let_def h)
  then have "process_packet c k u 14 v6 st =
    (if rd8 (xdata st) 0 = echo_type v6
     then (Verdict (fst (echo_reply v6 (xdata st))), st\<lparr>xdata := snd (echo_reply v6 (xdata st))\<rparr>)
     else (Verdict XDP_PASS, st))"
    by (simp add: process_packet_def finish_def)
  then show ?thesis
    using assms(2) types len by (auto simp: balancer_ingress_def Let_def ETH_HLEN_def split: if_splits)
qed

text \<open>
  An echo request to a host whose address begins with 2 is passed; an echo reply to a host whose
  address begins with 8 is answered.
\<close>

definition ex_icmp_frame :: "u8 \<Rightarrow> u8 \<Rightarrow> bytes" where
  "ex_icmp_frame mac t = [mac, 0, 0, 0, 0, 1, 2, 0, 0, 0, 0, 2, 8, 0, 0x45] @ replicate 19 0 @ [t] @ replicate 25 0"

theorem icmp_judged_by_mac_witness:
  "balancer_ingress ref_config ref_kernel (ref_unread\<lparr>u_protocol := IPPROTO_ICMP\<rparr>)
       (init_bst ref_config (ex_icmp_frame 2 8)) = (Verdict XDP_PASS, init_bst ref_config (ex_icmp_frame 2 8)) \<and>
   fst (balancer_ingress ref_config ref_kernel (ref_unread\<lparr>u_protocol := IPPROTO_ICMP\<rparr>)
       (init_bst ref_config (ex_icmp_frame 8 0))) = Verdict XDP_TX"
proof -
  let ?u = "ref_unread\<lparr>u_protocol := IPPROTO_ICMP\<rparr>"
  have x: "xdata (init_bst ref_config p) = p" for p by (simp add: init_bst_def)
  have g: "xd_good_headers IPPROTO_ICMP (ex_icmp_frame 2 8)" "xd_good_headers IPPROTO_ICMP (ex_icmp_frame 8 0)"
    "rd16 (ex_icmp_frame 2 8) 12 = BE_ETH_P_IP" "rd16 (ex_icmp_frame 8 0) 12 = BE_ETH_P_IP"
    "rd8 (ex_icmp_frame 2 8) 0 = 2" "rd8 (ex_icmp_frame 8 0) 0 = 8"
    "fst (echo_reply False (ex_icmp_frame 8 0)) = XDP_TX"
    "(2 :: u8) \<notin> error_types False" "(8 :: u8) \<notin> error_types False" "echo_type False = 8"
    by code_simp+
  then show ?thesis
    using icmp_judged_by_mac [of ?u False "init_bst ref_config (ex_icmp_frame 2 8)" ref_config ref_kernel]
      icmp_judged_by_mac [of ?u False "init_bst ref_config (ex_icmp_frame 8 0)" ref_config ref_kernel]
    by (simp add: x)
qed

end
