(* ===== verification/Netlink.thy ===== *)
theory Netlink
  imports Prelude
begin

text \<open>
  lib/Netlink.cpp: the netlink messages which attach XDP programs and traffic control filters.
  A message is its header, the header of its family and the tree of its attributes, in the order
  in which the calls of libmnl append them: a nest is opened by mnl_attr_nest_start and
  holds what is put before the matching mnl_attr_nest_end. The constants are those of the
  Linux headers; sizes follow the alignment of netlink to 4 bytes.
\<close>

section \<open>Messages\<close>

datatype nlattr = Attr nat bytes | Nest nat "nlattr list"

record tcmsg =
  tcm_family :: u8
  tcm_ifindex :: u32
  tcm_handle :: u32
  tcm_parent :: u32
  tcm_info :: u32

record ifinfomsg =
  ifi_family :: u8
  ifi_index :: u32

datatype nlextra = Tcm tcmsg | Ifinfo ifinfomsg

record nlmsg =
  nl_type :: u16
  nl_flags :: u16
  nl_seq :: u32
  nl_extra :: nlextra
  nl_attrs :: "nlattr list"

definition NLM_F_REQUEST :: u16 where "NLM_F_REQUEST = 1"
definition NLM_F_ACK :: u16 where "NLM_F_ACK = 4"
definition NLM_F_REPLACE :: u16 where "NLM_F_REPLACE = 0x100"
definition NLM_F_EXCL :: u16 where "NLM_F_EXCL = 0x200"
definition NLM_F_CREATE :: u16 where "NLM_F_CREATE = 0x400"
definition RTM_SETLINK :: u16 where "RTM_SETLINK = 19"
definition RTM_NEWQDISC :: u16 where "RTM_NEWQDISC = 36"
definition RTM_NEWTFILTER :: u16 where "RTM_NEWTFILTER = 44"
definition RTM_DELTFILTER :: u16 where "RTM_DELTFILTER = 45"
definition TC_H_CLSACT :: u32 where "TC_H_CLSACT = 0xFFFFFFF1"
definition ETH_P_ALL :: u16 where "ETH_P_ALL = 3"
definition TCA_BPF_FLAG_ACT_DIRECT :: u32 where "TCA_BPF_FLAG_ACT_DIRECT = 1"

lemmas nl_consts = NLM_F_REQUEST_def NLM_F_ACK_def NLM_F_REPLACE_def NLM_F_EXCL_def NLM_F_CREATE_def
  RTM_SETLINK_def RTM_NEWQDISC_def RTM_NEWTFILTER_def RTM_DELTFILTER_def TC_H_CLSACT_def ETH_P_ALL_def

definition TC_H_MAKE :: "u32 \<Rightarrow> u32 \<Rightarrow> u32" where
  "TC_H_MAKE maj mnr = (maj AND 0xFFFF0000) OR (mnr AND 0x0000FFFF)"

text \<open>The texts "bpf", "gact" and "clsact" with their terminating zero.\<close>

definition kBpfKind :: bytes where "kBpfKind = [98, 112, 102, 0]"
definition kTcActKind :: bytes where "kTcActKind = [103, 97, 99, 116, 0]"
definition kClsActKind :: bytes where "kClsActKind = [99, 108, 115, 97, 99, 116, 0]"

section \<open>The three messages\<close>

text \<open>
  The attribute numbers are TCA_KIND = 1, TCA_OPTIONS = 2; TCA_BPF_FD = 6, TCA_BPF_FLAGS = 8,
  TCA_BPF_NAME = 7, TCA_BPF_ACT = 1, TCA_BPF_PRIO_1 = 1; TCA_ACT_KIND = 1, TCA_ACT_OPTIONS = 2;
  TCA_GACT_PARMS = 2, whose value is five words, the action TC_ACT_OK = 0 among them.
\<close>

definition nl_TC :: "u32 \<Rightarrow> u16 \<Rightarrow> u16 \<Rightarrow> u32 \<Rightarrow> u32 \<Rightarrow> u32 \<Rightarrow> bytes \<Rightarrow> u32 \<Rightarrow> u32 \<Rightarrow> nlmsg" where
  "nl_TC sq cmd flags priority prog_fd ifidx bpf_name direction handle =
     (let protocol = (if cmd = RTM_NEWTFILTER \<and> has_flag flags NLM_F_CREATE
                      then ucast (bswap16 ETH_P_ALL) else 0)
      in \<lparr>nl_type = cmd, nl_flags = NLM_F_REQUEST OR NLM_F_ACK OR flags, nl_seq = sq,
          nl_extra = Tcm \<lparr>tcm_family = 0, tcm_ifindex = ifidx, tcm_handle = TC_H_MAKE 0 handle,
                          tcm_parent = direction, tcm_info = TC_H_MAKE (push_bit 16 priority) protocol\<rparr>,
          nl_attrs =
            [Attr 1 kBpfKind,
             Nest 2
               [Attr 6 (le32 prog_fd),
                Attr 8 (le32 TCA_BPF_FLAG_ACT_DIRECT),
                Attr 7 (bpf_name @ [0]),
                Nest 1
                  [Nest 1
                     [Attr 1 kTcActKind,
                      Nest 2 [Attr 2 (replicate 20 0)]]]]]\<rparr>)"

text \<open>QD does not set nlmsg_seq: mnl_nlmsg_put_header has zeroed the header.\<close>

definition nl_QD :: "u32 \<Rightarrow> nlmsg" where
  "nl_QD ifidx =
     \<lparr>nl_type = RTM_NEWQDISC, nl_flags = NLM_F_REQUEST OR NLM_F_ACK OR NLM_F_EXCL OR NLM_F_CREATE, nl_seq = 0,
      nl_extra = Tcm \<lparr>tcm_family = 0, tcm_ifindex = ifidx, tcm_handle = TC_H_MAKE TC_H_CLSACT 0,
                      tcm_parent = TC_H_CLSACT, tcm_info = 0\<rparr>,
      nl_attrs = [Attr 1 kClsActKind]\<rparr>"

text \<open>IFLA_XDP = 43, IFLA_XDP_FD = 1, IFLA_XDP_FLAGS = 3.\<close>

definition nl_XDP :: "u32 \<Rightarrow> u32 \<Rightarrow> u32 \<Rightarrow> u32 \<Rightarrow> nlmsg" where
  "nl_XDP sq prog_fd ifidx flags =
     \<lparr>nl_type = RTM_SETLINK, nl_flags = NLM_F_REQUEST OR NLM_F_ACK, nl_seq = sq,
      nl_extra = Ifinfo \<lparr>ifi_family = 0, ifi_index = ifidx\<rparr>,
      nl_attrs = [Nest 43 (Attr 1 (le32 prog_fd) # (if flags > 0 then [Attr 3 (le32 flags)] else []))]\<rparr>"

definition nl_msg_seq :: "nlmsg \<Rightarrow> u32" where
  "nl_msg_seq m = nl_seq m"

section \<open>Sizes\<close>

definition nl_align :: "nat \<Rightarrow> nat" where
  "nl_align n = (n + 3) div 4 * 4"

fun attr_size :: "nlattr \<Rightarrow> nat" where
  "attr_size (Attr t d) = nl_align (4 + length d)"
| "attr_size (Nest t as) = 4 + sum_list (map attr_size as)"

definition extra_size :: "nlextra \<Rightarrow> nat" where
  "extra_size x = (case x of Tcm _ \<Rightarrow> 20 | Ifinfo _ \<Rightarrow> 16)"

text \<open>nlmsg_len, to which the buffer of the message is cut at the end.\<close>

definition nlmsg_len :: "nlmsg \<Rightarrow> nat" where
  "nlmsg_len m = 16 + extra_size (nl_extra m) + sum_list (map attr_size (nl_attrs m))"

lemma nl_align_simps [simp]:
  "nl_align 4 = 4" "nl_align 8 = 8" "nl_align 9 = 12" "nl_align 11 = 12" "nl_align 24 = 24"
  by (simp_all add: nl_align_def)

lemma TC_size: "nlmsg_len (nl_TC sq cmd fl pr fd i n d h) = 112 + nl_align (5 + length n)"
  by (simp add: nlmsg_len_def nl_TC_def Let_def extra_size_def kBpfKind_def kTcActKind_def)

lemma XDP_size: "nlmsg_len (nl_XDP sq fd i fl) = (if fl > 0 then 52 else 44)"
  by (simp add: nlmsg_len_def nl_XDP_def extra_size_def)

lemma QD_size: "nlmsg_len (nl_QD i) = 48"
  by (simp add: nlmsg_len_def nl_QD_def extra_size_def kClsActKind_def)

lemma nl_align_bounds: "n \<le> nl_align n" "nl_align n \<le> n + 3" "4 dvd nl_align n"
  by (auto simp: nl_align_def)

section \<open>Which filter a message names\<close>

text \<open>
  The kernel finds a filter by the interface, the parent, the priority (the major half of
  tcm_info) and the handle.
\<close>

definition filter_key :: "nlmsg \<Rightarrow> (u32 \<times> u32 \<times> u16 \<times> u32) option" where
  "filter_key m = (case nl_extra m of
     Tcm t \<Rightarrow> Some (tcm_ifindex t, tcm_parent t, ucast (drop_bit 16 (tcm_info t)), tcm_handle t)
   | Ifinfo _ \<Rightarrow> None)"

lemma TC_masks: "(0xFFFF :: u32) = mask 16" "(0xFFFF0000 :: u32) = push_bit 16 (mask 16)"
  by (simp_all add: mask_eq_exp_minus_1 push_bit_eq_mult)

lemma TC_H_MAKE_major: "(ucast (drop_bit 16 (TC_H_MAKE (push_bit 16 a) b)) :: u16) = ucast (a :: u32)"
  by (rule bit_word_eqI) (auto simp: TC_H_MAKE_def TC_masks bit_simps)

lemma TC_H_MAKE_minor: "TC_H_MAKE 0 h = TC_H_MAKE 0 h' \<longleftrightarrow> (ucast h :: u16) = ucast (h' :: u32)"
proof -
  have e: "TC_H_MAKE 0 x = ucast (ucast x :: u16)" for x
    by (rule bit_word_eqI) (auto simp: TC_H_MAKE_def TC_masks bit_simps)
  have "(ucast (ucast a :: u32) :: u16) = a" for a :: u16
    by (rule bit_word_eqI) (auto simp: bit_simps)
  then have i: "(ucast (a :: u16) :: u32) = ucast b \<longleftrightarrow> a = b" for a b
    by metis
  show ?thesis
    by (simp add: e i)
qed

lemma filter_key_TC:
  "filter_key (nl_TC sq cmd fl pr fd i n d h) = Some (i, d, ucast pr, TC_H_MAKE 0 h)"
  by (simp add: filter_key_def nl_TC_def Let_def TC_H_MAKE_major)

end
