(* ===== verification/BpfAdapter.thy ===== *)
theory BpfAdapter
  imports Netlink "HOL-Library.AList"
begin

text \<open>
  lib/BaseBpfAdapter.cpp: maps, interfaces, traffic control filters, programs of a cgroup and the
  run of a program on a packet. The kernel is a state (maps by descriptor, the programs attached
  to a cgroup, the open descriptors) and a record of what it may refuse. The perf ring buffer is
  in theory PerfRing.

  The lines which store through an output pointer of testXdpProg are cut, and so are the
  addresses of the i-th element in bpfUpdateMapBatch (the argument elem) and the condition of the
  check of the key size in getBpfMapUsedSize (the argument key_too_big).
\<close>

section \<open>Kernel state\<close>

record kmap =
  km_max_entries :: u32
  km_entries :: "(bytes \<times> bytes) list"

record ksys =
  k_maps :: "int \<rightharpoonup> kmap"
  k_cgroup :: "u32 list"
  k_open :: "int list"

text \<open>
  kr_update: whether an update of a map is accepted. kr_batch: how many elements of a batch are
  written, and whether an error is reported. kr_next: an error of get_next_key other than the end
  of the map. kr_dir: the descriptor open gives for a directory, negative on failure.
  kr_detach: the programs bpf_prog_detach leaves, None when it fails. kr_prog_fd: the
  descriptor for a program id; kr_detach2: whether detaching one id succeeds. kr_prog_name: the
  name of a program, None when its information cannot be read.
\<close>

record krefuse =
  kr_update :: "int \<Rightarrow> bytes \<Rightarrow> kmap \<Rightarrow> bool"
  kr_batch :: "int \<Rightarrow> (bytes \<times> bytes) list \<Rightarrow> kmap \<Rightarrow> nat \<times> bool"
  kr_info :: "int \<Rightarrow> bool"
  kr_next :: "int \<Rightarrow> bytes option \<Rightarrow> int option"
  kr_dir :: "string \<Rightarrow> int"
  kr_detach :: "u32 list \<Rightarrow> u32 list option"
  kr_query_ok :: bool
  kr_prog_fd :: "u32 \<Rightarrow> int"
  kr_detach2 :: "u32 \<Rightarrow> bool"
  kr_prog_name :: "u32 \<Rightarrow> string option"

section \<open>Maps\<close>

definition upd_kmap :: "int \<Rightarrow> (kmap \<Rightarrow> kmap) \<Rightarrow> ksys \<Rightarrow> ksys" where
  "upd_kmap fd f s = s\<lparr>k_maps := (k_maps s)(fd := map_option f (k_maps s fd))\<rparr>"

definition put_entry :: "bytes \<times> bytes \<Rightarrow> kmap \<Rightarrow> kmap" where
  "put_entry kv m = m\<lparr>km_entries := AList.update (fst kv) (snd kv) (km_entries m)\<rparr>"

definition bpfUpdateMap :: "krefuse \<Rightarrow> int \<Rightarrow> bytes \<times> bytes \<Rightarrow> ksys \<Rightarrow> int \<times> ksys" where
  "bpfUpdateMap r fd kv s =
     (case k_maps s fd of
        None \<Rightarrow> (- 1, s)
      | Some m \<Rightarrow> if kr_update r fd (fst kv) m then (0, upd_kmap fd (put_entry kv) s) else (- 1, s))"

definition getBpfMapInfo :: "krefuse \<Rightarrow> int \<Rightarrow> ksys \<Rightarrow> kmap option" where
  "getBpfMapInfo r fd s = (if kr_info r fd then k_maps s fd else None)"

fun update_loop :: "krefuse \<Rightarrow> int \<Rightarrow> (nat \<Rightarrow> bytes \<times> bytes) \<Rightarrow> nat \<Rightarrow> nat \<Rightarrow> ksys \<Rightarrow> int \<times> ksys" where
  "update_loop r fd elem i 0 s = (0, s)"
| "update_loop r fd elem i (Suc n) s =
     (let (res, s) = bpfUpdateMap r fd (elem i) s
      in if res \<noteq> 0 then (- 1, s) else update_loop r fd elem (Suc i) n s)"

text \<open>kvs is the arrays keys and values, count elements of each.\<close>

definition bpfUpdateMapBatch ::
  "bool \<Rightarrow> krefuse \<Rightarrow> int \<Rightarrow> (bytes \<times> bytes) list \<Rightarrow> (nat \<Rightarrow> bytes \<times> bytes) \<Rightarrow> ksys \<Rightarrow> int \<times> ksys" where
  "bpfUpdateMapBatch batchOpsEnabled r fd kvs elem s =
     (if batchOpsEnabled then
        case k_maps s fd of
          None \<Rightarrow> (- 1, s)
        | Some m \<Rightarrow>
            let (n, err) = kr_batch r fd kvs m;
                s = upd_kmap fd (fold put_entry (take n kvs)) s
            in if err then (- 1, s)
               else if length kvs \<noteq> n then (- 1, s)
               else (0, s)
      else
        case getBpfMapInfo r fd s of
          None \<Rightarrow> (- 1, s)
        | Some _ \<Rightarrow> update_loop r fd elem 0 (length kvs) s)"

definition bpfMapLookupElement :: "int \<Rightarrow> bytes \<Rightarrow> ksys \<Rightarrow> bytes option" where
  "bpfMapLookupElement fd key s =
     (case k_maps s fd of None \<Rightarrow> None | Some m \<Rightarrow> map_of (km_entries m) key)"

definition bpfMapDeleteElement :: "int \<Rightarrow> bytes \<Rightarrow> ksys \<Rightarrow> int \<times> ksys" where
  "bpfMapDeleteElement fd key s =
     (if bpfMapLookupElement fd key s = None then (- 1, s)
      else (0, upd_kmap fd (\<lambda>m. m\<lparr>km_entries := AList.delete key (km_entries m)\<rparr>) s))"

text \<open>
  The keys in the order of the kernel: the first one when there is no previous key or it is not in
  the map, the one behind it otherwise.
\<close>

datatype next_res = NextKey bytes | NoEntry | NextErr int

fun key_after :: "bytes list \<Rightarrow> bytes \<Rightarrow> bytes list \<Rightarrow> bytes option" where
  "key_after all k [] = (case all of [] \<Rightarrow> None | x # _ \<Rightarrow> Some x)"
| "key_after all k (x # xs) = (if x = k then (case xs of [] \<Rightarrow> None | y # _ \<Rightarrow> Some y) else key_after all k xs)"

definition bpfMapGetNextKey :: "krefuse \<Rightarrow> int \<Rightarrow> bytes option \<Rightarrow> ksys \<Rightarrow> next_res" where
  "bpfMapGetNextKey r fd prev s =
     (case kr_next r fd prev of
        Some e \<Rightarrow> NextErr e
      | None \<Rightarrow>
          (case k_maps s fd of
             None \<Rightarrow> NextErr 9
           | Some m \<Rightarrow>
               let keys = map fst (km_entries m);
                   nxt = (case prev of None \<Rightarrow> (case keys of [] \<Rightarrow> None | x # _ \<Rightarrow> Some x)
                          | Some k \<Rightarrow> key_after keys k keys)
               in case nxt of None \<Rightarrow> NoEntry | Some k \<Rightarrow> NextKey k))"

definition bpfMapGetFdOfInnerMap :: "(u32 \<Rightarrow> int) \<Rightarrow> int \<Rightarrow> bytes \<Rightarrow> ksys \<Rightarrow> int" where
  "bpfMapGetFdOfInnerMap fd_by_id outer key s =
     (case bpfMapLookupElement outer key s of
        None \<Rightarrow> - 1
      | Some v \<Rightarrow> fd_by_id (rd32 v 0))"

definition getBpfMapMaxSize :: "krefuse \<Rightarrow> (string \<Rightarrow> int) \<Rightarrow> string \<Rightarrow> ksys \<Rightarrow> int" where
  "getBpfMapMaxSize r fd_by_name name s =
     (let fd = fd_by_name name
      in if fd < 0 then fd
         else case getBpfMapInfo r fd s of None \<Rightarrow> - 1 | Some m \<Rightarrow> sint (km_max_entries m))"

text \<open>The walk over the keys; it never ends when the kernel starts again, so it may have no value.\<close>

partial_function (option) used_loop ::
  "krefuse \<Rightarrow> int \<Rightarrow> ksys \<Rightarrow> bytes option \<Rightarrow> nat \<Rightarrow> int option" where
  "used_loop r fd s prev n =
     (case bpfMapGetNextKey r fd prev s of
        NextKey k \<Rightarrow> used_loop r fd s (Some k) (n + 1)
      | NoEntry \<Rightarrow> Some (int n)
      | NextErr e \<Rightarrow> Some (- e))"

definition getBpfMapUsedSize ::
  "krefuse \<Rightarrow> (string \<Rightarrow> int) \<Rightarrow> bool \<Rightarrow> string \<Rightarrow> ksys \<Rightarrow> int option" where
  "getBpfMapUsedSize r fd_by_name key_too_big name s =
     (let fd = fd_by_name name
      in if fd < 0 then Some fd
         else case getBpfMapInfo r fd s of
                None \<Rightarrow> Some (- 1)
              | Some m \<Rightarrow> if key_too_big then Some (- 1) else used_loop r fd s None 0)"

section \<open>Interfaces and filters\<close>

text \<open>
  NetlinkRoundtrip: open, bind and send may fail; then each answer is what recvfrom returns
  and, when it is positive, what the callbacks return for it. Without an answer the
  call blocks: None.
\<close>

record nl_sock =
  ns_open :: bool
  ns_bind :: bool
  ns_send :: bool
  ns_answers :: "(int \<times> int) list"

fun recv_loop :: "(int \<times> int) list \<Rightarrow> int option" where
  "recv_loop [] = None"
| "recv_loop ((n, cb) # as) =
     (if n > 0 then if cb \<le> 0 then Some cb else recv_loop as else Some n)"

definition NetlinkRoundtrip :: "nl_sock \<Rightarrow> int option" where
  "NetlinkRoundtrip ns =
     (if \<not> ns_open ns then Some (- 1)
      else if \<not> ns_bind ns then Some (- 1)
      else if \<not> ns_send ns then Some (- 1)
      else recv_loop (ns_answers ns))"

text \<open>
  The modifying calls give the message they send and the result; sk is the socket for a message,
  now the time that numbers it.
\<close>

definition modifyXdpProg ::
  "(nlmsg \<Rightarrow> nl_sock) \<Rightarrow> u32 \<Rightarrow> int \<Rightarrow> u32 \<Rightarrow> u32 \<Rightarrow> nlmsg \<times> int option" where
  "modifyXdpProg sk now prog_fd ifidx flags =
     (let msg = nl_XDP now (word_of_int prog_fd) ifidx flags in (msg, NetlinkRoundtrip (sk msg)))"

definition modifyTcBpfFilter :: "(nlmsg \<Rightarrow> nl_sock) \<Rightarrow> u32 \<Rightarrow> u16 \<Rightarrow> u16 \<Rightarrow> u32 \<Rightarrow> int \<Rightarrow> u32 \<Rightarrow> bytes
    \<Rightarrow> int \<Rightarrow> u32 \<Rightarrow> nlmsg \<times> int option" where
  "modifyTcBpfFilter sk now cmd flags priority prog_fd ifidx bpf_name direction handle =
     (let msg = nl_TC now cmd flags priority (word_of_int prog_fd) ifidx bpf_name (word_of_int direction) handle
      in (msg, NetlinkRoundtrip (sk msg)))"

definition attachXdpProg ::
  "(nlmsg \<Rightarrow> nl_sock) \<Rightarrow> u32 \<Rightarrow> u32 \<Rightarrow> int \<Rightarrow> u32 \<Rightarrow> nlmsg option \<times> int option" where
  "attachXdpProg sk now ifidx prog_fd flags =
     (if ifidx = 0 then (None, Some 1)
      else let (m, res) = modifyXdpProg sk now prog_fd ifidx flags in (Some m, res))"

definition detachXdpProg ::
  "(nlmsg \<Rightarrow> nl_sock) \<Rightarrow> u32 \<Rightarrow> u32 \<Rightarrow> u32 \<Rightarrow> nlmsg option \<times> int option" where
  "detachXdpProg sk now ifidx flags =
     (if ifidx = 0 then (None, Some 1)
      else let (m, res) = modifyXdpProg sk now (- 1) ifidx flags in (Some m, res))"

definition genericAttachBpfProgToTc :: "(nlmsg \<Rightarrow> nl_sock) \<Rightarrow> u32 \<Rightarrow> int \<Rightarrow> u32 \<Rightarrow> bytes \<Rightarrow> u32 \<Rightarrow> int
    \<Rightarrow> u32 \<Rightarrow> nlmsg \<times> int option" where
  "genericAttachBpfProgToTc sk now prog_fd ifidx bpf_name priority direction handle =
     modifyTcBpfFilter sk now RTM_NEWTFILTER (NLM_F_EXCL OR NLM_F_CREATE) priority prog_fd ifidx bpf_name
       direction handle"

text \<open>The result of the call that adds the queueing discipline is ignored (it may exist).\<close>

definition addTcBpfFilter :: "(nlmsg \<Rightarrow> nl_sock) \<Rightarrow> u32 \<Rightarrow> int \<Rightarrow> u32 \<Rightarrow> bytes \<Rightarrow> u32 \<Rightarrow> int
    \<Rightarrow> u32 \<Rightarrow> nlmsg list \<times> int option" where
  "addTcBpfFilter sk now prog_fd ifidx bpf_name priority direction handle =
     (let qd = nl_QD ifidx
      in case NetlinkRoundtrip (sk qd) of
           None \<Rightarrow> ([qd], None)
         | Some _ \<Rightarrow>
             let (m, res) = genericAttachBpfProgToTc sk now prog_fd ifidx bpf_name priority direction handle
             in ([qd, m], res))"

definition replaceTcBpfFilter :: "(nlmsg \<Rightarrow> nl_sock) \<Rightarrow> u32 \<Rightarrow> int \<Rightarrow> u32 \<Rightarrow> bytes \<Rightarrow> u32 \<Rightarrow> int
    \<Rightarrow> u32 \<Rightarrow> nlmsg \<times> int option" where
  "replaceTcBpfFilter sk now prog_fd ifidx bpf_name priority direction handle =
     modifyTcBpfFilter sk now RTM_NEWTFILTER (NLM_F_CREATE OR NLM_F_REPLACE) priority prog_fd ifidx bpf_name
       direction handle"

definition deleteTcBpfFilter :: "(nlmsg \<Rightarrow> nl_sock) \<Rightarrow> u32 \<Rightarrow> int \<Rightarrow> u32 \<Rightarrow> bytes \<Rightarrow> u32 \<Rightarrow> int
    \<Rightarrow> u32 \<Rightarrow> nlmsg \<times> int option" where
  "deleteTcBpfFilter sk now prog_fd ifidx bpf_name priority direction handle =
     modifyTcBpfFilter sk now RTM_DELTFILTER 0 priority prog_fd ifidx bpf_name direction handle"

text \<open>The output pointers keep what they point to.\<close>

definition testXdpProg ::
  "(int \<Rightarrow> bytes \<Rightarrow> int \<times> bytes) \<Rightarrow> int \<Rightarrow> bytes \<Rightarrow> u32 \<Rightarrow> u32 \<Rightarrow> int \<times> bytes \<times> u32 \<times> u32" where
  "testXdpProg run prog_fd d size_out retval =
     (let (ret, data_out) = run prog_fd d in (ret, data_out, size_out, retval))"

section \<open>Programs of a cgroup\<close>

definition kMaxProgsToQuery :: nat where "kMaxProgsToQuery = 1024"

definition open_fd :: "int \<Rightarrow> ksys \<Rightarrow> ksys" where
  "open_fd fd s = s\<lparr>k_open := fd # k_open s\<rparr>"

definition close_fd :: "int \<Rightarrow> ksys \<Rightarrow> ksys" where
  "close_fd fd s = s\<lparr>k_open := remove1 fd (k_open s)\<rparr>"

text \<open>SCOPE_EXIT closes the directory on every way out of the rest of the function.\<close>

definition with_dir :: "krefuse \<Rightarrow> string \<Rightarrow> 'a \<Rightarrow> (ksys \<Rightarrow> 'a \<times> ksys) \<Rightarrow> ksys \<Rightarrow> 'a \<times> ksys" where
  "with_dir r dir failed body s =
     (let fd = kr_dir r dir
      in if fd < 0 then (failed, s)
         else let (v, s) = body (open_fd fd s) in (v, close_fd fd s))"

definition getCgroupProgsIds :: "krefuse \<Rightarrow> string \<Rightarrow> ksys \<Rightarrow> u32 list \<times> ksys" where
  "getCgroupProgsIds r dir =
     with_dir r dir [] (\<lambda>s.
       (if kr_query_ok r \<and> length (k_cgroup s) \<le> kMaxProgsToQuery then k_cgroup s else [], s))"

definition prog_detach2 :: "krefuse \<Rightarrow> u32 \<Rightarrow> ksys \<Rightarrow> int \<times> ksys" where
  "prog_detach2 r i s =
     (if kr_detach2 r i \<and> i \<in> set (k_cgroup s) then (0, s\<lparr>k_cgroup := remove1 i (k_cgroup s)\<rparr>) else (- 1, s))"

fun detach_ids :: "krefuse \<Rightarrow> u32 list \<Rightarrow> int \<Rightarrow> ksys \<Rightarrow> int \<times> ksys" where
  "detach_ids r [] res s = (res, s)"
| "detach_ids r (i # is) res s =
     (let fd = kr_prog_fd r i
      in if fd < 0 then (- 1, s)
         else
           let (res, s) = prog_detach2 r i (open_fd fd s); s = close_fd fd s
           in if res \<noteq> 0 then (res, s) else detach_ids r is res s)"

definition detachCgroupProg :: "krefuse \<Rightarrow> string \<Rightarrow> ksys \<Rightarrow> int \<times> ksys" where
  "detachCgroupProg r dir =
     with_dir r dir (- 1) (\<lambda>s.
       case kr_detach r (k_cgroup s) of
         Some left \<Rightarrow> (0, s\<lparr>k_cgroup := left\<rparr>)
       | None \<Rightarrow>
           let (ids, s) = getCgroupProgsIds r dir s
           in if ids = [] then (- 1, s) else detach_ids r ids (- 1) s)"

text \<open>getBpfProgInfo throws when the information cannot be read: the value None.\<close>

fun detach_prefix :: "krefuse \<Rightarrow> string \<Rightarrow> u32 list \<Rightarrow> ksys \<Rightarrow> int option \<times> ksys" where
  "detach_prefix r pre [] s = (Some 0, s)"
| "detach_prefix r pre (i # is) s =
     (let fd = kr_prog_fd r i
      in if fd < 0 then (Some (- 1), s)
         else
           let s = open_fd fd s
           in case kr_prog_name r i of
                None \<Rightarrow> (None, close_fd fd s)
              | Some name \<Rightarrow>
                  if take (length pre) name = pre then
                    let (res, s) = prog_detach2 r i s
                    in if res \<noteq> 0 then (Some res, close_fd fd s) else detach_prefix r pre is (close_fd fd s)
                  else detach_prefix r pre is (close_fd fd s))"

definition detachCgroupProgByPrefix :: "krefuse \<Rightarrow> string \<Rightarrow> string \<Rightarrow> ksys \<Rightarrow> int option \<times> ksys" where
  "detachCgroupProgByPrefix r dir pre =
     with_dir r dir (Some (- 1)) (\<lambda>s.
       let (ids, s) = getCgroupProgsIds r dir s
       in if ids = [] then (Some (- 1), s) else detach_prefix r pre ids s)"

definition attachCgroupProg :: "krefuse \<Rightarrow> bool \<Rightarrow> u32 \<Rightarrow> string \<Rightarrow> ksys \<Rightarrow> int \<times> ksys" where
  "attachCgroupProg r accepted i dir =
     with_dir r dir (- 1) (\<lambda>s. if accepted then (0, s\<lparr>k_cgroup := k_cgroup s @ [i]\<rparr>) else (- 1, s))"

definition detachCgroupProg_fd :: "krefuse \<Rightarrow> u32 \<Rightarrow> string \<Rightarrow> ksys \<Rightarrow> int \<times> ksys" where
  "detachCgroupProg_fd r i dir = with_dir r dir (- 1) (prog_detach2 r i)"

end
