(* ===== verification/BpfAdapterProps.thy ===== *)
theory BpfAdapterProps
  imports BpfAdapter
begin

text \<open>
  What the calls of the adapter guarantee: no descriptor is leaked, a batch is the sequence of its
  updates in both modes, the walk over a map counts its entries, the programs with a prefix are
  the ones detached, and which traffic control filter a message names.
\<close>

section \<open>Descriptors\<close>

lemma with_dir_open:
  assumes "\<And>s. k_open (snd (body s)) = k_open s"
  shows "k_open (snd (with_dir r dir x body s)) = k_open s"
  using assms [of "open_fd (kr_dir r dir) s"]
  by (auto simp: with_dir_def open_fd_def close_fd_def Let_def split: prod.splits)

lemma prog_detach2_open [simp]: "k_open (snd (prog_detach2 r i s)) = k_open s"
  by (simp add: prog_detach2_def)

lemma close_open [simp]:
  "close_fd fd (open_fd fd s) = s" "k_open (open_fd fd s) = fd # k_open s"
  "k_open (close_fd fd s) = remove1 fd (k_open s)"
  "k_cgroup (open_fd fd s) = k_cgroup s" "k_cgroup (close_fd fd s) = k_cgroup s"
  by (simp_all add: close_fd_def open_fd_def)

lemma detach2_open_eq: "prog_detach2 r i s = (res, s') \<Longrightarrow> k_open s' = k_open s"
  using prog_detach2_open [of r i s] by simp

lemma detach_ids_open: "k_open (snd (detach_ids r is res s)) = k_open s"
proof (induction "is" arbitrary: res s)
  case (Cons i "is")
  obtain d s1 where d: "prog_detach2 r i (open_fd (kr_prog_fd r i) s) = (d, s1)"
    by (metis prod.exhaust)
  have "k_open s1 = kr_prog_fd r i # k_open s"
    using detach2_open_eq [OF d] by simp
  then show ?case
    by (simp add: Let_def d Cons.IH)
qed simp

lemma detach_prefix_open: "k_open (snd (detach_prefix r pre is s)) = k_open s"
proof (induction "is" arbitrary: s)
  case (Cons i "is")
  obtain d s1 where d: "prog_detach2 r i (open_fd (kr_prog_fd r i) s) = (d, s1)"
    by (metis prod.exhaust)
  have "k_open s1 = kr_prog_fd r i # k_open s"
    using detach2_open_eq [OF d] by simp
  then show ?case
    by (simp add: Let_def d Cons.IH split: option.splits)
qed simp

lemma getCgroupProgsIds_open: "k_open (snd (getCgroupProgsIds r dir s)) = k_open s"
  unfolding getCgroupProgsIds_def by (rule with_dir_open) simp

lemma getCgroupProgsIds_state: "snd (getCgroupProgsIds r dir s) = s"
  by (simp add: getCgroupProgsIds_def with_dir_def Let_def)

text \<open>
  C24: No call on a cgroup leaks a descriptor. Whatever the kernel refuses, and also when reading
  the information of a program throws, the descriptors open after the call are those open
  before it.
\<close>

theorem cgroup_calls_leak_nothing:
  "k_open (snd (detachCgroupProg r dir s)) = k_open s \<and>
   k_open (snd (detachCgroupProgByPrefix r dir pre s)) = k_open s \<and>
   k_open (snd (attachCgroupProg r ok i dir s)) = k_open s \<and>
   k_open (snd (detachCgroupProg_fd r i dir s)) = k_open s \<and>
   k_open (snd (getCgroupProgsIds r dir s)) = k_open s"
proof (intro conjI)
  show "k_open (snd (detachCgroupProg r dir s)) = k_open s"
    unfolding detachCgroupProg_def
    by (rule with_dir_open)
      (auto simp: Let_def detach_ids_open getCgroupProgsIds_state split: option.splits prod.splits
        dest: arg_cong [where f = snd] intro: arg_cong [where f = k_open])
  show "k_open (snd (detachCgroupProgByPrefix r dir pre s)) = k_open s"
    unfolding detachCgroupProgByPrefix_def
    by (rule with_dir_open)
      (auto simp: Let_def detach_prefix_open getCgroupProgsIds_state split: prod.splits
        dest: arg_cong [where f = snd])
  show "k_open (snd (attachCgroupProg r ok i dir s)) = k_open s"
    unfolding attachCgroupProg_def by (rule with_dir_open) simp
  show "k_open (snd (detachCgroupProg_fd r i dir s)) = k_open s"
    unfolding detachCgroupProg_fd_def by (rule with_dir_open) simp
  show "k_open (snd (getCgroupProgsIds r dir s)) = k_open s"
    by (rule getCgroupProgsIds_open)
qed

section \<open>Detaching by prefix\<close>

definition has_prefix :: "krefuse \<Rightarrow> string \<Rightarrow> u32 \<Rightarrow> bool" where
  "has_prefix r pre i \<longleftrightarrow> (\<exists>n. kr_prog_name r i = Some n \<and> take (length pre) n = pre)"

lemma detach_prefix_removes:
  "detach_prefix r pre is s = (Some 0, s') \<Longrightarrow> distinct is \<Longrightarrow> distinct (k_cgroup s) \<Longrightarrow>
     k_cgroup s' = filter (\<lambda>i. \<not> (i \<in> set is \<and> has_prefix r pre i)) (k_cgroup s)"
proof (induction "is" arbitrary: s)
  case (Cons i "is")
  let ?s = "open_fd (kr_prog_fd r i) s"
  have fd: "0 \<le> kr_prog_fd r i"
    using Cons.prems(1) by (auto simp: Let_def split: if_splits)
  obtain n where n: "kr_prog_name r i = Some n"
    using Cons.prems(1) fd by (auto simp: Let_def split: option.splits)
  show ?case
  proof (cases "take (length pre) n = pre")
    case False
    then have "detach_prefix r pre is s = (Some 0, s')"
      using Cons.prems(1) fd n by (simp add: Let_def)
    then show ?thesis
      using Cons.IH [of s] Cons.prems n False by (auto simp: has_prefix_def intro!: filter_cong)
  next
    case True
    define s1 where "s1 = s\<lparr>k_cgroup := remove1 i (k_cgroup s)\<rparr>"
    have *: "kr_detach2 r i \<and> i \<in> set (k_cgroup s)" "detach_prefix r pre is s1 = (Some 0, s')"
      using Cons.prems(1) fd n True
      by (auto simp: Let_def prog_detach2_def s1_def open_fd_def close_fd_def split: if_splits)
    have "k_cgroup s' = filter (\<lambda>j. \<not> (j \<in> set is \<and> has_prefix r pre j)) (remove1 i (k_cgroup s))"
      using Cons.IH [OF *(2)] Cons.prems by (simp add: s1_def)
    also have "\<dots> = filter (\<lambda>j. \<not> (j \<in> set (i # is) \<and> has_prefix r pre j)) (k_cgroup s)"
      using Cons.prems n True
      by (auto simp: has_prefix_def distinct_remove1_removeAll removeAll_filter_not_eq intro!: filter_cong)
    finally show ?thesis .
  qed
qed simp

text \<open>
  C22: a successful detaching by prefix from a cgroup of different programs removes exactly the
  programs whose name has the prefix and keeps the others in their order. When the directory of the
  cgroup cannot be opened, the kernel refuses the query for the ids, or the cgroup has more than 1024
  programs, for which the query fails too, the call fails and the cgroup keeps all its programs.
\<close>

theorem detach_by_prefix_exact:
  assumes "detachCgroupProgByPrefix r dir pre s = (res, s')" and "distinct (k_cgroup s)"
  shows "(res = Some 0 \<longrightarrow> k_cgroup s' = filter (\<lambda>i. \<not> has_prefix r pre i) (k_cgroup s)) \<and>
    (kr_dir r dir < 0 \<or> \<not> kr_query_ok r \<or> 1024 < length (k_cgroup s) \<longrightarrow>
      res = Some (- 1) \<and> k_cgroup s' = k_cgroup s)"
proof (intro conjI impI)
  let ?s = "open_fd (kr_dir r dir) s"
  have ids: "fst (getCgroupProgsIds r dir ?s) =
      (if kr_query_ok r \<and> length (k_cgroup s) \<le> kMaxProgsToQuery then k_cgroup s else [])" if "0 \<le> kr_dir r dir"
    using that by (simp add: getCgroupProgsIds_def with_dir_def Let_def)
  {
    assume "kr_dir r dir < 0 \<or> \<not> kr_query_ok r \<or> 1024 < length (k_cgroup s)"
    then have "fst (getCgroupProgsIds r dir ?s) = []" if "0 \<le> kr_dir r dir"
      using ids that by (auto simp: kMaxProgsToQuery_def)
    then show "res = Some (- 1)" "k_cgroup s' = k_cgroup s"
      using assms(1) getCgroupProgsIds_state [of r dir ?s]
      by (auto simp: detachCgroupProgByPrefix_def with_dir_def Let_def split: if_splits prod.splits)
  }
  assume res: "res = Some 0"
  then have d: "0 \<le> kr_dir r dir"
    using assms(1) by (auto simp: detachCgroupProgByPrefix_def with_dir_def Let_def split: if_splits)
  obtain s1 where s1: "detach_prefix r pre (fst (getCgroupProgsIds r dir ?s)) ?s = (Some 0, s1)"
      "k_cgroup s' = k_cgroup s1" "fst (getCgroupProgsIds r dir ?s) \<noteq> []"
    using assms(1) d res getCgroupProgsIds_state [of r dir ?s]
    by (auto simp: detachCgroupProgByPrefix_def with_dir_def Let_def split: if_splits prod.splits)
  then have q: "kr_query_ok r \<and> length (k_cgroup s) \<le> kMaxProgsToQuery"
    using ids [OF d] by (auto split: if_splits)
  have "k_cgroup s1 = filter (\<lambda>i. \<not> (i \<in> set (k_cgroup s) \<and> has_prefix r pre i)) (k_cgroup s)"
    using detach_prefix_removes [of r pre "k_cgroup s" ?s s1] s1(1) ids [OF d] q assms(2) by simp
  then show "k_cgroup s' = filter (\<lambda>i. \<not> has_prefix r pre i) (k_cgroup s)"
    using s1(2) by (auto intro!: filter_cong)
qed

section \<open>Batches\<close>

lemma upd_kmap_comp: "upd_kmap fd f (upd_kmap fd g s) = upd_kmap fd (f \<circ> g) s"
  by (simp add: upd_kmap_def option.map_comp)

lemma upd_kmap_id: "k_maps s fd = Some m \<Longrightarrow> f m = m \<Longrightarrow> upd_kmap fd f s = s"
  by (simp add: upd_kmap_def fun_upd_idem)

lemma update_loop_prefix:
  assumes "update_loop r fd elem i n s = (res, s')" and "k_maps s fd \<noteq> None"
  shows "\<exists>j\<le>n. s' = upd_kmap fd (fold put_entry (map elem [i..<i + j])) s \<and> (res = 0 \<longrightarrow> j = n) \<and> (res = 0 \<or> res = - 1)"
  using assms
proof (induction n arbitrary: i s)
  case 0
  then show ?case
    by (auto simp: upd_kmap_id)
next
  case (Suc n)
  obtain m where m: "k_maps s fd = Some m"
    using Suc.prems(2) by blast
  show ?case
  proof (cases "kr_update r fd (fst (elem i)) m")
    case False
    then have "res = - 1" "s' = s"
      using Suc.prems(1) m by (auto simp: bpfUpdateMap_def)
    then show ?thesis
      using upd_kmap_id [OF m, of id] by (intro exI [of _ 0]) (simp add: id_def upd_kmap_id [OF m])
  next
    case True
    let ?s = "upd_kmap fd (put_entry (elem i)) s"
    have l: "update_loop r fd elem (Suc i) n ?s = (res, s')"
      using Suc.prems(1) m True by (simp add: bpfUpdateMap_def)
    have "k_maps ?s fd \<noteq> None"
      by (simp add: upd_kmap_def m)
    then obtain j where j: "j \<le> n" "s' = upd_kmap fd (fold put_entry (map elem [Suc i..<Suc i + j])) ?s"
        "res = 0 \<longrightarrow> j = n" "res = 0 \<or> res = - 1"
      using Suc.IH [OF l] by blast
    have "[i..<i + Suc j] = i # [Suc i..<Suc i + j]"
      by (simp add: upt_conv_Cons)
    then have "s' = upd_kmap fd (fold put_entry (map elem [i..<i + Suc j])) s"
      using j(2) by (simp add: upd_kmap_comp)
    then show ?thesis
      using j by (intro exI [of _ "Suc j"]) (simp del: upt_Suc)
  qed
qed

lemma batch_state:
  assumes "bpfUpdateMapBatch b r fd kvs elem s = (0, s')" and "\<forall>i<length kvs. elem i = kvs ! i"
  shows "s' = upd_kmap fd (fold put_entry kvs) s \<and> k_maps s fd \<noteq> None"
proof (cases b)
  case True
  then show ?thesis
    using assms(1) by (auto simp: bpfUpdateMapBatch_def Let_def split: option.splits if_splits prod.splits)
next
  case False
  then have l: "update_loop r fd elem 0 (length kvs) s = (0, s')" "k_maps s fd \<noteq> None"
    using assms(1) by (auto simp: bpfUpdateMapBatch_def getBpfMapInfo_def split: option.splits if_splits)
  have "map elem [0..<length kvs] = kvs"
    using assms(2) by (auto intro!: nth_equalityI)
  then show ?thesis
    using update_loop_prefix [OF l] l(2) by auto
qed

lemma map_of_fold_put:
  "map_of (km_entries (fold put_entry kvs m)) = map_of (km_entries m) ++ map_of (rev kvs)"
proof (induction kvs arbitrary: m)
  case (Cons kv kvs)
  then show ?case
    by (cases kv) (simp add: put_entry_def update_conv' map_add_upd_left fun_eq_iff map_add_def
        split: option.splits)
qed simp

text \<open>
  C21: the two ways to write a batch agree. Whether the kernel takes the batch at once or the
  adapter writes element by element, a result of 0 means that every element is in the map, a
  later one over an earlier one with the same key, and that nothing else has changed; so both
  ways leave the same state.
\<close>

theorem batch_modes_agree:
  assumes "bpfUpdateMapBatch True r fd kvs elem s = (0, s1)"
    and "bpfUpdateMapBatch False r' fd kvs elem s = (0, s2)"
    and "\<forall>i<length kvs. elem i = kvs ! i"
  shows "s1 = s2 \<and> bpfMapLookupElement fd key s2 =
      (case map_of (rev kvs) key of None \<Rightarrow> bpfMapLookupElement fd key s | Some v \<Rightarrow> Some v) \<and>
    (\<forall>fd'. fd' \<noteq> fd \<longrightarrow> k_maps s2 fd' = k_maps s fd')"
proof -
  have s: "s1 = upd_kmap fd (fold put_entry kvs) s" "s2 = upd_kmap fd (fold put_entry kvs) s"
    and "k_maps s fd \<noteq> None"
    using batch_state [OF assms(1,3)] batch_state [OF assms(2,3)] by auto
  then obtain m where m: "k_maps s fd = Some m" by blast
  show ?thesis
    unfolding s by (simp add: m bpfMapLookupElement_def upd_kmap_def map_of_fold_put map_add_def cong: option.case_cong)
qed

section \<open>The size of a map\<close>

lemma key_after_nth:
  "distinct ks \<Longrightarrow> i < length ks \<Longrightarrow>
     key_after all (ks ! i) ks = (if Suc i < length ks then Some (ks ! Suc i) else None)"
proof (induction ks arbitrary: i)
  case (Cons x xs)
  show ?case
  proof (cases i)
    case 0
    then show ?thesis by (cases xs) auto
  next
    case (Suc j)
    then show ?thesis
      using Cons by auto
  qed
qed simp

lemma used_loop_from:
  assumes "k_maps s fd = Some m" "distinct (map fst (km_entries m))" "\<forall>p. kr_next r fd p = None"
    and "i < length (km_entries m)"
  shows "used_loop r fd s (Some (map fst (km_entries m) ! i)) n = Some (int (n + (length (km_entries m) - Suc i)))"
  using assms(4)
proof (induction "length (km_entries m) - Suc i" arbitrary: i n)
  case 0
  then have "Suc i = length (km_entries m)" by simp
  then show ?case
    using assms(1,3) key_after_nth [OF assms(2), of i] 0
    by (subst used_loop.simps) (simp add: bpfMapGetNextKey_def)
next
  case (Suc k)
  then have i: "Suc i < length (km_entries m)" by simp
  have "used_loop r fd s (Some (map fst (km_entries m) ! Suc i)) (n + 1) =
      Some (int (n + 1 + (length (km_entries m) - Suc (Suc i))))"
    using Suc.hyps(1) [of "Suc i" "n + 1"] Suc.hyps(2) i by simp
  moreover have "used_loop r fd s (Some (map fst (km_entries m) ! i)) n =
      used_loop r fd s (Some (map fst (km_entries m) ! Suc i)) (n + 1)"
    using assms(1,3) key_after_nth [OF assms(2), of i] i Suc.prems
    by (subst used_loop.simps) (simp add: bpfMapGetNextKey_def)
  ultimately show ?case
    using i by simp
qed

lemma used_size_value:
  assumes "0 \<le> fds name" and "k_maps s (fds name) = Some m" and "kr_info r (fds name)"
    and "distinct (map fst (km_entries m))" and "\<forall>p. kr_next r (fds name) p = None"
  shows "getBpfMapUsedSize r fds False name s = Some (int (length (km_entries m)))"
proof (cases "km_entries m")
  case Nil
  then show ?thesis
    using assms by (simp add: getBpfMapUsedSize_def getBpfMapInfo_def, subst used_loop.simps)
      (simp add: bpfMapGetNextKey_def)
next
  case (Cons e es)
  have "used_loop r (fds name) s None 0 = used_loop r (fds name) s (Some (map fst (km_entries m) ! 0)) 1"
    using assms(2,5) Cons by (subst used_loop.simps) (simp add: bpfMapGetNextKey_def)
  also have "\<dots> = Some (int (length (km_entries m)))"
    using used_loop_from [OF assms(2,4,5), of 0 1] Cons by simp
  finally show ?thesis
    using assms by (simp add: getBpfMapUsedSize_def getBpfMapInfo_def)
qed

text \<open>
  C26: the walk over the keys of a map ends and counts its entries, when the map does not change
  meanwhile and the kernel reports no error.
\<close>

theorem used_size_counts:
  assumes "0 \<le> fds name" and "k_maps s (fds name) = Some m" and "kr_info r (fds name)"
    and "distinct (map fst (km_entries m))" and "\<forall>p. kr_next r (fds name) p = None"
  shows "getBpfMapUsedSize r fds False name s = Some (int (length (km_entries m)))"
  using assms by (rule used_size_value)

section \<open>Filters\<close>

text \<open>
  C23: Deleting a filter names the filter that adding it with the same arguments created. Two
  additions name the same filter exactly when interface and direction agree and priority and
  handle agree in their low 16 bits: the high halves of the 32-bit arguments are lost.
\<close>

theorem tc_filter_identity:
  "filter_key (fst (deleteTcBpfFilter sk t fd' i nm' p d h)) =
     filter_key (fst (genericAttachBpfProgToTc sk t' fd i nm p d h)) \<and>
   (filter_key (fst (genericAttachBpfProgToTc sk t fd i nm p d h)) =
     filter_key (fst (genericAttachBpfProgToTc sk t' fd' i' nm' p' d' h')) \<longleftrightarrow>
     i = i' \<and> (word_of_int d :: u32) = word_of_int d' \<and> (ucast p :: u16) = ucast p' \<and>
     (ucast h :: u16) = ucast h')"
  by (auto simp: deleteTcBpfFilter_def genericAttachBpfProgToTc_def modifyTcBpfFilter_def Let_def
      filter_key_TC TC_H_MAKE_minor)

text \<open>
  A filter message fits into a buffer of the size MNL_SOCKET_BUFFER_SIZE has on a page of 4096
  bytes as long as the name has at most 3979 bytes; nothing in the code checks it.
\<close>

lemma tc_message_fits: "nlmsg_len (nl_TC sq cmd fl pr fd i n d h) \<le> 4096 \<longleftrightarrow> length n \<le> 3979"
  by (auto simp: TC_size nl_align_def)

section \<open>Concrete inputs\<close>

definition ref_refuse :: krefuse where
  "ref_refuse = \<lparr>kr_update = (\<lambda>fd k m. True), kr_batch = (\<lambda>fd kvs m. (length kvs, False)), kr_info = (\<lambda>fd. True),
     kr_next = (\<lambda>fd p. None), kr_dir = (\<lambda>d. 5), kr_detach = (\<lambda>ids. None), kr_query_ok = True,
     kr_prog_fd = (\<lambda>i. 7), kr_detach2 = (\<lambda>i. True),
     kr_prog_name = (\<lambda>i. Some (if i = 2 then ''other'' else ''tpr_prog''))\<rparr>"

definition ex_ksys :: ksys where
  "ex_ksys = \<lparr>k_maps = [3 \<mapsto> \<lparr>km_max_entries = 8, km_entries = [([1], [1]), ([2], [2])]\<rparr>],
     k_cgroup = [1, 2, 3], k_open = [0]\<rparr>"

theorem detach_by_prefix_exact_witness:
  "k_cgroup (snd (detachCgroupProgByPrefix ref_refuse ''cg'' ''tpr'' ex_ksys)) = [2]"
proof -
  have "fst (detachCgroupProgByPrefix ref_refuse ''cg'' ''tpr'' ex_ksys) = Some 0"
    by code_simp
  then have c: "detachCgroupProgByPrefix ref_refuse ''cg'' ''tpr'' ex_ksys =
      (Some 0, snd (detachCgroupProgByPrefix ref_refuse ''cg'' ''tpr'' ex_ksys))"
    by (rule pair_of_fst)
  have d: "distinct (k_cgroup ex_ksys)"
    by (simp add: ex_ksys_def)
  show ?thesis
    using detach_by_prefix_exact [OF c d]
    by (simp add: ex_ksys_def has_prefix_def ref_refuse_def)
qed

definition ex_batch :: "(bytes \<times> bytes) list" where
  "ex_batch = [([2], [5]), ([4], [6])]"

theorem batch_modes_agree_witness:
  "bpfMapLookupElement 3 [2] (snd (bpfUpdateMapBatch False ref_refuse 3 ex_batch (\<lambda>i. ex_batch ! i) ex_ksys)) = Some [5]"
proof -
  have "fst (bpfUpdateMapBatch True ref_refuse 3 ex_batch (\<lambda>i. ex_batch ! i) ex_ksys) = 0"
    "fst (bpfUpdateMapBatch False ref_refuse 3 ex_batch (\<lambda>i. ex_batch ! i) ex_ksys) = 0"
    by code_simp+
  note r = this [THEN pair_of_fst]
  show ?thesis
    using batch_modes_agree [OF r(1) r(2), of "[2]"] by (simp add: ex_batch_def)
qed

theorem used_size_counts_witness:
  "getBpfMapUsedSize ref_refuse (\<lambda>n. 3) False ''m'' ex_ksys = Some 2"
  using used_size_counts [of "\<lambda>n. 3" "''m''" ex_ksys "\<lparr>km_max_entries = 8, km_entries = [([1], [1]), ([2], [2])]\<rparr>" ref_refuse]
  by (simp add: ex_ksys_def ref_refuse_def)

end
