(* ===== verification/BpfAdapterSys.thy ===== *)
theory BpfAdapterSys
  imports BpfAdapterProps Loader
begin

text \<open>
  The rest of lib/BaseBpfAdapter.cpp: its constructor with the probe for batch operations, making
  maps, perf events, the attachment of a filter by interface name, and the look into an object
  file; and the calls lib/BpfAdapter.cpp passes on to the loader. A descriptor a call gives is an
  argument, negative for a failure. The address computations around the ring of a perf event are
  cut: whether its header was set before the call, and what mmap gave, are arguments.
\<close>

section \<open>Maps\<close>

definition BPF_F_NUMA_NODE :: u32 where "BPF_F_NUMA_NODE = 4"
definition BPF_MAP_TYPE_ARRAY :: u32 where "BPF_MAP_TYPE_ARRAY = 2"

text \<open>What bpf_map_create is asked for.\<close>
record map_request =
  mq_name :: "string option"
  mq_type :: u32
  mq_key_size :: u32
  mq_value_size :: u32
  mq_max_entries :: u32
  mq_flags :: u32
  mq_numa_node :: u32

definition map_request_of :: "string \<Rightarrow> u32 \<Rightarrow> u32 \<Rightarrow> u32 \<Rightarrow> u32 \<Rightarrow> u32 \<Rightarrow> int \<Rightarrow> map_request" where
  "map_request_of name type key_size value_size max_entries map_flags numa_node =
     \<lparr>mq_name = (if name \<noteq> [] then Some name else None), mq_type = type, mq_key_size = key_size,
      mq_value_size = value_size, mq_max_entries = max_entries,
      mq_flags = map_flags OR (if numa_node \<ge> 0 then BPF_F_NUMA_NODE else 0),
      mq_numa_node = word_of_int numa_node\<rparr>"

text \<open>The descriptor is create's answer; a new map is empty.\<close>
definition createNamedBpfMap :: "(map_request \<Rightarrow> int) \<Rightarrow> string \<Rightarrow> u32 \<Rightarrow> u32 \<Rightarrow> u32 \<Rightarrow> u32 \<Rightarrow> u32 \<Rightarrow> int
    \<Rightarrow> ksys \<Rightarrow> int \<times> ksys" where
  "createNamedBpfMap create name type key_size value_size max_entries map_flags numa_node s =
     (let fd = create (map_request_of name type key_size value_size max_entries map_flags numa_node)
      in if fd < 0 then (fd, s)
         else (fd, (open_fd fd s)\<lparr>k_maps := (k_maps s)(fd \<mapsto> \<lparr>km_max_entries = max_entries, km_entries = []\<rparr>)\<rparr>))"

definition createBpfMap :: "(map_request \<Rightarrow> int) \<Rightarrow> u32 \<Rightarrow> u32 \<Rightarrow> u32 \<Rightarrow> u32 \<Rightarrow> u32 \<Rightarrow> int \<Rightarrow> ksys \<Rightarrow> int \<times> ksys" where
  "createBpfMap create = createNamedBpfMap create []"

text \<open>Closing the only descriptor of a map frees it.\<close>
definition close_map :: "int \<Rightarrow> ksys \<Rightarrow> ksys" where
  "close_map fd s = (close_fd fd s)\<lparr>k_maps := (k_maps s)(fd := None)\<rparr>"

text \<open>batch: the errno bpf_map_lookup_batch reports, None when it succeeds. close(-1) has no effect.\<close>
definition batchOpsAreSupported :: "(map_request \<Rightarrow> int) \<Rightarrow> (int \<Rightarrow> int option) \<Rightarrow> ksys \<Rightarrow> bool \<times> ksys" where
  "batchOpsAreSupported create batch s =
     (let (tempMap, s) = createBpfMap create BPF_MAP_TYPE_ARRAY 4 4 5 0 (- 1) s;
          supported = (case batch tempMap of None \<Rightarrow> True | Some errno \<Rightarrow> \<not> errno \<noteq> 0)
      in (supported, if tempMap < 0 then s else close_map tempMap s))"

text \<open>The constructor: None when it throws, otherwise the member batchOpsEnabled.\<close>
definition new_adapter :: "bool \<Rightarrow> bool \<Rightarrow> bool \<Rightarrow> (map_request \<Rightarrow> int) \<Rightarrow> (int \<Rightarrow> int option) \<Rightarrow> ksys
    \<Rightarrow> (bool \<times> ksys) option" where
  "new_adapter set_limits rlimit_ok enableBatchOpsIfSupported create batch s =
     (if set_limits \<and> \<not> rlimit_ok then None
      else if enableBatchOpsIfSupported then Some (batchOpsAreSupported create batch s)
      else Some (False, s))"

section \<open>Perf events\<close>

definition get_perf_event_fd :: "int \<Rightarrow> bool \<Rightarrow> ksys \<Rightarrow> int \<times> ksys" where
  "get_perf_event_fd pmu_fd ioctl_ok s =
     (if pmu_fd < 0 then (pmu_fd, s)
      else
        let s = open_fd pmu_fd s
        in if \<not> ioctl_ok then (- 1, close_fd pmu_fd s) else (pmu_fd, s))"

text \<open>mapped: mmap succeeded for the descriptor.\<close>
definition mmap_perf_event :: "(int \<Rightarrow> bool) \<Rightarrow> int \<Rightarrow> bool" where
  "mmap_perf_event mapped fd \<longleftrightarrow> (if fd < 0 then False else mapped fd)"

definition openPerfEvent :: "krefuse \<Rightarrow> bool \<Rightarrow> int \<Rightarrow> bool \<Rightarrow> (int \<Rightarrow> bool) \<Rightarrow> int \<Rightarrow> int \<Rightarrow> ksys
    \<Rightarrow> bool \<times> int option \<times> ksys" where
  "openPerfEvent r header_set pmu_fd ioctl_ok mapped cpu map_fd s =
     (if header_set then (False, None, s)
      else
        let (event_fd, s) = get_perf_event_fd pmu_fd ioctl_ok s
        in if event_fd < 0 then (False, Some event_fd, s)
           else if \<not> mmap_perf_event mapped event_fd then (False, Some event_fd, s)
           else
             let (res, s) = bpfUpdateMap r map_fd (le32 (word_of_int cpu), le32 (word_of_int event_fd)) s
             in if res \<noteq> 0 then (False, Some event_fd, s) else (True, Some event_fd, s))"

section \<open>Interfaces, object files, the loader\<close>

definition attachBpfProgToTc :: "(nlmsg \<Rightarrow> nl_sock) \<Rightarrow> u32 \<Rightarrow> u32 \<Rightarrow> int \<Rightarrow> int \<Rightarrow> bytes \<Rightarrow> u32
    \<Rightarrow> nlmsg option \<times> int option" where
  "attachBpfProgToTc sk now ifindex prog_fd direction bpf_name priority =
     (if ifindex = 0 then (None, Some 1)
      else let (m, res) = genericAttachBpfProgToTc sk now prog_fd ifindex bpf_name priority direction 0
           in (Some m, res))"

definition addClsActQD :: "(nlmsg \<Rightarrow> nl_sock) \<Rightarrow> u32 \<Rightarrow> nlmsg \<times> int option" where
  "addClsActQD sk ifindex = (let msg = nl_QD ifindex in (msg, NetlinkRoundtrip (sk msg)))"

definition isMapInBpfObject :: "(string \<Rightarrow> bpf_object option) \<Rightarrow> string \<Rightarrow> string \<Rightarrow> bool" where
  "isMapInBpfObject open_file path mapName =
     (case open_file path of None \<Rightarrow> False | Some obj \<Rightarrow> list_ex (\<lambda>m. m = mapName) (bo_maps obj))"

definition adapter_loadBpfProg ::
  "(string \<Rightarrow> bpf_object option) \<Rightarrow> string \<Rightarrow> bpf_loader \<Rightarrow> (int \<times> bpf_loader) option" where
  "adapter_loadBpfProg = loadBpfFile"

definition adapter_reloadBpfProg ::
  "(string \<Rightarrow> bpf_object option) \<Rightarrow> string \<Rightarrow> bpf_loader \<Rightarrow> (int \<times> bpf_loader) option" where
  "adapter_reloadBpfProg = reloadBpfFromFile"

section \<open>Descriptors\<close>

lemma probe_leaves_nothing:
  assumes "\<And>q. 0 \<le> create q \<Longrightarrow> k_maps s (create q) = None"
  shows "snd (batchOpsAreSupported create batch s) = s"
  using assms [of "map_request_of [] BPF_MAP_TYPE_ARRAY 4 4 5 0 (- 1)"]
  by (cases s) (auto simp: batchOpsAreSupported_def createBpfMap_def createNamedBpfMap_def close_map_def
      open_fd_def close_fd_def fun_upd_idem Let_def)

lemma failed_perf_event_closed:
  "fst (get_perf_event_fd pmu_fd ok s) < 0 \<Longrightarrow> k_open (snd (get_perf_event_fd pmu_fd ok s)) = k_open s"
  by (auto simp: get_perf_event_fd_def open_fd_def close_fd_def Let_def split: if_splits)

text \<open>
  The batch mode of the object is the one the kernel supports, and whichever it is, an update of a
  batch gives the same map as one update after the other: what the constructor
  probes only changes the number of system calls. The probe itself leaves no map and no
  descriptor behind.
\<close>
theorem new_adapter_leaves_nothing:
  assumes "new_adapter limits ok enable create batch s = Some (b, s')"
    and "\<And>q. 0 \<le> create q \<Longrightarrow> k_maps s (create q) = None"
  shows "s' = s \<and> (b \<longrightarrow> enable \<and> (\<exists>fd. batch fd = None \<or> batch fd = Some 0))"
proof -
  have "snd (batchOpsAreSupported create batch s) = s" using assms(2) by (rule probe_leaves_nothing)
  then show ?thesis
    using assms(1)
    by (auto simp: new_adapter_def batchOpsAreSupported_def Let_def split: if_splits prod.splits option.splits)
qed

text \<open>
  When mmap or the update of the map fails, openPerfEvent reports failure with the descriptor still
  open; it is only in the out parameter of the caller.
\<close>
lemma open_perf_event_leaks:
  assumes "0 \<le> pmu_fd" "\<not> mapped pmu_fd"
  shows "openPerfEvent r False pmu_fd True mapped cpu map_fd s = (False, Some pmu_fd, open_fd pmu_fd s)"
  using assms by (simp add: openPerfEvent_def get_perf_event_fd_def mmap_perf_event_def)

end
