(* ===== verification/Sim.thy ===== *)
theory Sim
  imports BpfAdapter LbState Parsing
begin

text \<open>
  lib/VsoshlbSimulator.cpp: which real server a flow would go to, by building a packet of the flow
  and running the loaded program on it. parse_ip (of the record env) and the two functions that
  print an address belong to folly; the bytes of a fresh buffer are not initialised and are the
  argument fresh. The thread the simulation runs on is not modelled. A null buffer is the
  value None.
\<close>

record vsoshlb_flow =
  vf_src :: string
  vf_dst :: string
  vf_srcPort :: u16
  vf_dstPort :: u16
  vf_proto :: u8

definition kMaxXdpPcktSize :: nat where "kMaxXdpPcktSize = 4096"
definition kTestPacketSize :: nat where "kTestPacketSize = 512"
definition kDefaultTtl :: u8 where "kDefaultTtl = 64"

section \<open>Building a packet\<close>

text \<open>The bit fields ihl and version share a byte, and so do version and priority.\<close>

definition createV4Packet :: "u32 \<Rightarrow> u32 \<Rightarrow> u8 \<Rightarrow> u16 \<Rightarrow> bytes \<Rightarrow> bytes" where
  "createV4Packet s d prot sz p =
     (let p = wr p 12 (le16 (bswap16 0x0800));
          p = wr p 14 [0x45];
          p = wr p 20 (le16 0);
          p = wr p 23 [prot];
          p = wr p 24 (le16 0);
          p = wr p 15 [0];
          p = wr p 16 (le16 (bswap16 sz));
          p = wr p 30 (le32 d);
          p = wr p 26 (le32 s)
      in wr p 22 [kDefaultTtl])"

definition createV6Packet :: "addr \<Rightarrow> addr \<Rightarrow> u8 \<Rightarrow> u16 \<Rightarrow> bytes \<Rightarrow> bytes" where
  "createV6Packet s d prot sz p =
     (let p = wr p 12 (le16 (bswap16 0x86DD));
          p = wr p 14 [0x60];
          p = wr p 15 [0, 0, 0];
          p = wr p 20 [prot];
          p = wr p 18 (le16 (bswap16 (sz - 40)));
          p = wr p 21 [kDefaultTtl];
          p = wr p 38 (addr_bytes d)
      in wr p 22 (addr_bytes s))"

definition createTcpHeader :: "u16 \<Rightarrow> u16 \<Rightarrow> nat \<Rightarrow> bytes \<Rightarrow> bytes" where
  "createTcpHeader srcPort dstPort offset p =
     (let p = wr p offset (replicate 20 0);
          p = wr p offset (le16 (bswap16 srcPort));
          p = wr p (offset + 2) (le16 (bswap16 dstPort))
      in wr p (offset + 13) [rd8 p (offset + 13) OR 2])"

text \<open>The length is stored without a change of the byte order.\<close>

definition createUdpHeader :: "u16 \<Rightarrow> u16 \<Rightarrow> nat \<Rightarrow> u16 \<Rightarrow> bytes \<Rightarrow> bytes" where
  "createUdpHeader srcPort dstPort offset sz p =
     (let p = wr p offset (replicate 8 0);
          p = wr p offset (le16 (bswap16 srcPort));
          p = wr p (offset + 2) (le16 (bswap16 dstPort))
      in wr p (offset + 4) (le16 sz))"

text \<open>
  fresh is the buffer IOBuf::create gives. folly's parser gives a V4 or a V6 address, so the
  remaining patterns are addresses of two families.
\<close>

definition createPacketFromFlow :: "env \<Rightarrow> bytes \<Rightarrow> vsoshlb_flow \<Rightarrow> bytes option" where
  "createPacketFromFlow e fresh f =
     (case (parse_ip e (vf_src f), parse_ip e (vf_dst f)) of
        (Some s, Some d) \<Rightarrow>
          if \<not> (vf_proto f = IPPROTO_TCP \<or> vf_proto f = IPPROTO_UDP) then None
          else
            let payload_size = kTestPacketSize - ETH_HLEN
            in (case (s, d) of
                  (V4 sa, V4 da) \<Rightarrow>
                    let offset = ETH_HLEN + IP_HLEN;
                        p = createV4Packet sa da (vf_proto f) (of_nat payload_size) fresh;
                        payload_size = payload_size - IP_HLEN
                    in Some (if vf_proto f = IPPROTO_TCP
                             then createTcpHeader (vf_srcPort f) (vf_dstPort f) offset p
                             else createUdpHeader (vf_srcPort f) (vf_dstPort f) offset (of_nat payload_size) p)
                | (V6 sa, V6 da) \<Rightarrow>
                    let offset = ETH_HLEN + IP6_HLEN;
                        p = createV6Packet sa da (vf_proto f) (of_nat payload_size) fresh;
                        payload_size = payload_size - IP6_HLEN
                    in Some (if vf_proto f = IPPROTO_TCP
                             then createTcpHeader (vf_srcPort f) (vf_dstPort f) offset p
                             else createUdpHeader (vf_srcPort f) (vf_dstPort f) offset (of_nat payload_size) p)
                | _ \<Rightarrow> None)
      | _ \<Rightarrow> None)"

section \<open>Running the program\<close>

record ip_text =
  v4_text :: "u32 \<Rightarrow> string"
  v6_text :: "addr \<Rightarrow> string"

definition getPcktDst :: "ip_text \<Rightarrow> bytes \<Rightarrow> string" where
  "getPcktDst tx p =
     (if length p < ETH_HLEN then []
      else if rd16 p 12 = bswap16 0x0800 then
        if length p < ETH_HLEN + IP_HLEN then [] else v4_text tx (rd32 p (ETH_HLEN + 16))
      else
        if length p < ETH_HLEN + IP6_HLEN then [] else v6_text tx (rd_addr6 p (ETH_HLEN + 24)))"

text \<open>A packet is the list of the buffers of its chain.\<close>

definition runSimulationInternal ::
  "(int \<Rightarrow> bytes \<Rightarrow> int \<times> bytes) \<Rightarrow> int \<Rightarrow> bytes list option \<Rightarrow> bytes option" where
  "runSimulationInternal run progFd pckt =
     (case pckt of
        None \<Rightarrow> None
      | Some bufs \<Rightarrow>
          if length bufs > 1 then None
          else
            let p = concat bufs
            in if length p > kMaxXdpPcktSize then None
               else
                 let (res, out, output_pckt_size, prog_ret_val) = testXdpProg run progFd p 0 0
                 in if res < 0 then None
                    else if int (unat prog_ret_val) \<noteq> XDP_TX then None
                    else Some (take (unat output_pckt_size) out))"

definition getRealForFlow ::
  "(int \<Rightarrow> bytes \<Rightarrow> int \<times> bytes) \<Rightarrow> env \<Rightarrow> ip_text \<Rightarrow> int \<Rightarrow> bytes \<Rightarrow> vsoshlb_flow \<Rightarrow> string" where
  "getRealForFlow run e tx progFd fresh f =
     (case createPacketFromFlow e fresh f of
        None \<Rightarrow> []
      | Some p \<Rightarrow>
          (case runSimulationInternal run progFd (Some [p]) of
             None \<Rightarrow> []
           | Some q \<Rightarrow> getPcktDst tx q))"

end
