(* ===== verification/SimProps.thy ===== *)
theory SimProps
  imports Sim Encap BpfMaps
begin

text \<open>
  The simulator against the data plane: the parsers of the balancer read back the flow a packet
  was built from, and getPcktDst reads the real server out of an encapsulated packet. What runs
  in between discards the result.
\<close>

section \<open>The packet of a flow\<close>

lemma eth_types: "bswap16 0x0800 = BE_ETH_P_IP" "bswap16 0x86DD = BE_ETH_P_IPV6"
  by code_simp+

lemma createV4Packet_fields:
  assumes "34 \<le> length p" and "q = createV4Packet s d pr n p"
  shows "length q = length p" "rd16 q 12 = BE_ETH_P_IP" "rd8 q 14 = 0x45" "rd8 q 15 = 0" "rd16 q 20 = 0"
    "rd8 q 23 = pr" "rd32 q 26 = s" "rd32 q 30 = d"
  using assms(1) unfolding assms(2) createV4Packet_def Let_def eth_types
  by (simp_all add: buf_simps)

lemma createV6Packet_fields:
  assumes "54 \<le> length p" and "q = createV6Packet s d pr n p"
  shows "length q = length p" "rd16 q 12 = BE_ETH_P_IPV6" "rd8 q 14 = 0x60" "rd8 q 15 = 0" "rd8 q 20 = pr"
    "rd_addr6 q 22 = s" "rd_addr6 q 38 = d"
  using assms(1) unfolding assms(2) createV6Packet_def Let_def eth_types
  by (simp_all add: buf_simps wr.simps(2) [of p] rd8_wr)

text \<open>The transport headers keep what lies before them.\<close>

lemma transport_header_before:
  assumes "q = createTcpHeader a b off p \<or> q = createUdpHeader a b off n p"
  shows "length q = length p" "j < off \<Longrightarrow> rd8 q j = rd8 p j" "j + 2 \<le> off \<Longrightarrow> rd16 q j = rd16 p j"
    "j + 4 \<le> off \<Longrightarrow> rd32 q j = rd32 p j" "j + 16 \<le> off \<Longrightarrow> rd_addr6 q j = rd_addr6 p j"
  using assms by (auto simp: createTcpHeader_def createUdpHeader_def Let_def buf_simps)

lemma createTcpHeader_fields:
  assumes "off + 20 \<le> length p" and "q = createTcpHeader a b off p"
  shows "rd16 q off = bswap16 a" "rd16 q (off + 2) = bswap16 b" "bit (rd8 q (off + 13)) 1"
proof -
  show "rd16 q off = bswap16 a" "rd16 q (off + 2) = bswap16 b"
    using assms(1) unfolding assms(2) createTcpHeader_def Let_def by (simp_all add: buf_simps)
  have "bit (x OR 2 :: u8) 1" for x
    by (simp add: bit_or_iff)
  then show "bit (rd8 q (off + 13)) 1"
    using assms(1) unfolding assms(2) createTcpHeader_def Let_def by (simp add: buf_simps)
qed

lemma createUdpHeader_fields:
  assumes "off + 8 \<le> length p" and "q = createUdpHeader a b off n p"
  shows "rd16 q off = bswap16 a" "rd16 q (off + 2) = bswap16 b"
  using assms(1) unfolding assms(2) createUdpHeader_def Let_def by (simp_all add: buf_simps)

text \<open>What the balancer makes of a packet: the two parsers in the order of process_packet.\<close>

definition parse_flow :: "bytes \<Rightarrow> u8 \<Rightarrow> bool \<Rightarrow> (bool \<times> packet_description) option" where
  "parse_flow p prot v6 =
     (let (c, pk) = parse_l3_headers p prot ETH_HLEN v6 zero_pckt
      in if c \<ge> 0 then None
         else if prot = IPPROTO_TCP then Some (parse_tcp p v6 pk)
         else Some (parse_udp p v6 pk))"

definition flow_addr :: "ip \<Rightarrow> addr" where
  "flow_addr i = (case i of NoIP \<Rightarrow> zero_addr | V4 a \<Rightarrow> Addr a 0 0 0 | V6 a \<Rightarrow> a)"

definition is_V6 :: "ip \<Rightarrow> bool" where
  "is_V6 i = (case i of V6 _ \<Rightarrow> True | _ \<Rightarrow> False)"

lemma no_icmp_flag [simp]: "\<not> has_flag (0 :: u8) F_ICMP"
  by (simp add: has_flag_def)

lemma transport_consts:
  "IPPROTO_TCP \<noteq> IPPROTO_ICMP" "IPPROTO_UDP \<noteq> IPPROTO_ICMP" "IPPROTO_TCP \<noteq> IPPROTO_ICMPV6"
  "IPPROTO_UDP \<noteq> IPPROTO_ICMPV6" "IPPROTO_TCP \<noteq> IPPROTO_FRAGMENT" "IPPROTO_UDP \<noteq> IPPROTO_FRAGMENT"
  "IPPROTO_UDP \<noteq> IPPROTO_TCP"
  by (simp_all add: const_defs)

lemma and_0f_45: "(0x45 :: u8) AND 0x0F = 5"
  by code_simp

text \<open>The network headers, then the ports.\<close>

lemma l3_of_v4:
  assumes "q = createV4Packet s d pr n p" and "34 \<le> length p" and "pr = IPPROTO_TCP \<or> pr = IPPROTO_UDP"
    and "r = createTcpHeader a b 34 q \<or> r = createUdpHeader a b 34 m q"
  shows "\<exists>t. parse_l3_headers r pr ETH_HLEN False zero_pckt =
    (FURTHER_PROCESSING, zero_pckt\<lparr>tos := t, flow := (flow zero_pckt)\<lparr>src := Addr s 0 0 0, dst := Addr d 0 0 0\<rparr>\<rparr>)"
    "length r = length p" "rd16 r 12 = BE_ETH_P_IP"
  using createV4Packet_fields [OF assms(2,1)] transport_header_before [OF assms(4)] assms(2,3) transport_consts
  by (auto simp: parse_l3_headers_def Let_def ETH_HLEN_def IP_HLEN_def and_0f_45 has_flag_def zero_pckt_def
      zero_flow_def zero_addr_def)

lemma l3_of_v6:
  assumes "q = createV6Packet s d pr n p" and "54 \<le> length p" and "pr = IPPROTO_TCP \<or> pr = IPPROTO_UDP"
    and "r = createTcpHeader a b 54 q \<or> r = createUdpHeader a b 54 m q"
  shows "\<exists>t. parse_l3_headers r pr ETH_HLEN True zero_pckt =
    (FURTHER_PROCESSING, zero_pckt\<lparr>tos := t, flow := (flow zero_pckt)\<lparr>src := s, dst := d\<rparr>\<rparr>)"
    "length r = length p" "rd16 r 12 = BE_ETH_P_IPV6"
  using createV6Packet_fields [OF assms(2,1)] transport_header_before [OF assms(4)] assms(2,3) transport_consts
  by (auto simp: parse_l3_headers_def Let_def ETH_HLEN_def IP6_HLEN_def zero_pckt_def zero_flow_def zero_addr_def)

lemma ports_of_tcp:
  assumes "r = createTcpHeader a b off q" "off = calc_offset v6 False" "off + 20 \<le> length q"
    and "pflags pk = 0"
  shows "parse_tcp r v6 pk = (True, set_ports (bswap16 a) (bswap16 b) (pk\<lparr>pflags := F_SYN_SET\<rparr>))"
  using createTcpHeader_fields [OF assms(3,1)] transport_header_before(1) [OF disjI1 [OF assms(1)]] assms(2-4)
  by (simp add: parse_tcp_def Let_def TCP_HLEN_def)

lemma ports_of_udp:
  assumes "r = createUdpHeader a b off m q" "off = calc_offset v6 False" "off + 8 \<le> length q"
    and "pflags pk = 0"
  shows "parse_udp r v6 pk = (True, set_ports (bswap16 a) (bswap16 b) pk)"
  using createUdpHeader_fields [OF assms(3,1)] transport_header_before(1) [OF disjI2 [OF assms(1)]] assms(2-4)
  by (simp add: parse_udp_def Let_def UDP_HLEN_def)

lemma calc_offsets: "calc_offset False False = 34" "calc_offset True False = 54"
  by (simp_all add: calc_offset_def ETH_HLEN_def IP_HLEN_def IP6_HLEN_def)

lemma parse_flow_built:
  assumes "parse_l3_headers r pr ETH_HLEN v6 zero_pckt =
      (FURTHER_PROCESSING, zero_pckt\<lparr>tos := t, flow := (flow zero_pckt)\<lparr>src := s, dst := d\<rparr>\<rparr>)"
    and "pr = IPPROTO_TCP \<and> r = createTcpHeader a b off q \<or> pr = IPPROTO_UDP \<and> r = createUdpHeader a b off m q"
    and "off = calc_offset v6 False" and "off + 20 \<le> length q"
  shows "\<exists>pk. parse_flow r pr v6 = Some (True, pk) \<and> src (flow pk) = s \<and> dst (flow pk) = d \<and>
    port0 (flow pk) = bswap16 a \<and> port1 (flow pk) = bswap16 b \<and>
    pflags pk = (if pr = IPPROTO_TCP then F_SYN_SET else 0)"
proof -
  define pk where "pk = zero_pckt\<lparr>tos := t, flow := (flow zero_pckt)\<lparr>src := s, dst := d\<rparr>\<rparr>"
  have pk: "pflags pk = 0" "src (flow pk) = s" "dst (flow pk) = d"
    by (simp_all add: pk_def zero_pckt_def)
  have neg: "\<not> FURTHER_PROCESSING \<ge> 0"
    by (simp add: FURTHER_PROCESSING_def)
  from assms(2) show ?thesis
  proof (elim disjE conjE)
    assume t: "pr = IPPROTO_TCP" "r = createTcpHeader a b off q"
    then show ?thesis
      using ports_of_tcp [OF t(2) assms(3,4) pk(1)] assms(1) neg pk
      by (simp add: parse_flow_def pk_def [symmetric])
  next
    assume u: "pr = IPPROTO_UDP" "r = createUdpHeader a b off m q"
    have "off + 8 \<le> length q"
      using assms(4) by simp
    then show ?thesis
      using ports_of_udp [OF u(2) assms(3) _ pk(1)] assms(1) neg pk u(1) transport_consts
      by (simp add: parse_flow_def pk_def [symmetric])
  qed
qed

text \<open>
  C18: the packet the simulator builds for a flow is a packet of that flow. Whatever the buffer
  held before, the packet has 512 bytes and the Ethernet type of its family, and the parsers of
  the balancer accept it and read back the two addresses, the two ports in network byte order and,
  for TCP, the SYN flag.
\<close>

theorem simulated_packet_roundtrip:
  assumes "createPacketFromFlow e fresh f = Some p" and "length fresh = kTestPacketSize"
  shows "\<exists>s d pk. parse_ip e (vf_src f) = Some s \<and> parse_ip e (vf_dst f) = Some d \<and> is_V6 s = is_V6 d \<and>
    length p = 512 \<and> rd16 p 12 = (if is_V6 d then BE_ETH_P_IPV6 else BE_ETH_P_IP) \<and>
    parse_flow p (vf_proto f) (is_V6 d) = Some (True, pk) \<and>
    src (flow pk) = flow_addr s \<and> dst (flow pk) = flow_addr d \<and>
    port0 (flow pk) = bswap16 (vf_srcPort f) \<and> port1 (flow pk) = bswap16 (vf_dstPort f) \<and>
    pflags pk = (if vf_proto f = IPPROTO_TCP then F_SYN_SET else 0)"
proof -
  obtain s d where sd: "parse_ip e (vf_src f) = Some s" "parse_ip e (vf_dst f) = Some d"
    and pr: "vf_proto f = IPPROTO_TCP \<or> vf_proto f = IPPROTO_UDP"
    and fam: "(\<exists>sa da. s = V4 sa \<and> d = V4 da) \<or> (\<exists>sa da. s = V6 sa \<and> d = V6 da)"
    using assms(1) by (auto simp: createPacketFromFlow_def Let_def split: option.splits if_splits ip.splits)
  have flags: "pflags zero_pckt = 0" "FURTHER_PROCESSING < 0"
    by (simp_all add: zero_pckt_def FURTHER_PROCESSING_def)
  from fam show ?thesis
  proof (elim disjE exE conjE)
    fix sa da assume v: "s = V4 sa" "d = V4 da"
    define q where "q = createV4Packet sa da (vf_proto f) (of_nat 498) fresh"
    have l: "length q = 512"
      using assms(2) by (simp add: q_def createV4Packet_def Let_def kTestPacketSize_def)
    have p: "(vf_proto f = IPPROTO_TCP \<and> p = createTcpHeader (vf_srcPort f) (vf_dstPort f) 34 q) \<or>
        (vf_proto f = IPPROTO_UDP \<and> p = createUdpHeader (vf_srcPort f) (vf_dstPort f) 34 (of_nat 478) q)"
      using assms(1) sd pr v
      by (auto simp: createPacketFromFlow_def q_def kTestPacketSize_def ETH_HLEN_def IP_HLEN_def Let_def transport_consts)
    then have h: "p = createTcpHeader (vf_srcPort f) (vf_dstPort f) 34 q \<or>
        p = createUdpHeader (vf_srcPort f) (vf_dstPort f) 34 (of_nat 478) q" by blast
    note l3 = l3_of_v4 [OF q_def _ pr h]
    obtain t where t: "parse_l3_headers p (vf_proto f) ETH_HLEN False zero_pckt =
        (FURTHER_PROCESSING, zero_pckt\<lparr>tos := t, flow := (flow zero_pckt)\<lparr>src := flow_addr s, dst := flow_addr d\<rparr>\<rparr>)"
      using l3(1) assms(2) v by (auto simp: kTestPacketSize_def flow_addr_def)
    have "length p = 512" "rd16 p 12 = BE_ETH_P_IP"
      using l3(2,3) assms(2) by (simp_all add: kTestPacketSize_def)
    then show ?thesis
      using parse_flow_built [OF t p] calc_offsets l sd v by (auto simp: is_V6_def)
  next
    fix sa da assume v: "s = V6 sa" "d = V6 da"
    define q where "q = createV6Packet sa da (vf_proto f) (of_nat 498) fresh"
    have l: "length q = 512"
      using assms(2) by (simp add: q_def createV6Packet_def Let_def kTestPacketSize_def)
    have p: "(vf_proto f = IPPROTO_TCP \<and> p = createTcpHeader (vf_srcPort f) (vf_dstPort f) 54 q) \<or>
        (vf_proto f = IPPROTO_UDP \<and> p = createUdpHeader (vf_srcPort f) (vf_dstPort f) 54 (of_nat 458) q)"
      using assms(1) sd pr v
      by (auto simp: createPacketFromFlow_def q_def kTestPacketSize_def ETH_HLEN_def IP6_HLEN_def Let_def transport_consts)
    then have h: "p = createTcpHeader (vf_srcPort f) (vf_dstPort f) 54 q \<or>
        p = createUdpHeader (vf_srcPort f) (vf_dstPort f) 54 (of_nat 458) q" by blast
    note l3 = l3_of_v6 [OF q_def _ pr h]
    obtain t where t: "parse_l3_headers p (vf_proto f) ETH_HLEN True zero_pckt =
        (FURTHER_PROCESSING, zero_pckt\<lparr>tos := t, flow := (flow zero_pckt)\<lparr>src := flow_addr s, dst := flow_addr d\<rparr>\<rparr>)"
      using l3(1) assms(2) v by (auto simp: kTestPacketSize_def flow_addr_def)
    have "length p = 512" "rd16 p 12 = BE_ETH_P_IPV6"
      using l3(2,3) assms(2) by (simp_all add: kTestPacketSize_def)
    then show ?thesis
      using parse_flow_built [OF t p] calc_offsets l sd v by (auto simp: is_V6_def)
  qed
qed

definition ex_sim_env :: "env" where
  "ex_sim_env = \<lparr>parse_ip = (\<lambda>t. if t = ''10.0.0.1'' then Some (V4 0x0100000A)
       else if t = ''10.0.0.2'' then Some (V4 0x0200000A) else None),
     parse_net = (\<lambda>t. None), ip_hash = (\<lambda>i. 0), addr_part = (\<lambda>a i. 0), bpf_ok = (\<lambda>n. True),
     batch_part = (\<lambda>n. 0), hash_of = (\<lambda>f es n. None), ring_key = (\<lambda>n p. 0)\<rparr>"

definition ex_flow :: vsoshlb_flow where
  "ex_flow = \<lparr>vf_src = ''10.0.0.1'', vf_dst = ''10.0.0.2'', vf_srcPort = 1000, vf_dstPort = 80, vf_proto = 6\<rparr>"

theorem simulated_packet_roundtrip_witness:
  "\<exists>p pk. createPacketFromFlow ex_sim_env (replicate 512 1) ex_flow = Some p \<and>
     parse_flow p 6 False = Some (True, pk) \<and> dst (flow pk) = Addr 0x0200000A 0 0 0"
proof -
  have "createPacketFromFlow ex_sim_env (replicate 512 1) ex_flow \<noteq> None"
    by (simp add: createPacketFromFlow_def ex_sim_env_def ex_flow_def IPPROTO_TCP_def Let_def)
  then obtain p where p: "createPacketFromFlow ex_sim_env (replicate 512 1) ex_flow = Some p"
    by blast
  show ?thesis
    using simulated_packet_roundtrip [OF p] p
    by (auto simp: ex_sim_env_def ex_flow_def kTestPacketSize_def is_V6_def flow_addr_def)
qed

section \<open>The real server of an encapsulated packet\<close>

lemma dst_of_v4_hdr:
  assumes "34 \<le> length p" and "rd16 p 12 = BE_ETH_P_IP"
  shows "rd16 (create_v4_hdr p 14 t s d n pr) 12 = BE_ETH_P_IP"
    "rd32 (create_v4_hdr p 14 t s d n pr) 30 = d" "34 \<le> length (create_v4_hdr p 14 t s d n pr)"
  using assms create_v4_hdr_fields [OF _ refl, of 14 p t s d n pr] by (simp_all add: buf_simps)

lemma dst_of_v6_hdr:
  assumes "54 \<le> length p" and "rd16 p 12 = BE_ETH_P_IPV6"
  shows "rd16 (create_v6_hdr p 14 t s d n pr) 12 = BE_ETH_P_IPV6"
    "rd_addr6 (create_v6_hdr p 14 t s d n pr) 38 = d" "54 \<le> length (create_v6_hdr p 14 t s d n pr)"
  using assms create_v6_hdr_fields [OF _ refl, of 14 p t s d n pr] by (simp_all add: buf_simps)

lemma udp_hdr_frame: "14 \<le> i \<Longrightarrow> rd16 (create_udp_hdr p i sp dp n c) 12 = rd16 p 12"
  unfolding create_udp_hdr_def Let_def by (simp add: buf_simps)

lemma new_eth_type: "14 \<le> length p \<Longrightarrow> rd16 (new_eth_hdr p cv old e) 12 = e"
  unfolding new_eth_hdr_def Let_def by (simp add: buf_simps)

text \<open>The checksum, when it is stored, lies behind the destination.\<close>

lemma encap_v4_dst:
  assumes "encap_v4 cfg k cval pckt real n p = (True, q)"
  shows "34 \<le> length q \<and> rd16 q 12 = BE_ETH_P_IP \<and> rd32 q 30 = w0 (real_dst real)"
proof -
  obtain r x where r: "34 \<le> length r" "q = create_v4_hdr (new_eth_hdr r cval 20 BE_ETH_P_IP) 14 (tos pckt) x
      (w0 (real_dst real)) (ucast n) 4"
    using assms
    by (auto simp: encap_v4_def Let_def IP_HLEN_def ETH_HLEN_def IPPROTO_IPIP_def not_less not_le
        split: prod.splits if_splits)
  then show ?thesis
    using dst_of_v4_hdr [of "new_eth_hdr r cval 20 BE_ETH_P_IP"] new_eth_type [of r] by simp
qed

lemma encap_v6_dst:
  assumes "encap_v6 cfg k cval v6 pckt real n p = (True, q)"
  shows "54 \<le> length q \<and> rd16 q 12 = BE_ETH_P_IPV6 \<and> rd_addr6 q 38 = real_dst real"
proof -
  obtain r x m pr where r: "54 \<le> length r" "q = create_v6_hdr (new_eth_hdr r cval 40 BE_ETH_P_IPV6) 14 (tos pckt) x
      (real_dst real) m pr"
    using assms
    by (auto simp: encap_v6_def Let_def IP6_HLEN_def ETH_HLEN_def not_less not_le
        split: prod.splits if_splits)
  then show ?thesis
    using dst_of_v6_hdr [of "new_eth_hdr r cval 40 BE_ETH_P_IPV6"] new_eth_type [of r] by simp
qed

lemma gue_encap_v4_dst:
  assumes "gue_encap_v4 cfg k ret1 ret2 cval pckt real n st = (True, q)"
  shows "34 \<le> length q \<and> rd16 q 12 = BE_ETH_P_IP \<and> rd32 q 30 = w0 (real_dst real)"
proof -
  obtain r x m sp where r: "42 \<le> length r"
    "q = (let p = create_v4_hdr (create_udp_hdr (new_eth_hdr r cval 28 BE_ETH_P_IP) 34 sp GUE_DPORT m 0) 14 (tos pckt) x
            (w0 (real_dst real)) m 17 in p) \<or>
     q = (let p = create_v4_hdr (create_udp_hdr (new_eth_hdr r cval 28 BE_ETH_P_IP) 34 sp GUE_DPORT m 0) 14 (tos pckt) x
            (w0 (real_dst real)) m 17 in wr p 40 (le16 0))"
    using assms
    by (auto simp: gue_encap_v4_def Let_def IP_HLEN_def UDP_HLEN_def ETH_HLEN_def IPPROTO_UDP_def not_less not_le
        split: prod.splits if_splits option.splits)
  then show ?thesis
    using dst_of_v4_hdr [of "create_udp_hdr (new_eth_hdr r cval 28 BE_ETH_P_IP) 34 sp GUE_DPORT m 0"]
      new_eth_type [of r] by (auto simp: Let_def buf_simps udp_hdr_frame)
qed

lemma gue_encap_v6_dst:
  assumes "gue_encap_v6 cfg k ret1 ret2 cval v6 pckt real n st = (True, q)"
  shows "54 \<le> length q \<and> rd16 q 12 = BE_ETH_P_IPV6 \<and> rd_addr6 q 38 = real_dst real"
proof -
  obtain r x m sp where r: "62 \<le> length r"
    "q = (let p = create_v6_hdr (create_udp_hdr (new_eth_hdr r cval 48 BE_ETH_P_IPV6) 54 sp GUE_DPORT m 0) 14 (tos pckt) x
            (real_dst real) m 17 in p) \<or>
     q = (let p = create_v6_hdr (create_udp_hdr (new_eth_hdr r cval 48 BE_ETH_P_IPV6) 54 sp GUE_DPORT m 0) 14 (tos pckt) x
            (real_dst real) m 17 in wr p 60 (le16 0))"
    using assms
    by (auto simp: gue_encap_v6_def Let_def IP6_HLEN_def UDP_HLEN_def ETH_HLEN_def IPPROTO_UDP_def not_less not_le
        split: prod.splits if_splits option.splits)
  then show ?thesis
    using dst_of_v6_hdr [of "create_udp_hdr (new_eth_hdr r cval 48 BE_ETH_P_IPV6) 54 sp GUE_DPORT m 0"]
      new_eth_type [of r] by (auto simp: Let_def buf_simps udp_hdr_frame)
qed

text \<open>
  C25: getPcktDst names the real server. Of every packet the balancer encapsulates, in IP in IP or
  in GUE, to an IPv4 or an IPv6 server, it gives the text of the server's address.
\<close>

theorem dst_of_encapsulated_is_real:
  assumes "if has_flag (real_flags r) F_IPV6
           then PCKT_ENCAP_V6 cfg k ret1 ret2 cval v6 pckt r n st = (True, q)
           else PCKT_ENCAP_V4 cfg k ret1 ret2 cval pckt r n st = (True, q)"
  shows "getPcktDst tx q =
    (if has_flag (real_flags r) F_IPV6 then v6_text tx (real_dst r) else v4_text tx (w0 (real_dst r)))"
proof -
  have types: "BE_ETH_P_IPV6 \<noteq> BE_ETH_P_IP"
    by (simp add: const_defs)
  show ?thesis
  proof (cases "has_flag (real_flags r) F_IPV6")
    case True
    then have "54 \<le> length q \<and> rd16 q 12 = BE_ETH_P_IPV6 \<and> rd_addr6 q 38 = real_dst r"
      using assms encap_v6_dst [of cfg k cval v6 pckt r n "xdata st" q]
        gue_encap_v6_dst [of cfg k ret1 ret2 cval v6 pckt r n st q]
      by (auto simp: PCKT_ENCAP_V6_def split: if_splits)
    then show ?thesis
      using True types by (simp add: getPcktDst_def eth_types ETH_HLEN_def IP6_HLEN_def)
  next
    case False
    then have "34 \<le> length q \<and> rd16 q 12 = BE_ETH_P_IP \<and> rd32 q 30 = w0 (real_dst r)"
      using assms encap_v4_dst [of cfg k cval pckt r n "xdata st" q]
        gue_encap_v4_dst [of cfg k ret1 ret2 cval pckt r n st q]
      by (auto simp: PCKT_ENCAP_V4_def split: if_splits)
    then show ?thesis
      using False by (simp add: getPcktDst_def eth_types ETH_HLEN_def IP_HLEN_def)
  qed
qed

definition ex_text :: ip_text where
  "ex_text = \<lparr>v4_text = (\<lambda>a. if a = 10 then ''ten'' else ''other''), v6_text = (\<lambda>a. ''six'')\<rparr>"

theorem dst_of_encapsulated_is_real_witness:
  "getPcktDst ex_text (snd (PCKT_ENCAP_V4 ref_config ref_kernel 0 0 \<lparr>ctl_bits = 7\<rparr> zero_pckt
     \<lparr>real_dst = Addr 10 0 0 0, real_flags = 0\<rparr> 46 (init_bst ref_config (replicate 60 1)))) = ''ten''"
proof -
  have "fst (PCKT_ENCAP_V4 ref_config ref_kernel 0 0 \<lparr>ctl_bits = 7\<rparr> zero_pckt
     \<lparr>real_dst = Addr 10 0 0 0, real_flags = 0\<rparr> 46 (init_bst ref_config (replicate 60 1)))"
    by code_simp
  then have r: "PCKT_ENCAP_V4 ref_config ref_kernel 0 0 \<lparr>ctl_bits = 7\<rparr> zero_pckt
     \<lparr>real_dst = Addr 10 0 0 0, real_flags = 0\<rparr> 46 (init_bst ref_config (replicate 60 1)) =
     (True, snd (PCKT_ENCAP_V4 ref_config ref_kernel 0 0 \<lparr>ctl_bits = 7\<rparr> zero_pckt
     \<lparr>real_dst = Addr 10 0 0 0, real_flags = 0\<rparr> 46 (init_bst ref_config (replicate 60 1))))"
    using pair_of_fst by metis
  show ?thesis
    using dst_of_encapsulated_is_real [of "\<lparr>real_dst = Addr 10 0 0 0, real_flags = 0\<rparr>" ref_config ref_kernel 0 0
        "\<lparr>ctl_bits = 7\<rparr>" False zero_pckt 46 "init_bst ref_config (replicate 60 1)" _ ex_text] r
    by (simp add: has_flag_def ex_text_def)
qed

text \<open>
  The simulator never names a real server. testXdpProg leaves the verdict and the size it was
  to report unchanged, so runSimulation takes every run for one that did not transmit: whatever
  program is loaded, the answer for every flow is the empty text.
\<close>

theorem simulator_answers_nothing:
  "getRealForFlow run e tx fd fresh f = [] \<and> runSimulationInternal run fd pckt = None"
proof -
  have "runSimulationInternal run fd p = None" for p
    by (simp add: runSimulationInternal_def testXdpProg_def XDP_TX_def Let_def split: option.splits prod.splits)
  then show ?thesis
    by (simp add: getRealForFlow_def split: option.splits)
qed

end
