(* ===== verification/Layout.thy ===== *)
theory Layout
  imports Prelude
begin

text \<open>
  The memory layout of the structures which the user space library and the BPF programs share
  through maps. The two sides are compiled from different headers (lib/BalancerStructs.h,
  lib/IpHelpers.h, decap/XdpDecapStructs.h and tpr/TPRTypes.h against the headers of the bpf
  directories) and a map hands the raw bytes of one side to the other, so the control plane is
  right only where the offsets of both declarations agree. ctype is the fragment of C types those
  headers use, place the layout the compilers give it (natural alignment, tail padding, no padding
  in a packed structure, members of a union on top of each other).
\<close>

section \<open>C types and their layout\<close>

datatype ctype =
    CInt nat
  | CArr ctype nat
  | CStruct bool "cfield list"
  | CUnion "cfield list"
and cfield = CField string ctype

text \<open>Alignment: a packed structure has alignment one.\<close>
fun calign :: "ctype \<Rightarrow> nat" and calign_fields :: "cfield list \<Rightarrow> nat" where
  "calign (CInt n) = n"
| "calign (CArr t k) = calign t"
| "calign (CStruct packed fs) = (if packed then 1 else calign_fields fs)"
| "calign (CUnion fs) = calign_fields fs"
| "calign_fields [] = 1"
| "calign_fields (CField n t # fs) = max (calign t) (calign_fields fs)"

definition align_up :: "nat \<Rightarrow> nat \<Rightarrow> nat" where
  "align_up a n = (n + a - 1) div a * a"

text \<open>
  A path names an integer of a type: members by name, elements of an array by index. A member of an
  anonymous structure or union, whose field has the empty name, is named as if it stood outside, as
  in C. place t is the size of t and its leaves: the path, offset and width of every integer in it,
  in order of declaration. The members of a structure follow each other, each at the next multiple
  of its alignment, and its size is padded to the alignment of the whole; those of a union all start
  at its first byte.
\<close>
datatype sel = Fld string | Idx nat

type_synonym leaf = "sel list \<times> nat \<times> nat"

definition member_path :: "string \<Rightarrow> sel list" where
  "member_path n = (if n = '''' then [] else [Fld n])"

definition shift :: "sel list \<Rightarrow> nat \<Rightarrow> leaf list \<Rightarrow> leaf list" where
  "shift s d = map (\<lambda>(p, off, w). (s @ p, off + d, w))"

fun place :: "ctype \<Rightarrow> nat \<times> leaf list"
and place_fields :: "bool \<Rightarrow> nat \<Rightarrow> cfield list \<Rightarrow> nat \<times> leaf list"
and place_union :: "cfield list \<Rightarrow> nat \<times> leaf list" where
  "place (CInt n) = (n, [([], 0, n)])"
| "place (CArr t k) =
     (let (s, ls) = place t in (k * s, concat (map (\<lambda>i. shift [Idx i] (i * s) ls) [0..<k])))"
| "place (CStruct packed fs) =
     (let (e, ls) = place_fields packed 0 fs
      in (align_up (if packed then 1 else calign_fields fs) e, ls))"
| "place (CUnion fs) = (let (e, ls) = place_union fs in (align_up (calign_fields fs) e, ls))"
| "place_fields packed off [] = (off, [])"
| "place_fields packed off (CField n t # fs) =
     (let start = (if packed then off else align_up (calign t) off);
          (s, ls) = place t;
          (e, ls') = place_fields packed (start + s) fs
      in (e, shift (member_path n) start ls @ ls'))"
| "place_union [] = (0, [])"
| "place_union (CField n t # fs) =
     (let (s, ls) = place t; (e, ls') = place_union fs
      in (max s e, shift (member_path n) 0 ls @ ls'))"

definition csize :: "ctype \<Rightarrow> nat" where
  "csize t = fst (place t)"

definition leaves :: "ctype \<Rightarrow> leaf list" where
  "leaves t = snd (place t)"

text \<open>Reading and writing an integer by its path in the bytes of a structure.\<close>
definition read_field :: "ctype \<Rightarrow> sel list \<Rightarrow> bytes \<Rightarrow> bytes option" where
  "read_field t p img =
     (case map_of (leaves t) p of None \<Rightarrow> None | Some (off, w) \<Rightarrow> Some (take w (drop off img)))"

definition write_field :: "ctype \<Rightarrow> sel list \<Rightarrow> bytes \<Rightarrow> bytes \<Rightarrow> bytes option" where
  "write_field t p v img =
     (case map_of (leaves t) p of
        None \<Rightarrow> None
      | Some (off, w) \<Rightarrow> if length v = w then Some (take off img @ v @ drop (off + w) img) else None)"

text \<open>
  The declarations describe the same bytes under the same names, up to the members that the two
  sides call differently, given as pairs of names.
\<close>
definition rename :: "(string \<times> string) list \<Rightarrow> sel list \<Rightarrow> sel list" where
  "rename names = map (\<lambda>s. case s of
     Fld n \<Rightarrow> Fld (case map_of names n of None \<Rightarrow> n | Some m \<Rightarrow> m)
   | Idx i \<Rightarrow> Idx i)"

definition same_layout :: "(string \<times> string) list \<Rightarrow> ctype \<Rightarrow> ctype \<Rightarrow> bool" where
  "same_layout names t u \<longleftrightarrow> csize t = csize u \<and> calign t = calign u \<and>
     map (\<lambda>(p, r). (rename names p, r)) (leaves t) = leaves u"

abbreviation u8t :: ctype where "u8t \<equiv> CInt 1"
abbreviation u16t :: ctype where "u16t \<equiv> CInt 2"
abbreviation u32t :: ctype where "u32t \<equiv> CInt 4"
abbreviation u64t :: ctype where "u64t \<equiv> CInt 8"

abbreviation addr_union :: "string \<Rightarrow> string \<Rightarrow> ctype" where
  "addr_union v4 v6 \<equiv> CUnion [CField v4 u32t, CField v6 (CArr u32t 4)]"

abbreviation counters :: "string list \<Rightarrow> ctype" where
  "counters names \<equiv> CStruct False (map (\<lambda>n. CField n u64t) names)"

section \<open>User space: lib/BalancerStructs.h and lib/IpHelpers.h\<close>

definition user_ctl_value :: ctype where
  "user_ctl_value = CStruct False [CField '''' (CUnion
     [CField ''value'' u64t, CField ''ifindex'' u32t, CField ''mac'' (CArr u8t 6)])]"

definition user_hc_mac :: ctype where
  "user_hc_mac = CStruct False [CField ''mac'' (CArr u8t 6)]"

definition user_vip_definition :: ctype where
  "user_vip_definition = CStruct False
     [CField '''' (addr_union ''vip'' ''vipv6''), CField ''port'' u16t, CField ''proto'' u8t]"

definition user_event_metadata :: ctype where
  "user_event_metadata = CStruct True
     [CField ''event'' u32t, CField ''pkt_size'' u32t, CField ''data_len'' u32t]"

definition user_vip_meta :: ctype where
  "user_vip_meta = CStruct False [CField ''flags'' u32t, CField ''vip_num'' u32t]"

definition user_lb_stats :: ctype where
  "user_lb_stats = counters [''v1'', ''v2'']"

definition user_flow_key :: ctype where
  "user_flow_key = CStruct False
     [CField '''' (addr_union ''src'' ''srcv6''), CField '''' (addr_union ''dst'' ''dstv6''),
      CField '''' (CUnion [CField ''ports'' u32t, CField ''port16'' (CArr u16t 2)]),
      CField ''proto'' u8t]"

definition user_real_pos_lru :: ctype where
  "user_real_pos_lru = CStruct False [CField ''pos'' u32t, CField ''atime'' u64t]"

definition user_v4_lpm_key :: ctype where
  "user_v4_lpm_key = CStruct False [CField ''prefixlen'' u32t, CField ''addr'' u32t]"

definition user_v6_lpm_key :: ctype where
  "user_v6_lpm_key = CStruct False [CField ''prefixlen'' u32t, CField ''addr'' (CArr u32t 4)]"

definition user_flow_debug_info :: ctype where
  "user_flow_debug_info = CStruct False
     [CField '''' (addr_union ''l4_hop'' ''l4_hopv6''),
      CField '''' (addr_union ''this_hop'' ''this_hopv6'')]"

definition user_lb_quic_packets_stats :: ctype where
  "user_lb_quic_packets_stats = counters
     [''ch_routed'', ''cid_initial'', ''cid_invalid_server_id'',
      ''cid_invalid_server_id_sample'', ''cid_routed'', ''cid_unknown_real_dropped'',
      ''cid_v0'', ''cid_v1'', ''cid_v2'', ''cid_v3'', ''dst_match_in_lru'',
      ''dst_mismatch_in_lru'', ''dst_not_found_in_lru'']"

definition user_lb_tpr_packets_stats :: ctype where
  "user_lb_tpr_packets_stats = counters
     [''ch_routed'', ''dst_mismatch_in_lru'', ''sid_routed'', ''tcp_syn'']"

definition user_lb_stable_rt_packets_stats :: ctype where
  "user_lb_stable_rt_packets_stats = counters
     [''ch_routed'', ''cid_routed'', ''cid_invalid_server_id'', ''cid_unknown_real_dropped'',
      ''invalid_packet_type'']"

definition user_beaddr :: ctype where
  "user_beaddr = CStruct False
     [CField '''' (addr_union ''daddr'' ''v6daddr''), CField ''flags'' u8t]"

section \<open>User space: decap/XdpDecapStructs.h, tc_decap_info_user_structs.h, tpr/TPRTypes.h\<close>

definition user_decap_stats :: ctype where
  "user_decap_stats = counters
     [''decap_v4'', ''decap_v6'', ''total'', ''tpr_misrouted'', ''tpr_total'']"

definition user_vip_decap_stats :: ctype where
  "user_vip_decap_stats = counters
     [''tcp_v4_packets'', ''tcp_v6_packets'', ''udp_v4_packets'', ''udp_v6_packets'']"

definition user_info_flow_key :: ctype where
  "user_info_flow_key = CStruct False
     [CField '''' (addr_union ''src'' ''srcv6''), CField '''' (addr_union ''dst'' ''dstv6''),
      CField '''' (CUnion [CField ''ports'' u32t, CField ''port16'' (CArr u16t 2)]),
      CField ''proto'' u8t]"

definition user_tcp_opt :: ctype where
  "user_tcp_opt = CStruct False
     [CField ''kind'' u8t, CField ''len'' u8t, CField ''server_id'' u32t]"

definition user_server_info :: ctype where
  "user_server_info = CStruct False
     [CField ''running_mode'' u8t, CField ''kde_enabled'' u8t, CField ''server_id'' u32t]"

definition user_tcp_router_stats :: ctype where
  "user_tcp_router_stats = counters
     [''server_id_read'', ''server_id_set'', ''conns_skipped'', ''no_tcp_opt_hdr'',
      ''error_bad_id'', ''error_write_opt'', ''error_sys_calls'', ''ignoring_due_to_kde'',
      ''legacy_server_opt'', ''new_server_opt'']"

section \<open>The BPF side\<close>

definition bpf_flow_key :: ctype where
  "bpf_flow_key = CStruct False
     [CField '''' (addr_union ''src'' ''srcv6''), CField '''' (addr_union ''dst'' ''dstv6''),
      CField '''' (CUnion [CField ''ports'' u32t, CField ''port16'' (CArr u16t 2)]),
      CField ''proto'' u8t]"

definition bpf_ctl_value :: ctype where
  "bpf_ctl_value = CStruct False [CField '''' (CUnion
     [CField ''value'' u64t, CField ''ifindex'' u32t, CField ''mac'' (CArr u8t 6)])]"

definition bpf_vip_definition :: ctype where
  "bpf_vip_definition = CStruct False
     [CField '''' (addr_union ''vip'' ''vipv6''), CField ''port'' u16t, CField ''proto'' u8t]"

definition bpf_vip_meta :: ctype where
  "bpf_vip_meta = CStruct False [CField ''flags'' u32t, CField ''vip_num'' u32t]"

definition bpf_real_pos_lru :: ctype where
  "bpf_real_pos_lru = CStruct False [CField ''pos'' u32t, CField ''atime'' u64t]"

definition bpf_real_definition :: ctype where
  "bpf_real_definition = CStruct False
     [CField '''' (addr_union ''dst'' ''dstv6''), CField ''flags'' u8t]"

definition bpf_lb_stats :: ctype where
  "bpf_lb_stats = counters [''v1'', ''v2'']"

definition bpf_v4_lpm_key :: ctype where
  "bpf_v4_lpm_key = CStruct False [CField ''prefixlen'' u32t, CField ''addr'' u32t]"

definition bpf_v6_lpm_key :: ctype where
  "bpf_v6_lpm_key = CStruct False [CField ''prefixlen'' u32t, CField ''addr'' (CArr u32t 4)]"

definition bpf_event_metadata :: ctype where
  "bpf_event_metadata = CStruct True
     [CField ''event'' u32t, CField ''pkt_size'' u32t, CField ''data_len'' u32t]"

definition bpf_flow_debug_info :: ctype where
  "bpf_flow_debug_info = CStruct False
     [CField '''' (addr_union ''l4_hop'' ''l4_hopv6''),
      CField '''' (addr_union ''this_hop'' ''this_hopv6'')]"

definition bpf_lb_quic_packets_stats :: ctype where
  "bpf_lb_quic_packets_stats = counters
     [''ch_routed'', ''cid_initial'', ''cid_invalid_server_id'',
      ''cid_invalid_server_id_sample'', ''cid_routed'', ''cid_unknown_real_dropped'',
      ''cid_v0'', ''cid_v1'', ''cid_v2'', ''cid_v3'', ''dst_match_in_lru'',
      ''dst_mismatch_in_lru'', ''dst_not_found_in_lru'']"

definition bpf_lb_tpr_packets_stats :: ctype where
  "bpf_lb_tpr_packets_stats = counters
     [''ch_routed'', ''dst_mismatch_in_lru'', ''sid_routed'', ''tcp_syn'']"

definition bpf_lb_stable_rt_packets_stats :: ctype where
  "bpf_lb_stable_rt_packets_stats = counters
     [''ch_routed'', ''cid_routed'', ''cid_invalid_server_id'', ''cid_unknown_real_dropped'',
      ''invalid_packet_type'']"

text \<open>lib/bpf/healthchecking_structs.h.\<close>
definition bpf_hc_real_definition :: ctype where
  "bpf_hc_real_definition = CStruct False
     [CField '''' (addr_union ''daddr'' ''v6daddr''), CField ''flags'' u8t]"

definition bpf_hc_key :: ctype where
  "bpf_hc_key = CStruct False
     [CField '''' (addr_union ''addr'' ''addrv6''), CField ''port'' u16t, CField ''proto'' u8t]"

definition bpf_hc_mac :: ctype where
  "bpf_hc_mac = CStruct False [CField ''mac'' (CArr u8t 6)]"

text \<open>decap/bpf/decap_maps.h, decap/tc_bpf and tpr/bpf/tcp_pkt_router_structs.h.\<close>
definition bpf_decap_stats :: ctype where
  "bpf_decap_stats = counters
     [''decap_v4'', ''decap_v6'', ''total'', ''tpr_misrouted'', ''tpr_total'']"

definition bpf_tc_decap_stats :: ctype where
  "bpf_tc_decap_stats = counters [''decap_v4'', ''decap_v6'', ''total'']"

definition bpf_vip_decap_stats :: ctype where
  "bpf_vip_decap_stats = counters [''v4_packets'', ''v6_packets'']"

definition bpf_server_info :: ctype where
  "bpf_server_info = CStruct False
     [CField ''running_mode'' u8t, CField ''kde_enabled'' u8t, CField ''server_id'' u32t]"

definition bpf_tcp_opt :: ctype where
  "bpf_tcp_opt = CStruct True
     [CField ''kind'' u8t, CField ''len'' u8t, CField ''server_id'' u32t]"

definition bpf_stats :: ctype where
  "bpf_stats = counters
     [''server_id_read'', ''server_id_set'', ''conns_skipped'', ''no_tcp_opt_hdr'',
      ''error_bad_id'', ''error_write_opt'', ''error_sys_calls'', ''ignoring_due_to_kde'',
      ''legacy_server_opt'', ''new_server_opt'']"

text \<open>
  The pairs of declarations one map carries between, with the members that are named differently:
  what user space declares, what the program declares. beaddr is written into the maps of reals and
  of health check reals, vip_definition keys both the VIP map and the health check key map.
\<close>
definition shared_structs :: "(ctype \<times> (string \<times> string) list \<times> ctype) list" where
  "shared_structs =
     [(user_ctl_value, [], bpf_ctl_value), (user_vip_definition, [], bpf_vip_definition),
      (user_vip_definition, [(''vip'', ''addr''), (''vipv6'', ''addrv6'')], bpf_hc_key),
      (user_vip_meta, [], bpf_vip_meta), (user_event_metadata, [], bpf_event_metadata),
      (user_beaddr, [(''daddr'', ''dst''), (''v6daddr'', ''dstv6'')], bpf_real_definition),
      (user_beaddr, [], bpf_hc_real_definition), (user_hc_mac, [], bpf_hc_mac),
      (user_lb_stats, [], bpf_lb_stats), (user_flow_key, [], bpf_flow_key),
      (user_real_pos_lru, [], bpf_real_pos_lru),
      (user_v4_lpm_key, [], bpf_v4_lpm_key), (user_v6_lpm_key, [], bpf_v6_lpm_key),
      (user_flow_debug_info, [], bpf_flow_debug_info), (user_info_flow_key, [], bpf_flow_key),
      (user_lb_quic_packets_stats, [], bpf_lb_quic_packets_stats),
      (user_lb_tpr_packets_stats, [], bpf_lb_tpr_packets_stats),
      (user_lb_stable_rt_packets_stats, [], bpf_lb_stable_rt_packets_stats),
      (user_decap_stats, [], bpf_decap_stats),
      (user_server_info, [], bpf_server_info), (user_tcp_router_stats, [], bpf_stats)]"

text \<open>The bytes of a type which no member covers: a map compares and hashes them with the key.\<close>
definition padding :: "ctype \<Rightarrow> nat list" where
  "padding t = filter (\<lambda>i. \<not> list_ex (\<lambda>(p, off, w). off \<le> i \<and> i < off + w) (leaves t)) [0..<csize t]"

section \<open>The layout of a type\<close>

lemma align_up_ge: "0 < a \<Longrightarrow> n \<le> align_up a n"
proof -
  assume "0 < a"
  then have "(n + a - 1) mod a < a" by simp
  moreover have "(n + a - 1) div a * a + (n + a - 1) mod a = n + a - 1" by (rule div_mult_mod_eq)
  ultimately show ?thesis unfolding align_up_def by linarith
qed

lemma align_up_dvd [simp]: "a dvd align_up a n"
  by (simp add: align_up_def)

lemma set_shift: "set (shift s d ls) = (\<lambda>(p, off, w). (s @ p, off + d, w)) ` set ls"
  by (simp add: shift_def)

text \<open>The integers of a type have a width of at least one byte.\<close>
fun sized :: "ctype \<Rightarrow> bool" and sized_fields :: "cfield list \<Rightarrow> bool" where
  "sized (CInt n) = (0 < n)"
| "sized (CArr t k) = sized t"
| "sized (CStruct p fs) = sized_fields fs"
| "sized (CUnion fs) = sized_fields fs"
| "sized_fields [] = True"
| "sized_fields (CField n t # fs) = (sized t \<and> sized_fields fs)"

lemma calign_pos:
  "sized t \<Longrightarrow> 0 < calign t" "sized_fields fs \<Longrightarrow> 0 < calign_fields fs"
  by (induction t and fs rule: calign_calign_fields.induct) auto

text \<open>Every leaf ends inside the type.\<close>
definition inside :: "nat \<times> leaf list \<Rightarrow> bool" where
  "inside p \<longleftrightarrow> list_all (\<lambda>(q, off, w). off + w \<le> fst p) (snd p)"

lemma inside_mono: "inside (e, ls) \<Longrightarrow> e \<le> e' \<Longrightarrow> inside (e', ls)"
  by (fastforce simp: inside_def list_all_iff)

lemma inside_append: "inside (e, ls @ ls') \<longleftrightarrow> inside (e, ls) \<and> inside (e, ls')"
  by (simp add: inside_def)

lemma inside_shift: "inside (e, ls) \<Longrightarrow> d + e \<le> e' \<Longrightarrow> inside (e', shift q d ls)"
  by (fastforce simp: inside_def list_all_iff set_shift)

lemma inside_array:
  assumes "inside (s, ls)"
  shows "inside (k * s, concat (map (\<lambda>i. shift [Idx i] (i * s) ls) [0..<k]))"
proof -
  have "inside (k * s, shift [Idx i] (i * s) ls)" if "i < k" for i
    using inside_shift [OF assms, of "i * s" "k * s" "[Idx i]"] mult_le_mono1 [of "Suc i" k s] that by simp
  then show ?thesis by (auto simp: inside_def list_all_iff)
qed

lemma inside_field:
  assumes "inside (place t)" "off \<le> start"
    and "start + fst (place t) \<le> e" "inside (e, ls)"
  shows "off \<le> e \<and> inside (e, shift q start (snd (place t)) @ ls)"
  using assms inside_shift [of "fst (place t)" "snd (place t)" start e q]
  by (simp add: inside_append)

lemma place_inside:
  "sized t \<Longrightarrow> inside (place t)"
  "sized_fields fs \<Longrightarrow> off \<le> fst (place_fields p off fs) \<and> inside (place_fields p off fs)"
  "sized_fields us \<Longrightarrow> inside (place_union us)"
proof (induction t and p off fs and us rule: place_place_fields_place_union.induct)
  case (2 t k)
  then show ?case using inside_array [of "fst (place t)" "snd (place t)" k]
    by (simp add: split_beta)
next
  case (3 packed fs)
  then have "inside (place_fields packed 0 fs)" by simp
  then show ?case
    using 3 calign_pos(2) [of fs]
      inside_mono [of "fst (place_fields packed 0 fs)" "snd (place_fields packed 0 fs)", OF _ align_up_ge]
    by (simp add: split_beta)
next
  case (4 fs)
  then show ?case
    using calign_pos(2) [of fs]
      inside_mono [of "fst (place_union fs)" "snd (place_union fs)", OF _ align_up_ge]
    by (simp add: split_beta)
next
  case (6 packed off n t fs)
  define start where "start = (if packed then off else align_up (calign t) off)"
  have "off \<le> start" using 6 calign_pos(1) [of t] by (simp add: start_def align_up_ge)
  moreover have "inside (place t)" using 6 by simp
  moreover have "start + fst (place t) \<le> fst (place_fields packed (start + fst (place t)) fs)
      \<and> inside (place_fields packed (start + fst (place t)) fs)"
    using 6(2) [OF start_def refl prod.collapse] 6(3) by simp
  ultimately show ?case
    using inside_field [of t off start _ _ "member_path n"] by (simp add: split_beta Let_def flip: start_def)
next
  case (8 n t fs)
  then have "inside (place t)" "inside (place_union fs)" using 8(2) [OF refl prod.collapse] by simp_all
  then show ?case
    using inside_mono [of "fst (place t)" "snd (place t)"]
      inside_mono [of "fst (place_union fs)" "snd (place_union fs)"]
      inside_shift [of "fst (place t)" "snd (place t)" 0 _ "member_path n"]
    by (simp add: split_beta inside_append)
qed (simp_all add: inside_def)

lemma leaf_in_bounds:
  "sized t \<Longrightarrow> (p, off, w) \<in> set (leaves t) \<Longrightarrow> off + w \<le> csize t"
  using place_inside(1) [of t] by (auto simp: inside_def list_all_iff leaves_def csize_def)

section \<open>Both sides agree\<close>

lemma field_read_write:
  assumes "sized t" "length img = csize t" "write_field t p v img = Some img'"
  shows "length img' = csize t \<and> read_field t p img' = Some v"
proof -
  obtain off w where m: "map_of (leaves t) p = Some (off, w)" and w: "length v = w"
    and i: "img' = take off img @ v @ drop (off + w) img"
    using assms(3) by (auto simp: write_field_def split: option.splits if_splits)
  have "off + w \<le> csize t"
    using leaf_in_bounds [OF assms(1) map_of_SomeD [OF m]] .
  then show ?thesis
    using assms(2) w m by (simp add: i read_field_def)
qed

lemma same_layout_leaves:
  "same_layout names t u \<Longrightarrow> leaves u = map (\<lambda>(p, r). (rename names p, r)) (leaves t)"
  by (simp add: same_layout_def)

lemma same_layout_maps:
  assumes "same_layout names t u" "distinct (map fst (leaves u))" "p \<in> set (map fst (leaves t))"
  shows "map_of (leaves u) (rename names p) = map_of (leaves t) p"
proof -
  obtain r where r: "map_of (leaves t) p = Some r"
    using assms(3) by (metis map_of_eq_None_iff not_None_eq set_map)
  have "(rename names p, r) \<in> set (leaves u)"
    unfolding same_layout_leaves [OF assms(1)] using map_of_SomeD [OF r] by force
  then show ?thesis
    using r assms(2) by simp
qed

lemma shared_structs_checked:
  "list_all (\<lambda>(u, names, b). same_layout names u b \<and> sized u \<and> sized b \<and>
     distinct (map fst (leaves b))) shared_structs"
  by code_simp



text \<open>
  Two declarations outside that list do not agree. vip_decap_stats of XdpDecapStructs.h counts tcp
  and udp apart in 32 bytes where the program of tc_decap_stats.bpf.c keeps 16, and tcp_opt of
  TPRTypes.h lacks the packed attribute of the option the program writes, so that its server_id is
  two bytes further and the structure two bytes longer.
\<close>

lemma separate_structs_differ:
  "csize user_vip_decap_stats = 2 * csize bpf_vip_decap_stats \<and>
   csize user_tcp_opt = 8 \<and> csize bpf_tcp_opt = 6 \<and>
   map_of (leaves user_tcp_opt) [Fld ''server_id''] = Some (4, 4) \<and>
   map_of (leaves bpf_tcp_opt) [Fld ''server_id''] = Some (2, 4)"
  by code_simp

text \<open>
  The keys of the two longest prefix match maps have no padding, those of the VIP map, the health
  check key map and the connection tables do: whoever builds such a key has to clear it first.
\<close>
lemma key_padding:
  "padding user_v4_lpm_key = [] \<and> padding user_v6_lpm_key = []
   \<and> padding user_vip_definition = [19] \<and> padding user_flow_key = [37, 38, 39]"
  by code_simp

end
