(* ===== verification/XdpDecapCtl.thy ===== *)
theory XdpDecapCtl
  imports Decap Loader BpfAdapter
begin

text \<open>
  decap/XdpDecap.cpp: the object that loads the decapsulation program, hangs it into an interface
  or into a pinned array of programs, reads its counters and takes it out again when it is
  destroyed. The loader is that of theory Loader, the maps and the netlink messages those of
  theory BpfAdapter. LOG(FATAL) ends the process: Fatal. A netlink answer that never arrives is
  Blocked.
\<close>

datatype 'a xdres = XRet 'a | Fatal | Blocked

record xdp_decap_config =
  xc_progPath :: string
  xc_mapPath :: string
  xc_progPos :: int
  xc_interface :: string
  xc_detachOnExit :: bool

definition kDefaultProgPos :: int where "kDefaultProgPos = 8"

definition default_decap_config :: "string \<Rightarrow> xdp_decap_config" where
  "default_decap_config path = \<lparr>xc_progPath = path, xc_mapPath = [], xc_progPos = kDefaultProgPos,
     xc_interface = ''lo'', xc_detachOnExit = True\<rparr>"

text \<open>
  The machine the object runs on: interface indices (0 for none), descriptors of pinned objects
  (negative for none; the descriptors of one object are identified), object files, the sockets,
  the clock, what the kernel refuses and the number of CPUs.
\<close>
record dworld =
  dw_ifindex :: "string \<Rightarrow> u32"
  dw_pin :: "string \<Rightarrow> int"
  dw_file :: "string \<Rightarrow> bpf_object option"
  dw_sock :: "nlmsg \<Rightarrow> nl_sock"
  dw_now :: u32
  dw_refuse :: krefuse
  dw_cpus :: int

record xdp_decap =
  xdc_config :: xdp_decap_config
  xdc_isStandalone :: bool
  xdc_isLoaded :: bool
  xdc_isAttached :: bool
  xdc_loader :: bpf_loader
  xdc_sys :: ksys
  xdc_sent :: "nlmsg list"

section \<open>Operations\<close>

definition getInterfaceIndex :: "dworld \<Rightarrow> string \<Rightarrow> u32" where
  "getInterfaceIndex w n = (let ifindex = dw_ifindex w n in if ifindex = 0 then 0 else ifindex)"

definition getPinnedBpfObject :: "dworld \<Rightarrow> string \<Rightarrow> ksys \<Rightarrow> int \<times> ksys" where
  "getPinnedBpfObject w path s =
     (let fd = dw_pin w path in (fd, if fd < 0 then s else open_fd fd s))"

definition key32 :: "int \<Rightarrow> bytes" where "key32 i = le32 (word_of_int i)"

definition new_xdp_decap :: "dworld \<Rightarrow> xdp_decap_config \<Rightarrow> ksys \<Rightarrow> xdp_decap xdres" where
  "new_xdp_decap w c s =
     (let d = \<lparr>xdc_config = c, xdc_isStandalone = True, xdc_isLoaded = False, xdc_isAttached = False,
               xdc_loader = new_loader, xdc_sys = s, xdc_sent = []\<rparr>
      in if xc_mapPath c \<noteq> [] then XRet (d\<lparr>xdc_isStandalone := False\<rparr>)
         else if getInterfaceIndex w (xc_interface c) = 0 then Fatal
         else XRet d)"

definition loadXdpDecap :: "dworld \<Rightarrow> xdp_decap \<Rightarrow> xdp_decap xdres" where
  "loadXdpDecap w d =
     (if xdc_isLoaded d then XRet d
      else case loadBpfFile (dw_file w) (xc_progPath (xdc_config d)) (xdc_loader d) of
             None \<Rightarrow> Fatal
           | Some (res, ld) \<Rightarrow>
               if res \<noteq> 0 then Fatal
               else if ld_getProgFdByName ''xdpdecap'' ld < 0 then Fatal
               else if ld_getMapFdByName ''decap_counters'' ld < 0 then Fatal
               else XRet (d\<lparr>xdc_loader := ld, xdc_isLoaded := True\<rparr>))"

definition attachXdpDecap :: "dworld \<Rightarrow> xdp_decap \<Rightarrow> xdp_decap xdres" where
  "attachXdpDecap w d =
     (let c = xdc_config d in
      if \<not> xdc_isLoaded d \<or> xdc_isAttached d then Fatal
      else
        let prog_fd = ld_getProgFdByName ''xdpdecap'' (xdc_loader d) in
        if xdc_isStandalone d then
          let (m, res) = attachXdpProg (dw_sock w) (dw_now w) (getInterfaceIndex w (xc_interface c)) prog_fd 0
          in case res of
               None \<Rightarrow> Blocked
             | Some r \<Rightarrow>
                 if r \<noteq> 0 then Fatal
                 else XRet (d\<lparr>xdc_sent := xdc_sent d @ (case m of None \<Rightarrow> [] | Some x \<Rightarrow> [x]),
                              xdc_isAttached := True\<rparr>)
        else
          let (map_fd, s) = getPinnedBpfObject w (xc_mapPath c) (xdc_sys d) in
          if map_fd < 0 then Fatal
          else
            let (res, s) = bpfUpdateMap (dw_refuse w) map_fd (key32 (xc_progPos c), key32 prog_fd) s in
            if res \<noteq> 0 then Fatal
            else XRet (d\<lparr>xdc_sys := s, xdc_isAttached := True\<rparr>))"

definition destroy_xdp_decap :: "dworld \<Rightarrow> xdp_decap \<Rightarrow> xdp_decap xdres" where
  "destroy_xdp_decap w d =
     (let c = xdc_config d in
      if xdc_isAttached d then
        if \<not> xc_detachOnExit c then XRet d
        else if xdc_isStandalone d then
          let (m, res) = detachXdpProg (dw_sock w) (dw_now w) (getInterfaceIndex w (xc_interface c)) 0
          in case res of
               None \<Rightarrow> Blocked
             | Some r \<Rightarrow> XRet (d\<lparr>xdc_sent := xdc_sent d @ (case m of None \<Rightarrow> [] | Some x \<Rightarrow> [x])\<rparr>)
        else
          let (prog_fd, s) = getPinnedBpfObject w (xc_mapPath c) (xdc_sys d) in
          if prog_fd \<ge> 0 then
            let (res, s) = bpfMapDeleteElement prog_fd (key32 (xc_progPos c)) s
            in XRet (d\<lparr>xdc_sys := s\<rparr>)
          else XRet (d\<lparr>xdc_sys := s\<rparr>)
      else XRet d)"

text \<open>The counters of every CPU, 40 bytes each, in the value of the per-CPU map.\<close>
definition rd64 :: "bytes \<Rightarrow> nat \<Rightarrow> u64" where
  "rd64 p off = ucast (rd32 p off) OR push_bit 32 (ucast (rd32 p (off + 4)))"

definition percpu_decap_stats :: "bytes \<Rightarrow> nat \<Rightarrow> decap_stats" where
  "percpu_decap_stats v i =
     \<lparr>ds_v4 = rd64 v (40 * i), ds_v6 = rd64 v (40 * i + 8), ds_total = rd64 v (40 * i + 16),
      ds_tpr_misrouted = rd64 v (40 * i + 24), ds_tpr_total = rd64 v (40 * i + 32)\<rparr>"

definition no_decap_stats :: decap_stats where
  "no_decap_stats = \<lparr>ds_v4 = 0, ds_v6 = 0, ds_total = 0, ds_tpr_misrouted = 0, ds_tpr_total = 0\<rparr>"

definition add_decap_stats :: "decap_stats \<Rightarrow> decap_stats \<Rightarrow> decap_stats" where
  "add_decap_stats st acc =
     \<lparr>ds_v4 = ds_v4 acc + ds_v4 st, ds_v6 = ds_v6 acc + ds_v6 st,
      ds_total = ds_total acc + ds_total st,
      ds_tpr_misrouted = ds_tpr_misrouted acc + ds_tpr_misrouted st,
      ds_tpr_total = ds_tpr_total acc + ds_tpr_total st\<rparr>"

definition getXdpDecapStats :: "dworld \<Rightarrow> xdp_decap \<Rightarrow> decap_stats" where
  "getXdpDecapStats w d =
     (if \<not> xdc_isLoaded d then no_decap_stats
      else if dw_cpus w < 0 then no_decap_stats
      else case bpfMapLookupElement (ld_getMapFdByName ''decap_counters'' (xdc_loader d)) (key32 0) (xdc_sys d) of
             Some v \<Rightarrow> fold add_decap_stats (map (percpu_decap_stats v) [0..<nat (dw_cpus w)]) no_decap_stats
           | None \<Rightarrow> no_decap_stats)"

definition setSeverId :: "dworld \<Rightarrow> int \<Rightarrow> xdp_decap \<Rightarrow> xdp_decap xdres" where
  "setSeverId w i d =
     (let (res, s) = bpfUpdateMap (dw_refuse w) (ld_getMapFdByName ''tpr_server_id'' (xdc_loader d))
            (key32 0, key32 i) (xdc_sys d)
      in if res \<noteq> 0 then Fatal else XRet (d\<lparr>xdc_sys := s\<rparr>))"

section \<open>The counters\<close>

definition le64 :: "u64 \<Rightarrow> bytes" where
  "le64 w = le32 (ucast w) @ le32 (ucast (drop_bit 32 w))"

definition stats_bytes :: "decap_stats \<Rightarrow> bytes" where
  "stats_bytes st = le64 (ds_v4 st) @ le64 (ds_v6 st) @ le64 (ds_total st)
     @ le64 (ds_tpr_misrouted st) @ le64 (ds_tpr_total st)"

lemma length_le64 [simp]: "length (le64 w) = 8"
  by (simp add: le64_def)

lemma rd32_le32_append: "rd32 (le32 w @ q) 0 = w"
  using rd32_wr_here [of 0 "replicate 4 0 @ q" w]
  by (simp add: rd32_def rd16_def rd8_def le32_def wr.simps numeral_eq_Suc nth_append)

lemma rd32_append_skip: "length p = n \<Longrightarrow> rd32 (p @ q) (n + i) = rd32 q i"
  using rd32_drop [of n "p @ q" i] by simp

lemma join64: "ucast (ucast (w :: u64) :: u32) OR push_bit 32 (ucast (ucast (drop_bit 32 w) :: u32)) = w"
  by (rule bit_word_eqI) (auto simp: bit_simps)

lemma rd64_append_skip: "length p = n \<Longrightarrow> rd64 (p @ q) (n + i) = rd64 q i"
  by (simp add: rd64_def rd32_append_skip add.assoc)

lemma rd64_le64_append: "rd64 (le64 w @ q) 0 = w"
  using rd32_append_skip [of "le32 (ucast w)" 4 "le32 (ucast (drop_bit 32 w)) @ q" 0]
  by (simp add: rd64_def le64_def rd32_le32_append join64)

lemma length_stats_bytes [simp]: "length (stats_bytes st) = 40"
  by (simp add: stats_bytes_def)

lemma percpu_first: "percpu_decap_stats (stats_bytes st @ q) 0 = st"
proof -
  have skip: "rd64 (le64 w @ r) (i + 8) = rd64 r i" for w r i
    using rd64_append_skip [of "le64 w" 8 r i] by (simp add: add.commute)
  have "rd64 (le64 w @ r) 8 = rd64 r 0" "rd64 (le64 w @ r) 16 = rd64 r 8"
    "rd64 (le64 w @ r) 24 = rd64 r 16" "rd64 (le64 w @ r) 32 = rd64 r 24" for w r
    using skip [of w r 0] skip [of w r 8] skip [of w r 16] skip [of w r 24] by simp_all
  then show ?thesis by (simp add: percpu_decap_stats_def stats_bytes_def rd64_le64_append)
qed

lemma percpu_skip: "percpu_decap_stats (stats_bytes st @ q) (Suc i) = percpu_decap_stats q i"
proof -
  have "rd64 (stats_bytes st @ q) (40 * Suc i + j) = rd64 q (40 * i + j)" for j
    using rd64_append_skip [of "stats_bytes st" 40 q "40 * i + j"] by (simp add: add.assoc)
  from this [of 0] this [of 8] this [of 16] this [of 24] this [of 32] show ?thesis
    by (simp only: percpu_decap_stats_def add_0_right)
qed

lemma percpu_of_bytes:
  "i < length sts \<Longrightarrow> percpu_decap_stats (concat (map stats_bytes sts)) i = sts ! i"
proof (induction sts arbitrary: i)
  case (Cons st sts)
  then show ?case by (cases i) (simp_all add: percpu_first percpu_skip)
qed simp

lemma percpu_list:
  "map (percpu_decap_stats (concat (map stats_bytes sts))) [0..<length sts] = sts"
  by (rule nth_equalityI) (simp_all add: percpu_of_bytes)

lemma fold_add_decap_stats:
  "fold add_decap_stats sts acc =
     \<lparr>ds_v4 = ds_v4 acc + (\<Sum>s\<leftarrow>sts. ds_v4 s), ds_v6 = ds_v6 acc + (\<Sum>s\<leftarrow>sts. ds_v6 s),
      ds_total = ds_total acc + (\<Sum>s\<leftarrow>sts. ds_total s),
      ds_tpr_misrouted = ds_tpr_misrouted acc + (\<Sum>s\<leftarrow>sts. ds_tpr_misrouted s),
      ds_tpr_total = ds_tpr_total acc + (\<Sum>s\<leftarrow>sts. ds_tpr_total s)\<rparr>"
  by (induction sts arbitrary: acc) (simp_all add: add_decap_stats_def)

text \<open>
  What the CPUs counted is what the control plane reports. When the counters map holds one
  decap_stats per possible CPU, written by the program as its C structure, getXdpDecapStats on a
  loaded object is the sum of each counter over all CPUs, modulo 2^64, no CPU skipped or read twice.
\<close>
theorem decap_stats_summed:
  assumes "xdc_isLoaded d" "dw_cpus w = int (length sts)"
    and "bpfMapLookupElement (ld_getMapFdByName ''decap_counters'' (xdc_loader d)) (key32 0) (xdc_sys d)
      = Some (concat (map stats_bytes sts))"
  shows "getXdpDecapStats w d =
     \<lparr>ds_v4 = (\<Sum>s\<leftarrow>sts. ds_v4 s), ds_v6 = (\<Sum>s\<leftarrow>sts. ds_v6 s), ds_total = (\<Sum>s\<leftarrow>sts. ds_total s),
      ds_tpr_misrouted = (\<Sum>s\<leftarrow>sts. ds_tpr_misrouted s),
      ds_tpr_total = (\<Sum>s\<leftarrow>sts. ds_tpr_total s)\<rparr>"
  using assms
  by (simp add: getXdpDecapStats_def percpu_list fold_add_decap_stats no_decap_stats_def)

section \<open>Attach and destroy\<close>

lemma alist_update_new: "map_of xs k = None \<Longrightarrow> AList.update k v xs = xs @ [(k, v)]"
  by (induction xs) (auto split: if_splits)

lemma alist_delete_new: "map_of xs k = None \<Longrightarrow> AList.delete k (xs @ [(k, v)]) = xs"
  by (induction xs) (auto split: if_splits)

lemma loadXdpDecap_ok:
  assumes "loadXdpDecap w d = XRet d1" "\<not> xdc_isLoaded d"
  obtains ld fd where "d1 = d\<lparr>xdc_loader := ld, xdc_isLoaded := True\<rparr>"
    "ld_progs ld ''xdpdecap'' = Some fd" "0 \<le> fd"
  using assms
  by (auto simp: loadXdpDecap_def ld_getProgFdByName_def ld_kNotExists_def not_less
      split: option.splits prod.splits if_splits)

lemma decap_pinned:
  assumes "xc_mapPath c \<noteq> []" "xc_detachOnExit c"
    and "new_xdp_decap w c s = XRet d" "loadXdpDecap w d = XRet d1"
    and "0 \<le> dw_pin w (xc_mapPath c)" "k_maps s (dw_pin w (xc_mapPath c)) = Some m"
    and "kr_update (dw_refuse w) (dw_pin w (xc_mapPath c)) (key32 (xc_progPos c)) m"
    and "map_of (km_entries m) (key32 (xc_progPos c)) = None"
  shows "\<exists>d2 d3 fd. attachXdpDecap w d1 = XRet d2 \<and> destroy_xdp_decap w d2 = XRet d3
     \<and> 0 \<le> fd \<and> ld_progs (xdc_loader d2) ''xdpdecap'' = Some fd
     \<and> k_maps (xdc_sys d2) = (k_maps s)(dw_pin w (xc_mapPath c) \<mapsto>
         m\<lparr>km_entries := km_entries m @ [(key32 (xc_progPos c), key32 fd)]\<rparr>)
     \<and> k_maps (xdc_sys d3) = k_maps s \<and> xdc_sent d3 = []
     \<and> k_open (xdc_sys d3) = dw_pin w (xc_mapPath c) # dw_pin w (xc_mapPath c) # k_open s"
proof -
  let ?pin = "dw_pin w (xc_mapPath c)"
  have d: "d = \<lparr>xdc_config = c, xdc_isStandalone = False, xdc_isLoaded = False,
      xdc_isAttached = False, xdc_loader = new_loader, xdc_sys = s, xdc_sent = []\<rparr>"
    using assms(1,3) by (simp add: new_xdp_decap_def Let_def)
  obtain ld fd where d1: "d1 = d\<lparr>xdc_loader := ld, xdc_isLoaded := True\<rparr>"
    and fd: "ld_progs ld ''xdpdecap'' = Some fd" "0 \<le> fd"
    using loadXdpDecap_ok [OF assms(4)] d by auto
  define m2 where "m2 = m\<lparr>km_entries := km_entries m @ [(key32 (xc_progPos c), key32 fd)]\<rparr>"
  define s2 where "s2 = upd_kmap ?pin (put_entry (key32 (xc_progPos c), key32 fd)) (open_fd ?pin s)"
  have s2: "k_maps s2 = (k_maps s)(?pin \<mapsto> m2)" "k_open s2 = ?pin # k_open s"
    using assms(6,8) by (simp_all add: s2_def m2_def upd_kmap_def put_entry_def open_fd_def alist_update_new)
  let ?d2 = "d1\<lparr>xdc_sys := s2, xdc_isAttached := True\<rparr>"
  have "attachXdpDecap w d1 = XRet ?d2"
    using assms(5-7) fd
    by (simp add: d1 d attachXdpDecap_def getPinnedBpfObject_def bpfUpdateMap_def s2_def open_fd_def
        ld_getProgFdByName_def Let_def)
  moreover define s3 where "s3 = upd_kmap ?pin
      (\<lambda>m. m\<lparr>km_entries := AList.delete (key32 (xc_progPos c)) (km_entries m)\<rparr>) (open_fd ?pin s2)"
  have "destroy_xdp_decap w ?d2 = XRet (?d2\<lparr>xdc_sys := s3\<rparr>)"
    using assms(2,5,8) s2
    by (simp add: d1 d destroy_xdp_decap_def getPinnedBpfObject_def bpfMapDeleteElement_def
        bpfMapLookupElement_def s3_def open_fd_def m2_def Let_def)
  moreover have "k_maps s3 = k_maps s" "k_open s3 = ?pin # ?pin # k_open s"
    using assms(6,8) s2
    by (auto simp: s3_def upd_kmap_def open_fd_def m2_def alist_delete_new)
  ultimately show ?thesis using fd s2 by (auto simp: d1 d m2_def)
qed

text \<open>
  C27: An object configured with a pinned array of programs hangs the loaded program into its
  position of that array and into no other, and its destructor leaves every map as it was before
  the object existed, when the position was free. The two descriptors which it gets from
  bpf_obj_get on the way are never closed.
\<close>

theorem decap_pinned_roundtrip:
  assumes "xc_mapPath c \<noteq> []" "xc_detachOnExit c"
    and "new_xdp_decap w c s = XRet d" "loadXdpDecap w d = XRet d1"
    and "0 \<le> dw_pin w (xc_mapPath c)" "k_maps s (dw_pin w (xc_mapPath c)) = Some m"
    and "kr_update (dw_refuse w) (dw_pin w (xc_mapPath c)) (key32 (xc_progPos c)) m"
    and "map_of (km_entries m) (key32 (xc_progPos c)) = None"
  shows "\<exists>d2 d3 fd. attachXdpDecap w d1 = XRet d2 \<and> destroy_xdp_decap w d2 = XRet d3
     \<and> 0 \<le> fd \<and> ld_progs (xdc_loader d2) ''xdpdecap'' = Some fd
     \<and> k_maps (xdc_sys d2) = (k_maps s)(dw_pin w (xc_mapPath c) \<mapsto>
         m\<lparr>km_entries := km_entries m @ [(key32 (xc_progPos c), key32 fd)]\<rparr>)
     \<and> k_maps (xdc_sys d3) = k_maps s \<and> xdc_sent d3 = []
     \<and> k_open (xdc_sys d3) = dw_pin w (xc_mapPath c) # dw_pin w (xc_mapPath c) # k_open s"
  by (rule decap_pinned [OF assms])

section \<open>A machine\<close>

definition w_object :: bpf_object where
  "w_object = \<lparr>bo_progs = [''xdpdecap''], bo_maps = [''decap_counters'', ''tpr_server_id''],
     bo_prog_fd = (\<lambda>_. 7), bo_map_fd = (\<lambda>n. if n = ''decap_counters'' then 8 else 9),
     bo_reuse_ok = (\<lambda>_ _. True), bo_inner_ok = (\<lambda>_ _. True), bo_load_ok = True, bo_types_ok = True\<rparr>"

definition w_refuse :: krefuse where
  "w_refuse = \<lparr>kr_update = (\<lambda>_ _ _. True), kr_batch = (\<lambda>_ kvs _. (length kvs, False)),
     kr_info = (\<lambda>_. True), kr_next = (\<lambda>_ _. None), kr_dir = (\<lambda>_. - 1), kr_detach = (\<lambda>_. None),
     kr_query_ok = False, kr_prog_fd = (\<lambda>_. - 1), kr_detach2 = (\<lambda>_. False), kr_prog_name = (\<lambda>_. None)\<rparr>"

definition w_world :: dworld where
  "w_world = \<lparr>dw_ifindex = (\<lambda>_. 1), dw_pin = (\<lambda>_. 5), dw_file = (\<lambda>_. Some w_object),
     dw_sock = (\<lambda>_. \<lparr>ns_open = True, ns_bind = True, ns_send = True, ns_answers = [(36, 0)]\<rparr>),
     dw_now = 0, dw_refuse = w_refuse, dw_cpus = 2\<rparr>"

definition w_counts :: "decap_stats list" where
  "w_counts = [\<lparr>ds_v4 = 1, ds_v6 = 2, ds_total = 3, ds_tpr_misrouted = 0, ds_tpr_total = 4\<rparr>,
     \<lparr>ds_v4 = 10, ds_v6 = 0, ds_total = 11, ds_tpr_misrouted = 1, ds_tpr_total = 2\<rparr>]"

definition w_sys :: ksys where
  "w_sys = \<lparr>k_maps = [5 \<mapsto> \<lparr>km_max_entries = 16, km_entries = [(key32 0, key32 3)]\<rparr>,
       8 \<mapsto> \<lparr>km_max_entries = 1, km_entries = [(key32 0, concat (map stats_bytes w_counts))]\<rparr>],
     k_cgroup = [], k_open = []\<rparr>"

definition w_config :: xdp_decap_config where
  "w_config = (default_decap_config ''decap.o'')\<lparr>xc_mapPath := ''/sys/fs/bpf/jmp''\<rparr>"

definition w_ctl :: xdp_decap where
  "w_ctl = (case new_xdp_decap w_world w_config w_sys of XRet d \<Rightarrow>
     (case loadXdpDecap w_world d of XRet d1 \<Rightarrow> d1))"

lemmas w_defs = w_object_def w_refuse_def w_world_def w_counts_def w_sys_def w_config_def
  default_decap_config_def kDefaultProgPos_def

lemma w_ctl_eq:
  "new_xdp_decap w_world w_config w_sys = XRet (w_ctl\<lparr>xdc_isLoaded := False, xdc_loader := new_loader\<rparr>)"
  "loadXdpDecap w_world (w_ctl\<lparr>xdc_isLoaded := False, xdc_loader := new_loader\<rparr>) = XRet w_ctl"
  "xdc_isLoaded w_ctl" "xdc_sys w_ctl = w_sys" "ld_maps (xdc_loader w_ctl) ''decap_counters'' = Some 8"
  by (simp_all add: w_ctl_def new_xdp_decap_def loadXdpDecap_def loadBpfFile_def loadBpfObject_def
      w_object_def w_world_def w_config_def default_decap_config_def new_loader_def Let_def
      add_progs_eq add_maps_eq add_progs_def set_current_eq set_inner_def ld_getProgFdByName_def
      ld_getMapFdByName_def ld_kSuccess_def)

theorem decap_stats_summed_witness:
  "getXdpDecapStats w_world w_ctl =
     \<lparr>ds_v4 = 11, ds_v6 = 2, ds_total = 14, ds_tpr_misrouted = 1, ds_tpr_total = 6\<rparr>"
  using decap_stats_summed [of w_ctl w_world w_counts]
  by (simp add: w_ctl_eq w_world_def ld_getMapFdByName_def bpfMapLookupElement_def w_sys_def)
     (simp add: w_counts_def)

theorem decap_pinned_roundtrip_witness:
  "\<exists>d2 d3 fd. attachXdpDecap w_world w_ctl = XRet d2 \<and> destroy_xdp_decap w_world d2 = XRet d3
     \<and> 0 \<le> fd \<and> ld_progs (xdc_loader d2) ''xdpdecap'' = Some fd
     \<and> k_maps (xdc_sys d3) = k_maps w_sys \<and> k_open (xdc_sys d3) = [5, 5]"
proof -
  have "key32 8 \<noteq> key32 0" by (simp add: key32_def le32_def)
  have c: "xc_mapPath w_config \<noteq> []" "xc_detachOnExit w_config" "xc_progPos w_config = 8"
    by (simp_all add: w_config_def default_decap_config_def kDefaultProgPos_def)
  have pin: "dw_pin w_world p = 5" for p by (simp add: w_world_def)
  have m: "k_maps w_sys (dw_pin w_world p) = Some \<lparr>km_max_entries = 16, km_entries = [(key32 0, key32 3)]\<rparr>" for p
    by (simp add: pin w_sys_def)
  have r: "kr_update (dw_refuse w_world) i k n" for i k n by (simp add: w_world_def w_refuse_def)
  have free: "map_of (km_entries \<lparr>km_max_entries = 16, km_entries = [(key32 0, key32 3)]\<rparr>) (key32 (xc_progPos w_config)) = None"
    using \<open>key32 8 \<noteq> key32 0\<close> c by simp
  have pos: "0 \<le> dw_pin w_world p" for p by (simp add: pin)
  have k0: "k_open w_sys = []" by (simp add: w_sys_def)
  obtain d2 d3 fd where "attachXdpDecap w_world w_ctl = XRet d2" "destroy_xdp_decap w_world d2 = XRet d3"
    "0 \<le> fd" "ld_progs (xdc_loader d2) ''xdpdecap'' = Some fd" "k_maps (xdc_sys d3) = k_maps w_sys" "k_open (xdc_sys d3) = [5, 5]"
    using decap_pinned_roundtrip [OF c(1,2) w_ctl_eq(1,2) pos m r free] unfolding pin k0
    by (elim exE conjE) (rule that)
  then show ?thesis by blast
qed

end
