(* ===== verification/XdpRootMain.thy ===== *)
theory XdpRootMain
  imports XdpDecapCtl
begin

text \<open>
  lib/xdproot.cpp, the tool that hangs the root program into an interface and shares its array of
  programs under a path, over the loader, the messages and the machine of theory XdpDecapCtl.
\<close>

record root_flags =
  fl_intf :: string
  fl_bpfprog :: string
  fl_bpfpath :: string
  fl_xdp_flags :: u32

record root_run =
  rr_loader :: bpf_loader
  rr_sent :: "nlmsg list"
  rr_pinned :: "(int \<times> string) list"

text \<open>pin is the result of pinning a descriptor at a path.\<close>
definition pinBpfObject :: "(int \<Rightarrow> string \<Rightarrow> int) \<Rightarrow> int \<Rightarrow> string \<Rightarrow> root_run \<Rightarrow> int \<times> root_run" where
  "pinBpfObject pin fd path x =
     (let res = pin fd path
      in (res, if res < 0 then x else x\<lparr>rr_pinned := rr_pinned x @ [(fd, path)]\<rparr>))"

definition root_attach :: "dworld \<Rightarrow> (int \<Rightarrow> string \<Rightarrow> int) \<Rightarrow> root_flags \<Rightarrow> bool \<Rightarrow> root_run \<Rightarrow> (int \<times> root_run) xdres" where
  "root_attach w pin fl shared_map_found x =
     (let prog_fd = ld_getProgFdByName ''xdp_root'' (rr_loader x) in
      if prog_fd < 0 then XRet (1, x)
      else
        let (m, res) = detachXdpProg (dw_sock w) (dw_now w) (getInterfaceIndex w (fl_intf fl)) (fl_xdp_flags fl)
        in case res of None \<Rightarrow> Blocked | Some r \<Rightarrow>
          let x = x\<lparr>rr_sent := rr_sent x @ (case m of None \<Rightarrow> [] | Some y \<Rightarrow> [y])\<rparr>
          in if r \<noteq> 0 then XRet (1, x)
             else
               let (m, res) = attachXdpProg (dw_sock w) (dw_now w) (getInterfaceIndex w (fl_intf fl)) prog_fd
                     (fl_xdp_flags fl)
               in case res of None \<Rightarrow> Blocked | Some r \<Rightarrow>
                 let x = x\<lparr>rr_sent := rr_sent x @ (case m of None \<Rightarrow> [] | Some y \<Rightarrow> [y])\<rparr>
                 in if r \<noteq> 0 then XRet (1, x)
                    else
                      let root_array = ld_getMapFdByName ''root_array'' (rr_loader x) in
                      if root_array < 0 then XRet (1, x)
                      else if \<not> shared_map_found then
                        let (res, x) = pinBpfObject pin root_array (fl_bpfpath fl) x
                        in if res < 0 then XRet (1, x) else XRet (0, x)
                      else XRet (0, x))"

text \<open>The exit status of main.\<close>
definition root_main :: "dworld \<Rightarrow> (int \<Rightarrow> string \<Rightarrow> int) \<Rightarrow> root_flags \<Rightarrow> (int \<times> root_run) xdres" where
  "root_main w pin fl =
     (let x = \<lparr>rr_loader = new_loader, rr_sent = [], rr_pinned = []\<rparr>;
          array_id = dw_pin w (fl_bpfpath fl);
          shared_map_found = (array_id > 0);
          x = (if shared_map_found
               then x\<lparr>rr_loader := snd (updateSharedMap ''root_array'' array_id (rr_loader x))\<rparr> else x)
      in case loadBpfFile (dw_file w) (fl_bpfprog fl) (rr_loader x) of
           None \<Rightarrow> Fatal
         | Some (err, ld) \<Rightarrow>
             let x = x\<lparr>rr_loader := ld\<rparr>
             in if err \<noteq> 0 then XRet (1, x) else root_attach w pin fl shared_map_found x)"

lemma load_keeps_shared:
  assumes "loadBpfFile f path ld = Some (err, ld')"
  shows "ld_shared ld' = ld_shared ld"
  using assms
  by (auto simp: loadBpfFile_def loadBpfObject_def add_progs_def set_current_eq add_progs_eq add_maps_eq
      Let_def split: option.splits if_splits)

lemma root_attach_ok:
  assumes "root_attach w pin fl found x = XRet (0, x')" "rr_sent x = []" "rr_pinned x = []"
  shows "\<exists>fd. 0 \<le> fd \<and> ld_progs (rr_loader x') ''xdp_root'' = Some fd \<and> rr_loader x' = rr_loader x
    \<and> rr_sent x' = [nl_XDP (dw_now w) (- 1) (dw_ifindex w (fl_intf fl)) (fl_xdp_flags fl),
        nl_XDP (dw_now w) (word_of_int fd) (dw_ifindex w (fl_intf fl)) (fl_xdp_flags fl)]
    \<and> rr_pinned x' = (if found then [] else [(ld_getMapFdByName ''root_array'' (rr_loader x), fl_bpfpath fl)])"
  using assms
  by (auto simp: root_attach_def detachXdpProg_def attachXdpProg_def modifyXdpProg_def getInterfaceIndex_def
      ld_getProgFdByName_def ld_kNotExists_def pinBpfObject_def Let_def split: option.splits if_splits)

text \<open>
  When the tool exits with 0 it has first taken out whatever program the interface had and then
  put in the root program it loaded, on the same interface; the array of programs is either the
  one already pinned at the path, handed to the loader as shared and not pinned again, or the one of
  the new object, pinned there once. So a second run keeps the programs registered in the array.
\<close>
theorem root_main_ok:
  assumes "root_main w pin fl = XRet (0, x)"
  shows "(\<exists>fd. 0 \<le> fd \<and> ld_progs (rr_loader x) ''xdp_root'' = Some fd
      \<and> rr_sent x = [nl_XDP (dw_now w) (- 1) (dw_ifindex w (fl_intf fl)) (fl_xdp_flags fl),
          nl_XDP (dw_now w) (word_of_int fd) (dw_ifindex w (fl_intf fl)) (fl_xdp_flags fl)])
    \<and> (if dw_pin w (fl_bpfpath fl) > 0
       then ld_shared (rr_loader x) ''root_array'' = Some (dw_pin w (fl_bpfpath fl)) \<and> rr_pinned x = []
       else ld_shared (rr_loader x) ''root_array'' = None
         \<and> rr_pinned x = [(ld_getMapFdByName ''root_array'' (rr_loader x), fl_bpfpath fl)])"
proof -
  let ?found = "dw_pin w (fl_bpfpath fl) > 0"
  define ld0 where "ld0 = (if ?found then snd (updateSharedMap ''root_array'' (dw_pin w (fl_bpfpath fl)) new_loader)
    else new_loader)"
  obtain ld where load: "loadBpfFile (dw_file w) (fl_bpfprog fl) ld0 = Some (0, ld)"
    and att: "root_attach w pin fl ?found \<lparr>rr_loader = ld, rr_sent = [], rr_pinned = []\<rparr> = XRet (0, x)"
    using assms
    by (auto simp: root_main_def ld0_def Let_def split: option.splits prod.splits if_splits)
  have "ld_shared ld ''root_array'' = (if ?found then Some (dw_pin w (fl_bpfpath fl)) else None)"
    using load_keeps_shared [OF load]
    by (simp add: ld0_def updateSharedMap_def new_loader_def kMaxSharedMapNameSize_def)
  then show ?thesis using root_attach_ok [OF att] by auto
qed

theorem root_main_ok_witness:
  "\<exists>x. root_main (w_world\<lparr>dw_pin := (\<lambda>_. - 1), dw_file := (\<lambda>_. Some (w_object\<lparr>bo_progs := [''xdp_root''],
        bo_maps := [''root_array'']\<rparr>))\<rparr>) (\<lambda>_ _. 0)
      \<lparr>fl_intf = ''eth0'', fl_bpfprog = ''xdp_root.o'', fl_bpfpath = ''/mnt/bpf/xdproot'', fl_xdp_flags = 0\<rparr>
      = XRet (0, x) \<and> rr_pinned x = [(9, ''/mnt/bpf/xdproot'')] \<and> length (rr_sent x) = 2"
proof -
  let ?w = "w_world\<lparr>dw_pin := (\<lambda>_. - 1), dw_file := (\<lambda>_. Some (w_object\<lparr>bo_progs := [''xdp_root''],
        bo_maps := [''root_array'']\<rparr>))\<rparr>"
  let ?fl = "\<lparr>fl_intf = ''eth0'', fl_bpfprog = ''xdp_root.o'', fl_bpfpath = ''/mnt/bpf/xdproot'', fl_xdp_flags = 0\<rparr>"
  have "\<exists>x. root_main ?w (\<lambda>_ _. 0) ?fl = XRet (0, x) \<and> ld_maps (rr_loader x) ''root_array'' = Some 9"
    by (simp add: root_main_def w_world_def w_object_def loadBpfFile_def loadBpfObject_def new_loader_def
        set_inner_def add_progs_def add_progs_eq add_maps_eq set_current_eq root_attach_def Let_def
        ld_kSuccess_def ld_getProgFdByName_def ld_getMapFdByName_def detachXdpProg_def attachXdpProg_def
        modifyXdpProg_def getInterfaceIndex_def NetlinkRoundtrip_def pinBpfObject_def)
  then obtain x where x: "root_main ?w (\<lambda>_ _. 0) ?fl = XRet (0, x)"
    and "ld_maps (rr_loader x) ''root_array'' = Some 9" by blast
  moreover have "dw_pin ?w p = - 1" for p by simp
  ultimately show ?thesis
    using root_main_ok [OF x] by (auto simp: ld_getMapFdByName_def)
qed

end
