(* ===== verification/TprUtil.thy ===== *)
theory TprUtil
  imports TprCtl BpfAdapter
begin

text \<open>
  The services the TCP packet router stands on: tpr/bpf_util (system calls which report an error
  code, the skeleton of a program) and the scheduling part of TPRStatsPoller.cpp. The kernel is
  the state of theory BpfAdapter. A SystemMaybe is the error code or the value; the texts of the
  errors are left out. What a system call reports in errno is an argument.
\<close>

section \<open>BpfUtil.h and BpfUtil.cpp\<close>

definition e_INVAL :: int where "e_INVAL = 22"
definition e_BUSY :: int where "e_BUSY = 16"
definition e_NOENT :: int where "e_NOENT = 2"

type_synonym 'a maybe = "int + 'a"

text \<open>None: the call succeeded.\<close>
definition setRLimit :: "int option \<Rightarrow> unit maybe" where
  "setRLimit errno = (case errno of Some savedErrno \<Rightarrow> Inl savedErrno | None \<Rightarrow> Inr ())"

definition util_init :: "bool \<Rightarrow> int option \<Rightarrow> unit maybe" where
  "util_init set_rlimit_memlock errno = (if set_rlimit_memlock then setRLimit errno else Inr ())"

definition getDirFd :: "krefuse \<Rightarrow> string \<Rightarrow> int" where
  "getDirFd r path = kr_dir r path"

text \<open>The directory is closed on every way out (SCOPE_EXIT).\<close>
definition util_attachCgroupProg ::
  "krefuse \<Rightarrow> int option \<Rightarrow> u32 \<Rightarrow> string \<Rightarrow> ksys \<Rightarrow> unit maybe \<times> ksys" where
  "util_attachCgroupProg r errno prog cgroup s =
     (let targetFd = getDirFd r cgroup in
      if targetFd < 0 then (Inl e_INVAL, s)
      else
        let s = open_fd targetFd s in
        case errno of
          Some savedErrno \<Rightarrow> (Inl savedErrno, close_fd targetFd s)
        | None \<Rightarrow> (Inr (), close_fd targetFd (s\<lparr>k_cgroup := k_cgroup s @ [prog]\<rparr>)))"

definition util_detachCgroupProg ::
  "krefuse \<Rightarrow> int \<Rightarrow> u32 \<Rightarrow> string \<Rightarrow> ksys \<Rightarrow> unit maybe \<times> ksys" where
  "util_detachCgroupProg r errno prog cgroup s =
     (let targetFd = getDirFd r cgroup in
      if targetFd < 0 then (Inl e_INVAL, s)
      else
        let (res, s) = prog_detach2 r prog (open_fd targetFd s) in
        if res \<noteq> 0 then (Inl errno, close_fd targetFd s)
        else (Inr (), close_fd targetFd s))"

definition updateMapElement ::
  "krefuse \<Rightarrow> int \<Rightarrow> int \<Rightarrow> bytes \<Rightarrow> bytes \<Rightarrow> ksys \<Rightarrow> unit maybe \<times> ksys" where
  "updateMapElement r errno mapFd key val s =
     (if mapFd < 0 then (Inl e_INVAL, s)
      else
        let (res, s) = bpfUpdateMap r mapFd (key, val) s
        in if res \<noteq> 0 then (Inl errno, s) else (Inr (), s))"

definition lookupMapElement :: "int \<Rightarrow> int \<Rightarrow> bytes \<Rightarrow> ksys \<Rightarrow> bytes maybe" where
  "lookupMapElement errno mapFd key s =
     (if mapFd < 0 then Inl e_INVAL
      else case bpfMapLookupElement mapFd key s of None \<Rightarrow> Inl errno | Some v \<Rightarrow> Inr v)"

section \<open>BpfSkeleton.h\<close>

text \<open>
  The pointer skel of the class: null, opened or also loaded. bpf_ops is what the generated
  skeleton T answers: an error code or success of open, load and attach, the descriptors of its
  program and maps once loaded.
\<close>
datatype skel_ptr = SkNull | SkOpen | SkLoaded

record bpf_ops =
  so_open :: "int option"
  so_load :: "int option"
  so_attach :: "int option"
  so_prog_fd :: int
  so_map_fd :: "string \<Rightarrow> int"

definition sk_open :: "bpf_ops \<Rightarrow> skel_ptr \<Rightarrow> unit maybe \<times> skel_ptr" where
  "sk_open t skel =
     (if skel \<noteq> SkNull then (Inl e_BUSY, skel)
      else case so_open t of Some err \<Rightarrow> (Inl err, SkNull) | None \<Rightarrow> (Inr (), SkOpen))"

definition sk_load :: "bpf_ops \<Rightarrow> skel_ptr \<Rightarrow> unit maybe \<times> skel_ptr" where
  "sk_load t skel =
     (if skel \<noteq> SkNull then
        case so_load t of Some err \<Rightarrow> (Inl err, skel) | None \<Rightarrow> (Inr (), SkLoaded)
      else (Inl e_INVAL, skel))"

definition sk_attach :: "bpf_ops \<Rightarrow> skel_ptr \<Rightarrow> unit maybe" where
  "sk_attach t skel =
     (if skel \<noteq> SkNull then
        case so_attach t of Some err \<Rightarrow> Inl err | None \<Rightarrow> Inr ()
      else Inl e_INVAL)"

text \<open>The descriptors T::destroy closes: those of the maps of a loaded skeleton.\<close>
definition sk_destroy :: "bpf_ops \<Rightarrow> string list \<Rightarrow> skel_ptr \<Rightarrow> int list" where
  "sk_destroy t maps skel = (if skel = SkLoaded then map (so_map_fd t) maps else [])"

section \<open>TPRStatsPoller.cpp: the timer\<close>

text \<open>
  The counters of the base class only go to the log. pl_timer: a timeout is pending in the event
  loop. pl_closed: the descriptors this object closed.
\<close>
datatype counter_call = Inc string | SetTo string u64

record poller =
  pl_mode :: running_mode_t
  pl_statsMapFd :: int
  pl_numCpus :: int
  pl_shutdown :: bool
  pl_timer :: bool
  pl_log :: "counter_call list"
  pl_closed :: "int list"

definition new_poller :: "running_mode_t \<Rightarrow> int \<Rightarrow> poller" where
  "new_poller m fd = \<lparr>pl_mode = m, pl_statsMapFd = fd, pl_numCpus = 0, pl_shutdown = False,
     pl_timer = False, pl_log = [], pl_closed = []\<rparr>"

definition log_call :: "counter_call list \<Rightarrow> poller \<Rightarrow> poller" where
  "log_call cs p = p\<lparr>pl_log := pl_log p @ cs\<rparr>"

definition setStatsCounters :: "tpr_stats \<Rightarrow> poller \<Rightarrow> poller" where
  "setStatsCounters st = log_call
     [SetTo ''server_id_read'' (server_id_read st), SetTo ''server_id_set'' (server_id_set st),
      SetTo ''conns_skipped'' (conns_skipped st), SetTo ''no_tcp_opt_hdr'' (no_tcp_opt_hdr st),
      SetTo ''error_bad_id'' (error_bad_id st), SetTo ''error_write_opt'' (error_write_opt st),
      SetTo ''error_sys_calls'' (error_sys_calls st),
      SetTo ''ignoring_due_to_kde'' (ignoring_due_to_kde st),
      SetTo ''new_server_opt'' (new_server_opt st), SetTo ''legacy_server_opt'' (legacy_server_opt st)]"

definition poller_shutdown :: "poller \<Rightarrow> poller" where
  "poller_shutdown p =
     (if pl_shutdown p then p
      else
        let p = p\<lparr>pl_shutdown := True\<rparr>;
            p = (if pl_statsMapFd p \<ge> 0 then p\<lparr>pl_closed := pl_closed p @ [pl_statsMapFd p]\<rparr> else p)
        in p\<lparr>pl_timer := False\<rparr>)"

text \<open>
  unset: what an array element holds which the kernel does not fill. percpu: the answer of the
  lookup. None: the lookup overflows the array (collectTPRStats of theory TprCtl).
\<close>
definition updateStatsPeriodically ::
  "(nat \<Rightarrow> tpr_stats) \<Rightarrow> tpr_stats list option \<Rightarrow> poller \<Rightarrow> poller option" where
  "updateStatsPeriodically unset percpu p =
     (if pl_shutdown p then Some p
      else
        let modeStr = (if pl_mode p = SERVER then ''server'' else ''client'');
            p = log_call [SetTo (''mode.'' @ modeStr) 1, Inc ''periodic_stats_update''] p
        in case collectTPRStats unset (pl_statsMapFd p) percpu (pl_numCpus p) of
             None \<Rightarrow> None
           | Some (Inl e) \<Rightarrow> Some p
           | Some (Inr st) \<Rightarrow> Some (setStatsCounters st p))"

definition runStatsPoller ::
  "(nat \<Rightarrow> tpr_stats) \<Rightarrow> u32 list option \<Rightarrow> tpr_stats list option \<Rightarrow> poller \<Rightarrow> (poll_error + unit) \<times> poller option" where
  "runStatsPoller unset file percpu p =
     (case getCpuCount file of
        Inl e \<Rightarrow> (Inl e, Some p)
      | Inr n \<Rightarrow>
          let p = p\<lparr>pl_numCpus := n\<rparr>
          in if pl_statsMapFd p < 0 then (Inl EINVAL, Some p)
             else (Inr (), map_option (\<lambda>p. p\<lparr>pl_timer := True\<rparr>) (updateStatsPeriodically unset percpu p)))"

definition timeoutExpired ::
  "(nat \<Rightarrow> tpr_stats) \<Rightarrow> tpr_stats list option \<Rightarrow> poller \<Rightarrow> poller option" where
  "timeoutExpired unset percpu p =
     (if pl_shutdown p then Some p
      else map_option (\<lambda>p. p\<lparr>pl_timer := True\<rparr>) (updateStatsPeriodically unset percpu p))"

text \<open>The event loop takes a pending timeout off and calls timeoutExpired; without one nothing happens.\<close>
definition tick :: "(nat \<Rightarrow> tpr_stats) \<Rightarrow> tpr_stats list option \<Rightarrow> poller \<Rightarrow> poller option" where
  "tick unset percpu p = (if pl_timer p then timeoutExpired unset percpu (p\<lparr>pl_timer := False\<rparr>) else Some p)"

fun ticks :: "(nat \<Rightarrow> tpr_stats) \<Rightarrow> tpr_stats list option list \<Rightarrow> poller \<Rightarrow> poller option" where
  "ticks unset [] p = Some p"
| "ticks unset (l # ls) p = Option.bind (tick unset l p) (ticks unset ls)"

end
