(* ===== verification/TprRouter.thy ===== *)
theory TprRouter
  imports TprUtil
begin

text \<open>
  TcpPktRouter.cpp over the services of theory TprUtil: the same operations as in theory TprCtl,
  where each service was only a yes or no, now with the skeleton, the kernel's maps and cgroup, the
  poller, the error codes and the destructor. Theory TprRouterProps shows that it
  refines the abstract one.
\<close>

record router =
  rc_mode :: running_mode_t
  rc_cgroupPath :: string
  rc_isInitialized :: bool
  rc_v6Id :: u32
  rc_kdeEnabled :: bool
  rc_serverPort :: "u32 option"
  rc_statsPoller :: "poller option"
  rc_skel :: skel_ptr
  rc_progFd :: int
  rc_exclusive_port :: u32

text \<open>
  What the calls of an operation find: the flag set_rlimit_memlock and the errno of setrlimit, the
  skeleton, the kernel's id for its program, what the kernel refuses with which errno, and for the
  poller the file of possible CPUs and the counters.
\<close>
record renv =
  re_rlimit_flag :: bool
  re_rlimit :: "int option"
  re_ops :: bpf_ops
  re_prog :: u32
  re_refuse :: krefuse
  re_attach :: "int option"
  re_errno :: int
  re_cpus :: "u32 list option"
  re_percpu :: "tpr_stats list option"
  re_unset :: "nat \<Rightarrow> tpr_stats"

definition make_router :: "u32 \<Rightarrow> running_mode_t \<Rightarrow> string \<Rightarrow> bool \<Rightarrow> u32 option \<Rightarrow> router" where
  "make_router unset_id m path kde port =
     \<lparr>rc_mode = m, rc_cgroupPath = path, rc_isInitialized = False, rc_v6Id = unset_id,
      rc_kdeEnabled = kde, rc_serverPort = port, rc_statsPoller = None, rc_skel = SkNull,
      rc_progFd = - 1, rc_exclusive_port = 0\<rparr>"

text \<open>struct server\_info in memory: two bytes, two bytes of padding, the id.\<close>
definition server_info_bytes :: "server_info \<Rightarrow> bytes" where
  "server_info_bytes si = [running_mode si, kde_enabled_field si, 0, 0] @ le32 (si_server_id si)"

definition server_info_at :: "bytes \<Rightarrow> server_info" where
  "server_info_at v = \<lparr>running_mode = rd8 v 0, kde_enabled_field = rd8 v 1, si_server_id = rd32 v 4\<rparr>"

definition kServerInfoIndex :: u32 where "kServerInfoIndex = 0"

definition rc_info :: "router \<Rightarrow> server_info" where
  "rc_info r =
     (if rc_mode r = SERVER then
        \<lparr>running_mode = running_mode_code SERVER,
         kde_enabled_field = (if rc_kdeEnabled r then 1 else 0), si_server_id = rc_v6Id r\<rparr>
      else \<lparr>running_mode = running_mode_code CLIENT, kde_enabled_field = 0, si_server_id = 0\<rparr>)"

definition rc_updateServerInfo :: "renv \<Rightarrow> router \<Rightarrow> ksys \<Rightarrow> unit maybe \<times> ksys" where
  "rc_updateServerInfo e r s =
     updateMapElement (re_refuse e) (re_errno e) (so_map_fd (re_ops e) ''server_infos'')
       (le32 kServerInfoIndex) (server_info_bytes (rc_info r)) s"

definition rc_shutdown :: "renv \<Rightarrow> router \<Rightarrow> ksys \<Rightarrow> unit maybe \<times> router \<times> ksys" where
  "rc_shutdown e r s =
     (if \<not> rc_isInitialized r then (Inr (), r, s)
      else
        let r = r\<lparr>rc_statsPoller := map_option poller_shutdown (rc_statsPoller r)\<rparr>;
            (res, s) = util_detachCgroupProg (re_refuse e) (re_errno e) (re_prog e) (rc_cgroupPath r) s
        in case res of Inl err \<Rightarrow> (Inl err, r, s)
           | Inr u \<Rightarrow> (Inr (), r\<lparr>rc_isInitialized := False\<rparr>, s))"

text \<open>The part of init behind the check of the stats map; None: the first poll overflows.\<close>
definition rc_start_poller :: "renv \<Rightarrow> int \<Rightarrow> router \<Rightarrow> ksys \<Rightarrow> (unit maybe \<times> router \<times> ksys) option" where
  "rc_start_poller e statsMapFd r s =
     (let (statsRes, p) = runStatsPoller (re_unset e) (re_cpus e) (re_percpu e) (new_poller (rc_mode r) statsMapFd)
      in case p of None \<Rightarrow> None | Some p \<Rightarrow> Some (Inr (), r\<lparr>rc_statsPoller := Some p\<rparr>, s))"

definition rc_init_stats :: "renv \<Rightarrow> bool \<Rightarrow> router \<Rightarrow> ksys \<Rightarrow> (unit maybe \<times> router \<times> ksys) option" where
  "rc_init_stats e pollStats r s =
     (let r = r\<lparr>rc_isInitialized := True\<rparr> in
      if pollStats then
        let statsMapFd = so_map_fd (re_ops e) ''tpr_stats''
        in if statsMapFd < 0 then Some (rc_shutdown e r s)
           else rc_start_poller e statsMapFd r s
      else Some (Inr (), r, s))"

definition rc_init_attach :: "renv \<Rightarrow> bool \<Rightarrow> router \<Rightarrow> ksys \<Rightarrow> (unit maybe \<times> router \<times> ksys) option" where
  "rc_init_attach e pollStats r s =
     (let (res, s) = util_attachCgroupProg (re_refuse e) (re_attach e) (re_prog e) (rc_cgroupPath r) s
      in case res of Inl err \<Rightarrow> Some (Inl err, r, s) | Inr u \<Rightarrow>
        let (res, s) = rc_updateServerInfo e r s
        in case res of Inl err \<Rightarrow> Some (Inl err, r, s) | Inr u \<Rightarrow> rc_init_stats e pollStats r s)"

definition rc_init_load :: "renv \<Rightarrow> bool \<Rightarrow> router \<Rightarrow> ksys \<Rightarrow> (unit maybe \<times> router \<times> ksys) option" where
  "rc_init_load e pollStats r s =
     (let r = (case rc_serverPort r of Some port \<Rightarrow> r\<lparr>rc_exclusive_port := port\<rparr> | None \<Rightarrow> r);
          (res, sk) = sk_load (re_ops e) (rc_skel r); r = r\<lparr>rc_skel := sk\<rparr>
      in case res of Inl err \<Rightarrow> Some (Inl err, r, s) | Inr u \<Rightarrow>
        let r = r\<lparr>rc_progFd := so_prog_fd (re_ops e)\<rparr>
        in if rc_progFd r < 0 then Some (Inl 0, r, s) else rc_init_attach e pollStats r s)"

definition rc_init :: "renv \<Rightarrow> bool \<Rightarrow> router \<Rightarrow> ksys \<Rightarrow> (unit maybe \<times> router \<times> ksys) option" where
  "rc_init e pollStats r s =
     (if rc_isInitialized r then None
      else case util_init (re_rlimit_flag e) (re_rlimit e) of Inl err \<Rightarrow> Some (Inl err, r, s) | Inr u \<Rightarrow>
        let (res, sk) = sk_open (re_ops e) (rc_skel r); r = r\<lparr>rc_skel := sk\<rparr>
        in case res of Inl err \<Rightarrow> Some (Inl err, r, s) | Inr u \<Rightarrow> rc_init_load e pollStats r s)"

definition rc_setServerIdV6 :: "renv \<Rightarrow> u32 \<Rightarrow> router \<Rightarrow> ksys \<Rightarrow> (bool \<times> router \<times> ksys) option" where
  "rc_setServerIdV6 e i r s =
     (if rc_mode r \<noteq> SERVER then None
      else if i > kMaxServerId then Some (False, r, s)
      else if rc_v6Id r = i then Some (True, r, s)
      else
        let r = r\<lparr>rc_v6Id := i\<rparr>
        in if rc_isInitialized r then
             let (res, s) = rc_updateServerInfo e r s
             in case res of Inl err \<Rightarrow> Some (False, r, s) | Inr u \<Rightarrow> Some (True, r, s)
           else Some (True, r, s))"

text \<open>Errors of the poller in its own codes.\<close>
definition rc_collectTPRStats :: "renv \<Rightarrow> router \<Rightarrow> (poll_error + tpr_stats) option" where
  "rc_collectTPRStats e r =
     (if \<not> rc_isInitialized r then Some (Inl ENOENT)
      else case rc_statsPoller r of
             None \<Rightarrow> Some (Inl ENOENT)
           | Some p \<Rightarrow>
               case getCpuCount (re_cpus e) of
                 Inl err \<Rightarrow> Some (Inl err)
               | Inr n \<Rightarrow> collectTPRStats (re_unset e) (pl_statsMapFd p) (re_percpu e) n)"

definition getBpfProgramFd :: "router \<Rightarrow> int maybe" where
  "getBpfProgramFd r = (if \<not> rc_isInitialized r then Inl e_INVAL else Inr (rc_progFd r))"

definition getServerIdFromSkSidStoreMap :: "renv \<Rightarrow> u32 \<Rightarrow> ksys \<Rightarrow> u32 maybe" where
  "getServerIdFromSkSidStoreMap e socketFd s =
     (case lookupMapElement (re_errno e) (so_map_fd (re_ops e) ''sk_sid_store'') (le32 socketFd) s of
        Inl err \<Rightarrow> Inl err
      | Inr v \<Rightarrow> Inr (rd32 v 0))"

text \<open>
  The destructor: shutdown, then the members in the reverse of their declaration, the skeleton
  before the poller. The result is the list of the descriptors closed on the way and before.
\<close>
definition router_maps :: "string list" where
  "router_maps = [''sk_sid_store'', ''tpr_stats'', ''server_infos'']"

definition destroy_router :: "renv \<Rightarrow> router \<Rightarrow> ksys \<Rightarrow> int list \<times> ksys" where
  "destroy_router e r s =
     (let (res, r, s) = rc_shutdown e r s;
          before = (case rc_statsPoller r of None \<Rightarrow> [] | Some p \<Rightarrow> pl_closed p);
          skel_fds = sk_destroy (re_ops e) router_maps (rc_skel r);
          behind = (case rc_statsPoller r of None \<Rightarrow> []
                    | Some p \<Rightarrow> drop (length (pl_closed p)) (pl_closed (poller_shutdown p)))
      in (before @ skel_fds @ behind, s))"

section \<open>Refinement of the abstract router\<close>

definition rc_abs :: "renv \<Rightarrow> router \<Rightarrow> ksys \<Rightarrow> tpr_router" where
  "rc_abs e r s =
     \<lparr>mode = rc_mode r, kdeEnabled = rc_kdeEnabled r, serverPort = rc_serverPort r, v6Id = rc_v6Id r,
      isInitialized = rc_isInitialized r, statsPoller = (rc_statsPoller r \<noteq> None),
      skel_open = (rc_skel r \<noteq> SkNull), attached = count_list (k_cgroup s) (re_prog e),
      exclusive_port = rc_exclusive_port r,
      server_infos = map_option server_info_at
        (bpfMapLookupElement (so_map_fd (re_ops e) ''server_infos'') (le32 kServerInfoIndex) s)\<rparr>"

text \<open>The yes or no of every service, as the environment decides it in a state.\<close>
definition rc_sys :: "renv \<Rightarrow> string \<Rightarrow> ksys \<Rightarrow> tpr_sys" where
  "rc_sys e path s =
     \<lparr>sys_init = (util_init (re_rlimit_flag e) (re_rlimit e) = Inr ()),
      sys_open = (so_open (re_ops e) = None), sys_load = (so_load (re_ops e) = None),
      sys_prog_fd = so_prog_fd (re_ops e),
      sys_attach = (0 \<le> getDirFd (re_refuse e) path \<and> re_attach e = None),
      sys_update = (let fd = so_map_fd (re_ops e) ''server_infos'' in
        0 \<le> fd \<and> (case k_maps s fd of None \<Rightarrow> False
          | Some m \<Rightarrow> kr_update (re_refuse e) fd (le32 kServerInfoIndex) m)),
      sys_stats_fd = so_map_fd (re_ops e) ''tpr_stats'',
      sys_detach = (0 \<le> getDirFd (re_refuse e) path \<and> kr_detach2 (re_refuse e) (re_prog e))\<rparr>"

definition rc_result :: "renv \<Rightarrow> unit maybe \<times> router \<times> ksys \<Rightarrow> bool \<times> tpr_router" where
  "rc_result e x = (case x of (res, r, s) \<Rightarrow> (\<not> isl res, rc_abs e r s))"

lemma server_info_at_bytes [simp]: "server_info_at (server_info_bytes si) = si"
proof -
  have "rd32 (server_info_bytes si) 4 = si_server_id si"
    using join32 [of "si_server_id si"]
    by (simp add: server_info_bytes_def rd32_def rd16_def rd8_def le32_def numeral_eq_Suc)
  then show ?thesis by (simp add: server_info_at_def server_info_bytes_def rd8_def)
qed

lemma rc_info_abs: "rc_info r = server_info_of (rc_abs e r s)"
  by (simp add: rc_info_def server_info_of_def rc_abs_def)

lemma rc_update_refines:
  assumes "rc_updateServerInfo e r s = (res, s')"
  shows "updateServerInfo (rc_sys e path s) (rc_abs e r s) = (\<not> isl res, rc_abs e r s')"
    and "k_cgroup s' = k_cgroup s"
  using assms
  by (auto simp: rc_updateServerInfo_def updateMapElement_def bpfUpdateMap_def updateServerInfo_def
      rc_sys_def rc_abs_def Let_def server_info_of_def rc_info_def
      bpfMapLookupElement_def upd_kmap_def put_entry_def update_conv split: option.splits if_splits prod.splits)

lemma count_list_remove1: "count_list (remove1 x xs) x = count_list xs x - 1"
  by (induction xs) auto

lemma fd_frame [simp]:
  "k_maps (open_fd fd s) = k_maps s" "k_maps (close_fd fd s) = k_maps s"
  "k_cgroup (open_fd fd s) = k_cgroup s" "k_cgroup (close_fd fd s) = k_cgroup s"
  by (simp_all add: open_fd_def close_fd_def)

lemma rc_shutdown_refines:
  assumes "rc_isInitialized r \<Longrightarrow> re_prog e \<in> set (k_cgroup s)"
  shows "rc_result e (rc_shutdown e r s) = router_shutdown (rc_sys e (rc_cgroupPath r) s0) (rc_abs e r s)"
proof (cases "rc_isInitialized r")
  case True
  let ?det = "util_detachCgroupProg (re_refuse e) (re_errno e) (re_prog e) (rc_cgroupPath r) s"
  obtain res s' where det: "?det = (res, s')" by (cases ?det)
  have "isl res = (\<not> sys_detach (rc_sys e (rc_cgroupPath r) s0)) \<and> k_maps s' = k_maps s
      \<and> k_cgroup s' = (if isl res then k_cgroup s else remove1 (re_prog e) (k_cgroup s))"
    using det assms [OF True]
    by (auto simp: util_detachCgroupProg_def prog_detach2_def rc_sys_def Let_def split: if_splits)
  then show ?thesis
    using True det
    by (cases res) (auto simp: rc_shutdown_def router_shutdown_def rc_result_def rc_abs_def
        bpfMapLookupElement_def count_list_remove1)
qed (simp add: rc_shutdown_def router_shutdown_def rc_result_def rc_abs_def)

lemma rc_attach_refines:
  assumes "util_attachCgroupProg (re_refuse e) (re_attach e) (re_prog e) path s = (res, s')"
  shows "isl res = (\<not> sys_attach (rc_sys e path s)) \<and> k_maps s' = k_maps s
      \<and> k_cgroup s' = (if isl res then k_cgroup s else k_cgroup s @ [re_prog e])"
  using assms
  by (auto simp: util_attachCgroupProg_def rc_sys_def Let_def split: if_splits option.splits)

text \<open>The stages of init behind the attachment, and behind the open skeleton.\<close>
lemma rc_poller_refines:
  assumes "snd (runStatsPoller (re_unset e) (re_cpus e) (re_percpu e) (new_poller (rc_mode r) fd)) \<noteq> None"
  shows "map_option (rc_result e) (rc_start_poller e fd r s) = Some (True, (rc_abs e r s)\<lparr>statsPoller := True\<rparr>)"
  using assms by (auto simp: rc_start_poller_def rc_result_def rc_abs_def split_beta)

lemma rc_sys_frame: "k_maps s' = k_maps s \<Longrightarrow> rc_sys e path s' = rc_sys e path s"
  by (simp add: rc_sys_def)

lemma rc_stats_refines:
  assumes "snd (runStatsPoller (re_unset e) (re_cpus e) (re_percpu e)
      (new_poller (rc_mode r) (so_map_fd (re_ops e) ''tpr_stats''))) \<noteq> None"
    and "re_prog e \<in> set (k_cgroup s)"
  shows "map_option (rc_result e) (rc_init_stats e pollStats r s) =
     (let S = rc_sys e (rc_cgroupPath r) s0; ra = (rc_abs e r s)\<lparr>isInitialized := True\<rparr>
      in if pollStats then
           if sys_stats_fd S < 0 then Some (router_shutdown S ra) else Some (True, ra\<lparr>statsPoller := True\<rparr>)
         else Some (True, ra))"
proof -
  let ?r = "r\<lparr>rc_isInitialized := True\<rparr>"
  have ra: "rc_abs e ?r s = (rc_abs e r s)\<lparr>isInitialized := True\<rparr>" by (simp add: rc_abs_def)
  have "rc_result e (rc_shutdown e ?r s) = router_shutdown (rc_sys e (rc_cgroupPath r) s0) (rc_abs e ?r s)"
    using rc_shutdown_refines [of ?r e s s0] assms(2) by simp
  then show ?thesis
    using rc_poller_refines [of e ?r "so_map_fd (re_ops e) ''tpr_stats''" s] assms(1)
    by (simp add: rc_init_stats_def Let_def ra rc_sys_def [of e "rc_cgroupPath r" s0, THEN arg_cong [of _ _ sys_stats_fd]])
      (simp add: rc_result_def ra)
qed

lemma rc_attach_stage:
  assumes "snd (runStatsPoller (re_unset e) (re_cpus e) (re_percpu e)
      (new_poller (rc_mode r) (so_map_fd (re_ops e) ''tpr_stats''))) \<noteq> None"
  shows "map_option (rc_result e) (rc_init_attach e pollStats r s) =
     (let S = rc_sys e (rc_cgroupPath r) s; ra = rc_abs e r s
      in if \<not> sys_attach S then Some (False, ra)
         else
           let ra = ra\<lparr>attached := attached ra + 1\<rparr>; (ok, ra) = updateServerInfo S ra
           in if \<not> ok then Some (False, ra)
              else
                let ra = ra\<lparr>isInitialized := True\<rparr>
                in if pollStats then
                     if sys_stats_fd S < 0 then Some (router_shutdown S ra)
                     else Some (True, ra\<lparr>statsPoller := True\<rparr>)
                   else Some (True, ra))"
proof -
  let ?S = "rc_sys e (rc_cgroupPath r) s"
  obtain res s1 where att: "util_attachCgroupProg (re_refuse e) (re_attach e) (re_prog e) (rc_cgroupPath r) s = (res, s1)"
    by fastforce
  note a = rc_attach_refines [OF att]
  obtain upd s2 where upd: "rc_updateServerInfo e r s1 = (upd, s2)" by fastforce
  have abs1: "rc_abs e r s1 = (if isl res then rc_abs e r s else (rc_abs e r s)\<lparr>attached := attached (rc_abs e r s) + 1\<rparr>)"
    using a by (simp add: rc_abs_def bpfMapLookupElement_def)
  have S1: "rc_sys e (rc_cgroupPath r) s1 = ?S" using a by (intro rc_sys_frame) simp
  note u = rc_update_refines(1) [OF upd, of "rc_cgroupPath r", unfolded S1] rc_update_refines(2) [OF upd]
  show ?thesis
  proof (cases res)
    case (Inl err)
    then show ?thesis using a abs1 att by (simp add: rc_init_attach_def rc_result_def)
  next
    case (Inr u1)
    then have "re_prog e \<in> set (k_cgroup s2)" using a u by simp
    from rc_stats_refines [OF assms this, of pollStats s]
    show ?thesis
      using a abs1 att upd u Inr
      by (cases upd) (auto simp: rc_init_attach_def rc_result_def)
  qed
qed

lemma rc_load_stage:
  assumes "rc_skel r \<noteq> SkNull"
  shows "map_option (rc_result e) (rc_init_load e pollStats r s) =
     (let S = rc_sys e (rc_cgroupPath r) s;
          r' = (case rc_serverPort r of Some port \<Rightarrow> r\<lparr>rc_exclusive_port := port\<rparr> | None \<Rightarrow> r);
          ra = rc_abs e r' s
      in if \<not> sys_load S then Some (False, ra)
         else if sys_prog_fd S < 0 then Some (False, ra)
         else map_option (rc_result e) (rc_init_attach e pollStats
           (r'\<lparr>rc_skel := SkLoaded, rc_progFd := so_prog_fd (re_ops e)\<rparr>) s))"
  using assms
  by (auto simp: rc_init_load_def sk_load_def rc_sys_def rc_result_def rc_abs_def Let_def split: option.splits)

end
