(* ===== verification/TprRouterProps.thy ===== *)
theory TprRouterProps
  imports TprRouter
begin

text \<open>
  The router over real services refines the abstract one; what its poller does over time, the
  descriptors its destructor closes, and a machine on which the hypotheses of the theorems hold.
\<close>

section \<open>The refinement\<close>

text \<open>
  C19: The router over real services does what the router over yes or no answers does. Whatever
  setrlimit, the skeleton, the cgroup directory, the attachment and the map update answer, init
  aborts in the same states, reports failure in the same cases, and leaves a state which shows the
  same skeleton, attachments, port constant, server info entry and flags; the server info is
  compared as the eight bytes in the map decode to.
\<close>

theorem router_init_refines:
  assumes "snd (runStatsPoller (re_unset e) (re_cpus e) (re_percpu e)
      (new_poller (rc_mode r) (so_map_fd (re_ops e) ''tpr_stats''))) \<noteq> None"
  shows "map_option (rc_result e) (rc_init e pollStats r s)
     = router_init (rc_sys e (rc_cgroupPath r) s) pollStats (rc_abs e r s)"
proof (cases "rc_isInitialized r \<or> util_init (re_rlimit_flag e) (re_rlimit e) \<noteq> Inr ()
    \<or> rc_skel r \<noteq> SkNull \<or> so_open (re_ops e) \<noteq> None")
  case True
  then show ?thesis
    by (cases "util_init (re_rlimit_flag e) (re_rlimit e)")
      (auto simp: rc_init_def router_init_def rc_sys_def rc_result_def rc_abs_def sk_open_def split: option.splits)
next
  case False
  let ?r = "r\<lparr>rc_skel := SkOpen\<rparr>"
  define r' where "r' = (case rc_serverPort r of Some port \<Rightarrow> ?r\<lparr>rc_exclusive_port := port\<rparr> | None \<Rightarrow> ?r)"
  define rl where "rl = r'\<lparr>rc_skel := SkLoaded, rc_progFd := so_prog_fd (re_ops e)\<rparr>"
  have "rc_init e pollStats r s = rc_init_load e pollStats ?r s"
    using False by (simp add: rc_init_def sk_open_def)
  moreover have "rc_mode rl = rc_mode r" "rc_cgroupPath rl = rc_cgroupPath r" "rc_abs e rl s = rc_abs e r' s"
    by (auto simp: rl_def r'_def rc_abs_def split: option.splits)
  moreover have "rc_abs e r' s = (case serverPort (rc_abs e r s) of
      Some port \<Rightarrow> (rc_abs e r s)\<lparr>skel_open := True, exclusive_port := port\<rparr>
    | None \<Rightarrow> (rc_abs e r s)\<lparr>skel_open := True\<rparr>)"
    by (auto simp: r'_def rc_abs_def split: option.splits)
  moreover have "\<not> isInitialized (rc_abs e r s)" "\<not> skel_open (rc_abs e r s)"
    "sys_init (rc_sys e (rc_cgroupPath r) s)" "sys_open (rc_sys e (rc_cgroupPath r) s)"
    using False by (simp_all add: rc_abs_def rc_sys_def)
  ultimately show ?thesis
    using rc_load_stage [of ?r e pollStats s] rc_attach_stage [of e rl pollStats s] assms
    by (simp add: router_init_def r'_def [symmetric] rl_def [symmetric] Let_def
        split: option.splits)
qed

section \<open>The poller over time\<close>

text \<open>The answer of a lookup has no more elements than the array of the caller.\<close>
definition fits :: "int \<Rightarrow> tpr_stats list option \<Rightarrow> bool" where
  "fits numCpus l = (case l of None \<Rightarrow> True | Some cpus \<Rightarrow> length cpus \<le> nat numCpus)"

abbreviation updates :: "poller \<Rightarrow> nat" where
  "updates p \<equiv> count_list (pl_log p) (Inc ''periodic_stats_update'')"

lemma setStatsCounters_frame [simp]:
  "pl_timer (setStatsCounters st p) = pl_timer p" "pl_closed (setStatsCounters st p) = pl_closed p"
  "pl_shutdown (setStatsCounters st p) = pl_shutdown p" "pl_numCpus (setStatsCounters st p) = pl_numCpus p"
  "pl_statsMapFd (setStatsCounters st p) = pl_statsMapFd p" "updates (setStatsCounters st p) = updates p"
  by (simp_all add: setStatsCounters_def log_call_def)

lemma collect_no_overflow: "fits n l \<Longrightarrow> collectTPRStats unset fd l n \<noteq> None"
  by (auto simp: fits_def collectTPRStats_def split: option.splits)

lemma update_step:
  assumes "fits (pl_numCpus p) l" "\<not> pl_shutdown p"
  obtains q where "updateStatsPeriodically unset l p = Some q" "pl_timer q = pl_timer p"
    "pl_closed q = pl_closed p" "\<not> pl_shutdown q" "pl_numCpus q = pl_numCpus p"
    "pl_statsMapFd q = pl_statsMapFd p" "updates q = Suc (updates p)"
  using assms collect_no_overflow [OF assms(1), of unset "pl_statsMapFd p"]
  by (fastforce simp: updateStatsPeriodically_def log_call_def Let_def split: option.splits sum.splits)

lemma ticks_alive:
  assumes "list_all (fits (pl_numCpus p)) ls" "\<not> pl_shutdown p" "pl_timer p"
  shows "\<exists>q. ticks unset ls p = Some q \<and> pl_timer q \<and> \<not> pl_shutdown q \<and> pl_closed q = pl_closed p
    \<and> pl_statsMapFd q = pl_statsMapFd p \<and> updates q = updates p + length ls"
  using assms
proof (induction ls arbitrary: p)
  case (Cons l ls)
  let ?p = "p\<lparr>pl_timer := False\<rparr>"
  obtain q where q: "updateStatsPeriodically unset l ?p = Some q"
    "pl_closed q = pl_closed p" "\<not> pl_shutdown q" "pl_numCpus q = pl_numCpus p"
    "pl_statsMapFd q = pl_statsMapFd p" "updates q = Suc (updates p)"
    by (rule update_step [of ?p l unset]) (use Cons.prems in simp_all)
  have "list_all (fits (pl_numCpus (q\<lparr>pl_timer := True\<rparr>))) ls" using Cons.prems q by simp
  from Cons.IH [OF this] show ?case
    using q Cons.prems by (simp add: tick_def timeoutExpired_def)
qed simp

lemma ticks_down: "pl_shutdown p \<Longrightarrow> \<not> pl_timer p \<Longrightarrow> ticks unset ls p = Some p"
  by (induction ls) (simp_all add: tick_def)

text \<open>
  C28: Once started the poller polls for ever: whatever the lookups of the counters answer,
  failures included, every timeout produces exactly one periodic update and schedules the next
  one, and no descriptor is closed. Shutting it down cancels the pending timeout, closes the map
  descriptor once, and no later timeout has any effect.
\<close>

theorem poller_survives_failures:
  assumes "runStatsPoller unset file first (new_poller m fd) = (Inr (), Some p)"
    and "list_all (fits (pl_numCpus p)) ls"
  shows "\<exists>q. ticks unset ls p = Some q \<and> pl_timer q \<and> updates q = Suc (length ls) \<and> pl_closed q = []
     \<and> \<not> pl_timer (poller_shutdown q) \<and> pl_closed (poller_shutdown q) = [fd]
     \<and> ticks unset later (poller_shutdown q) = Some (poller_shutdown q)
     \<and> poller_shutdown (poller_shutdown q) = poller_shutdown q"
proof -
  obtain n q0 where n: "getCpuCount file = Inr n" and fd: "0 \<le> fd" and
    q0: "updateStatsPeriodically unset first ((new_poller m fd)\<lparr>pl_numCpus := n\<rparr>) = Some q0"
    and p: "p = q0\<lparr>pl_timer := True\<rparr>"
    using assms(1) by (auto simp: runStatsPoller_def new_poller_def Let_def split: sum.splits if_splits)
  have "pl_closed q0 = [] \<and> \<not> pl_shutdown q0 \<and> pl_statsMapFd q0 = fd \<and> updates q0 = 1"
    using q0
    by (auto simp: updateStatsPeriodically_def new_poller_def log_call_def Let_def
        split: option.splits sum.splits)
  then have p': "pl_timer p" "\<not> pl_shutdown p" "pl_closed p = []" "pl_statsMapFd p = fd" "updates p = 1"
    by (simp_all add: p)
  obtain q where q: "ticks unset ls p = Some q" "pl_timer q" "\<not> pl_shutdown q" "pl_closed q = []"
    "pl_statsMapFd q = fd" "updates q = Suc (length ls)"
    using ticks_alive [OF assms(2) p'(2,1), of unset] p'(3-) by auto
  then show ?thesis
    using fd by (auto simp: poller_shutdown_def intro!: ticks_down)
qed

section \<open>The destructor\<close>

lemma runStatsPoller_frame:
  "runStatsPoller unset file l (new_poller m fd) = (x, Some p) \<Longrightarrow>
     pl_closed p = [] \<and> \<not> pl_shutdown p \<and> pl_statsMapFd p = fd"
  by (auto simp: runStatsPoller_def updateStatsPeriodically_def new_poller_def log_call_def Let_def
      setStatsCounters_def split: sum.splits option.splits if_splits)

lemma rc_shutdown_frame:
  assumes "rc_shutdown e r s = (res, r', s')" "rc_isInitialized r"
  shows "rc_statsPoller r' = map_option poller_shutdown (rc_statsPoller r)" "rc_skel r' = rc_skel r"
  using assms by (auto simp: rc_shutdown_def Let_def split: prod.splits sum.splits)

text \<open>A poller as init leaves it in the router.\<close>
definition fresh_poller :: "renv \<Rightarrow> router \<Rightarrow> bool" where
  "fresh_poller e r \<longleftrightarrow> rc_isInitialized r \<and> (\<exists>p. rc_statsPoller r = Some p \<and> pl_closed p = []
     \<and> \<not> pl_shutdown p \<and> pl_statsMapFd p = so_map_fd (re_ops e) ''tpr_stats'' \<and> 0 \<le> pl_statsMapFd p)"

lemma init_stats_fresh:
  assumes "rc_init_stats e True r s = Some (Inr (), r', s')" "rc_statsPoller r' \<noteq> None" "rc_statsPoller r = None"
  shows "fresh_poller e r' \<and> rc_skel r' = rc_skel r"
proof (cases "so_map_fd (re_ops e) ''tpr_stats'' < 0")
  case True
  then show ?thesis
    using assms rc_shutdown_frame [of e "r\<lparr>rc_isInitialized := True\<rparr>" s "Inr ()" r' s']
    by (simp add: rc_init_stats_def Let_def)
next
  case False
  then show ?thesis
    using assms runStatsPoller_frame
    by (fastforce simp: rc_init_stats_def rc_start_poller_def fresh_poller_def Let_def split: prod.splits option.splits)
qed

lemma init_attach_fresh:
  assumes "rc_init_attach e True r s = Some (Inr (), r', s')" "rc_statsPoller r' \<noteq> None" "rc_statsPoller r = None"
  shows "fresh_poller e r' \<and> rc_skel r' = rc_skel r"
  using assms init_stats_fresh [of e r _ r' s']
  by (auto simp: rc_init_attach_def split: prod.splits sum.splits)

lemma init_fresh:
  assumes "rc_init e True r s = Some (Inr (), r', s')" "rc_statsPoller r' \<noteq> None" "rc_statsPoller r = None"
  shows "fresh_poller e r' \<and> rc_skel r' = SkLoaded"
proof -
  obtain r1 where load: "rc_init_load e True r1 s = Some (Inr (), r', s')" and "rc_statsPoller r1 = None"
    using assms by (auto simp: rc_init_def Let_def split: prod.splits sum.splits if_splits)
  then obtain r2 where att: "rc_init_attach e True r2 s = Some (Inr (), r', s')"
    and "rc_statsPoller r2 = None" "rc_skel r2 = SkLoaded"
    by (auto simp: rc_init_load_def sk_load_def Let_def split: prod.splits sum.splits if_splits option.splits)
  then show ?thesis using init_attach_fresh [OF att assms(2)] by simp
qed

text \<open>
  A router which polls statistics closes the descriptor of its statistics map twice when it is
  destroyed: the poller closes the descriptor which the skeleton owns, and the skeleton closes it
  again, whether or not the program could be detached. Between the two the number can belong to
  another file.
\<close>
theorem stats_descriptor_closed_twice:
  assumes "rc_init e True (make_router u m path kde port) s = Some (Inr (), r, s')"
    and "rc_statsPoller r \<noteq> None"
  shows "2 \<le> count_list (fst (destroy_router e r s')) (so_map_fd (re_ops e) ''tpr_stats'')"
proof -
  have "rc_statsPoller (make_router u m path kde port) = None" by (simp add: make_router_def)
  note fresh = init_fresh [OF assms this]
  obtain res r2 s2 where sh: "rc_shutdown e r s' = (res, r2, s2)" by (cases "rc_shutdown e r s'")
  obtain p where p: "rc_statsPoller r = Some p" "pl_closed p = []" "\<not> pl_shutdown p"
    "pl_statsMapFd p = so_map_fd (re_ops e) ''tpr_stats''" "0 \<le> pl_statsMapFd p"
    using fresh by (auto simp: fresh_poller_def)
  have "pl_closed (poller_shutdown p) = [so_map_fd (re_ops e) ''tpr_stats'']"
    using p by (simp add: poller_shutdown_def)
  then show ?thesis
    using sh fresh rc_shutdown_frame [OF sh] p(1)
    by (simp add: destroy_router_def sk_destroy_def router_maps_def fresh_poller_def)
qed

section \<open>A machine\<close>

definition w_ops :: bpf_ops where
  "w_ops = \<lparr>so_open = None, so_load = None, so_attach = None, so_prog_fd = 10,
     so_map_fd = (\<lambda>n. if n = ''server_infos'' then 11 else if n = ''tpr_stats'' then 12 else 13)\<rparr>"

definition w_renv :: renv where
  "w_renv = \<lparr>re_rlimit_flag = True, re_rlimit = None, re_ops = w_ops, re_prog = 77,
     re_refuse = \<lparr>kr_update = (\<lambda>_ _ _. True), kr_batch = (\<lambda>_ kvs _. (length kvs, False)),
       kr_info = (\<lambda>_. True), kr_next = (\<lambda>_ _. None), kr_dir = (\<lambda>_. 4), kr_detach = (\<lambda>_. None),
       kr_query_ok = True, kr_prog_fd = (\<lambda>_. 5), kr_detach2 = (\<lambda>_. True), kr_prog_name = (\<lambda>_. None)\<rparr>,
     re_attach = None, re_errno = 1, re_cpus = Some [0, 1],
     re_percpu = Some [zero_tpr_stats, zero_tpr_stats], re_unset = (\<lambda>_. zero_tpr_stats)\<rparr>"

definition w_ksys :: ksys where
  "w_ksys = \<lparr>k_maps = [11 \<mapsto> \<lparr>km_max_entries = 1, km_entries = [(le32 0, [0, 0, 0, 0, 0, 0, 0, 0])]\<rparr>],
     k_cgroup = [5], k_open = []\<rparr>"

definition w_router :: router where
  "w_router = make_router 0 SERVER ''/cg'' True None"

lemma w_first_poll:
  "\<exists>p. runStatsPoller (re_unset w_renv) (re_cpus w_renv) (re_percpu w_renv) (new_poller SERVER 12) = (Inr (), Some p)
     \<and> pl_numCpus p = 2"
  by (simp add: w_renv_def runStatsPoller_def getCpuCount_def updateStatsPeriodically_def new_poller_def
      log_call_def collectTPRStats_def setStatsCounters_def)

lemma w_init:
  "\<exists>r s'. rc_init w_renv True w_router w_ksys = Some (Inr (), r, s') \<and> rc_statsPoller r \<noteq> None"
  using w_first_poll
  by (auto simp: w_router_def make_router_def rc_init_def util_init_def setRLimit_def sk_open_def
      rc_init_load_def sk_load_def rc_init_attach_def util_attachCgroupProg_def getDirFd_def
      rc_updateServerInfo_def updateMapElement_def bpfUpdateMap_def rc_init_stats_def rc_start_poller_def
      w_ksys_def w_ops_def w_renv_def open_fd_def close_fd_def)

theorem router_init_refines_witness:
  "map_option (rc_result w_renv) (rc_init w_renv True w_router w_ksys)
     = router_init (rc_sys w_renv ''/cg'' w_ksys) True (rc_abs w_renv w_router w_ksys)
   \<and> sys_attach (rc_sys w_renv ''/cg'' w_ksys) \<and> sys_update (rc_sys w_renv ''/cg'' w_ksys)"
proof -
  have r: "rc_mode w_router = SERVER" "rc_cgroupPath w_router = ''/cg''"
    "so_map_fd (re_ops w_renv) ''tpr_stats'' = 12"
    by (simp_all add: w_router_def make_router_def w_renv_def w_ops_def)
  have "sys_attach (rc_sys w_renv ''/cg'' w_ksys) \<and> sys_update (rc_sys w_renv ''/cg'' w_ksys)"
    by (simp add: rc_sys_def w_renv_def w_ops_def w_ksys_def getDirFd_def)
  then show ?thesis
    using router_init_refines [of w_renv w_router True w_ksys] w_first_poll by (auto simp: r)
qed

theorem poller_survives_failures_witness:
  "\<exists>p q. runStatsPoller (re_unset w_renv) (re_cpus w_renv) (re_percpu w_renv) (new_poller SERVER 12)
       = (Inr (), Some p)
     \<and> ticks (re_unset w_renv) [None, Some [zero_tpr_stats]] p = Some q \<and> pl_timer q
     \<and> updates q = 3 \<and> pl_closed (poller_shutdown q) = [12]"
proof -
  obtain p where p: "runStatsPoller (re_unset w_renv) (re_cpus w_renv) (re_percpu w_renv)
      (new_poller SERVER 12) = (Inr (), Some p)" "pl_numCpus p = 2"
    using w_first_poll by blast
  have "list_all (fits (pl_numCpus p)) [None, Some [zero_tpr_stats]]" using p by (simp add: fits_def)
  from poller_survives_failures [OF p(1) this] p(1) show ?thesis
    by (auto simp: numeral_3_eq_3)
qed

theorem stats_descriptor_closed_twice_witness:
  "\<exists>r s'. rc_init w_renv True w_router w_ksys = Some (Inr (), r, s')
     \<and> 2 \<le> count_list (fst (destroy_router w_renv r s')) 12"
proof -
  obtain r s' where i: "rc_init w_renv True w_router w_ksys = Some (Inr (), r, s')"
    and p: "rc_statsPoller r \<noteq> None"
    using w_init by blast
  have "so_map_fd (re_ops w_renv) ''tpr_stats'' = 12" by (simp add: w_renv_def w_ops_def)
  then show ?thesis
    using stats_descriptor_closed_twice [OF i [unfolded w_router_def] p] i by auto
qed

end
