(* ===== verification/PerfReader.thy ===== *)
theory PerfReader
  imports PcapProps Monitoring
begin

text \<open>
  lib/PerfBufferEventReader.cpp, which registers one handler per CPU buffer with the event loop and
  hands their events to VsoshlbEventReader (theory Pcap), the buffers of the monitor, and
  lib/MacHelpers.cpp. The perf buffer is libbpf's: the descriptors of its CPU buffers and the
  events waiting in each.
\<close>

section \<open>PerfBufferEventReader.cpp\<close>

definition isPowerOf2 :: "u64 \<Rightarrow> bool" where
  "isPowerOf2 x \<longleftrightarrow> x AND (x - 1) = 0"

record perf_buffer =
  pb_fds :: "int list"
  pb_pending :: "bytes list list"

record cpu_handler =
  ch_fd :: int
  ch_idx :: nat

text \<open>made: perf_buffer__new, None when it reports an error.\<close>
definition perf_open :: "u64 \<Rightarrow> perf_buffer option \<Rightarrow> bool \<times> cpu_handler list" where
  "perf_open pageCount made =
     (if pageCount = 0 \<or> \<not> isPowerOf2 pageCount then (False, [])
      else case made of
             None \<Rightarrow> (False, [])
           | Some pb \<Rightarrow>
               let bufCnt = length (pb_fds pb) in
               if bufCnt = 0 then (False, [])
               else (True, map (\<lambda>i. \<lparr>ch_fd = pb_fds pb ! i, ch_idx = i\<rparr>) [0..<bufCnt]))"

text \<open>
  handleEvent for every event of one buffer: its descriptor is ready, the buffer is consumed, each
  event goes to the reader's virtual handlePerfBufferEvent. event is the event id of the cut line.
\<close>
fun consume :: "nat \<Rightarrow> u32 \<Rightarrow> bytes list \<Rightarrow> pcap_msg_meta list \<Rightarrow> pcap_msg_meta list option" where
  "consume capacity event [] q = Some q"
| "consume capacity event (d # ds) q =
     Option.bind (handlePerfBufferEvent capacity event d q) (consume capacity event ds)"

definition handlerReady :: "nat \<Rightarrow> u32 \<Rightarrow> cpu_handler \<Rightarrow> perf_buffer \<times> pcap_msg_meta list
    \<Rightarrow> (perf_buffer \<times> pcap_msg_meta list) option" where
  "handlerReady capacity event h x =
     (let (pb, q) = x in
      map_option (\<lambda>q. (pb\<lparr>pb_pending := (pb_pending pb)[ch_idx h := []]\<rparr>, q))
        (consume capacity event (pb_pending pb ! ch_idx h) q))"

text \<open>The event loop runs the handlers whose descriptors are ready, in some order.\<close>
fun run_handlers :: "nat \<Rightarrow> u32 \<Rightarrow> cpu_handler list \<Rightarrow> perf_buffer \<times> pcap_msg_meta list
    \<Rightarrow> (perf_buffer \<times> pcap_msg_meta list) option" where
  "run_handlers capacity event [] x = Some x"
| "run_handlers capacity event (h # hs) x =
     Option.bind (handlerReady capacity event h x) (run_handlers capacity event hs)"

section \<open>VsoshlbMonitor.cpp: getEventBuffer\<close>

text \<open>buffers is the member of that name: the event buffers made so far.\<close>
definition getEventBuffer :: "(event_id \<times> bytes) list \<Rightarrow> event_id \<Rightarrow> bytes option" where
  "getEventBuffer buffers event =
     (if length buffers = 0 then None
      else case map_of buffers event of None \<Rightarrow> None | Some b \<Rightarrow> Some b)"

section \<open>MacHelpers.cpp\<close>

text \<open>parse is folly's MacAddress: None for the exception it throws.\<close>
definition convertMacToUint :: "(string \<Rightarrow> u8 list option) \<Rightarrow> string \<Rightarrow> u8 list" where
  "convertMacToUint parse macAddress =
     (case parse macAddress of
        None \<Rightarrow> replicate 6 0
      | Some mac_bytes \<Rightarrow> map (\<lambda>i. mac_bytes ! i) [0..<6])"

definition hex_digit :: "nat \<Rightarrow> char" where
  "hex_digit n = ''0123456789abcdef'' ! n"

definition hex_byte :: "u8 \<Rightarrow> string" where
  "hex_byte m = [hex_digit (unat m div 16), hex_digit (unat m mod 16)]"

definition convertMacToString :: "u8 list \<Rightarrow> string" where
  "convertMacToString mac =
     (if length mac \<noteq> 6 then ''unknown''
      else fold (\<lambda>m mac_string. mac_string @ hex_byte m @ '':'') mac [])"

section \<open>Powers of two\<close>

lemma nat_and_pred_even: "0 < m \<Longrightarrow> (2 * m) AND (2 * m - 1) = 2 * (m AND (m - 1 :: nat))"
proof -
  have "(2 * m) AND Suc (2 * j) = 2 * (m AND j)" for j
    using and_nat_rec [of "2 * m" "Suc (2 * j)"] by simp
  moreover assume "0 < m"
  then have "2 * m - 1 = Suc (2 * (m - 1))" by simp
  ultimately show ?thesis by metis
qed

lemma nat_and_pred_zero: "0 < n \<Longrightarrow> n AND (n - 1) = 0 \<Longrightarrow> \<exists>k. n = (2::nat) ^ k"
proof (induction n rule: less_induct)
  case (less n)
  show ?case
  proof (cases "even n")
    case True
    then obtain m where m: "n = 2 * m" "0 < m" "m < n" using less.prems by (auto elim: evenE)
    then have "m AND (m - 1) = 0" using less.prems nat_and_pred_even by simp
    then obtain k where "m = 2 ^ k" using less.IH m by blast
    then show ?thesis using m by (intro exI [of _ "Suc k"]) simp
  next
    case False
    then obtain m where m: "n = Suc (2 * m)" by (auto elim: oddE)
    then have "n AND (n - 1) = 2 * m" by (simp add: and_nat_rec [of "Suc (2 * m)" "2 * m"])
    then have "n = 2 ^ 0" using less.prems m by simp
    then show ?thesis by blast
  qed
qed

lemma power2_and_pred: "(2::nat) ^ k AND (2 ^ k - 1) = 0"
  using take_bit_eq_mask [of k "2 ^ k :: nat"] by (simp add: mask_eq_exp_minus_1 take_bit_eq_mod)

lemma isPowerOf2_iff: "isPowerOf2 x \<longleftrightarrow> x = 0 \<or> (\<exists>k<64. x = 2 ^ k)"
proof (cases "x = 0")
  case False
  then have pos: "0 < unat x" by (simp add: unat_gt_0)
  have pred: "unat (x - 1) = unat x - 1" using False by (rule unat_minus_one)
  have "isPowerOf2 x \<longleftrightarrow> unat x AND (unat x - 1) = 0"
  proof -
    have "unat (x AND (x - 1)) = (unat x AND (unat x - 1))" by (simp only: unsigned_and_eq pred)
    then show ?thesis by (metis isPowerOf2_def unat_eq_0)
  qed
  also have "\<dots> \<longleftrightarrow> (\<exists>k. unat x = 2 ^ k)"
    using nat_and_pred_zero [OF pos] power2_and_pred by metis
  also have "\<dots> \<longleftrightarrow> (\<exists>k<64. x = 2 ^ k)"
  proof
    assume "\<exists>k. unat x = 2 ^ k"
    then obtain k where k: "unat x = 2 ^ k" by blast
    have "unat x < 2 ^ 64" using unsigned_less [of x, where 'a = nat] by simp
    then have "(2::nat) ^ k < 2 ^ 64" by (simp only: k)
    then have "k < 64" by (rule power_less_imp_less_exp [rotated]) simp
    moreover have "x = 2 ^ k" using arg_cong [OF k, of "of_nat :: nat \<Rightarrow> u64"] by simp
    ultimately show "\<exists>k<64. x = 2 ^ k" by blast
  next
    assume "\<exists>k<64. x = 2 ^ k"
    then obtain k where "k < 64" "x = 2 ^ k" by blast
    have "(2::nat) ^ k < 2 ^ 64" using \<open>k < 64\<close> by (rule power_strict_increasing) simp
    then have "unat (word_of_nat (2 ^ k) :: u64) = 2 ^ k" by (simp only: unat_of_nat) simp
    then have "unat x = 2 ^ k" using \<open>x = 2 ^ k\<close> by simp
    then show "\<exists>k. unat x = 2 ^ k" by blast
  qed
  finally show ?thesis using False by simp
qed (simp add: isPowerOf2_def)

text \<open>
  The reader opens with exactly the page counts which are a power of two, one page included,
  when libbpf makes the buffer and it has a CPU buffer at all; then there is one handler for each
  CPU buffer, with its descriptor and its index.
\<close>
theorem perf_open_exact:
  "perf_open pages made =
     (if (\<exists>k<64. pages = 2 ^ k) \<and> (\<exists>pb. made = Some pb \<and> pb_fds pb \<noteq> [])
      then (True, map2 (\<lambda>fd i. \<lparr>ch_fd = fd, ch_idx = i\<rparr>) (pb_fds (the made)) [0..<length (pb_fds (the made))])
      else (False, []))"
proof -
  have "pages \<noteq> 0 \<and> isPowerOf2 pages \<longleftrightarrow> (\<exists>k<64. pages = 2 ^ k)"
    by (auto simp: isPowerOf2_iff)
  then have "pages = 0 \<or> \<not> isPowerOf2 pages \<longleftrightarrow> \<not> (\<exists>k<64. pages = 2 ^ k)" by blast
  moreover have "map (\<lambda>i. \<lparr>ch_fd = xs ! i, ch_idx = i\<rparr>) [0..<length xs] =
      map2 (\<lambda>fd i. \<lparr>ch_fd = fd, ch_idx = i\<rparr>) xs [0..<length xs]" for xs
    by (rule nth_equalityI) simp_all
  ultimately show ?thesis
    unfolding perf_open_def by (cases made) (simp_all add: Let_def)
qed

section \<open>Delivery\<close>

text \<open>The message a well-formed event becomes in the queue.\<close>
definition event_msg :: "u32 \<Rightarrow> bytes \<Rightarrow> pcap_msg_meta" where
  "event_msg event d = \<lparr>mm_msg = new_pcap_msg (Some (drop 12 d)) (rd32 d 4) (rd32 d 8), mm_event = event,
     mm_packetLimit = 0, mm_restart = False, mm_control = False, mm_stop = False, mm_shutdown = False\<rparr>"

definition complete_event :: "bytes \<Rightarrow> bool" where
  "complete_event d \<longleftrightarrow> 12 \<le> length d \<and> 12 + unat (rd32 d 8) \<le> length d"

lemma consume_complete:
  "list_all complete_event ds \<Longrightarrow> length q + length ds \<le> capacity \<Longrightarrow>
     consume capacity event ds q = Some (q @ map (event_msg event) ds)"
  by (induction ds arbitrary: q)
    (simp_all add: handlePerfBufferEvent_def complete_event_def event_msg_def Let_def)

lemma run_handlers_complete:
  assumes "list_all (list_all complete_event) (pb_pending pb)"
    and "length q + length (concat (drop i (pb_pending pb))) \<le> capacity"
    and "map ch_idx hs = [i..<length (pb_pending pb)]"
  shows "run_handlers capacity event hs (pb, q) =
    Some (pb\<lparr>pb_pending := take i (pb_pending pb) @ replicate (length (pb_pending pb) - i) []\<rparr>,
      q @ map (event_msg event) (concat (drop i (pb_pending pb))))"
  using assms
proof (induction hs arbitrary: i pb q)
  case Nil
  then have "length (pb_pending pb) \<le> i" by (metis list.simps(8) upt_eq_Nil_conv zero_le)
  then show ?case by (cases pb) simp
next
  case (Cons h hs)
  let ?ps = "pb_pending pb" and ?pb = "pb\<lparr>pb_pending := (pb_pending pb)[i := []]\<rparr>"
  have i: "ch_idx h = i" "i < length ?ps" and rest: "map ch_idx hs = [Suc i..<length ?ps]"
    using Cons.prems(3) [symmetric] by (auto simp: upt_eq_Cons_conv)
  have ds: "drop i ?ps = ?ps ! i # drop (Suc i) ?ps" using i by (simp add: Cons_nth_drop_Suc)
  have "consume capacity event (?ps ! i) q = Some (q @ map (event_msg event) (?ps ! i))"
    using Cons.prems i ds by (intro consume_complete) (auto simp: list_all_length)
  then have "run_handlers capacity event (h # hs) (pb, q) =
      run_handlers capacity event hs (?pb, q @ map (event_msg event) (?ps ! i))"
    by (simp add: handlerReady_def i)
  also have "\<dots> = Some (?pb\<lparr>pb_pending := take (Suc i) (pb_pending ?pb)
        @ replicate (length (pb_pending ?pb) - Suc i) []\<rparr>,
      (q @ map (event_msg event) (?ps ! i)) @ map (event_msg event) (concat (drop (Suc i) (pb_pending ?pb))))"
    by (rule Cons.IH) (use Cons.prems i ds rest in \<open>auto simp: list_all_length nth_list_update\<close>)
  also have "take (Suc i) (pb_pending ?pb) @ replicate (length (pb_pending ?pb) - Suc i) [] =
      take i ?ps @ replicate (length ?ps - i) []"
    using i by (simp add: take_Suc_conv_app_nth Suc_diff_Suc flip: replicate_Suc)
  finally show ?case using ds by simp
qed

text \<open>
  Nothing is lost between the CPU buffers and the queue of the writer: when the handlers which
  open made have all been ready once and the queue has room, every complete event of every CPU
  buffer is in the queue as a message with its own lengths and bytes, once, in the order of the
  buffers and inside one buffer in the order of the kernel, and the buffers are empty.
\<close>

theorem perf_events_delivered:
  assumes "perf_open pages (Some pb) = (True, hs)"
    and "length (pb_pending pb) = length (pb_fds pb)"
    and "list_all (list_all complete_event) (pb_pending pb)"
    and "length q + length (concat (pb_pending pb)) \<le> capacity"
  shows "run_handlers capacity event hs (pb, q) =
    Some (pb\<lparr>pb_pending := replicate (length (pb_fds pb)) []\<rparr>,
      q @ map (event_msg event) (concat (pb_pending pb)))"
proof -
  have "map ch_idx hs = [0..<length (pb_pending pb)]"
    using assms(1,2) by (auto simp: perf_open_def Let_def comp_def split: if_splits)
  then show ?thesis
    using run_handlers_complete [of pb q 0 capacity hs event] assms(2-4) by simp
qed

definition w_perf :: perf_buffer where
  "w_perf = \<lparr>pb_fds = [20, 21],
     pb_pending = [[replicate 8 0 @ [2, 0, 0, 0] @ [7, 8]], [replicate 12 0, replicate 12 0]]\<rparr>"

theorem perf_events_delivered_witness:
  "fst (perf_open 1 (Some w_perf))
   \<and> (\<exists>pb q. run_handlers 1024 0 (snd (perf_open 1 (Some w_perf))) (w_perf, []) = Some (pb, q)
        \<and> length q = 3 \<and> pb_pending pb = [[], []])"
proof -
  have o: "perf_open 1 (Some w_perf) = (True, snd (perf_open 1 (Some w_perf)))"
    by (simp add: perf_open_def isPowerOf2_def w_perf_def)
  have c: "list_all (list_all complete_event) (pb_pending w_perf)"
    by code_simp
  have "length (pb_pending w_perf) = length (pb_fds w_perf)"
    "length ([] :: pcap_msg_meta list) + length (concat (pb_pending w_perf)) \<le> 1024"
    by (simp_all add: w_perf_def)
  note run = perf_events_delivered [OF o this(1) c this(2), of 0]
  have "length (concat (pb_pending w_perf)) = 3" "length (pb_fds w_perf) = 2" by (simp_all add: w_perf_def)
  then show ?thesis
    using arg_cong [OF o, of fst] by (auto simp: run numeral_2_eq_2 simp del: length_concat)
qed

section \<open>The text of a MAC address\<close>

lemma hex_digit_inj: "i < 16 \<Longrightarrow> j < 16 \<Longrightarrow> hex_digit i = hex_digit j \<Longrightarrow> i = j"
proof -
  have d: "distinct ''0123456789abcdef''" "length ''0123456789abcdef'' = 16" by simp_all
  assume "i < 16" "j < 16" "hex_digit i = hex_digit j"
  then show ?thesis using d by (simp only: hex_digit_def nth_eq_iff_index_eq)
qed

lemma hex_byte_inj: "hex_byte a = hex_byte b \<longleftrightarrow> a = b"
proof
  assume e: "hex_byte a = hex_byte b"
  have "unat a < 256" "unat b < 256" using unsigned_less [of a, where 'a = nat] unsigned_less [of b, where 'a = nat] by simp_all
  then have "unat a div 16 = unat b div 16" "unat a mod 16 = unat b mod 16"
    using e by (auto simp: hex_byte_def intro: hex_digit_inj)
  then have "unat a = unat b" by (metis mod_mult_div_eq)
  then show "a = b" by (rule unsigned_word_eqI)
qed simp

lemma mac_fold: "fold (\<lambda>m acc. acc @ hex_byte m @ '':'') mac acc = acc @ concat (map (\<lambda>m. hex_byte m @ '':'') mac)"
  by (induction mac arbitrary: acc) simp_all

lemma mac_concat_inj:
  "length xs = length ys \<Longrightarrow>
     concat (map (\<lambda>m. hex_byte m @ '':'') xs) = concat (map (\<lambda>m. hex_byte m @ '':'') ys) \<Longrightarrow> xs = ys"
proof (induction xs ys rule: list_induct2)
  case (Cons x xs y ys)
  have "hex_byte x = hex_byte y" using Cons.prems by (simp add: hex_byte_def)
  moreover have "concat (map (\<lambda>m. hex_byte m @ '':'') xs) = concat (map (\<lambda>m. hex_byte m @ '':'') ys)"
    using Cons.prems by (simp add: hex_byte_def)
  ultimately show ?case using Cons.IH by (simp add: hex_byte_inj)
qed simp

text \<open>
  The text of a MAC address determines it: two addresses of six bytes with the same text are
  the same. The text ends with a colon behind the last byte, so that a parser which insists on the
  usual form refuses it, and reading it back then gives the address of zeros.
\<close>
theorem mac_text_injective:
  assumes "length a = 6" "length b = 6"
  shows "(convertMacToString a = convertMacToString b \<longleftrightarrow> a = b)
    \<and> length (convertMacToString a) = 18 \<and> last (convertMacToString a) = CHR '':''
    \<and> (parse (convertMacToString a) = None \<longrightarrow>
         convertMacToUint parse (convertMacToString a) = replicate 6 0)"
proof -
  have "length (concat (map (\<lambda>m. hex_byte m @ '':'') xs)) = 3 * length xs" for xs
    by (induction xs) (simp_all add: hex_byte_def)
  moreover have "xs \<noteq> [] \<Longrightarrow> last (concat (map (\<lambda>m. hex_byte m @ '':'') xs)) = CHR '':''" for xs
    by (induction xs rule: rev_induct) simp_all
  ultimately show ?thesis
    using assms mac_concat_inj [of a b]
    by (cases "a = []") (auto simp: convertMacToString_def mac_fold convertMacToUint_def)
qed

end
