(* ===== verification/LbTools.thy ===== *)
theory LbTools
  imports LbMonitor LbRoutes SimProps BpfAdapterProps PerfReader
begin

text \<open>
  The operations of VsoshlbLb.cpp that stand on other components: the fill of a map through the
  adapter, simulation through VsoshlbSimulator, the event buffers of the monitor, the callback for
  numbers of reals; and the text forms of the routing rules. Text forms of addresses belong to
  folly and are functions str.
\<close>

section \<open>Maps and rules\<close>

record bpf_map_stats =
  maxEntries :: u32
  currentEntries :: u32

definition getBpfMapStats ::
  "krefuse \<Rightarrow> (string \<Rightarrow> int) \<Rightarrow> bool \<Rightarrow> string \<Rightarrow> ksys \<Rightarrow> bpf_map_stats lbres" where
  "getBpfMapStats r fds key_too_big name s =
     (let res = getBpfMapMaxSize r fds name s
      in if res < 0 then Exn
         else
           let map_stats = \<lparr>maxEntries = word_of_int res, currentEntries = 0\<rparr>
           in case getBpfMapUsedSize r fds key_too_big name s of
                None \<Rightarrow> Diverge
              | Some res \<Rightarrow>
                  if res < 0 then Exn else Ret (map_stats\<lparr>currentEntries := word_of_int res\<rparr>))"

text \<open>The map from the text of a network to the text of its real server, in order of insertion.\<close>
definition getSrcRoutingRule :: "(ip \<Rightarrow> string) \<Rightarrow> (u8 \<Rightarrow> string) \<Rightarrow> lb \<Rightarrow> (string \<times> string) list \<times> lb" where
  "getSrcRoutingRule str len_str st =
     (if no_src_routing st then ([], st)
      else fold (\<lambda>(s_net, n) (rs, st).
             let (a, st) = num_to_real n st
             in (AList.update (str (fst s_net) @ ''/'' @ len_str (snd s_net)) (str a) rs, st))
           (lpmSrcMapping st) ([], st))"

definition setRealsIdCallback :: "lb \<Rightarrow> lb" where
  "setRealsIdCallback st = st\<lparr>realsIdCallback := True\<rparr>"

definition unsetRealsIdCallback :: "lb \<Rightarrow> lb" where
  "unsetRealsIdCallback st = st\<lparr>realsIdCallback := False\<rparr>"

section \<open>Simulation\<close>

text \<open>prog is the run of a loaded program on a packet; None: the programs are not loaded.\<close>
definition initSimulator :: "bool \<Rightarrow> int \<Rightarrow> int option" where
  "initSimulator progsLoaded prog_fd = (if \<not> progsLoaded then None else Some prog_fd)"

definition simulatePacket :: "(int \<Rightarrow> bytes \<Rightarrow> int \<times> bytes) \<Rightarrow> bool \<Rightarrow> int \<Rightarrow> bytes \<Rightarrow> bytes" where
  "simulatePacket prog progsLoaded prog_fd inPacket =
     (case initSimulator progsLoaded prog_fd of
        None \<Rightarrow> []
      | Some fd \<Rightarrow>
          (case runSimulationInternal prog fd (Some [inPacket]) of None \<Rightarrow> [] | Some out \<Rightarrow> out))"

definition lb_getRealForFlow ::
  "(int \<Rightarrow> bytes \<Rightarrow> int \<times> bytes) \<Rightarrow> env \<Rightarrow> ip_text \<Rightarrow> bool \<Rightarrow> int \<Rightarrow> bytes \<Rightarrow> vsoshlb_flow \<Rightarrow> string" where
  "lb_getRealForFlow prog e tx progsLoaded prog_fd fresh f =
     (case initSimulator progsLoaded prog_fd of
        None \<Rightarrow> []
      | Some fd \<Rightarrow> getRealForFlow prog e tx fd fresh f)"

section \<open>Event buffers\<close>

definition getVsoshlbMonitorEventBuffer :: "(event_id \<times> bytes) list \<Rightarrow> introspection \<Rightarrow> event_id \<Rightarrow> bytes option" where
  "getVsoshlbMonitorEventBuffer buffers st event =
     (case in_monitor st of None \<Rightarrow> None | Some mo \<Rightarrow> getEventBuffer buffers event)"

definition getWriterEnabledEvents :: "monitor \<Rightarrow> event_id set" where
  "getWriterEnabledEvents mo = enabledEvents (mo_writer mo)"

text \<open>The destructor of the monitor asks the writer thread to end and waits for it.\<close>
definition destroy_monitor :: "monitor \<Rightarrow> monitor" where
  "destroy_monitor = push_msg (control_msg\<lparr>mm_shutdown := True\<rparr>)"

section \<open>What they give\<close>

text \<open>
  For a map that does not change meanwhile, of fewer than 2^31 entries at most and within its limit,
  getBpfMapStats returns the limit and the number of entries, and the latter is not above the former.
\<close>
lemma map_stats_exact:
  assumes "0 \<le> fds name" "k_maps s (fds name) = Some m" "kr_info r (fds name)"
    and "distinct (map fst (km_entries m))" "\<forall>p. kr_next r (fds name) p = None"
    and "length (km_entries m) \<le> unat (km_max_entries m)" "km_max_entries m < 2 ^ 31"
  shows "\<exists>x. getBpfMapStats r fds False name s = Ret x \<and> maxEntries x = km_max_entries m
    \<and> unat (currentEntries x) = length (km_entries m) \<and> currentEntries x \<le> maxEntries x"
proof -
  let ?n = "length (km_entries m)"
  have "unat (km_max_entries m) < 2 ^ 31" using assms(7) by (simp add: word_less_nat_alt)
  then have "int (unat (km_max_entries m)) < int (2 ^ 31)" by (simp only: of_nat_less_iff)
  then have "uint (km_max_entries m) < 2 ^ 31" by simp
  moreover have "- (2 ^ 31) \<le> uint (km_max_entries m)" by (rule order_trans [of _ 0]) simp_all
  ultimately have max: "sint (km_max_entries m) = int (unat (km_max_entries m))"
    using signed_take_bit_int_eq_self [of 31 "uint (km_max_entries m)"] by (simp add: sint_uint)
  have "?n < 2 ^ 32" using assms(6) \<open>unat (km_max_entries m) < 2 ^ 31\<close> by simp
  then have n: "unat (word_of_int (int ?n) :: u32) = ?n" by (simp add: unat_of_nat)
  have "getBpfMapMaxSize r fds name s = int (unat (km_max_entries m))"
    using assms(1-3) max by (simp add: getBpfMapMaxSize_def getBpfMapInfo_def)
  moreover have "getBpfMapUsedSize r fds False name s = Some (int ?n)"
    using assms(1-5) by (rule used_size_value)
  ultimately show ?thesis
    using n assms(6) by (simp add: getBpfMapStats_def word_le_nat_alt)
qed

text \<open>Without loaded programs the simulator is not asked.\<close>
lemma simulation_needs_programs:
  "simulatePacket prog False fd p = [] \<and> lb_getRealForFlow prog e tx False fd fresh f = []"
  by (simp add: simulatePacket_def lb_getRealForFlow_def initSimulator_def)

end
