(* ===== verification/LbTables.thy ===== *)
theory LbTables
  imports LbReach BpfMaps
begin

text \<open>
  What the data plane and the health check programs find in the maps that the control plane fills
  from its own tables: the destinations of health checks, the addresses for inline decapsulation
  and the source routes. The invariant ties the maps to the tables over all histories.
\<close>

section \<open>The entries\<close>

text \<open>The entry of a health check destination; the tunnel device wants IPv4 in host order.\<close>

definition hc_entry :: "env \<Rightarrow> lb_features \<Rightarrow> ip \<Rightarrow> real_definition" where
  "hc_entry e f a =
     (if (case a of V4 _ \<Rightarrow> True | _ \<Rightarrow> False) \<and> \<not> directHealthchecking f
      then parseAddrToInt e a else parseAddrToBe e a)"

definition decap_key :: "env \<Rightarrow> ip \<Rightarrow> addr" where
  "decap_key e a = real_dst (parseAddrToBe e a)"

text \<open>The two tries of the source routes as one map.\<close>

definition src_routes :: "bst \<Rightarrow> (u32 \<times> u32) + (u32 \<times> addr) \<rightharpoonup> u32" where
  "src_routes m = case_sum (lpm_src_v4 m) (lpm_src_v6 m)"

definition rule_key :: "env \<Rightarrow> network \<Rightarrow> (u32 \<times> u32) + (u32 \<times> addr)" where
  "rule_key e net =
     (let a = real_dst (parseAddrToBe e (fst net)); n = snd net
      in case fst net of V4 _ \<Rightarrow> Inl (ucast n, lpm_mask4 (unat n) (w0 a))
         | _ \<Rightarrow> Inr (ucast n, lpm_mask6 (unat n) a))"

text \<open>The prefixes the kernel takes.\<close>

definition good_net :: "network \<Rightarrow> bool" where
  "good_net net \<longleftrightarrow> (case fst net of V4 _ \<Rightarrow> snd net \<le> 32 | _ \<Rightarrow> snd net \<le> 128)"

text \<open>
  The key of a decapsulation address is its first four words, without its family: an IPv4 address
  and the IPv6 address with the same first word and zeros behind it have the same key.
\<close>

definition keys_apart :: "env \<Rightarrow> lb \<Rightarrow> bool" where
  "keys_apart e st \<longleftrightarrow> inj_on (decap_key e) (set (decapDsts st))"

section \<open>The invariant\<close>

definition hc_follows :: "env \<Rightarrow> lb \<Rightarrow> bool" where
  "hc_follows e st \<longleftrightarrow>
     (\<forall>m. hc_reals_map st m = map_option (hc_entry e (features st)) (map_of (hcReals st) m))"

definition decap_follows :: "env \<Rightarrow> lb \<Rightarrow> bool" where
  "decap_follows e st \<longleftrightarrow> dom (decap_dst (kmaps st)) \<subseteq> decap_key e ` set (decapDsts st)"

definition decap_served :: "env \<Rightarrow> lb \<Rightarrow> bool" where
  "decap_served e st \<longleftrightarrow> decap_key e ` set (decapDsts st) \<subseteq> dom (decap_dst (kmaps st))"

definition routes_follow :: "env \<Rightarrow> lb \<Rightarrow> bool" where
  "routes_follow e st \<longleftrightarrow> (\<forall>k n. src_routes (kmaps st) k = Some n \<longrightarrow>
     (\<exists>net. good_net net \<and> map_of (lpmSrcMapping st) net = Some n \<and> rule_key e net = k))"

text \<open>With the flag q, every address for decapsulation has its entry.\<close>

definition tables_follow :: "bool \<Rightarrow> env \<Rightarrow> lb \<Rightarrow> bool" where
  "tables_follow q e st \<longleftrightarrow> all_accepted e st \<and> hc_follows e st \<and> decap_follows e st \<and>
     (q \<longrightarrow> decap_served e st) \<and> routes_follow e st"

text \<open>The part of the state the invariant reads.\<close>

definition entries :: "lb \<Rightarrow> lb_config \<times> lb_features \<times> (u32 \<times> ip) list \<times> (u32 \<rightharpoonup> real_definition)
    \<times> ip list \<times> (addr \<rightharpoonup> u32) \<times> (network \<times> u32) list \<times> ((u32 \<times> u32) + (u32 \<times> addr) \<rightharpoonup> u32)" where
  "entries st = (config st, features st, hcReals st, hc_reals_map st, decapDsts st,
     decap_dst (kmaps st), lpmSrcMapping st, src_routes (kmaps st))"

lemma entries_follow: "entries st' = entries st \<Longrightarrow> tables_follow q e st' = tables_follow q e st"
  by (auto simp: entries_def tables_follow_def hc_follows_def decap_follows_def decap_served_def routes_follow_def
      all_accepted_def)

section \<open>Operations that leave the entries alone\<close>

lemma entries_upd [simp]:
  "entries (st\<lparr>vips := a\<rparr>) = entries st" "entries (st\<lparr>vipNums := b\<rparr>) = entries st"
  "entries (st\<lparr>hcKeyNums := b\<rparr>) = entries st" "entries (st\<lparr>hckeys := d\<rparr>) = entries st"
  "entries (st\<lparr>lb_reals := f\<rparr>) = entries st" "entries (st\<lparr>realNums := b\<rparr>) = entries st"
  "entries (st\<lparr>numToReals := g\<rparr>) = entries st" "entries (st\<lparr>quicMapping := q\<rparr>) = entries st"
  "entries (st\<lparr>lbStats := l\<rparr>) = entries st" "entries (st\<lparr>ncalls := n\<rparr>) = entries st"
  "entries (st\<lparr>hc_key_map := k\<rparr>) = entries st" "entries (st\<lparr>cb_log := c\<rparr>) = entries st"
  by (simp_all add: entries_def)

lemma entries_failed [simp]: "entries (failed_call st) = entries st"
  by (simp add: failed_call_def)

lemma entries_validate [simp]: "entries (snd (validateAddress e a n st)) = entries st"
  by (simp add: validateAddress_def)

lemma entries_counted:
  assumes "\<And>s. entries (f s) = entries s"
  shows "entries (snd (counted_call e b f st)) = entries st"
  by (simp add: counted_call_def bpf_call_def Let_def assms)

lemma entries_on_kmaps:
  "decap_dst (f (kmaps s)) = decap_dst (kmaps s) \<Longrightarrow> src_routes (f (kmaps s)) = src_routes (kmaps s)
    \<Longrightarrow> entries (on_kmaps f s) = entries s"
  by (simp add: entries_def on_kmaps_def)

lemma src_routes_upd [simp]:
  "src_routes (m\<lparr>vip_map := a\<rparr>) = src_routes m" "src_routes (m\<lparr>reals := b\<rparr>) = src_routes m"
  "src_routes (m\<lparr>ch_rings := c\<rparr>) = src_routes m" "src_routes (m\<lparr>server_id_map := d\<rparr>) = src_routes m"
  "src_routes (m\<lparr>decap_dst := x\<rparr>) = src_routes m"
  by (simp_all add: src_routes_def)

lemmas entries_call = entries_counted [OF entries_on_kmaps]

lemma entries_updates [simp]:
  "entries (snd (updateVipMap e act k m st)) = entries st"
  "entries (snd (updateHcKeyMap e act k n st)) = entries st"
  "entries (snd (updateRealsMap e a n fl st)) = entries st"
  "entries (put_server_id e i n st) = entries st"
  by (simp_all add: updateVipMap_def updateHcKeyMap_def updateRealsMap_def put_server_id_def Let_def
      split_def entries_call entries_counted split: option.split)

lemma entries_reals [simp]:
  "entries (decreaseRefCountForReal a st) = entries st"
  "entries (snd (increaseRefCountForReal e a fl st)) = entries st"
  "entries (snd (num_to_real n st)) = entries st"
  by (simp_all add: decreaseRefCountForReal_def increaseRefCountForReal_def num_to_real_def Let_def
      notify_def split: option.split list.split)

lemma entries_ring [simp]: "entries (programHashRing e ps n st) = entries st"
proof -
  have k: "entries (on_kmaps (\<lambda>m. m\<lparr>ch_rings := f m\<rparr>) s) = entries s" for f s
    by (rule entries_on_kmaps) simp_all
  then have "entries (snd (counted_call e b (on_kmaps (\<lambda>m. m\<lparr>ch_rings := f m\<rparr>)) s)) = entries s" for b f s
    by (intro entries_counted)
  then show ?thesis by (simp add: programHashRing_def k Let_def split_def)
qed

lemma entries_fold:
  "(\<And>x s. entries (g (f x s)) = entries (g s)) \<Longrightarrow> entries (g (fold f xs s)) = entries (g s)"
  by (rule fold_keeps [where P = "\<lambda>t. entries (g t) = entries (g s)"]) simp_all

lemma entries_vips [simp]:
  "entries (snd (addVip e k fl st)) = entries st"
  "entries (snd (modifyVip e k fl b st)) = entries st"
  "entries (snd (changeHashFunctionForVip e k fn st)) = entries st"
  by (simp_all add: addVip_def modifyVip_def changeHashFunctionForVip_def put_vip_def Let_def split_def
      split: option.split list.split)

lemma entries_delVip [simp]: "entries (snd (delVip e k st)) = entries st"
proof -
  have "entries (fold (\<lambda>n s. decreaseRefCountForReal (fst (num_to_real n s)) (snd (num_to_real n s))) ns s)
      = entries s" for ns s
    by (rule entries_fold [of "\<lambda>x. x"]) simp
  then show ?thesis
    by (simp add: delVip_def Let_def split_def split: option.split)
qed

lemma entries_hc_keys [simp]:
  "entries (snd (addHcKey e k st)) = entries st" "entries (snd (delHcKey e k st)) = entries st"
  by (simp_all add: addHcKey_def delHcKey_def Let_def split: option.split list.split)

lemma entries_modify_step: "entries (snd (snd (modify_step e act r s))) = entries (snd (snd s))"
  by (simp add: modify_step_def split_def Let_def split: option.split)

lemma entries_modify [simp]:
  "entries (snd (modifyReal e r fl b st)) = entries st"
  "entries (snd (modifyRealsForVip e act rs k st)) = entries st"
proof -
  show "entries (snd (modifyReal e r fl b st)) = entries st"
    by (simp add: modifyReal_def Let_def split_def split: option.split)
  have "entries (snd (snd (fold (modify_step e act) rs s))) = entries (snd (snd s))" for s
    using entries_fold [of "\<lambda>s. snd (snd s)" "modify_step e act"] entries_modify_step by simp
  then show "entries (snd (modifyRealsForVip e act rs k st)) = entries st"
    by (simp add: modifyRealsForVip_def put_vip_def split_def Let_def split: option.split)
qed

lemma entries_reads [simp]:
  "entries (snd (getIndexForReal e r st)) = entries st"
  "entries (snd (getRealsForVip k st)) = entries st"
  "entries (snd (getSrcRoutingRuleCidr st)) = entries st"
  "entries (snd (getLbStats get fails n mem st)) = entries st"
proof -
  let ?f = "\<lambda>r (rs, st).
      let (a, st) = num_to_real (ep_num r) st;
          st = (if lb_reals st a = None
                then st\<lparr>lb_reals := (lb_reals st)(a \<mapsto> \<lparr>rm_num = 0, refCount = 0, rm_flags = 0\<rparr>)\<rparr> else st)
      in (rs @ [(ep_weight r, a, rm_flags (the (lb_reals st a)))], st)"
  have "entries (snd (fold ?f rs s)) = entries (snd s)" for rs s
    by (rule entries_fold [of snd ?f]) (simp add: split_def Let_def)
  then show "entries (snd (getRealsForVip k st)) = entries st"
    unfolding getRealsForVip_def by (auto simp: split_def Let_def split: option.split)
  let ?g = "\<lambda>(s_net, n) (rs, st). let (a, st) = num_to_real n st in (rs @ [(s_net, a)], st)"
  have "entries (snd (fold ?g rs s)) = entries (snd s)" for rs :: "(network \<times> u32) list" and s
    by (rule entries_fold [of snd ?g]) (simp add: split_def Let_def)
  then show "entries (snd (getSrcRoutingRuleCidr st)) = entries st"
    unfolding getSrcRoutingRuleCidr_def by (auto simp: split_def Let_def)
qed (simp_all add: getIndexForReal_def getLbStats_def split_def Let_def split: option.split)

lemma entries_quic [simp]:
  "entries (modifyQuicRealsMapping e act qs st) = entries st"
  "entries (invalidateServerIds e ids st) = entries st"
  "entries (revalidateServerIds e getIndexForReal qs st) = entries st"
proof -
  have "entries (snd (quic_step e act q s)) = entries (snd s)" for q s
    by (simp add: quic_step_def split_def Let_def split: option.split)
  then have q: "entries (snd (fold (quic_step e act) qs s)) = entries (snd s)" for s
    by (rule entries_fold)
  have "entries (fold (\<lambda>(i, n) s. put_server_id e i n s) us s) = entries s" for us s
    by (rule entries_fold [of "\<lambda>x. x"]) (simp add: split_def)
  then show "entries (modifyQuicRealsMapping e act qs st) = entries st"
    using q [of "([], st)"] by (simp add: modifyQuicRealsMapping_def split_def Let_def)
  show "entries (invalidateServerIds e ids st) = entries st"
    unfolding invalidateServerIds_def
    by (rule entries_fold [of "\<lambda>x. x"]) (simp add: entries_call)
  show "entries (revalidateServerIds e getIndexForReal qs st) = entries st"
    unfolding revalidateServerIds_def
    by (rule entries_fold [of "\<lambda>x. x"]) (simp add: split_def Let_def)
qed

section \<open>Source routes\<close>

definition others :: "lb \<Rightarrow> lb_config \<times> lb_features \<times> (u32 \<times> ip) list \<times> (u32 \<rightharpoonup> real_definition)
    \<times> ip list \<times> (addr \<rightharpoonup> u32)" where
  "others st = (config st, features st, hcReals st, hc_reals_map st, decapDsts st, decap_dst (kmaps st))"

lemma entries_others:
  "entries st' = entries st \<longleftrightarrow> others st' = others st \<and> lpmSrcMapping st' = lpmSrcMapping st \<and>
    src_routes (kmaps st') = src_routes (kmaps st)"
  by (auto simp: entries_def others_def)

lemma others_upd [simp]: "others (st\<lparr>lpmSrcMapping := x\<rparr>) = others st"
  by (simp add: others_def)

lemma lpm_rule:
  assumes "\<And>n. bpf_ok e n"
  shows "others (snd (modifyLpmSrcRule e act net n st)) = others st"
    "lpmSrcMapping (snd (modifyLpmSrcRule e act net n st)) = lpmSrcMapping st"
    "src_routes (kmaps (snd (modifyLpmSrcRule e ADD net n st))) =
      (if good_net net then (src_routes (kmaps st))(rule_key e net \<mapsto> n) else src_routes (kmaps st))"
    "src_routes (kmaps (snd (modifyLpmSrcRule e DEL net n st))) = (src_routes (kmaps st))(rule_key e net := None)"
  using assms
  by (auto simp: modifyLpmSrcRule_def others_def counted_call_def bpf_call_def on_kmaps_def failed_call_def
      Let_def src_routes_def rule_key_def good_net_def fun_eq_iff split: ip.split sum.split)

lemma follow_others:
  "others st' = others st \<Longrightarrow> routes_follow e st' \<Longrightarrow> tables_follow q e st \<Longrightarrow> tables_follow q e st'"
  by (auto simp: tables_follow_def others_def hc_follows_def decap_follows_def decap_served_def all_accepted_def)

lemma accepted_of: "tables_follow q e st \<Longrightarrow> bpf_ok e n" "tables_follow q e st \<Longrightarrow> \<not> testing (config st)"
  by (auto simp: tables_follow_def all_accepted_def)

lemma routes_add:
  assumes "routes_follow e st" "lpmSrcMapping st' = AList.update net n (lpmSrcMapping st)"
    "src_routes (kmaps st') =
      (if good_net net then (src_routes (kmaps st))(rule_key e net \<mapsto> n) else src_routes (kmaps st))"
  shows "routes_follow e st'"
  unfolding routes_follow_def
proof (intro allI impI)
  fix k m assume k: "src_routes (kmaps st') k = Some m"
  show "\<exists>net. good_net net \<and> map_of (lpmSrcMapping st') net = Some m \<and> rule_key e net = k"
  proof (cases "good_net net \<and> k = rule_key e net")
    case True
    then show ?thesis using assms k by (intro exI [of _ net]) (simp add: update_conv')
  next
    case False
    then have "src_routes (kmaps st) k = Some m" using k assms(3) by (auto split: if_splits)
    then obtain net0 where "good_net net0" "map_of (lpmSrcMapping st) net0 = Some m" "rule_key e net0 = k"
      using assms(1) unfolding routes_follow_def by blast
    then show ?thesis using False assms(2) by (intro exI [of _ net0]) (auto simp: update_conv')
  qed
qed

lemma routes_del:
  assumes "routes_follow e st" "lpmSrcMapping st' = AList.delete net (lpmSrcMapping st)"
    "src_routes (kmaps st') = (src_routes (kmaps st))(rule_key e net := None)"
  shows "routes_follow e st'"
  unfolding routes_follow_def
proof (intro allI impI)
  fix k m assume "src_routes (kmaps st') k = Some m"
  then have k: "src_routes (kmaps st) k = Some m" "k \<noteq> rule_key e net"
    using assms(3) by (auto split: if_splits)
  then obtain net0 where "good_net net0" "map_of (lpmSrcMapping st) net0 = Some m" "rule_key e net0 = k"
    using assms(1) unfolding routes_follow_def by blast
  moreover from this k(2) have "net0 \<noteq> net" by auto
  ultimately show "\<exists>net. good_net net \<and> map_of (lpmSrcMapping st') net = Some m \<and> rule_key e net = k"
    using assms(2) by (intro exI [of _ net0]) (simp add: delete_conv')
qed

lemma follow_add_rule:
  assumes "tables_follow q e st"
  shows "tables_follow q e (snd (modifyLpmSrcRule e ADD net n
      (st\<lparr>lpmSrcMapping := AList.update net n (lpmSrcMapping st)\<rparr>)))"
proof (rule follow_others [OF _ _ assms])
  show "routes_follow e (snd (modifyLpmSrcRule e ADD net n
      (st\<lparr>lpmSrcMapping := AList.update net n (lpmSrcMapping st)\<rparr>)))"
    by (rule routes_add [of e st _ net n]) (use assms in \<open>auto simp: tables_follow_def lpm_rule [OF accepted_of(1) [OF assms]]\<close>)
qed (simp only: lpm_rule(1) [OF accepted_of(1) [OF assms]] others_upd)

lemma follow_del_rule:
  assumes "tables_follow q e st" "st1 = snd (modifyLpmSrcRule e DEL net n st)"
  shows "tables_follow q e (st1\<lparr>lpmSrcMapping := AList.delete net (lpmSrcMapping st1)\<rparr>)"
proof (rule follow_others [OF _ _ assms(1)])
  note r = lpm_rule [OF accepted_of(1) [OF assms(1)], where st = st and net = net and n = n]
  show "routes_follow e (st1\<lparr>lpmSrcMapping := AList.delete net (lpmSrcMapping st1)\<rparr>)"
  proof (rule routes_del)
    show "routes_follow e st" using assms(1) by (simp add: tables_follow_def)
  qed (simp_all add: assms(2) r(2,4))
  show "others (st1\<lparr>lpmSrcMapping := AList.delete net (lpmSrcMapping st1)\<rparr>) = others st"
    by (simp only: assms(2) r(1) others_upd)
qed

lemma follow_entries: "entries st' = entries st \<Longrightarrow> tables_follow q e st \<Longrightarrow> tables_follow q e st'"
  by (drule entries_follow [of st' st q e]) simp

lemma follow_add_src_rules: "tables_follow q e st \<Longrightarrow> tables_follow q e (snd (add_src_rules e d srcs st))"
proof (induction srcs arbitrary: st)
  case (Cons net srcs)
  obtain n st1 where r: "increaseRefCountForReal e d 0 st = (n, st1)" by fastforce
  have "entries st1 = entries st" using entries_reals(2) [of e d 0 st] r by simp
  then have f: "tables_follow q e st1" using Cons.prems by (rule follow_entries)
  show ?case
    using Cons.IH [OF follow_add_rule [OF f]] Cons.prems f accepted_of(2) [OF f] by (simp add: r Let_def)
qed simp

lemma follow_parts:
  assumes "tables_follow q e st"
  shows "tables_follow q e (snd (validateAddress e a n st))" "tables_follow q e (snd (num_to_real m st))"
    "tables_follow q e (decreaseRefCountForReal d st)"
  by (rule follow_entries [OF _ assms], simp)+

lemma follow_add_cidr: "tables_follow q e st \<Longrightarrow> tables_follow q e (snd (addSrcRoutingRule_cidr e srcs d st))"
  by (simp add: addSrcRoutingRule_cidr_def split_def Let_def follow_add_src_rules follow_parts)

lemma entries_collect [simp]: "entries (snd (snd (collect_srcs e n srcs s))) = entries (snd (snd s))"
proof (induction srcs arbitrary: s)
  case (Cons a srcs)
  obtain nets k st where s: "s = (nets, k, st)" by (cases s)
  show ?case by (simp add: s split_def Let_def Cons.IH)
qed simp

lemma follow_collect:
  "tables_follow q e (snd (snd s)) \<Longrightarrow> tables_follow q e (snd (snd (collect_srcs e n srcs s)))"
  by (rule follow_entries [OF entries_collect])

lemma follow_add_src: "tables_follow q e st \<Longrightarrow> tables_follow q e (snd (addSrcRoutingRule e srcs d st))"
  by (simp add: addSrcRoutingRule_def split_def Let_def follow_add_cidr follow_parts follow_collect)

lemma follow_del_src_rule:
  assumes "tables_follow q e st"
  shows "tables_follow q e (del_src_rule e net st)"
proof (cases "map_of (lpmSrcMapping st) net")
  case (Some n)
  let ?s = "decreaseRefCountForReal (fst (num_to_real n st)) (snd (num_to_real n st))"
  have f: "tables_follow q e ?s" using assms by (simp add: follow_parts)
  then show ?thesis
    using follow_del_rule [OF f refl] accepted_of(2) [OF f] Some by (simp add: del_src_rule_def split_def Let_def)
qed (simp add: del_src_rule_def assms)

lemma follow_del_cidr: "tables_follow q e st \<Longrightarrow> tables_follow q e (snd (delSrcRoutingRule_cidr e srcs st))"
  by (simp add: delSrcRoutingRule_cidr_def fold_keeps [where P = "tables_follow q e"] follow_del_src_rule)

lemma clear_rules:
  assumes "clear_src_rules e rules st = Some st'" "\<And>n. bpf_ok e n" "\<not> testing (config st)"
  shows "others st' = others st \<and>
    src_routes (kmaps st') = (\<lambda>k. if k \<in> rule_key e ` fst ` set rules then None else src_routes (kmaps st) k)"
  using assms(1,3)
proof (induction rules arbitrary: st)
  case (Cons r rules)
  obtain net n where rn: "r = (net, n)" by (cases r)
  obtain d where d: "numToReals st n = Some d" using Cons.prems(1) by (auto simp: rn split: option.splits)
  let ?s = "decreaseRefCountForReal d st"
  let ?t = "snd (modifyLpmSrcRule e DEL net n ?s)"
  have s: "others ?s = others st" "src_routes (kmaps ?s) = src_routes (kmaps st)"
    using iffD1 [OF entries_others entries_reals(1) [of d st]] by blast+
  have o: "others ?t = others st" using lpm_rule(1) [OF assms(2)] s by simp
  then have c: "config ?t = config st" "config ?s = config st" using s by (simp_all add: others_def)
  have "clear_src_rules e rules ?t = Some st'"
    using Cons.prems c by (simp add: rn d Let_def)
  from Cons.IH [OF this] show ?case
    using Cons.prems(2) c o s lpm_rule(4) [OF assms(2)] by (auto simp: rn fun_eq_iff)
qed simp

lemma follow_clear:
  assumes "tables_follow q e st" "clearAllSrcRoutingRules e st = Some (r, st')"
  shows "tables_follow q e st'"
proof (cases "no_src_routing st")
  case True
  then show ?thesis using assms by (simp add: clearAllSrcRoutingRules_def)
next
  case False
  then obtain s where s: "clear_src_rules e (lpmSrcMapping st) st = Some s" "st' = s\<lparr>lpmSrcMapping := []\<rparr>"
    using assms(2) by (auto simp: clearAllSrcRoutingRules_def split: option.splits)
  note c = clear_rules [OF s(1) accepted_of [OF assms(1)]]
  have "src_routes (kmaps s) k = None" for k
  proof (cases "src_routes (kmaps st) k")
    case (Some n)
    then obtain net where "map_of (lpmSrcMapping st) net = Some n" "rule_key e net = k"
      using assms(1) unfolding tables_follow_def routes_follow_def by blast
    then have "k \<in> rule_key e ` fst ` set (lpmSrcMapping st)" by (force dest: map_of_SomeD)
    then show ?thesis using c by simp
  qed (use c in simp)
  then have "routes_follow e st'" by (simp add: s(2) routes_follow_def)
  then show ?thesis using follow_others [OF _ _ assms(1)] c by (simp add: s(2))
qed

section \<open>Destinations of health checks\<close>

text \<open>Adding or deleting a destination changes the table and the map together, or neither.\<close>

lemma hc_dst_entries:
  assumes "\<not> testing (config st)"
  shows "entries (snd (addHealthcheckerDst e m d st)) = entries st \<or>
    (\<exists>a. entries (snd (addHealthcheckerDst e m d st)) = entries (st\<lparr>
        hc_reals_map := (hc_reals_map st)(m \<mapsto> hc_entry e (features st) a),
        hcReals := AList.update m a (hcReals st)\<rparr>))"
    "entries (snd (delHealthcheckerDst e m st)) = entries st \<or>
      entries (snd (delHealthcheckerDst e m st)) = entries (st\<lparr>
        hc_reals_map := (hc_reals_map st)(m := None), hcReals := AList.delete m (hcReals st)\<rparr>)"
proof -
  obtain ty s where v: "validateAddress e d False st = (ty, s)" by fastforce
  have "s = snd (validateAddress e d False st)" using v by simp
  then have s: "entries s = entries st" "config s = config st" "features s = features st"
    "hcReals s = hcReals st" "hc_reals_map s = hc_reals_map st"
    using entries_validate [of e d False st] by (simp_all add: validateAddress_def)
  show "entries (snd (addHealthcheckerDst e m d st)) = entries st \<or>
    (\<exists>a. entries (snd (addHealthcheckerDst e m d st)) = entries (st\<lparr>
        hc_reals_map := (hc_reals_map st)(m \<mapsto> hc_entry e (features st) a),
        hcReals := AList.update m a (hcReals st)\<rparr>))"
    using assms s
    by (auto simp: addHealthcheckerDst_def v counted_call_def bpf_call_def hc_entry_def entries_def Let_def
        failed_call_def)
  show "entries (snd (delHealthcheckerDst e m st)) = entries st \<or>
      entries (snd (delHealthcheckerDst e m st)) = entries (st\<lparr>
        hc_reals_map := (hc_reals_map st)(m := None), hcReals := AList.delete m (hcReals st)\<rparr>)"
    using assms
    by (auto simp: delHealthcheckerDst_def counted_call_def bpf_call_def entries_def Let_def failed_call_def)
qed

lemma follow_hc:
  assumes "tables_follow q e st"
  shows "tables_follow q e (snd (addHealthcheckerDst e m d st))" "tables_follow q e (snd (delHealthcheckerDst e m st))"
proof -
  have t: "tables_follow q e (st\<lparr>hc_reals_map := r, hcReals := h\<rparr>)"
    if "\<forall>m. r m = map_option (hc_entry e (features st)) (map_of h m)" for r h
    using that assms
    by (simp add: tables_follow_def all_accepted_def decap_follows_def decap_served_def routes_follow_def hc_follows_def)
  have h: "\<forall>m. hc_reals_map st m = map_option (hc_entry e (features st)) (map_of (hcReals st) m)"
    using assms by (simp add: tables_follow_def hc_follows_def)
  note c = hc_dst_entries [OF accepted_of(2) [OF assms]]
  have "tables_follow q e (st\<lparr>hc_reals_map := (hc_reals_map st)(m \<mapsto> hc_entry e (features st) a),
      hcReals := AList.update m a (hcReals st)\<rparr>)" for a
    by (rule t) (simp add: h update_conv')
  then show "tables_follow q e (snd (addHealthcheckerDst e m d st))"
    using c(1) [of e m d] assms by (auto elim: follow_entries)
  have "tables_follow q e (st\<lparr>hc_reals_map := (hc_reals_map st)(m := None),
      hcReals := AList.delete m (hcReals st)\<rparr>)"
    by (rule t) (simp add: h delete_conv')
  then show "tables_follow q e (snd (delHealthcheckerDst e m st))"
    using c(2) [of e m] using assms by (auto elim: follow_entries)
qed

section \<open>Addresses for inline decapsulation\<close>

text \<open>Adding or deleting an address changes the table and, with the calls accepted, the map.\<close>

lemma decap_entries:
  assumes "\<And>n. bpf_ok e n" "\<not> testing (config st)"
  shows "entries (snd (addInlineDecapDst e d st)) = entries st \<or>
    (\<exists>a. entries (snd (addInlineDecapDst e d st)) = entries (st\<lparr>decapDsts := decapDsts st @ [a],
        kmaps := (kmaps st)\<lparr>decap_dst := (decap_dst (kmaps st))(decap_key e a \<mapsto> 0)\<rparr>\<rparr>))"
    "entries (snd (delInlineDecapDst e d st)) = entries st \<or>
    (\<exists>a\<in>set (decapDsts st). entries (snd (delInlineDecapDst e d st)) = entries (st\<lparr>decapDsts := removeAll a (decapDsts st),
        kmaps := (kmaps st)\<lparr>decap_dst := (decap_dst (kmaps st))(decap_key e a := None)\<rparr>\<rparr>))"
proof -
  show "entries (snd (addInlineDecapDst e d st)) = entries st \<or>
    (\<exists>a. entries (snd (addInlineDecapDst e d st)) = entries (st\<lparr>decapDsts := decapDsts st @ [a],
        kmaps := (kmaps st)\<lparr>decap_dst := (decap_dst (kmaps st))(decap_key e a \<mapsto> 0)\<rparr>\<rparr>))"
  proof (cases "no_inline_decap st \<or> parse_ip e d = None \<or> the (parse_ip e d) \<in> set (decapDsts st) \<or>
      length (decapDsts st) + 1 > unat (maxDecapDst (config st))")
    case True
    then show ?thesis using entries_validate [of e d False st]
      by (intro disjI1) (auto simp: addInlineDecapDst_def validateAddress_def less_Suc_eq_le)
  next
    case False
    then show ?thesis using assms
      by (intro disjI2 exI [of _ "the (parse_ip e d)"])
         (auto simp: addInlineDecapDst_def validateAddress_def modifyDecapDst_def counted_call_def
            bpf_call_def on_kmaps_def Let_def decap_key_def entries_def src_routes_def)
  qed
  show "entries (snd (delInlineDecapDst e d st)) = entries st \<or>
    (\<exists>a\<in>set (decapDsts st). entries (snd (delInlineDecapDst e d st)) = entries (st\<lparr>decapDsts := removeAll a (decapDsts st),
        kmaps := (kmaps st)\<lparr>decap_dst := (decap_dst (kmaps st))(decap_key e a := None)\<rparr>\<rparr>))"
  proof (cases "no_inline_decap st \<or> parse_ip e d = None \<or> the (parse_ip e d) \<notin> set (decapDsts st)")
    case True
    then show ?thesis using entries_validate [of e d False st]
      by (auto simp: delInlineDecapDst_def validateAddress_def)
  next
    case False
    let ?a = "the (parse_ip e d)"
    have "snd (delInlineDecapDst e d st)
        = snd (modifyDecapDst e DEL ?a 0 (st\<lparr>decapDsts := removeAll ?a (decapDsts st)\<rparr>))"
      using False assms(2) by (auto simp: delInlineDecapDst_def validateAddress_def Let_def)
    then show ?thesis using False assms(1)
      by (intro disjI2 bexI [of _ ?a])
         (auto simp: modifyDecapDst_def counted_call_def bpf_call_def on_kmaps_def Let_def decap_key_def
            entries_def src_routes_def failed_call_def fun_upd_idem)
  qed
qed

lemma follow_decap:
  assumes "tables_follow q e st"
  shows "tables_follow q e (snd (addInlineDecapDst e d st))"
    "(q \<Longrightarrow> keys_apart e st) \<Longrightarrow> tables_follow q e (snd (delInlineDecapDst e d st))"
proof -
  note c = decap_entries [OF accepted_of [OF assms]]
  have t: "tables_follow q e (st\<lparr>decapDsts := ds, kmaps := (kmaps st)\<lparr>decap_dst := m\<rparr>\<rparr>)"
    if "dom m \<subseteq> decap_key e ` set ds" "q \<Longrightarrow> decap_key e ` set ds \<subseteq> dom m" for ds m
    using assms that
    by (simp add: tables_follow_def all_accepted_def decap_follows_def decap_served_def routes_follow_def hc_follows_def)
  have d: "dom (decap_dst (kmaps st)) \<subseteq> decap_key e ` set (decapDsts st)"
    "q \<Longrightarrow> decap_key e ` set (decapDsts st) \<subseteq> dom (decap_dst (kmaps st))"
    using assms by (simp_all add: tables_follow_def decap_follows_def decap_served_def)
  have "tables_follow q e (st\<lparr>decapDsts := decapDsts st @ [a],
        kmaps := (kmaps st)\<lparr>decap_dst := (decap_dst (kmaps st))(decap_key e a \<mapsto> 0)\<rparr>\<rparr>)" for a
    by (rule t) (use d in auto)
  then show "tables_follow q e (snd (addInlineDecapDst e d st))"
    using c(1) [of d] assms by (auto elim: follow_entries)
  assume k: "q \<Longrightarrow> keys_apart e st"
  have "tables_follow q e (st\<lparr>decapDsts := removeAll a (decapDsts st),
        kmaps := (kmaps st)\<lparr>decap_dst := (decap_dst (kmaps st))(decap_key e a := None)\<rparr>\<rparr>)"
    if "a \<in> set (decapDsts st)" for a
    by (rule t) (use d k that in \<open>auto simp: keys_apart_def inj_on_eq_iff\<close>)
  then show "tables_follow q e (snd (delInlineDecapDst e d st))"
    using c(2) [of d] assms by (auto elim: follow_entries)
qed

section \<open>Reachable states\<close>

lemma lb_step_follow:
  assumes "lb_step e st st'" "tables_follow q e st" "q \<Longrightarrow> keys_apart e st"
  shows "tables_follow q e st'"
  using assms(1)
proof cases
  case (clear_src r)
  then show ?thesis using follow_clear assms(2) by blast
qed (use assms(2,3) in \<open>simp_all add: follow_hc follow_decap follow_add_src follow_add_cidr
      delSrcRoutingRule_def follow_del_cidr\<close>, (rule follow_entries [OF _ assms(2)], simp)+)

lemma lb_reach_follow:
  assumes "lb_reach e st0 past st" "tables_follow q e st0" "q \<Longrightarrow> \<forall>s\<in>set past. keys_apart e s"
  shows "tables_follow q e st"
  using assms
proof induction
  case (more past st st')
  then have "tables_follow q e st" by simp
  then show ?case using lb_step_follow [OF more(2)] more(5) by simp
qed simp

lemma boot_follow:
  assumes "\<And>n. bpf_ok e n" "\<not> testing c" "decap_dst k = Map.empty" "lpm_src_v4 k = Map.empty" "lpm_src_v6 k = Map.empty"
  shows "tables_follow q e (boot i c k)"
  using assms
  by (simp add: tables_follow_def all_accepted_def hc_follows_def decap_follows_def decap_served_def routes_follow_def boot_def
      src_routes_def split: sum.split)

end
