(* ===== verification/DataPaths.thy ===== *)
theory DataPaths
  imports LbTables LbProps HealthCheckProps
begin

text \<open>
  The control plane together with the programs that read its maps: a health check leaves for the
  destination that was configured for its mark, the balancer decapsulates what was addressed to a
  configured address, and a source route is found for a client inside a configured network.
\<close>

section \<open>The maps of reachable states\<close>

lemma short_prefix: "(ucast (l :: u8) :: u32) = of_nat j \<Longrightarrow> j \<le> 128 \<Longrightarrow> unat l = j"
proof -
  assume "(ucast l :: u32) = of_nat j" "j \<le> 128"
  moreover have "unat (ucast l :: u32) = unat l"
    using unsigned_less [of l, where ?'a = nat] by (simp add: unsigned_ucast_eq take_bit_nat_eq_self)
  ultimately show ?thesis by (simp add: unat_of_nat)
qed

lemma found_routes:
  assumes "routes_follow e st"
  shows "lpm_find lpm_mask4 (lpm_src_v4 (kmaps st)) a 32 = Some n \<Longrightarrow>
      \<exists>w l. map_of (lpmSrcMapping st) (V4 w, l) = Some n \<and> lpm_mask4 (unat l) w = lpm_mask4 (unat l) a"
    "lpm_find lpm_mask6 (lpm_src_v6 (kmaps st)) b 128 = Some n \<Longrightarrow>
      \<exists>x l. map_of (lpmSrcMapping st) (x, l) = Some n \<and> (\<forall>w. x \<noteq> V4 w) \<and>
        lpm_mask6 (unat l) (real_dst (parseAddrToBe e x)) = lpm_mask6 (unat l) b"
proof -
  assume "lpm_find lpm_mask4 (lpm_src_v4 (kmaps st)) a 32 = Some n"
  then obtain j where j: "j \<le> 32" "src_routes (kmaps st) (Inl (of_nat j, lpm_mask4 j a)) = Some n"
    by (auto simp: lpm_find_Some src_routes_def)
  then obtain x l where net: "map_of (lpmSrcMapping st) (x, l) = Some n"
      "rule_key e (x, l) = Inl (of_nat j, lpm_mask4 j a)"
    using assms unfolding routes_follow_def by (metis surj_pair)
  obtain w where w: "x = V4 w" using net(2) by (cases x) (auto simp: rule_key_def Let_def)
  then have "(ucast l :: u32) = of_nat j" "lpm_mask4 (unat l) w = lpm_mask4 j a"
    using net(2) by (auto simp: rule_key_def parseAddr_def)
  then show "\<exists>w l. map_of (lpmSrcMapping st) (V4 w, l) = Some n \<and> lpm_mask4 (unat l) w = lpm_mask4 (unat l) a"
    using net(1) w short_prefix [of l j] j(1) by auto
next
  assume "lpm_find lpm_mask6 (lpm_src_v6 (kmaps st)) b 128 = Some n"
  then obtain j where j: "j \<le> 128" "src_routes (kmaps st) (Inr (of_nat j, lpm_mask6 j b)) = Some n"
    by (auto simp: lpm_find_Some src_routes_def)
  then obtain x l where net: "map_of (lpmSrcMapping st) (x, l) = Some n"
      "rule_key e (x, l) = Inr (of_nat j, lpm_mask6 j b)"
    using assms unfolding routes_follow_def by (metis surj_pair)
  have w: "\<forall>w. x \<noteq> V4 w" using net(2) by (cases x) (auto simp: rule_key_def Let_def)
  then have "(ucast l :: u32) = of_nat j"
      "lpm_mask6 (unat l) (real_dst (parseAddrToBe e x)) = lpm_mask6 j b"
    using net(2) by (cases x; auto simp: rule_key_def Let_def)+
  then show "\<exists>x l. map_of (lpmSrcMapping st) (x, l) = Some n \<and> (\<forall>w. x \<noteq> V4 w) \<and>
        lpm_mask6 (unat l) (real_dst (parseAddrToBe e x)) = lpm_mask6 (unat l) b"
    using net(1) w short_prefix [of l j] j(1) by auto
qed

text \<open>
  C4: in every state the control plane reaches from its constructor, with the calls accepted, not in
  testing mode and from empty maps, the maps hold what its tables say: exactly the configured
  destinations for the health check marks; as decapsulation addresses only those of configured
  addresses, and all of them as long as no state before had two configured addresses with the same
  key (the key drops the family, so 10.0.0.1 and a00:1:: share one); and a source route that the
  balancer finds, for an IPv4 or for an IPv6 client, is the one of a configured network of that
  family which contains the client.
\<close>

theorem kernel_tables_follow:
  assumes "lb_reach e (boot i c k) past st" "\<And>n. bpf_ok e n" "\<not> testing c"
    "decap_dst k = Map.empty" "lpm_src_v4 k = Map.empty" "lpm_src_v6 k = Map.empty"
  shows "(\<forall>m. lb.hc_reals_map st m = map_option (hc_entry e (features st)) (map_of (getHealthcheckersDst st) m)) \<and>
    (\<forall>x. decap_dst (kmaps st) x \<noteq> None \<longrightarrow> x \<in> decap_key e ` set (getInlineDecapDst st)) \<and>
    ((\<forall>s\<in>set past. keys_apart e s) \<longrightarrow>
      (\<forall>a\<in>set (getInlineDecapDst st). decap_dst (kmaps st) (decap_key e a) \<noteq> None)) \<and>
    (\<forall>a n. lpm_find lpm_mask4 (lpm_src_v4 (kmaps st)) a 32 = Some n \<longrightarrow>
      (\<exists>w l. map_of (lpmSrcMapping st) (V4 w, l) = Some n \<and> lpm_mask4 (unat l) w = lpm_mask4 (unat l) a)) \<and>
    (\<forall>a n. lpm_find lpm_mask6 (lpm_src_v6 (kmaps st)) a 128 = Some n \<longrightarrow>
      (\<exists>x l. map_of (lpmSrcMapping st) (x, l) = Some n \<and> (\<forall>w. x \<noteq> V4 w) \<and>
        lpm_mask6 (unat l) (real_dst (parseAddrToBe e x)) = lpm_mask6 (unat l) a))"
proof (intro conjI allI impI ballI)
  have f: "tables_follow False e st"
    by (rule lb_reach_follow [OF assms(1) boot_follow [OF assms(2-6)]]) simp
  show "lb.hc_reals_map st m = map_option (hc_entry e (features st)) (map_of (getHealthcheckersDst st) m)" for m
    using f by (simp add: tables_follow_def hc_follows_def getHealthcheckersDst_def)
  show "x \<in> decap_key e ` set (getInlineDecapDst st)" if "decap_dst (kmaps st) x \<noteq> None" for x
    using f that by (auto simp: tables_follow_def decap_follows_def getInlineDecapDst_def)
  have r: "routes_follow e st" using f by (simp add: tables_follow_def)
  show "\<exists>w l. map_of (lpmSrcMapping st) (V4 w, l) = Some n \<and> lpm_mask4 (unat l) w = lpm_mask4 (unat l) a"
    if "lpm_find lpm_mask4 (lpm_src_v4 (kmaps st)) a 32 = Some n" for a n
    using found_routes(1) [OF r that] .
  show "\<exists>x l. map_of (lpmSrcMapping st) (x, l) = Some n \<and> (\<forall>w. x \<noteq> V4 w) \<and>
        lpm_mask6 (unat l) (real_dst (parseAddrToBe e x)) = lpm_mask6 (unat l) a"
    if "lpm_find lpm_mask6 (lpm_src_v6 (kmaps st)) a 128 = Some n" for a n
    using found_routes(2) [OF r that] .
  fix a assume "\<forall>s\<in>set past. keys_apart e s" and a: "a \<in> set (getInlineDecapDst st)"
  then have "tables_follow True e st"
    using lb_reach_follow [OF assms(1) boot_follow [OF assms(2-6)], of True] by blast
  then show "decap_dst (kmaps st) (decap_key e a) \<noteq> None"
    using a by (auto simp: tables_follow_def decap_served_def getInlineDecapDst_def)
qed

text \<open>Two configured addresses with one key: deleting the one takes the entry from the other.\<close>

theorem shared_decap_key_lost:
  assumes "decapDsts st = [V4 w, V6 (Addr w 0 0 0)]" "parse_ip e d = Some (V6 (Addr w 0 0 0))"
    "map (addr_part e (Addr w 0 0 0)) [0, 1, 2, 3] = [w, 0, 0, 0]" "inlineDecap (features st)"
    "bpf_ok e (ncalls st)" "\<not> testing (config st)" "decap_dst (kmaps st) (decap_key e (V4 w)) = Some 0"
  shows "\<exists>st'. delInlineDecapDst e d st = (True, st') \<and> getInlineDecapDst st' = [V4 w] \<and>
    decap_dst (kmaps st') (decap_key e (V4 w)) = None"
proof -
  have "real_dst (parseAddrToBe e (V6 (Addr w 0 0 0))) = real_dst (parseAddrToBe e (V4 w))"
    using assms(3) by (simp add: parseAddr_def Let_def zero_addr_def)
  then show ?thesis using assms
    by (simp add: delInlineDecapDst_def no_inline_decap_def validateAddress_def modifyDecapDst_def
        counted_call_def bpf_call_def on_kmaps_def getInlineDecapDst_def decap_key_def Let_def)
qed

section \<open>Health checks\<close>

text \<open>The health check program and the control plane share the map of destinations.\<close>

definition hc_join :: "lb \<Rightarrow> hc_state \<Rightarrow> hc_state" where
  "hc_join st hs = hs\<lparr>hc_reals_map := (\<lambda>m. map_option (\<lambda>d. \<lparr>hr_daddr = real_dst d, hr_flags = real_flags d\<rparr>)
     (lb.hc_reals_map st m))\<rparr>"

text \<open>
  What the set-up of the program and the host provide: the counter, the main interface, the MAC
  addresses and the sources are configured, the packet has its Ethernet header and is not over the
  limit, and the kernel has room for the headers.
\<close>

definition hc_ready :: "hc_config \<Rightarrow> tc_kernel \<Rightarrow> u32 \<Rightarrow> hc_state \<Rightarrow> bool" where
  "hc_ready cfg k i hs \<longleftrightarrow> hc_stats_map hs 0 \<noteq> None \<and> skb_mark (hskb hs) \<noteq> 0 \<and>
     (HC_MAX_PACKET_SIZE cfg = 0 \<or> skb_len (hskb hs) \<le> HC_MAX_PACKET_SIZE cfg) \<and>
     hc_ctrl_map hs HC_MAIN_INTF_POSITION = Some i \<and> hc_pckt_macs hs HC_SRC_MAC_POS \<noteq> None \<and>
     hc_pckt_macs hs HC_DST_MAC_POS \<noteq> None \<and> (\<forall>j m. hc_pckt_macs hs j = Some m \<longrightarrow> length m = 6) \<and>
     hc_pckt_srcs_map hs V4_SRC_INDEX \<noteq> None \<and> hc_pckt_srcs_map hs V6_SRC_INDEX \<noteq> None \<and>
     14 \<le> length (hc_data hs) \<and> (\<forall>n f p. 14 \<le> length p \<longrightarrow> adjust_room k (int n) f p \<noteq> None)"

lemma hc_make_room_total:
  assumes "room_law k" "\<forall>n f p. 14 \<le> length p \<longrightarrow> adjust_room k (int n) f p \<noteq> None" "14 \<le> length p"
  shows "\<exists>q. hc_make_room k n f p = (True, q)"
proof -
  obtain q where q: "adjust_room k (int n) f p = Some q" using assms(2,3) by blast
  then have "length q = length p + n" using room_law_grow [OF assms(1) q] by simp
  then show ?thesis using q assms(3) by (simp add: hc_make_room_def ETH_HLEN_def)
qed

lemma HC_ENCAP_total:
  assumes "room_law k" "hc_ready cfg k i hs" "hc_data st = hc_data hs" "hc_pckt_srcs_map st = hc_pckt_srcs_map hs"
  shows "\<exists>st'. HC_ENCAP cfg k real v6 st = (True, st')"
proof -
  have r: "\<exists>q. hc_make_room k n f (hc_data st) = (True, q)" for n f
    using assms by (intro hc_make_room_total) (auto simp: hc_ready_def)
  have s: "\<exists>x. hc_pckt_srcs_map st V4_SRC_INDEX = Some x" "\<exists>x. hc_pckt_srcs_map st V6_SRC_INDEX = Some x"
    using assms(2,4) by (auto simp: hc_ready_def)
  have "\<exists>st'. hc_encap_ipip cfg k real v6 st = (True, st')"
    using r [of IP6_HLEN "BPF_F_ADJ_ROOM_FIXED_GSO OR BPF_F_ADJ_ROOM_ENCAP_L3_IPV6"]
      r [of IP_HLEN "BPF_F_ADJ_ROOM_FIXED_GSO OR BPF_F_ADJ_ROOM_ENCAP_L3_IPV4"] s
    by (auto simp: hc_encap_ipip_def Let_def)
  moreover have "\<exists>st'. hc_encap_gue cfg k real v6 st = (True, st')"
    using r [of "IP6_HLEN + UDP_HLEN" "BPF_F_ADJ_ROOM_FIXED_GSO OR BPF_F_ADJ_ROOM_ENCAP_L3_IPV6 OR BPF_F_ADJ_ROOM_ENCAP_L4_UDP"]
      r [of "IP_HLEN + UDP_HLEN" "BPF_F_ADJ_ROOM_FIXED_GSO OR BPF_F_ADJ_ROOM_ENCAP_L3_IPV4 OR BPF_F_ADJ_ROOM_ENCAP_L4_UDP"] s
    by (auto simp: hc_encap_gue_def Let_def)
  ultimately show ?thesis by (simp add: HC_ENCAP_def)
qed

lemma healthcheck_redirects:
  assumes "room_law k" "hc_ready cfg k i hs" "hc_reals_map hs (skb_mark (hskb hs)) = Some real"
  shows "\<exists>hs'. healthcheck_encap cfg k hs = (Redirect i, hs')"
proof -
  define v6 where "v6 = (rd16 (hc_data hs) 12 = BE_ETH_P_IPV6)"
  let ?s0 = "hs\<lparr>hskb := (hskb hs)\<lparr>skb_mark := 0\<rparr>\<rparr>"
  obtain st1 where e: "HC_ENCAP cfg k real v6 ?s0 = (True, st1)"
    using HC_ENCAP_total [OF assms(1,2), of ?s0 real v6] by (auto simp: hc_data_def)
  have l: "14 \<le> length (hc_data st1)"
    using HC_ENCAP_correct [OF assms(1) e] by auto
  have n: "\<not> length (hc_data hs) < 14" "hc_ctrl_map hs HC_MAIN_INTF_POSITION = Some i" "hc_stats_map hs 0 \<noteq> None"
    "skb_mark (hskb hs) \<noteq> 0" "\<not> (0 < HC_MAX_PACKET_SIZE cfg \<and> HC_MAX_PACKET_SIZE cfg < skb_len (hskb hs))"
    using assms(2) by (auto simp: hc_ready_def)
  obtain esrc edst where m: "hc_pckt_macs hs HC_SRC_MAC_POS = Some esrc" "hc_pckt_macs hs HC_DST_MAC_POS = Some edst"
    using assms(2) by (auto simp: hc_ready_def)
  show ?thesis
    using n m e l assms(3)
    by (auto simp: healthcheck_encap_def hc_send_def Let_def ETH_HLEN_def v6_def split_def)
qed

text \<open>Where the outer headers of a health check lead.\<close>

definition outer_dst_is :: "env \<Rightarrow> ip \<Rightarrow> bytes \<Rightarrow> bool" where
  "outer_dst_is e a q \<longleftrightarrow>
     (case a of V4 w \<Rightarrow> rd8 q 14 = 0x45 \<and> rd32 q 30 = w
      | _ \<Rightarrow> rd8 q 14 = 0x60 \<and> rd_addr6 q 38 = real_dst (parseAddrToBe e a))"

lemma hc_outer_dst:
  assumes "hc_outer cfg k \<lparr>hr_daddr = real_dst d, hr_flags = real_flags d\<rparr> srcr len v6 q" "d = parseAddrToBe e a"
  shows "outer_dst_is e a q"
  using assms
  by (cases a) (auto simp: outer_dst_is_def hc_outer_def is_v4_hdr_def is_v6_hdr_def parseAddr_def
      LbState.V6DADDR_def HealthCheck.V6DADDR_def Let_def split: if_splits)

text \<open>
  C7: from every reachable state of the control plane, with the calls accepted, not in testing mode,
  from empty maps and with direct health checking, where the set-up of the program is complete and
  the kernel makes room for the headers as it documents, a health check whose mark has a configured destination leaves through the main interface, with its mark cleared,
  behind outer headers to exactly that destination, and as the host sent it inside.
\<close>

theorem health_check_reaches_destination:
  assumes "lb_reach e (boot i c km) past st" "\<And>n. bpf_ok e n" "\<not> testing c"
    "decap_dst km = Map.empty" "lpm_src_v4 km = Map.empty" "lpm_src_v6 km = Map.empty"
    and "directHealthchecking (features st)" "room_law k" "hc_ready cfg k ifidx hs"
    "map_of (getHealthcheckersDst st) (skb_mark (hskb hs)) = Some a"
  shows "\<exists>hs' n. healthcheck_encap cfg k (hc_join st hs) = (Redirect ifidx, hs') \<and>
    skb_mark (hskb hs') = 0 \<and> outer_dst_is e a (hc_data hs') \<and>
    drop (14 + n) (hc_data hs') = drop 14 (hc_data hs) \<and>
    n = hc_overhead cfg \<lparr>hr_daddr = decap_key e a, hr_flags = (case a of V4 _ \<Rightarrow> 0 | _ \<Rightarrow> 1)\<rparr>"
proof -
  let ?d = "parseAddrToBe e a"
  let ?real = "\<lparr>hr_daddr = real_dst ?d, hr_flags = real_flags ?d\<rparr>"
  have "tables_follow False e st"
    by (rule lb_reach_follow [OF assms(1) boot_follow [OF assms(2-6)]]) simp
  then have "lb.hc_reals_map st (skb_mark (hskb hs)) = Some ?d"
    using assms(7,10) by (simp add: tables_follow_def hc_follows_def hc_entry_def getHealthcheckersDst_def)
  then have r: "hc_reals_map (hc_join st hs) (skb_mark (hskb (hc_join st hs))) = Some ?real"
    by (simp add: hc_join_def)
  have ready: "hc_ready cfg k ifidx (hc_join st hs)"
    using assms(9) by (simp add: hc_ready_def hc_join_def hc_data_def)
  obtain hs' where out: "healthcheck_encap cfg k (hc_join st hs) = (Redirect ifidx, hs')"
    using healthcheck_redirects [OF assms(8) ready r] by blast
  have "\<forall>j m. hc_pckt_macs (hc_join st hs) j = Some m \<longrightarrow> length m = 6"
    using ready by (simp add: hc_ready_def)
  from healthcheck_redirected [OF assms(8) out this] obtain srcr where
    "skb_mark (hskb hs') = 0" "hc_outer cfg k ?real srcr (hc_payload_len cfg (hc_join st hs))
      (rd16 (hc_data (hc_join st hs)) 12 = BE_ETH_P_IPV6) (hc_data hs')"
    "drop (14 + hc_overhead cfg ?real) (hc_data hs') = drop 14 (hc_data (hc_join st hs))"
    using r by auto
  moreover have "?real = \<lparr>hr_daddr = decap_key e a, hr_flags = (case a of V4 _ \<Rightarrow> 0 | _ \<Rightarrow> 1)\<rparr>"
    by (cases a) (simp_all add: decap_key_def parseAddr_def LbState.V6DADDR_def Let_def)
  ultimately show ?thesis
    using out hc_outer_dst [OF _ refl] by (auto simp: hc_join_def hc_data_def)
qed

section \<open>An example\<close>

definition ex_direct :: init_state where
  "ex_direct = ex_init\<lparr>i_features := (i_features ex_init)\<lparr>directHealthchecking := True, inlineDecap := True\<rparr>\<rparr>"

definition ex_start :: lb where
  "ex_start = boot ex_direct ex_config (init_bst ref_config [])"

definition ex_checked :: lb where
  "ex_checked = snd (addHealthcheckerDst ex_env 5 ''10.0.0.1'' (snd (addInlineDecapDst ex_env ''10.0.0.1'' ex_start)))"

lemma ex_checked_reach: "lb_reach ex_env (boot ex_direct ex_config (init_bst ref_config []))
    [snd (addInlineDecapDst ex_env ''10.0.0.1'' ex_start), ex_start] ex_checked"
  unfolding ex_checked_def ex_start_def
  by (rule lb_reach.more [OF lb_reach.more [OF lb_reach.start lb_step.add_decap] lb_step.add_hc_dst])

lemma ex_apart: "\<forall>s\<in>set [snd (addInlineDecapDst ex_env ''10.0.0.1'' ex_start), ex_start]. keys_apart ex_env s"
  by (simp add: keys_apart_def ex_start_def boot_def ex_direct_def ex_config_def addInlineDecapDst_def
      no_inline_decap_def modifyDecapDst_def counted_call_def bpf_call_def on_kmaps_def Let_def)

lemma ex_checked_fields:
  "getHealthcheckersDst ex_checked = [(5, V4 0x0100000A)]" "getInlineDecapDst ex_checked = [V4 0x0100000A]"
  "directHealthchecking (features ex_checked)" "lpmSrcMapping ex_checked = []"
  by (simp_all add: ex_checked_def ex_start_def boot_def ex_direct_def ex_config_def addHealthcheckerDst_def
      addInlineDecapDst_def no_inline_decap_def modifyDecapDst_def counted_call_def bpf_call_def on_kmaps_def
      getHealthcheckersDst_def getInlineDecapDst_def Let_def)

lemma ex_empty:
  "\<not> testing ex_config" "decap_dst (init_bst ref_config []) = Map.empty"
  "lpm_src_v4 (init_bst ref_config []) = Map.empty" "lpm_src_v6 (init_bst ref_config []) = Map.empty"
  by (simp_all add: ex_config_def init_bst_def)

theorem kernel_tables_follow_witness:
  "lb.hc_reals_map ex_checked 5 = Some \<lparr>real_dst = Addr 0x0100000A 0 0 0, real_flags = 0\<rparr> \<and>
    lb.hc_reals_map ex_checked 6 = None \<and> decap_dst (kmaps ex_checked) (Addr 0x0100000A 0 0 0) \<noteq> None \<and>
    decap_dst (kmaps ex_checked) zero_addr = None"
proof -
  note w = kernel_tables_follow [OF ex_checked_reach ex_accepts ex_empty]
  have k: "decap_key ex_env (V4 0x0100000A) = Addr 0x0100000A 0 0 0"
    by (simp add: decap_key_def parseAddr_def)
  have "lb.hc_reals_map ex_checked m
      = map_option (hc_entry ex_env (features ex_checked)) (map_of [(5, V4 0x0100000A)] m)" for m
    using w [THEN conjunct1] unfolding ex_checked_fields(1) by blast
  then have "lb.hc_reals_map ex_checked 5 = Some \<lparr>real_dst = Addr 0x0100000A 0 0 0, real_flags = 0\<rparr>"
    "lb.hc_reals_map ex_checked 6 = None"
    by (simp_all add: hc_entry_def parseAddr_def ex_checked_fields(3))
  moreover have "\<forall>a\<in>set (getInlineDecapDst ex_checked). decap_dst (kmaps ex_checked) (decap_key ex_env a) \<noteq> None"
    using w ex_apart by blast
  then have "decap_dst (kmaps ex_checked) (Addr 0x0100000A 0 0 0) \<noteq> None"
    unfolding ex_checked_fields(2) by (simp add: k)
  moreover have "decap_dst (kmaps ex_checked) zero_addr \<noteq> None
      \<longrightarrow> zero_addr \<in> decap_key ex_env ` set (getInlineDecapDst ex_checked)"
    using w [THEN conjunct2, THEN conjunct1] by blast
  then have "decap_dst (kmaps ex_checked) zero_addr = None"
    unfolding ex_checked_fields(2) by (auto simp only: list.set image_insert image_empty k zero_addr_def) simp
  ultimately show ?thesis by blast
qed

definition ex_hc_set_up :: hc_state where
  "ex_hc_set_up = ex_hc_state\<lparr>hc_pckt_srcs_map := [0 \<mapsto> ex_hc_real 1, 1 \<mapsto> ex_hc_real 2]\<rparr>"

lemma ex_hc_ready: "hc_ready ex_hc_config ref_tc_kernel 2 ex_hc_set_up"
  by (auto simp: hc_ready_def ex_hc_set_up_def ex_hc_state_def ex_hc_config_def ref_tc_kernel_def hc_data_def
      const_defs split: if_splits)

theorem health_check_reaches_destination_witness:
  "\<exists>hs'. healthcheck_encap ex_hc_config ref_tc_kernel (hc_join ex_checked ex_hc_set_up) = (Redirect 2, hs') \<and>
    rd32 (hc_data hs') 30 = 0x0100000A \<and> drop 34 (hc_data hs') = replicate 46 1"
proof -
  have m: "map_of (getHealthcheckersDst ex_checked) (skb_mark (hskb ex_hc_set_up)) = Some (V4 0x0100000A)"
    by (simp add: ex_checked_fields ex_hc_set_up_def ex_hc_state_def)
  have d: "drop 14 (hc_data ex_hc_set_up) = replicate 46 1"
    by (simp add: ex_hc_set_up_def ex_hc_state_def hc_data_def)
  show ?thesis
    using health_check_reaches_destination [OF ex_checked_reach ex_accepts ex_empty ex_checked_fields(3)
        room_law_ref ex_hc_ready m] d
    by (auto simp: hc_overhead_def outer_dst_is_def HealthCheck.V6DADDR_def ex_hc_config_def)
qed

end
