(* ===== verification/Introspection.thy ===== *)
theory Introspection
  imports PerfReader Helpers
begin

text \<open>
  Introspection from the balancer to the clients: the balancer reports a packet (submit_event), the
  kernel puts the sample into the buffer of the CPU, PerfBufferEventReader and VsoshlbEventReader
  queue it, the writer thread of the monitor writes it into the pipe of the event, and the callback
  of the monitoring service cuts the bytes into the events of its clients.
\<close>

section \<open>Samples\<close>

text \<open>
  bpf_perf_event_output hands the reader the metadata and, behind it, the bytes of the packet
  counted in the upper half of the flags. The kernel pads the sample to a multiple of eight bytes;
  the reader takes as many bytes as the metadata says, and the padding is left out here.
\<close>

definition perf_sample :: "bytes \<Rightarrow> event_metadata \<times> u64 \<Rightarrow> bytes" where
  "perf_sample p r =
     le32 (ev_event (fst r)) @ le32 (ev_pkt_size (fst r)) @ le32 (ev_data_len (fst r)) @
     take (unat (drop_bit 32 (snd r))) p"

text \<open>What the balancer reports of a packet: the sample of the new entry of the event map.\<close>

definition report_sample :: "config \<Rightarrow> u32 \<Rightarrow> bst \<Rightarrow> bytes" where
  "report_sample cfg event_id st =
     perf_sample (xdata st) (last (events (report_event cfg event_id (length (xdata st)) st)))"

definition reports :: "config \<Rightarrow> bst \<Rightarrow> bool" where
  "reports cfg st \<longleftrightarrow> VSOSHLB_INTROSPECTION cfg \<and>
     (\<exists>gk. ctl_array st 5 = Some gk \<and> ctl_bits gk \<noteq> 0) \<and> length (xdata st) < 2 ^ 31"

definition sample_len :: "bytes \<Rightarrow> u32" where
  "sample_len p = of_nat (min (length p) 128)"

lemma unat_sample_len: "unat (sample_len p) = min (length p) 128"
  by (simp add: sample_len_def unat_of_nat)

lemma report_sample_eq:
  assumes "reports cfg st"
  shows "report_sample cfg event_id st =
    le32 event_id @ le32 (of_nat (length (xdata st))) @ le32 (sample_len (xdata st)) @ take 128 (xdata st)"
proof -
  let ?n = "length (xdata st)"
  have s: "sint (of_nat ?n :: u32) = int ?n"
    using assms by (simp add: reports_def sint_uint unsigned_of_nat signed_take_bit_int_eq_self take_bit_nat_eq_self)
  have d: "(word_of_int (min_helper (int ?n) MAX_EVENT_SIZE) :: u32) = sample_len (xdata st)"
    by (simp add: min_helper_def sample_len_def MAX_EVENT_SIZE_def min_def)
  have "drop_bit 32 (BPF_F_CURRENT_CPU OR push_bit 32 (ucast (sample_len (xdata st)) :: u64)) = ucast (sample_len (xdata st))"
  proof (rule bit_word_eqI)
    have "(0xffffffff :: u64) = Bit_Operations.mask 32"
      by (simp add: mask_eq_exp_minus_1)
    then have "bit BPF_F_CURRENT_CPU (32 + i) = False" for i
      unfolding BPF_F_CURRENT_CPU_def by (metis bit_mask_iff not_add_less1)
    then show "bit (drop_bit 32 (BPF_F_CURRENT_CPU OR push_bit 32 (ucast (sample_len (xdata st)) :: u64))) i
        \<longleftrightarrow> bit (ucast (sample_len (xdata st)) :: u64) i" if "i < LENGTH(64)" for i
      using that bit_imp_le_length [of "sample_len (xdata st)" i] by (auto simp: bit_simps)
  qed
  moreover have "unat (ucast (sample_len (xdata st)) :: u64) = min (length (xdata st)) 128"
    by (simp add: unsigned_ucast_eq unat_sample_len take_bit_nat_eq_self)
  moreover have "take (min (length (xdata st)) 128) (xdata st) = take 128 (xdata st)"
    by (simp add: min_def)
  ultimately show ?thesis
    using assms s d
    by (auto simp: unat_sample_len report_sample_def report_event_def submit_event_def reports_def perf_sample_def Let_def)
qed

section \<open>Messages\<close>

text \<open>What the queue and the clients get for a packet p, written at the time now.\<close>

definition packet_msg :: "bytes \<Rightarrow> pcap_msg" where
  "packet_msg p = new_pcap_msg (Some (take 128 p)) (of_nat (length p)) (sample_len p)"

definition client_event :: "layout \<Rightarrow> event_id \<Rightarrow> u32 \<Rightarrow> (u32 \<times> u32) \<times> bytes \<Rightarrow> event" where
  "client_event l e snap r =
     (let p = snd r; n = min (sample_len p) snap
      in \<lparr>ev_id = e, ev_pktsize = of_nat (length p),
          ev_data = rec_enc l \<lparr>ts_sec = fst (fst r), ts_usec = snd (fst r), incl_len = n,
            orig_len = of_nat (length p)\<rparr> @ take (unat n) p\<rparr>)"

lemma report_sample_event:
  assumes "reports cfg st"
  shows "complete_event (report_sample cfg i st)"
    "mm_msg (event_msg event (report_sample cfg i st)) = packet_msg (xdata st)"
proof -
  have r: "rd32 (le32 a @ le32 b @ le32 c @ p) 4 = b" "rd32 (le32 a @ le32 b @ le32 c @ p) 8 = c" for a b c :: u32 and p
    using rd32_drop [of 4 "le32 a @ le32 b @ le32 c @ p" 0] rd32_drop [of 8 "le32 a @ le32 b @ le32 c @ p" 0]
    by (simp_all add: rd32_le32)
  show "complete_event (report_sample cfg i st)"
    by (simp add: report_sample_eq [OF assms] complete_event_def r unat_sample_len)
  show "mm_msg (event_msg event (report_sample cfg i st)) = packet_msg (xdata st)"
    by (simp add: report_sample_eq [OF assms] event_msg_def r packet_msg_def)
qed

lemma packet_msg_ok: "msg_ok (packet_msg p)"
  by (simp add: msg_ok_def raw_buffer_def packet_msg_def new_pcap_msg_def unat_sample_len)

lemma client_event_packet:
  "client_event l e snap (now, p) = \<lparr>ev_id = e, ev_pktsize = origLen (trim snap (packet_msg p)),
     ev_data = pcap_record l (now, trim snap (packet_msg p))\<rparr>"
proof -
  have "unat (min (sample_len p) snap) = min (unat (sample_len p)) (unat snap)"
    by (simp add: min_def word_le_nat_alt)
  then show ?thesis
    by (auto simp: client_event_def packet_msg_def new_pcap_msg_def trim_def pcap_record_def record_header_def
        raw_buffer_def unat_sample_len Let_def min_def)
qed

section \<open>From the balancer to the clients\<close>

text \<open>
  C14: what the balancer reports reaches the clients. Whatever packets the CPUs reported, when the
  event loop has run the handlers once and the queue and the buffers have room, the writer thread
  puts them all into the pipe of the event, and in whatever pieces the pipe delivers its bytes, each
  client is sent each reported packet exactly once, CPU by CPU in the order of the reports: with the
  full length of the packet and its first bytes, at most 128 and at most the snap length.
\<close>

theorem reported_packets_reach_clients:
  assumes "perf_open pages (Some pb) = (True, hs)" "length (pb_pending pb) = length (pb_fds pb)"
    and "pb_pending pb = map (map (report_sample cfg i)) cpus" "\<forall>sts\<in>set cpus. \<forall>st\<in>set sts. reports cfg st"
    and "length (concat cpus) \<le> capacity" "length nows = length (concat cpus)"
    and "layout_law l" "all_ready w" "packetLimitOverride w" "e \<in> enabledEvents w" "pipe_of e w = Some []"
    and "ucast event = e" "ep_enabled ep" "ep_readBuffer ep = []" "ep_event_id ep = e"
  shows "\<exists>pb' q w' sent. run_handlers capacity event hs (pb, []) = Some (pb', q) \<and>
    runMulti l fs (zip nows q) w = Some w' \<and> pipe_of e w' = Some sent \<and>
    (\<forall>pieces. concat pieces = sent \<longrightarrow> ep_sent (read_pieces l its pieces ep) = ep_sent ep @
       concat (map (\<lambda>r. map (\<lambda>c. (c, client_event l e (effective_snaplen w) r)) its)
         (zip nows (map xdata (concat cpus)))))"
proof -
  let ?sts = "concat cpus" and ?snap = "effective_snaplen w"
  define q where "q = map (\<lambda>st. event_msg event (report_sample cfg i st)) ?sts"
  have rep: "reports cfg st" if "st \<in> set ?sts" for st using assms(4) that by auto
  have c: "list_all (list_all complete_event) (pb_pending pb)"
    using assms(4) report_sample_event(1) by (auto simp: assms(3) list_all_iff)
  have cc: "concat (pb_pending pb) = map (report_sample cfg i) ?sts" by (simp add: assms(3) map_concat)
  have "map ch_idx hs = [0..<length (pb_pending pb)]"
    using assms(1,2) by (auto simp: perf_open_def Let_def comp_def split: if_splits)
  then obtain pb' where run: "run_handlers capacity event hs (pb, []) = Some (pb', q)"
    using run_handlers_complete [OF c, of "[]" 0 capacity hs event] assms(5) cc by (auto simp: q_def comp_def)
  have m: "mm_msg (event_msg event (report_sample cfg i st)) = packet_msg (xdata st)"
    "getEventId (event_msg event (report_sample cfg i st)) = e"
    "\<not> mm_control (event_msg event (report_sample cfg i st))" if "st \<in> set ?sts" for st
    using report_sample_event(2) [OF rep [OF that]] assms(12) by (simp_all add: getEventId_def event_msg_def)
  have z: "zip nows q = map (\<lambda>(now, st). (now, event_msg event (report_sample cfg i st))) (zip nows ?sts)"
    unfolding q_def by (simp add: zip_map2)
  have in_sts: "st \<in> set ?sts" if "(now, st) \<in> set (zip nows ?sts)" for now st
    using that by (rule set_zip_rightD)
  have ok: "\<forall>r\<in>set (zip nows q). \<not> mm_control (snd r) \<and> msg_ok (mm_msg (snd r))"
    using m in_sts packet_msg_ok by (auto simp: z)
  have "event_messages e ?snap (zip nows q)
      = map (\<lambda>(now, st). (now, trim ?snap (packet_msg (xdata st)))) (zip nows ?sts)"
  proof -
    have "filter (\<lambda>r. getEventId (snd r) = e) (zip nows q) = zip nows q"
      using m(2) in_sts by (intro filter_True) (auto simp: z)
    then show ?thesis
      using m(1) in_sts by (auto simp: event_messages_def z comp_def)
  qed
  then have ms: "concat (map (\<lambda>r. map (\<lambda>c. (c, \<lparr>ev_id = e, ev_pktsize = origLen (snd r), ev_data = pcap_record l r\<rparr>)) its)
        (event_messages e ?snap (zip nows q)))
      = concat (map (\<lambda>r. map (\<lambda>c. (c, client_event l e ?snap r)) its) (zip nows (map xdata ?sts)))"
    by (simp add: comp_def split_def zip_map2 client_event_packet)
  show ?thesis
    using run pipe_delivery [OF assms(7,8) ok assms(9-11,13-15), of fs its] ms by (auto simp: q_def)
qed

section \<open>An example\<close>

definition ex_reporting :: config where
  "ex_reporting = ref_config\<lparr>VSOSHLB_INTROSPECTION := True\<rparr>"

definition ex_reported :: "bytes \<Rightarrow> bst" where
  "ex_reported p = (init_bst ex_reporting p)\<lparr>ctl_array := [5 \<mapsto> \<lparr>ctl_bits = 1\<rparr>]\<rparr>"

definition ex_cpus :: "bst list list" where
  "ex_cpus = [[ex_reported [1, 2, 3]], [ex_reported (replicate 200 7)]]"

definition ex_buffers :: perf_buffer where
  "ex_buffers = \<lparr>pb_fds = [20, 21], pb_pending = map (map (report_sample ex_reporting 1)) ex_cpus\<rparr>"

theorem reported_packets_reach_clients_witness:
  "\<exists>pb' q w' sent. run_handlers 16 1 (snd (perf_open 1 (Some ex_buffers))) (ex_buffers, []) = Some (pb', q) \<and>
     runMulti libpcap (\<lambda>c d. (True, c @ d)) (zip [(1, 2), (3, 4)] q) ex_pcap_writer = Some w' \<and>
     pipe_of 1 w' = Some sent \<and>
     map (\<lambda>r. (fst r, ev_pktsize (snd r))) (ep_sent (read_pieces libpcap [7] [take 5 sent, drop 5 sent]
       ((new_event_pipe 1)\<lparr>ep_enabled := True\<rparr>))) = [(7, 3), (7, 200)]"
proof -
  have o: "perf_open 1 (Some ex_buffers) = (True, snd (perf_open 1 (Some ex_buffers)))"
    by (simp add: perf_open_def isPowerOf2_def ex_buffers_def)
  have r: "reports ex_reporting (ex_reported p)" if "length p < 2 ^ 31" for p
    using that by (auto simp: reports_def ex_reporting_def ex_reported_def init_bst_def)
  have b: "length (pb_pending ex_buffers) = length (pb_fds ex_buffers)"
    "pb_pending ex_buffers = map (map (report_sample ex_reporting 1)) ex_cpus"
    "\<forall>sts\<in>set ex_cpus. \<forall>st\<in>set sts. reports ex_reporting st" "length (concat ex_cpus) \<le> 16"
    "length [(1, 2), (3, 4) :: u32 \<times> u32] = length (concat ex_cpus)"
    by (simp_all add: ex_buffers_def ex_cpus_def r)
  have p: "packetLimitOverride ex_pcap_writer" "1 \<in> enabledEvents ex_pcap_writer" "pipe_of 1 ex_pcap_writer = Some []"
    by (simp_all add: ex_pcap_writer_def pipe_of_def new_pcap_writer_def)
  have e: "ep_enabled ((new_event_pipe 1)\<lparr>ep_enabled := True\<rparr>)" "ep_readBuffer ((new_event_pipe 1)\<lparr>ep_enabled := True\<rparr>) = []"
    "ep_event_id ((new_event_pipe 1)\<lparr>ep_enabled := True\<rparr>) = 1" "ep_sent ((new_event_pipe 1)\<lparr>ep_enabled := True\<rparr>) = []"
    by (simp_all add: new_event_pipe_def)
  have x: "map xdata (concat ex_cpus) = [[1, 2, 3], replicate 200 7]"
    by (simp add: ex_cpus_def ex_reported_def init_bst_def)
  have cc: "concat [take 5 s, drop 5 s] = s" for s :: bytes
    by simp
  have u: "ucast (1 :: u32) = (1 :: u8)" by simp
  have out: "map (\<lambda>r. (fst r, ev_pktsize (snd r))) (concat (map (\<lambda>r. map (\<lambda>c. (c, client_event l e n r)) [7])
      (zip [(1, 2), (3, 4)] [[1, 2, 3], replicate 200 7]))) = [(7, 3), (7, 200)]" for l e n
    by (simp add: client_event_def Let_def)
  obtain pb' q w' sent where
    "run_handlers 16 1 (snd (perf_open 1 (Some ex_buffers))) (ex_buffers, []) = Some (pb', q)"
    "runMulti libpcap (\<lambda>c d. (True, c @ d)) (zip [(1, 2), (3, 4)] q) ex_pcap_writer = Some w'"
    "pipe_of 1 w' = Some sent"
    "\<forall>pieces. concat pieces = sent \<longrightarrow> ep_sent (read_pieces libpcap [7] pieces ((new_event_pipe 1)\<lparr>ep_enabled := True\<rparr>)) =
       concat (map (\<lambda>r. map (\<lambda>c. (c, client_event libpcap 1 (effective_snaplen ex_pcap_writer) r)) [7])
         (zip [(1, 2), (3, 4)] [[1, 2, 3], replicate 200 7]))"
    using reported_packets_reach_clients [OF o b layout_law_libpcap ex_capture_ok(1) p u e(1-3),
        of "\<lambda>c d. (True, c @ d)" "[7]"]
    unfolding x e(4) append_Nil by (elim exE conjE) (rule that; assumption)
  moreover have "map (\<lambda>r. (fst r, ev_pktsize (snd r))) (ep_sent (read_pieces libpcap [7]
      [take 5 sent, drop 5 sent] ((new_event_pipe 1)\<lparr>ep_enabled := True\<rparr>))) = [(7, 3), (7, 200)]"
    by (simp only: calculation(4) [rule_format, OF cc] out)
  ultimately show ?thesis
    by - (intro exI [of _ pb'] exI [of _ q] exI [of _ w'] exI [of _ sent] conjI; assumption)
qed

end
