(* ===== verification/RootPath.thy ===== *)
theory RootPath
  imports XdpRootMain XdpRoot
begin

text \<open>
  The root program and the programs that hang themselves into its array: XdpDecap attaches the
  decapsulation program through the pinned map, and the root program finds it there.
\<close>

section \<open>The array\<close>

text \<open>
  The program array as the kernel sees it: what a tail call to a slot finds. The kernel refuses an
  update of an array map behind its last element.
\<close>

definition root_slots :: "kmap \<Rightarrow> (u32 \<rightharpoonup> u32)" where
  "root_slots m = (\<lambda>i. map_option (\<lambda>v. rd32 v 0) (map_of (km_entries m) (le32 i)))"

definition root_array_map :: "kmap \<Rightarrow> bool" where
  "root_array_map m \<longleftrightarrow> km_max_entries m = of_nat ROOT_ARRAY_SIZE"

definition array_law :: "krefuse \<Rightarrow> int \<Rightarrow> bool" where
  "array_law r fd \<longleftrightarrow> (\<forall>k m. kr_update r fd k m \<longleftrightarrow> rd32 k 0 < km_max_entries m)"

lemma rd32_key: "rd32 (le32 w) 0 = w"
  using rd32_le32_append [of w "[]"] by simp

lemma le32_inj: "le32 a = le32 b \<longleftrightarrow> a = b"
  by (metis rd32_key)

lemma root_slots_append:
  "map_of (km_entries m) (le32 j) = None \<Longrightarrow>
    root_slots (m\<lparr>km_entries := km_entries m @ [(le32 j, le32 fd)]\<rparr>) = (root_slots m)(j \<mapsto> fd)"
  by (auto simp: root_slots_def fun_eq_iff le32_inj rd32_key map_add_def split: option.split)

text \<open>
  C17: between the object that controls the decapsulation program and the root program: attached to
  a free position of the array of the root program, with the lower positions free, the
  decapsulation program gets every packet of the interface, and after the destructor the root
  program treats packets as before; a position the array does not have, and the default position is
  one, ends the process at attach.
\<close>

theorem decap_reached_through_root:
  assumes "xc_mapPath c \<noteq> []" "xc_detachOnExit c"
    and "new_xdp_decap w c s = XRet d" "loadXdpDecap w d = XRet d1"
    and "0 \<le> dw_pin w (xc_mapPath c)" "k_maps s (dw_pin w (xc_mapPath c)) = Some m"
    and "root_array_map m" "array_law (dw_refuse w) (dw_pin w (xc_mapPath c))"
    and "map_of (km_entries m) (key32 (xc_progPos c)) = None"
    and "0 \<le> xc_progPos c" "xc_progPos c < 2 ^ 31"
  shows "if xc_progPos c < 3 then
      \<exists>d2 d3 fd m2 m3. attachXdpDecap w d1 = XRet d2 \<and> destroy_xdp_decap w d2 = XRet d3 \<and>
        ld_progs (xdc_loader d2) ''xdpdecap'' = Some fd \<and>
        k_maps (xdc_sys d2) (dw_pin w (xc_mapPath c)) = Some m2 \<and>
        k_maps (xdc_sys d3) (dw_pin w (xc_mapPath c)) = Some m3 \<and>
        ((\<forall>i < nat (xc_progPos c). root_slots m (of_nat i) = None) \<longrightarrow> xdp_root (root_slots m2) = Jump (word_of_int fd)) \<and>
        xdp_root (root_slots m3) = xdp_root (root_slots m)
    else attachXdpDecap w d1 = Fatal"
proof -
  let ?pos = "word_of_int (xc_progPos c) :: u32" and ?pin = "dw_pin w (xc_mapPath c)"
  have v: "uint ?pos = xc_progPos c"
    using assms(10,11) by (simp add: uint_word_of_int)
  have pos: "?pos < 3 \<longleftrightarrow> xc_progPos c < 3" by (simp add: word_less_def v)
  have acc: "kr_update (dw_refuse w) ?pin (key32 (xc_progPos c)) m \<longleftrightarrow> xc_progPos c < 3"
    using assms(7,8) pos by (simp add: array_law_def root_array_map_def key32_def rd32_key ROOT_ARRAY_SIZE_def)
  show ?thesis
  proof (cases "xc_progPos c < 3")
    case True
    then have u: "kr_update (dw_refuse w) ?pin (key32 (xc_progPos c)) m" using acc by simp
    obtain d2 d3 fd where a: "attachXdpDecap w d1 = XRet d2" "destroy_xdp_decap w d2 = XRet d3"
      "ld_progs (xdc_loader d2) ''xdpdecap'' = Some fd"
      "k_maps (xdc_sys d2) = (k_maps s)(?pin \<mapsto>
         m\<lparr>km_entries := km_entries m @ [(key32 (xc_progPos c), key32 fd)]\<rparr>)"
      "k_maps (xdc_sys d3) = k_maps s"
      using decap_pinned [OF assms(1-6) u assms(9)] by blast
    let ?m2 = "m\<lparr>km_entries := km_entries m @ [(key32 (xc_progPos c), key32 fd)]\<rparr>"
    have r: "root_slots ?m2 = (root_slots m)(?pos \<mapsto> word_of_int fd)"
      using root_slots_append assms(9) by (simp add: key32_def)
    have j: "of_nat (nat (xc_progPos c)) = ?pos" using assms(10) by simp
    have "xdp_root (root_slots ?m2) = Jump (word_of_int fd)"
      if "\<forall>i < nat (xc_progPos c). root_slots m (of_nat i) = None"
    proof (rule xdp_root_lowest)
      show "nat (xc_progPos c) < 3" using True by simp
      show "root_slots ?m2 (of_nat (nat (xc_progPos c))) = Some (word_of_int fd)" by (simp add: r j)
      have "of_nat i \<noteq> ?pos" if "i < nat (xc_progPos c)" for i
      proof
        assume "of_nat i = ?pos"
        then have "uint (of_nat i :: u32) = xc_progPos c" using v by simp
        then show False using that True by (simp add: unsigned_of_nat take_bit_nat_eq_self)
      qed
      then show "\<forall>i<nat (xc_progPos c). root_slots ?m2 (of_nat i) = None"
        using that by (simp add: r)
    qed
    then show ?thesis using True a assms(6) by auto
  next
    case False
    have d: "d = \<lparr>xdc_config = c, xdc_isStandalone = False, xdc_isLoaded = False,
        xdc_isAttached = False, xdc_loader = new_loader, xdc_sys = s, xdc_sent = []\<rparr>"
      using assms(1,3) by (simp add: new_xdp_decap_def Let_def)
    obtain ld where "d1 = d\<lparr>xdc_loader := ld, xdc_isLoaded := True\<rparr>"
      using loadXdpDecap_ok [OF assms(4)] d by auto
    then show ?thesis
      using False acc assms(5,6) d
      by (simp add: attachXdpDecap_def getPinnedBpfObject_def bpfUpdateMap_def open_fd_def Let_def)
  qed
qed

section \<open>An instance\<close>

definition ex_root_world :: dworld where
  "ex_root_world = w_world\<lparr>dw_refuse := w_refuse\<lparr>kr_update := (\<lambda>_ k m. rd32 k 0 < km_max_entries m)\<rparr>\<rparr>"

definition ex_root_sys :: ksys where
  "ex_root_sys = w_sys\<lparr>k_maps := [5 \<mapsto> \<lparr>km_max_entries = 3, km_entries = []\<rparr>]\<rparr>"

definition ex_root_ctl :: xdp_decap where
  "ex_root_ctl = (case new_xdp_decap ex_root_world (w_config\<lparr>xc_progPos := 1\<rparr>) ex_root_sys of
     XRet d \<Rightarrow> d)"

definition ex_root_loaded :: xdp_decap where
  "ex_root_loaded = (case loadXdpDecap ex_root_world ex_root_ctl of XRet d \<Rightarrow> d)"

lemma ex_root_loads:
  "new_xdp_decap ex_root_world (w_config\<lparr>xc_progPos := 1\<rparr>) ex_root_sys = XRet ex_root_ctl"
  "loadXdpDecap ex_root_world ex_root_ctl = XRet ex_root_loaded"
  by (simp_all add: ex_root_ctl_def ex_root_loaded_def new_xdp_decap_def loadXdpDecap_def loadBpfFile_def
      loadBpfObject_def ex_root_world_def w_object_def w_world_def w_config_def default_decap_config_def
      new_loader_def Let_def add_progs_eq add_maps_eq add_progs_def set_current_eq set_inner_def
      ld_getProgFdByName_def ld_getMapFdByName_def ld_kSuccess_def)

theorem decap_reached_through_root_witness:
  "\<exists>d2 fd m2. attachXdpDecap ex_root_world ex_root_loaded = XRet d2
     \<and> ld_progs (xdc_loader d2) ''xdpdecap'' = Some fd
     \<and> k_maps (xdc_sys d2) 5 = Some m2 \<and> xdp_root (root_slots m2) = Jump (word_of_int fd)"
proof -
  let ?c = "w_config\<lparr>xc_progPos := 1\<rparr>"
  have c: "xc_mapPath ?c \<noteq> []" "xc_detachOnExit ?c"
    by (simp_all add: w_config_def default_decap_config_def)
  have pin: "dw_pin ex_root_world p = 5" for p by (simp add: ex_root_world_def w_world_def)
  have m: "0 \<le> dw_pin ex_root_world (xc_mapPath ?c)"
    "k_maps ex_root_sys (dw_pin ex_root_world (xc_mapPath ?c)) = Some \<lparr>km_max_entries = 3, km_entries = []\<rparr>"
    by (simp_all only: pin) (simp_all add: ex_root_sys_def)
  have l: "root_array_map \<lparr>km_max_entries = 3, km_entries = []\<rparr>"
    "array_law (dw_refuse ex_root_world) (dw_pin ex_root_world (xc_mapPath ?c))"
    by (simp_all add: root_array_map_def ROOT_ARRAY_SIZE_def array_law_def ex_root_world_def)
  show ?thesis
    using decap_reached_through_root [OF c ex_root_loads m l]
    by (simp add: pin root_slots_def) blast
qed

end
