(* ===== verification/LbSpec.thy ===== *)
theory LbSpec
  imports LbProps
begin

text \<open>
  What the calls on VIPs and their reals promise, without numbers, reference counts, rings and
  maps of the kernel: the configuration is a map from VIPs to flags and weights by address. The
  control plane refines it over all histories of these calls.
\<close>

section \<open>The specification\<close>

type_synonym spec = "vip_key \<rightharpoonup> u32 \<times> (ip \<rightharpoonup> u32)"

text \<open>The addresses in use, which share the numbers.\<close>

definition used :: "spec \<Rightarrow> ip set" where
  "used \<sigma> = {a. \<exists>k f m w. \<sigma> k = Some (f, m) \<and> m a = Some w}"

datatype vip_call =
    AddVip vip_key u32
  | DelVip vip_key
  | ModifyVip vip_key u32 bool
  | ChangeHash vip_key hash_function
  | ModifyReals modify_action "new_real list" vip_key

definition spec_real :: "env \<Rightarrow> lb_config \<Rightarrow> modify_action \<Rightarrow> vip_key \<Rightarrow> new_real \<Rightarrow> spec \<Rightarrow> spec" where
  "spec_real e c act k r \<sigma> =
     (case (parse_ip e (nr_address r), \<sigma> k) of
        (Some a, Some (f, m)) \<Rightarrow>
          if act = DEL then \<sigma>(k \<mapsto> (f, m(a := None)))
          else if a \<in> used \<sigma> \<or> card (used \<sigma>) + 1 < unat (maxReals c)
          then \<sigma>(k \<mapsto> (f, m(a \<mapsto> nr_weight r)))
          else \<sigma>
      | _ \<Rightarrow> \<sigma>)"

fun spec_call :: "env \<Rightarrow> lb_config \<Rightarrow> vip_call \<Rightarrow> spec \<Rightarrow> bool \<times> spec" where
  "spec_call e c (AddVip k f) \<sigma> =
     (if parse_ip e (vk_address k) = None \<or> card (dom \<sigma>) \<ge> unat (maxVips c) \<or> \<sigma> k \<noteq> None
      then (False, \<sigma>) else (True, \<sigma>(k \<mapsto> (f, Map.empty))))"
| "spec_call e c (DelVip k) \<sigma> = (\<sigma> k \<noteq> None, \<sigma>(k := None))"
| "spec_call e c (ModifyVip k f b) \<sigma> =
     (case \<sigma> k of
        None \<Rightarrow> (False, \<sigma>)
      | Some (g, m) \<Rightarrow> (True, \<sigma>(k \<mapsto> (if b then g OR f else g AND NOT f, m))))"
| "spec_call e c (ChangeHash k h) \<sigma> = (\<sigma> k \<noteq> None, \<sigma>)"
| "spec_call e c (ModifyReals act rs k) \<sigma> =
     (if \<sigma> k = None then (False, \<sigma>) else (True, fold (spec_real e c act k) rs \<sigma>))"

fun lb_call :: "env \<Rightarrow> vip_call \<Rightarrow> lb \<Rightarrow> bool lbres \<times> lb" where
  "lb_call e (AddVip k f) st = addVip e k f st"
| "lb_call e (DelVip k) st = delVip e k st"
| "lb_call e (ModifyVip k f b) st = modifyVip e k f b st"
| "lb_call e (ChangeHash k h) st = changeHashFunctionForVip e k h st"
| "lb_call e (ModifyReals act rs k) st = modifyRealsForVip e act rs k st"

text \<open>A sequence of calls: the answers and the last state.\<close>

fun run_calls :: "('c \<Rightarrow> 's \<Rightarrow> 'a \<times> 's) \<Rightarrow> 'c list \<Rightarrow> 's \<Rightarrow> 'a list \<times> 's" where
  "run_calls f [] s = ([], s)"
| "run_calls f (c # cs) s =
     (let (r, s) = f c s; (rs, s) = run_calls f cs s in (r # rs, s))"

section \<open>Reals of VIPs and their reference counts\<close>

definition real_nums :: "vip \<Rightarrow> u32 set" where
  "real_nums v = dom (map_of (vip_reals v))"

definition users :: "(vip_key \<rightharpoonup> vip) \<Rightarrow> u32 \<Rightarrow> vip_key set" where
  "users vs n = {k. \<exists>v. vs k = Some v \<and> n \<in> real_nums v}"

text \<open>
  The reference count of a real is the number of the VIPs that have it, every number a VIP holds is
  one of a real, and no two reals have the same number.
\<close>

definition linked :: "(vip_key \<rightharpoonup> vip) \<Rightarrow> (ip \<rightharpoonup> real_meta) \<Rightarrow> bool" where
  "linked vs rs \<longleftrightarrow> finite (dom vs) \<and>
     (\<forall>k v. vs k = Some v \<longrightarrow> distinct (map fst (vip_reals v)) \<and> real_nums v \<subseteq> rm_num ` ran rs) \<and>
     (\<forall>a rm. rs a = Some rm \<longrightarrow>
        unat (refCount rm) = card (users vs (rm_num rm)) \<and> users vs (rm_num rm) \<noteq> {}) \<and>
     (\<forall>a b rm rn. rs a = Some rm \<longrightarrow> rs b = Some rn \<longrightarrow> rm_num rm = rm_num rn \<longrightarrow> a = b)"

definition weights :: "(ip \<rightharpoonup> real_meta) \<Rightarrow> vip \<Rightarrow> ip \<rightharpoonup> u32" where
  "weights rs v a = (case rs a of None \<Rightarrow> None
     | Some rm \<Rightarrow> map_option weight (map_of (vip_reals v) (rm_num rm)))"

text \<open>The abstraction.\<close>

definition view :: "(vip_key \<rightharpoonup> vip) \<Rightarrow> (ip \<rightharpoonup> real_meta) \<Rightarrow> spec" where
  "view vs rs k = map_option (\<lambda>v. (vipFlags v, weights rs v)) (vs k)"

definition spec_of :: "lb \<Rightarrow> spec" where
  "spec_of st = view (map_of (vips st)) (lb_reals st)"

text \<open>Setting the entry of one number of a VIP.\<close>

definition sets_real :: "vip \<Rightarrow> u32 \<Rightarrow> vip_real_meta option \<Rightarrow> vip \<Rightarrow> bool" where
  "sets_real v n x w \<longleftrightarrow> vipFlags w = vipFlags v \<and> distinct (map fst (vip_reals w)) \<and>
     map_of (vip_reals w) = (map_of (vip_reals v))(n := x)"

lemma real_nums_sets:
  "sets_real v n x w \<Longrightarrow> real_nums w = (if x = None then real_nums v - {n} else insert n (real_nums v))"
  by (auto simp: sets_real_def real_nums_def dom_def split: if_splits)

lemma users_upd: "j \<in> users (vs(k \<mapsto> w)) m \<longleftrightarrow> (if j = k then m \<in> real_nums w else j \<in> users vs m)"
  by (auto simp: users_def)

lemma users_at: "vs k = Some v \<Longrightarrow> k \<in> users vs m \<longleftrightarrow> m \<in> real_nums v"
  by (simp add: users_def)

lemma users_sets:
  assumes "sets_real v n x w" "vs k = Some v"
  shows "users (vs(k \<mapsto> w)) m =
    (if m \<noteq> n then users vs m else if x = None then users vs n - {k} else insert k (users vs n))"
  using real_nums_sets [OF assms(1)] users_at [where vs = vs and k = k and m = m, OF assms(2)]
    users_upd [of _ vs k w m]
  by (auto split: if_splits)

lemma linkedD:
  assumes "linked vs rs"
  shows "finite (dom vs)" "vs k = Some v \<Longrightarrow> distinct (map fst (vip_reals v))"
    "vs k = Some v \<Longrightarrow> n \<in> real_nums v \<Longrightarrow> \<exists>a rm. rs a = Some rm \<and> rm_num rm = n"
    "rs a = Some rm \<Longrightarrow> unat (refCount rm) = card (users vs (rm_num rm))"
    "rs a = Some rm \<Longrightarrow> users vs (rm_num rm) \<noteq> {}"
    "rs a = Some rm \<Longrightarrow> rs b = Some rn \<Longrightarrow> rm_num rm = rm_num rn \<Longrightarrow> a = b"
proof -
  show "finite (dom vs)" using assms by (simp add: linked_def)
  show "vs k = Some v \<Longrightarrow> distinct (map fst (vip_reals v))" using assms by (simp add: linked_def)
  assume "vs k = Some v" "n \<in> real_nums v"
  then have "n \<in> rm_num ` ran rs" using assms unfolding linked_def by blast
  then show "\<exists>a rm. rs a = Some rm \<and> rm_num rm = n" by (auto simp: ran_def)
next
  assume "rs a = Some rm"
  then show "unat (refCount rm) = card (users vs (rm_num rm))" "users vs (rm_num rm) \<noteq> {}"
    using assms unfolding linked_def by blast+
next
  assume "rs a = Some rm" "rs b = Some rn" "rm_num rm = rm_num rn"
  then show "a = b" using assms unfolding linked_def by blast
qed

lemma users_sub: "users vs n \<subseteq> dom vs"
  by (auto simp: users_def)

lemma finite_users: "linked vs rs \<Longrightarrow> finite (users vs n)"
  using finite_subset [OF users_sub] linkedD(1) by blast

lemma used_view: "linked vs rs \<Longrightarrow> used (view vs rs) = dom rs"
proof (intro set_eqI iffI)
  fix a assume "a \<in> used (view vs rs)"
  then show "a \<in> dom rs" by (auto simp: used_def view_def weights_def split: option.splits)
next
  fix a assume l: "linked vs rs" and "a \<in> dom rs"
  then obtain rm where r: "rs a = Some rm" by blast
  then obtain k v where "vs k = Some v" "rm_num rm \<in> real_nums v"
    using linkedD(5) [OF l r] by (auto simp: users_def)
  then have "view vs rs k = Some (vipFlags v, weights rs v)" "\<exists>w. weights rs v a = Some w"
    using r by (auto simp: view_def weights_def real_nums_def)
  then show "a \<in> used (view vs rs)" unfolding used_def by blast
qed

lemma weights_cong:
  "map_option rm_num (rs' b) = map_option rm_num (rs b) \<Longrightarrow> weights rs' v b = weights rs v b"
  by (cases "rs b"; cases "rs' b") (simp_all add: weights_def)

lemma view_upd:
  assumes "vs k = Some v" "sets_real v n x w"
    and "\<And>b. b \<noteq> a \<Longrightarrow> map_option rm_num (rs' b) = map_option rm_num (rs b)"
    and "\<And>b rm. b \<noteq> a \<Longrightarrow> rs b = Some rm \<Longrightarrow> rm_num rm \<noteq> n"
    and "rs a = None \<or> map_option rm_num (rs a) = Some n"
    and "rs' a = None \<or> map_option rm_num (rs' a) = Some n"
    and "(rs a = None) \<noteq> (rs' a = None) \<Longrightarrow> users vs n \<subseteq> {k}" "rs' a = None \<Longrightarrow> x = None"
  shows "view (vs(k \<mapsto> w)) rs' = (view vs rs)(k \<mapsto> (vipFlags v, (weights rs v)(a := map_option weight x)))"
proof -
  have w: "weights rs' w b = ((weights rs v)(a := map_option weight x)) b" for b
  proof (cases "b = a")
    case True
    then show ?thesis using assms(2,6,8)
      by (cases "rs' a") (auto simp: weights_def sets_real_def)
  next
    case False
    then have "weights rs' w b = weights rs w b" using assms(3) by (intro weights_cong) simp
    also have "\<dots> = weights rs v b"
      using assms(2) assms(4) [OF False] by (cases "rs b") (auto simp: weights_def sets_real_def)
    finally show ?thesis using False by simp
  qed
  have o: "weights rs' u b = weights rs u b" if u: "vs j = Some u" "j \<noteq> k" for j u b
  proof (cases "b = a \<and> (rs a = None) \<noteq> (rs' a = None)")
    case True
    then have "n \<notin> real_nums u" using assms(7) u by (auto simp: users_def)
    then have "map_of (vip_reals u) n = None" by (simp add: real_nums_def domIff)
    then have "weights r u a = None" if "r a = None \<or> map_option rm_num (r a) = Some n" for r
      using that by (auto simp: weights_def)
    then show ?thesis using True assms(5,6) by simp
  next
    case False
    then have "map_option rm_num (rs' b) = map_option rm_num (rs b)"
    proof (cases "b = a")
      case True
      then have "(rs a = None) = (rs' a = None)" using False by blast
      then show ?thesis using True assms(5,6) by auto
    qed (rule assms(3))
    then show ?thesis by (rule weights_cong)
  qed
  show ?thesis
  proof
    fix j
    show "view (vs(k \<mapsto> w)) rs' j
        = ((view vs rs)(k \<mapsto> (vipFlags v, (weights rs v)(a := map_option weight x)))) j"
      using assms(2) w o by (cases "vs j") (auto simp: view_def sets_real_def fun_eq_iff)
  qed
qed

text \<open>The counts when one more VIP, or one VIP less, has a real.\<close>

definition add_ref :: "ip \<Rightarrow> (ip \<rightharpoonup> real_meta) \<Rightarrow> (ip \<rightharpoonup> real_meta)" where
  "add_ref a rs = (case rs a of None \<Rightarrow> rs | Some rm \<Rightarrow> rs(a \<mapsto> rm\<lparr>refCount := refCount rm + 1\<rparr>))"

definition drop_ref :: "ip \<Rightarrow> (ip \<rightharpoonup> real_meta) \<Rightarrow> (ip \<rightharpoonup> real_meta)" where
  "drop_ref a rs = (case rs a of None \<Rightarrow> rs
     | Some rm \<Rightarrow> if refCount rm = 1 then rs(a := None) else rs(a \<mapsto> rm\<lparr>refCount := refCount rm - 1\<rparr>))"

lemma linked_upd:
  assumes "linked vs rs" "vs k = Some v" "sets_real v n x w"
    and "\<And>b rm. rs' b = Some rm \<Longrightarrow> unat (refCount rm) = card (users (vs(k \<mapsto> w)) (rm_num rm))
      \<and> users (vs(k \<mapsto> w)) (rm_num rm) \<noteq> {}"
    and "\<And>b c rm rn. rs' b = Some rm \<Longrightarrow> rs' c = Some rn \<Longrightarrow> rm_num rm = rm_num rn \<Longrightarrow> b = c"
    and "\<And>m. users (vs(k \<mapsto> w)) m \<noteq> {} \<Longrightarrow> \<exists>b rm. rs' b = Some rm \<and> rm_num rm = m"
  shows "linked (vs(k \<mapsto> w)) rs'"
  unfolding linked_def
proof (intro conjI allI impI)
  show "finite (dom (vs(k \<mapsto> w)))" using linkedD(1) [OF assms(1)] by simp
  fix j u assume u: "(vs(k \<mapsto> w)) j = Some u"
  then show "distinct (map fst (vip_reals u))"
    using assms(3) linkedD(2) [OF assms(1)] by (auto simp: sets_real_def split: if_splits)
  show "real_nums u \<subseteq> rm_num ` ran rs'"
  proof
    fix m assume "m \<in> real_nums u"
    then have "users (vs(k \<mapsto> w)) m \<noteq> {}" using u by (force simp: users_def)
    then show "m \<in> rm_num ` ran rs'" using assms(6) by (force simp: ran_def)
  qed
qed (use assms(4,5) in blast)+

lemma other_num:
  "linked vs rs \<Longrightarrow> rs a = Some rm \<Longrightarrow> b \<noteq> a \<Longrightarrow> rs b = Some rn \<Longrightarrow> rm_num rn \<noteq> rm_num rm"
  using linkedD(6) by metis

lemma link_again:
  assumes l: "linked vs rs" and v: "vs k = Some v" and r: "rs a = Some rm"
    and n: "rm_num rm \<in> real_nums v" and w: "sets_real v (rm_num rm) (Some x) w"
  shows "linked (vs(k \<mapsto> w)) rs"
    "view (vs(k \<mapsto> w)) rs = (view vs rs)(k \<mapsto> (vipFlags v, (weights rs v)(a \<mapsto> weight x)))"
proof -
  have u: "users (vs(k \<mapsto> w)) m = users vs m" for m
    using users_sets [where vs = vs and k = k, OF w v] v n by (auto simp: users_def)
  have c: "\<exists>b rn. rs b = Some rn \<and> rm_num rn = m" if "users vs m \<noteq> {}" for m
    using that linkedD(3) [OF l] by (auto simp: users_def)
  show "linked (vs(k \<mapsto> w)) rs"
    by (rule linked_upd [OF l v w]) (use u c linkedD(4-6) [OF l] in auto)
  show "view (vs(k \<mapsto> w)) rs = (view vs rs)(k \<mapsto> (vipFlags v, (weights rs v)(a \<mapsto> weight x)))"
    using view_upd [where vs = vs and k = k, OF v w, of a rs rs] other_num [OF l r] r by simp
qed

lemma link_known:
  assumes l: "linked vs rs" and v: "vs k = Some v" and r: "rs a = Some rm"
    and n: "rm_num rm \<notin> real_nums v" and w: "sets_real v (rm_num rm) (Some x) w"
    and few: "card (dom vs) < 2 ^ 32"
  shows "linked (vs(k \<mapsto> w)) (add_ref a rs)"
    "view (vs(k \<mapsto> w)) (add_ref a rs) = (view vs rs)(k \<mapsto> (vipFlags v, (weights rs v)(a \<mapsto> weight x)))"
proof -
  let ?rm = "rm\<lparr>refCount := refCount rm + 1\<rparr>"
  have rs': "add_ref a rs = rs(a \<mapsto> ?rm)" using r by (simp add: add_ref_def)
  have u: "users (vs(k \<mapsto> w)) m = (if m = rm_num rm then insert k (users vs m) else users vs m)" for m
    using users_sets [where vs = vs and k = k, OF w v] by auto
  have k: "k \<notin> users vs (rm_num rm)" using v n by (simp add: users_def)
  have "card (insert k (users vs (rm_num rm))) \<le> card (dom vs)"
    using users_sub [of vs] v linkedD(1) [OF l] by (intro card_mono) auto
  then have "unat (refCount rm) + 1 < 2 ^ 32"
    using k finite_users [OF l] linkedD(4) [OF l r] few by simp
  then have "unat (refCount rm + 1) = unat (refCount rm) + 1"
    by (simp add: unat_word_ariths)
  then have c: "unat (refCount ?rm) = card (users (vs(k \<mapsto> w)) (rm_num rm))"
    using k finite_users [OF l] linkedD(4) [OF l r] u by simp
  have d: "\<exists>b rn. rs b = Some rn \<and> rm_num rn = m" if "users vs m \<noteq> {}" for m
    using that linkedD(3) [OF l] by (auto simp: users_def)
  show "linked (vs(k \<mapsto> w)) (add_ref a rs)"
    unfolding rs'
  proof (rule linked_upd [OF l v w])
    fix b rn assume b: "(rs(a \<mapsto> ?rm)) b = Some rn"
    show "unat (refCount rn) = card (users (vs(k \<mapsto> w)) (rm_num rn)) \<and> users (vs(k \<mapsto> w)) (rm_num rn) \<noteq> {}"
    proof (cases "b = a")
      case True
      then show ?thesis using b c u by auto
    next
      case False
      then show ?thesis using b other_num [OF l r False] linkedD(4,5) [OF l] u by auto
    qed
  next
    fix b c rn rp
    assume "(rs(a \<mapsto> ?rm)) b = Some rn" "(rs(a \<mapsto> ?rm)) c = Some rp" "rm_num rn = rm_num rp"
    then show "b = c"
      using other_num [OF l r, of b rn] other_num [OF l r, of c rp] linkedD(6) [OF l, of b rn c rp]
      by (auto split: if_splits)
  next
    fix m assume m: "users (vs(k \<mapsto> w)) m \<noteq> {}"
    show "\<exists>b rn. (rs(a \<mapsto> ?rm)) b = Some rn \<and> rm_num rn = m"
    proof (cases "m = rm_num rm")
      case False
      then obtain b rn where b: "rs b = Some rn" "rm_num rn = m" using m u d [of m] by auto
      then have "b \<noteq> a" using r False by auto
      then show ?thesis using b by auto
    qed auto
  qed
  show "view (vs(k \<mapsto> w)) (add_ref a rs) = (view vs rs)(k \<mapsto> (vipFlags v, (weights rs v)(a \<mapsto> weight x)))"
    unfolding rs' using view_upd [where vs = vs and k = k, OF v w, of a "rs(a \<mapsto> ?rm)" rs] other_num [OF l r] r by simp
qed

lemma link_fresh:
  assumes l: "linked vs rs" and v: "vs k = Some v" and r: "rs a = None" and f: "n \<notin> rm_num ` ran rs"
    and w: "sets_real v n (Some x) w"
    and rs'_def: "rs' = rs(a \<mapsto> \<lparr>rm_num = n, refCount = 1, rm_flags = fl\<rparr>)"
  shows "linked (vs(k \<mapsto> w)) rs'"
    "view (vs(k \<mapsto> w)) rs' = (view vs rs)(k \<mapsto> (vipFlags v, (weights rs v)(a \<mapsto> weight x)))"
proof -
  have e: "users vs n = {}"
    using f linkedD(3) [OF l] by (force simp: users_def ran_def)
  have u: "users (vs(k \<mapsto> w)) m = (if m = n then {k} else users vs m)" for m
    using users_sets [where vs = vs and k = k, OF w v] e by auto
  have o: "rm_num rn \<noteq> n" if "rs b = Some rn" for b rn using f that by (auto simp: ran_def)
  have d: "\<exists>b rn. rs b = Some rn \<and> rm_num rn = m" if "users vs m \<noteq> {}" for m
    using that linkedD(3) [OF l] by (auto simp: users_def)
  show "linked (vs(k \<mapsto> w)) rs'"
  proof (rule linked_upd [OF l v w])
    fix b rn assume "rs' b = Some rn"
    then show "unat (refCount rn) = card (users (vs(k \<mapsto> w)) (rm_num rn)) \<and> users (vs(k \<mapsto> w)) (rm_num rn) \<noteq> {}"
      using o linkedD(4,5) [OF l] u by (auto simp: rs'_def split: if_splits)
  next
    fix b c rn rp assume "rs' b = Some rn" "rs' c = Some rp" "rm_num rn = rm_num rp"
    then show "b = c" using o [of b rn] o [of c rp] linkedD(6) [OF l, of b rn c rp]
      by (auto simp: rs'_def split: if_splits)
  next
    fix m assume m: "users (vs(k \<mapsto> w)) m \<noteq> {}"
    show "\<exists>b rn. rs' b = Some rn \<and> rm_num rn = m"
    proof (cases "m = n")
      case False
      then obtain b rn where b: "rs b = Some rn" "rm_num rn = m" using m u d [of m] by auto
      then have "b \<noteq> a" using r by auto
      then show ?thesis using b by (auto simp: rs'_def intro: exI [of _ b])
    qed (auto simp: rs'_def)
  qed
  show "view (vs(k \<mapsto> w)) rs' = (view vs rs)(k \<mapsto> (vipFlags v, (weights rs v)(a \<mapsto> weight x)))"
    using view_upd [where vs = vs and k = k, OF v w, of a rs' rs] o r e by (simp add: rs'_def)
qed

lemma link_drop:
  assumes l: "linked vs rs" and v: "vs k = Some v" and r: "rs a = Some rm"
    and n: "rm_num rm \<in> real_nums v" and w: "sets_real v (rm_num rm) None w"
  shows "linked (vs(k \<mapsto> w)) (drop_ref a rs)"
    "view (vs(k \<mapsto> w)) (drop_ref a rs) = (view vs rs)(k \<mapsto> (vipFlags v, (weights rs v)(a := None)))"
proof -
  let ?n = "rm_num rm" and ?rs = "drop_ref a rs"
  have u: "users (vs(k \<mapsto> w)) m = (if m = ?n then users vs m - {k} else users vs m)" for m
    using users_sets [where vs = vs and k = k, OF w v] by auto
  have k: "k \<in> users vs ?n" using v n by (simp add: users_def)
  have card: "card (users vs ?n - {k}) = unat (refCount rm) - 1"
    using k finite_users [OF l] linkedD(4) [OF l r] by simp
  have one: "refCount rm = 1 \<longleftrightarrow> users vs ?n - {k} = {}"
  proof -
    have "0 < card (users vs ?n)" using k finite_users [OF l] card_gt_0_iff by blast
    then have "0 < unat (refCount rm)" using linkedD(4) [OF l r] by simp
    moreover have "refCount rm = 1 \<longleftrightarrow> unat (refCount rm) = 1" by (simp add: word_unat_eq_iff)
    ultimately have "refCount rm = 1 \<longleftrightarrow> unat (refCount rm) - 1 = 0" by auto
    moreover have "finite (users vs ?n - {k})" using finite_users [OF l, of ?n] by simp
    ultimately show ?thesis using card card_eq_0_iff by metis
  qed
  have other: "?rs b = rs b" if "b \<noteq> a" for b using that by (simp add: drop_ref_def r)
  have at: "?rs a = (if refCount rm = 1 then None else Some (rm\<lparr>refCount := refCount rm - 1\<rparr>))"
    by (simp add: drop_ref_def r)
  have d: "\<exists>b rn. rs b = Some rn \<and> rm_num rn = m" if "users vs m \<noteq> {}" for m
    using that linkedD(3) [OF l] by (auto simp: users_def)
  have cnt: "unat (refCount rm - 1) = card (users vs ?n - {k})" if "refCount rm \<noteq> 1"
  proof -
    have "unat (refCount rm) \<noteq> 0"
      using linkedD(4) [OF l r] k finite_users [OF l, of ?n] by auto
    then have "1 \<le> refCount rm" by (simp add: word_le_nat_alt)
    then show ?thesis using card by (simp add: unat_sub)
  qed
  show "linked (vs(k \<mapsto> w)) ?rs"
  proof (rule linked_upd [OF l v w])
    fix b rn assume b: "?rs b = Some rn"
    show "unat (refCount rn) = card (users (vs(k \<mapsto> w)) (rm_num rn)) \<and> users (vs(k \<mapsto> w)) (rm_num rn) \<noteq> {}"
    proof (cases "b = a")
      case True
      then have rn: "refCount rm \<noteq> 1" "rn = rm\<lparr>refCount := refCount rm - 1\<rparr>"
        using b at by (auto split: if_splits)
      show ?thesis using cnt [OF rn(1)] one rn by (simp add: u)
    next
      case False
      then have "rs b = Some rn" using b other by simp
      then show ?thesis using other_num [OF l r False] linkedD(4,5) [OF l] u by auto
    qed
  next
    fix b c rn rp assume b: "?rs b = Some rn" "?rs c = Some rp" "rm_num rn = rm_num rp"
    have "\<exists>rq. rs j = Some rq \<and> rm_num rq = rm_num rt" if "?rs j = Some rt" for j rt
      using that r other at by (cases "j = a") (auto split: if_splits)
    from this [OF b(1)] this [OF b(2)] show "b = c" using b(3) linkedD(6) [OF l] by metis
  next
    fix m assume m: "users (vs(k \<mapsto> w)) m \<noteq> {}"
    show "\<exists>b rn. ?rs b = Some rn \<and> rm_num rn = m"
    proof (cases "m = ?n")
      case True
      then have "refCount rm \<noteq> 1" using m u one by auto
      then show ?thesis using True at by (intro exI [of _ a]) simp
    next
      case False
      then obtain b rn where b: "rs b = Some rn" "rm_num rn = m" using m u d [of m] by auto
      then have "b \<noteq> a" using r False by auto
      then show ?thesis using b other [of b] by (intro exI [of _ b] exI [of _ rn]) simp
    qed
  qed
  have us: "users vs ?n \<subseteq> {k}" if "refCount rm = 1" using that one by blast
  show "view (vs(k \<mapsto> w)) ?rs = (view vs rs)(k \<mapsto> (vipFlags v, (weights rs v)(a := None)))"
    using view_upd [where vs = vs and k = k, OF v w, of a ?rs rs] other other_num [OF l r] r at us
    by (cases "refCount rm = 1") simp_all
qed

section \<open>The parts of the control plane\<close>

lemma lb_reals_decrease: "lb_reals (decreaseRefCountForReal a st) = drop_ref a (lb_reals st)"
  by (simp add: decreaseRefCountForReal_def drop_ref_def notify_def Let_def diff_eq_eq split: option.split)

lemma lb_reals_increase:
  "lb_reals (snd (increaseRefCountForReal e a f st)) =
     (if lb_reals st a \<noteq> None then add_ref a (lb_reals st)
      else case realNums st of
        [] \<Rightarrow> lb_reals st
      | n # ns \<Rightarrow> (lb_reals st)(a \<mapsto> \<lparr>rm_num = n, refCount = 1, rm_flags = f AND NOT V6DADDR\<rparr>))"
  by (cases rule: increase_cases [of st a e f])
     (auto simp: add_ref_def dest: hull_fields(6))

lemma pool_size:
  assumes "pool A free own" "finite A"
  shows "length free + card (dom own) = card A"
proof -
  have p: "distinct free" "set free \<union> ran own = A" "set free \<inter> ran own = {}" "inj_on own (dom own)"
    using assms(1) by (simp_all add: pool_def)
  have "inj_on (\<lambda>k. the (own k)) (dom own)"
    using p(4) by (auto simp: inj_on_def dom_def)
  moreover have "(\<lambda>k. the (own k)) ` dom own = ran own"
    by (auto simp: ran_def dom_def image_iff) (metis option.sel)
  ultimately have "card (dom own) = card (ran own)" by (metis card_image)
  moreover have "finite (ran own)" using p(2) assms(2) finite_subset by blast
  ultimately show ?thesis
    using p card_Un_disjoint [of "set free" "ran own"] by (simp add: distinct_card)
qed

lemma card_numbers: "card (set (numbers lo hi)) = unat hi - unat lo"
  by (simp add: distinct_card) (simp add: numbers_def)

lemma free_numbers:
  assumes "lb_inv cf e st"
  shows "length (vipNums st) + card (dom (map_of (vips st))) = unat (maxVips cf)"
    "length (realNums st) + card (dom (lb_reals st)) = unat (maxReals cf) - 1"
proof -
  have p: "pool (set (numbers 0 (maxVips cf))) (vipNums st) (vip_own st)"
    "pool (set (numbers 1 (maxReals cf))) (realNums st) (real_own st)"
    using assms by (simp_all add: lb_inv_def pools_ok_def)
  have "dom (vip_own st) = dom (map_of (vips st))" "dom (real_own st) = dom (lb_reals st)"
    by (auto simp: vip_own_map real_own_def)
  then show "length (vipNums st) + card (dom (map_of (vips st))) = unat (maxVips cf)"
    "length (realNums st) + card (dom (lb_reals st)) = unat (maxReals cf) - 1"
    using pool_size [OF p(1)] pool_size [OF p(2)] by (simp_all add: card_numbers)
qed

text \<open>The updates of a batch on the reals of the VIP.\<close>

definition upd_vip :: "update_real list \<Rightarrow> vip \<Rightarrow> vip" where
  "upd_vip us v = v\<lparr>vip_reals := fst (fold apply_ureal us (vip_reals v, False))\<rparr>"

lemma apply_ureal_fst: "fst (apply_ureal u (rs, c)) = fst (apply_ureal u (rs, d))"
  by (simp add: apply_ureal_def Let_def)

lemma upd_vip_Nil [simp]: "upd_vip [] v = v"
  by (simp add: upd_vip_def)

lemma upd_vip_snoc:
  "upd_vip (us @ [u]) v = (upd_vip us v)\<lparr>vip_reals := fst (apply_ureal u (vip_reals (upd_vip us v), False))\<rparr>"
  using apply_ureal_fst [of u] by (cases "fold apply_ureal us (vip_reals v, False)") (simp add: upd_vip_def)

lemma apply_sets:
  assumes "distinct (map fst (vip_reals v))"
  shows "action u = DEL \<Longrightarrow> sets_real v (ep_num (updatedReal u)) None
      (v\<lparr>vip_reals := fst (apply_ureal u (vip_reals v, c))\<rparr>)"
    "action u = ADD \<Longrightarrow> \<exists>x. weight x = ep_weight (updatedReal u) \<and> sets_real v (ep_num (updatedReal u)) (Some x)
      (v\<lparr>vip_reals := fst (apply_ureal u (vip_reals v, c))\<rparr>)"
proof -
  let ?n = "ep_num (updatedReal u)" and ?rs = "vip_reals v"
  show "action u = DEL \<Longrightarrow> sets_real v ?n None (v\<lparr>vip_reals := fst (apply_ureal u (?rs, c))\<rparr>)"
    using assms by (simp add: sets_real_def apply_ureal_def distinct_delete delete_conv')
  assume a: "action u = ADD"
  have t: "map_of (touch_real ?n ?rs) = (map_of ?rs)(?n \<mapsto> real_at ?n ?rs)"
    by (auto simp: touch_real_def real_at_def update_conv' split: option.split)
  have d: "distinct (map fst (touch_real ?n ?rs))"
    using assms by (simp add: touch_real_def distinct_update)
  show "\<exists>x. weight x = ep_weight (updatedReal u) \<and> sets_real v ?n (Some x)
      (v\<lparr>vip_reals := fst (apply_ureal u (?rs, c))\<rparr>)"
  proof (cases "weight (real_at ?n ?rs) = ep_weight (updatedReal u)")
    case True
    then show ?thesis using a t d
      by (intro exI [of _ "real_at ?n ?rs"]) (simp add: sets_real_def apply_ureal_def Let_def)
  next
    case False
    then show ?thesis using a t d
      by (intro exI [of _ "\<lparr>weight = ep_weight (updatedReal u), hash = ep_hash (updatedReal u)\<rparr>"])
         (simp add: sets_real_def apply_ureal_def Let_def update_conv' distinct_update)
  qed
qed

text \<open>The ring is not part of the view.\<close>

lemma same_vip:
  assumes "vip_reals v' = vip_reals v" "vipFlags v' = vipFlags v"
  shows "linked (vs(k \<mapsto> v')) rs = linked (vs(k \<mapsto> v)) rs" "view (vs(k \<mapsto> v')) rs = view (vs(k \<mapsto> v)) rs"
proof -
  have n: "real_nums v' = real_nums v" using assms(1) by (simp add: real_nums_def)
  then have "users (vs(k \<mapsto> v')) m = users (vs(k \<mapsto> v)) m" for m by (auto simp: users_def)
  then show "linked (vs(k \<mapsto> v')) rs = linked (vs(k \<mapsto> v)) rs"
    using n assms(1) by (simp add: linked_def)
  have "weights rs v' = weights rs v" using assms(1) by (auto simp: weights_def fun_eq_iff split: option.split)
  then show "view (vs(k \<mapsto> v')) rs = view (vs(k \<mapsto> v)) rs"
    using assms(2) by (simp add: view_def fun_eq_iff)
qed

text \<open>
  The contract of the hash functions for the reals of the control plane: they return a ring of the
  configured size, every slot of which holds the number of an endpoint.
\<close>

definition hash_fills :: "env \<Rightarrow> lb_config \<Rightarrow> bool" where
  "hash_fills e c \<longleftrightarrow> (\<forall>f es. es \<noteq> [] \<longrightarrow> (\<forall>x\<in>set es. ep_num x < maxReals c) \<longrightarrow>
     (\<exists>r. hash_of e f es (cfg_chRingSize c) = Some r \<and> length r = unat (cfg_chRingSize c) \<and>
        (\<forall>x\<in>set r. \<exists>y\<in>set es. x = sint (ep_num y))))"

lemma calculate_vip:
  assumes "es \<noteq> [] \<Longrightarrow> gen (chash v) es (chRingSize v) \<noteq> None"
  obtains d w where "calculateHashRing gen es v = Some (d, w)" "vip_reals w = vip_reals v"
    "vipFlags w = vipFlags v" "chRingSize w = chRingSize v"
proof (cases "es = []")
  case False
  then obtain r where r: "gen (chash v) es (chRingSize v) = Some r" using assms by fastforce
  obtain d ring where "ring_delta r (unat (chRingSize v)) (chRing v) = (d, ring)" by fastforce
  then show ?thesis
    using that [of d "v\<lparr>chRing := ring\<rparr>"] False r by (simp add: calculateHashRing_def)
qed (use that [of "[]" v] in \<open>simp add: calculateHashRing_def\<close>)

lemma endpoint_nums:
  "getEndpoints us v = (es, u) \<Longrightarrow> x \<in> set es \<Longrightarrow> ep_num x \<in> real_nums (upd_vip us v)"
  "x \<in> set (getRealsAndWeight v) \<Longrightarrow> ep_num x \<in> real_nums v"
  by (auto simp: getEndpoints_def upd_vip_def getRealsAndWeight_def real_nums_def real_endpoint_def
      dom_map_of_conv_image_fst Let_def split_def intro: rev_image_eqI split: if_splits)
    (metis fst_conv image_eqI)

lemma hash_returns:
  assumes "hash_fills e c" "lb_inv c e st" "linked vs (lb_reals st)" "vs k = Some v"
    and "\<And>x. x \<in> set es \<Longrightarrow> ep_num x \<in> real_nums v" "es \<noteq> []"
  shows "\<exists>r. hash_of e f es (cfg_chRingSize c) = Some r \<and> length r = unat (cfg_chRingSize c) \<and>
    (\<forall>x\<in>set r. \<exists>y\<in>set es. x = sint (ep_num y))"
proof -
  have p: "pool (set (numbers 1 (maxReals c))) (realNums st) (real_own st)"
    using assms(2) by (simp add: lb_inv_def pools_ok_def)
  have "ep_num x < maxReals c" if x: "x \<in> set es" for x
  proof -
    obtain a rm where "lb_reals st a = Some rm" "rm_num rm = ep_num x"
      using linkedD(3) [where vs = vs and k = k, OF assms(3,4) assms(5) [OF x]] by blast
    then show ?thesis using pool_owner_in [OF p, of a "ep_num x"] by (simp add: real_own_def set_numbers)
  qed
  then show ?thesis using assms(1,6) by (simp add: hash_fills_def)
qed

lemma batch_vip:
  assumes "hash_fills e c" "lb_inv c e st" "linked (vs(k \<mapsto> upd_vip us v)) (lb_reals st)"
    "chRingSize v = cfg_chRingSize c"
  obtains d v' where "batchRealsUpdate (hash_of e) us v = Some (d, v')"
    "vip_reals v' = vip_reals (upd_vip us v)" "vipFlags v' = vipFlags v" "chRingSize v' = chRingSize v"
proof -
  obtain es w where g: "getEndpoints us v = (es, w)" by fastforce
  have w: "vip_reals w = vip_reals (upd_vip us v)" "vipFlags w = vipFlags v" "chRingSize w = chRingSize v"
    using g by (auto simp: getEndpoints_def upd_vip_def Let_def split_def split: if_splits)
  have at: "(vs(k \<mapsto> upd_vip us v)) k = Some (upd_vip us v)" by simp
  have "es \<noteq> [] \<Longrightarrow> hash_of e (chash w) es (chRingSize w) \<noteq> None"
    using hash_returns [where es = es and f = "chash w" and k = k, OF assms(1-3) at] endpoint_nums(1) [OF g] w(3) assms(4)
    by auto
  from calculate_vip [of es "hash_of e" w, OF this] show ?thesis
    using that g w by (auto simp: batchRealsUpdate_def)
qed

section \<open>One real of a batch\<close>

text \<open>The numbers the loop takes for the ones of the VIP agree with it for the address b.\<close>

definition seen :: "u32 list \<Rightarrow> vip \<Rightarrow> (ip \<rightharpoonup> real_meta) \<Rightarrow> ip \<Rightarrow> bool" where
  "seen cur w rs b \<longleftrightarrow> (\<forall>rm. rs b = Some rm \<longrightarrow> (rm_num rm \<in> set cur \<longleftrightarrow> rm_num rm \<in> real_nums w))"

lemma weights_none:
  "rs a = Some rm \<Longrightarrow> rm_num rm \<notin> real_nums w \<Longrightarrow> weights rs w a = None"
  by (simp add: weights_def real_nums_def domIff)

lemma view_at: "vs k = Some w \<Longrightarrow> view vs rs k = Some (vipFlags w, weights rs w)"
  by (simp add: view_def)

lemma spec_real_none:
  assumes "parse_ip e (nr_address r) = Some a" "vs k = Some w" "weights rs w a = None"
  shows "spec_real e c DEL k r (view vs rs) = view vs rs"
proof -
  have "(weights rs w)(a := None) = weights rs w" using assms(3) by (simp add: fun_upd_idem)
  then show ?thesis using assms view_at [of vs k w rs, OF assms(2)] by (simp add: spec_real_def fun_upd_idem)
qed

lemma del_one:
  assumes l: "linked vs rs" and w: "vs k = Some w" and a: "parse_ip e (nr_address r) = Some a"
    and rm: "rs a = Some rm" "rm_num rm \<in> real_nums w"
    and w': "sets_real w (rm_num rm) None w'"
  shows "linked (vs(k \<mapsto> w')) (drop_ref a rs) \<and>
    view (vs(k \<mapsto> w')) (drop_ref a rs) = spec_real e c DEL k r (view vs rs) \<and>
    (\<forall>b. b \<noteq> a \<longrightarrow> seen cur w rs b \<longrightarrow> seen cur w' (drop_ref a rs) b)"
proof (intro conjI allI impI)
  show "linked (vs(k \<mapsto> w')) (drop_ref a rs)" by (rule link_drop(1) [OF l w rm w'])
  show "view (vs(k \<mapsto> w')) (drop_ref a rs) = spec_real e c DEL k r (view vs rs)"
    using link_drop(2) [OF l w rm w'] a view_at [of vs k w rs, OF w] by (simp add: spec_real_def)
  fix b assume b: "b \<noteq> a" "seen cur w rs b"
  have "drop_ref a rs b = rs b" using b by (simp add: drop_ref_def split: option.split)
  then show "seen cur w' (drop_ref a rs) b"
    using b real_nums_sets [OF w'] other_num [OF l rm(1) b(1)] by (simp add: seen_def)
qed

lemma add_known:
  assumes l: "linked vs rs" and w: "vs k = Some w" and a: "parse_ip e (nr_address r) = Some a"
    and rm: "rs a = Some rm" and s: "seen cur w rs a" and few: "card (dom vs) < 2 ^ 32"
    and x: "weight x = nr_weight r" and w': "sets_real w (rm_num rm) (Some x) w'"
  defines "rs' \<equiv> if rm_num rm \<in> set cur then rs else add_ref a rs"
    and "cur' \<equiv> if rm_num rm \<in> set cur then cur else cur @ [rm_num rm]"
  shows "linked (vs(k \<mapsto> w')) rs' \<and> view (vs(k \<mapsto> w')) rs' = spec_real e c ADD k r (view vs rs) \<and>
    (\<forall>b. b \<noteq> a \<longrightarrow> seen cur w rs b \<longrightarrow> seen cur' w' rs' b)"
proof -
  have n: "rm_num rm \<in> set cur \<longleftrightarrow> rm_num rm \<in> real_nums w" using s rm by (simp add: seen_def)
  have lv: "linked (vs(k \<mapsto> w')) rs' \<and>
      view (vs(k \<mapsto> w')) rs' = (view vs rs)(k \<mapsto> (vipFlags w, (weights rs w)(a \<mapsto> weight x)))"
  proof (cases "rm_num rm \<in> set cur")
    case True
    then show ?thesis using link_again [OF l w rm _ w'] n by (simp add: rs'_def)
  next
    case False
    then show ?thesis using link_known [OF l w rm _ w' few] n by (simp add: rs'_def)
  qed
  have "spec_real e c ADD k r (view vs rs) = (view vs rs)(k \<mapsto> (vipFlags w, (weights rs w)(a \<mapsto> weight x)))"
    using a view_at [of vs k w rs, OF w] x rm used_view [OF l] by (simp add: spec_real_def domI)
  moreover have "seen cur' w' rs' b" if b: "b \<noteq> a" "seen cur w rs b" for b
  proof -
    have "rs' b = rs b" using b rm by (simp add: rs'_def add_ref_def)
    then show ?thesis using b real_nums_sets [OF w'] other_num [OF l rm b(1)]
      by (simp add: seen_def cur'_def)
  qed
  ultimately show ?thesis using lv by simp
qed

lemma add_new:
  assumes l: "linked vs rs" and w: "vs k = Some w" and a: "parse_ip e (nr_address r) = Some a"
    and rm: "rs a = None" and n: "n \<notin> rm_num ` ran rs" and room: "card (dom rs) + 1 < unat (maxReals c)"
    and x: "weight x = nr_weight r" and w': "sets_real w n (Some x) w'"
    and rs': "rs' = rs(a \<mapsto> \<lparr>rm_num = n, refCount = 1, rm_flags = fl\<rparr>)"
  shows "linked (vs(k \<mapsto> w')) rs' \<and> view (vs(k \<mapsto> w')) rs' = spec_real e c ADD k r (view vs rs) \<and>
    (\<forall>b. b \<noteq> a \<longrightarrow> seen cur w rs b \<longrightarrow> seen cur w' rs' b)"
proof -
  have "spec_real e c ADD k r (view vs rs) = (view vs rs)(k \<mapsto> (vipFlags w, (weights rs w)(a \<mapsto> weight x)))"
    using a view_at [of vs k w rs, OF w] x used_view [OF l] room by (simp add: spec_real_def)
  moreover have "seen cur w' rs' b" if b: "b \<noteq> a" "seen cur w rs b" for b
    using b real_nums_sets [OF w'] n by (auto simp: seen_def rs' ran_def)
  ultimately show ?thesis using link_fresh [OF l w rm n w' rs'] by simp
qed

section \<open>A batch\<close>

text \<open>The state in the middle of a batch, with the updates so far put into the VIP.\<close>

definition mid :: "vip_key \<Rightarrow> vip \<Rightarrow> update_real list \<Rightarrow> lb \<Rightarrow> vip_key \<rightharpoonup> vip" where
  "mid k v us st = (map_of (vips st))(k \<mapsto> upd_vip us v)"

definition del_update :: "u32 \<Rightarrow> update_real" where
  "del_update n = \<lparr>action = DEL, updatedReal = \<lparr>ep_num = n, ep_weight = 0, ep_hash = 0\<rparr>\<rparr>"

definition add_update :: "env \<Rightarrow> new_real \<Rightarrow> ip \<Rightarrow> u32 \<Rightarrow> update_real" where
  "add_update e r a n = \<lparr>action = ADD, updatedReal =
     \<lparr>ep_num = n, ep_weight = nr_weight r, ep_hash = ip_hash e a\<rparr>\<rparr>"

lemma mid_snoc:
  assumes "linked (mid k v us st) rs"
  shows "mid k v (us @ [u]) st = (mid k v us st)(k \<mapsto> upd_vip (us @ [u]) v)"
    "sets_real (upd_vip us v) n None (upd_vip (us @ [del_update n]) v)"
    "\<exists>x. weight x = nr_weight r \<and> sets_real (upd_vip us v) n (Some x) (upd_vip (us @ [add_update e r a n]) v)"
proof -
  have d: "distinct (map fst (vip_reals (upd_vip us v)))"
    using linkedD(2) [OF assms, of k] by (simp add: mid_def)
  show "mid k v (us @ [u]) st = (mid k v us st)(k \<mapsto> upd_vip (us @ [u]) v)" by (simp add: mid_def)
  show "sets_real (upd_vip us v) n None (upd_vip (us @ [del_update n]) v)"
    using apply_sets(1) [OF d, of "del_update n" False] by (simp add: upd_vip_snoc del_update_def)
  show "\<exists>x. weight x = nr_weight r \<and> sets_real (upd_vip us v) n (Some x) (upd_vip (us @ [add_update e r a n]) v)"
    using apply_sets(2) [OF d, of "add_update e r a n" False] by (simp add: upd_vip_snoc add_update_def)
qed

definition mid_ok :: "env \<Rightarrow> lb_config \<Rightarrow> vip_key \<Rightarrow> vip \<Rightarrow> u32 list \<times> update_real list \<times> lb \<Rightarrow> bool" where
  "mid_ok e c k v s \<longleftrightarrow> (case s of (cur, us, st) \<Rightarrow>
     lb_inv c e st \<and> map_of (vips st) k = Some v \<and> linked (mid k v us st) (lb_reals st))"

definition mid_view :: "vip_key \<Rightarrow> vip \<Rightarrow> u32 list \<times> update_real list \<times> lb \<Rightarrow> spec" where
  "mid_view k v s = (case s of (cur, us, st) \<Rightarrow> view (mid k v us st) (lb_reals st))"

definition mid_seen :: "vip_key \<Rightarrow> vip \<Rightarrow> u32 list \<times> update_real list \<times> lb \<Rightarrow> ip \<Rightarrow> bool" where
  "mid_seen k v s b \<longleftrightarrow> (case s of (cur, us, st) \<Rightarrow> seen cur (upd_vip us v) (lb_reals st) b)"

lemma few_vips:
  assumes "lb_inv c e st" "map_of (vips st) k = Some v"
  shows "card (dom (mid k v us st)) < 2 ^ 32"
proof -
  have "dom (mid k v us st) = dom (map_of (vips st))" using assms(2) by (auto simp: mid_def)
  then have "card (dom (mid k v us st)) \<le> unat (maxVips c)" using free_numbers(1) [OF assms(1)] by simp
  also have "\<dots> < 2 ^ 32" using unsigned_less [of "maxVips c"] by simp
  finally show ?thesis .
qed

text \<open>What one step of the loop does to the three parts.\<close>

definition step_sound :: "env \<Rightarrow> lb_config \<Rightarrow> modify_action \<Rightarrow> vip_key \<Rightarrow> vip \<Rightarrow> new_real
    \<Rightarrow> (vip_key \<rightharpoonup> vip) \<Rightarrow> u32 list \<times> update_real list \<times> lb \<Rightarrow> u32 list \<times> update_real list \<times> lb \<Rightarrow> bool" where
  "step_sound e c act k v r vs s s' \<longleftrightarrow> (case (s, s') of ((cur, us, st), (cur', us', st')) \<Rightarrow>
     linked (vs(k \<mapsto> upd_vip us' v)) (lb_reals st') \<and>
     view (vs(k \<mapsto> upd_vip us' v)) (lb_reals st')
       = spec_real e c act k r (view (vs(k \<mapsto> upd_vip us v)) (lb_reals st)) \<and>
     (\<forall>b. parse_ip e (nr_address r) \<noteq> Some b \<longrightarrow> seen cur (upd_vip us v) (lb_reals st) b \<longrightarrow>
        seen cur' (upd_vip us' v) (lb_reals st') b))"

lemma modify_del:
  assumes i: "lb_inv c e st" and l: "linked (mid k v us st) (lb_reals st)"
    and a: "parse_ip e (nr_address r) = Some a" and seen: "seen cur (upd_vip us v) (lb_reals st) a"
  shows "step_sound e c DEL k v r (map_of (vips st)) (cur, us, st) (modify_step e DEL r (cur, us, st))"
proof -
  have w: "mid k v us st k = Some (upd_vip us v)" by (simp add: mid_def)
  have val: "validateAddress e (nr_address r) False st = (HOST, st)" using a by simp
  show ?thesis
  proof (cases "\<exists>rm. lb_reals st a = Some rm \<and> rm_num rm \<in> set cur")
    case False
    then have n: "modify_step e DEL r (cur, us, st) = (cur, us, st)"
      using val a by (auto simp: modify_step_def Let_def split: option.split)
    have "weights (lb_reals st) (upd_vip us v) a = None"
      using False seen weights_none [of "lb_reals st" a]
      by (cases "lb_reals st a") (auto simp: seen_def, simp add: weights_def)
    then show ?thesis
      using l spec_real_none [where vs = "mid k v us st" and k = k, OF a w]
      unfolding n mid_def by (simp add: step_sound_def)
  next
    case True
    then obtain rm where rm: "lb_reals st a = Some rm" "rm_num rm \<in> set cur" by blast
    have n: "modify_step e DEL r (cur, us, st)
        = (cur, us @ [del_update (rm_num rm)], decreaseRefCountForReal a st)"
      using val a rm by (simp add: modify_step_def Let_def del_update_def)
    have rn: "rm_num rm \<in> real_nums (upd_vip us v)" using seen rm by (simp add: seen_def)
    show ?thesis
      using del_one [where vs = "mid k v us st" and k = k, OF l w a rm(1) rn mid_snoc(2) [OF l], of c cur] a
      unfolding n mid_def by (simp add: step_sound_def lb_reals_decrease)
  qed
qed

lemma modify_add_known:
  assumes i: "lb_inv c e st" and v: "map_of (vips st) k = Some v"
    and l: "linked (mid k v us st) (lb_reals st)" and rm: "lb_reals st a = Some rm"
    and a: "parse_ip e (nr_address r) = Some a" and seen: "seen cur (upd_vip us v) (lb_reals st) a"
  shows "step_sound e c ADD k v r (map_of (vips st)) (cur, us, st) (modify_step e ADD r (cur, us, st))"
proof -
  have w: "mid k v us st k = Some (upd_vip us v)" by (simp add: mid_def)
  have val: "validateAddress e (nr_address r) False st = (HOST, st)" using a by simp
  obtain x where x: "weight x = nr_weight r"
    "sets_real (upd_vip us v) (rm_num rm) (Some x) (upd_vip (us @ [add_update e r a (rm_num rm)]) v)"
    using mid_snoc(3) [OF l] by blast
  have n: "modify_step e ADD r (cur, us, st) =
      (if rm_num rm \<in> set cur then (cur, us @ [add_update e r a (rm_num rm)], st)
       else (cur @ [rm_num rm], us @ [add_update e r a (rm_num rm)],
             snd (increaseRefCountForReal e a (nr_flags r) st)))"
    using val a rm by (simp add: modify_step_def Let_def split_def add_update_def)
  show ?thesis
    using add_known [where vs = "mid k v us st" and k = k, OF l w a rm seen few_vips [OF i v] x, of c] a rm
    unfolding n mid_def by (cases "rm_num rm \<in> set cur") (auto simp: step_sound_def lb_reals_increase)
qed

lemma modify_add_new:
  assumes i: "lb_inv c e st" and l: "linked (mid k v us st) (lb_reals st)"
    and rm: "lb_reals st a = None" and a: "parse_ip e (nr_address r) = Some a"
  shows "step_sound e c ADD k v r (map_of (vips st)) (cur, us, st) (modify_step e ADD r (cur, us, st))"
proof -
  have w: "mid k v us st k = Some (upd_vip us v)" by (simp add: mid_def)
  have val: "validateAddress e (nr_address r) False st = (HOST, st)" using a by simp
  have cf: "config st = c" using i by (simp add: lb_inv_def)
  let ?st = "snd (increaseRefCountForReal e a (nr_flags r) st)"
  show ?thesis
  proof (cases "realNums st")
    case Nil
    then have n: "modify_step e ADD r (cur, us, st) = (cur, us, st)"
      using val a rm cf by (simp add: modify_step_def Let_def increaseRefCountForReal_def)
    have "\<not> card (dom (lb_reals st)) + 1 < unat (maxReals c)" using free_numbers(2) [OF i] Nil by simp
    then show ?thesis
      using l rm a used_view [OF l] unfolding n mid_def
      by (simp add: step_sound_def spec_real_def domIff split: option.split)
  next
    case (Cons n ns)
    have p: "pool (set (numbers 1 (maxReals c))) (n # ns) (real_own st)"
      using i Cons by (simp add: lb_inv_def pools_ok_def)
    then have "n \<in> set (numbers 1 (maxReals c))" by (auto simp: pool_def)
    then have "n \<noteq> maxReals c" by (auto simp: set_numbers)
    moreover have "config ?st = c" using cf front_fields(1) [OF front_increase] by simp
    moreover have "fst (increaseRefCountForReal e a (nr_flags r) st) = n"
      using rm Cons by (simp add: increaseRefCountForReal_def Let_def)
    ultimately have n: "modify_step e ADD r (cur, us, st) = (cur, us @ [add_update e r a n], ?st)"
      using val a rm by (simp add: modify_step_def Let_def split_def add_update_def)
    have rs: "lb_reals ?st = (lb_reals st)(a \<mapsto>
        \<lparr>rm_num = n, refCount = 1, rm_flags = nr_flags r AND NOT V6DADDR\<rparr>)"
      using rm Cons by (simp add: lb_reals_increase)
    obtain x where x: "weight x = nr_weight r"
      "sets_real (upd_vip us v) n (Some x) (upd_vip (us @ [add_update e r a n]) v)"
      using mid_snoc(3) [OF l] by blast
    have fr: "n \<notin> rm_num ` ran (lb_reals st)" using p by (auto simp: pool_def ran_def real_own_def)
    have room: "card (dom (lb_reals st)) + 1 < unat (maxReals c)" using free_numbers(2) [OF i] Cons by simp
    show ?thesis
      using add_new [where vs = "mid k v us st" and k = k, OF l w a rm fr room x rs, of cur] a
      unfolding n mid_def by (simp add: step_sound_def)
  qed
qed

lemma modify_step_view:
  assumes "real_addresses e" and ok: "mid_ok e c k v s"
    and sn: "\<And>a. parse_ip e (nr_address r) = Some a \<Longrightarrow> mid_seen k v s a"
  shows "mid_ok e c k v (modify_step e act r s) \<and>
    mid_view k v (modify_step e act r s) = spec_real e c act k r (mid_view k v s) \<and>
    (\<forall>b. parse_ip e (nr_address r) \<noteq> Some b \<longrightarrow> mid_seen k v s b \<longrightarrow> mid_seen k v (modify_step e act r s) b)"
proof -
  obtain cur us st where s: "s = (cur, us, st)" by (cases s)
  have i: "lb_inv c e st" and v: "map_of (vips st) k = Some v"
    and l: "linked (mid k v us st) (lb_reals st)"
    using ok by (simp_all add: s mid_ok_def)
  have "step_sound e c act k v r (map_of (vips st)) (cur, us, st) (modify_step e act r (cur, us, st))"
  proof (cases "parse_ip e (nr_address r)")
    case None
    then show ?thesis using l
      by (simp add: step_sound_def modify_step_def validateAddress_def mid_def spec_real_def)
  next
    case (Some a)
    have "seen cur (upd_vip us v) (lb_reals st) a" using sn [OF Some] s by (simp add: mid_seen_def)
    then show ?thesis
      using modify_del [OF i l Some] modify_add_known [OF i v l _ Some] modify_add_new [OF i l _ Some]
      by (cases act; cases "lb_reals st a") simp_all
  qed
  moreover obtain cur' us' st' where s': "modify_step e act r s = (cur', us', st')"
    by (cases "modify_step e act r s")
  moreover have "lb_inv c e st'" using inv_modify_step [OF assms(1), of c s act r] i s s' by simp
  moreover have "vips st' = vips st"
    using front_fields(3) [OF front_modify_step, of e act r s] s s' by simp
  ultimately show ?thesis
    using s v by (simp add: step_sound_def mid_ok_def mid_view_def mid_seen_def mid_def)
qed

section \<open>The calls\<close>

definition spec_inv :: "lb_config \<Rightarrow> env \<Rightarrow> lb \<Rightarrow> bool" where
  "spec_inv c e st \<longleftrightarrow> lb_inv c e st \<and> linked (map_of (vips st)) (lb_reals st) \<and>
     (\<forall>k v. map_of (vips st) k = Some v \<longrightarrow> chRingSize v = cfg_chRingSize c)"

lemma spec_size: "spec_inv c e st \<Longrightarrow> map_of (vips st) k = Some v \<Longrightarrow> chRingSize v = cfg_chRingSize c"
  by (simp add: spec_inv_def)

text \<open>A call the hash functions and the batches of which are in order: no address twice in a batch.\<close>

definition no_repeats :: "env \<Rightarrow> new_real list \<Rightarrow> bool" where
  "no_repeats e rs \<longleftrightarrow> distinct (filter (\<lambda>a. a \<noteq> None) (map (\<lambda>r. parse_ip e (nr_address r)) rs))"

lemma modify_all_view:
  assumes "real_addresses e" "no_repeats e rs" "mid_ok e c k v s"
    and "\<And>r a. r \<in> set rs \<Longrightarrow> parse_ip e (nr_address r) = Some a \<Longrightarrow> mid_seen k v s a"
  shows "mid_ok e c k v (fold (modify_step e act) rs s) \<and>
    mid_view k v (fold (modify_step e act) rs s) = fold (spec_real e c act k) rs (mid_view k v s)"
  using assms(2-)
proof (induction rs arbitrary: s)
  case (Cons r rs)
  have o: "parse_ip e (nr_address r) \<noteq> Some a" if "q \<in> set rs" "parse_ip e (nr_address q) = Some a" for q a
    using Cons.prems(1) that by (force simp: no_repeats_def split: if_splits)
  have m: "mid_ok e c k v (modify_step e act r s)"
    "mid_view k v (modify_step e act r s) = spec_real e c act k r (mid_view k v s)"
    "parse_ip e (nr_address r) \<noteq> Some b \<Longrightarrow> mid_seen k v s b \<Longrightarrow> mid_seen k v (modify_step e act r s) b" for b
    using modify_step_view [OF assms(1) Cons.prems(2), of r act] Cons.prems(3) [of r] by auto
  have "mid_seen k v (modify_step e act r s) a" if "q \<in> set rs" "parse_ip e (nr_address q) = Some a" for q a
    using m(3) [OF o [OF that]] Cons.prems(3) [of q a] that by simp
  moreover have "no_repeats e rs" using Cons.prems(1) by (auto simp: no_repeats_def split: if_splits)
  ultimately show ?case using Cons.IH [OF _ m(1)] m(2) by simp
qed simp

lemma spec_of_fields: "vips st' = vips st \<Longrightarrow> lb_reals st' = lb_reals st \<Longrightarrow> spec_of st' = spec_of st"
  by (simp add: spec_of_def)

lemma map_of_put: "map_of (vips (put_vip k v st)) = (map_of (vips st))(k \<mapsto> v)"
  by (simp add: put_vip_def update_conv')

lemma modifyReals_batch:
  assumes e: "real_addresses e" "hash_fills e c" "no_repeats e rs"
    and i: "spec_inv c e st" and v: "map_of (vips st) k = Some v"
  obtains us d w st1 where
    "modifyRealsForVip e act rs k st = (Ret True, programHashRing e d (vipNum w) (put_vip k w st1))"
    "lb_inv c e st1" "vips st1 = vips st"
    "linked ((map_of (vips st))(k \<mapsto> upd_vip us v)) (lb_reals st1)"
    "view ((map_of (vips st))(k \<mapsto> upd_vip us v)) (lb_reals st1) = fold (spec_real e c act k) rs (spec_of st)"
    "batchRealsUpdate (hash_of e) us v = Some (d, w)" "vip_reals w = vip_reals (upd_vip us v)"
    "vipFlags w = vipFlags (upd_vip us v)" "chRingSize w = cfg_chRingSize c"
proof -
  let ?s0 = "(getReals v, [], st) :: u32 list \<times> update_real list \<times> lb"
  obtain cur us st1 where f: "fold (modify_step e act) rs ?s0 = (cur, us, st1)"
    by (cases "fold (modify_step e act) rs ?s0")
  have m0: "mid k v [] st = map_of (vips st)" using v by (simp add: mid_def fun_upd_idem)
  have "mid_ok e c k v ?s0" using i v m0 by (simp add: mid_ok_def spec_inv_def)
  moreover have "mid_seen k v ?s0 a" for a
    by (auto simp: mid_seen_def seen_def getReals_def real_nums_def dom_map_of_conv_image_fst)
  ultimately have m: "mid_ok e c k v (cur, us, st1)"
    "mid_view k v (cur, us, st1) = fold (spec_real e c act k) rs (spec_of st)"
    using modify_all_view [OF e(1,3), of c k v ?s0 act] m0 f by (simp_all add: mid_view_def spec_of_def)
  have "front st1 = front st"
    using fold_keeps [where P = "\<lambda>s. front (snd (snd s)) = front st" and f = "modify_step e act" and xs = rs and s = ?s0]
      front_modify_step f by simp
  then have vs: "vips st1 = vips st" by (rule front_fields)
  have l: "lb_inv c e st1" "linked ((map_of (vips st))(k \<mapsto> upd_vip us v)) (lb_reals st1)"
    "view ((map_of (vips st))(k \<mapsto> upd_vip us v)) (lb_reals st1) = fold (spec_real e c act k) rs (spec_of st)"
    using m vs by (simp_all add: mid_ok_def mid_view_def mid_def)
  obtain d w where b: "batchRealsUpdate (hash_of e) us v = Some (d, w)"
    "vip_reals w = vip_reals (upd_vip us v)" "vipFlags w = vipFlags (upd_vip us v)"
    "chRingSize w = cfg_chRingSize c"
    using batch_vip [OF e(2) l(1,2) spec_size [OF i v]] spec_size [OF i v] by (auto simp: upd_vip_def)
  show ?thesis
    by (rule that [OF _ l(1) vs l(2,3) b]) (simp add: modifyRealsForVip_def v f b(1))
qed

lemma program_put:
  "map_of (vips (programHashRing e d n (put_vip k w st))) = (map_of (vips st))(k \<mapsto> w)"
  "lb_reals (programHashRing e d n (put_vip k w st)) = lb_reals st"
  using hull_fields(6,8) [OF hull_programHashRing, of e d n "put_vip k w st"]
  by (simp_all add: map_of_put) (simp add: put_vip_def)

lemma spec_modifyReals:
  assumes e: "real_addresses e" "hash_fills e c" "no_repeats e rs"
    and i: "spec_inv c e st"
  shows "\<exists>st'. modifyRealsForVip e act rs k st
      = (Ret (fst (spec_call e c (ModifyReals act rs k) (spec_of st))), st') \<and>
    spec_inv c e st' \<and> spec_of st' = snd (spec_call e c (ModifyReals act rs k) (spec_of st))"
proof (cases "map_of (vips st) k")
  case None
  then show ?thesis using i by (simp add: modifyRealsForVip_def spec_of_def view_def)
next
  case (Some v)
  from modifyReals_batch [OF e i Some] obtain us d w st1 where
    r: "modifyRealsForVip e act rs k st = (Ret True, programHashRing e d (vipNum w) (put_vip k w st1))"
    and st1: "vips st1 = vips st" "linked ((map_of (vips st))(k \<mapsto> upd_vip us v)) (lb_reals st1)"
      "view ((map_of (vips st))(k \<mapsto> upd_vip us v)) (lb_reals st1) = fold (spec_real e c act k) rs (spec_of st)"
    and w: "vip_reals w = vip_reals (upd_vip us v)" "vipFlags w = vipFlags (upd_vip us v)"
      "chRingSize w = cfg_chRingSize c" .
  let ?st = "programHashRing e d (vipNum w) (put_vip k w st1)"
  have f: "map_of (vips ?st) = (map_of (vips st))(k \<mapsto> w)" "lb_reals ?st = lb_reals st1"
    by (simp_all add: program_put st1(1))
  note same = same_vip [OF w(1,2), of "map_of (vips st)" k "lb_reals st1"]
  have "lb_inv c e ?st" using inv_modifyRealsForVip [OF e(1), of c st act rs k] i r by (simp add: spec_inv_def)
  then have "spec_inv c e ?st" using st1(2) same(1) f w(3) i by (simp add: spec_inv_def)
  moreover have "spec_of ?st = fold (spec_real e c act k) rs (spec_of st)"
    using st1(3) same(2) f by (simp add: spec_of_def)
  moreover have "spec_of st k \<noteq> None" using Some by (simp add: spec_of_def view_def)
  ultimately show ?thesis using r by simp
qed

lemma linked_new:
  assumes l: "linked vs rs" and n: "vs k = None" and w: "vip_reals w = []"
  shows "linked (vs(k \<mapsto> w)) rs" "view (vs(k \<mapsto> w)) rs = (view vs rs)(k \<mapsto> (vipFlags w, Map.empty))"
proof -
  have r: "real_nums w = {}" using w by (simp add: real_nums_def)
  then have "users (vs(k \<mapsto> w)) m = users vs m" for m using n by (auto simp: users_def)
  then show "linked (vs(k \<mapsto> w)) rs" using l r w by (simp add: linked_def)
  have "weights rs w = Map.empty" using w by (simp add: weights_def fun_eq_iff split: option.split)
  then show "view (vs(k \<mapsto> w)) rs = (view vs rs)(k \<mapsto> (vipFlags w, Map.empty))"
    by (simp add: view_def fun_eq_iff)
qed

lemma linked_remove:
  assumes l: "linked (vs(k \<mapsto> w)) rs" and w: "vip_reals w = []"
  shows "linked (vs(k := None)) rs" "view (vs(k := None)) rs = (view (vs(k \<mapsto> w)) rs)(k := None)"
proof -
  have r: "real_nums w = {}" using w by (simp add: real_nums_def)
  then have u: "users (vs(k := None)) m = users (vs(k \<mapsto> w)) m" for m by (auto simp: users_def)
  have o: "(vs(k \<mapsto> w)) j = Some v" if "(vs(k := None)) j = Some v" for j v
    using that by (simp split: if_splits)
  show "linked (vs(k := None)) rs"
    unfolding linked_def u
    using linkedD [OF l] o by (auto simp: ran_def image_iff simp del: fun_upd_apply) metis+
  show "view (vs(k := None)) rs = (view (vs(k \<mapsto> w)) rs)(k := None)"
    by (simp add: view_def fun_eq_iff)
qed

lemma drop_all:
  assumes "lb_inv c e st" "linked (vs(k \<mapsto> w)) (lb_reals st)"
  defines "st' \<equiv> fold drop_real (getReals w) st" and "w' \<equiv> w\<lparr>vip_reals := []\<rparr>"
  shows "linked (vs(k \<mapsto> w')) (lb_reals st') \<and>
    view (vs(k \<mapsto> w')) (lb_reals st') = (view (vs(k \<mapsto> w)) (lb_reals st))(k \<mapsto> (vipFlags w, Map.empty))"
  using assms(1,2) unfolding st'_def w'_def
proof (induction "vip_reals w" arbitrary: w st)
  case Nil
  then have "w\<lparr>vip_reals := []\<rparr> = w" "weights (lb_reals st) w = Map.empty" "getReals w = []"
    by (simp_all add: getReals_def weights_def fun_eq_iff split: option.split)
  then show ?case using Nil.prems by (simp add: view_def fun_eq_iff)
next
  case (Cons x xs)
  let ?vs = "vs(k \<mapsto> w)" and ?w = "w\<lparr>vip_reals := xs\<rparr>"
  have w: "?vs k = Some w" by simp
  have x: "vip_reals w = x # xs" using Cons.hyps(2) by simp
  have n: "fst x \<in> real_nums w" by (simp add: real_nums_def flip: x) (simp add: x domIff split: prod.split)
  obtain a rm where a: "lb_reals st a = Some rm" "rm_num rm = fst x"
    using linkedD(3) [OF Cons.prems(2) w n] by blast
  have d: "distinct (map fst (vip_reals w))" using linkedD(2) [OF Cons.prems(2) w] .
  then have "map_of xs (fst x) = None" using x by (simp add: map_of_eq_None_iff)
  then have s: "sets_real w (rm_num rm) None ?w"
    using d x a(2) by (cases x) (auto simp: sets_real_def fun_eq_iff)
  have b: "numToReals st (fst x) = Some a"
    using Cons.prems(1) a by (simp add: lb_inv_def numbers_lead_back_def real_own_def)
  have r: "lb_reals (drop_real (fst x) st) = drop_ref a (lb_reals st)"
    by (simp add: drop_real_def num_to_real_def b lb_reals_decrease)
  note l = link_drop [where vs = ?vs and k = k, OF Cons.prems(2) w a(1) _ s]
  have "linked (vs(k \<mapsto> ?w)) (lb_reals (drop_real (fst x) st))" using l(1) n a(2) r by simp
  from Cons.hyps(1) [of ?w, OF _ inv_drop_real [OF Cons.prems(1)] this]
  show ?case using l(2) n a(2) r x by (simp add: getReals_def)
qed

lemma spec_delVip:
  assumes i: "spec_inv c e st"
  shows "\<exists>st'. delVip e k st = (Ret (fst (spec_call e c (DelVip k) (spec_of st))), st') \<and>
    spec_inv c e st' \<and> spec_of st' = snd (spec_call e c (DelVip k) (spec_of st))"
proof (cases rule: delVip_cases [of st k e])
  case unknown
  then show ?thesis using i by (simp add: spec_of_def view_def fun_upd_idem)
next
  case (deleted v st')
  let ?s = "fold drop_real (getReals v) st"
  have v: "(map_of (vips st))(k \<mapsto> v) = map_of (vips st)" using deleted(1) by (simp add: fun_upd_idem)
  have f: "map_of (vips st') = (map_of (vips st))(k := None)" "lb_reals st' = lb_reals ?s"
    using hull_fields(6,8) [OF deleted(4)] by (simp_all add: delete_conv')
  have "linked ((map_of (vips st))(k \<mapsto> v\<lparr>vip_reals := []\<rparr>)) (lb_reals ?s) \<and>
    view ((map_of (vips st))(k \<mapsto> v\<lparr>vip_reals := []\<rparr>)) (lb_reals ?s)
      = (view (map_of (vips st)) (lb_reals st))(k \<mapsto> (vipFlags v, Map.empty))"
    using drop_all [of c e st "map_of (vips st)" k v] i v by (simp add: spec_inv_def)
  note d = linked_remove [OF conjunct1 [OF this]] conjunct2 [OF this]
  have "spec_of st' = (spec_of st)(k := None)" using d f by (simp add: spec_of_def)
  moreover have "spec_inv c e st'"
    using d f inv_delVip [of c e st k] i deleted(3) by (simp add: spec_inv_def)
  moreover have "spec_of st k \<noteq> None" using deleted(1) by (simp add: spec_of_def view_def)
  ultimately show ?thesis using deleted(3) by simp
next
  case (thrown v st')
  then have "vip_own st k \<noteq> None" by (simp add: vip_own_map)
  with thrown(2) i have False by (auto simp: spec_inv_def lb_inv_def vips_parse_def)
  then show ?thesis ..
qed

lemma dom_spec: "dom (spec_of st) = dom (map_of (vips st))"
  by (auto simp: spec_of_def view_def)

lemma spec_addVip:
  assumes i: "spec_inv c e st"
  shows "\<exists>st'. addVip e k f st = (Ret (fst (spec_call e c (AddVip k f) (spec_of st))), st') \<and>
    spec_inv c e st' \<and> spec_of st' = snd (spec_call e c (AddVip k f) (spec_of st))"
proof -
  have lb: "lb_inv c e st" using i by (simp add: spec_inv_def)
  then have cf: "config st = c" by (simp add: lb_inv_def)
  have room: "vipNums st = [] \<longleftrightarrow> card (dom (spec_of st)) \<ge> unat (maxVips c)"
    using free_numbers(1) [OF lb] by (cases "vipNums st") (simp_all add: dom_spec)
  have known: "map_of (vips st) k \<noteq> None \<longleftrightarrow> spec_of st k \<noteq> None" by (simp add: spec_of_def view_def)
  show ?thesis
  proof (cases rule: addVip_cases [of e k f st])
    case (refused st')
    have "parse_ip e (vk_address k) = None \<or> vipNums st = [] \<or> map_of (vips st) k \<noteq> None"
    proof (rule ccontr)
      assume "\<not> ?thesis"
      then obtain a n ns where "parse_ip e (vk_address k) = Some a" "vipNums st = n # ns" "map_of (vips st) k = None"
        by (cases "vipNums st") auto
      then show False
        using refused(1) updateVipMap_returns [of e k] by (auto simp: addVip_def Let_def split_def split: if_splits)
    qed
    moreover have "spec_of st' = spec_of st" "lb_reals st' = lb_reals st" "vips st' = vips st"
      using hull_fields(6,8) [OF refused(2)] by (simp_all add: spec_of_def)
    moreover have "lb_inv c e st'" using inv_addVip [OF lb, of k f] refused(1) by simp
    ultimately show ?thesis using i refused(1) room known by (auto simp: spec_inv_def)
  next
    case (added n ns st')
    let ?w = "new_vip n f (cfg_chRingSize (config st)) (hashFunction (config st))"
    have g: "map_of (vips st') = (map_of (vips st))(k \<mapsto> ?w)" "lb_reals st' = lb_reals st"
      using hull_fields(6,8) [OF added(5)] by (simp_all add: update_conv')
    have "linked (map_of (vips st)) (lb_reals st)" using i by (simp add: spec_inv_def)
    note w = linked_new [where vs = "map_of (vips st)" and k = k and w = ?w, OF this added(2)]
    have "lb_inv c e st'" using inv_addVip [OF lb, of k f] added(4) by simp
    then have "spec_inv c e st'" using w(1) g by (simp add: spec_inv_def new_vip_def) (use i cf in \<open>auto simp: spec_inv_def\<close>)
    moreover have "spec_of st' = (spec_of st)(k \<mapsto> (f, Map.empty))"
      using w(2) g by (simp add: spec_of_def new_vip_def)
    moreover have "vipNums st \<noteq> []" using added(1) by simp
    ultimately show ?thesis using added(2-4) room known by auto
  qed
qed

lemma linked_flags:
  assumes l: "linked vs rs" and v: "vs k = Some v" and w: "vip_reals w = vip_reals v"
  shows "linked (vs(k \<mapsto> w)) rs" "view (vs(k \<mapsto> w)) rs = (view vs rs)(k \<mapsto> (vipFlags w, weights rs v))"
proof -
  have r: "real_nums w = real_nums v" using w by (simp add: real_nums_def)
  then have u: "users (vs(k \<mapsto> w)) m = users vs m" for m
    using users_at [where vs = vs and k = k and m = m, OF v] users_upd [of _ vs k w m]
    by (auto split: if_splits)
  have o: "\<exists>u. vs j = Some u \<and> vip_reals u = vip_reals x \<and> real_nums u = real_nums x"
    if "(vs(k \<mapsto> w)) j = Some x" for j x
    using that v w r by (auto split: if_splits)
  show "linked (vs(k \<mapsto> w)) rs"
    unfolding linked_def u
  proof (intro conjI allI impI)
    show "finite (dom (vs(k \<mapsto> w)))" using linkedD(1) [OF l] by simp
    fix j x assume "(vs(k \<mapsto> w)) j = Some x"
    then obtain y where "vs j = Some y" "vip_reals y = vip_reals x" "real_nums y = real_nums x"
      using o by blast
    then show "distinct (map fst (vip_reals x))" "real_nums x \<subseteq> rm_num ` ran rs"
      using l unfolding linked_def by metis+
  qed (use linkedD(4-6) [OF l] in blast)+
  have "weights rs w = weights rs v" using w by (auto simp: weights_def fun_eq_iff split: option.split)
  then show "view (vs(k \<mapsto> w)) rs = (view vs rs)(k \<mapsto> (vipFlags w, weights rs v))"
    by (simp add: view_def fun_eq_iff)
qed

text \<open>An operation that keeps the reals of a VIP and writes it back.\<close>

lemma spec_put:
  assumes i: "spec_inv c e st" and v: "map_of (vips st) k = Some v" and w: "vip_reals w = vip_reals v"
    and z: "chRingSize w = chRingSize v"
    and h: "hull st' = hull (put_vip k w st)" and j: "lb_inv c e st'"
  shows "spec_inv c e st' \<and> spec_of st' = (spec_of st)(k \<mapsto> (vipFlags w, weights (lb_reals st) v))"
proof -
  have f: "map_of (vips st') = (map_of (vips st))(k \<mapsto> w)" "lb_reals st' = lb_reals st"
    using hull_fields(6,8) [OF h] by (simp_all add: map_of_put) (simp add: put_vip_def)
  have "linked (map_of (vips st)) (lb_reals st)" using i by (simp add: spec_inv_def)
  from linked_flags [where vs = "map_of (vips st)" and k = k, OF this v w] show ?thesis
    using f j z i spec_size [OF i v] by (simp add: spec_inv_def spec_of_def)
qed

lemma updateVipMap_ok:
  "parse_ip e (vk_address k) \<noteq> None \<Longrightarrow> bpf_ok e (ncalls st) \<Longrightarrow> fst (updateVipMap e ADD k m st) = Ret True"
  by (auto simp: updateVipMap_def vipKeyToVipDefinition_def counted_call_def bpf_call_def Let_def)

lemma known_parses: "spec_inv c e st \<Longrightarrow> map_of (vips st) k = Some v \<Longrightarrow> parse_ip e (vk_address k) \<noteq> None"
  by (auto simp: spec_inv_def lb_inv_def vips_parse_def vip_own_map)

lemma spec_at: "map_of (vips st) k = Some v \<Longrightarrow> spec_of st k = Some (vipFlags v, weights (lb_reals st) v)"
  by (simp add: spec_of_def view_def)

lemma spec_modifyVip:
  assumes i: "spec_inv c e st" and ok: "\<And>n. bpf_ok e n"
  shows "\<exists>st'. modifyVip e k f b st = (Ret (fst (spec_call e c (ModifyVip k f b) (spec_of st))), st') \<and>
    spec_inv c e st' \<and> spec_of st' = snd (spec_call e c (ModifyVip k f b) (spec_of st))"
proof (cases "map_of (vips st) k")
  case None
  then show ?thesis using i by (simp add: modifyVip_def spec_of_def view_def)
next
  case (Some v)
  let ?w = "if b then setVipFlags f v else unsetVipFlags f v"
  obtain r st' where m: "modifyVip e k f b st = (r, st')" by fastforce
  have w: "vip_reals ?w = vip_reals v" "vipFlags ?w = (if b then vipFlags v OR f else vipFlags v AND NOT f)"
    "chRingSize ?w = chRingSize v"
    by (simp_all add: setVipFlags_def unsetVipFlags_def)
  have r: "r = Ret True" and h: "hull st' = hull (put_vip k ?w st)"
    using m Some updateVipMap_ok [OF known_parses [OF i Some] ok]
    by (auto simp: modifyVip_def Let_def split: if_splits)
       (metis fst_conv snd_conv hull_updateVipMap)+
  have "lb_inv c e st'" using inv_modifyVip [of c e st k f b] i m by (simp add: spec_inv_def)
  from spec_put [OF i Some w(1,3) h this] show ?thesis using m r w(2) spec_at [OF Some] by simp
qed

lemma spec_changeHash:
  assumes i: "spec_inv c e st" and g: "hash_fills e c"
  shows "\<exists>st'. changeHashFunctionForVip e k h st
      = (Ret (fst (spec_call e c (ChangeHash k h) (spec_of st))), st') \<and>
    spec_inv c e st' \<and> spec_of st' = snd (spec_call e c (ChangeHash k h) (spec_of st))"
proof (cases "map_of (vips st) k")
  case None
  obtain t s where v: "validateAddress e (vk_address k) False st = (t, s)" by fastforce
  then have f: "hull s = hull st" using hull_validate [of e "vk_address k" False st] by simp
  have c: "changeHashFunctionForVip e k h st = (Ret False, s)"
    using None v hull_fields(8) [OF f] by (simp add: changeHashFunctionForVip_def)
  moreover have "lb_inv c e s" using inv_changeHash [of c e st k h] i c by (simp add: spec_inv_def)
  moreover have "spec_of s = spec_of st" using hull_fields(6,8) [OF f] by (simp add: spec_of_def)
  ultimately show ?thesis
    using i None hull_fields(6,8) [OF f] by (simp add: spec_inv_def spec_of_def view_def)
next
  case (Some v)
  then obtain a where p: "parse_ip e (vk_address k) = Some a" using known_parses [OF i] by blast
  let ?v = "setHashFunction h v"
  have l: "lb_inv c e st" "linked (map_of (vips st)) (lb_reals st)" using i by (simp_all add: spec_inv_def)
  have "getRealsAndWeight ?v \<noteq> [] \<Longrightarrow> hash_of e (chash ?v) (getRealsAndWeight ?v) (chRingSize ?v) \<noteq> None"
    using hash_returns [where k = k and es = "getRealsAndWeight ?v" and f = "chash ?v", OF g l Some] endpoint_nums(2) [where v = v]
      spec_size [OF i Some] by (auto simp: setHashFunction_def getRealsAndWeight_def)
  then obtain d w where r: "recalculateHashRing (hash_of e) ?v = Some (d, w)" "vip_reals w = vip_reals v"
    "vipFlags w = vipFlags v" "chRingSize w = chRingSize v"
    using calculate_vip [of "getRealsAndWeight ?v" "hash_of e" ?v]
    by (auto simp: recalculateHashRing_def setHashFunction_def)
  let ?st = "programHashRing e d (vipNum w) (put_vip k w st)"
  have m: "changeHashFunctionForVip e k h st = (Ret True, ?st)"
    using Some p r(1) by (simp add: changeHashFunctionForVip_def Let_def)
  have "lb_inv c e ?st" using inv_changeHash [of c e st k h] i m by (simp add: spec_inv_def)
  from spec_put [OF i Some r(2,4) _ this] have "spec_inv c e ?st \<and>
      spec_of ?st = (spec_of st)(k \<mapsto> (vipFlags v, weights (lb_reals st) v))" using r(3) by simp
  then show ?thesis using m spec_at [OF Some] by (simp add: fun_upd_idem)
qed

section \<open>Histories\<close>

definition call_ok :: "env \<Rightarrow> vip_call \<Rightarrow> bool" where
  "call_ok e c \<longleftrightarrow> (case c of ModifyReals act rs k \<Rightarrow> no_repeats e rs | _ \<Rightarrow> True)"

lemma spec_step:
  assumes "real_addresses e" "\<And>n. bpf_ok e n" "hash_fills e c" "call_ok e x"
    and "spec_inv c e st"
  shows "\<exists>st'. lb_call e x st = (Ret (fst (spec_call e c x (spec_of st))), st') \<and>
    spec_inv c e st' \<and> spec_of st' = snd (spec_call e c x (spec_of st))"
proof (cases x)
  case (ModifyReals act rs k)
  then have "no_repeats e rs" using assms(4) by (simp add: call_ok_def)
  from spec_modifyReals [OF assms(1,3) this assms(5)] show ?thesis using ModifyReals by simp
qed (use spec_addVip [OF assms(5)] spec_delVip [OF assms(5)] spec_modifyVip [OF assms(5,2)]
      spec_changeHash [OF assms(5,3)] in \<open>simp_all only: lb_call.simps\<close>)

lemma spec_run:
  assumes "real_addresses e" "\<And>n. bpf_ok e n" "hash_fills e c"
    and "\<forall>x\<in>set xs. call_ok e x" "spec_inv c e st"
  shows "\<exists>st'. run_calls (lb_call e) xs st = (map Ret (fst (run_calls (spec_call e c) xs (spec_of st))), st') \<and>
    spec_inv c e st' \<and> spec_of st' = snd (run_calls (spec_call e c) xs (spec_of st))"
  using assms(4,5)
proof (induction xs arbitrary: st)
  case (Cons x xs)
  obtain st1 where s: "lb_call e x st = (Ret (fst (spec_call e c x (spec_of st))), st1)"
    "spec_inv c e st1" "spec_of st1 = snd (spec_call e c x (spec_of st))"
    using spec_step [OF assms(1-3), of x st] Cons.prems by auto
  then show ?case using Cons.IH [OF _ s(2)] Cons.prems by (auto simp: split_def Let_def)
qed simp

section \<open>What the calls that read answer\<close>

definition real_row :: "lb \<Rightarrow> endpoint \<Rightarrow> u32 \<times> ip \<times> u8" where
  "real_row st r = (let a = the (numToReals st (ep_num r)) in (ep_weight r, a, rm_flags (the (lb_reals st a))))"

lemma reals_rows:
  assumes "\<And>r. r \<in> set es \<Longrightarrow> \<exists>a rm. numToReals st (ep_num r) = Some a \<and> lb_reals st a = Some rm"
  shows "fold (\<lambda>r (rs, st).
       let (a, st) = num_to_real (ep_num r) st;
           st = (if lb_reals st a = None
                 then st\<lparr>lb_reals := (lb_reals st)(a \<mapsto> \<lparr>rm_num = 0, refCount = 0, rm_flags = 0\<rparr>)\<rparr>
                 else st)
       in (rs @ [(ep_weight r, a, rm_flags (the (lb_reals st a)))], st)) es (acc, st) = (acc @ map (real_row st) es, st)"
  using assms
proof (induction es arbitrary: acc)
  case (Cons r es)
  obtain a rm where a: "numToReals st (ep_num r) = Some a" "lb_reals st a = Some rm"
    using Cons.prems [of r] by auto
  then have n: "num_to_real (ep_num r) st = (a, st)" by (simp add: num_to_real_def)
  have row: "real_row st r = (ep_weight r, a, rm_flags rm)" using a by (simp add: real_row_def)
  show ?case using Cons.IH [of "acc @ [real_row st r]"] Cons.prems a(2) by (simp add: n row)
qed simp

text \<open>The rows of a VIP name each of its addresses once, with its weight.\<close>

lemma rows_view:
  assumes i: "spec_inv c e st" and v: "map_of (vips st) k = Some v"
  shows "\<exists>l. fst (getRealsForVip k st) = Ret l \<and> distinct (map (\<lambda>(w, a, g). a) l) \<and>
    (\<forall>a w. weights (lb_reals st) v a = Some w \<longleftrightarrow> (\<exists>g. (w, a, g) \<in> set l))"
proof -
  let ?es = "getRealsAndWeight v" and ?rs = "lb_reals st"
  have l: "linked (map_of (vips st)) ?rs" using i by (simp add: spec_inv_def)
  have d: "distinct (map fst (vip_reals v))"
    using linkedD(2) [where vs = "map_of (vips st)" and k = k, OF l v] .
  have lead: "numToReals st (rm_num rm) = Some a" if "?rs a = Some rm" for a rm
    using i that by (simp add: spec_inv_def lb_inv_def numbers_lead_back_def real_own_def)
  have es: "r \<in> set ?es \<longleftrightarrow> (\<exists>m. map_of (vip_reals v) (ep_num r) = Some m \<and> ep_weight r = weight m \<and> ep_hash r = hash m)" for r
    using d by (cases r) (force simp: getRealsAndWeight_def real_endpoint_def)
  have num: "\<exists>a rm. ?rs a = Some rm \<and> rm_num rm = ep_num r \<and> numToReals st (ep_num r) = Some a"
    if "r \<in> set ?es" for r
  proof -
    have "ep_num r \<in> real_nums v" using that es by (auto simp: real_nums_def)
    then obtain a rm where "?rs a = Some rm" "rm_num rm = ep_num r"
      using linkedD(3) [where vs = "map_of (vips st)" and k = k, OF l v] by blast
    then show ?thesis using lead by metis
  qed
  have g: "fst (getRealsForVip k st) = Ret (map (real_row st) ?es)"
    using reals_rows [of ?es st "[]"] num v by (fastforce simp: getRealsForVip_def)
  have addr: "map (\<lambda>(w, a, g). a) (map (real_row st) ?es) = map (\<lambda>r. the (numToReals st (ep_num r))) ?es"
    by (simp add: real_row_def Let_def comp_def)
  have nums: "map ep_num (map real_endpoint (vip_reals v)) = map fst (vip_reals v)"
    by (simp add: real_endpoint_def comp_def)
  have "distinct (map ep_num (map real_endpoint (vip_reals v)))" unfolding nums by (rule d)
  then have "distinct (map ep_num ?es)" by (simp only: distinct_map getRealsAndWeight_def set_sort distinct_sort)
  then have dist: "distinct (map (\<lambda>r. the (numToReals st (ep_num r))) ?es)"
    using num unfolding distinct_map inj_on_def by (metis option.sel option.inject)
  have "weights ?rs v a = Some w \<longleftrightarrow> (\<exists>g. (w, a, g) \<in> set (map (real_row st) ?es))" for a w
  proof
    assume "weights ?rs v a = Some w"
    then obtain rm m where m: "?rs a = Some rm" "map_of (vip_reals v) (rm_num rm) = Some m" "weight m = w"
      by (auto simp: weights_def split: option.splits)
    let ?r = "real_endpoint (rm_num rm, m)"
    have "?r \<in> set ?es" using m es by (simp add: real_endpoint_def)
    moreover have "real_row st ?r = (w, a, rm_flags rm)"
      using lead [OF m(1)] m by (simp add: real_row_def real_endpoint_def)
    ultimately show "\<exists>g. (w, a, g) \<in> set (map (real_row st) ?es)" by (metis image_eqI set_map)
  next
    assume "\<exists>g. (w, a, g) \<in> set (map (real_row st) ?es)"
    then obtain r where r: "r \<in> set ?es" "w = ep_weight r" "a = the (numToReals st (ep_num r))"
      by (auto simp: real_row_def Let_def)
    then show "weights ?rs v a = Some w" using num [OF r(1)] es [of r]
      by (auto simp: weights_def)
  qed
  then show ?thesis using g addr dist by (metis (no_types, lifting))
qed

definition answers :: "lb \<Rightarrow> spec \<Rightarrow> bool" where
  "answers st \<sigma> \<longleftrightarrow> set (getAllVips st) = dom \<sigma> \<and>
     (\<forall>k. case \<sigma> k of
        None \<Rightarrow> getVipFlags k st = Exn \<and> fst (getRealsForVip k st) = Exn
      | Some (f, m) \<Rightarrow> getVipFlags k st = Ret f \<and>
          (\<exists>l. fst (getRealsForVip k st) = Ret l \<and> distinct (map (\<lambda>(w, a, g). a) l) \<and>
             (\<forall>a w. m a = Some w \<longleftrightarrow> (\<exists>g. (w, a, g) \<in> set l))))"

lemma spec_answers:
  assumes "spec_inv c e st"
  shows "answers st (spec_of st)"
  unfolding answers_def
proof (intro conjI allI)
  show "set (getAllVips st) = dom (spec_of st)"
    by (simp add: getAllVips_def dom_spec dom_map_of_conv_image_fst)
  fix k
  show "case spec_of st k of None \<Rightarrow> getVipFlags k st = Exn \<and> fst (getRealsForVip k st) = Exn
      | Some (f, m) \<Rightarrow> getVipFlags k st = Ret f \<and>
          (\<exists>l. fst (getRealsForVip k st) = Ret l \<and> distinct (map (\<lambda>(w, a, g). a) l) \<and>
             (\<forall>a w. m a = Some w \<longleftrightarrow> (\<exists>g. (w, a, g) \<in> set l)))"
  proof (cases "map_of (vips st) k")
    case None
    then show ?thesis by (simp add: spec_of_def view_def getVipFlags_def getRealsForVip_def)
  next
    case (Some v)
    then show ?thesis using rows_view [OF assms Some] by (simp add: spec_at getVipFlags_def)
  qed
qed

section \<open>The refinement\<close>

lemma boot_spec:
  assumes "lb_inv c e (boot i c km)"
  shows "spec_inv c e (boot i c km)" "spec_of (boot i c km) = Map.empty"
  using assms by (simp_all add: spec_inv_def linked_def spec_of_def view_def boot_def fun_eq_iff)

text \<open>
  C1: the control plane refines the map from VIPs to flags and weighted reals. From the state of
  the constructor, with the calls of the kernel accepted, hash functions that return and no address
  twice in a batch, every sequence of calls on VIPs and reals answers what the map answers, call by
  call: VIPs and reals are refused exactly when they are known, malformed or over the limits, a
  real that several VIPs share keeps its place until the last of them drops it, and afterwards the
  list of VIPs, their flags and their reals with weights are exactly those of the map.
\<close>

theorem control_plane_refines_map:
  assumes "real_addresses e" "\<And>n. bpf_ok e n" "hash_fills e c"
    and "constructor a u (members fd cfg) = (Val (), i)" "agrees c cfg" "\<forall>x\<in>set xs. call_ok e x"
  shows "\<exists>st. run_calls (lb_call e) xs (boot i c km)
      = (map Ret (fst (run_calls (spec_call e c) xs Map.empty)), st) \<and>
    spec_of st = snd (run_calls (spec_call e c) xs Map.empty) \<and> answers st (spec_of st)"
proof -
  note b = boot_spec [OF boot_inv [OF assms(4,5)]]
  from spec_run [OF assms(1-3,6) b(1)] obtain st where
    "run_calls (lb_call e) xs (boot i c km) = (map Ret (fst (run_calls (spec_call e c) xs Map.empty)), st)"
    "spec_inv c e st" "spec_of st = snd (run_calls (spec_call e c) xs Map.empty)"
    unfolding b(2) by blast
  then show ?thesis using spec_answers by blast
qed

lemma ex_fills: "hash_fills ex_env ex_config"
proof -
  have s: "sint x = uint x" if "x < 3" for x :: u32
  proof -
    have "unat x < 3" using that by (simp add: word_less_nat_alt)
    then have "x = 0 \<or> x = 1 \<or> x = 2" by (auto simp: word_unat_eq_iff)
    then show ?thesis by auto
  qed
  show ?thesis
    unfolding hash_fills_def
  proof (intro allI impI)
    fix f :: hash_function and es :: "endpoint list"
    assume "es \<noteq> []" "\<forall>x\<in>set es. ep_num x < maxReals ex_config"
    then show "\<exists>r. hash_of ex_env f es (cfg_chRingSize ex_config) = Some r \<and>
        length r = unat (cfg_chRingSize ex_config) \<and> (\<forall>x\<in>set r. \<exists>y\<in>set es. x = sint (ep_num y))"
      using s by (auto simp: ex_env_def ex_config_def intro!: bexI [of _ "hd es"])
  qed
qed

text \<open>A VIP with one real, whose flags change; a second time it is refused.\<close>

theorem control_plane_refines_map_witness:
  "\<exists>st. run_calls (lb_call ex_env)
      [AddVip ex_vip 0, ModifyReals ADD [ex_real] ex_vip, ModifyVip ex_vip 4 True, AddVip ex_vip 1]
      (boot ex_init ex_config (init_bst ref_config [])) = ([Ret True, Ret True, Ret True, Ret False], st) \<and>
    spec_of st ex_vip = Some (4, [V4 0x0100000A \<mapsto> 1])"
proof -
  let ?xs = "[AddVip ex_vip 0, ModifyReals ADD [ex_real] ex_vip, ModifyVip ex_vip 4 True, AddVip ex_vip 1]"
  have ok: "\<forall>x\<in>set ?xs. call_ok ex_env x" by (simp add: call_ok_def no_repeats_def)
  have run: "run_calls (spec_call ex_env ex_config) ?xs Map.empty
      = ([True, True, True, False], [ex_vip \<mapsto> (4, [V4 0x0100000A \<mapsto> 1])])"
    by (simp add: ex_vip_def ex_real_def ex_config_def spec_real_def used_def)
  show ?thesis
    using control_plane_refines_map [OF ex_addresses ex_accepts ex_fills ex_constructor ex_agrees ok,
      of "init_bst ref_config []"] unfolding run by auto
qed

end
