(* ===== verification/LbRings.thy ===== *)
theory LbRings
  imports LbSpec VipProps
begin

text \<open>
  The rings in the data plane. The control plane keeps the ring of every VIP and writes only what a
  change changes. The invariant says that each position of the ring leads to a configured real, and
  that the map of the data plane holds each VIP's ring all the same where the keys of the positions
  are different, over all histories of operations.
\<close>

section \<open>The invariant\<close>

text \<open>
  The keys of the map ch_rings are in no line of the source: ring_key is arbitrary. The law is that
  the key of a position belongs to its VIP and position alone; only what ch_rings holds depends on it.
\<close>

definition ring_slot :: "nat \<Rightarrow> int \<Rightarrow> real_pos" where
  "ring_slot p x = \<lparr>rp_real = word_of_int x, rp_pos = of_nat p\<rparr>"

definition ring_law :: "env \<Rightarrow> lb_config \<Rightarrow> bool" where
  "ring_law e c \<longleftrightarrow> (\<forall>v w p q x y. v < maxVips c \<longrightarrow> w < maxVips c \<longrightarrow>
     p < unat (cfg_chRingSize c) \<longrightarrow> q < unat (cfg_chRingSize c) \<longrightarrow>
     ring_key e v (ring_slot p x) = ring_key e w (ring_slot q y) \<longleftrightarrow> v = w \<and> p = q)"

definition ring_stored :: "env \<Rightarrow> (u32 \<rightharpoonup> u32) \<Rightarrow> u32 \<Rightarrow> int list \<Rightarrow> bool" where
  "ring_stored e t n ring \<longleftrightarrow> (\<forall>p < length ring. ring ! p \<noteq> - 1 \<longrightarrow>
     t (ring_key e n (ring_slot p (ring ! p))) = Some (word_of_int (ring ! p)))"

definition rings_current :: "env \<Rightarrow> lb \<Rightarrow> bool" where
  "rings_current e st \<longleftrightarrow> all_accepted e st \<and>
     (\<forall>k v. map_of (vips st) k = Some v \<longrightarrow> chRingSize v = cfg_chRingSize (config st) \<and>
        length (chRing v) = unat (chRingSize v) \<and>
        ring_stored e (ch_rings (kmaps st)) (vipNum v) (chRing v))"

text \<open>The part of the state the invariant reads.\<close>

definition rings :: "lb \<Rightarrow> lb_config \<times> (vip_key \<rightharpoonup> u32 \<times> u32 \<times> int list) \<times> (u32 \<rightharpoonup> u32)" where
  "rings st = (config st, \<lambda>k. map_option (\<lambda>v. (vipNum v, chRingSize v, chRing v)) (map_of (vips st) k),
     ch_rings (kmaps st))"

lemma rings_vip:
  assumes "rings st' = rings st" "map_of (vips st') k = Some v"
  obtains w where "map_of (vips st) k = Some w" "vipNum w = vipNum v" "chRingSize w = chRingSize v"
    "chRing w = chRing v"
proof -
  have "map_option (\<lambda>v. (vipNum v, chRingSize v, chRing v)) (map_of (vips st') k)
      = map_option (\<lambda>v. (vipNum v, chRingSize v, chRing v)) (map_of (vips st) k)"
    using assms(1) by (simp add: rings_def fun_eq_iff)
  then have "map_option (\<lambda>v. (vipNum v, chRingSize v, chRing v)) (map_of (vips st) k)
      = Some (vipNum v, chRingSize v, chRing v)" by (simp add: assms(2))
  then obtain w where "map_of (vips st) k = Some w"
      "(vipNum w, chRingSize w, chRing w) = (vipNum v, chRingSize v, chRing v)"
    unfolding map_option_eq_Some by blast
  then show ?thesis using that [of w] by simp
qed

lemma rings_same:
  assumes "rings st' = rings st" "rings_current e st"
  shows "rings_current e st'"
  unfolding rings_current_def
proof (intro conjI allI impI)
  have c: "config st' = config st" "ch_rings (kmaps st') = ch_rings (kmaps st)"
    using assms(1) by (simp_all add: rings_def)
  show "all_accepted e st'" using assms(2) c by (simp add: rings_current_def all_accepted_def)
  fix k v assume "map_of (vips st') k = Some v"
  then obtain w where w: "map_of (vips st) k = Some w" "vipNum w = vipNum v" "chRingSize w = chRingSize v"
    "chRing w = chRing v" using rings_vip [OF assms(1)] by blast
  then have "chRingSize w = cfg_chRingSize (config st)" "length (chRing w) = unat (chRingSize w)"
    "ring_stored e (ch_rings (kmaps st)) (vipNum w) (chRing w)"
    using assms(2) unfolding rings_current_def by blast+
  then show "chRingSize v = cfg_chRingSize (config st')" "length (chRing v) = unat (chRingSize v)"
    "ring_stored e (ch_rings (kmaps st')) (vipNum v) (chRing v)"
    using w c by simp_all
qed

section \<open>Operations that leave the rings alone\<close>

lemma rings_upd [simp]:
  "rings (st\<lparr>vipNums := b\<rparr>) = rings st" "rings (st\<lparr>hcKeyNums := b\<rparr>) = rings st"
  "rings (st\<lparr>hckeys := d\<rparr>) = rings st" "rings (st\<lparr>lb_reals := f\<rparr>) = rings st"
  "rings (st\<lparr>realNums := b\<rparr>) = rings st" "rings (st\<lparr>numToReals := g\<rparr>) = rings st"
  "rings (st\<lparr>quicMapping := q\<rparr>) = rings st" "rings (st\<lparr>lbStats := l\<rparr>) = rings st"
  "rings (st\<lparr>ncalls := n\<rparr>) = rings st" "rings (st\<lparr>hc_key_map := k\<rparr>) = rings st"
  "rings (st\<lparr>cb_log := c\<rparr>) = rings st" "rings (st\<lparr>hc_reals_map := h\<rparr>) = rings st"
  "rings (st\<lparr>hcReals := r\<rparr>) = rings st" "rings (st\<lparr>decapDsts := dd\<rparr>) = rings st"
  "rings (st\<lparr>lpmSrcMapping := ls\<rparr>) = rings st"
  by (simp_all add: rings_def)

lemma rings_failed [simp]: "rings (failed_call st) = rings st"
  by (simp add: failed_call_def)

lemma rings_validate [simp]: "rings (snd (validateAddress e a n st)) = rings st"
  by (simp add: validateAddress_def)

lemma rings_counted:
  assumes "\<And>s. rings (f s) = rings s"
  shows "rings (snd (counted_call e b f st)) = rings st"
  by (simp add: counted_call_def bpf_call_def Let_def assms)

lemma rings_on_kmaps: "ch_rings (f (kmaps s)) = ch_rings (kmaps s) \<Longrightarrow> rings (on_kmaps f s) = rings s"
  by (simp add: rings_def on_kmaps_def)

lemmas rings_call = rings_counted [OF rings_on_kmaps]

lemma rings_updates [simp]:
  "rings (snd (updateVipMap e act k m st)) = rings st"
  "rings (snd (updateHcKeyMap e act k n st)) = rings st"
  "rings (snd (updateRealsMap e a n fl st)) = rings st"
  "rings (put_server_id e i n st) = rings st"
  "rings (snd (modifyLpmSrcRule e act p n st)) = rings st"
  "rings (snd (modifyDecapDst e act ip fw st)) = rings st"
  by (auto simp: updateVipMap_def updateHcKeyMap_def updateRealsMap_def put_server_id_def
      modifyLpmSrcRule_def modifyDecapDst_def Let_def
      split_def rings_call rings_counted split: option.split ip.split)

lemma rings_reals [simp]:
  "rings (decreaseRefCountForReal a st) = rings st"
  "rings (snd (increaseRefCountForReal e a fl st)) = rings st"
  "rings (snd (num_to_real n st)) = rings st"
  by (simp_all add: decreaseRefCountForReal_def increaseRefCountForReal_def num_to_real_def Let_def
      notify_def split: option.split list.split)

lemma rings_fold:
  "(\<And>x s. rings (g (f x s)) = rings (g s)) \<Longrightarrow> rings (g (fold f xs s)) = rings (g s)"
  by (rule fold_keeps [where P = "\<lambda>t. rings (g t) = rings (g s)"]) simp_all

lemma rings_put:
  assumes "map_of (vips st) k = Some v" "vipNum w = vipNum v" "chRingSize w = chRingSize v" "chRing w = chRing v"
  shows "rings (put_vip k w st) = rings st"
  using assms by (simp add: rings_def put_vip_def update_conv' fun_eq_iff)

lemma rings_modifyVip [simp]: "rings (snd (modifyVip e k fl b st)) = rings st"
  by (cases "map_of (vips st) k")
     (simp_all add: modifyVip_def Let_def rings_put setVipFlags_def unsetVipFlags_def)

lemma rings_hc [simp]:
  "rings (snd (addHcKey e k st)) = rings st" "rings (snd (delHcKey e k st)) = rings st"
  "rings (snd (addHealthcheckerDst e m d st)) = rings st" "rings (snd (delHealthcheckerDst e m st)) = rings st"
  by (simp_all add: addHcKey_def delHcKey_def addHealthcheckerDst_def delHealthcheckerDst_def Let_def
      split_def rings_counted split: option.split list.split)

lemma rings_modify_step: "rings (snd (snd (modify_step e act r s))) = rings (snd (snd s))"
  by (simp add: modify_step_def split_def Let_def split: option.split)

lemma rings_modifyReal [simp]: "rings (snd (modifyReal e r fl b st)) = rings st"
  by (simp add: modifyReal_def Let_def split_def split: option.split)

lemma rings_decap [simp]:
  "rings (snd (addInlineDecapDst e d st)) = rings st" "rings (snd (delInlineDecapDst e d st)) = rings st"
  by (simp_all add: addInlineDecapDst_def delInlineDecapDst_def Let_def split_def)

lemma rings_add_rules [simp]: "rings (snd (add_src_rules e d srcs st)) = rings st"
proof (induction srcs arbitrary: st)
  case (Cons s srcs)
  show ?case by (simp add: Cons.IH Let_def split_def)
qed simp

lemma rings_collect [simp]: "rings (snd (snd (collect_srcs e n srcs s))) = rings (snd (snd s))"
proof (induction srcs arbitrary: s)
  case (Cons a srcs)
  obtain nets k st where s: "s = (nets, k, st)" by (cases s)
  show ?case by (simp add: s split_def Let_def Cons.IH)
qed simp

lemma rings_clear: "clear_src_rules e rules st = Some st' \<Longrightarrow> rings st' = rings st"
  by (induction e rules st rule: clear_src_rules.induct) (auto simp: Let_def split: option.splits if_splits)

lemma rings_routes [simp]:
  "rings (snd (addSrcRoutingRule_cidr e srcs d st)) = rings st"
  "rings (snd (addSrcRoutingRule e txts d st)) = rings st"
  "rings (snd (delSrcRoutingRule_cidr e srcs st)) = rings st"
  "rings (snd (delSrcRoutingRule e txts st)) = rings st"
proof -
  show a: "rings (snd (addSrcRoutingRule_cidr e srcs d st)) = rings st" for srcs st
    by (simp add: addSrcRoutingRule_cidr_def Let_def split_def)
  show "rings (snd (addSrcRoutingRule e txts d st)) = rings st"
    by (simp add: addSrcRoutingRule_def a Let_def split_def)
  have "rings (fold (del_src_rule e) ns s) = rings s" for ns s
    by (rule rings_fold [of "\<lambda>x. x"]) (simp add: del_src_rule_def Let_def split_def split: option.split)
  then show b: "rings (snd (delSrcRoutingRule_cidr e srcs st)) = rings st" for srcs
    by (simp add: delSrcRoutingRule_cidr_def)
  show "rings (snd (delSrcRoutingRule e txts st)) = rings st"
    by (simp add: delSrcRoutingRule_def b)
qed

lemma rings_clearAll: "clearAllSrcRoutingRules e st = Some (r, st') \<Longrightarrow> rings st' = rings st"
  using rings_clear by (auto simp: clearAllSrcRoutingRules_def split: if_splits option.splits)

lemma rings_reads [simp]:
  "rings (snd (getIndexForReal e r st)) = rings st"
  "rings (snd (getRealsForVip k st)) = rings st"
  "rings (snd (getSrcRoutingRuleCidr st)) = rings st"
  "rings (snd (getLbStats get fails n mem st)) = rings st"
proof -
  let ?f = "\<lambda>r (rs, st).
      let (a, st) = num_to_real (ep_num r) st;
          st = (if lb_reals st a = None
                then st\<lparr>lb_reals := (lb_reals st)(a \<mapsto> \<lparr>rm_num = 0, refCount = 0, rm_flags = 0\<rparr>)\<rparr> else st)
      in (rs @ [(ep_weight r, a, rm_flags (the (lb_reals st a)))], st)"
  have "rings (snd (fold ?f rs s)) = rings (snd s)" for rs s
    by (rule rings_fold [of snd ?f]) (simp add: split_def Let_def)
  then show "rings (snd (getRealsForVip k st)) = rings st"
    unfolding getRealsForVip_def by (auto simp: split_def Let_def split: option.split)
  let ?g = "\<lambda>(s_net, n) (rs, st). let (a, st) = num_to_real n st in (rs @ [(s_net, a)], st)"
  have "rings (snd (fold ?g rs s)) = rings (snd s)" for rs :: "(network \<times> u32) list" and s
    by (rule rings_fold [of snd ?g]) (simp add: split_def Let_def)
  then show "rings (snd (getSrcRoutingRuleCidr st)) = rings st"
    unfolding getSrcRoutingRuleCidr_def by (auto simp: split_def Let_def)
qed (simp_all add: getIndexForReal_def getLbStats_def split_def Let_def split: option.split)

lemma rings_quic [simp]:
  "rings (modifyQuicRealsMapping e act qs st) = rings st"
  "rings (invalidateServerIds e ids st) = rings st"
  "rings (revalidateServerIds e getIndexForReal qs st) = rings st"
proof -
  have "rings (snd (quic_step e act q s)) = rings (snd s)" for q s
    by (simp add: quic_step_def split_def Let_def split: option.split)
  then have q: "rings (snd (fold (quic_step e act) qs s)) = rings (snd s)" for s
    by (rule rings_fold)
  have "rings (fold (\<lambda>(i, n) s. put_server_id e i n s) us s) = rings s" for us s
    by (rule rings_fold [of "\<lambda>x. x"]) (simp add: split_def)
  then show "rings (modifyQuicRealsMapping e act qs st) = rings st"
    using q [of "([], st)"] by (simp add: modifyQuicRealsMapping_def split_def Let_def)
  show "rings (invalidateServerIds e ids st) = rings st"
    unfolding invalidateServerIds_def
    by (rule rings_fold [of "\<lambda>x. x"]) (simp add: rings_call)
  show "rings (revalidateServerIds e getIndexForReal qs st) = rings st"
    unfolding revalidateServerIds_def
    by (rule rings_fold [of "\<lambda>x. x"]) (simp add: split_def Let_def)
qed

section \<open>Writing the delta of a ring\<close>

lemma put_other: "x \<notin> g ` set ps \<Longrightarrow> fold (\<lambda>p t. t(g p \<mapsto> rp_real p)) ps t x = t x"
  by (induction ps arbitrary: t) auto

lemma put_here:
  "inj_on g (set ps) \<Longrightarrow> p \<in> set ps \<Longrightarrow> fold (\<lambda>p t. t(g p \<mapsto> rp_real p)) ps t (g p) = Some (rp_real p)"
proof (induction ps arbitrary: t)
  case (Cons q ps)
  show ?case
  proof (cases "p \<in> set ps")
    case True
    then show ?thesis using Cons by simp
  next
    case False
    then have "p = q" "g p \<notin> g ` set ps" using Cons.prems by auto
    then show ?thesis using put_other [of "g q" g ps "t(g q \<mapsto> rp_real q)"] by (simp only: fold_simps) simp
  qed
qed simp

lemma calc_ring:
  assumes "calculateHashRing gen es v = Some (d, w)" "length (chRing v) = unat (chRingSize v)"
  shows "vipNum w = vipNum v \<and> chRingSize w = chRingSize v \<and> length (chRing w) = unat (chRingSize v) \<and>
    d = map (\<lambda>p. ring_slot p (chRing w ! p))
      (filter (\<lambda>p. chRing w ! p \<noteq> chRing v ! p) [0..<unat (chRingSize v)])"
proof (cases "es = []")
  case True
  then show ?thesis using assms by (auto simp: calculateHashRing_def)
next
  case False
  then obtain new where "gen (chash v) es (chRingSize v) = Some new"
    using assms(1) by (auto simp: calculateHashRing_def split: option.splits)
  then have d: "d = map (\<lambda>i. \<lparr>rp_real = word_of_int (new ! i), rp_pos = of_nat i\<rparr>)
        (filter (\<lambda>i. new ! i \<noteq> chRing v ! i) [0..<unat (chRingSize v)])"
    and w: "w = v\<lparr>chRing := map (\<lambda>i. new ! i) [0..<unat (chRingSize v)]\<rparr>"
    using assms False by (auto simp: calculateHashRing_def ring_delta_eq)
  have "filter (\<lambda>p. chRing w ! p \<noteq> chRing v ! p) [0..<unat (chRingSize v)]
      = filter (\<lambda>i. new ! i \<noteq> chRing v ! i) [0..<unat (chRingSize v)]"
    unfolding w by (intro filter_cong) auto
  then show ?thesis using d w by (auto simp: ring_slot_def)
qed

lemma stored_other:
  assumes "ring_stored e t n ring" "\<And>p. p < length ring \<Longrightarrow> ring_key e n (ring_slot p (ring ! p)) \<notin> g ` set ps"
  shows "ring_stored e (fold (\<lambda>p t. t(g p \<mapsto> rp_real p)) ps t) n ring"
  using assms by (simp add: ring_stored_def put_other)

lemma stored_delta:
  assumes "ring_stored e t n old" "length new = length old"
    and key: "\<And>p q x y. p < length old \<Longrightarrow> q < length old \<Longrightarrow>
      ring_key e n (ring_slot p x) = ring_key e n (ring_slot q y) \<longleftrightarrow> p = q"
  defines "ps \<equiv> map (\<lambda>p. ring_slot p (new ! p)) (filter (\<lambda>p. new ! p \<noteq> old ! p) [0..<length old])"
  shows "ring_stored e (fold (\<lambda>p t. t(ring_key e n p \<mapsto> rp_real p)) ps t) n new"
  unfolding ring_stored_def
proof (intro allI impI)
  fix p assume p: "p < length new" "new ! p \<noteq> - 1"
  have inj: "inj_on (ring_key e n) (set ps)"
    using key by (auto simp: ps_def inj_on_def)
  show "fold (\<lambda>p t. t(ring_key e n p \<mapsto> rp_real p)) ps t (ring_key e n (ring_slot p (new ! p)))
      = Some (word_of_int (new ! p))"
  proof (cases "new ! p = old ! p")
    case True
    then have "ring_key e n (ring_slot p (new ! p)) \<notin> ring_key e n ` set ps"
      using key p(1) assms(2) by (auto simp: ps_def)
    then show ?thesis using assms(1,2) p True by (simp add: put_other ring_stored_def)
  next
    case False
    then have "ring_slot p (new ! p) \<in> set ps" using p(1) assms(2) by (simp add: ps_def)
    then show ?thesis using put_here [OF inj] by (simp add: ring_slot_def)
  qed
qed

section \<open>Operations that change a ring\<close>

lemma rings_currentD:
  assumes "rings_current e st" "map_of (vips st) k = Some v"
  shows "chRingSize v = cfg_chRingSize (config st)" "length (chRing v) = unat (chRingSize v)"
    "ring_stored e (ch_rings (kmaps st)) (vipNum v) (chRing v)"
  using assms unfolding rings_current_def by blast+

lemma program_fields:
  assumes "all_accepted e st"
  shows "config (programHashRing e ps n st) = config st" "vips (programHashRing e ps n st) = vips st"
    "ch_rings (kmaps (programHashRing e ps n st))
      = fold (\<lambda>p t. t(ring_key e n p \<mapsto> rp_real p)) ps (ch_rings (kmaps st))"
  using assms
  by (auto simp: programHashRing_def all_accepted_def counted_call_def bpf_call_def on_kmaps_def Let_def)

lemma program_rings:
  assumes cur: "rings_current e st" and i: "lb_inv c e st" and law: "ring_law e c"
    and v: "map_of (vips st) k = Some v"
    and u: "vipNum u = vipNum v" "chRingSize u = chRingSize v" "chRing u = chRing v"
    and calc: "calculateHashRing gen es u = Some (d, w)"
  shows "rings_current e (programHashRing e d (vipNum w) (put_vip k w st))"
proof -
  let ?st = "programHashRing e d (vipNum w) (put_vip k w st)" and ?n = "unat (cfg_chRingSize c)"
  have cf: "config st = c" using i by (simp add: lb_inv_def)
  have acc: "all_accepted e (put_vip k w st)"
    using cur by (simp add: rings_current_def all_accepted_def put_vip_def)
  have f: "config ?st = c" "map_of (vips ?st) = (map_of (vips st))(k \<mapsto> w)"
    "ch_rings (kmaps ?st) = fold (\<lambda>p t. t(ring_key e (vipNum w) p \<mapsto> rp_real p)) d (ch_rings (kmaps st))"
    using program_fields [OF acc] cf by (simp_all add: put_vip_def update_conv')
  have len: "chRingSize v = cfg_chRingSize c" "length (chRing v) = ?n"
    using rings_currentD(1,2) [OF cur v] cf by simp_all
  have w: "vipNum w = vipNum v" "chRingSize w = chRingSize v" "length (chRing w) = ?n"
    "d = map (\<lambda>p. ring_slot p (chRing w ! p)) (filter (\<lambda>p. chRing w ! p \<noteq> chRing v ! p) [0..<length (chRing v)])"
    using calc_ring [OF calc] u len by simp_all
  have p: "pool (set (numbers 0 (maxVips c))) (vipNums st) (vip_own st)"
    using i by (simp add: lb_inv_def pools_ok_def)
  have num: "vipNum x < maxVips c" if "map_of (vips st) j = Some x" for j x
    using pool_owner_in [OF p, of j "vipNum x"] that by (simp add: vip_own_map set_numbers)
  have other: "vipNum x \<noteq> vipNum v" if "map_of (vips st) j = Some x" "j \<noteq> k" for j x
    using pool_owner_unique [OF p, of j "vipNum x" k] that v by (auto simp: vip_own_map)
  define t where "t = fold (\<lambda>p t. t(ring_key e (vipNum v) p \<mapsto> rp_real p)) d (ch_rings (kmaps st))"
  have t: "ch_rings (kmaps ?st) = t" using f(3) by (simp add: t_def w(1))
  have "ring_stored e t (vipNum v) (chRing w)"
    unfolding t_def w(4)
    by (rule stored_delta [OF rings_currentD(3) [OF cur v]])
       (use law num [OF v] w(3) len in \<open>auto simp: ring_law_def\<close>)
  moreover have "ring_stored e t (vipNum x) (chRing x)"
    if x: "map_of (vips st) j = Some x" "j \<noteq> k" for j x
    unfolding t_def
  proof (rule stored_other [OF rings_currentD(3) [OF cur x(1)]])
    fix p assume "p < length (chRing x)"
    then have "p < ?n" using rings_currentD(1,2) [OF cur x(1)] cf by simp
    then show "ring_key e (vipNum x) (ring_slot p (chRing x ! p)) \<notin> ring_key e (vipNum v) ` set d"
      using law num [OF x(1)] num [OF v] other [OF x] len by (auto simp: ring_law_def w(4))
  qed
  moreover have "all_accepted e ?st" using acc f(1) cf by (simp add: all_accepted_def put_vip_def)
  ultimately show ?thesis
    using f(1,2) w(1-3) len rings_currentD(1,2) [OF cur] cf
    unfolding rings_current_def t by (auto split: if_splits)
qed

lemma current_modifyReals:
  assumes "rings_current e st" "lb_inv c e st" "ring_law e c" "real_addresses e"
  shows "rings_current e (snd (modifyRealsForVip e act rs k st))"
proof (cases "map_of (vips st) k")
  case None
  then show ?thesis using assms by (simp add: modifyRealsForVip_def)
next
  case (Some v)
  obtain cur us st1 where f: "fold (modify_step e act) rs (getReals v, [], st) = (cur, us, st1)"
    by (cases "fold (modify_step e act) rs (getReals v, [], st)")
  have "rings (snd (snd (fold (modify_step e act) rs (getReals v, [], st)))) = rings st"
    using rings_fold [of "\<lambda>s. snd (snd s)" "modify_step e act"] rings_modify_step by simp
  then have r: "rings_current e st1" using f rings_same [OF _ assms(1)] by simp
  have i: "lb_inv c e (snd (snd (fold (modify_step e act) rs (getReals v, [], st))))"
    by (rule fold_keeps [where P = "\<lambda>s. lb_inv c e (snd (snd s))"])
       (simp_all add: inv_modify_step assms)
  have "front (snd (snd (fold (modify_step e act) rs (getReals v, [], st)))) = front st"
    by (rule fold_keeps [where P = "\<lambda>s. front (snd (snd s)) = front st"]) (simp_all add: front_modify_step)
  then have v1: "map_of (vips st1) k = Some v" using f Some front_fields(3) [of st1 st] by simp
  obtain es u where g: "getEndpoints us v = (es, u)" by fastforce
  note u = getEndpoints_eq [OF g]
  show ?thesis
  proof (cases "calculateHashRing (hash_of e) es u")
    case None
    then have "batchRealsUpdate (hash_of e) us v = None" by (simp add: batchRealsUpdate_def g)
    moreover have "rings (put_vip k u st1) = rings st1" using rings_put [OF v1] u by simp
    ultimately show ?thesis using Some f g rings_same [OF _ r] by (simp add: modifyRealsForVip_def)
  next
    case (Some x)
    then have b: "batchRealsUpdate (hash_of e) us v = Some (fst x, snd x)" by (simp add: batchRealsUpdate_def g)
    have "rings_current e (programHashRing e (fst x) (vipNum (snd x)) (put_vip k (snd x) st1))"
      using program_rings [OF r _ assms(3) v1, of u "hash_of e" es] i f u Some by simp
    then show ?thesis using \<open>map_of (vips st) k = Some v\<close> f b by (cases x) (simp add: modifyRealsForVip_def)
  qed
qed

lemma current_changeHash:
  assumes "rings_current e st" "lb_inv c e st" "ring_law e c"
  shows "rings_current e (snd (changeHashFunctionForVip e k h st))"
proof -
  obtain t s where v: "validateAddress e (vk_address k) False st = (t, s)" by fastforce
  have i: "lb_inv c e s" using assms(2) v by (rule inv_validate)
  have r: "rings_current e s" using rings_validate [of e "vk_address k" False st] v rings_same [OF _ assms(1)] by simp
  show ?thesis
  proof (cases "t = INVALID \<or> map_of (vips s) k = None")
    case True
    then show ?thesis using r by (auto simp: changeHashFunctionForVip_def v)
  next
    case False
    then obtain w where w: "map_of (vips s) k = Some w" "t \<noteq> INVALID" by auto
    let ?u = "setHashFunction h w"
    have u: "vipNum ?u = vipNum w" "chRingSize ?u = chRingSize w" "chRing ?u = chRing w"
      by (simp_all add: setHashFunction_def)
    show ?thesis
    proof (cases "recalculateHashRing (hash_of e) ?u")
      case None
      have "rings_current e (put_vip k ?u s)" by (rule rings_same [OF rings_put [OF w(1) u] r])
      then show ?thesis using None w by (simp add: changeHashFunctionForVip_def v Let_def)
    next
      case (Some x)
      have "calculateHashRing (hash_of e) (getRealsAndWeight ?u) ?u = Some (fst x, snd x)"
        using Some by (simp add: recalculateHashRing_def)
      from program_rings [OF r i assms(3) w(1) u this] show ?thesis
        using Some w by (cases x) (simp add: changeHashFunctionForVip_def v Let_def)
    qed
  qed
qed

lemma current_addVip:
  assumes "rings_current e st"
  shows "rings_current e (snd (addVip e k f st))"
proof -
  obtain t s where v: "validateAddress e (vk_address k) False st = (t, s)" by fastforce
  have r: "rings_current e s" using rings_validate [of e "vk_address k" False st] v rings_same [OF _ assms] by simp
  have new: "rings_current e (s\<lparr>vipNums := ns, vips := AList.update k
      (new_vip n f (cfg_chRingSize (config s)) (hashFunction (config s))) (vips s)\<rparr>)" for n ns
    using r unfolding rings_current_def
    by (auto simp: all_accepted_def update_conv' new_vip_def ring_stored_def split: if_splits)
  show ?thesis
    using r rings_same [OF rings_updates(1) new]
    by (auto simp: addVip_def v Let_def split_def new split: list.split)
qed

lemma current_delVip:
  assumes "rings_current e st"
  shows "rings_current e (snd (delVip e k st))"
proof (cases "map_of (vips st) k")
  case None
  then show ?thesis using assms by (simp add: delVip_def)
next
  case (Some v)
  have del: "rings_current e (s\<lparr>vips := AList.delete k (vips s)\<rparr>)" if "rings_current e s" for s
    using that unfolding rings_current_def by (auto simp: all_accepted_def delete_conv')
  let ?s = "(fold drop_real (getReals v) st)\<lparr>vipNums := vipNums (fold drop_real (getReals v) st) @ [vipNum v]\<rparr>"
  have "rings (fold drop_real (getReals v) st) = rings st"
    by (rule rings_fold [of "\<lambda>x. x"]) (simp add: drop_real_def split_def Let_def)
  then have r: "rings_current e ?s" using rings_same [OF _ assms] by simp
  then have "rings_current e (snd (updateVipMap e DEL k m ?s))" for m
    by (intro rings_same [OF rings_updates(1)])
  then show ?thesis using r Some unfolding delVip_def drop_real_eq
    by (auto simp: Let_def split_def del)
qed

section \<open>Reachable states\<close>

lemma lb_step_rings:
  assumes "lb_step e st st'" "rings_current e st" "lb_inv c e st" "ring_law e c" "real_addresses e"
  shows "rings_current e st'"
  using assms(1)
proof cases
  case (clear_src r)
  then show ?thesis using rings_same [OF rings_clearAll assms(2)] by blast
qed (use assms(2-5) in \<open>simp_all add: current_modifyReals current_changeHash current_addVip current_delVip\<close>,
     (rule rings_same [OF _ assms(2)], simp)+)

lemma lb_reach_rings:
  assumes "lb_reach e st0 past st" "rings_current e st0" "lb_inv c e st0" "ring_law e c" "real_addresses e"
    "no_blank (st # past)"
  shows "rings_current e st"
  using assms(1,6)
proof induction
  case (more past st st')
  then have "no_blank (st # past)" by (simp add: no_blank_def)
  then show ?case
    using lb_step_rings [OF more(2)] more(1,3) lb_reach_inv [OF more(1) assms(5,3)] assms(4,5) by blast
qed (rule assms(2))

text \<open>Consecutive blocks of keys, one for each VIP, satisfy the law when they fit into 32 bits.\<close>

lemma ring_law_blocks:
  assumes "\<And>v p. ring_key e v p = v * cfg_chRingSize c + rp_pos p"
    "unat (maxVips c) * unat (cfg_chRingSize c) \<le> 2 ^ 32"
  shows "ring_law e c"
proof -
  let ?n = "unat (cfg_chRingSize c)"
  have k: "unat (ring_key e v (ring_slot p x)) = unat v * ?n + p" if "v < maxVips c" "p < ?n" for v p x
  proof -
    have "unat v + 1 \<le> unat (maxVips c)" using that(1) by (simp add: word_less_nat_alt)
    then have "(unat v + 1) * ?n \<le> 2 ^ 32" using assms(2) by (meson le_trans mult_le_mono1)
    then have l: "unat v * ?n + p < 2 ^ 32" using that(2) by (simp add: algebra_simps)
    then have "unat (of_nat p :: u32) = p" "unat (v * cfg_chRingSize c) = unat v * ?n"
      by (simp_all add: unat_of_nat unat_word_ariths)
    then show ?thesis using l by (simp add: assms(1) ring_slot_def unat_word_ariths)
  qed
  have "ring_key e v (ring_slot p x) = ring_key e w (ring_slot q y) \<longleftrightarrow> v = w \<and> p = q"
    if "v < maxVips c" "w < maxVips c" "p < ?n" "q < ?n" for v w p q x y
  proof -
    have "unat v * ?n + p = unat w * ?n + q \<longleftrightarrow> unat v = unat w \<and> p = q"
    proof
      assume e: "unat v * ?n + p = unat w * ?n + q"
      have "(unat v * ?n + p) div ?n = unat v" "(unat w * ?n + q) div ?n = unat w"
        using that(3,4) by simp_all
      then show "unat v = unat w \<and> p = q" using e by simp
    qed simp
    then show ?thesis using k [OF that(1,3)] k [OF that(2,4)] by (metis word_unat_eq_iff)
  qed
  then show ?thesis by (simp add: ring_law_def)
qed

section \<open>Full rings\<close>

text \<open>The hash functions of the code meet the contract.\<close>

lemma maglev_fills:
  assumes "\<And>f es n. hash_of e f es n = chash_generate f cur es n"
    and "\<And>es. perm_law (cfg_chRingSize c) (length es) (cur es)"
    and "cfg_chRingSize c > 1" "maxReals c \<le> 2 ^ 31"
  shows "hash_fills e c"
  unfolding hash_fills_def
proof (intro allI impI)
  fix f :: hash_function and es :: "endpoint list"
  assume es: "es \<noteq> []" "\<forall>x\<in>set es. ep_num x < maxReals c"
  have "sint (ep_num x) \<ge> 0" if "x \<in> set es" for x
  proof -
    have "ep_num x < 2 ^ 31" using es(2) assms(4) that by (meson less_le_trans)
    then have "uint (ep_num x) < 2 ^ 31" by (simp add: word_less_def)
    moreover have "- (2 ^ 31) \<le> uint (ep_num x)" by (rule order_trans [of _ 0]) simp_all
    ultimately have "sint (ep_num x) = uint (ep_num x)"
      using signed_take_bit_int_eq_self [of 31 "uint (ep_num x)"] by (simp add: sint_uint)
    then show ?thesis by simp
  qed
  then have "nums_ok es" by (simp add: nums_ok_def)
  from chash_total [where es = es and cur = cur, OF assms(2) this es(1)] assms(3)
  show "\<exists>r. hash_of e f es (cfg_chRingSize c) = Some r \<and> length r = unat (cfg_chRingSize c) \<and>
      (\<forall>x\<in>set r. \<exists>y\<in>set es. x = sint (ep_num y))"
    by (simp add: assms(1))
qed

text \<open>As long as some real of the VIP has a weight, every slot holds one that has.\<close>

definition vip_full :: "vip \<Rightarrow> bool" where
  "vip_full v \<longleftrightarrow> length (chRing v) = unat (chRingSize v) \<and>
     ((\<exists>n. active (vip_reals v) n) \<longrightarrow> (\<forall>x\<in>set (chRing v). \<exists>n. x = sint n \<and> active (vip_reals v) n))"

lemma vip_full_batch:
  assumes b: "batchRealsUpdate gen us v = Some (d, w)" and full: "vip_full v"
    and d: "distinct (map fst (vip_reals v))"
    and fills: "\<And>es u. getEndpoints us v = (es, u) \<Longrightarrow> es \<noteq> [] \<Longrightarrow>
      \<exists>r. gen (chash v) es (chRingSize v) = Some r \<and> length r = unat (chRingSize v) \<and>
        (\<forall>x\<in>set r. \<exists>y\<in>set es. x = sint (ep_num y))"
  shows "vip_full w"
proof -
  obtain es u where g: "getEndpoints us v = (es, u)" by fastforce
  note u = getEndpoints_eq [OF g]
  have c: "calculateHashRing gen es u = Some (d, w)" using b g by (simp add: batchRealsUpdate_def)
  show ?thesis
  proof (cases "es = []")
    case True
    then have w: "w = u" using c by (simp add: calculateHashRing_def)
    show ?thesis
    proof (cases "snd (fold apply_ureal us (vip_reals v, False))")
      case True
      then have "\<not> active (vip_reals u) n" for n using u \<open>es = []\<close> by (force simp: active_def)
      then show ?thesis using w u full by (simp add: vip_full_def)
    next
      case False
      then have "active (vip_reals u) = active (vip_reals v)" using u by argo
      then show ?thesis using w u full by (simp add: vip_full_def)
    qed
  next
    case False
    then have "snd (fold apply_ureal us (vip_reals v, False))" using u by argo
    then have es: "set es = real_endpoint ` {r \<in> set (vip_reals u). weight (snd r) \<noteq> 0}" using u by simp
    obtain r where r: "gen (chash v) es (chRingSize v) = Some r" "length r = unat (chRingSize v)"
      "\<forall>x\<in>set r. \<exists>y\<in>set es. x = sint (ep_num y)"
      using fills [OF g False] by blast
    have "map (\<lambda>i. r ! i) [0..<unat (chRingSize v)] = r" by (metis r(2) map_nth)
    then have w: "w = u\<lparr>chRing := r\<rparr>"
      using c r False u full by (auto simp: calculateHashRing_def ring_delta_eq vip_full_def)
    have "\<exists>n. x = sint n \<and> active (vip_reals u) n" if "x \<in> set r" for x
      using r(3) that by (fastforce simp: es active_def real_endpoint_def)
    then show ?thesis using w r(2) u by (simp add: vip_full_def)
  qed
qed

definition rings_full :: "lb \<Rightarrow> bool" where
  "rings_full st \<longleftrightarrow> (\<forall>k v. map_of (vips st) k = Some v \<longrightarrow> vip_full v)"

lemma full_modifyReals:
  assumes e: "real_addresses e" "hash_fills e c" "no_repeats e rs" and i: "spec_inv c e st" and f: "rings_full st"
  shows "rings_full (snd (modifyRealsForVip e act rs k st))"
proof (cases "map_of (vips st) k")
  case None
  then show ?thesis using f by (simp add: modifyRealsForVip_def)
next
  case (Some v)
  from modifyReals_batch [OF e i Some] obtain us d w st1 where
    r: "modifyRealsForVip e act rs k st = (Ret True, programHashRing e d (vipNum w) (put_vip k w st1))"
    and st1: "lb_inv c e st1" "vips st1 = vips st"
      "linked ((map_of (vips st))(k \<mapsto> upd_vip us v)) (lb_reals st1)"
    and b: "batchRealsUpdate (hash_of e) us v = Some (d, w)" .
  have at: "((map_of (vips st))(k \<mapsto> upd_vip us v)) k = Some (upd_vip us v)" by simp
  have "linked (map_of (vips st)) (lb_reals st)" using i by (simp add: spec_inv_def)
  then have dist: "distinct (map fst (vip_reals v))"
    using linkedD(2) [where vs = "map_of (vips st)" and k = k] Some by blast
  have "vip_full w"
  proof (rule vip_full_batch [OF b _ dist])
    show "vip_full v" using f Some by (simp add: rings_full_def)
    fix es u assume g: "getEndpoints us v = (es, u)" "es \<noteq> []"
    show "\<exists>r. hash_of e (chash v) es (chRingSize v) = Some r \<and> length r = unat (chRingSize v) \<and>
        (\<forall>x\<in>set r. \<exists>y\<in>set es. x = sint (ep_num y))"
      using hash_returns [where k = k and es = es and f = "chash v", OF e(2) st1(1,3) at
        endpoint_nums(1) [OF g(1)] g(2)] spec_size [OF i Some] by simp
  qed
  then show ?thesis
    using f r by (auto simp: rings_full_def program_put st1(2) split: if_splits)
qed

lemma full_same:
  "vip_full v \<Longrightarrow> vip_reals w = vip_reals v \<Longrightarrow> chRing w = chRing v \<Longrightarrow> chRingSize w = chRingSize v \<Longrightarrow> vip_full w"
  by (simp add: vip_full_def)

definition keeps_hash :: "vip_call \<Rightarrow> bool" where
  "keeps_hash x \<longleftrightarrow> (case x of ChangeHash k h \<Rightarrow> False | _ \<Rightarrow> True)"

lemma full_call:
  assumes e: "real_addresses e" "hash_fills e c" "call_ok e x" "keeps_hash x"
    and i: "spec_inv c e st" and f: "rings_full st"
  shows "rings_full (snd (lb_call e x st))"
proof (cases x)
  case (AddVip k g)
  show ?thesis
  proof (cases rule: addVip_cases [of e k g st])
    case (refused st')
    then show ?thesis using f AddVip hull_fields(8) [OF refused(2)] by (simp add: rings_full_def)
  next
    case (added n ns st')
    have "vip_full (new_vip n g s h)" for s h by (simp add: vip_full_def new_vip_def active_def)
    then show ?thesis using f AddVip added(4) hull_fields(8) [OF added(5)]
      by (auto simp: rings_full_def update_conv' split: if_splits)
  qed
next
  case (DelVip k)
  show ?thesis
  proof (cases rule: delVip_cases [of st k e])
    case (deleted v st')
    then show ?thesis using f DelVip hull_fields(8) [OF deleted(4)]
      by (auto simp: rings_full_def delete_conv' split: if_splits)
  next
    case (thrown v st')
    then show ?thesis using known_parses [OF i thrown(1)] by simp
  qed (use f DelVip in simp)
next
  case (ModifyVip k g b)
  show ?thesis
  proof (cases "map_of (vips st) k")
    case None
    then show ?thesis using f ModifyVip by (simp add: modifyVip_def)
  next
    case (Some v)
    let ?w = "if b then setVipFlags g v else unsetVipFlags g v"
    have "vip_full ?w"
      using f Some full_same [of v ?w] by (simp add: rings_full_def setVipFlags_def unsetVipFlags_def)
    moreover have "hull (snd (modifyVip e k g b st)) = hull (put_vip k ?w st)"
      using Some by (simp add: modifyVip_def Let_def)
    from hull_fields(8) [OF this] have "map_of (vips (snd (modifyVip e k g b st))) = (map_of (vips st))(k \<mapsto> ?w)"
      by (simp add: map_of_put)
    ultimately show ?thesis using f ModifyVip by (auto simp: rings_full_def split: if_splits)
  qed
next
  case (ChangeHash k h)
  then show ?thesis using e(4) by (simp add: keeps_hash_def)
next
  case (ModifyReals act rs k)
  then have "no_repeats e rs" using e(3) by (simp add: call_ok_def)
  from full_modifyReals [OF e(1,2) this i f] show ?thesis using ModifyReals by simp
qed

lemma call_step: "lb_step e st (snd (lb_call e x st))"
  by (cases x) (simp_all add: lb_step.intros)

lemma full_run:
  assumes e: "real_addresses e" "\<And>n. bpf_ok e n" "hash_fills e c"
    and "\<forall>x\<in>set xs. call_ok e x \<and> keeps_hash x" "spec_inv c e st" "rings_full st"
  shows "rings_full (snd (run_calls (lb_call e) xs st)) \<and>
    (ring_law e c \<longrightarrow> rings_current e st \<longrightarrow> rings_current e (snd (run_calls (lb_call e) xs st)))"
  using assms(4-)
proof (induction xs arbitrary: st)
  case (Cons x xs)
  have "call_ok e x" "keeps_hash x" using Cons.prems(1) by simp_all
  then have n: "rings_full (snd (lb_call e x st))" "spec_inv c e (snd (lb_call e x st))"
    using full_call [OF e(1,3)] spec_step [OF e, of x st] Cons.prems(2,3) by auto
  have "rings_current e (snd (lb_call e x st))" if "ring_law e c" "rings_current e st"
    using lb_step_rings [OF call_step that(2) _ that(1) e(1)] Cons.prems(2) by (simp add: spec_inv_def)
  then show ?case
    using Cons.IH [of "snd (lb_call e x st)"] Cons.prems(1) n by (simp add: split_def Let_def)
qed simp

section \<open>Every slot leads to a configured real\<close>

lemma slot_leads:
  assumes full: "rings_full st" and i: "spec_inv c e st" and acc: "all_accepted e st"
    and v: "map_of (vips st) k = Some v" and w: "weights (lb_reals st) v b = Some w" "w \<noteq> 0"
    and p: "p < unat (cfg_chRingSize c)"
  shows "\<exists>n a rm w. chRing v ! p = sint n \<and> n \<noteq> - 1 \<and>
    reals (kmaps st) n = Some (real_entry e a rm) \<and> weights (lb_reals st) v a = Some w \<and> w \<noteq> 0"
proof -
  have inv: "lb_inv c e st" and l: "linked (map_of (vips st)) (lb_reals st)" using i by (simp_all add: spec_inv_def)
  have d: "distinct (map fst (vip_reals v))"
    using linkedD(2) [where vs = "map_of (vips st)" and k = k, OF l v] .
  have act: "active (vip_reals v) n \<longleftrightarrow> (\<exists>m. map_of (vip_reals v) n = Some m \<and> weight m \<noteq> 0)" for n
    using d by (simp add: active_def)
  obtain rb where "lb_reals st b = Some rb" "active (vip_reals v) (rm_num rb)"
    using w by (auto simp: weights_def act split: option.splits)
  moreover have f: "vip_full v" using full v by (simp add: rings_full_def)
  moreover have "length (chRing v) = unat (cfg_chRingSize c)"
    using f spec_size [OF i v] by (simp add: vip_full_def)
  then have "chRing v ! p \<in> set (chRing v)" using p by simp
  ultimately obtain n where n: "chRing v ! p = sint n" "active (vip_reals v) n"
    unfolding vip_full_def by blast
  then obtain m where m: "map_of (vip_reals v) n = Some m" "weight m \<noteq> 0" using act by blast
  then have "n \<in> real_nums v" by (auto simp: real_nums_def)
  then obtain a rm where a: "lb_reals st a = Some rm" "rm_num rm = n"
    using linkedD(3) [where vs = "map_of (vips st)" and k = k, OF l v] by blast
  have "n < maxReals c"
    using pool_owner_in [of "set (numbers 1 (maxReals c))" "realNums st" "real_own st" a n] inv a
    by (simp add: lb_inv_def pools_ok_def real_own_def set_numbers)
  then have "n \<noteq> - 1" by (metis word_n1_ge leD)
  moreover have "reals_synced e st" using acc inv by (simp add: lb_inv_def)
  then have "reals (kmaps st) n = Some (real_entry e a rm)" using a by (auto simp: reals_synced_def)
  moreover have "weights (lb_reals st) v a = Some (weight m)" using a m by (simp add: weights_def)
  ultimately show ?thesis using m(2) n(1) by blast
qed

lemma stored_slot:
  assumes "rings_current e st" "map_of (vips st) k = Some v" "p < unat (chRingSize v)"
    "chRing v ! p = sint n" "n \<noteq> - 1"
  shows "ch_rings (kmaps st) (ring_key e (vipNum v) (ring_slot p (sint n))) = Some n"
proof -
  have "sint n \<noteq> - 1"
  proof
    assume "sint n = - 1"
    then have "word_of_int (sint n) = (word_of_int (- 1) :: u32)" by (rule arg_cong)
    then show False using assms(5) by simp
  qed
  then show ?thesis
    using rings_currentD(2,3) [OF assms(1,2)] assms(3,4) by (auto simp: ring_stored_def)
qed

lemma boot_rings:
  assumes "\<And>n. bpf_ok e n" "\<not> testing c"
  shows "rings_current e (boot i c km)" "rings_full (boot i c km)"
  using assms by (simp_all add: rings_current_def rings_full_def all_accepted_def boot_def)


text \<open>One VIP with one real, on rings of one position, whose keys are the numbers of the VIPs.\<close>

definition ring_env :: env where
  "ring_env = ex_env\<lparr>ring_key := \<lambda>v p. v + rp_pos p\<rparr>"

lemma ring_env_laws:
  "real_addresses ring_env" "bpf_ok ring_env n" "hash_fills ring_env ex_config" "ring_law ring_env ex_config"
  using ex_addresses ex_fills
  by (simp_all add: ring_env_def real_addresses_def hash_fills_def ring_law_def ring_slot_def ex_config_def)


end
